(* ===== verification/Usac_Prelude.thy ===== *)
theory Usac_Prelude
  imports Main "HOL-Library.Word"
begin

text \<open>
  Shared vocabulary of the development: Python byte strings, exceptions as values, the
  result type of a fallible pure function, the state-and-exception type of a method that
  mutates an object before it may raise, and the generic list and word lemmas that the
  component theories use.

  Exceptions keep their class, because callers dispatch on it (\<open>except CrcMismatchError\<close>
  before \<open>except ProtocolError\<close>); the message text is not modelled, because no caller reads
  it back.
\<close>

unbundle bit_operations_syntax

section \<open>Collections of rules\<close>

named_theorems codec_simps \<open>rules that evaluate the wire codecs\<close>
named_theorems inv_intros \<open>preservation rules of component invariants\<close>

section \<open>Types\<close>

type_synonym byte = "8 word"
type_synonym bytes = "byte list"

text \<open>The exception classes the modelled code raises or catches.\<close>

datatype exn =
    ValueError
  | ProtocolError
  | CrcMismatchError
  | StructError
  | AssertionError
  | IndexError
  | KeyError
  | TypeError
  | AttributeError
  | OverflowError
  | ZeroDivisionError
  | RuntimeError
  | UnicodeError
  | IntegrityError
  | SpoolConflictError
  | StorageConflictError
  | LeaseConflictError
  | RunPlanError
  | ConfigConflictError
  | ConfigValidationError
  | DeviceUnavailable
  | SessionConflict
  | ConfigurationEtagConflict
  | CaptureStorageUnavailable
  | ConfigurationError
  | ConnectionError
  | TimeoutError
  | OSError

text \<open>
  The subclass relations that an \<open>except\<close> clause of the code depends on:
  \<open>CrcMismatchError\<close> is a \<open>ProtocolError\<close>, which is a \<open>ValueError\<close> (\<open>frame.py\<close>), and
  \<open>RunPlanError\<close>, \<open>ConfigValidationError\<close>, \<open>ConfigurationError\<close> and \<open>UnicodeError\<close> are \<open>ValueError\<close>s.
\<close>

definition is_ProtocolError :: "exn \<Rightarrow> bool" where
  "is_ProtocolError e \<longleftrightarrow> e \<in> {ProtocolError, CrcMismatchError}"

definition is_ValueError :: "exn \<Rightarrow> bool" where
  "is_ValueError e \<longleftrightarrow> is_ProtocolError e \<or>
     e \<in> {ValueError, RunPlanError, ConfigValidationError, ConfigurationError, UnicodeError}"

definition is_OSError :: "exn \<Rightarrow> bool" where
  "is_OSError e \<longleftrightarrow> e \<in> {OSError, ConnectionError, TimeoutError}"

type_synonym 'a res = "exn + 'a"

section \<open>Fallible pure functions\<close>

definition rbind :: "'a res \<Rightarrow> ('a \<Rightarrow> 'b res) \<Rightarrow> 'b res" where
  "rbind m f = (case m of Inl e \<Rightarrow> Inl e | Inr x \<Rightarrow> f x)"

lemma rbind_simps [simp]:
  "rbind (Inl e) f = Inl e"
  "rbind (Inr x) f = f x"
  by (simp_all add: rbind_def)

lemma rbind_Inr_iff [simp]: "rbind m f = Inr y \<longleftrightarrow> (\<exists>x. m = Inr x \<and> f x = Inr y)"
  by (cases m) simp_all

lemma rbind_Inl_iff:
  "rbind m f = Inl e \<longleftrightarrow> m = Inl e \<or> (\<exists>x. m = Inr x \<and> f x = Inl e)"
  by (cases m) auto

lemma rbind_cong [fundef_cong]:
  "m = m' \<Longrightarrow> (\<And>x. m' = Inr x \<Longrightarrow> f x = f' x) \<Longrightarrow> rbind m f = rbind m' f'"
  by (cases m') simp_all

lemma rbind_assoc: "rbind (rbind m f) g = rbind m (\<lambda>x. rbind (f x) g)"
  by (cases m) simp_all

lemma if_Inl_eq_Inr [simp]:
  "(if b then Inl e else m) = Inr x \<longleftrightarrow> \<not> b \<and> m = Inr x"
  "(if b then m else Inl e) = Inr x \<longleftrightarrow> b \<and> m = Inr x"
  by simp_all

definition is_ok :: "'a res \<Rightarrow> bool" where
  "is_ok m \<longleftrightarrow> (\<exists>x. m = Inr x)"

lemma is_ok_simps [simp]: "is_ok (Inr x)" "\<not> is_ok (Inl e)"
  by (simp_all add: is_ok_def)

text \<open>A loop that stops at the first exception: \<open>tuple(f(x) for x in xs)\<close>.\<close>

fun rmap :: "('a \<Rightarrow> 'b res) \<Rightarrow> 'a list \<Rightarrow> 'b list res" where
  "rmap f [] = Inr []"
| "rmap f (x # xs) = rbind (f x) (\<lambda>y. rbind (rmap f xs) (\<lambda>ys. Inr (y # ys)))"

lemma rmap_Inr_iff: "rmap f xs = Inr ys \<longleftrightarrow> list_all2 (\<lambda>x y. f x = Inr y) xs ys"
  by (induction xs arbitrary: ys) (auto simp: list_all2_Cons1)

lemma rmap_length: "rmap f xs = Inr ys \<Longrightarrow> length ys = length xs"
  by (auto simp: rmap_Inr_iff dest: list_all2_lengthD)

section \<open>Methods that mutate an object and may raise\<close>

text \<open>
  A Python method that raises keeps the mutations it made before; so the state is returned
  beside the outcome in both cases.
\<close>

type_synonym ('s, 'a) meth = "'s \<Rightarrow> 'a res \<times> 's"

definition mret :: "'a \<Rightarrow> ('s, 'a) meth" where
  "mret x = (\<lambda>s. (Inr x, s))"

definition mraise :: "exn \<Rightarrow> ('s, 'a) meth" where
  "mraise e = (\<lambda>s. (Inl e, s))"

definition mlift :: "'a res \<Rightarrow> ('s, 'a) meth" where
  "mlift r = (\<lambda>s. (r, s))"

definition mget :: "('s, 's) meth" where
  "mget = (\<lambda>s. (Inr s, s))"

definition mupd :: "('s \<Rightarrow> 's) \<Rightarrow> ('s, unit) meth" where
  "mupd f = (\<lambda>s. (Inr (), f s))"

definition mbind :: "('s, 'a) meth \<Rightarrow> ('a \<Rightarrow> ('s, 'b) meth) \<Rightarrow> ('s, 'b) meth" where
  "mbind m f = (\<lambda>s. case m s of (Inl e, s') \<Rightarrow> (Inl e, s') | (Inr x, s') \<Rightarrow> f x s')"

definition mguard :: "bool \<Rightarrow> exn \<Rightarrow> ('s, unit) meth" where
  "mguard ok e = (if ok then mret () else mraise e)"

lemmas meth_defs = mret_def mraise_def mlift_def mget_def mupd_def mguard_def

lemma mbind_run:
  "mbind m f s = (case m s of (Inl e, s') \<Rightarrow> (Inl e, s') | (Inr x, s') \<Rightarrow> f x s')"
  by (simp add: mbind_def)

lemma mret_run [simp]: "mret x s = (Inr x, s)" by (simp add: mret_def)
lemma mraise_run [simp]: "mraise e s = (Inl e, s)" by (simp add: mraise_def)
lemma mlift_run [simp]: "mlift r s = (r, s)" by (simp add: mlift_def)
lemma mget_run [simp]: "mget s = (Inr s, s)" by (simp add: mget_def)
lemma mupd_run [simp]: "mupd f s = (Inr (), f s)" by (simp add: mupd_def)

lemma mguard_run: "mguard b e s = (if b then Inr () else Inl e, s)"
  by (simp add: mguard_def)

lemma mbind_ok_iff:
  "mbind m f s = (Inr y, s') \<longleftrightarrow> (\<exists>x s1. m s = (Inr x, s1) \<and> f x s1 = (Inr y, s'))"
  by (auto simp: mbind_run split: prod.splits sum.splits)

lemma mbind_mret [simp]: "mbind (mret x) f s = f x s"
  by (simp add: mbind_run)

lemma mbind_mraise [simp]: "mbind (mraise e) f s = (Inl e, s)"
  by (simp add: mbind_run)

lemma mbind_mget [simp]: "mbind mget f s = f s s"
  by (simp add: mbind_run)

lemma mbind_mupd [simp]: "mbind (mupd g) f s = f () (g s)"
  by (simp add: mbind_run)

lemma mbind_mlift [simp]: "mbind (mlift (Inr x)) f s = f x s" "mbind (mlift (Inl e)) f s = (Inl e, s)"
  by (simp_all add: mbind_run)

lemma mbind_guard [simp]:
  "mbind (mguard b e) f s = (if b then f () s else (Inl e, s))"
  by (simp add: mbind_run mguard_run)

text \<open>
  A method keeps an invariant when its final state satisfies it, whether it returned or raised.
\<close>

definition keeps :: "('s \<Rightarrow> bool) \<Rightarrow> ('s, 'a) meth \<Rightarrow> bool" where
  "keeps I m \<longleftrightarrow> (\<forall>s. I s \<longrightarrow> I (snd (m s)))"

lemma keepsD: "keeps I m \<Longrightarrow> I s \<Longrightarrow> I (snd (m s))"
  by (simp add: keeps_def)

lemma keeps_basic [intro!]:
  "keeps I (mret x)" "keeps I (mraise e)" "keeps I (mlift r)" "keeps I mget" "keeps I (mguard b e)"
  by (simp_all add: keeps_def mguard_run)

lemma keeps_bind [intro]:
  assumes "keeps I m" and "\<And>x. keeps I (f x)"
  shows "keeps I (mbind m f)"
proof -
  have "I (snd (mbind m f s))" if "I s" for s
  proof (cases "m s")
    case (Pair r s')
    then have "I s'" using keepsD [OF assms(1) that] by simp
    then show ?thesis
      using Pair keepsD [OF assms(2)] by (cases r) (simp_all add: mbind_run)
  qed
  then show ?thesis by (simp add: keeps_def)
qed

lemma keeps_mupd: "(\<And>s. I s \<Longrightarrow> I (g s)) \<Longrightarrow> keeps I (mupd g)"
  by (simp add: keeps_def)

lemma keeps_if: "keeps I m \<Longrightarrow> keeps I m' \<Longrightarrow> keeps I (if c then m else m')"
  by simp

lemma keeps_option:
  "keeps I m \<Longrightarrow> (\<And>x. keeps I (g x)) \<Longrightarrow> keeps I (case v of None \<Rightarrow> m | Some x \<Rightarrow> g x)"
  by (simp split: option.split)

lemmas keeps_rules = keeps_basic keeps_if keeps_option keeps_bind keeps_mupd

subsection \<open>Exception handlers, loops and parts of an object\<close>

text \<open>\<open>try: m finally: cleanup\<close>: an exception of the cleanup replaces the outcome of the body.\<close>

definition mfinally :: "('s, 'a) meth \<Rightarrow> ('s, unit) meth \<Rightarrow> ('s, 'a) meth" where
  "mfinally m cleanup s =
     (case m s of (r, s') \<Rightarrow> (case cleanup s' of (Inl e, s'') \<Rightarrow> (Inl e, s'') | (Inr _, s'') \<Rightarrow> (r, s'')))"

text \<open>\<open>try: m except Exception as e: handler e\<close>; a handler that does not apply raises again.\<close>

definition mcatch :: "('s, 'a) meth \<Rightarrow> (exn \<Rightarrow> ('s, 'a) meth) \<Rightarrow> ('s, 'a) meth" where
  "mcatch m handler s = (case m s of (Inl e, s') \<Rightarrow> handler e s' | (Inr x, s') \<Rightarrow> (Inr x, s'))"

text \<open>\<open>for x in xs: f(x)\<close>\<close>

fun mfor :: "('a \<Rightarrow> ('s, unit) meth) \<Rightarrow> 'a list \<Rightarrow> ('s, unit) meth" where
  "mfor f [] = mret ()"
| "mfor f (x # xs) = mbind (f x) (\<lambda>_. mfor f xs)"

text \<open>A call on an attribute of an object, which the object keeps after the call.\<close>

definition mzoom :: "('s \<Rightarrow> 'p) \<Rightarrow> ('p \<Rightarrow> 's \<Rightarrow> 's) \<Rightarrow> ('p, 'a) meth \<Rightarrow> ('s, 'a) meth" where
  "mzoom part put m s = (case m (part s) of (r, p) \<Rightarrow> (r, put p s))"

lemma mfinally_run:
  "mfinally m cleanup s =
     (case m s of (r, s') \<Rightarrow> (case cleanup s' of (Inl e, s'') \<Rightarrow> (Inl e, s'') | (Inr _, s'') \<Rightarrow> (r, s'')))"
  by (simp add: mfinally_def)

lemma mcatch_run: "mcatch m h s = (case m s of (Inl e, s') \<Rightarrow> h e s' | (Inr x, s') \<Rightarrow> (Inr x, s'))"
  by (simp add: mcatch_def)

lemma mfinally_ok_iff:
  "mfinally m cleanup s = (Inr x, s') \<longleftrightarrow> (\<exists>s1 u. m s = (Inr x, s1) \<and> cleanup s1 = (Inr u, s'))"
  by (auto simp: mfinally_def split: prod.splits sum.splits)

lemma keeps_mfinally: "keeps I m \<Longrightarrow> keeps I c \<Longrightarrow> keeps I (mfinally m c)"
  unfolding keeps_def mfinally_run by (fastforce split: prod.splits sum.splits)

lemma keeps_mcatch: "keeps I m \<Longrightarrow> (\<And>e. keeps I (h e)) \<Longrightarrow> keeps I (mcatch m h)"
  unfolding keeps_def mcatch_run by (fastforce split: prod.splits sum.splits)

lemma keeps_mfor: "(\<And>x. x \<in> set xs \<Longrightarrow> keeps I (f x)) \<Longrightarrow> keeps I (mfor f xs)"
  by (induction xs) (auto intro!: keeps_bind)

lemma keeps_mzoom:
  assumes "\<And>s. I s \<Longrightarrow> J (part s)" "keeps J m" "\<And>s p. I s \<Longrightarrow> J p \<Longrightarrow> I (put p s)"
  shows "keeps I (mzoom part put m)"
  using assms unfolding keeps_def mzoom_def by (fastforce split: prod.splits)

section \<open>Generic lemmas\<close>

lemma take_drop_append_id [simp]: "length xs = n \<Longrightarrow> take n (xs @ ys) = xs"
  "length xs = n \<Longrightarrow> drop n (xs @ ys) = ys"
  by simp_all

lemma find_SomeD: "find P xs = Some x \<Longrightarrow> P x \<and> x \<in> set xs"
  by (auto simp: find_Some_iff in_set_conv_nth)

lemma all_zero_replicate: "(\<forall>x \<in> set xs. x = 0) \<longleftrightarrow> xs = replicate (length xs) 0"
  by (metis in_set_replicate replicate_length_same)

text \<open>
  Python's test for unknown bits, \<open>x & ~mask\<close>, on an unbounded integer: it is zero exactly
  when the integer is a natural number below the next power of two.
\<close>

lemma int_and_not_mask_iff:
  fixes x :: int
  shows "x AND NOT (mask n) = 0 \<longleftrightarrow> 0 \<le> x \<and> x < 2 ^ n"
proof -
  have "x AND NOT (mask n) = 0 \<longleftrightarrow> take_bit n x = x"
    by (auto simp: bit_eq_iff bit_simps)
  then show ?thesis
    by (simp add: take_bit_int_eq_self_iff)
qed

end
