(* ===== verification/Struct_Codec.thy ===== *)
theory Struct_Codec
  imports Usac_Prelude
begin

text \<open>
  The part of Python's \<open>struct\<close> module that the protocol package uses: little-endian standard
  sizes, the format characters \<open>ns\<close>, \<open>B\<close>, \<open>H\<close>, \<open>I\<close>, \<open>Q\<close>, \<open>i\<close> and \<open>nx\<close>, and \<open>pack\<close>,
  \<open>unpack\<close>, \<open>unpack_from\<close> and \<open>calcsize\<close> over a format. A format string such as
  \<open>"<16sBBH"\<close> is the list \<open>[Fs 16, FB, FB, FH]\<close>. Packing an integer outside its range raises
  \<open>struct.error\<close>; packing a byte string pads it with zeros or cuts it to the field's width, as
  \<open>struct\<close> does; padding bytes are written as zero and skipped, whatever they hold, when read.

  The lemmas relate the two directions once for every format, and the two locales state what a
  message codec promises on top of them. Every codec of the protocol package is an
  interpretation of one of them.
\<close>

section \<open>Little-endian integers\<close>

fun le_bytes :: "nat \<Rightarrow> int \<Rightarrow> bytes" where
  "le_bytes 0 x = []"
| "le_bytes (Suc n) x = word_of_int x # le_bytes n (x div 256)"

fun le_int :: "bytes \<Rightarrow> int" where
  "le_int [] = 0"
| "le_int (b # bs) = uint b + 256 * le_int bs"

lemma length_le_bytes [simp]: "length (le_bytes n x) = n"
  by (induction n arbitrary: x) simp_all

lemma uint_byte_bounds [simp]: "0 \<le> uint (b :: byte)" "uint (b :: byte) < 256"
  using uint_range_size [of b] by (simp_all add: word_size)

lemma le_int_nonneg [simp]: "0 \<le> le_int bs"
  by (induction bs) simp_all

lemma le_int_bound: "le_int bs < 256 ^ length bs"
proof (induction bs)
  case (Cons b bs)
  have "uint b + 256 * le_int bs < 256 * (le_int bs + 1)"
    using uint_byte_bounds(2) [of b] by (simp add: distrib_left)
  also have "\<dots> \<le> 256 * 256 ^ length bs"
    using Cons.IH by simp
  finally show ?case by simp
qed simp

lemma uint_word_of_int_byte: "uint (word_of_int x :: byte) = x mod 256"
  by (simp add: uint_word_of_int)

lemma le_int_le_bytes: "le_int (le_bytes n x) = x mod 256 ^ n"
proof (induction n arbitrary: x)
  case (Suc n)
  have "le_int (le_bytes (Suc n) x) = x mod 256 + 256 * (x div 256 mod 256 ^ n)"
    by (simp add: uint_word_of_int_byte Suc.IH)
  also have "\<dots> = x mod (256 * 256 ^ n)"
    by (simp add: zmod_zmult2_eq)
  finally show ?case by simp
qed simp

lemma le_int_le_bytes_in_range [simp]:
  "0 \<le> x \<Longrightarrow> x < 256 ^ n \<Longrightarrow> le_int (le_bytes n x) = x"
  by (simp add: le_int_le_bytes)

lemma le_bytes_le_int [simp]: "length bs = n \<Longrightarrow> le_bytes n (le_int bs) = bs"
proof (induction bs arbitrary: n)
  case (Cons b bs)
  have "(uint b + 256 * le_int bs) div 256 = le_int bs"
    using uint_byte_bounds [of b] by simp
  moreover have "word_of_int (uint b + 256 * le_int bs) = b"
  proof -
    have "uint (word_of_int (uint b + 256 * le_int bs) :: byte) = uint b"
      by (subst uint_word_of_int_byte) simp
    then show ?thesis by (simp only: word_uint_eq_iff)
  qed
  ultimately show ?case
    using Cons by auto
qed simp

section \<open>Formats\<close>

datatype fmt = Fs nat | FB | FH | FI | FQ | Fi | Fx nat

datatype pyval = PInt int | PBytes bytes

fun fsize :: "fmt \<Rightarrow> nat" where
  "fsize (Fs n) = n"
| "fsize FB = 1"
| "fsize FH = 2"
| "fsize FI = 4"
| "fsize FQ = 8"
| "fsize Fi = 4"
| "fsize (Fx n) = n"

fun calcsize :: "fmt list \<Rightarrow> nat" where
  "calcsize [] = 0"
| "calcsize (f # fs) = fsize f + calcsize fs"

text \<open>The integers a format character accepts: an interval that starts at the given bound.\<close>

fun flow :: "fmt \<Rightarrow> int" where
  "flow Fi = - (2 ^ 31)"
| "flow f = 0"

definition frange :: "fmt \<Rightarrow> int \<Rightarrow> bool" where
  "frange f x \<longleftrightarrow> flow f \<le> x \<and> x < flow f + 256 ^ fsize f"

fun pack1 :: "fmt \<Rightarrow> pyval \<Rightarrow> bytes res" where
  "pack1 (Fs n) (PBytes b) = Inr (take n (b @ replicate n 0))"
| "pack1 (Fs n) (PInt x) = Inl StructError"
| "pack1 f (PInt x) = (if frange f x then Inr (le_bytes (fsize f) x) else Inl StructError)"
| "pack1 f (PBytes b) = Inl StructError"

definition to_signed32 :: "int \<Rightarrow> int" where
  "to_signed32 u = (if 2 ^ 31 \<le> u then u - 2 ^ 32 else u)"

fun unpack1 :: "fmt \<Rightarrow> bytes \<Rightarrow> pyval" where
  "unpack1 (Fs n) bs = PBytes bs"
| "unpack1 Fi bs = PInt (to_signed32 (le_int bs))"
| "unpack1 f bs = PInt (le_int bs)"

fun is_pad :: "fmt \<Rightarrow> bool" where
  "is_pad (Fx n) = True"
| "is_pad f = False"

fun pack :: "fmt list \<Rightarrow> pyval list \<Rightarrow> bytes res" where
  "pack [] [] = Inr []"
| "pack [] (v # vs) = Inl StructError"
| "pack (f # fs) vs =
     (if is_pad f then rbind (pack fs vs) (\<lambda>r. Inr (replicate (fsize f) 0 @ r))
      else case vs of [] \<Rightarrow> Inl StructError
           | v # vs' \<Rightarrow> rbind (pack1 f v) (\<lambda>b. rbind (pack fs vs') (\<lambda>r. Inr (b @ r))))"

fun unpack_go :: "fmt list \<Rightarrow> bytes \<Rightarrow> pyval list" where
  "unpack_go [] bs = []"
| "unpack_go (f # fs) bs =
     (if is_pad f then unpack_go fs (drop (fsize f) bs)
      else unpack1 f (take (fsize f) bs) # unpack_go fs (drop (fsize f) bs))"

definition unpack :: "fmt list \<Rightarrow> bytes \<Rightarrow> pyval list res" where
  "unpack fs bs = (if length bs = calcsize fs then Inr (unpack_go fs bs) else Inl StructError)"

definition unpack_from :: "fmt list \<Rightarrow> bytes \<Rightarrow> nat \<Rightarrow> pyval list res" where
  "unpack_from fs bs off =
     (if off + calcsize fs \<le> length bs then Inr (unpack_go fs (drop off bs)) else Inl StructError)"

text \<open>
  A tuple of values fits a format when every byte string has exactly its field's width and
  every integer is in range; it is exact when the byte strings have their widths.
\<close>

fun fits1 :: "fmt \<Rightarrow> pyval \<Rightarrow> bool" where
  "fits1 (Fs n) v = (case v of PBytes b \<Rightarrow> length b = n | PInt _ \<Rightarrow> False)"
| "fits1 f v = (case v of PInt x \<Rightarrow> frange f x | PBytes _ \<Rightarrow> False)"

fun fits :: "fmt list \<Rightarrow> pyval list \<Rightarrow> bool" where
  "fits [] vs = (vs = [])"
| "fits (f # fs) vs =
     (if is_pad f then fits fs vs
      else case vs of [] \<Rightarrow> False | v # vs' \<Rightarrow> fits1 f v \<and> fits fs vs')"

fun exact1 :: "fmt \<Rightarrow> pyval \<Rightarrow> bool" where
  "exact1 (Fs n) (PBytes b) = (length b = n)"
| "exact1 f v = True"

fun exact :: "fmt list \<Rightarrow> pyval list \<Rightarrow> bool" where
  "exact [] vs = True"
| "exact (f # fs) vs =
     (if is_pad f then exact fs vs
      else case vs of [] \<Rightarrow> True | v # vs' \<Rightarrow> exact1 f v \<and> exact fs vs')"

fun pads_zero :: "fmt list \<Rightarrow> bytes \<Rightarrow> bool" where
  "pads_zero [] bs = True"
| "pads_zero (f # fs) bs =
     ((is_pad f \<longrightarrow> take (fsize f) bs = replicate (fsize f) 0) \<and>
      pads_zero fs (drop (fsize f) bs))"

text \<open>The fields of an unpacked tuple, read by position as the constructors do.\<close>

fun vint :: "pyval \<Rightarrow> int" where
  "vint (PInt x) = x"
| "vint (PBytes b) = 0"

fun vbytes :: "pyval \<Rightarrow> bytes" where
  "vbytes (PBytes b) = b"
| "vbytes (PInt x) = []"

section \<open>Both directions, for every format\<close>

lemma fits_Cons_iff:
  "fits (FB # fs) vs \<longleftrightarrow> (\<exists>x vs'. vs = PInt x # vs' \<and> frange FB x \<and> fits fs vs')"
  "fits (FH # fs) vs \<longleftrightarrow> (\<exists>x vs'. vs = PInt x # vs' \<and> frange FH x \<and> fits fs vs')"
  "fits (FI # fs) vs \<longleftrightarrow> (\<exists>x vs'. vs = PInt x # vs' \<and> frange FI x \<and> fits fs vs')"
  "fits (FQ # fs) vs \<longleftrightarrow> (\<exists>x vs'. vs = PInt x # vs' \<and> frange FQ x \<and> fits fs vs')"
  "fits (Fi # fs) vs \<longleftrightarrow> (\<exists>x vs'. vs = PInt x # vs' \<and> frange Fi x \<and> fits fs vs')"
  "fits (Fs n # fs) vs \<longleftrightarrow> (\<exists>b vs'. vs = PBytes b # vs' \<and> length b = n \<and> fits fs vs')"
  "fits (Fx n # fs) vs \<longleftrightarrow> fits fs vs"
  by (auto split: list.splits pyval.splits)

lemma fits1_iff: "\<not> is_pad f \<Longrightarrow> fits1 f v \<longleftrightarrow> is_ok (pack1 f v) \<and> exact1 f v"
  by (cases f; cases v) auto

lemma fits_iff: "fits fs vs \<longleftrightarrow> is_ok (pack fs vs) \<and> exact fs vs"
proof (induction fs arbitrary: vs)
  case Nil
  then show ?case by (cases vs) simp_all
next
  case (Cons f fs)
  then show ?case
    by (cases vs) (auto simp: fits1_iff is_ok_def)
qed

lemma fits_packs: "fits fs vs \<Longrightarrow> \<exists>bs. pack fs vs = Inr bs"
  by (simp add: fits_iff is_ok_def)

lemma pack1_length: "pack1 f v = Inr b \<Longrightarrow> length b = fsize f"
  by (cases f; cases v) auto

lemma pack_length: "pack fs vs = Inr bs \<Longrightarrow> length bs = calcsize fs"
proof (induction fs arbitrary: vs bs)
  case Nil
  then show ?case by (cases vs) simp_all
next
  case (Cons f fs)
  then show ?case
    by (auto simp: pack1_length split: if_splits list.splits)
qed

definition is_uint :: "fmt \<Rightarrow> bool" where
  "is_uint f \<longleftrightarrow> f \<in> {FB, FH, FI, FQ}"

lemma fmt_cases4:
  obtains n where "f = Fs n" | n where "f = Fx n" | "f = Fi" | "is_uint f"
  by (cases f) (auto simp: is_uint_def)

lemma is_uint_pack1:
  "is_uint f \<Longrightarrow> pack1 f (PInt x) =
     (if 0 \<le> x \<and> x < 256 ^ fsize f then Inr (le_bytes (fsize f) x) else Inl StructError)"
  "is_uint f \<Longrightarrow> pack1 f (PBytes b) = Inl StructError"
  "is_uint f \<Longrightarrow> unpack1 f b = PInt (le_int b)"
  by (auto simp: is_uint_def frange_def simp del: le_bytes.simps)

lemma unpack1_pack1:
  assumes "pack1 f v = Inr b" and "exact1 f v" and "\<not> is_pad f"
  shows "unpack1 f b = v"
proof (cases f rule: fmt_cases4)
  case 3
  note Fi = 3
  with assms obtain x where v: "v = PInt x" and r: "frange Fi x" and b: "b = le_bytes 4 x"
    by (cases v) (auto split: if_splits)
  have "le_int b = x mod 2 ^ 32"
    by (simp add: b le_int_le_bytes)
  moreover have "to_signed32 (x mod 2 ^ 32) = x"
  proof (cases "0 \<le> x")
    case True
    then show ?thesis using r by (simp add: to_signed32_def frange_def)
  next
    case False
    have "x mod 2 ^ 32 = (x + 2 ^ 32) mod 2 ^ 32"
      by simp
    also have "\<dots> = x + 2 ^ 32"
      using False r by (intro mod_pos_pos_trivial) (simp_all add: frange_def)
    finally have "x mod 2 ^ 32 = x + 2 ^ 32" .
    then show ?thesis using r by (simp add: to_signed32_def frange_def)
  qed
  ultimately show ?thesis by (simp add: v Fi)
next
  case (1 n)
  then show ?thesis using assms by (cases v) auto
next
  case 2
  then show ?thesis using assms by simp
next
  case 4
  then show ?thesis using assms by (cases v) (auto simp: is_uint_pack1 split: if_splits)
qed

lemma unpack_go_pack:
  assumes "pack fs vs = Inr bs" and "exact fs vs"
  shows "unpack_go fs (bs @ r) = vs"
  using assms
proof (induction fs arbitrary: vs bs)
  case Nil
  then show ?case by (cases vs) simp_all
next
  case (Cons f fs)
  show ?case
  proof (cases "is_pad f")
    case True
    with Cons show ?thesis by (auto simp: append_assoc)
  next
    case False
    with Cons.prems obtain v vs' b r' where vs: "vs = v # vs'" and b: "pack1 f v = Inr b"
      and r': "pack fs vs' = Inr r'" "bs = b @ r'" and ex: "exact1 f v" "exact fs vs'"
      by (auto split: list.splits)
    have "length b = fsize f"
      using b by (rule pack1_length)
    then show ?thesis
      using False vs r' Cons.IH [OF r'(1) ex(2)] unpack1_pack1 [OF b ex(1) False] by simp
  qed
qed

lemma unpack_pack: "pack fs vs = Inr bs \<Longrightarrow> exact fs vs \<Longrightarrow> unpack fs bs = Inr vs"
  using unpack_go_pack [of fs vs bs "[]"] by (simp add: unpack_def pack_length)

lemma unpack_from_pack:
  "pack fs vs = Inr bs \<Longrightarrow> exact fs vs \<Longrightarrow> length pre = off \<Longrightarrow>
   unpack_from fs (pre @ bs @ r) off = Inr vs"
  by (simp add: unpack_from_def pack_length unpack_go_pack)

lemma pack1_unpack1:
  assumes "length b = fsize f" and "\<not> is_pad f"
  shows "pack1 f (unpack1 f b) = Inr b"
proof (cases f rule: fmt_cases4)
  case 3
  note Fi = 3
  then have len: "length b = 4" using assms by simp
  have bound: "le_int b < 2 ^ 32"
    using le_int_bound [of b] len by simp
  have "le_bytes 4 (to_signed32 (le_int b)) = b"
  proof (cases "2 ^ 31 \<le> le_int b")
    case True
    have "le_bytes 4 (le_int b - 2 ^ 32) = le_bytes 4 (le_int b)"
    proof -
      have "le_int (le_bytes 4 (le_int b - 2 ^ 32)) = le_int (le_bytes 4 (le_int b))"
        by (simp only: le_int_le_bytes) (simp add: mod_diff_right_eq)
      then show ?thesis
        by (metis le_bytes_le_int length_le_bytes)
    qed
    then show ?thesis using True len by (simp add: to_signed32_def)
  next
    case False
    then show ?thesis using len by (simp add: to_signed32_def)
  qed
  moreover have "frange Fi (to_signed32 (le_int b))"
    using bound order_trans [OF _ le_int_nonneg [of b], of "- 2147483648"]
    by (simp add: frange_def to_signed32_def)
  ultimately show ?thesis by (simp add: Fi)
next
  case 4
  then show ?thesis using assms le_int_bound [of b] by (simp add: is_uint_pack1)
qed (use assms in simp_all)

lemma pack_unpack_go:
  assumes "pads_zero fs bs" and "calcsize fs \<le> length bs"
  shows "pack fs (unpack_go fs bs) = Inr (take (calcsize fs) bs)"
  using assms
proof (induction fs arbitrary: bs)
  case (Cons f fs)
  have IH: "pack fs (unpack_go fs (drop (fsize f) bs))
      = Inr (take (calcsize fs) (drop (fsize f) bs))"
    using Cons by simp
  have split: "take (fsize f + calcsize fs) bs
      = take (fsize f) bs @ take (calcsize fs) (drop (fsize f) bs)"
    by (simp add: take_add)
  show ?case
  proof (cases "is_pad f")
    case True
    then show ?thesis using Cons.prems IH split by simp
  next
    case False
    have "pack1 f (unpack1 f (take (fsize f) bs)) = Inr (take (fsize f) bs)"
      using Cons.prems False by (intro pack1_unpack1) auto
    then show ?thesis using False IH split by simp
  qed
qed simp

lemma pack_unpack: "unpack fs bs = Inr vs \<Longrightarrow> pads_zero fs bs \<Longrightarrow> pack fs vs = Inr bs"
  using pack_unpack_go [of fs bs] by (simp add: unpack_def split: if_splits)

lemma fits1_unpack1: "length b = fsize f \<Longrightarrow> \<not> is_pad f \<Longrightarrow> fits1 f (unpack1 f b)"
  using pack1_unpack1 [of b f] by (cases f) (auto simp: fits1_iff)

lemma fits_unpack_go: "calcsize fs \<le> length bs \<Longrightarrow> fits fs (unpack_go fs bs)"
proof (induction fs arbitrary: bs)
  case (Cons f fs)
  then show ?case by (simp add: fits1_unpack1)
qed simp

lemma fits_unpack: "unpack fs bs = Inr vs \<Longrightarrow> fits fs vs"
  by (auto simp: unpack_def fits_unpack_go split: if_splits)

lemma fits_unpack_from: "unpack_from fs bs off = Inr vs \<Longrightarrow> fits fs vs"
  by (auto simp: unpack_from_def fits_unpack_go split: if_splits)

lemma unpack_length: "unpack fs bs = Inr vs \<Longrightarrow> length bs = calcsize fs"
  by (simp add: unpack_def split: if_splits)

text \<open>Consecutive calls of \<open>pack\<close> and one call with the joined format write the same bytes.\<close>

fun arity :: "fmt list \<Rightarrow> nat" where
  "arity [] = 0"
| "arity (f # fs) = (if is_pad f then arity fs else Suc (arity fs))"

lemma pack_append:
  "length us = arity fs \<Longrightarrow>
   pack (fs @ gs) (us @ vs) = rbind (pack fs us) (\<lambda>a. rbind (pack gs vs) (\<lambda>b. Inr (a @ b)))"
proof (induction fs arbitrary: us)
  case Nil
  then show ?case by (cases "pack gs vs") simp_all
next
  case (Cons f fs)
  show ?case
  proof (cases "is_pad f")
    case True
    then show ?thesis
      using Cons by (cases "pack fs us"; cases "pack gs vs") simp_all
  next
    case False
    then obtain u us' where us: "us = u # us'" "length us' = arity fs"
      using Cons.prems by (cases us) simp_all
    then show ?thesis
      using False Cons.IH [OF us(2)]
      by (cases "pack1 f u"; cases "pack fs us'"; cases "pack gs vs") simp_all
  qed
qed

lemma unpack_go_take: "calcsize fs \<le> n \<Longrightarrow> unpack_go fs (take n bs) = unpack_go fs bs"
  by (induction fs arbitrary: n bs) (simp_all add: drop_take min_def)

lemma calcsize_append: "calcsize (fs @ gs) = calcsize fs + calcsize gs"
  by (induction fs) simp_all

lemma unpack_go_append:
  "unpack_go (fs @ gs) bs = unpack_go fs bs @ unpack_go gs (drop (calcsize fs) bs)"
  by (induction fs arbitrary: bs) (simp_all add: add.commute)

lemma pads_zero_pack: "pack fs vs = Inr bs \<Longrightarrow> pads_zero fs (bs @ r)"
proof (induction fs arbitrary: vs bs)
  case (Cons f fs)
  then show ?case
    by (auto simp: pack1_length split: if_splits list.splits)
qed simp

text \<open>
  From here on a tuple that fits a format is taken apart by \<open>fits_Cons_iff\<close>, and \<open>pack\<close>
  computes only where its rules are named.
\<close>

declare fits.simps(2) [simp del] fits_Cons_iff [simp]
declare pack.simps(3) [simp del, codec_simps] frange_def [codec_simps]

section \<open>What a message codec promises\<close>

text \<open>
  \<open>wire_codec\<close>: decoding an encoded message returns it. \<open>canonical_codec\<close>: besides, only the
  encoder's own output decodes, so a message has exactly one byte string. \<open>sized_codec\<close>: the
  encoder's output has a fixed length, the one the length policy of \<open>message_lengths.py\<close> names.
\<close>

locale wire_codec =
  fixes enc :: "'m \<Rightarrow> bytes res" and dec :: "bytes \<Rightarrow> 'm res"
  assumes dec_enc: "enc m = Inr bs \<Longrightarrow> dec bs = Inr m"
begin

lemma enc_inj: "enc m = Inr bs \<Longrightarrow> enc m' = Inr bs \<Longrightarrow> m = m'"
  by (metis dec_enc sum.inject(2))

lemma dec_enc_bind: "is_ok (enc m) \<Longrightarrow> rbind (enc m) dec = Inr m"
  by (auto simp: is_ok_def dec_enc)

end

locale canonical_codec = wire_codec +
  assumes enc_dec: "dec bs = Inr m \<Longrightarrow> enc m = Inr bs"
begin

lemma dec_iff: "dec bs = Inr m \<longleftrightarrow> enc m = Inr bs"
  using dec_enc enc_dec by blast

lemma dec_inj: "dec bs = Inr m \<Longrightarrow> dec bs' = Inr m \<Longrightarrow> bs = bs'"
  by (metis enc_dec sum.inject(2))

end

locale sized_codec = wire_codec +
  fixes size_of :: nat
  assumes enc_length: "enc m = Inr bs \<Longrightarrow> length bs = size_of"

locale sized_canonical_codec = canonical_codec + sized_codec
begin

lemma dec_length: "dec bs = Inr m \<Longrightarrow> length bs = size_of"
  using enc_dec enc_length by blast

end

end
