(* ===== verification/Digest.thy ===== *)
theory Digest
  imports Usac_Prelude
begin

text \<open>
  The two checksums of the standard library that the protocol binds its data with:
  \<open>zlib.crc32\<close> (CRC-32/ISO-HDLC, reflected polynomial \<open>0xEDB88320\<close>, initial and final
  complement), behind \<open>crc32_iso_hdlc\<close> of \<open>frame.py\<close>, and \<open>hashlib.sha256(...).digest()\<close>
  (FIPS 180-4). Both are executable on words. The lemmas say what the development uses of them:
  the digest is 32 bytes long, the CRC fits 32 bits, and a change confined to one byte of the
  data always changes the CRC.
\<close>

section \<open>CRC-32/ISO-HDLC\<close>

definition crc_poly :: "32 word" where
  "crc_poly = 0xEDB88320"

definition crc_shift :: "32 word \<Rightarrow> 32 word" where
  "crc_shift c = (if bit c 0 then drop_bit 1 c XOR crc_poly else drop_bit 1 c)"

definition crc_byte :: "32 word \<Rightarrow> byte \<Rightarrow> 32 word" where
  "crc_byte c b =
     crc_shift (crc_shift (crc_shift (crc_shift (crc_shift (crc_shift (crc_shift (crc_shift
       (c XOR ucast b))))))))"

fun crc_update :: "32 word \<Rightarrow> bytes \<Rightarrow> 32 word" where
  "crc_update c [] = c"
| "crc_update c (b # bs) = crc_update (crc_byte c b) bs"

definition zlib_crc32 :: "bytes \<Rightarrow> int" where
  "zlib_crc32 data = uint (NOT (crc_update (NOT 0) data))"

definition crc32_iso_hdlc :: "bytes \<Rightarrow> int" where
  "crc32_iso_hdlc data = zlib_crc32 data AND 0xFFFFFFFF"

lemma crc32_iso_hdlc_word: "crc32_iso_hdlc data = uint (NOT (crc_update (NOT 0) data))"
proof -
  have mask: "(0xFFFFFFFF :: int) = mask 32" by (simp add: mask_eq_exp_minus_1)
  have "take_bit 32 (uint w) = uint w" for w :: "32 word"
    using uint_lt2p [of w] by (simp only: take_bit_int_eq_self_iff) simp
  then show ?thesis
    by (simp only: crc32_iso_hdlc_def zlib_crc32_def mask flip: take_bit_eq_mask)
qed

lemma crc32_iso_hdlc_bounds [simp]:
  "0 \<le> crc32_iso_hdlc data" "crc32_iso_hdlc data < 4294967296"
  using uint_lt2p [of "NOT (crc_update (NOT 0) data)"]
  by (simp_all add: crc32_iso_hdlc_word)

subsection \<open>Every one-byte change is detected\<close>

lemma word_xor_cancel:
  fixes c d x :: "'a::len word"
  shows "c XOR x = d XOR x \<longleftrightarrow> c = d" and "x XOR c = x XOR d \<longleftrightarrow> c = d"
  by (auto simp: bit_eq_iff bit_simps)

lemma crc_shift_top: "bit (crc_shift c) 31 \<longleftrightarrow> bit c 0"
proof -
  have "\<not> bit c 32" by (auto dest: bit_imp_le_length)
  then show ?thesis by (simp add: crc_shift_def crc_poly_def bit_simps)
qed

lemma crc_shift_inj: "crc_shift a = crc_shift b \<Longrightarrow> a = b"
proof -
  assume eq: "crc_shift a = crc_shift b"
  then have low: "bit a 0 \<longleftrightarrow> bit b 0"
    by (metis crc_shift_top)
  with eq have "drop_bit 1 a = drop_bit 1 b"
    by (auto simp: crc_shift_def word_xor_cancel split: if_splits)
  then have high: "bit a (Suc n) \<longleftrightarrow> bit b (Suc n)" for n
    by (metis bit_drop_bit_eq comp_apply plus_1_eq_Suc)
  show "a = b"
  proof (rule bit_eqI)
    fix n
    show "bit a n \<longleftrightarrow> bit b n"
      using low high by (cases n) simp_all
  qed
qed

lemma crc_byte_inj_state: "crc_byte c b = crc_byte d b \<Longrightarrow> c = d"
  by (auto simp: crc_byte_def word_xor_cancel dest!: crc_shift_inj)

lemma crc_byte_inj_byte: "crc_byte c b = crc_byte c b' \<Longrightarrow> b = b'"
proof -
  assume "crc_byte c b = crc_byte c b'"
  then have "(ucast b :: 32 word) = ucast b'"
    by (auto simp: crc_byte_def word_xor_cancel dest!: crc_shift_inj)
  then have "uint (ucast b :: 32 word) = uint (ucast b' :: 32 word)"
    by simp
  then have "uint b = uint b'"
    by (simp add: uint_up_ucast is_up)
  then show "b = b'" by (simp only: word_uint_eq_iff)
qed

lemma crc_update_inj_state: "crc_update c bs = crc_update d bs \<Longrightarrow> c = d"
  by (induction bs arbitrary: c d) (auto dest: crc_byte_inj_state)

lemma crc_update_append: "crc_update c (xs @ ys) = crc_update (crc_update c xs) ys"
  by (induction xs arbitrary: c) simp_all

lemma crc32_one_byte:
  assumes "crc32_iso_hdlc (xs @ b # ys) = crc32_iso_hdlc (xs @ b' # ys)"
  shows "b = b'"
proof -
  have "NOT (crc_update (NOT 0) (xs @ b # ys)) = NOT (crc_update (NOT 0) (xs @ b' # ys))"
    using assms by (simp only: crc32_iso_hdlc_word word_uint_eq_iff)
  then have "crc_update (NOT 0) (xs @ b # ys) = crc_update (NOT 0) (xs @ b' # ys)"
    by (metis bit.double_compl)
  then have "crc_byte (crc_update (NOT 0) xs) b = crc_byte (crc_update (NOT 0) xs) b'"
    by (auto simp: crc_update_append dest: crc_update_inj_state)
  then show ?thesis by (rule crc_byte_inj_byte)
qed

section \<open>SHA-256\<close>

definition rotr :: "nat \<Rightarrow> 32 word \<Rightarrow> 32 word" where
  "rotr n x = drop_bit n x OR push_bit (32 - n) x"

definition sha_Ch :: "32 word \<Rightarrow> 32 word \<Rightarrow> 32 word \<Rightarrow> 32 word" where
  "sha_Ch x y z = (x AND y) XOR (NOT x AND z)"

definition sha_Maj :: "32 word \<Rightarrow> 32 word \<Rightarrow> 32 word \<Rightarrow> 32 word" where
  "sha_Maj x y z = (x AND y) XOR (x AND z) XOR (y AND z)"

definition sha_S0 :: "32 word \<Rightarrow> 32 word" where
  "sha_S0 x = rotr 2 x XOR rotr 13 x XOR rotr 22 x"

definition sha_S1 :: "32 word \<Rightarrow> 32 word" where
  "sha_S1 x = rotr 6 x XOR rotr 11 x XOR rotr 25 x"

definition sha_s0 :: "32 word \<Rightarrow> 32 word" where
  "sha_s0 x = rotr 7 x XOR rotr 18 x XOR drop_bit 3 x"

definition sha_s1 :: "32 word \<Rightarrow> 32 word" where
  "sha_s1 x = rotr 17 x XOR rotr 19 x XOR drop_bit 10 x"

definition sha_K :: "32 word list" where
  "sha_K = [
    1116352408, 1899447441, 3049323471, 3921009573, 961987163, 1508970993, 2453635748, 2870763221,
    3624381080, 310598401, 607225278, 1426881987, 1925078388, 2162078206, 2614888103, 3248222580,
    3835390401, 4022224774, 264347078, 604807628, 770255983, 1249150122, 1555081692, 1996064986,
    2554220882, 2821834349, 2952996808, 3210313671, 3336571891, 3584528711, 113926993, 338241895,
    666307205, 773529912, 1294757372, 1396182291, 1695183700, 1986661051, 2177026350, 2456956037,
    2730485921, 2820302411, 3259730800, 3345764771, 3516065817, 3600352804, 4094571909, 275423344,
    430227734, 506948616, 659060556, 883997877, 958139571, 1322822218, 1537002063, 1747873779,
    1955562222, 2024104815, 2227730452, 2361852424, 2428436474, 2756734187, 3204031479, 3329325298]"

definition sha_H0 :: "32 word list" where
  "sha_H0 = [
    1779033703, 3144134277, 1013904242, 2773480762, 1359893119, 2600822924, 528734635, 1541459225]"

text \<open>Big-endian packing of bytes into words and back.\<close>

fun be_words :: "bytes \<Rightarrow> 32 word list" where
  "be_words (a # b # c # d # rest) =
     (push_bit 24 (ucast a) OR push_bit 16 (ucast b) OR push_bit 8 (ucast c) OR ucast d)
       # be_words rest"
| "be_words _ = []"

definition be_word_bytes :: "32 word \<Rightarrow> bytes" where
  "be_word_bytes w =
     [ucast (drop_bit 24 w), ucast (drop_bit 16 w), ucast (drop_bit 8 w), ucast w]"

definition sha_pad :: "bytes \<Rightarrow> bytes" where
  "sha_pad msg = msg @ [0x80] @ replicate ((119 - length msg mod 64) mod 64) 0
     @ map (\<lambda>k. word_of_nat (8 * length msg div 2 ^ (8 * k))) [7, 6, 5, 4, 3, 2, 1, 0]"

text \<open>The message schedule, newest word first.\<close>

fun sha_extend :: "nat \<Rightarrow> 32 word list \<Rightarrow> 32 word list" where
  "sha_extend 0 ws = ws"
| "sha_extend (Suc n) ws =
     sha_extend n ((sha_s1 (ws ! 1) + ws ! 6 + sha_s0 (ws ! 14) + ws ! 15) # ws)"

definition sha_schedule :: "32 word list \<Rightarrow> 32 word list" where
  "sha_schedule block = rev (sha_extend 48 (rev block))"

type_synonym sha_state =
  "32 word \<times> 32 word \<times> 32 word \<times> 32 word \<times> 32 word \<times> 32 word \<times> 32 word \<times> 32 word"

fun sha_round :: "sha_state \<Rightarrow> 32 word \<times> 32 word \<Rightarrow> sha_state" where
  "sha_round (a, b, c, d, e, f, g, h) (k, w) =
     (let t1 = h + sha_S1 e + sha_Ch e f g + k + w; t2 = sha_S0 a + sha_Maj a b c
      in (t1 + t2, a, b, c, d + t1, e, f, g))"

definition sha_block :: "32 word list \<Rightarrow> 32 word list \<Rightarrow> 32 word list" where
  "sha_block hs block =
     (case foldl sha_round (hs ! 0, hs ! 1, hs ! 2, hs ! 3, hs ! 4, hs ! 5, hs ! 6, hs ! 7)
             (zip sha_K (sha_schedule block)) of
        (a, b, c, d, e, f, g, h) \<Rightarrow>
          [hs ! 0 + a, hs ! 1 + b, hs ! 2 + c, hs ! 3 + d,
           hs ! 4 + e, hs ! 5 + f, hs ! 6 + g, hs ! 7 + h])"

function sha_blocks :: "32 word list \<Rightarrow> 32 word list \<Rightarrow> 32 word list" where
  "sha_blocks hs ws =
     (if length ws < 16 then hs else sha_blocks (sha_block hs (take 16 ws)) (drop 16 ws))"
  by pat_completeness auto
termination
  by (relation "measure (\<lambda>(hs, ws). length ws)") auto

declare sha_blocks.simps [simp del]

definition sha256 :: "bytes \<Rightarrow> bytes" where
  "sha256 msg = concat (map be_word_bytes (sha_blocks sha_H0 (be_words (sha_pad msg))))"

lemma length_sha_block [simp]: "length (sha_block hs ws) = 8"
  by (simp add: sha_block_def split: prod.splits)

lemma length_sha_blocks: "length hs = 8 \<Longrightarrow> length (sha_blocks hs ws) = 8"
proof (induction hs ws rule: sha_blocks.induct)
  case (1 hs ws)
  then show ?case by (subst sha_blocks.simps) simp
qed

lemma length_concat_be: "length (concat (map be_word_bytes ws)) = 4 * length ws"
  by (induction ws) (simp_all add: be_word_bytes_def)

lemma length_sha256 [simp]: "length (sha256 msg) = 32"
  by (simp add: sha256_def length_concat_be length_sha_blocks sha_H0_def)

end
