(* ===== verification/Frame.thy ===== *)
theory Frame
  imports Struct_Codec Digest
begin

text \<open>
  \<open>frame.py\<close>: the frame header, its CRC and the validation of complete frames. A frame is a
  record with the fields of the dataclass; \<open>encode_frame\<close> and \<open>decode_frame\<close> follow the source
  check by check. The theorems: the two are mutually inverse wherever they succeed (so the wire
  image of a frame is unique), encoding succeeds exactly on frames with valid fields, and no
  corruption confined to one byte of a valid frame is ever accepted.
\<close>

section \<open>Constants and types\<close>

definition MAGIC :: bytes where
  "MAGIC = [0x55, 0x53, 0x41, 0x43]"

definition PROTOCOL_VERSION :: int where "PROTOCOL_VERSION = 1"
definition HEADER_SIZE :: nat where "HEADER_SIZE = 16"
definition CRC_SIZE :: nat where "CRC_SIZE = 4"
definition HOST_MAX_PAYLOAD_LENGTH :: nat where "HOST_MAX_PAYLOAD_LENGTH = 8192"
definition VALID_FLAGS_MASK :: int where "VALID_FLAGS_MASK = 0x0007"

definition HEADER_FMT :: "fmt list" where
  "HEADER_FMT = [Fs 4, FB, FB, FH, FI, FI]"

lemmas frame_consts = MAGIC_def PROTOCOL_VERSION_def HEADER_SIZE_def CRC_SIZE_def
  HOST_MAX_PAYLOAD_LENGTH_def VALID_FLAGS_MASK_def HEADER_FMT_def

datatype MessageType =
    HELLO | GET_CAPABILITIES | GET_CONFIG | SET_CONFIG | CAPTURE_ONCE | START_PERIODIC
  | STOP | GET_STATUS | READ_REGISTER | WRITE_REGISTER | RESET_DEVICE
  | RENEW_PERIODIC_LEASE | RUN_IO2_LOOPBACK_TEST | CAPTURE_DATA | BRIDGE_HELLO
  | BRIDGE_HEARTBEAT | CORE_CHALLENGE | BRIDGE_DIAGNOSTIC | BRIDGE_CAPTURE_DELIVERY
  | CAPTURE_COMMITTED | BRIDGE_SPOOL_STATUS | REQUEST_ATTACHED | ACK | ERROR

fun type_code :: "MessageType \<Rightarrow> int" where
  "type_code HELLO = 0x01"
| "type_code GET_CAPABILITIES = 0x02"
| "type_code GET_CONFIG = 0x03"
| "type_code SET_CONFIG = 0x04"
| "type_code CAPTURE_ONCE = 0x05"
| "type_code START_PERIODIC = 0x06"
| "type_code STOP = 0x07"
| "type_code GET_STATUS = 0x08"
| "type_code READ_REGISTER = 0x09"
| "type_code WRITE_REGISTER = 0x0A"
| "type_code RESET_DEVICE = 0x0B"
| "type_code RENEW_PERIODIC_LEASE = 0x0C"
| "type_code RUN_IO2_LOOPBACK_TEST = 0x0E"
| "type_code CAPTURE_DATA = 0x40"
| "type_code BRIDGE_HELLO = 0x70"
| "type_code BRIDGE_HEARTBEAT = 0x71"
| "type_code CORE_CHALLENGE = 0x72"
| "type_code BRIDGE_DIAGNOSTIC = 0x73"
| "type_code BRIDGE_CAPTURE_DELIVERY = 0x74"
| "type_code CAPTURE_COMMITTED = 0x75"
| "type_code BRIDGE_SPOOL_STATUS = 0x76"
| "type_code REQUEST_ATTACHED = 0x7D"
| "type_code ACK = 0x7E"
| "type_code ERROR = 0x7F"

definition all_message_types :: "MessageType list" where
  "all_message_types =
     [HELLO, GET_CAPABILITIES, GET_CONFIG, SET_CONFIG, CAPTURE_ONCE, START_PERIODIC,
      STOP, GET_STATUS, READ_REGISTER, WRITE_REGISTER, RESET_DEVICE, RENEW_PERIODIC_LEASE,
      RUN_IO2_LOOPBACK_TEST, CAPTURE_DATA, BRIDGE_HELLO, BRIDGE_HEARTBEAT, CORE_CHALLENGE,
      BRIDGE_DIAGNOSTIC, BRIDGE_CAPTURE_DELIVERY, CAPTURE_COMMITTED, BRIDGE_SPOOL_STATUS,
      REQUEST_ATTACHED, ACK, ERROR]"

text \<open>\<open>MessageType(raw)\<close>: the member with that value, or \<open>ValueError\<close> (here \<open>None\<close>).\<close>

definition type_of_code :: "int \<Rightarrow> MessageType option" where
  "type_of_code c = find (\<lambda>t. type_code t = c) all_message_types"

text \<open>\<open>IntFlag\<close> members are integers; unknown bits survive \<open>Flags(raw)\<close> unchanged.\<close>

definition FLAG_NONE :: int where "FLAG_NONE = 0"
definition FLAG_RESPONSE :: int where "FLAG_RESPONSE = 1"
definition FLAG_ASYNC :: int where "FLAG_ASYNC = 2"
definition FLAG_WARNING :: int where "FLAG_WARNING = 4"

lemmas flag_defs = FLAG_NONE_def FLAG_RESPONSE_def FLAG_ASYNC_def FLAG_WARNING_def

record Frame =
  message_type :: MessageType
  sequence :: int
  payload :: bytes
  flags :: int
  protocol_version :: int

text \<open>\<open>Frame(t, seq, payload, flags)\<close> with the dataclass's default version.\<close>

definition mk_frame :: "MessageType \<Rightarrow> int \<Rightarrow> bytes \<Rightarrow> int \<Rightarrow> Frame" where
  "mk_frame t sq p fl = \<lparr>message_type = t, sequence = sq, payload = p, flags = fl,
     protocol_version = PROTOCOL_VERSION\<rparr>"

lemma mk_frame_sel [simp]:
  "message_type (mk_frame t sq p fl) = t" "sequence (mk_frame t sq p fl) = sq"
  "payload (mk_frame t sq p fl) = p" "flags (mk_frame t sq p fl) = fl"
  "protocol_version (mk_frame t sq p fl) = PROTOCOL_VERSION"
  by (simp_all add: mk_frame_def)

section \<open>Operations\<close>

definition validate_frame_fields :: "Frame \<Rightarrow> unit res" where
  "validate_frame_fields f =
     (if protocol_version f \<noteq> PROTOCOL_VERSION then Inl ValueError
      else if flags f AND NOT VALID_FLAGS_MASK \<noteq> 0 then Inl ValueError
      else if \<not> (0 \<le> sequence f \<and> sequence f \<le> 0xFFFFFFFF) then Inl ValueError
      else if length (payload f) > HOST_MAX_PAYLOAD_LENGTH then Inl ValueError
      else Inr ())"

definition encode_frame :: "Frame \<Rightarrow> bytes res" where
  "encode_frame f =
     rbind (validate_frame_fields f) (\<lambda>_.
     rbind (pack HEADER_FMT
       [PBytes MAGIC, PInt (protocol_version f), PInt (type_code (message_type f)),
        PInt (flags f), PInt (sequence f), PInt (int (length (payload f)))]) (\<lambda>header.
     rbind (pack [FI] [PInt (crc32_iso_hdlc (drop 4 header @ payload f))]) (\<lambda>crc.
     Inr (header @ payload f @ crc))))"

definition decode_frame :: "bytes \<Rightarrow> Frame res" where
  "decode_frame data =
     (if length data < HEADER_SIZE + CRC_SIZE then Inl ProtocolError
      else rbind (unpack_from HEADER_FMT data 0) (\<lambda>h.
        let magic = vbytes (h ! 0); version = vint (h ! 1); raw_type = vint (h ! 2);
            raw_flags = vint (h ! 3); seq = vint (h ! 4); payload_length = vint (h ! 5)
        in
        if magic \<noteq> MAGIC then Inl ProtocolError
        else if payload_length > int HOST_MAX_PAYLOAD_LENGTH then Inl ProtocolError
        else if int (length data) \<noteq> int HEADER_SIZE + payload_length + int CRC_SIZE
          then Inl ProtocolError
        else case type_of_code raw_type of
          None \<Rightarrow> Inl ProtocolError
        | Some t \<Rightarrow>
            let f = \<lparr>message_type = t, sequence = seq,
                     payload = take (length data - CRC_SIZE - HEADER_SIZE) (drop HEADER_SIZE data),
                     flags = raw_flags, protocol_version = version\<rparr>
            in
            rbind (validate_frame_fields f) (\<lambda>_.
            rbind (unpack_from [FI] data (length data - CRC_SIZE)) (\<lambda>c.
              if crc32_iso_hdlc (drop 4 (take (length data - CRC_SIZE) data)) \<noteq> vint (c ! 0)
              then Inl CrcMismatchError else Inr f))))"

section \<open>Lemmas\<close>

lemma type_of_code_type_code [simp]: "type_of_code (type_code t) = Some t"
  by (cases t) (simp_all add: type_of_code_def all_message_types_def)

lemma type_of_code_SomeD: "type_of_code c = Some t \<Longrightarrow> type_code t = c"
  by (auto simp: type_of_code_def find_Some_iff)

lemma type_of_code_None_iff: "type_of_code c = None \<longleftrightarrow> (\<forall>t. type_code t \<noteq> c)"
  by (metis not_Some_eq type_of_code_SomeD type_of_code_type_code)

lemma type_code_bounds [simp]: "0 \<le> type_code t" "type_code t < 256"
  by (cases t; simp)+

lemma flags_mask_iff: "fl AND NOT VALID_FLAGS_MASK = 0 \<longleftrightarrow> 0 \<le> fl \<and> fl < 8"
  using int_and_not_mask_iff [of fl 3] by (simp add: VALID_FLAGS_MASK_def mask_eq_exp_minus_1)

definition frame_ok :: "Frame \<Rightarrow> bool" where
  "frame_ok f \<longleftrightarrow> protocol_version f = 1 \<and> 0 \<le> flags f \<and> flags f < 8 \<and>
     0 \<le> sequence f \<and> sequence f < 2 ^ 32 \<and> length (payload f) \<le> 8192"

lemma validate_frame_fields_iff [simp]: "validate_frame_fields f = Inr u \<longleftrightarrow> frame_ok f"
  by (auto simp: validate_frame_fields_def frame_ok_def flags_mask_iff PROTOCOL_VERSION_def
      HOST_MAX_PAYLOAD_LENGTH_def)

text \<open>The header and trailer of a valid frame, as byte strings.\<close>

definition header_of :: "Frame \<Rightarrow> bytes" where
  "header_of f = MAGIC @ le_bytes 1 (protocol_version f) @ le_bytes 1 (type_code (message_type f))
     @ le_bytes 2 (flags f) @ le_bytes 4 (sequence f) @ le_bytes 4 (int (length (payload f)))"

definition crc_of :: "Frame \<Rightarrow> bytes" where
  "crc_of f = le_bytes 4 (crc32_iso_hdlc (drop 4 (header_of f) @ payload f))"

definition frame_bytes :: "Frame \<Rightarrow> bytes" where
  "frame_bytes f = header_of f @ payload f @ crc_of f"

lemma length_header_of [simp]: "length (header_of f) = 16"
  by (simp add: header_of_def MAGIC_def)

lemma length_crc_of [simp]: "length (crc_of f) = 4"
  by (simp add: crc_of_def)

lemma length_frame_bytes [simp]: "length (frame_bytes f) = 20 + length (payload f)"
  by (simp add: frame_bytes_def)

lemma frame_ok_pack:
  assumes "frame_ok f"
  shows "pack HEADER_FMT
       [PBytes MAGIC, PInt (protocol_version f), PInt (type_code (message_type f)),
        PInt (flags f), PInt (sequence f), PInt (int (length (payload f)))] = Inr (header_of f)"
    and "pack [FI] [PInt (crc32_iso_hdlc (drop 4 (header_of f) @ payload f))] = Inr (crc_of f)"
  using assms
  by (simp_all add: HEADER_FMT_def MAGIC_def codec_simps frame_ok_def header_of_def crc_of_def
      del: le_bytes.simps)

lemma encode_frame_iff: "encode_frame f = Inr b \<longleftrightarrow> frame_ok f \<and> b = frame_bytes f"
  by (auto simp: encode_frame_def frame_ok_pack frame_bytes_def)

lemma frame_ok_header_fields:
  assumes "frame_ok f"
  shows "unpack_go HEADER_FMT (header_of f @ r) =
     [PBytes MAGIC, PInt (protocol_version f), PInt (type_code (message_type f)),
        PInt (flags f), PInt (sequence f), PInt (int (length (payload f)))]"
  by (rule unpack_go_pack [OF frame_ok_pack(1) [OF assms]]) (simp add: HEADER_FMT_def MAGIC_def)

lemma unpack_from_header:
  "frame_ok f \<Longrightarrow> unpack_from HEADER_FMT (header_of f @ r) 0 = Inr
     [PBytes MAGIC, PInt (protocol_version f), PInt (type_code (message_type f)),
        PInt (flags f), PInt (sequence f), PInt (int (length (payload f)))]"
  by (simp add: unpack_from_def frame_ok_header_fields) (simp add: HEADER_FMT_def)

lemma unpack_from_trailer:
  "frame_ok f \<Longrightarrow> unpack_from [FI] (frame_bytes f) (16 + length (payload f)) =
     Inr [PInt (crc32_iso_hdlc (drop 4 (header_of f) @ payload f))]"
  using unpack_from_pack [OF frame_ok_pack(2), of f "header_of f @ payload f" _ "[]"]
  by (simp add: frame_bytes_def)

lemma decode_frame_bytes: "frame_ok f \<Longrightarrow> decode_frame (frame_bytes f) = Inr f"
  using unpack_from_trailer [of f]
  by (simp add: decode_frame_def frame_consts unpack_from_header frame_bytes_def Let_def
      unpack_from_header [unfolded HEADER_FMT_def])
    (simp add: frame_ok_def)

lemma unpacked_header:
  assumes "unpack_from HEADER_FMT b 0 = Inr h"
  obtains m v t fl sq n where
    "h = [PBytes m, PInt v, PInt t, PInt fl, PInt sq, PInt n]"
    "pack HEADER_FMT h = Inr (take 16 b)" "0 \<le> n" "16 \<le> length b" "m = take 4 b"
proof -
  have h: "h = unpack_go HEADER_FMT b" and len: "16 \<le> length b"
    using assms by (simp_all add: unpack_from_def HEADER_FMT_def split: if_splits)
  have "pack HEADER_FMT h = Inr (take 16 b)"
    using len pack_unpack_go [of HEADER_FMT b] unfolding h by (simp add: HEADER_FMT_def)
  moreover have "fits HEADER_FMT h"
    using assms by (rule fits_unpack_from)
  moreover have "h ! 0 = PBytes (take 4 b)"
    by (simp add: h HEADER_FMT_def)
  ultimately show ?thesis
    using len by (auto simp: HEADER_FMT_def frange_def intro: that)
qed

lemma decode_frame_okD:
  assumes "decode_frame b = Inr f"
  shows "frame_ok f" "16 \<le> length b - 4" "take 16 b = header_of f"
    "payload f = take (length b - 20) (drop 16 b)"
    "unpack_from [FI] b (length b - 4) = Inr [PInt (crc32_iso_hdlc (drop 4 (take (length b - 4) b)))]"
proof -
  obtain h where h: "unpack_from HEADER_FMT b 0 = Inr h"
    using assms by (auto simp: decode_frame_def split: if_splits)
  obtain m v t fl sq n where hs: "h = [PBytes m, PInt v, PInt t, PInt fl, PInt sq, PInt n]"
    and pk: "pack HEADER_FMT h = Inr (take 16 b)" and n: "0 \<le> n"
    using unpacked_header [OF h] by metis
  obtain ty c where len: "20 \<le> length b" and m: "m = MAGIC" and nl: "int (length b) = 20 + n"
    and ty: "type_of_code t = Some ty" and ok: "frame_ok f"
    and f: "f = \<lparr>message_type = ty, sequence = sq, payload = take (length b - 20) (drop 16 b),
        flags = fl, protocol_version = v\<rparr>"
    and c: "unpack_from [FI] b (length b - 4) = Inr c"
    and crc: "crc32_iso_hdlc (drop 4 (take (length b - 4) b)) = vint (c ! 0)"
    using assms
    by (auto simp: decode_frame_def h hs Let_def HEADER_SIZE_def CRC_SIZE_def split: if_splits option.splits)
  show "frame_ok f" by (rule ok)
  show "16 \<le> length b - 4" using len by simp
  show pl: "payload f = take (length b - 20) (drop 16 b)" by (simp add: f)
  have "n = int (length (payload f))"
    using nl len by (simp add: pl)
  then have "h = [PBytes MAGIC, PInt (protocol_version f), PInt (type_code (message_type f)),
        PInt (flags f), PInt (sequence f), PInt (int (length (payload f)))]"
    using hs m type_of_code_SomeD [OF ty] by (simp add: f)
  then show "take 16 b = header_of f"
    using pk frame_ok_pack(1) [OF ok] by simp
  have "fits [FI] c" using c by (rule fits_unpack_from)
  then obtain x where "c = [PInt x]" by auto
  then show "unpack_from [FI] b (length b - 4)
      = Inr [PInt (crc32_iso_hdlc (drop 4 (take (length b - 4) b)))]"
    using c crc by simp
qed

lemma decode_frame_bytesD:
  assumes "decode_frame b = Inr f"
  shows "b = frame_bytes f"
proof -
  note d = decode_frame_okD [OF assms]
  have split: "b = take 16 b @ take (length b - 20) (drop 16 b) @ drop (length b - 4) b"
  proof -
    have "drop 16 b = take (length b - 20) (drop 16 b) @ drop (length b - 20) (drop 16 b)"
      by (rule append_take_drop_id [symmetric])
    moreover have "drop (length b - 20) (drop 16 b) = drop (length b - 4) b"
      using d(2) by simp
    ultimately show ?thesis by (metis append_take_drop_id)
  qed
  have body: "drop 4 (take (length b - 4) b) = drop 4 (header_of f) @ payload f"
  proof -
    have "take (length b - 4) b = take 16 b @ take (length b - 20) (drop 16 b)"
      using d(2) take_add [of 16 "length b - 20" b] by simp
    then show ?thesis by (simp add: d(3,4))
  qed
  have "[PInt (crc32_iso_hdlc (drop 4 (header_of f) @ payload f))] = unpack_go [FI] (drop (length b - 4) b)"
    using d(5) body by (simp add: unpack_from_def split: if_splits)
  moreover have "pack [FI] (unpack_go [FI] (drop (length b - 4) b)) = Inr (drop (length b - 4) b)"
    using d(2) by (subst pack_unpack_go) simp_all
  ultimately have "drop (length b - 4) b = crc_of f"
    using frame_ok_pack(2) [OF d(1)] by simp
  then show ?thesis
    using split d(3,4) by (simp add: frame_bytes_def)
qed

lemma decode_frame_iff: "decode_frame b = Inr f \<longleftrightarrow> frame_ok f \<and> b = frame_bytes f"
  using decode_frame_okD(1) decode_frame_bytesD decode_frame_bytes by blast

interpretation frame_codec: canonical_codec encode_frame decode_frame
  by unfold_locales (simp_all add: encode_frame_iff decode_frame_iff)

section \<open>Properties\<close>

text \<open>C29 (roundtrip). A byte string decodes to a frame exactly when it is what encoding that frame
  produces: decoding inverts encoding, and no frame has a second wire image.\<close>

theorem frame_wire_image: "decode_frame b = Inr f \<longleftrightarrow> encode_frame f = Inr b"
  by (rule frame_codec.dec_iff)

text \<open>Encoding a frame succeeds exactly when its version is 1, its flags use only the
  three defined bits, its sequence is a u32 and its payload is at most 8192 bytes; the result is
  20 bytes longer than the payload, and every failure is a \<open>ValueError\<close>.\<close>

theorem encode_frame_outcome:
  "encode_frame f =
     (if protocol_version f = 1 \<and> 0 \<le> flags f \<and> flags f < 8 \<and> 0 \<le> sequence f \<and>
         sequence f < 2 ^ 32 \<and> length (payload f) \<le> 8192
      then Inr (frame_bytes f) else Inl ValueError) \<and>
   length (frame_bytes f) = length (payload f) + 20"
proof (cases "frame_ok f")
  case True
  then have "encode_frame f = Inr (frame_bytes f)" by (simp add: encode_frame_iff)
  with True show ?thesis by (simp add: frame_ok_def)
next
  case False
  then have "validate_frame_fields f = Inl ValueError"
    by (auto simp: validate_frame_fields_def frame_ok_def flags_mask_iff PROTOCOL_VERSION_def
        HOST_MAX_PAYLOAD_LENGTH_def)
  then have "encode_frame f = Inl ValueError" by (simp add: encode_frame_def)
  with False show ?thesis by (simp add: frame_ok_def)
qed

lemma frame_bytes_prefix: "take 4 (frame_bytes f) = MAGIC"
  by (simp add: frame_bytes_def header_of_def MAGIC_def)

lemma frame_bytes_body:
  "drop (length (frame_bytes f) - 4) (frame_bytes f) =
     le_bytes 4 (crc32_iso_hdlc (drop 4 (take (length (frame_bytes f) - 4) (frame_bytes f))))"
  by (simp add: frame_bytes_def crc_of_def)

lemma frame_bytes_not_one_byte_apart:
  assumes f: "frame_bytes f = xs @ b # ys" and g: "frame_bytes g = xs @ b' # ys"
  shows "b = b'"
proof -
  let ?n = "length (xs @ b # ys)"
  note F = frame_bytes_body [of f, unfolded f] and G = frame_bytes_body [of g, unfolded g]
  consider (magic) "length xs < 4" | (crc) "?n - 4 \<le> length xs"
    | (body) "4 \<le> length xs" "length xs < ?n - 4" by linarith
  then show ?thesis
  proof cases
    case magic
    have "take 4 (xs @ b # ys) = take 4 (xs @ b' # ys)"
      using frame_bytes_prefix [of f] frame_bytes_prefix [of g] f g by simp
    then have "take 4 (xs @ b # ys) ! length xs = take 4 (xs @ b' # ys) ! length xs"
      by simp
    then show ?thesis using magic by (simp only: nth_take nth_append_length)
  next
    case crc
    then have "take (?n - 4) (xs @ b # ys) = take (?n - 4) (xs @ b' # ys)"
      by simp
    then have "drop (?n - 4) (xs @ b # ys) = drop (?n - 4) (xs @ b' # ys)"
      using F G by simp
    then have "drop (?n - 4) xs @ b # ys = drop (?n - 4) xs @ b' # ys"
      using crc by simp
    then show ?thesis by simp
  next
    case body
    let ?ys = "take (?n - 4 - Suc (length xs)) ys"
    have split: "take (?n - 4) (xs @ c # ys) = xs @ c # ?ys" for c
      using body by (simp add: take_Cons' Suc_diff_Suc)
    have len: "length (xs @ b' # ys) = ?n" by simp
    have same: "drop (?n - 4) (xs @ b # ys) = drop (?n - 4) (xs @ b' # ys)"
      using body by (simp add: drop_Cons', linarith?)
    have "le_bytes 4 (crc32_iso_hdlc (drop 4 (xs @ b # ?ys)))
        = le_bytes 4 (crc32_iso_hdlc (drop 4 (xs @ b' # ?ys)))"
      using F G [unfolded len] same by (simp only: split)
    then have "le_int (le_bytes 4 (crc32_iso_hdlc (drop 4 xs @ b # ?ys)))
        = le_int (le_bytes 4 (crc32_iso_hdlc (drop 4 xs @ b' # ?ys)))"
      using body by simp
    then have "crc32_iso_hdlc (drop 4 xs @ b # ?ys) = crc32_iso_hdlc (drop 4 xs @ b' # ?ys)"
      by (simp add: le_int_le_bytes)
    then show ?thesis by (rule crc32_one_byte)
  qed
qed

text \<open>C30 (safety). If any single byte of a valid frame is replaced by a different one, wherever it is
  (magic, header, payload or CRC), the result is not accepted by \<open>decode_frame\<close>.\<close>

theorem frame_detects_byte_corruption:
  assumes "encode_frame f = Inr (xs @ b # ys)" and "b' \<noteq> b"
  shows "\<not> is_ok (decode_frame (xs @ b' # ys))"
proof
  assume "is_ok (decode_frame (xs @ b' # ys))"
  then obtain g where "decode_frame (xs @ b' # ys) = Inr g"
    by (auto simp: is_ok_def)
  then have "frame_bytes g = xs @ b' # ys"
    by (simp add: decode_frame_iff)
  moreover have "frame_bytes f = xs @ b # ys"
    using assms(1) by (simp add: encode_frame_iff)
  ultimately show False
    using frame_bytes_not_one_byte_apart assms(2) by blast
qed

theorem frame_detects_byte_corruption_witness:
  "encode_frame (mk_frame GET_STATUS 7 [] 0) = Inr ([0x55, 0x53, 0x41, 0x43, 1, 8, 0, 0] @ 7 #
      [0, 0, 0, 0, 0, 0, 0] @ crc_of (mk_frame GET_STATUS 7 [] 0)) \<and>
   \<not> is_ok (decode_frame ([0x55, 0x53, 0x41, 0x43, 1, 8, 0, 0] @ 6 #
      [0, 0, 0, 0, 0, 0, 0] @ crc_of (mk_frame GET_STATUS 7 [] 0)))"
proof -
  let ?f = "mk_frame GET_STATUS 7 [] 0"
  have e: "encode_frame ?f = Inr ([0x55, 0x53, 0x41, 0x43, 1, 8, 0, 0] @ 7 #
      [0, 0, 0, 0, 0, 0, 0] @ crc_of ?f)"
    by (simp add: encode_frame_iff frame_ok_def PROTOCOL_VERSION_def frame_bytes_def header_of_def
        MAGIC_def numeral_eq_Suc)
  show ?thesis
    using e frame_detects_byte_corruption [OF e, of 6] by simp
qed

end
