(* ===== verification/Message_Lengths.thy ===== *)
theory Message_Lengths
  imports Frame
begin

text \<open>
  \<open>message_lengths.py\<close>: for every message type, the flags it may carry and the exact payload
  lengths it may have. The stream parser uses both to reject an impossible header before it
  buffers a payload.
\<close>

definition even_range :: "int \<Rightarrow> int \<Rightarrow> int \<Rightarrow> bool" where
  "even_range len minimum maximum \<longleftrightarrow>
     minimum \<le> len \<and> len \<le> maximum \<and> (len - minimum) mod 2 = 0"

definition response_flags :: "int list" where
  "response_flags = [FLAG_RESPONSE, FLAG_RESPONSE OR FLAG_WARNING]"

definition async_flags :: "int list" where
  "async_flags = [FLAG_ASYNC, FLAG_ASYNC OR FLAG_WARNING]"

definition flags_are_valid_for_message :: "MessageType \<Rightarrow> int \<Rightarrow> bool" where
  "flags_are_valid_for_message t fl =
     (if t \<in> {ACK, ERROR, REQUEST_ATTACHED} then fl \<in> set response_flags
      else if t \<in> {BRIDGE_DIAGNOSTIC, BRIDGE_CAPTURE_DELIVERY, BRIDGE_SPOOL_STATUS}
        then fl \<in> set async_flags
      else if t = CAPTURE_DATA then fl \<in> set (response_flags @ async_flags)
      else if t = RUN_IO2_LOOPBACK_TEST then fl = 0 \<or> fl \<in> set response_flags
      else if t \<in> {SET_CONFIG, CAPTURE_ONCE, START_PERIODIC, STOP, WRITE_REGISTER,
                   RESET_DEVICE, CORE_CHALLENGE} then fl = 0
      else fl = 0 \<or> fl \<in> set response_flags)"

definition payload_length_is_valid :: "MessageType \<Rightarrow> int \<Rightarrow> int \<Rightarrow> bool" where
  "payload_length_is_valid t fl len =
     (let response = (fl AND FLAG_RESPONSE \<noteq> 0) in
      case t of
        HELLO \<Rightarrow> len = (if response then 64 else 20)
      | GET_CAPABILITIES \<Rightarrow> len = (if response then 24 else 0)
      | GET_CONFIG \<Rightarrow> (if response then even_range len 52 72 else len = 0)
      | SET_CONFIG \<Rightarrow> \<not> response \<and> even_range len 100 120
      | CAPTURE_ONCE \<Rightarrow> \<not> response \<and> len = 60
      | RUN_IO2_LOOPBACK_TEST \<Rightarrow> len = (if response then 86 else 56)
      | START_PERIODIC \<Rightarrow> \<not> response \<and> len = 80
      | STOP \<Rightarrow> \<not> response \<and> len = 32
      | GET_STATUS \<Rightarrow> len = (if response then 100 else 0)
      | READ_REGISTER \<Rightarrow> len = 4
      | WRITE_REGISTER \<Rightarrow> \<not> response \<and> len = 20
      | RESET_DEVICE \<Rightarrow> \<not> response \<and> len = 20
      | RENEW_PERIODIC_LEASE \<Rightarrow> len = 40
      | CAPTURE_DATA \<Rightarrow> 188 \<le> len \<and> len \<le> 4576
      | BRIDGE_HELLO \<Rightarrow> len = (if response then 16 else 112)
      | BRIDGE_HEARTBEAT \<Rightarrow> len = 24
      | CORE_CHALLENGE \<Rightarrow> \<not> response \<and> len = 44
      | BRIDGE_DIAGNOSTIC \<Rightarrow> 64 \<le> len \<and> len \<le> 128
      | BRIDGE_CAPTURE_DELIVERY \<Rightarrow> 264 \<le> len \<and> len \<le> 4708
      | CAPTURE_COMMITTED \<Rightarrow> len = (if response then 24 else 68)
      | BRIDGE_SPOOL_STATUS \<Rightarrow> len = 64
      | REQUEST_ATTACHED \<Rightarrow> len = 26
      | ACK \<Rightarrow> len = 24
      | ERROR \<Rightarrow> 29 \<le> len \<and> len \<le> 92)"

text \<open>A frame that the length and flag policy admits.\<close>

definition policy_ok :: "Frame \<Rightarrow> bool" where
  "policy_ok f \<longleftrightarrow> flags_are_valid_for_message (message_type f) (flags f) \<and>
     payload_length_is_valid (message_type f) (flags f) (int (length (payload f)))"

lemmas flag_list_defs = response_flags_def async_flags_def flag_defs

text \<open>
  The policy never admits a payload the host's buffer limit excludes, nor flag bits outside the
  protocol's mask.
\<close>

lemma payload_length_bounds:
  "payload_length_is_valid t fl len \<Longrightarrow> 0 \<le> len \<and> len \<le> 4708"
  by (cases t) (auto simp: payload_length_is_valid_def even_range_def Let_def split: if_splits)

lemma flags_valid_bounds: "flags_are_valid_for_message t fl \<Longrightarrow> 0 \<le> fl \<and> fl < 8"
  by (auto simp: flags_are_valid_for_message_def flag_list_defs split: if_splits)

end
