(* ===== verification/Stream.thy ===== *)
theory Stream
  imports Message_Lengths "HOL-Library.Sublist"
begin

text \<open>
  \<open>stream.py\<close>: the bounded incremental parser of the host. Its state is the receive buffer,
  the time the current candidate was first seen, and the diagnostic counters. One turn of the
  \<open>while True\<close> loop of \<open>feed\<close> is \<open>feed_step\<close>; the loop terminates because every turn that
  continues removes at least one byte of the buffer. An exception that \<open>decode_frame\<close> raises and
  \<open>feed\<close> does not catch is the outcome \<open>StepRaise\<close>.
\<close>

definition HOST_RX_BUFFER_LIMIT :: nat where "HOST_RX_BUFFER_LIMIT = 16424"

record ParserDiagnostics =
  invalid_header :: nat
  invalid_length :: nat
  crc_error :: nat
  resync_discarded_bytes :: nat
  rx_buffer_limit :: nat
  incomplete_timeout :: nat

record HostStreamParser =
  rx_buffer :: bytes
  candidate_started_ms :: "int option"
  diagnostics :: ParserDiagnostics

definition new_diagnostics :: ParserDiagnostics where
  "new_diagnostics = \<lparr>invalid_header = 0, invalid_length = 0, crc_error = 0,
     resync_discarded_bytes = 0, rx_buffer_limit = 0, incomplete_timeout = 0\<rparr>"

definition new_parser :: HostStreamParser where
  "new_parser = \<lparr>rx_buffer = [], candidate_started_ms = None, diagnostics = new_diagnostics\<rparr>"

text \<open>\<open>bytearray.find(MAGIC)\<close>; \<open>None\<close> stands for -1.\<close>

fun find_magic :: "bytes \<Rightarrow> nat option" where
  "find_magic [] = None"
| "find_magic (b # bs) =
     (if take 4 (b # bs) = MAGIC then Some 0 else map_option Suc (find_magic bs))"

definition magic_prefix_length :: "bytes \<Rightarrow> nat" where
  "magic_prefix_length data =
     (case find (\<lambda>l. drop (length data - l) data = take l MAGIC)
            (rev [1..<Suc (min 3 (length data))]) of
        None \<Rightarrow> 0 | Some l \<Rightarrow> l)"

definition bump :: "(ParserDiagnostics \<Rightarrow> ParserDiagnostics) \<Rightarrow> HostStreamParser \<Rightarrow> HostStreamParser"
  where "bump g p = p\<lparr>diagnostics := g (diagnostics p)\<rparr>"

definition discard_candidate_byte :: "HostStreamParser \<Rightarrow> HostStreamParser" where
  "discard_candidate_byte p =
     bump (\<lambda>d. d\<lparr>resync_discarded_bytes := resync_discarded_bytes d + 1\<rparr>)
       (p\<lparr>rx_buffer := drop 1 (rx_buffer p), candidate_started_ms := None\<rparr>)"

datatype step_result =
    StepDone HostStreamParser
  | StepContinue HostStreamParser
  | StepEmit Frame HostStreamParser
  | StepRaise exn HostStreamParser

text \<open>The part of a turn after Magic has been aligned and the timeout has been checked.\<close>

definition parse_candidate :: "HostStreamParser \<Rightarrow> step_result" where
  "parse_candidate p =
     (let buf = rx_buffer p in
      if length buf < HEADER_SIZE then StepDone p
      else
        let h = unpack_go HEADER_FMT buf;
            version = vint (h ! 1); raw_type = vint (h ! 2); raw_flags = vint (h ! 3);
            payload_length = vint (h ! 5);
            bad_length = StepContinue (discard_candidate_byte
              (bump (\<lambda>d. d\<lparr>invalid_length := invalid_length d + 1\<rparr>) p));
            bad_header = StepContinue (discard_candidate_byte
              (bump (\<lambda>d. d\<lparr>invalid_header := invalid_header d + 1\<rparr>) p))
        in
        if payload_length > int HOST_MAX_PAYLOAD_LENGTH then bad_length
        else if version \<noteq> PROTOCOL_VERSION \<or> raw_flags AND NOT VALID_FLAGS_MASK \<noteq> 0
                \<or> type_of_code raw_type = None then bad_header
        else
          let t = the (type_of_code raw_type) in
          if \<not> flags_are_valid_for_message t raw_flags then bad_header
          else if \<not> payload_length_is_valid t raw_flags payload_length then bad_length
          else
            let frame_size = HEADER_SIZE + nat payload_length + CRC_SIZE in
            if length buf < frame_size then StepDone p
            else case decode_frame (take frame_size buf) of
                Inr f \<Rightarrow> StepEmit f (p\<lparr>rx_buffer := drop frame_size buf,
                                       candidate_started_ms := None\<rparr>)
              | Inl e \<Rightarrow>
                  if e = CrcMismatchError
                  then StepContinue (discard_candidate_byte
                         (bump (\<lambda>d. d\<lparr>crc_error := crc_error d + 1\<rparr>) p))
                  else if is_ProtocolError e then bad_header
                  else StepRaise e p)"

definition feed_step :: "int \<Rightarrow> HostStreamParser \<Rightarrow> step_result" where
  "feed_step now_ms p =
     (case find_magic (rx_buffer p) of
        None \<Rightarrow>
          let discard = length (rx_buffer p) - magic_prefix_length (rx_buffer p)
          in StepDone (bump (\<lambda>d. d\<lparr>resync_discarded_bytes := resync_discarded_bytes d + discard\<rparr>)
               (p\<lparr>rx_buffer := drop discard (rx_buffer p), candidate_started_ms := None\<rparr>))
      | Some i \<Rightarrow>
          let p1 = (if i = 0 then p
                    else bump (\<lambda>d. d\<lparr>resync_discarded_bytes := resync_discarded_bytes d + i\<rparr>)
                      (p\<lparr>rx_buffer := drop i (rx_buffer p), candidate_started_ms := None\<rparr>))
          in case candidate_started_ms p1 of
               None \<Rightarrow> parse_candidate (p1\<lparr>candidate_started_ms := Some now_ms\<rparr>)
             | Some started \<Rightarrow>
                 if now_ms - started > 2000
                 then StepContinue (discard_candidate_byte
                        (bump (\<lambda>d. d\<lparr>incomplete_timeout := incomplete_timeout d + 1\<rparr>) p1))
                 else parse_candidate p1)"

section \<open>The loop\<close>

lemma find_magic_Some:
  "find_magic xs = Some i \<Longrightarrow> take 4 (drop i xs) = MAGIC \<and> i + 4 \<le> length xs"
proof (induction xs arbitrary: i)
  case (Cons x xs)
  show ?case
  proof (cases "take 4 (x # xs) = MAGIC")
    case True
    then have "length (take 4 (x # xs)) = 4" by (simp add: MAGIC_def)
    then show ?thesis using True Cons.prems by simp
  next
    case False
    then obtain j where "find_magic xs = Some j" "i = Suc j"
      using Cons.prems by auto
    then show ?thesis using Cons.IH [of j] by simp
  qed
qed simp

lemma bump_sel [simp]:
  "rx_buffer (bump g p) = rx_buffer p"
  "candidate_started_ms (bump g p) = candidate_started_ms p"
  "diagnostics (bump g p) = g (diagnostics p)"
  by (simp_all add: bump_def)

lemma discard_candidate_byte_sel [simp]:
  "rx_buffer (discard_candidate_byte p) = drop 1 (rx_buffer p)"
  "candidate_started_ms (discard_candidate_byte p) = None"
  by (simp_all add: discard_candidate_byte_def)

text \<open>
  What every turn does to the buffer: nothing is added, a continuing turn removes at least one
  byte, and an emitted frame is a prefix of what Magic was aligned to.
\<close>

lemma parse_candidate_progress:
  assumes "rx_buffer p \<noteq> []"
  shows "parse_candidate p = StepContinue q \<Longrightarrow> rx_buffer q = drop 1 (rx_buffer p)"
    and "parse_candidate p = StepEmit f q \<Longrightarrow> rx_buffer p = frame_bytes f @ rx_buffer q"
    and "parse_candidate p = StepDone q \<Longrightarrow> q = p"
proof -
  assume "parse_candidate p = StepContinue q"
  then show "rx_buffer q = drop 1 (rx_buffer p)"
    by (auto simp: parse_candidate_def Let_def split: if_splits sum.splits)
next
  assume "parse_candidate p = StepDone q"
  then show "q = p"
    by (auto simp: parse_candidate_def Let_def split: if_splits sum.splits)
next
  assume "parse_candidate p = StepEmit f q"
  then obtain n where "decode_frame (take n (rx_buffer p)) = Inr f" "rx_buffer q = drop n (rx_buffer p)"
    by (auto simp: parse_candidate_def Let_def split: if_splits sum.splits)
  then show "rx_buffer p = frame_bytes f @ rx_buffer q"
    by (metis append_take_drop_id decode_frame_bytesD)
qed

definition count_discarded :: "nat \<Rightarrow> ParserDiagnostics \<Rightarrow> ParserDiagnostics" where
  "count_discarded n d = d\<lparr>resync_discarded_bytes := resync_discarded_bytes d + n\<rparr>"

lemma count_discarded_0 [simp]: "count_discarded 0 d = d"
  by (simp add: count_discarded_def)

lemma feed_step_Some:
  assumes "find_magic (rx_buffer p) = Some i"
  obtains (candidate) p' t where "feed_step now p = parse_candidate p'"
      "rx_buffer p' = drop i (rx_buffer p)" "candidate_started_ms p' = Some t"
      "diagnostics p' = count_discarded i (diagnostics p)" "now - t \<le> 2000"
    | (expired) p' where "feed_step now p = StepContinue (discard_candidate_byte p')"
      "rx_buffer p' = drop i (rx_buffer p)"
      "diagnostics p' = (count_discarded i (diagnostics p))
         \<lparr>incomplete_timeout := incomplete_timeout (diagnostics p) + 1\<rparr>"
proof -
  define p1 where "p1 = (if i = 0 then p
                    else bump (\<lambda>d. d\<lparr>resync_discarded_bytes := resync_discarded_bytes d + i\<rparr>)
                      (p\<lparr>rx_buffer := drop i (rx_buffer p), candidate_started_ms := None\<rparr>))"
  have b: "rx_buffer p1 = drop i (rx_buffer p)"
    and d: "diagnostics p1 = count_discarded i (diagnostics p)"
    by (simp_all add: p1_def count_discarded_def)
  have st: "feed_step now p = (case candidate_started_ms p1 of
               None \<Rightarrow> parse_candidate (p1\<lparr>candidate_started_ms := Some now\<rparr>)
             | Some started \<Rightarrow>
                 if now - started > 2000
                 then StepContinue (discard_candidate_byte
                        (bump (\<lambda>d. d\<lparr>incomplete_timeout := incomplete_timeout d + 1\<rparr>) p1))
                 else parse_candidate p1)"
    by (simp only: feed_step_def p1_def Let_def assms option.case)
  show thesis
  proof (cases "candidate_started_ms p1")
    case None
    then show thesis using st b d by (intro candidate [of "p1\<lparr>candidate_started_ms := Some now\<rparr>" now]) simp_all
  next
    case (Some t)
    show thesis
    proof (cases "now - t > 2000")
      case True
      then show thesis using Some st b d
        by (intro expired [of "bump (\<lambda>d. d\<lparr>incomplete_timeout := incomplete_timeout d + 1\<rparr>) p1"])
          (auto simp: count_discarded_def)
    next
      case False
      then show thesis using Some st b d by (intro candidate [of p1 t]) auto
    qed
  qed
qed

lemma feed_step_buffer:
  "feed_step now p = StepContinue q \<Longrightarrow> \<exists>k. 0 < k \<and> k \<le> length (rx_buffer p) \<and>
     rx_buffer q = drop k (rx_buffer p)"
  "feed_step now p = StepEmit f q \<Longrightarrow> \<exists>k \<le> length (rx_buffer p).
     drop k (rx_buffer p) = frame_bytes f @ rx_buffer q"
proof -
  show "\<exists>k. 0 < k \<and> k \<le> length (rx_buffer p) \<and> rx_buffer q = drop k (rx_buffer p)"
    if st: "feed_step now p = StepContinue q"
  proof -
    obtain i where i: "find_magic (rx_buffer p) = Some i"
      using st by (auto simp: feed_step_def Let_def split: option.splits)
    note m = find_magic_Some [OF i]
    have "rx_buffer q = drop 1 (drop i (rx_buffer p))"
    proof (cases rule: feed_step_Some [OF i, of now, case_names candidate expired])
      case (candidate p' t)
      then show ?thesis using st m parse_candidate_progress(1) [of p' q] by auto
    next
      case (expired p')
      then show ?thesis using st by auto
    qed
    then show ?thesis using m by (intro exI [of _ "Suc i"]) simp
  qed
  show "\<exists>k \<le> length (rx_buffer p). drop k (rx_buffer p) = frame_bytes f @ rx_buffer q"
    if st: "feed_step now p = StepEmit f q"
  proof -
    obtain i where i: "find_magic (rx_buffer p) = Some i"
      using st by (auto simp: feed_step_def Let_def split: option.splits)
    note m = find_magic_Some [OF i]
    have "drop i (rx_buffer p) = frame_bytes f @ rx_buffer q"
    proof (cases rule: feed_step_Some [OF i, of now, case_names candidate expired])
      case (candidate p' t)
      then show ?thesis using st m parse_candidate_progress(2) [of p' f q] by auto
    next
      case (expired p')
      then show ?thesis using st by auto
    qed
    then show ?thesis using m by (intro exI [of _ i]) simp
  qed
qed

lemma feed_step_progress:
  "feed_step now p = StepContinue q \<Longrightarrow> length (rx_buffer q) < length (rx_buffer p)"
  "feed_step now p = StepEmit f q \<Longrightarrow> length (rx_buffer q) < length (rx_buffer p)"
proof -
  show "feed_step now p = StepContinue q \<Longrightarrow> length (rx_buffer q) < length (rx_buffer p)"
    using feed_step_buffer(1) [of now p q] by auto
  show "length (rx_buffer q) < length (rx_buffer p)" if st: "feed_step now p = StepEmit f q"
  proof -
    obtain k where "drop k (rx_buffer p) = frame_bytes f @ rx_buffer q"
      using feed_step_buffer(2) [OF st] by blast
    then have "length (drop k (rx_buffer p)) = length (frame_bytes f @ rx_buffer q)"
      by (rule arg_cong)
    then show ?thesis by simp
  qed
qed

function feed_loop :: "int \<Rightarrow> HostStreamParser \<Rightarrow> Frame list \<Rightarrow> Frame list res \<times> HostStreamParser"
where
  "feed_loop now p frames =
     (case feed_step now p of
        StepDone q \<Rightarrow> (Inr frames, q)
      | StepContinue q \<Rightarrow> feed_loop now q frames
      | StepEmit f q \<Rightarrow> feed_loop now q (frames @ [f])
      | StepRaise e q \<Rightarrow> (Inl e, q))"
  by pat_completeness auto
termination
  by (relation "measure (\<lambda>(now, p, frames). length (rx_buffer p))")
    (auto simp: feed_step_progress)

declare feed_loop.simps [simp del]

text \<open>\<open>HostStreamParser.feed\<close>\<close>

definition feed :: "HostStreamParser \<Rightarrow> bytes \<Rightarrow> int \<Rightarrow> Frame list res \<times> HostStreamParser" where
  "feed p data now_ms =
     (let p0 = p\<lparr>rx_buffer := rx_buffer p @ data\<rparr>; n = length (rx_buffer p0);
          p1 = (if n > HOST_RX_BUFFER_LIMIT
                then bump (\<lambda>d. d\<lparr>rx_buffer_limit := rx_buffer_limit d + 1,
                             resync_discarded_bytes := resync_discarded_bytes d + (n - 3)\<rparr>)
                     (p0\<lparr>rx_buffer := drop (n - 3) (rx_buffer p0)\<rparr>)
                else p0)
      in feed_loop now_ms p1 [])"


section \<open>Accounting, bounds and soundness\<close>

lemma decode_frame_other_error:
  assumes "decode_frame b = Inl e" and "\<not> is_ProtocolError e"
  shows "vint (unpack_go HEADER_FMT b ! 1) \<noteq> PROTOCOL_VERSION \<or>
     vint (unpack_go HEADER_FMT b ! 3) AND NOT VALID_FLAGS_MASK \<noteq> 0"
proof (rule ccontr)
  assume *: "\<not> ?thesis"
  have len: "20 \<le> length b"
    using assms by (auto simp: decode_frame_def is_ProtocolError_def HEADER_SIZE_def CRC_SIZE_def
        split: if_splits)
  then have h: "unpack_from HEADER_FMT b 0 = Inr (unpack_go HEADER_FMT b)"
    by (simp add: unpack_from_def HEADER_FMT_def)
  obtain m v t fl sq n where hs: "unpack_go HEADER_FMT b = [PBytes m, PInt v, PInt t, PInt fl, PInt sq, PInt n]"
    and pk: "fits HEADER_FMT (unpack_go HEADER_FMT b)" and n: "0 \<le> n"
    using unpacked_header [OF h] fits_unpack_from [OF h] by metis
  have sq: "0 \<le> sq" "sq \<le> 0xFFFFFFFF"
    using pk [unfolded hs] by (simp_all add: HEADER_FMT_def frange_def)
  have c: "\<exists>c. unpack_from [FI] b (length b - 4) = Inr c"
    using len by (simp add: unpack_from_def)
  show False
    using assms * len sq c
    by (auto simp: decode_frame_def h hs Let_def is_ProtocolError_def validate_frame_fields_def
        HEADER_SIZE_def CRC_SIZE_def split: if_splits option.splits)
qed

lemma parse_candidate_no_raise: "parse_candidate p \<noteq> StepRaise e q"
proof
  assume st: "parse_candidate p = StepRaise e q"
  let ?h = "unpack_go HEADER_FMT (rx_buffer p)"
  obtain n where e: "decode_frame (take n (rx_buffer p)) = Inl e" "\<not> is_ProtocolError e"
    and n: "HEADER_SIZE \<le> n" and v: "vint (?h ! 1) = PROTOCOL_VERSION"
    "vint (?h ! 3) AND NOT VALID_FLAGS_MASK = 0"
    using st by (auto simp: parse_candidate_def Let_def split: if_splits sum.splits)
  have "unpack_go HEADER_FMT (take n (rx_buffer p)) = ?h"
    using n by (intro unpack_go_take) (simp add: HEADER_FMT_def HEADER_SIZE_def)
  then show False
    using decode_frame_other_error [OF e] v by simp
qed

lemma feed_step_no_raise: "feed_step now p \<noteq> StepRaise e q"
proof (cases "find_magic (rx_buffer p)")
  case None
  then show ?thesis by (simp add: feed_step_def Let_def)
next
  case (Some i)
  show ?thesis
    by (rule feed_step_Some [OF Some, of now]) (auto simp: parse_candidate_no_raise)
qed

lemma magic_prefix_length_le: "magic_prefix_length xs \<le> 3" "magic_prefix_length xs \<le> length xs"
  by (auto simp: magic_prefix_length_def split: option.splits dest!: find_SomeD)

lemma parse_candidate_DoneD:
  assumes "parse_candidate p = StepDone q"
  shows "q = p" and "length (rx_buffer p) < 4728"
proof -
  show "q = p"
    using assms by (auto simp: parse_candidate_def Let_def split: if_splits sum.splits)
  have "length (rx_buffer p) < 16 \<or> (\<exists>t fl len. payload_length_is_valid t fl len \<and>
      length (rx_buffer p) < 16 + nat len + 4)"
    using assms
    by (auto simp: parse_candidate_def Let_def HEADER_SIZE_def CRC_SIZE_def split: if_splits sum.splits)
  then show "length (rx_buffer p) < 4728"
    using payload_length_bounds by fastforce
qed

text \<open>The bytes a parser state stands for: those discarded so far and those still buffered.\<close>

definition accounted :: "HostStreamParser \<Rightarrow> nat" where
  "accounted p = resync_discarded_bytes (diagnostics p) + length (rx_buffer p)"

lemma accounted_discard:
  "rx_buffer p \<noteq> [] \<Longrightarrow> accounted (discard_candidate_byte p) = accounted p"
  by (cases "rx_buffer p") (simp_all add: accounted_def discard_candidate_byte_def bump_def)

lemma parse_candidate_accounted:
  assumes "rx_buffer p \<noteq> []"
  shows "parse_candidate p = StepContinue q \<Longrightarrow> accounted q = accounted p"
    and "parse_candidate p = StepEmit f q \<Longrightarrow>
      accounted p = accounted q + length (frame_bytes f) \<and> diagnostics q = diagnostics p"
proof -
  assume "parse_candidate p = StepContinue q"
  then obtain g where q: "q = discard_candidate_byte (bump g p)"
    and g: "resync_discarded_bytes (g (diagnostics p)) = resync_discarded_bytes (diagnostics p)"
    by (simp add: parse_candidate_def Let_def split: if_splits sum.splits)
      (atomize_elim, auto intro!: exI)+
  have "accounted q = accounted (bump g p)"
    unfolding q using assms by (intro accounted_discard) simp
  also have "\<dots> = accounted p"
    by (simp add: accounted_def g)
  finally show "accounted q = accounted p" .
next
  assume st: "parse_candidate p = StepEmit f q"
  then have "diagnostics q = diagnostics p"
    by (auto simp: parse_candidate_def Let_def split: if_splits sum.splits)
  then show "accounted p = accounted q + length (frame_bytes f) \<and> diagnostics q = diagnostics p"
    using parse_candidate_progress(2) [OF assms st] by (simp add: accounted_def)
qed

lemma feed_step_accounted:
  "feed_step now p = StepContinue q \<Longrightarrow> accounted q = accounted p"
  "feed_step now p = StepEmit f q \<Longrightarrow> accounted p = accounted q + length (frame_bytes f)"
  "feed_step now p = StepDone q \<Longrightarrow> accounted q = accounted p \<and> length (rx_buffer q) < 4728"
proof -
  have acc: "accounted p' = accounted p"
    if "find_magic (rx_buffer p) = Some i" "rx_buffer p' = drop i (rx_buffer p)"
      "resync_discarded_bytes (diagnostics p') = resync_discarded_bytes (diagnostics p) + i" for i p'
    using find_magic_Some [OF that(1)] that(2,3) by (simp add: accounted_def)
  have all: "(\<forall>q. feed_step now p = StepContinue q \<longrightarrow> accounted q = accounted p) \<and>
    (\<forall>f q. feed_step now p = StepEmit f q \<longrightarrow> accounted p = accounted q + length (frame_bytes f)) \<and>
    (\<forall>q. feed_step now p = StepDone q \<longrightarrow> accounted q = accounted p \<and> length (rx_buffer q) < 4728)"
  proof (cases "find_magic (rx_buffer p)")
    case None
    then show ?thesis
      using magic_prefix_length_le [of "rx_buffer p"]
      by (simp add: feed_step_def Let_def accounted_def)
  next
    case (Some i)
    note m = find_magic_Some [OF Some]
    show ?thesis
    proof (cases rule: feed_step_Some [OF Some, of now, case_names candidate expired])
      case (candidate p' t)
      have a: "accounted p' = accounted p"
        using Some candidate(2,4) by (intro acc) (simp_all add: count_discarded_def)
      have ne: "rx_buffer p' \<noteq> []" using m candidate(2) by auto
      show ?thesis
        unfolding candidate(1)
        using a by (auto dest: parse_candidate_accounted [OF ne] parse_candidate_DoneD)
    next
      case (expired p')
      have a: "accounted p' = accounted p"
        using Some expired(2,3) by (intro acc) (simp_all add: count_discarded_def)
      have ne: "rx_buffer p' \<noteq> []" using m expired(2) by auto
      show ?thesis
        unfolding expired(1) using a accounted_discard [OF ne] by simp
    qed
  qed
  show "feed_step now p = StepContinue q \<Longrightarrow> accounted q = accounted p"
    using all by blast
  show "feed_step now p = StepEmit f q \<Longrightarrow> accounted p = accounted q + length (frame_bytes f)"
    using all by blast
  show "feed_step now p = StepDone q \<Longrightarrow> accounted q = accounted p \<and> length (rx_buffer q) < 4728"
    using all by blast
qed

lemma parse_candidate_emits_valid:
  assumes st: "parse_candidate p = StepEmit f q" and ne: "rx_buffer p \<noteq> []"
  shows "frame_ok f \<and> policy_ok f"
proof -
  have buf: "rx_buffer p = frame_bytes f @ rx_buffer q"
    using parse_candidate_progress(2) [OF ne st] .
  have ok: "frame_ok f"
    using st by (auto simp: parse_candidate_def Let_def decode_frame_iff split: if_splits sum.splits)
  have "unpack_go HEADER_FMT (rx_buffer p) =
     [PBytes MAGIC, PInt (protocol_version f), PInt (type_code (message_type f)),
        PInt (flags f), PInt (sequence f), PInt (int (length (payload f)))]"
    unfolding buf frame_bytes_def append_assoc by (rule frame_ok_header_fields [OF ok])
  then have "policy_ok f"
    using st by (simp add: parse_candidate_def Let_def policy_ok_def split: if_splits sum.splits)
  with ok show ?thesis by simp
qed

lemma feed_step_emits_valid:
  assumes st: "feed_step now p = StepEmit f q"
  shows "frame_ok f \<and> policy_ok f"
proof -
  obtain i where i: "find_magic (rx_buffer p) = Some i"
    using st by (auto simp: feed_step_def Let_def split: option.splits)
  show ?thesis
  proof (cases rule: feed_step_Some [OF i, of now, case_names candidate expired])
    case (candidate p' t)
    then show ?thesis
      using st find_magic_Some [OF i] by (intro parse_candidate_emits_valid [of p' f q]) auto
  next
    case (expired p')
    then show ?thesis using st by simp
  qed
qed

lemma feed_step_Done_buffer:
  assumes st: "feed_step now p = StepDone q"
  shows "\<exists>k \<le> length (rx_buffer p). rx_buffer q = drop k (rx_buffer p)"
proof (cases "find_magic (rx_buffer p)")
  case None
  then show ?thesis
    using st by (auto simp: feed_step_def Let_def intro!: exI [of _ "_ - _"])
next
  case (Some i)
  then show ?thesis
    using st find_magic_Some [OF Some] parse_candidate_DoneD(1)
    by (cases rule: feed_step_Some [OF Some, of now])
      (auto intro!: exI [of _ i])
qed

lemma subseq_append_drop: "subseq xs (drop k ys) \<Longrightarrow> subseq xs ys"
  by (metis append_take_drop_id subseq_drop_many)

text \<open>Everything a run of the loop guarantees, in one induction along its turns.\<close>

lemma feed_loop_spec:
  "\<exists>fs. fst (feed_loop now p frames) = Inr (frames @ fs) \<and>
     accounted p = accounted (snd (feed_loop now p frames))
       + sum_list (map (\<lambda>f. length (frame_bytes f)) fs) \<and>
     length (rx_buffer (snd (feed_loop now p frames))) < 4728 \<and>
     (\<forall>f \<in> set fs. frame_ok f \<and> policy_ok f) \<and>
     subseq (concat (map frame_bytes fs) @ rx_buffer (snd (feed_loop now p frames))) (rx_buffer p)"
proof (induction now p frames rule: feed_loop.induct)
  case (1 now p frames)
  show ?case
  proof (cases "feed_step now p")
    case (StepDone q)
    obtain k where "rx_buffer q = drop k (rx_buffer p)"
      using feed_step_Done_buffer [OF StepDone] by blast
    then show ?thesis
      using StepDone feed_step_accounted(3) [OF StepDone] subseq_append_drop [of "rx_buffer q" k]
      by (simp add: feed_loop.simps [of now p])
  next
    case (StepContinue q)
    obtain k where k: "rx_buffer q = drop k (rx_buffer p)"
      using feed_step_buffer(1) [OF StepContinue] by blast
    have "feed_loop now p frames = feed_loop now q frames"
      using StepContinue by (simp add: feed_loop.simps [of now p])
    then show ?thesis
      using "1.IH"(1) [OF StepContinue] feed_step_accounted(1) [OF StepContinue] k
        subseq_append_drop [of _ k "rx_buffer p"] by metis
  next
    case (StepEmit f q)
    obtain k where k: "drop k (rx_buffer p) = frame_bytes f @ rx_buffer q"
      using feed_step_buffer(2) [OF StepEmit] by blast
    obtain fs where fs: "fst (feed_loop now q (frames @ [f])) = Inr ((frames @ [f]) @ fs)"
      "accounted q = accounted (snd (feed_loop now q (frames @ [f])))
         + sum_list (map (\<lambda>f. length (frame_bytes f)) fs)"
      "length (rx_buffer (snd (feed_loop now q (frames @ [f])))) < 4728"
      "\<forall>f \<in> set fs. frame_ok f \<and> policy_ok f"
      "subseq (concat (map frame_bytes fs) @ rx_buffer (snd (feed_loop now q (frames @ [f])))) (rx_buffer q)"
      using "1.IH"(2) [OF StepEmit] by blast
    have "subseq (frame_bytes f @ concat (map frame_bytes fs) @
        rx_buffer (snd (feed_loop now q (frames @ [f])))) (rx_buffer p)"
      by (rule subseq_append_drop [of _ k]) (simp only: k subseq_append' fs(5))
    then show ?thesis
      using fs StepEmit feed_step_accounted(2) [OF StepEmit] feed_step_emits_valid [OF StepEmit]
      by (intro exI [of _ "f # fs"]) (simp add: feed_loop.simps [of now p])
  next
    case (StepRaise e q)
    then show ?thesis by (simp add: feed_step_no_raise)
  qed
qed


section \<open>Completeness: valid frames are always found\<close>

lemma frame_bytes_take_magic: "take 4 (frame_bytes f @ r) = MAGIC"
  by (simp add: frame_bytes_def header_of_def MAGIC_def)

lemma find_magic_0: "take 4 xs = MAGIC \<Longrightarrow> find_magic xs = Some 0"
  by (cases xs) (auto simp: MAGIC_def)

lemma parse_candidate_complete:
  assumes ok: "frame_ok f" "policy_ok f" and buf: "rx_buffer p = frame_bytes f @ rest"
  shows "parse_candidate p = StepEmit f (p\<lparr>rx_buffer := rest, candidate_started_ms := None\<rparr>)"
proof -
  have h: "unpack_go HEADER_FMT (frame_bytes f @ rest) =
     [PBytes MAGIC, PInt (protocol_version f), PInt (type_code (message_type f)),
        PInt (flags f), PInt (sequence f), PInt (int (length (payload f)))]"
    unfolding frame_bytes_def append_assoc by (rule frame_ok_header_fields [OF ok(1)])
  have fl: "flags f AND NOT VALID_FLAGS_MASK = 0" and v: "protocol_version f = PROTOCOL_VERSION"
    and pl: "length (payload f) \<le> HOST_MAX_PAYLOAD_LENGTH"
    using ok(1) by (simp_all add: flags_mask_iff frame_ok_def PROTOCOL_VERSION_def HOST_MAX_PAYLOAD_LENGTH_def)
  have sz: "HEADER_SIZE + length (payload f) + CRC_SIZE = length (frame_bytes f)"
    and len: "\<not> length (frame_bytes f @ rest) < HEADER_SIZE"
    by (simp_all add: HEADER_SIZE_def CRC_SIZE_def)
  show ?thesis
    using ok(2) fl v pl len decode_frame_bytes [OF ok(1)]
    by (simp add: parse_candidate_def buf h sz Let_def policy_ok_def del: length_frame_bytes)
qed

lemma feed_step_complete:
  assumes "frame_ok f" "policy_ok f" and buf: "rx_buffer p = frame_bytes f @ rest"
    and t: "\<And>t. candidate_started_ms p = Some t \<Longrightarrow> now - t \<le> 2000"
  shows "feed_step now p = StepEmit f (p\<lparr>rx_buffer := rest, candidate_started_ms := None\<rparr>)"
proof -
  have m: "find_magic (rx_buffer p) = Some 0"
    unfolding buf by (rule find_magic_0 [OF frame_bytes_take_magic])
  show ?thesis
    using assms(1,2) t
    by (auto simp: feed_step_def m [unfolded buf] Let_def parse_candidate_complete [of f _ rest] buf
        split: option.split)
qed

lemma feed_loop_frames:
  assumes "\<forall>f \<in> set fs. frame_ok f \<and> policy_ok f"
    and "rx_buffer p = concat (map frame_bytes fs) @ rest"
    and "\<And>t. candidate_started_ms p = Some t \<Longrightarrow> now - t \<le> 2000"
  shows "feed_loop now p frames = feed_loop now
     (if fs = [] then p else p\<lparr>rx_buffer := rest, candidate_started_ms := None\<rparr>) (frames @ fs)"
  using assms
proof (induction fs arbitrary: p frames)
  case (Cons f fs)
  let ?q = "p\<lparr>rx_buffer := concat (map frame_bytes fs) @ rest, candidate_started_ms := None\<rparr>"
  have "feed_step now p = StepEmit f ?q"
    using Cons.prems by (intro feed_step_complete) auto
  then have "feed_loop now p frames = feed_loop now ?q (frames @ [f])"
    by (simp add: feed_loop.simps [of now p])
  then show ?case
    using Cons.IH [of ?q "frames @ [f]"] Cons.prems by (cases fs) simp_all
qed simp

lemma feed_step_empty:
  "rx_buffer p = [] \<Longrightarrow> feed_step now p = StepDone (p\<lparr>candidate_started_ms := None\<rparr>)"
  by (cases p) (simp add: feed_step_def Let_def magic_prefix_length_def bump_def)

lemma feed_step_short_prefix:
  assumes "n < 4" and "rx_buffer p = take n MAGIC"
  shows "feed_step now p = StepDone (p\<lparr>candidate_started_ms := None\<rparr>)"
proof -
  have "n \<in> {0, 1, 2, 3}" using assms(1) by auto
  then have "find_magic (take n MAGIC) = None" and "magic_prefix_length (take n MAGIC) = n"
    and "length (take n MAGIC) = n"
    by (auto simp: MAGIC_def magic_prefix_length_def upt_rec)
  then show ?thesis
    using assms(2) by (cases p) (simp add: feed_step_def Let_def bump_def)
qed

text \<open>A strict prefix of a valid frame waits in the buffer, untouched.\<close>

lemma feed_step_prefix:
  assumes ok: "frame_ok f" "policy_ok f" and n: "n < length (frame_bytes f)"
    and buf: "rx_buffer p = take n (frame_bytes f)"
    and c: "\<And>t. candidate_started_ms p = Some t \<Longrightarrow> now - t \<le> 2000"
  shows "\<exists>s. feed_step now p = StepDone (p\<lparr>candidate_started_ms := s\<rparr>) \<and>
     s \<in> {None, Some now, candidate_started_ms p}"
proof (cases "n < 4")
  case True
  have "take n (frame_bytes f) = take n (take 4 (frame_bytes f @ []))"
    using True by simp
  then have "rx_buffer p = take n MAGIC"
    unfolding frame_bytes_take_magic by (simp add: buf)
  then show ?thesis using feed_step_short_prefix [OF True, of p now] by blast
next
  case False
  have m: "find_magic (rx_buffer p) = Some 0"
    using False frame_bytes_take_magic [of f "[]"] by (intro find_magic_0) (simp add: buf min_def)
  have waits: "parse_candidate q = StepDone q" if q: "rx_buffer q = take n (frame_bytes f)" for q
  proof (cases "n < 16")
    case True
    then show ?thesis using n by (simp add: parse_candidate_def q HEADER_SIZE_def)
  next
    case False
    have h: "unpack_go HEADER_FMT (take n (frame_bytes f)) =
     [PBytes MAGIC, PInt (protocol_version f), PInt (type_code (message_type f)),
        PInt (flags f), PInt (sequence f), PInt (int (length (payload f)))]"
      using False frame_ok_header_fields [OF ok(1), of "payload f @ crc_of f"]
      by (simp add: unpack_go_take HEADER_FMT_def frame_bytes_def)
    have fl: "flags f AND NOT VALID_FLAGS_MASK = 0" and v: "protocol_version f = PROTOCOL_VERSION"
      and pl: "length (payload f) \<le> HOST_MAX_PAYLOAD_LENGTH"
      using ok(1) by (simp_all add: flags_mask_iff frame_ok_def PROTOCOL_VERSION_def HOST_MAX_PAYLOAD_LENGTH_def)
    show ?thesis
      using False n ok(2) fl v pl
      by (simp add: parse_candidate_def q h Let_def policy_ok_def HEADER_SIZE_def CRC_SIZE_def)
  qed
  show ?thesis
  proof (cases "candidate_started_ms p")
    case None
    then have "feed_step now p = StepDone (p\<lparr>candidate_started_ms := Some now\<rparr>)"
      using m waits by (simp add: feed_step_def Let_def buf)
    then show ?thesis by blast
  next
    case (Some t)
    then have "feed_step now p = StepDone (p\<lparr>candidate_started_ms := Some t\<rparr>)"
      using m waits [OF buf] c [OF Some] by (cases p) (simp add: feed_step_def Let_def)
    then show ?thesis using Some by auto
  qed
qed

text \<open>Where a cut falls in a stream of frames: after some whole frames, inside the next one.\<close>

lemma cut_frames:
  "concat (map frame_bytes fs) = xs @ ys \<Longrightarrow>
   (xs = concat (map frame_bytes fs) \<and> ys = []) \<or>
   (\<exists>fs1 f fs2 n. fs = fs1 @ f # fs2 \<and> n < length (frame_bytes f) \<and>
      xs = concat (map frame_bytes fs1) @ take n (frame_bytes f) \<and>
      take n (frame_bytes f) @ ys = concat (map frame_bytes (f # fs2)))"
proof (induction fs arbitrary: xs)
  case (Cons f fs)
  show ?case
  proof (cases "length xs < length (frame_bytes f)")
    case True
    have "xs = take (length xs) (frame_bytes f @ concat (map frame_bytes fs))"
      using Cons.prems by simp
    then have "xs = take (length xs) (frame_bytes f)"
      using True by simp
    then show ?thesis
      using True Cons.prems
      by (intro disjI2 exI [of _ "[]"] exI [of _ f] exI [of _ fs] exI [of _ "length xs"]) auto
  next
    case False
    have "take (length (frame_bytes f)) (xs @ ys) = frame_bytes f"
      using Cons.prems [symmetric] by simp
    then have "take (length (frame_bytes f)) xs = frame_bytes f"
      using False by simp
    then obtain xs' where xs: "xs = frame_bytes f @ xs'"
      by (metis append_take_drop_id)
    then have "concat (map frame_bytes fs) = xs' @ ys"
      using Cons.prems by simp
    then consider "xs' = concat (map frame_bytes fs)" "ys = []"
      | fs1 g fs2 n where "fs = fs1 @ g # fs2" "n < length (frame_bytes g)"
        "xs' = concat (map frame_bytes fs1) @ take n (frame_bytes g)"
        "take n (frame_bytes g) @ ys = concat (map frame_bytes (g # fs2))"
      using Cons.IH [of xs'] by blast
    then show ?thesis
    proof cases
      case 1
      then show ?thesis using xs by simp
    next
      case (2 fs1 g fs2 n)
      then show ?thesis
        using xs by (intro disjI2 exI [of _ "f # fs1"] exI [of _ g] exI [of _ fs2] exI [of _ n]) simp
    qed
  qed
qed simp

lemma feed_small:
  "length (rx_buffer p @ data) \<le> HOST_RX_BUFFER_LIMIT \<Longrightarrow>
   feed p data now = feed_loop now (p\<lparr>rx_buffer := rx_buffer p @ data\<rparr>) []"
  by (simp add: feed_def Let_def)

text \<open>
  One chunk of a frame stream: the whole frames it completes come out, and what is left is a
  strict prefix of the next frame.
\<close>

definition waiting :: "HostStreamParser \<Rightarrow> Frame list \<Rightarrow> int \<Rightarrow> bool" where
  "waiting p fs t0 \<longleftrightarrow>
     (if fs = [] then rx_buffer p = [] else length (rx_buffer p) < length (frame_bytes (hd fs))) \<and>
     (\<forall>t. candidate_started_ms p = Some t \<longrightarrow> t0 \<le> t)"

lemma feed_chunk:
  assumes ok: "\<forall>f \<in> set fs. frame_ok f \<and> policy_ok f"
    and all: "concat (map frame_bytes fs) = (rx_buffer p @ chunk) @ later"
    and small: "length (rx_buffer p @ chunk) \<le> HOST_RX_BUFFER_LIMIT"
    and started: "\<And>t. candidate_started_ms p = Some t \<Longrightarrow> t0 \<le> t"
    and now: "t0 \<le> now" "now - t0 \<le> 2000"
  shows "\<exists>fs1 fs2 p'. fs = fs1 @ fs2 \<and> feed p chunk now = (Inr fs1, p') \<and>
     rx_buffer p' @ later = concat (map frame_bytes fs2) \<and> diagnostics p' = diagnostics p \<and>
     waiting p' fs2 t0"
  using cut_frames [OF all]
proof (elim disjE exE conjE)
  let ?p = "p\<lparr>rx_buffer := rx_buffer p @ chunk\<rparr>"
  assume xs: "rx_buffer p @ chunk = concat (map frame_bytes fs)" and later: "later = []"
  let ?q = "p\<lparr>rx_buffer := [], candidate_started_ms := None\<rparr>"
  have "feed p chunk now = feed_loop now ?p []"
    by (rule feed_small [OF small])
  also have "\<dots> = (Inr fs, ?q)"
  proof (cases fs)
    case Nil
    then show ?thesis
      using xs by (simp add: feed_loop.simps [of now "p\<lparr>rx_buffer := []\<rparr>"] feed_step_empty)
  next
    case (Cons f fs')
    have "now - t \<le> 2000" if "candidate_started_ms ?p = Some t" for t
      using started [of t] that now by simp
    then have "feed_loop now ?p [] = feed_loop now ?q fs"
      using feed_loop_frames [of fs ?p "[]" now "[]"] ok xs Cons by simp
    then show ?thesis
      by (simp add: feed_loop.simps [of now ?q] feed_step_empty)
  qed
  finally show ?thesis
    using later by (intro exI [of _ fs] exI [of _ "[]"] exI [of _ ?q]) (simp add: waiting_def)
next
  let ?p = "p\<lparr>rx_buffer := rx_buffer p @ chunk\<rparr>"
  fix fs1 f fs2 n
  assume fs: "fs = fs1 @ f # fs2" and n: "n < length (frame_bytes f)"
    and xs: "rx_buffer p @ chunk = concat (map frame_bytes fs1) @ take n (frame_bytes f)"
    and later: "take n (frame_bytes f) @ later = concat (map frame_bytes (f # fs2))"
  let ?q = "if fs1 = [] then ?p
    else p\<lparr>rx_buffer := take n (frame_bytes f), candidate_started_ms := None\<rparr>"
  have "feed p chunk now = feed_loop now ?p []"
    by (rule feed_small [OF small])
  also have "\<dots> = feed_loop now ?q fs1"
    using feed_loop_frames [of fs1 ?p "take n (frame_bytes f)" now "[]"] ok fs xs now started
    by fastforce
  finally have first: "feed p chunk now = feed_loop now ?q fs1" .
  have q: "rx_buffer ?q = take n (frame_bytes f)" "diagnostics ?q = diagnostics p"
    "candidate_started_ms ?q \<in> {None, candidate_started_ms p}"
    using xs by simp_all
  have "now - t \<le> 2000" if "candidate_started_ms ?q = Some t" for t
    using q(3) that started [of t] now by auto
  then obtain s where st: "feed_step now ?q = StepDone (?q\<lparr>candidate_started_ms := s\<rparr>)"
    and s: "s \<in> {None, Some now, candidate_started_ms ?q}"
    using feed_step_prefix [OF _ _ n q(1), of now] ok fs by auto
  have "waiting (?q\<lparr>candidate_started_ms := s\<rparr>) (f # fs2) t0"
    using s q started now n by (auto simp: waiting_def)
  moreover have "feed p chunk now = (Inr fs1, ?q\<lparr>candidate_started_ms := s\<rparr>)"
    unfolding first by (simp add: feed_loop.simps [of now ?q] st)
  ultimately show ?thesis
    using fs later q
    by (intro exI [of _ fs1] exI [of _ "f # fs2"] exI [of _ "?q\<lparr>candidate_started_ms := s\<rparr>"]) simp
qed

text \<open>A reader that calls \<open>feed\<close> on every chunk it receives, with the time of arrival.\<close>

fun feed_all :: "HostStreamParser \<Rightarrow> (bytes \<times> int) list \<Rightarrow> Frame list res \<times> HostStreamParser" where
  "feed_all p [] = (Inr [], p)"
| "feed_all p ((chunk, now) # cs) =
     (case feed p chunk now of
        (Inl e, p1) \<Rightarrow> (Inl e, p1)
      | (Inr fs, p1) \<Rightarrow>
          (case feed_all p1 cs of
             (Inl e, p2) \<Rightarrow> (Inl e, p2)
           | (Inr gs, p2) \<Rightarrow> (Inr (fs @ gs), p2)))"

lemma frame_bytes_limit: "policy_ok f \<Longrightarrow> length (frame_bytes f) \<le> 4728"
  using payload_length_bounds [of "message_type f" "flags f" "int (length (payload f))"]
  by (simp add: policy_ok_def)

lemma feed_all_waiting:
  assumes "\<forall>f \<in> set fs. frame_ok f \<and> policy_ok f" and "waiting p fs t0"
    and "concat (map frame_bytes fs) = rx_buffer p @ concat (map fst cs)"
    and "\<forall>(chunk, now) \<in> set cs. length chunk \<le> 11696 \<and> t0 \<le> now \<and> now - t0 \<le> 2000"
  shows "\<exists>s. feed_all p cs = (Inr fs, p\<lparr>rx_buffer := [], candidate_started_ms := s\<rparr>)"
  using assms
proof (induction cs arbitrary: p fs)
  case Nil
  have "fs = []"
  proof (rule ccontr)
    assume "fs \<noteq> []"
    then obtain f fs' where "fs = f # fs'" by (cases fs) auto
    then have "length (rx_buffer p) < length (frame_bytes f)"
      "length (rx_buffer p) = length (frame_bytes f @ concat (map frame_bytes fs'))"
      using Nil.prems(2,3) by (simp_all add: waiting_def)
    then show False by simp
  qed
  then show ?case using Nil by (cases p) (auto simp: waiting_def)
next
  case (Cons c cs)
  obtain chunk now where c: "c = (chunk, now)" by force
  have "length (rx_buffer p) \<le> 4728"
    using Cons.prems(1,2) frame_bytes_limit [of "hd fs"] by (cases fs) (auto simp: waiting_def)
  then have small: "length (rx_buffer p @ chunk) \<le> HOST_RX_BUFFER_LIMIT"
    using Cons.prems(4) by (simp add: c HOST_RX_BUFFER_LIMIT_def)
  obtain fs1 fs2 p' where step: "fs = fs1 @ fs2" "feed p chunk now = (Inr fs1, p')"
    "rx_buffer p' @ concat (map fst cs) = concat (map frame_bytes fs2)"
    "diagnostics p' = diagnostics p" "waiting p' fs2 t0"
    using feed_chunk [OF Cons.prems(1) _ small, of "concat (map fst cs)" t0 now] Cons.prems(2-4)
    by (auto simp: c waiting_def)
  obtain s where "feed_all p' cs = (Inr fs2, p'\<lparr>rx_buffer := [], candidate_started_ms := s\<rparr>)"
    using Cons.IH [of fs2 p'] step Cons.prems(1,4) by auto
  then have "feed_all p (c # cs) = (Inr fs, p'\<lparr>rx_buffer := [], candidate_started_ms := s\<rparr>)"
    using step by (simp add: c)
  then show ?case using step(4) by (cases p; cases p') auto
qed

lemma find_magic_skip:
  assumes "0x55 \<notin> set xs" and "take 4 ys = MAGIC"
  shows "find_magic (xs @ ys) = Some (length xs)"
  using assms
proof (induction xs)
  case Nil
  then show ?case by (simp add: find_magic_0)
next
  case (Cons x xs)
  have "take 4 (x # xs @ ys) \<noteq> MAGIC"
    using Cons.prems(1) by (auto simp: MAGIC_def)
  then show ?case using Cons by simp
qed

section \<open>Properties\<close>

text \<open>C31 (safety). Whatever the transport delivers and whatever state the parser is in, \<open>feed\<close> returns
  normally (no exception escapes), keeps less than one maximal frame (4728 bytes) buffered, and
  hands out only frames that are well-formed and that the flag and length policy of their type
  admits.\<close>

theorem feed_total_sound_bounded:
  "\<exists>fs p'. feed p data now = (Inr fs, p') \<and> length (rx_buffer p') < 4728 \<and>
     list_all (\<lambda>f. frame_ok f \<and> policy_ok f) fs"
proof -
  obtain p1 where run: "feed p data now = feed_loop now p1 []"
    unfolding feed_def Let_def by blast
  show ?thesis
    using feed_loop_spec [of now p1 "[]"] unfolding run
    by (cases "feed_loop now p1 []") (auto simp: list_all_iff)
qed

text \<open>C32 (invariant). No byte disappears unaccounted and none is invented: over one \<open>feed\<close>, the growth of
  \<open>resync_discarded_bytes\<close>, the encoded length of the emitted frames and the buffered rest add up
  to what was buffered plus what arrived, and the emitted frames followed by the buffered rest
  are, in order, a subsequence of the bytes received. This includes the turn on which the 16424
  byte limit is hit and all but three bytes are dropped.\<close>

theorem feed_accounts_for_every_byte:
  "\<exists>fs p'. feed p data now = (Inr fs, p') \<and>
     resync_discarded_bytes (diagnostics p) + length (rx_buffer p) + length data =
       resync_discarded_bytes (diagnostics p') + length (rx_buffer p') +
       sum_list (map (\<lambda>f. length (frame_bytes f)) fs) \<and>
     subseq (concat (map frame_bytes fs) @ rx_buffer p') (rx_buffer p @ data)"
proof -
  obtain p1 k where run: "feed p data now = feed_loop now p1 []"
    and k: "rx_buffer p1 = drop k (rx_buffer p @ data)"
    and acc: "accounted p1 = accounted p + length data"
  proof (cases "length (rx_buffer p @ data) > HOST_RX_BUFFER_LIMIT")
    case False
    then show thesis
      using that [of "p\<lparr>rx_buffer := rx_buffer p @ data\<rparr>" 0] feed_small [of p data now]
      by (simp add: accounted_def)
  next
    case True
    let ?n = "length (rx_buffer p @ data)"
    let ?q = "bump (\<lambda>d. d\<lparr>rx_buffer_limit := rx_buffer_limit d + 1,
        resync_discarded_bytes := resync_discarded_bytes d + (?n - 3)\<rparr>)
      (p\<lparr>rx_buffer := drop (?n - 3) (rx_buffer p @ data)\<rparr>)"
    show thesis
      by (rule that [of ?q "?n - 3"])
        (use True in \<open>simp_all add: feed_def Let_def accounted_def HOST_RX_BUFFER_LIMIT_def\<close>)
  qed
  obtain fs where spec: "fst (feed_loop now p1 []) = Inr fs"
    "accounted p1 = accounted (snd (feed_loop now p1 [])) + sum_list (map (\<lambda>f. length (frame_bytes f)) fs)"
    "subseq (concat (map frame_bytes fs) @ rx_buffer (snd (feed_loop now p1 []))) (rx_buffer p1)"
    using feed_loop_spec [of now p1 "[]"] by auto
  show ?thesis
    using spec acc subseq_append_drop [OF spec(3) [unfolded k]] unfolding run
    by (cases "feed_loop now p1 []") (simp add: accounted_def)
qed

text \<open>C7 (functional). Framing does not depend on how the transport cuts the stream: if valid frames are sent
  back to back and arrive in any number of chunks (also empty ones, and also inside the magic or
  the header), each of at most 11696 bytes and all within the 2000 ms candidate timeout, then
  exactly these frames come out, in order, nothing stays buffered and no diagnostic counter
  moves.\<close>

theorem feed_any_chunking:
  assumes "list_all (\<lambda>f. frame_ok f \<and> policy_ok f) fs"
    and "concat (map frame_bytes fs) = concat (map fst cs)"
    and "list_all (\<lambda>(chunk, now). length chunk \<le> 11696 \<and> t0 \<le> now \<and> now - t0 \<le> 2000) cs"
  shows "\<exists>p'. feed_all new_parser cs = (Inr fs, p') \<and> rx_buffer p' = [] \<and>
     diagnostics p' = new_diagnostics"
proof -
  have "waiting new_parser fs t0"
    by (cases fs) (simp_all add: waiting_def new_parser_def)
  then show ?thesis
    using feed_all_waiting [of fs new_parser t0 cs] assms
    by (auto simp: list_all_iff new_parser_def)
qed

theorem feed_any_chunking_witness:
  "\<exists>p'. feed_all new_parser
       [([0x55, 0x53], 0), ([0x41, 0x43, 1, 8, 0, 0, 7, 0, 0, 0], 900), ([], 950),
        ([0, 0, 0, 0] @ crc_of (mk_frame GET_STATUS 7 [] 0), 2000)] =
     (Inr [mk_frame GET_STATUS 7 [] 0], p') \<and> rx_buffer p' = [] \<and> diagnostics p' = new_diagnostics"
  by (rule feed_any_chunking [of _ _ 0])
    (simp_all add: frame_ok_def policy_ok_def PROTOCOL_VERSION_def frame_bytes_def header_of_def
      MAGIC_def numeral_eq_Suc crc_of_def flags_are_valid_for_message_def payload_length_is_valid_def)



end
