(* ===== verification/Message_Codec.thy ===== *)
theory Message_Codec
  imports Struct_Codec
begin

text \<open>
  What the fixed-layout payload codecs of \<open>messages.py\<close>, \<open>capture_data.py\<close> and
  \<open>bridge_messages.py\<close> have in common. Such a codec has a struct format, a dataclass whose fields are the
  tuple of the format, guards on the message, and a test of the reserved bytes. The locales state
  this once; the round trip and the payload length follow in them, and every codec is an
  interpretation. A codec that tests all its reserved bytes is canonical.
\<close>

text \<open>\<open>_fixed_bytes\<close>\<close>

definition fixed_bytes :: "bytes \<Rightarrow> nat \<Rightarrow> bytes res" where
  "fixed_bytes v n = (if length v \<noteq> n then Inl ValueError else Inr v)"

lemma fixed_bytes_Inr [simp]: "fixed_bytes v n = Inr w \<longleftrightarrow> length v = n \<and> w = v"
  by (auto simp: fixed_bytes_def)

lemma fixed_bytes_Inl [simp]: "fixed_bytes v n = Inl e \<longleftrightarrow> length v \<noteq> n \<and> e = ValueError"
  by (auto simp: fixed_bytes_def)

lemma take_1_drop: "n < length xs \<Longrightarrow> take (Suc 0) (drop n xs) = [x] \<longleftrightarrow> xs ! n = x"
  by (simp add: take_Suc_conv_app_nth)

locale struct_message =
  fixes enc :: "'m \<Rightarrow> bytes res" and dec :: "bytes \<Rightarrow> 'm res"
    and layout :: "fmt list" and tup :: "'m \<Rightarrow> pyval list" and of_tup :: "pyval list \<Rightarrow> 'm"
    and ok :: "'m \<Rightarrow> bool" and reserved_ok :: "bytes \<Rightarrow> bool"
  assumes of_tup_tup: "ok m \<Longrightarrow> of_tup (tup m) = m"
    and tup_of_tup: "fits layout vs \<Longrightarrow> tup (of_tup vs) = vs"
    and enc_iff: "enc m = Inr bs \<longleftrightarrow> ok m \<and> exact layout (tup m) \<and> pack layout (tup m) = Inr bs"
    and dec_iff_unpack: "dec bs = Inr m \<longleftrightarrow>
      reserved_ok bs \<and> (\<exists>vs. unpack layout bs = Inr vs \<and> m = of_tup vs \<and> ok m)"
    and dec_error: "dec bs = Inl e \<Longrightarrow> e = ValueError"
    and reserved_zero: "length bs = calcsize layout \<Longrightarrow> pads_zero layout bs \<Longrightarrow> reserved_ok bs"
begin

lemma dec_enc_message:
  assumes "enc m = Inr bs"
  shows "dec bs = Inr m"
proof -
  from assms have ok: "ok m" and ex: "exact layout (tup m)" and p: "pack layout (tup m) = Inr bs"
    by (simp_all add: enc_iff)
  have "unpack layout bs = Inr (tup m)" by (rule unpack_pack [OF p ex])
  moreover have "reserved_ok bs"
    using reserved_zero [OF pack_length [OF p]] pads_zero_pack [OF p, of "[]"] by simp
  ultimately show ?thesis using ok of_tup_tup by (auto simp: dec_iff_unpack)
qed

lemma dec_outcome: "dec bs \<in> range Inr \<union> {Inl ValueError}"
  using dec_error [of bs] by (cases "dec bs") auto

lemma enc_outcome_length: "enc m = Inr bs \<Longrightarrow> length bs = calcsize layout"
  by (auto simp: enc_iff intro: pack_length)

lemma dec_ok: "dec bs = Inr m \<Longrightarrow> ok m"
  by (auto simp: dec_iff_unpack)

end

sublocale struct_message \<subseteq> sized_codec enc dec "calcsize layout"
  by unfold_locales (auto intro: dec_enc_message enc_outcome_length)

locale canonical_struct_message = struct_message +
  assumes reserved_pads: "length bs = calcsize layout \<Longrightarrow> reserved_ok bs \<Longrightarrow> pads_zero layout bs"
begin

lemma enc_dec_message:
  assumes "dec bs = Inr m"
  shows "enc m = Inr bs"
proof -
  from assms obtain vs where r: "reserved_ok bs" and u: "unpack layout bs = Inr vs"
    and m: "m = of_tup vs" and ok: "ok m"
    by (auto simp: dec_iff_unpack)
  have f: "fits layout vs" by (rule fits_unpack [OF u])
  have "tup m = vs" unfolding m by (rule tup_of_tup [OF f])
  moreover have "pack layout vs = Inr bs"
    by (rule pack_unpack [OF u reserved_pads [OF unpack_length [OF u] r]])
  moreover have "exact layout vs" using f by (simp add: fits_iff)
  ultimately show ?thesis using ok by (simp add: enc_iff)
qed

end

sublocale canonical_struct_message \<subseteq> sized_canonical_codec enc dec "calcsize layout"
  by unfold_locales (rule enc_dec_message)

text \<open>
  Most decoders validate by encoding the message they have built and discarding the bytes. The
  locale takes the decoder's equation in that form; what remains to be shown of a codec is its
  encoder.
\<close>

locale checked_struct_message =
  fixes enc :: "'m \<Rightarrow> bytes res" and dec :: "bytes \<Rightarrow> 'm res"
    and layout :: "fmt list" and tup :: "'m \<Rightarrow> pyval list" and of_tup :: "pyval list \<Rightarrow> 'm"
    and ok :: "'m \<Rightarrow> bool" and reserved_ok :: "bytes \<Rightarrow> bool"
  assumes tuple_back: "ok m \<Longrightarrow> of_tup (tup m) = m"
    and tuple_forth: "fits layout vs \<Longrightarrow> tup (of_tup vs) = vs"
    and enc_ok_iff: "enc m = Inr bs \<longleftrightarrow> ok m \<and> exact layout (tup m) \<and> pack layout (tup m) = Inr bs"
    and enc_error: "enc m = Inl e \<Longrightarrow> e = ValueError \<or> pack layout (tup m) = Inl e"
    and dec_eq: "dec bs = (if length bs \<noteq> calcsize layout then Inl ValueError
      else if \<not> reserved_ok bs then Inl ValueError
      else rbind (unpack layout bs) (\<lambda>vs. rbind (enc (of_tup vs)) (\<lambda>_. Inr (of_tup vs))))"
    and reserved_if_zero: "length bs = calcsize layout \<Longrightarrow> pads_zero layout bs \<Longrightarrow> reserved_ok bs"
begin

lemma enc_of_unpacked:
  assumes "unpack layout bs = Inr vs"
  shows "enc (of_tup vs) = Inl ValueError \<and> \<not> ok (of_tup vs) \<or>
    (\<exists>bs'. enc (of_tup vs) = Inr bs') \<and> ok (of_tup vs)"
proof -
  have f: "fits layout vs" by (rule fits_unpack [OF assms])
  obtain bs' where p: "pack layout (tup (of_tup vs)) = Inr bs'" and ex: "exact layout (tup (of_tup vs))"
    using f fits_packs [OF f] tuple_forth [OF f] by (auto simp: fits_iff)
  show ?thesis
  proof (cases "enc (of_tup vs)")
    case (Inl e)
    then have "e = ValueError" using enc_error [OF Inl] p by auto
    moreover have "\<not> ok (of_tup vs)" using enc_ok_iff [of "of_tup vs" bs'] Inl p ex by auto
    ultimately show ?thesis using Inl by simp
  next
    case (Inr b)
    then show ?thesis using enc_ok_iff [of "of_tup vs" b] by auto
  qed
qed

end

sublocale checked_struct_message \<subseteq> struct_message
proof unfold_locales
  show "dec bs = Inr m \<longleftrightarrow>
      reserved_ok bs \<and> (\<exists>vs. unpack layout bs = Inr vs \<and> m = of_tup vs \<and> ok m)" for bs m
  proof (cases "unpack layout bs")
    case (Inl e)
    then show ?thesis by (simp add: dec_eq)
  next
    case (Inr vs)
    then show ?thesis
      using enc_of_unpacked [OF Inr] unpack_length [OF Inr] by (auto simp: dec_eq)
  qed
  show "e = ValueError" if "dec bs = Inl e" for bs e
  proof (cases "unpack layout bs")
    case (Inl e')
    then show ?thesis using that by (auto simp: dec_eq unpack_def split: if_splits)
  next
    case (Inr vs)
    then show ?thesis
      using that enc_of_unpacked [OF Inr] by (auto simp: dec_eq split: if_splits)
  qed
qed (fact tuple_back tuple_forth enc_ok_iff reserved_if_zero)+

locale canonical_checked_struct_message = checked_struct_message +
  assumes zero_if_reserved: "length bs = calcsize layout \<Longrightarrow> reserved_ok bs \<Longrightarrow> pads_zero layout bs"

sublocale canonical_checked_struct_message \<subseteq> canonical_struct_message
  by unfold_locales (rule zero_if_reserved)

end
