(* ===== verification/Config_V2.thy ===== *)
theory Config_V2
  imports Frame
begin

text \<open>
  \<open>config_v2.py\<close>: the acquisition configuration, its canonical bytes, the SHA-256 identity and the
  CRC-32 taken over them, and the wire form. The keyword-only arguments of \<open>_validate_values\<close>
  and \<open>create\<close> are curried arguments in the source's order. The theorems: the wire form is
  canonical, \<open>create\<close> succeeds exactly on valid values and what it returns can always be sent,
  and two configurations with the same canonical bytes are the same configuration.
\<close>

definition PROFILE_SCHEMA_VERSION :: int where "PROFILE_SCHEMA_VERSION = 2"

definition D10X4_REGISTER_PAIRS :: "(int \<times> int) list" where
  "D10X4_REGISTER_PAIRS =
     [(0x10, 0x2E), (0x11, 0x00), (0x12, 0x00), (0x13, 0x00), (0x14, 0x03), (0x16, 0x40),
      (0x17, 0x07), (0x18, 0x14), (0x1A, 0x01), (0x1B, 0x02)]"

definition CANONICAL_PREFIX :: "fmt list" where
  "CANONICAL_PREFIX = [FH, FH, FH, FH, FB, FH, FB, FH, FB]"

definition CONFIG_PREFIX :: "fmt list" where
  "CONFIG_PREFIX = [FH, FH, FH, FH, FB, FB, FH, FH, FB, FB]"

record AcquisitionConfigV2 =
  profile_schema_version :: int
  sample_interval_ticks :: int
  sample_count :: int
  pretrigger_count :: int
  adc_bits :: int
  aux_flags :: int
  vref_mv :: int
  burst_period_ticks :: int
  register_pairs :: "(int \<times> int) list"
  profile_sha256 :: bytes
  device_config_crc32 :: int

text \<open>The loop over the register pairs, with \<open>previous_address\<close> as its accumulator.\<close>

fun validate_pairs :: "int \<Rightarrow> (int \<times> int) list \<Rightarrow> unit res" where
  "validate_pairs previous_address [] = Inr ()"
| "validate_pairs previous_address ((address, val) # ps) =
     (if address \<le> previous_address then Inl ValueError
      else if \<not> (0 \<le> address \<and> address \<le> 0x3F) \<or> \<not> (0 \<le> val \<and> val \<le> 0xFF) then Inl ValueError
      else validate_pairs address ps)"

definition validate_values ::
  "int \<Rightarrow> int \<Rightarrow> int \<Rightarrow> int \<Rightarrow> int \<Rightarrow> int \<Rightarrow> int \<Rightarrow> int \<Rightarrow> (int \<times> int) list \<Rightarrow> unit res" where
  "validate_values schema interval count pretrigger adc aux vref burst pairs =
     (if schema \<noteq> PROFILE_SCHEMA_VERSION then Inl ValueError
      else if \<not> (120 \<le> interval \<and> interval \<le> 960) then Inl ValueError
      else if \<not> (1 \<le> count \<and> count \<le> 2048) then Inl ValueError
      else if \<not> (0 \<le> pretrigger \<and> pretrigger < count) then Inl ValueError
      else if adc \<noteq> 12 then Inl ValueError
      else if aux AND NOT 0x03 \<noteq> 0 then Inl ValueError
      else if vref \<noteq> 3300 then Inl ValueError
      else if \<not> (24 \<le> burst \<and> burst \<le> 800) then Inl ValueError
      else if length pairs > 10 then Inl ValueError
      else validate_pairs (-1) pairs)"

text \<open>\<open>bytes(iterable_of_ints)\<close>\<close>

definition py_bytes :: "int list \<Rightarrow> bytes res" where
  "py_bytes xs = (if list_all (\<lambda>x. 0 \<le> x \<and> x \<le> 255) xs then Inr (map word_of_int xs)
                  else Inl ValueError)"

definition flat_pairs :: "(int \<times> int) list \<Rightarrow> int list" where
  "flat_pairs ps = concat (map (\<lambda>(a, v). [a, v]) ps)"

definition canonical_profile_bytes :: "AcquisitionConfigV2 \<Rightarrow> bytes res" where
  "canonical_profile_bytes c =
     rbind (validate_values (profile_schema_version c) (sample_interval_ticks c) (sample_count c)
              (pretrigger_count c) (adc_bits c) (aux_flags c) (vref_mv c) (burst_period_ticks c)
              (register_pairs c)) (\<lambda>_.
     rbind (pack CANONICAL_PREFIX
              [PInt (profile_schema_version c), PInt (sample_interval_ticks c),
               PInt (sample_count c), PInt (pretrigger_count c), PInt (adc_bits c),
               PInt (vref_mv c), PInt (aux_flags c), PInt (burst_period_ticks c),
               PInt (int (length (register_pairs c)))]) (\<lambda>prefix.
     rbind (py_bytes (flat_pairs (register_pairs c))) (\<lambda>pairs.
     Inr (prefix @ pairs))))"

definition create ::
  "int \<Rightarrow> int \<Rightarrow> int \<Rightarrow> int \<Rightarrow> int \<Rightarrow> int \<Rightarrow> int \<Rightarrow> (int \<times> int) list \<Rightarrow> int \<Rightarrow>
   AcquisitionConfigV2 res" where
  "create interval count pretrigger adc aux vref burst pairs schema =
     rbind (validate_values schema interval count pretrigger adc aux vref burst pairs) (\<lambda>_.
     let unhashed = \<lparr>profile_schema_version = schema, sample_interval_ticks = interval,
           sample_count = count, pretrigger_count = pretrigger, adc_bits = adc, aux_flags = aux,
           vref_mv = vref, burst_period_ticks = burst, register_pairs = pairs,
           profile_sha256 = [], device_config_crc32 = 0\<rparr>
     in rbind (canonical_profile_bytes unhashed) (\<lambda>canonical.
        Inr (unhashed\<lparr>profile_sha256 := sha256 canonical,
                      device_config_crc32 := crc32_iso_hdlc canonical\<rparr>)))"

definition encode_config_v2 :: "AcquisitionConfigV2 \<Rightarrow> bytes res" where
  "encode_config_v2 c =
     rbind (canonical_profile_bytes c) (\<lambda>canonical.
     if profile_sha256 c \<noteq> sha256 canonical \<or> device_config_crc32 c \<noteq> crc32_iso_hdlc canonical
     then Inl ValueError
     else
       rbind (pack CONFIG_PREFIX
                [PInt (profile_schema_version c), PInt (sample_interval_ticks c),
                 PInt (sample_count c), PInt (pretrigger_count c), PInt (adc_bits c),
                 PInt (aux_flags c), PInt (vref_mv c), PInt (burst_period_ticks c),
                 PInt (int (length (register_pairs c))), PInt 0]) (\<lambda>prefix.
       rbind (py_bytes (flat_pairs (register_pairs c))) (\<lambda>pairs.
       rbind (pack [FI] [PInt (device_config_crc32 c)]) (\<lambda>crc.
       Inr (prefix @ pairs @ profile_sha256 c @ crc)))))"

definition decode_config_v2 :: "bytes \<Rightarrow> AcquisitionConfigV2 res" where
  "decode_config_v2 data =
     (if length data < calcsize CONFIG_PREFIX + 32 + 4 then Inl ValueError
      else
        rbind (unpack_from CONFIG_PREFIX data 0) (\<lambda>vs.
        let register_count = nat (vint (vs ! 8)) in
        if vint (vs ! 9) \<noteq> 0 then Inl ValueError
        else if length data \<noteq> calcsize CONFIG_PREFIX + 2 * register_count + 32 + 4
        then Inl ValueError
        else
          let pair_offset = calcsize CONFIG_PREFIX;
              pairs = map (\<lambda>index. (uint (data ! (pair_offset + index * 2)),
                                    uint (data ! (pair_offset + index * 2 + 1))))
                        [0..<register_count];
              digest_offset = pair_offset + 2 * register_count;
              supplied_hash = take 32 (drop digest_offset data)
          in
          rbind (unpack_from [FI] data (digest_offset + 32)) (\<lambda>us.
          rbind (create (vint (vs ! 1)) (vint (vs ! 2)) (vint (vs ! 3)) (vint (vs ! 4))
                   (vint (vs ! 5)) (vint (vs ! 6)) (vint (vs ! 7)) pairs (vint (vs ! 0)))
            (\<lambda>c. if profile_sha256 c \<noteq> supplied_hash \<or> device_config_crc32 c \<noteq> vint (us ! 0)
                 then Inl ValueError else Inr c))))"

section \<open>Valid values\<close>

text \<open>The condition of \<open>_validate_values\<close>, as a predicate.\<close>

definition reg_ok :: "int \<times> int \<Rightarrow> bool" where
  "reg_ok r \<longleftrightarrow> 0 \<le> fst r \<and> fst r \<le> 0x3F \<and> 0 \<le> snd r \<and> snd r \<le> 0xFF"

definition pairs_ok :: "(int \<times> int) list \<Rightarrow> bool" where
  "pairs_ok ps \<longleftrightarrow> length ps \<le> 10 \<and> sorted_wrt (<) (map fst ps) \<and>
     list_all reg_ok ps"

definition values_ok :: "AcquisitionConfigV2 \<Rightarrow> bool" where
  "values_ok c \<longleftrightarrow> profile_schema_version c = 2 \<and>
     120 \<le> sample_interval_ticks c \<and> sample_interval_ticks c \<le> 960 \<and>
     1 \<le> sample_count c \<and> sample_count c \<le> 2048 \<and>
     0 \<le> pretrigger_count c \<and> pretrigger_count c < sample_count c \<and>
     adc_bits c = 12 \<and> 0 \<le> aux_flags c \<and> aux_flags c \<le> 3 \<and> vref_mv c = 3300 \<and>
     24 \<le> burst_period_ticks c \<and> burst_period_ticks c \<le> 800 \<and> pairs_ok (register_pairs c)"

lemma validate_pairs_iff:
  "validate_pairs p ps = Inr u \<longleftrightarrow> sorted_wrt (<) (p # map fst ps) \<and> list_all reg_ok ps"
proof (induction p ps rule: validate_pairs.induct)
  case (2 p a v ps)
  have "validate_pairs p ((a, v) # ps) = Inr u \<longleftrightarrow> p < a \<and> reg_ok (a, v) \<and> validate_pairs a ps = Inr u"
    by (auto simp: reg_ok_def)
  also have "\<dots> \<longleftrightarrow> p < a \<and> reg_ok (a, v) \<and> sorted_wrt (<) (a # map fst ps) \<and> list_all reg_ok ps"
  proof (cases "p < a \<and> reg_ok (a, v)")
    case True
    then have "\<not> a \<le> p" and "0 \<le> a \<and> a \<le> 0x3F" and "0 \<le> v \<and> v \<le> 0xFF"
      by (simp_all add: reg_ok_def)
    then show ?thesis using 2 by blast
  qed auto
  also have "\<dots> \<longleftrightarrow> sorted_wrt (<) (p # map fst ((a, v) # ps)) \<and> list_all reg_ok ((a, v) # ps)"
    by (auto intro: less_trans)
  finally show ?case .
qed simp

lemma validate_pairs_error: "validate_pairs p ps = Inl e \<Longrightarrow> e = ValueError"
  by (induction p ps rule: validate_pairs.induct) (auto split: if_splits)

lemma aux_mask_iff: "(x :: int) AND - 4 = 0 \<longleftrightarrow> 0 \<le> x \<and> x \<le> 3"
  using int_and_not_mask_iff [of x 2] by (simp add: mask_eq_exp_minus_1) linarith

definition validate_config :: "AcquisitionConfigV2 \<Rightarrow> unit res" where
  "validate_config c = validate_values (profile_schema_version c) (sample_interval_ticks c)
     (sample_count c) (pretrigger_count c) (adc_bits c) (aux_flags c) (vref_mv c)
     (burst_period_ticks c) (register_pairs c)"

lemma validate_pairs_eq:
  "validate_pairs (-1) ps =
     (if sorted_wrt (<) (map fst ps) \<and> list_all reg_ok ps then Inr () else Inl ValueError)"
proof -
  have "sorted_wrt (<) (-1 # map fst ps) \<longleftrightarrow> sorted_wrt (<) (map fst ps)" if "list_all reg_ok ps"
    using that by (force simp: list_all_iff reg_ok_def)
  then have "validate_pairs (-1) ps = Inr () \<longleftrightarrow>
      sorted_wrt (<) (map fst ps) \<and> list_all reg_ok ps"
    unfolding validate_pairs_iff by blast
  then show ?thesis
    using validate_pairs_error [of "-1" ps] by (cases "validate_pairs (-1) ps") auto
qed

lemma validate_config_eq: "validate_config c = (if values_ok c then Inr () else Inl ValueError)"
  by (simp add: validate_config_def validate_values_def values_ok_def pairs_ok_def
      PROFILE_SCHEMA_VERSION_def aux_mask_iff validate_pairs_eq)

section \<open>Canonical bytes\<close>

definition pair_bytes :: "(int \<times> int) list \<Rightarrow> bytes" where
  "pair_bytes ps = concat (map (\<lambda>(a, v). [word_of_int a, word_of_int v]) ps)"

lemma length_pair_bytes [simp]: "length (pair_bytes ps) = 2 * length ps"
  by (induction ps) (auto simp: pair_bytes_def)

lemma pair_bytes_Cons: "pair_bytes ((a, v) # ps) = word_of_int a # word_of_int v # pair_bytes ps"
  by (simp add: pair_bytes_def)

lemma py_bytes_pairs: "pairs_ok ps \<Longrightarrow> py_bytes (flat_pairs ps) = Inr (pair_bytes ps)"
proof -
  have "list_all (\<lambda>x. 0 \<le> x \<and> x \<le> 255) (flat_pairs ps) \<and>
      map word_of_int (flat_pairs ps) = pair_bytes ps"
    if "list_all reg_ok ps"
    using that by (induction ps) (auto simp: flat_pairs_def pair_bytes_def reg_ok_def)
  then show "pairs_ok ps \<Longrightarrow> ?thesis" by (simp add: py_bytes_def pairs_ok_def)
qed

text \<open>The pairs read back from the bytes at an offset, as \<open>decode_config_v2\<close> indexes them.\<close>

definition read_pairs :: "bytes \<Rightarrow> nat \<Rightarrow> (int \<times> int) list" where
  "read_pairs bs n = map (\<lambda>i. (uint (bs ! (2 * i)), uint (bs ! (2 * i + 1)))) [0..<n]"

lemma read_pairs_Suc:
  "read_pairs (x # y # bs) (Suc n) = (uint x, uint y) # read_pairs bs n"
  by (simp add: read_pairs_def upt_conv_Cons map_Suc_upt [symmetric] comp_def del: upt_Suc)

lemma read_pair_bytes:
  "list_all reg_ok ps \<Longrightarrow>
   read_pairs (pair_bytes ps @ r) (length ps) = ps"
  by (induction ps)
    (auto simp: pair_bytes_Cons read_pairs_Suc uint_word_of_int_byte reg_ok_def, simp add: read_pairs_def)

lemma pair_bytes_read: "length bs = 2 * n \<Longrightarrow> pair_bytes (read_pairs (bs @ r) n) = bs"
proof (induction n arbitrary: bs)
  case (Suc n)
  then obtain x y bs' where bs: "bs = x # y # bs'" and l: "length bs' = 2 * n"
    by (auto simp: length_Suc_conv)
  then show ?case
    using Suc.IH [OF l] by (simp add: read_pairs_Suc pair_bytes_Cons)
qed (simp add: read_pairs_def pair_bytes_def)

text \<open>The two field tuples of a configuration.\<close>

definition canonical_fields :: "AcquisitionConfigV2 \<Rightarrow> pyval list" where
  "canonical_fields c = [PInt (profile_schema_version c), PInt (sample_interval_ticks c),
     PInt (sample_count c), PInt (pretrigger_count c), PInt (adc_bits c),
     PInt (vref_mv c), PInt (aux_flags c), PInt (burst_period_ticks c),
     PInt (int (length (register_pairs c)))]"

definition prefix_fields :: "AcquisitionConfigV2 \<Rightarrow> pyval list" where
  "prefix_fields c = [PInt (profile_schema_version c), PInt (sample_interval_ticks c),
     PInt (sample_count c), PInt (pretrigger_count c), PInt (adc_bits c), PInt (aux_flags c),
     PInt (vref_mv c), PInt (burst_period_ticks c), PInt (int (length (register_pairs c))), PInt 0]"

lemma values_ok_fits:
  assumes "values_ok c"
  shows "fits CANONICAL_PREFIX (canonical_fields c)" "fits CONFIG_PREFIX (prefix_fields c)"
  using assms
  by (auto simp: values_ok_def pairs_ok_def CANONICAL_PREFIX_def CONFIG_PREFIX_def canonical_fields_def
      prefix_fields_def frange_def)

definition packed :: "fmt list \<Rightarrow> pyval list \<Rightarrow> bytes" where
  "packed fs vs = (case pack fs vs of Inr b \<Rightarrow> b | Inl e \<Rightarrow> [])"

lemma packed_fits: "fits fs vs \<Longrightarrow> pack fs vs = Inr (packed fs vs)"
  using fits_packs by (force simp: packed_def)

lemma length_packed: "fits fs vs \<Longrightarrow> length (packed fs vs) = calcsize fs"
  by (rule pack_length [OF packed_fits])

definition canonical_of :: "AcquisitionConfigV2 \<Rightarrow> bytes" where
  "canonical_of c = packed CANONICAL_PREFIX (canonical_fields c) @ pair_bytes (register_pairs c)"

lemma canonical_profile_bytes_eq:
  "canonical_profile_bytes c = (if values_ok c then Inr (canonical_of c) else Inl ValueError)"
proof (cases "values_ok c")
  case True
  then have "pairs_ok (register_pairs c)" by (simp add: values_ok_def)
  then show ?thesis
    using True packed_fits [OF values_ok_fits(1) [OF True]]
    by (simp add: canonical_profile_bytes_def validate_config_def [symmetric] validate_config_eq
        py_bytes_pairs canonical_of_def canonical_fields_def)
next
  case False
  then show ?thesis
    by (simp add: canonical_profile_bytes_def validate_config_def [symmetric] validate_config_eq)
qed

lemma canonical_of_digest [simp]:
  "canonical_of (c\<lparr>profile_sha256 := h\<rparr>) = canonical_of c"
  "canonical_of (c\<lparr>device_config_crc32 := r\<rparr>) = canonical_of c"
  "values_ok (c\<lparr>profile_sha256 := h\<rparr>) = values_ok c"
  "values_ok (c\<lparr>device_config_crc32 := r\<rparr>) = values_ok c"
  by (simp_all add: canonical_of_def canonical_fields_def values_ok_def)

text \<open>A configuration whose values are valid and whose digests are those of its values.\<close>

definition config_ok :: "AcquisitionConfigV2 \<Rightarrow> bool" where
  "config_ok c \<longleftrightarrow> values_ok c \<and> profile_sha256 c = sha256 (canonical_of c) \<and>
     device_config_crc32 c = crc32_iso_hdlc (canonical_of c)"

definition unhashed_of ::
  "int \<Rightarrow> int \<Rightarrow> int \<Rightarrow> int \<Rightarrow> int \<Rightarrow> int \<Rightarrow> int \<Rightarrow> (int \<times> int) list \<Rightarrow> int \<Rightarrow> AcquisitionConfigV2" where
  "unhashed_of interval count pretrigger adc aux vref burst pairs schema =
     \<lparr>profile_schema_version = schema, sample_interval_ticks = interval,
      sample_count = count, pretrigger_count = pretrigger, adc_bits = adc, aux_flags = aux,
      vref_mv = vref, burst_period_ticks = burst, register_pairs = pairs,
      profile_sha256 = [], device_config_crc32 = 0\<rparr>"

definition with_digests :: "AcquisitionConfigV2 \<Rightarrow> AcquisitionConfigV2" where
  "with_digests c = c\<lparr>profile_sha256 := sha256 (canonical_of c),
     device_config_crc32 := crc32_iso_hdlc (canonical_of c)\<rparr>"

lemma create_eq:
  "create interval count pretrigger adc aux vref burst pairs schema =
     (let u = unhashed_of interval count pretrigger adc aux vref burst pairs schema in
      if values_ok u then Inr (with_digests u) else Inl ValueError)"
  using validate_config_eq [of "unhashed_of interval count pretrigger adc aux vref burst pairs schema"]
  by (simp add: create_def Let_def unhashed_of_def [symmetric] canonical_profile_bytes_eq
      with_digests_def validate_config_def)
    (simp add: unhashed_of_def)

lemma config_ok_with_digests: "values_ok c \<Longrightarrow> config_ok (with_digests c)"
  by (simp add: config_ok_def with_digests_def)

lemma config_ok_iff_with_digests: "config_ok c \<longleftrightarrow> values_ok c \<and> with_digests c = c"
  by (cases c) (auto simp: config_ok_def with_digests_def canonical_of_def canonical_fields_def)

section \<open>The wire form\<close>

definition config_bytes :: "AcquisitionConfigV2 \<Rightarrow> bytes" where
  "config_bytes c = packed CONFIG_PREFIX (prefix_fields c) @ pair_bytes (register_pairs c) @
     profile_sha256 c @ le_bytes 4 (device_config_crc32 c)"

lemma encode_config_v2_eq:
  "encode_config_v2 c = (if config_ok c then Inr (config_bytes c) else Inl ValueError)"
proof (cases "values_ok c")
  case True
  then have "pairs_ok (register_pairs c)" by (simp add: values_ok_def)
  moreover have "pack [FI] [PInt (crc32_iso_hdlc x)] = Inr (le_bytes 4 (crc32_iso_hdlc x))" for x
    by (simp add: codec_simps)
  ultimately show ?thesis
    using True packed_fits [OF values_ok_fits(2) [OF True]]
    by (simp add: encode_config_v2_def canonical_profile_bytes_eq py_bytes_pairs config_bytes_def
        prefix_fields_def config_ok_def)
next
  case False
  then show ?thesis by (simp add: encode_config_v2_def canonical_profile_bytes_eq config_ok_def)
qed

lemma calcsize_CONFIG_PREFIX [simp]: "calcsize CONFIG_PREFIX = 16"
  by (simp add: CONFIG_PREFIX_def)

lemma length_config_bytes:
  "config_ok c \<Longrightarrow> length (config_bytes c) = 52 + 2 * length (register_pairs c)"
  using length_packed [OF values_ok_fits(2), of c] by (simp add: config_ok_def config_bytes_def)

lemma read_pairs_drop:
  "map (\<lambda>i. (uint (data ! (k + i * 2)), uint (data ! (k + i * 2 + 1)))) [0..<n] =
     read_pairs (drop k data) n" if "k + 2 * n \<le> length data"
  using that by (auto simp: read_pairs_def mult.commute)

lemma decode_config_bytes:
  assumes ok: "config_ok c"
  shows "decode_config_v2 (config_bytes c) = Inr c"
proof -
  let ?d = "config_bytes c" and ?n = "length (register_pairs c)"
  let ?p = "packed CONFIG_PREFIX (prefix_fields c)"
  have v: "values_ok c" using ok by (simp add: config_ok_def)
  note f = values_ok_fits(2) [OF v]
  have lp: "length ?p = 16" using length_packed [OF f] by simp
  have ex: "exact CONFIG_PREFIX (prefix_fields c)" using f by (simp add: fits_iff)
  have u: "unpack_from CONFIG_PREFIX ?d 0 = Inr (prefix_fields c)"
    using unpack_from_pack [OF packed_fits [OF f] ex, of "[]" 0] by (simp add: config_bytes_def)
  have crc: "unpack_from [FI] ?d (48 + 2 * ?n) = Inr [PInt (device_config_crc32 c)]"
    using unpack_from_pack [of "[FI]" "[PInt (device_config_crc32 c)]" "le_bytes 4 (device_config_crc32 c)"
        "?p @ pair_bytes (register_pairs c) @ profile_sha256 c" "48 + 2 * ?n" "[]"] ok lp
    by (simp add: config_bytes_def codec_simps config_ok_def)
  have pairs: "read_pairs (drop 16 ?d) ?n = register_pairs c"
    using v lp by (simp add: config_bytes_def values_ok_def pairs_ok_def read_pair_bytes)
  have hash: "take 32 (drop (16 + 2 * ?n) ?d) = profile_sha256 c"
    using ok lp by (simp add: config_bytes_def config_ok_def)
  have rp: "map (\<lambda>i. (uint (?d ! (16 + i * 2)), uint (?d ! (16 + i * 2 + 1)))) [0..<?n]
      = register_pairs c"
    using read_pairs_drop [of 16 ?n ?d] pairs length_config_bytes [OF ok] by simp
  have c: "with_digests (unhashed_of (sample_interval_ticks c) (sample_count c) (pretrigger_count c)
      (adc_bits c) (aux_flags c) (vref_mv c) (burst_period_ticks c) (register_pairs c)
      (profile_schema_version c)) = c"
    using ok by (cases c) (simp add: config_ok_iff_with_digests with_digests_def unhashed_of_def
        canonical_of_def canonical_fields_def)
  have vu: "values_ok (unhashed_of (sample_interval_ticks c) (sample_count c) (pretrigger_count c)
      (adc_bits c) (aux_flags c) (vref_mv c) (burst_period_ticks c) (register_pairs c)
      (profile_schema_version c))"
    using v by (simp add: values_ok_def unhashed_of_def)
  have l: "length ?d = 52 + 2 * ?n" by (rule length_config_bytes [OF ok])
  have nth: "vint (prefix_fields c ! 8) = int ?n" "vint (prefix_fields c ! 9) = 0"
    by (simp_all add: prefix_fields_def)
  have create: "create (sample_interval_ticks c) (sample_count c) (pretrigger_count c)
      (adc_bits c) (aux_flags c) (vref_mv c) (burst_period_ticks c) (register_pairs c)
      (profile_schema_version c) = Inr c"
    by (simp add: create_eq c vu)
  show ?thesis
    using u crc rp hash l nth create
    by (simp add: decode_config_v2_def Let_def) (simp add: prefix_fields_def)
qed

lemma decode_config_okD:
  assumes "decode_config_v2 data = Inr c"
  shows "config_ok c" and "data = config_bytes c"
proof -
  from assms obtain vs us where u: "unpack_from CONFIG_PREFIX data 0 = Inr vs"
    and r: "vint (vs ! 9) = 0" and l: "length data = 52 + 2 * nat (vint (vs ! 8))"
    and us: "unpack_from [FI] data (16 + 2 * nat (vint (vs ! 8)) + 32) = Inr us"
    and cr: "create (vint (vs ! 1)) (vint (vs ! 2)) (vint (vs ! 3)) (vint (vs ! 4))
       (vint (vs ! 5)) (vint (vs ! 6)) (vint (vs ! 7))
       (map (\<lambda>index. (uint (data ! (16 + index * 2)), uint (data ! (16 + index * 2 + 1))))
          [0..<nat (vint (vs ! 8))]) (vint (vs ! 0)) = Inr c"
    and sha: "profile_sha256 c = take 32 (drop (16 + 2 * nat (vint (vs ! 8))) data)"
    and crc: "device_config_crc32 c = vint (us ! 0)"
    by (auto simp: decode_config_v2_def Let_def)
  let ?n = "nat (vint (vs ! 8))"
  have pairs: "map (\<lambda>index. (uint (data ! (16 + index * 2)), uint (data ! (16 + index * 2 + 1))))
          [0..<?n] = read_pairs (drop 16 data) ?n"
    using l by (intro read_pairs_drop) simp
  let ?u = "unhashed_of (vint (vs ! 1)) (vint (vs ! 2)) (vint (vs ! 3)) (vint (vs ! 4))
       (vint (vs ! 5)) (vint (vs ! 6)) (vint (vs ! 7)) (read_pairs (drop 16 data) ?n) (vint (vs ! 0))"
  have v: "values_ok ?u" and c: "c = with_digests ?u"
    using cr unfolding pairs by (auto simp: create_eq Let_def split: if_splits)
  show "config_ok c" unfolding c by (rule config_ok_with_digests [OF v])
  have n: "int ?n = vint (vs ! 8)" and f: "prefix_fields c = vs"
  proof -
    have "fits CONFIG_PREFIX vs" using u by (rule fits_unpack_from)
    then show "int ?n = vint (vs ! 8)" and "prefix_fields c = vs"
      using r unfolding c
      by (auto simp: CONFIG_PREFIX_def prefix_fields_def with_digests_def unhashed_of_def read_pairs_def
          frange_def numeral_eq_Suc)
  qed
  have go: "vs = unpack_go CONFIG_PREFIX data" using u by (simp add: unpack_from_def split: if_splits)
  have "pads_zero CONFIG_PREFIX data" by (simp add: CONFIG_PREFIX_def)
  then have pre: "packed CONFIG_PREFIX (prefix_fields c) = take 16 data"
    using pack_unpack_go [of CONFIG_PREFIX data] l by (simp add: f packed_def go)
  have rp: "register_pairs c = read_pairs (take (2 * ?n) (drop 16 data) @ drop (2 * ?n) (drop 16 data)) ?n"
    unfolding c append_take_drop_id by (simp add: with_digests_def unhashed_of_def)
  have pb: "pair_bytes (register_pairs c) = take (2 * ?n) (drop 16 data)"
    unfolding rp by (rule pair_bytes_read) (simp add: l)
  have tail: "le_bytes 4 (device_config_crc32 c) = drop (48 + 2 * ?n) data"
    using us l unfolding crc by (auto simp: unpack_from_def)
  have "data = take 16 data @ take (2 * ?n) (drop 16 data) @
      take 32 (drop (16 + 2 * ?n) data) @ drop (48 + 2 * ?n) data"
  proof -
    have "data = take 16 data @ drop 16 data" by simp
    also have "drop 16 data = take (2 * ?n) (drop 16 data) @ drop (16 + 2 * ?n) data"
      by (metis add.commute append_take_drop_id drop_drop)
    also have "drop (16 + 2 * ?n) data = take 32 (drop (16 + 2 * ?n) data) @ drop (48 + 2 * ?n) data"
      using append_take_drop_id [of 32 "drop (16 + 2 * ?n) data", symmetric] by (simp add: add.commute)
    finally show ?thesis .
  qed
  then show "data = config_bytes c"
    by (simp add: config_bytes_def pre pb sha tail)
qed

interpretation config_codec: canonical_codec encode_config_v2 decode_config_v2
proof unfold_locales
  show "decode_config_v2 bs = Inr c" if "encode_config_v2 c = Inr bs" for c bs
    using that decode_config_bytes by (auto simp: encode_config_v2_eq split: if_splits)
  show "encode_config_v2 c = Inr bs" if "decode_config_v2 bs = Inr c" for c bs
    using decode_config_okD [OF that] by (simp add: encode_config_v2_eq)
qed

section \<open>Properties\<close>

lemma canonical_of_inj:
  assumes ok: "values_ok c" "values_ok d" and eq: "canonical_of c = canonical_of d"
  shows "canonical_fields c = canonical_fields d" and "register_pairs c = register_pairs d"
proof -
  have go: "unpack_go CANONICAL_PREFIX (canonical_of x) = canonical_fields x" if "values_ok x" for x
    using unpack_go_pack [OF packed_fits [OF values_ok_fits(1) [OF that]]] values_ok_fits(1) [OF that]
    by (simp add: canonical_of_def fits_iff)
  show f: "canonical_fields c = canonical_fields d"
    using go [OF ok(1)] go [OF ok(2)] eq by simp
  then have "pair_bytes (register_pairs c) = pair_bytes (register_pairs d)"
    using eq by (simp add: canonical_of_def)
  moreover have "length (register_pairs c) = length (register_pairs d)"
    using f by (simp add: canonical_fields_def)
  moreover have "read_pairs (pair_bytes (register_pairs x)) (length (register_pairs x)) =
      register_pairs x" if "values_ok x" for x
    using read_pair_bytes [of "register_pairs x" "[]"] that by (simp add: values_ok_def pairs_ok_def)
  ultimately show "register_pairs c = register_pairs d"
    using ok by metis
qed

text \<open>A byte string decodes to a configuration exactly when it is the encoding of that
  configuration; so there is one wire form per configuration, and every decoded configuration has
  valid values and digests that match its canonical bytes.\<close>

theorem config_wire_form:
  "decode_config_v2 bs = Inr c \<longleftrightarrow> encode_config_v2 c = Inr bs"
  by (rule config_codec.dec_iff)

text \<open>\<open>create\<close> is the way to obtain an encodable configuration: it returns \<open>c\<close> exactly when
  \<open>c\<close> can be encoded and carries the given values, and it fails (with \<open>ValueError\<close>) exactly when a
  value is outside its documented range or the register addresses are not strictly increasing.\<close>

theorem create_iff_encodable:
  "(create i n pre adc aux vref burst ps schema = Inr c \<longleftrightarrow>
      is_ok (encode_config_v2 c) \<and> sample_interval_ticks c = i \<and> sample_count c = n \<and>
      pretrigger_count c = pre \<and> adc_bits c = adc \<and> aux_flags c = aux \<and> vref_mv c = vref \<and>
      burst_period_ticks c = burst \<and> register_pairs c = ps \<and> profile_schema_version c = schema) \<and>
   (create i n pre adc aux vref burst ps schema = Inl e \<longleftrightarrow>
      e = ValueError \<and> \<not> (schema = 2 \<and> i \<in> {120..960} \<and> n \<in> {1..2048} \<and> pre \<in> {0..<n} \<and>
        adc = 12 \<and> aux \<in> {0..3} \<and> vref = 3300 \<and> burst \<in> {24..800} \<and> length ps \<le> 10 \<and>
        sorted_wrt (<) (map fst ps) \<and>
        list_all (\<lambda>(a, v). a \<in> {0..0x3F} \<and> v \<in> {0..0xFF}) ps))"
    (is "?good \<and> ?bad")
proof
  let ?u = "unhashed_of i n pre adc aux vref burst ps schema"
  show ?good
    by (cases c) (auto simp: create_eq Let_def encode_config_v2_eq config_ok_def with_digests_def
        unhashed_of_def values_ok_def canonical_of_def canonical_fields_def)
  have "values_ok ?u \<longleftrightarrow> schema = 2 \<and> i \<in> {120..960} \<and> n \<in> {1..2048} \<and> pre \<in> {0..<n} \<and>
        adc = 12 \<and> aux \<in> {0..3} \<and> vref = 3300 \<and> burst \<in> {24..800} \<and> length ps \<le> 10 \<and>
        sorted_wrt (<) (map fst ps) \<and> list_all (\<lambda>(a, v). a \<in> {0..0x3F} \<and> v \<in> {0..0xFF}) ps"
    by (auto simp: values_ok_def unhashed_of_def pairs_ok_def list_all_iff reg_ok_def)
  then show ?bad by (auto simp: create_eq Let_def)
qed

text \<open>The bytes that the SHA-256 identity and the CRC are taken over determine the
  configuration: among encodable configurations \<open>canonical_profile_bytes\<close> is injective, so equal
  digests of different configurations would be a collision of SHA-256 itself.\<close>

theorem canonical_bytes_identify_config:
  "inj_on canonical_profile_bytes {c. is_ok (encode_config_v2 c)}"
proof (rule inj_onI)
  fix c d
  assume "c \<in> {c. is_ok (encode_config_v2 c)}" and "d \<in> {c. is_ok (encode_config_v2 c)}"
    and "canonical_profile_bytes c = canonical_profile_bytes d"
  then have ok: "config_ok c" "config_ok d" and "canonical_of c = canonical_of d"
    by (auto simp: canonical_profile_bytes_eq encode_config_v2_eq config_ok_def split: if_splits)
  then have "values_ok c" "values_ok d" and can: "canonical_of c = canonical_of d"
    and dig: "profile_sha256 c = profile_sha256 d" "device_config_crc32 c = device_config_crc32 d"
    by (auto simp: config_ok_def)
  note inj = canonical_of_inj [OF this(1-3)]
  show "c = d"
    using inj(1) [unfolded canonical_fields_def] inj(2) dig
    by (intro AcquisitionConfigV2.equality) auto
qed

end
