(* ===== verification/Capture_Data.thy ===== *)
theory Capture_Data
  imports Message_Codec Config_V2 Message_Lengths
begin

text \<open>
  \<open>capture_data.py\<close>: the CAPTURE\_DATA payload, a fixed header of 188 bytes followed by register
  pairs, events and raw samples. The nested \<open>take\<close> of the decoder, which advances a shared
  offset, is \<open>take_at\<close> with the offset passed along. The codec is canonical; samples and events
  come back exactly as they were supplied.
\<close>

section \<open>Data\<close>

definition PAYLOAD_SCHEMA_VERSION :: int where "PAYLOAD_SCHEMA_VERSION = 1"
definition FIXED_HEADER_LENGTH :: int where "FIXED_HEADER_LENGTH = 188"
definition SAMPLE_ENCODING_UINT16_LE :: int where "SAMPLE_ENCODING_UINT16_LE = 1"
definition TIMING_UNCALIBRATED :: int where "TIMING_UNCALIBRATED = 0x20"

lemmas capture_consts = PAYLOAD_SCHEMA_VERSION_def FIXED_HEADER_LENGTH_def
  SAMPLE_ENCODING_UINT16_LE_def

definition EVENT_layout :: "fmt list" where
  "EVENT_layout = [FB, FB, FB, FB, Fi, FH, FH, FI]"

record CaptureEvent =
  ev_channel :: int
  ev_edge :: int
  ev_capture_method :: int
  ev_level_after :: int
  ev_sample_index :: int
  ev_subsample_tick :: int
  ev_uncertainty_ticks :: int
  ev_frame_offset_ticks :: int

record CaptureData =
  cd_request_id :: bytes
  cd_schedule_id :: bytes
  cd_capture_id :: bytes
  cd_boot_id :: bytes
  cd_device_id :: bytes
  cd_profile_sha256 :: bytes
  cd_device_config_crc32 :: int
  cd_capture_sequence :: int
  cd_sample_interval_ticks :: int
  cd_burst_period_ticks :: int
  cd_sample_count :: int
  cd_pretrigger_count :: int
  cd_adc_bits :: int
  cd_sample_encoding :: int
  cd_vref_mv :: int
  cd_smclk_nominal_hz :: int
  cd_smclk_calibrated_hz :: int
  cd_frame_start_tick48 :: int
  cd_t_trigger_offset_ticks :: int
  cd_adc0_hold_offset_ticks :: int
  cd_adc_aperture_ns :: int
  cd_trigger_to_tx_output_ns :: int
  cd_calibration_version :: int
  cd_quality_flags :: int
  cd_tuss_dev_stat :: int
  cd_out3_start_level :: int
  cd_out4_start_level :: int
  cd_register_pairs :: "(int \<times> int) list"
  cd_events :: "CaptureEvent list"
  cd_samples :: "int list"

section \<open>Validation\<close>

fun validate_capture_pairs :: "int \<Rightarrow> (int \<times> int) list \<Rightarrow> unit res" where
  "validate_capture_pairs previous_address [] = Inr ()"
| "validate_capture_pairs previous_address ((address, val) # ps) =
     (if address \<le> previous_address \<or> \<not> (0 \<le> address \<and> address \<le> 0x3F) \<or> \<not> (0 \<le> val \<and> val \<le> 0xFF)
      then Inl ValueError
      else validate_capture_pairs address ps)"

fun validate_events :: "int \<Rightarrow> CaptureEvent list \<Rightarrow> unit res" where
  "validate_events interval [] = Inr ()"
| "validate_events interval (e # es) =
     (if ev_channel e \<notin> {3, 4} \<or> ev_edge e \<notin> {1, 2} then Inl ValueError
      else if ev_capture_method e \<notin> {1, 2} \<or> ev_level_after e \<notin> {0, 1} then Inl ValueError
      else if \<not> (0 \<le> ev_subsample_tick e \<and> ev_subsample_tick e < interval) then Inl ValueError
      else validate_events interval es)"

definition validate_capture :: "CaptureData \<Rightarrow> unit res" where
  "validate_capture c =
     rbind (fixed_bytes (cd_request_id c) 16) (\<lambda>_.
     rbind (fixed_bytes (cd_schedule_id c) 16) (\<lambda>_.
     rbind (fixed_bytes (cd_capture_id c) 16) (\<lambda>_.
     rbind (fixed_bytes (cd_boot_id c) 16) (\<lambda>_.
     rbind (fixed_bytes (cd_device_id c) 16) (\<lambda>_.
     rbind (fixed_bytes (cd_profile_sha256 c) 32) (\<lambda>_.
     if cd_sample_count c \<noteq> int (length (cd_samples c)) then Inl ValueError
     else if \<not> (0 \<le> cd_pretrigger_count c \<and> cd_pretrigger_count c < cd_sample_count c) then Inl ValueError
     else if cd_adc_bits c \<noteq> 12 then Inl ValueError
     else if cd_sample_encoding c \<noteq> SAMPLE_ENCODING_UINT16_LE then Inl ValueError
     else if drop_bit 48 (cd_frame_start_tick48 c) \<noteq> 0 then Inl ValueError
     else if length (cd_register_pairs c) > 10 \<or> length (cd_events c) > 17 then Inl ValueError
     else
       rbind (validate_capture_pairs (-1) (cd_register_pairs c)) (\<lambda>_.
       if list_ex (\<lambda>s. \<not> (0 \<le> s \<and> s \<le> 0xFFFF)) (cd_samples c) then Inl ValueError
       else validate_events (cd_sample_interval_ticks c) (cd_events c))))))))"

section \<open>Encoder\<close>

definition event_tuple :: "CaptureEvent \<Rightarrow> pyval list" where
  "event_tuple e =
     [PInt (ev_channel e), PInt (ev_edge e), PInt (ev_capture_method e), PInt (ev_level_after e),
      PInt (ev_sample_index e), PInt (ev_subsample_tick e), PInt (ev_uncertainty_ticks e),
      PInt (ev_frame_offset_ticks e)]"

definition event_of :: "pyval list \<Rightarrow> CaptureEvent" where
  "event_of vs =
     \<lparr>ev_channel = vint (vs ! 0), ev_edge = vint (vs ! 1), ev_capture_method = vint (vs ! 2),
      ev_level_after = vint (vs ! 3), ev_sample_index = vint (vs ! 4),
      ev_subsample_tick = vint (vs ! 5), ev_uncertainty_ticks = vint (vs ! 6),
      ev_frame_offset_ticks = vint (vs ! 7)\<rparr>"

fun pack_events :: "CaptureEvent list \<Rightarrow> bytes res" where
  "pack_events [] = Inr []"
| "pack_events (e # es) =
     rbind (pack EVENT_layout (event_tuple e)) (\<lambda>b. rbind (pack_events es) (\<lambda>r. Inr (b @ r)))"

definition encode_capture_data :: "CaptureData \<Rightarrow> bytes res" where
  "encode_capture_data c =
     rbind (validate_capture c) (\<lambda>_.
     rbind (pack [FH, FH] [PInt PAYLOAD_SCHEMA_VERSION, PInt FIXED_HEADER_LENGTH]) (\<lambda>d0.
     let ids = cd_request_id c @ cd_schedule_id c @ cd_capture_id c @ cd_boot_id c @ cd_device_id c @
               cd_profile_sha256 c in
     rbind (pack [FI, FI] [PInt (cd_device_config_crc32 c), PInt (cd_capture_sequence c)]) (\<lambda>d1.
     rbind (pack [FH, FH] [PInt (cd_sample_interval_ticks c), PInt (cd_burst_period_ticks c)]) (\<lambda>d2.
     rbind (pack [FH, FH] [PInt (cd_sample_count c), PInt (cd_pretrigger_count c)]) (\<lambda>d3.
     rbind (pack [FB, FB, FH]
              [PInt (cd_adc_bits c), PInt (cd_sample_encoding c), PInt (cd_vref_mv c)]) (\<lambda>d4.
     rbind (pack [FI, FI] [PInt (cd_smclk_nominal_hz c), PInt (cd_smclk_calibrated_hz c)]) (\<lambda>d5.
     rbind (pack [FQ] [PInt (cd_frame_start_tick48 c)]) (\<lambda>d6.
     rbind (pack [FI, Fi]
              [PInt (cd_t_trigger_offset_ticks c), PInt (cd_adc0_hold_offset_ticks c)]) (\<lambda>d7.
     rbind (pack [FI, FI, FI, FI]
              [PInt (cd_adc_aperture_ns c), PInt (cd_trigger_to_tx_output_ns c),
               PInt (cd_calibration_version c), PInt (cd_quality_flags c)]) (\<lambda>d8.
     rbind (pack [FB, FB, FB, FB, FB, Fx 3]
              [PInt (cd_tuss_dev_stat c), PInt (cd_out3_start_level c), PInt (cd_out4_start_level c),
               PInt (int (length (cd_events c))), PInt (int (length (cd_register_pairs c)))]) (\<lambda>d9.
     rbind (pack [FI] [PInt (int (length (cd_samples c)) * 2)]) (\<lambda>d10.
     let header = d0 @ ids @ d1 @ d2 @ d3 @ d4 @ d5 @ d6 @ d7 @ d8 @ d9 @ d10 in
     if int (length header) \<noteq> FIXED_HEADER_LENGTH then Inl AssertionError
     else
       rbind (py_bytes (flat_pairs (cd_register_pairs c))) (\<lambda>pairs.
       rbind (pack_events (cd_events c)) (\<lambda>events.
       rbind (if cd_samples c \<noteq> []
              then pack (replicate (length (cd_samples c)) FH) (map PInt (cd_samples c))
              else Inr []) (\<lambda>samples.
       Inr (header @ pairs @ events @ samples))))))))))))))))"

section \<open>Decoder\<close>

definition take_at :: "bytes \<Rightarrow> nat \<Rightarrow> nat \<Rightarrow> (bytes \<times> nat) res" where
  "take_at data offset n =
     (let v = take n (drop offset data) in
      if length v \<noteq> n then Inl ValueError else Inr (v, offset + n))"

text \<open>\<open>struct.unpack(format, take(size))\<close>\<close>

definition unpack_at :: "fmt list \<Rightarrow> bytes \<Rightarrow> nat \<Rightarrow> nat \<Rightarrow> (pyval list \<times> nat) res" where
  "unpack_at fs data offset n =
     rbind (take_at data offset n) (\<lambda>(v, offset'). rbind (unpack fs v) (\<lambda>vs. Inr (vs, offset')))"

fun take_pairs :: "bytes \<Rightarrow> nat \<Rightarrow> nat \<Rightarrow> ((int \<times> int) list \<times> nat) res" where
  "take_pairs data offset 0 = Inr ([], offset)"
| "take_pairs data offset (Suc n) =
     rbind (take_at data offset 1) (\<lambda>(a, offset1).
     rbind (take_at data offset1 1) (\<lambda>(v, offset2).
     rbind (take_pairs data offset2 n) (\<lambda>(ps, offset3).
     Inr ((uint (a ! 0), uint (v ! 0)) # ps, offset3))))"

fun take_events :: "bytes \<Rightarrow> nat \<Rightarrow> nat \<Rightarrow> (CaptureEvent list \<times> nat) res" where
  "take_events data offset 0 = Inr ([], offset)"
| "take_events data offset (Suc n) =
     rbind (unpack_at EVENT_layout data offset 16) (\<lambda>(vs, offset1).
     rbind (take_events data offset1 n) (\<lambda>(es, offset2).
     Inr (event_of vs # es, offset2)))"

definition decode_capture_data :: "bytes \<Rightarrow> CaptureData res" where
  "decode_capture_data data =
     (if int (length data) < FIXED_HEADER_LENGTH then Inl ValueError
      else
        rbind (unpack_from [FH, FH] data 0) (\<lambda>v.
        if vint (v ! 0) \<noteq> PAYLOAD_SCHEMA_VERSION \<or> vint (v ! 1) \<noteq> FIXED_HEADER_LENGTH
        then Inl ValueError
        else
          rbind (take_at data 4 16) (\<lambda>(id0, offset).
          rbind (take_at data offset 16) (\<lambda>(id1, offset).
          rbind (take_at data offset 16) (\<lambda>(id2, offset).
          rbind (take_at data offset 16) (\<lambda>(id3, offset).
          rbind (take_at data offset 16) (\<lambda>(id4, offset).
          rbind (take_at data offset 32) (\<lambda>(profile_hash, offset).
          rbind (unpack_at [FI, FI] data offset 8) (\<lambda>(v1, offset).
          rbind (unpack_at [FH, FH] data offset 4) (\<lambda>(v2, offset).
          rbind (unpack_at [FH, FH] data offset 4) (\<lambda>(v3, offset).
          rbind (unpack_at [FB, FB, FH] data offset 4) (\<lambda>(v4, offset).
          rbind (unpack_at [FI, FI] data offset 8) (\<lambda>(v5, offset).
          rbind (unpack_at [FQ] data offset 8) (\<lambda>(v6, offset).
          rbind (unpack_at [FI, Fi] data offset 8) (\<lambda>(v7, offset).
          rbind (unpack_at [FI, FI, FI, FI] data offset 16) (\<lambda>(v8, offset).
          rbind (unpack_at [FB, FB, FB, FB, FB, Fs 3] data offset 8) (\<lambda>(v9, offset).
          if vbytes (v9 ! 5) \<noteq> replicate 3 0 then Inl ValueError
          else
            rbind (unpack_at [FI] data offset 4) (\<lambda>(v10, offset).
            let sample_bytes = vint (v10 ! 0); sample_count = vint (v3 ! 0);
                event_count = vint (v9 ! 3); register_count = vint (v9 ! 4) in
            if int offset \<noteq> FIXED_HEADER_LENGTH then Inl AssertionError
            else if int (length data) \<noteq>
                      vint (v ! 1) + register_count * 2 + event_count * 16 + sample_bytes
                    \<or> sample_bytes \<noteq> sample_count * 2 then Inl ValueError
            else
              rbind (take_pairs data offset (nat register_count)) (\<lambda>(pairs, offset).
              rbind (take_events data offset (nat event_count)) (\<lambda>(events, offset).
              rbind (take_at data offset (nat sample_bytes)) (\<lambda>(sample_data, offset).
              rbind (if sample_count \<noteq> 0
                     then unpack (replicate (nat sample_count) FH) sample_data
                     else Inr []) (\<lambda>samples.
              let c = \<lparr>cd_request_id = id0, cd_schedule_id = id1, cd_capture_id = id2,
                       cd_boot_id = id3, cd_device_id = id4, cd_profile_sha256 = profile_hash,
                       cd_device_config_crc32 = vint (v1 ! 0), cd_capture_sequence = vint (v1 ! 1),
                       cd_sample_interval_ticks = vint (v2 ! 0), cd_burst_period_ticks = vint (v2 ! 1),
                       cd_sample_count = sample_count, cd_pretrigger_count = vint (v3 ! 1),
                       cd_adc_bits = vint (v4 ! 0), cd_sample_encoding = vint (v4 ! 1),
                       cd_vref_mv = vint (v4 ! 2), cd_smclk_nominal_hz = vint (v5 ! 0),
                       cd_smclk_calibrated_hz = vint (v5 ! 1), cd_frame_start_tick48 = vint (v6 ! 0),
                       cd_t_trigger_offset_ticks = vint (v7 ! 0),
                       cd_adc0_hold_offset_ticks = vint (v7 ! 1), cd_adc_aperture_ns = vint (v8 ! 0),
                       cd_trigger_to_tx_output_ns = vint (v8 ! 1),
                       cd_calibration_version = vint (v8 ! 2), cd_quality_flags = vint (v8 ! 3),
                       cd_tuss_dev_stat = vint (v9 ! 0), cd_out3_start_level = vint (v9 ! 1),
                       cd_out4_start_level = vint (v9 ! 2), cd_register_pairs = pairs,
                       cd_events = events, cd_samples = map vint samples\<rparr>
              in rbind (validate_capture c) (\<lambda>_. Inr c)))))))))))))))))))))))"

section \<open>The header as one layout\<close>

definition header_layout :: "fmt list" where
  "header_layout = [FH, FH] @ [Fs 16, Fs 16, Fs 16, Fs 16, Fs 16, Fs 32] @ [FI, FI] @ [FH, FH] @
     [FH, FH] @ [FB, FB, FH] @ [FI, FI] @ [FQ] @ [FI, Fi] @ [FI, FI, FI, FI] @
     [FB, FB, FB, FB, FB, Fx 3] @ [FI]"

definition header_tuple :: "CaptureData \<Rightarrow> nat \<Rightarrow> nat \<Rightarrow> nat \<Rightarrow> pyval list" where
  "header_tuple c events pairs samples =
     [PInt 1, PInt 188] @
     [PBytes (cd_request_id c), PBytes (cd_schedule_id c), PBytes (cd_capture_id c),
      PBytes (cd_boot_id c), PBytes (cd_device_id c), PBytes (cd_profile_sha256 c)] @
     [PInt (cd_device_config_crc32 c), PInt (cd_capture_sequence c)] @
     [PInt (cd_sample_interval_ticks c), PInt (cd_burst_period_ticks c)] @
     [PInt (cd_sample_count c), PInt (cd_pretrigger_count c)] @
     [PInt (cd_adc_bits c), PInt (cd_sample_encoding c), PInt (cd_vref_mv c)] @
     [PInt (cd_smclk_nominal_hz c), PInt (cd_smclk_calibrated_hz c)] @
     [PInt (cd_frame_start_tick48 c)] @
     [PInt (cd_t_trigger_offset_ticks c), PInt (cd_adc0_hold_offset_ticks c)] @
     [PInt (cd_adc_aperture_ns c), PInt (cd_trigger_to_tx_output_ns c),
      PInt (cd_calibration_version c), PInt (cd_quality_flags c)] @
     [PInt (cd_tuss_dev_stat c), PInt (cd_out3_start_level c), PInt (cd_out4_start_level c),
      PInt (int events), PInt (int pairs)] @
     [PInt (int samples * 2)]"

lemma calcnheader [simp]: "calcsize header_layout = 188"
  by (simp add: header_layout_def)

lemma take_at_ok [simp]:
  "offset + n \<le> length data \<Longrightarrow> take_at data offset n = Inr (take n (drop offset data), offset + n)"
  by (simp add: take_at_def Let_def)

lemma unpack_at_ok [simp]:
  "offset + n \<le> length data \<Longrightarrow> calcsize fs = n \<Longrightarrow>
   unpack_at fs data offset n = Inr (unpack_go fs (drop offset data), offset + n)"
  by (simp add: unpack_at_def unpack_def unpack_go_take)

text \<open>The capture that the header bytes of a payload describe, with the parts that follow it.\<close>

definition capture_from ::
  "bytes \<Rightarrow> (int \<times> int) list \<Rightarrow> CaptureEvent list \<Rightarrow> int list \<Rightarrow> CaptureData" where
  "capture_from data pairs events samples =
     (let u = (\<lambda>offset n. le_int (take n (drop offset data))) in
      \<lparr>cd_request_id = take 16 (drop 4 data), cd_schedule_id = take 16 (drop 20 data),
       cd_capture_id = take 16 (drop 36 data), cd_boot_id = take 16 (drop 52 data),
       cd_device_id = take 16 (drop 68 data), cd_profile_sha256 = take 32 (drop 84 data),
       cd_device_config_crc32 = u 116 4, cd_capture_sequence = u 120 4,
       cd_sample_interval_ticks = u 124 2, cd_burst_period_ticks = u 126 2,
       cd_sample_count = u 128 2, cd_pretrigger_count = u 130 2,
       cd_adc_bits = u 132 1, cd_sample_encoding = u 133 1, cd_vref_mv = u 134 2,
       cd_smclk_nominal_hz = u 136 4, cd_smclk_calibrated_hz = u 140 4,
       cd_frame_start_tick48 = u 144 8, cd_t_trigger_offset_ticks = u 152 4,
       cd_adc0_hold_offset_ticks = to_signed32 (u 156 4), cd_adc_aperture_ns = u 160 4,
       cd_trigger_to_tx_output_ns = u 164 4, cd_calibration_version = u 168 4,
       cd_quality_flags = u 172 4, cd_tuss_dev_stat = u 176 1, cd_out3_start_level = u 177 1,
       cd_out4_start_level = u 178 1, cd_register_pairs = pairs, cd_events = events,
       cd_samples = samples\<rparr>)"

definition capture_tail :: "bytes \<Rightarrow> CaptureData res" where
  "capture_tail data =
     rbind (take_pairs data 188 (nat (le_int (take 1 (drop 180 data))))) (\<lambda>(pairs, offset).
     rbind (take_events data offset (nat (le_int (take 1 (drop 179 data))))) (\<lambda>(events, offset).
     rbind (take_at data offset (nat (le_int (take 4 (drop 184 data))))) (\<lambda>(sample_data, offset).
     rbind (if le_int (take 2 (drop 128 data)) \<noteq> 0
            then unpack (replicate (nat (le_int (take 2 (drop 128 data)))) FH) sample_data
            else Inr []) (\<lambda>samples.
     let c = capture_from data pairs events (map vint samples)
     in rbind (validate_capture c) (\<lambda>_. Inr c)))))"

lemma decode_capture_data_eq:
  "decode_capture_data data =
     (if length data < 188 \<or> le_int (take 2 data) \<noteq> 1 \<or> le_int (take 2 (drop 2 data)) \<noteq> 188 \<or>
         take 3 (drop 181 data) \<noteq> replicate 3 0 \<or>
         int (length data) \<noteq> 188 + le_int (take 1 (drop 180 data)) * 2
           + le_int (take 1 (drop 179 data)) * 16 + le_int (take 4 (drop 184 data)) \<or>
         le_int (take 4 (drop 184 data)) \<noteq> le_int (take 2 (drop 128 data)) * 2
      then Inl ValueError else capture_tail data)"
proof (cases "length data < 188")
  case True
  then show ?thesis by (simp add: decode_capture_data_def capture_consts)
next
  case False
  then have l: "\<And>k. k \<le> 188 \<Longrightarrow> k \<le> length data" by simp
  show ?thesis
    using False
    by (simp add: decode_capture_data_def capture_consts unpack_from_def l
        capture_tail_def capture_from_def Let_def)
qed

section \<open>Pairs, events and samples\<close>

lemma take_pairs_ok:
  "offset + 2 * n \<le> length data \<Longrightarrow>
   take_pairs data offset n = Inr (read_pairs (drop offset data) n, offset + 2 * n)"
proof (induction n arbitrary: offset)
  case (Suc n)
  have d: "drop offset data = data ! offset # data ! Suc offset # drop (Suc (Suc offset)) data"
    using Suc.prems by (simp add: Cons_nth_drop_Suc)
  have "take 1 (drop offset data) ! 0 = data ! offset"
    "take 1 (drop (Suc offset) data) ! 0 = data ! Suc offset"
    using Suc.prems by simp_all
  then show ?case
    using Suc.IH [of "Suc (Suc offset)"] Suc.prems
    by (simp add: read_pairs_Suc [of _ _ _ n, folded d])
      (subst d, simp add: read_pairs_Suc)
qed (simp add: read_pairs_def)

fun read_events :: "bytes \<Rightarrow> nat \<Rightarrow> CaptureEvent list" where
  "read_events bs 0 = []"
| "read_events bs (Suc n) = event_of (unpack_go EVENT_layout bs) # read_events (drop 16 bs) n"

lemma calcsize_EVENT [simp]: "calcsize EVENT_layout = 16"
  by (simp add: EVENT_layout_def)

lemma length_read_events [simp]: "length (read_events bs n) = n"
  by (induction n arbitrary: bs) simp_all

lemma take_events_ok:
  "offset + 16 * n \<le> length data \<Longrightarrow>
   take_events data offset n = Inr (read_events (drop offset data) n, offset + 16 * n)"
  by (induction n arbitrary: offset) (simp_all add: add.commute)

lemma event_of_tuple [simp]: "event_of (event_tuple e) = e"
  by (simp add: event_of_def event_tuple_def)

lemma event_tuple_of: "fits EVENT_layout vs \<Longrightarrow> event_tuple (event_of vs) = vs"
  by (auto simp: event_of_def event_tuple_def EVENT_layout_def)

lemma exact_event [simp]: "exact EVENT_layout (event_tuple e)"
  by (simp add: EVENT_layout_def event_tuple_def)

lemma pack_events_read:
  "pack_events es = Inr b \<Longrightarrow> length b = 16 * length es \<and> read_events (b @ r) (length es) = es"
proof (induction es arbitrary: b)
  case (Cons e es)
  then obtain b1 b2 where p: "pack EVENT_layout (event_tuple e) = Inr b1" "pack_events es = Inr b2"
    "b = b1 @ b2" by auto
  then show ?case
    using Cons.IH [OF p(2)] unpack_go_pack [OF p(1) exact_event, of "b2 @ r"] pack_length [OF p(1)]
    by simp
qed simp

lemma read_events_pack:
  "length bs = 16 * n \<Longrightarrow> pack_events (read_events (bs @ r) n) = Inr bs"
proof (induction n arbitrary: bs)
  case (Suc n)
  have go: "unpack_go EVENT_layout (bs @ r) = unpack_go EVENT_layout bs"
    using unpack_go_take [of EVENT_layout 16 "bs @ r"] unpack_go_take [of EVENT_layout 16 bs] Suc.prems
    by simp
  have "pack EVENT_layout (unpack_go EVENT_layout bs) = Inr (take 16 bs)"
    using pack_unpack_go [of EVENT_layout bs] Suc.prems by (simp add: EVENT_layout_def)
  moreover have "event_tuple (event_of (unpack_go EVENT_layout bs)) = unpack_go EVENT_layout bs"
    using Suc.prems by (intro event_tuple_of fits_unpack_go) simp
  moreover have "pack_events (read_events (drop 16 bs @ r) n) = Inr (drop 16 bs)"
    using Suc.prems by (intro Suc.IH) simp
  ultimately show ?case using Suc.prems by (simp add: go)
qed simp

lemma calcsize_replicate [simp]: "calcsize (replicate n FH) = 2 * n"
  by (induction n) simp_all

lemma pads_zero_replicate [simp]: "pads_zero (replicate n FH) bs"
  by (induction n arbitrary: bs) simp_all

lemma exact_replicate [simp]: "exact (replicate n FH) (map PInt xs)"
proof (induction n arbitrary: xs)
  case (Suc n)
  then show ?case by (cases xs) simp_all
qed simp

lemma fits_replicateD:
  "fits (replicate n FH) vs \<Longrightarrow> vs = map PInt (map vint vs) \<and> length vs = n"
  by (induction n arbitrary: vs) auto

lemma fits_samples:
  "list_all (\<lambda>s. 0 \<le> s \<and> s \<le> 0xFFFF) xs \<Longrightarrow> fits (replicate (length xs) FH) (map PInt xs)"
  by (induction xs) (simp_all add: frange_def)

section \<open>Validity\<close>

definition event_ok :: "int \<Rightarrow> CaptureEvent \<Rightarrow> bool" where
  "event_ok interval e \<longleftrightarrow> ev_channel e \<in> {3, 4} \<and> ev_edge e \<in> {1, 2} \<and> ev_capture_method e \<in> {1, 2} \<and>
     ev_level_after e \<in> {0, 1} \<and> 0 \<le> ev_subsample_tick e \<and> ev_subsample_tick e < interval"

definition capture_ok :: "CaptureData \<Rightarrow> bool" where
  "capture_ok c \<longleftrightarrow> length (cd_request_id c) = 16 \<and> length (cd_schedule_id c) = 16 \<and>
     length (cd_capture_id c) = 16 \<and> length (cd_boot_id c) = 16 \<and> length (cd_device_id c) = 16 \<and>
     length (cd_profile_sha256 c) = 32 \<and> cd_sample_count c = int (length (cd_samples c)) \<and>
     0 \<le> cd_pretrigger_count c \<and> cd_pretrigger_count c < cd_sample_count c \<and> cd_adc_bits c = 12 \<and>
     cd_sample_encoding c = 1 \<and> 0 \<le> cd_frame_start_tick48 c \<and> cd_frame_start_tick48 c < 2 ^ 48 \<and>
     length (cd_events c) \<le> 17 \<and> pairs_ok (cd_register_pairs c) \<and>
     list_all (\<lambda>s. 0 \<le> s \<and> s \<le> 0xFFFF) (cd_samples c) \<and>
     list_all (event_ok (cd_sample_interval_ticks c)) (cd_events c)"

lemma validate_capture_pairs_eq: "validate_capture_pairs p ps = validate_pairs p ps"
  by (induction p ps rule: validate_capture_pairs.induct) auto

lemma validate_events_eq:
  "validate_events i es = (if list_all (event_ok i) es then Inr () else Inl ValueError)"
  by (induction i es rule: validate_events.induct) (auto simp: event_ok_def)

lemma drop_bit_48_eq_0: "drop_bit 48 (x :: int) = 0 \<longleftrightarrow> 0 \<le> x \<and> x < 2 ^ 48"
  by (auto simp: drop_bit_eq_div zdiv_eq_0_iff)

lemma validate_capture_eq: "validate_capture c = (if capture_ok c then Inr () else Inl ValueError)"
proof -
  have "validate_capture c = Inr () \<longleftrightarrow> capture_ok c"
    unfolding validate_capture_def validate_capture_pairs_eq validate_pairs_eq validate_events_eq
      drop_bit_48_eq_0
    by (auto simp: capture_ok_def SAMPLE_ENCODING_UINT16_LE_def pairs_ok_def list_all_iff list_ex_iff
        not_less)
  moreover have "e = ValueError" if "validate_capture c = Inl e" for e
    using that unfolding validate_capture_def validate_capture_pairs_eq validate_pairs_eq validate_events_eq
    by (auto simp: rbind_Inl_iff split: if_splits)
  ultimately show ?thesis by (cases "validate_capture c") auto
qed

section \<open>The codec\<close>

definition header_of_capture :: "CaptureData \<Rightarrow> pyval list" where
  "header_of_capture c =
     header_tuple c (length (cd_events c)) (length (cd_register_pairs c)) (length (cd_samples c))"

lemma pack_ids:
  "capture_ok c \<Longrightarrow> pack [Fs 16, Fs 16, Fs 16, Fs 16, Fs 16, Fs 32]
     [PBytes (cd_request_id c), PBytes (cd_schedule_id c), PBytes (cd_capture_id c),
      PBytes (cd_boot_id c), PBytes (cd_device_id c), PBytes (cd_profile_sha256 c)] =
   Inr (cd_request_id c @ cd_schedule_id c @ cd_capture_id c @ cd_boot_id c @ cd_device_id c @
        cd_profile_sha256 c)"
  by (simp add: pack.simps capture_ok_def)

lemma encode_capture_data_iff:
  "encode_capture_data c = Inr bs \<longleftrightarrow> capture_ok c \<and> (\<exists>h e s. pack header_layout (header_of_capture c) = Inr h \<and>
     pack_events (cd_events c) = Inr e \<and>
     pack (replicate (length (cd_samples c)) FH) (map PInt (cd_samples c)) = Inr s \<and>
     bs = h @ pair_bytes (cd_register_pairs c) @ e @ s)"
proof (cases "capture_ok c")
  case True
  have ne: "cd_samples c \<noteq> []" and pr: "pairs_ok (cd_register_pairs c)"
    using True by (auto simp: capture_ok_def)
  have int188: "int n = 188 \<longleftrightarrow> n = 188" for n by simp
  have hd: "pack header_layout (header_of_capture c) = Inr h \<Longrightarrow> length h = 188" for h
    by (drule pack_length) simp
  have chain: "rbind (pack header_layout (header_of_capture c)) k =
     (let ids = cd_request_id c @ cd_schedule_id c @ cd_capture_id c @ cd_boot_id c @ cd_device_id c @
               cd_profile_sha256 c in
     rbind (pack [FH, FH] [PInt 1, PInt 188]) (\<lambda>d0.
     rbind (pack [FI, FI] [PInt (cd_device_config_crc32 c), PInt (cd_capture_sequence c)]) (\<lambda>d1.
     rbind (pack [FH, FH] [PInt (cd_sample_interval_ticks c), PInt (cd_burst_period_ticks c)]) (\<lambda>d2.
     rbind (pack [FH, FH] [PInt (cd_sample_count c), PInt (cd_pretrigger_count c)]) (\<lambda>d3.
     rbind (pack [FB, FB, FH]
              [PInt (cd_adc_bits c), PInt (cd_sample_encoding c), PInt (cd_vref_mv c)]) (\<lambda>d4.
     rbind (pack [FI, FI] [PInt (cd_smclk_nominal_hz c), PInt (cd_smclk_calibrated_hz c)]) (\<lambda>d5.
     rbind (pack [FQ] [PInt (cd_frame_start_tick48 c)]) (\<lambda>d6.
     rbind (pack [FI, Fi]
              [PInt (cd_t_trigger_offset_ticks c), PInt (cd_adc0_hold_offset_ticks c)]) (\<lambda>d7.
     rbind (pack [FI, FI, FI, FI]
              [PInt (cd_adc_aperture_ns c), PInt (cd_trigger_to_tx_output_ns c),
               PInt (cd_calibration_version c), PInt (cd_quality_flags c)]) (\<lambda>d8.
     rbind (pack [FB, FB, FB, FB, FB, Fx 3]
              [PInt (cd_tuss_dev_stat c), PInt (cd_out3_start_level c), PInt (cd_out4_start_level c),
               PInt (int (length (cd_events c))), PInt (int (length (cd_register_pairs c)))]) (\<lambda>d9.
     rbind (pack [FI] [PInt (int (length (cd_samples c)) * 2)]) (\<lambda>d10.
     k (d0 @ ids @ d1 @ d2 @ d3 @ d4 @ d5 @ d6 @ d7 @ d8 @ d9 @ d10)))))))))))))" for k :: "bytes \<Rightarrow> bytes res"
    unfolding header_layout_def header_of_capture_def header_tuple_def Let_def
    by (subst pack_append, simp)+ (simp only: pack_ids [OF True] rbind_assoc rbind_simps append_assoc)
  have "encode_capture_data c = rbind (pack header_layout (header_of_capture c)) (\<lambda>header.
     if length header \<noteq> 188 then Inl AssertionError
     else rbind (pack_events (cd_events c)) (\<lambda>e.
       rbind (pack (replicate (length (cd_samples c)) FH) (map PInt (cd_samples c))) (\<lambda>s.
       Inr (header @ pair_bytes (cd_register_pairs c) @ e @ s))))"
    unfolding chain encode_capture_data_def validate_capture_eq capture_consts py_bytes_pairs [OF pr]
    by (simp only: True ne if_True rbind_simps Let_def int188 not_False_eq_True append_assoc)
  then show ?thesis using True hd by auto
next
  case False
  then show ?thesis by (simp add: encode_capture_data_def validate_capture_eq)
qed

lemma header_iff:
  "unpack_go header_layout data = header_tuple c ne np ns \<longleftrightarrow>
     le_int (take 2 data) = 1 \<and> le_int (take 2 (drop 2 data)) = 188 \<and>
     le_int (take 1 (drop 179 data)) = int ne \<and> le_int (take 1 (drop 180 data)) = int np \<and>
     le_int (take 4 (drop 184 data)) = int ns * 2 \<and>
     capture_from data (cd_register_pairs c) (cd_events c) (cd_samples c) = c"
  by (cases c) (auto simp: header_layout_def header_tuple_def capture_from_def Let_def)

lemma pads_zero_header: "pads_zero header_layout data \<longleftrightarrow> take 3 (drop 181 data) = replicate 3 0"
  by (simp add: header_layout_def)

lemma decode_encoded_capture:
  assumes "encode_capture_data c = Inr bs"
  shows "decode_capture_data bs = Inr c"
proof -
  let ?n = "length (cd_samples c)" and ?p = "length (cd_register_pairs c)" and ?e = "length (cd_events c)"
  from assms obtain h e s where ok: "capture_ok c"
    and h: "pack header_layout (header_of_capture c) = Inr h" and e: "pack_events (cd_events c) = Inr e"
    and s: "pack (replicate ?n FH) (map PInt (cd_samples c)) = Inr s"
    and bs: "bs = h @ pair_bytes (cd_register_pairs c) @ e @ s"
    by (auto simp: encode_capture_data_iff)
  have lh: "length h = 188" and ls: "length s = 2 * ?n"
    using pack_length [OF h] pack_length [OF s] by simp_all
  have le: "length e = 16 * ?e" and re: "\<And>r. read_events (e @ r) ?e = cd_events c"
    using pack_events_read [OF e] by blast+
  have ex: "exact header_layout (header_of_capture c)"
    using ok by (simp add: header_layout_def header_of_capture_def header_tuple_def capture_ok_def)
  have "unpack_go header_layout bs = header_of_capture c"
    unfolding bs by (rule unpack_go_pack [OF h ex])
  then have hdr: "le_int (take 2 bs) = 1" "le_int (take 2 (drop 2 bs)) = 188"
    "le_int (take 1 (drop 179 bs)) = int ?e" "le_int (take 1 (drop 180 bs)) = int ?p"
    "le_int (take 4 (drop 184 bs)) = int ?n * 2"
    "capture_from bs (cd_register_pairs c) (cd_events c) (cd_samples c) = c"
    unfolding header_of_capture_def header_iff by blast+
  have cnt: "le_int (take 2 (drop 128 bs)) = int ?n"
  proof -
    have "cd_sample_count (capture_from bs (cd_register_pairs c) (cd_events c) (cd_samples c)) = int ?n"
      unfolding hdr(6) using ok by (simp add: capture_ok_def)
    then show ?thesis by (simp add: capture_from_def Let_def)
  qed
  have z: "take 3 (drop 181 bs) = replicate 3 0"
    using pads_zero_pack [OF h] unfolding bs pads_zero_header by blast
  have len: "length bs = 188 + 2 * ?p + 16 * ?e + 2 * ?n"
    by (simp add: bs lh le ls)
  have n0: "int ?n \<noteq> 0" using ok by (auto simp: capture_ok_def)
  have "take_pairs bs 188 ?p = Inr (cd_register_pairs c, 188 + 2 * ?p)"
    using take_pairs_ok [of 188 ?p bs] read_pair_bytes [of "cd_register_pairs c" "e @ s"] len ok lh
    by (simp add: bs capture_ok_def pairs_ok_def)
  moreover have "take_events bs (188 + 2 * ?p) ?e = Inr (cd_events c, 188 + 2 * ?p + 16 * ?e)"
    using take_events_ok [of "188 + 2 * ?p" ?e bs] re [of s] len lh by (simp add: bs)
  moreover have "take_at bs (188 + 2 * ?p + 16 * ?e) (?n * 2) = Inr (s, length bs)"
    using take_at_ok [of "188 + 2 * ?p + 16 * ?e" "?n * 2" bs] len lh le ls by (simp add: bs)
  moreover have "unpack (replicate ?n FH) s = Inr (map PInt (cd_samples c))"
    by (rule unpack_pack [OF s]) simp
  moreover have "map (vint \<circ> PInt) (cd_samples c) = cd_samples c"
    by (simp add: map_idI)
  ultimately have "capture_tail bs = Inr c"
    unfolding capture_tail_def hdr(3-5) cnt using n0 hdr(6) ok
    by (simp add: nat_mult_distrib Let_def validate_capture_eq)
  then show ?thesis
    unfolding decode_capture_data_eq hdr(1-5) cnt z using len by simp
qed

lemma encode_decoded_capture:
  assumes "decode_capture_data bs = Inr c"
  shows "encode_capture_data c = Inr bs"
proof -
  define np where "np = nat (le_int (take 1 (drop 180 bs)))"
  define ne where "ne = nat (le_int (take 1 (drop 179 bs)))"
  define ns where "ns = nat (le_int (take 2 (drop 128 bs)))"
  have i: "le_int (take 1 (drop 180 bs)) = int np" "le_int (take 1 (drop 179 bs)) = int ne"
    "le_int (take 2 (drop 128 bs)) = int ns"
    by (simp_all add: np_def ne_def ns_def)
  have cond: "188 \<le> length bs" "le_int (take 2 bs) = 1" "le_int (take 2 (drop 2 bs)) = 188"
    "take 3 (drop 181 bs) = replicate 3 0" "le_int (take 4 (drop 184 bs)) = int ns * 2"
    "length bs = 188 + 2 * np + 16 * ne + 2 * ns" and tail: "capture_tail bs = Inr c"
    using assms unfolding decode_capture_data_eq i by (auto split: if_splits)
  have tp: "take_pairs bs 188 np = Inr (read_pairs (drop 188 bs) np, 188 + 2 * np)"
    using take_pairs_ok [of 188 np bs] cond(6) by simp
  have te: "take_events bs (188 + 2 * np) ne =
      Inr (read_events (drop (188 + 2 * np) bs) ne, 188 + 2 * np + 16 * ne)"
    using take_events_ok [of "188 + 2 * np" ne bs] cond(6) by simp
  have ts: "take_at bs (188 + 2 * np + 16 * ne) (ns * 2) =
      Inr (drop (188 + 2 * np + 16 * ne) bs, length bs)"
    using take_at_ok [of "188 + 2 * np + 16 * ne" "ns * 2" bs] cond(6) by simp
  have nat_ns: "nat (int ns * 2) = ns * 2" by simp
  obtain vs where u: "(if int ns \<noteq> 0 then unpack (replicate ns FH) (drop (188 + 2 * np + 16 * ne) bs)
       else Inr []) = Inr vs"
    and c: "c = capture_from bs (read_pairs (drop 188 bs) np) (read_events (drop (188 + 2 * np) bs) ne)
       (map vint vs)" and ok: "capture_ok c"
    using tail unfolding capture_tail_def i cond(5) nat_int nat_ns
    by (auto simp: tp te ts Let_def validate_capture_eq split: if_splits)
  have sel: "cd_register_pairs c = read_pairs (drop 188 bs) np"
    "cd_events c = read_events (drop (188 + 2 * np) bs) ne" "cd_samples c = map vint vs"
    "cd_sample_count c = int ns"
    by (simp_all add: c capture_from_def Let_def i)
  have "ns \<noteq> 0" and lv: "length vs = ns" using ok sel by (auto simp: capture_ok_def)
  then have u': "unpack (replicate ns FH) (drop (188 + 2 * np + 16 * ne) bs) = Inr vs"
    using u by simp
  have vs: "map PInt (cd_samples c) = vs" "length (cd_samples c) = ns"
    using fits_replicateD [OF fits_unpack [OF u']] by (simp_all add: sel)
  have lens: "length (cd_register_pairs c) = np" "length (cd_events c) = ne"
    by (simp_all add: sel read_pairs_def)
  have "header_of_capture c = unpack_go header_layout bs"
    unfolding header_of_capture_def lens vs(2)
    using header_iff [of bs c ne np ns] cond i by (simp add: sel) (simp add: c)
  then have "pack header_layout (header_of_capture c) = Inr (take 188 bs)"
    using pack_unpack_go [of header_layout bs] cond(1,4) by (simp add: pads_zero_header)
  moreover have "pair_bytes (cd_register_pairs c) = take (2 * np) (drop 188 bs)"
    unfolding sel using pair_bytes_read [of "take (2 * np) (drop 188 bs)" np "drop (2 * np) (drop 188 bs)"] cond(6)
    by (simp only: append_take_drop_id) simp
  moreover have "pack_events (cd_events c) = Inr (take (16 * ne) (drop (188 + 2 * np) bs))"
    unfolding sel using read_events_pack [of "take (16 * ne) (drop (188 + 2 * np) bs)" ne
        "drop (16 * ne) (drop (188 + 2 * np) bs)"] cond(6)
    by (simp only: append_take_drop_id) simp
  moreover have "pack (replicate (length (cd_samples c)) FH) (map PInt (cd_samples c)) =
      Inr (drop (188 + 2 * np + 16 * ne) bs)"
    unfolding vs by (rule pack_unpack [OF u']) simp
  moreover have "bs = take 188 bs @ take (2 * np) (drop 188 bs) @
      take (16 * ne) (drop (188 + 2 * np) bs) @ drop (188 + 2 * np + 16 * ne) bs"
  proof -
    have d2: "drop (188 + 2 * np) bs = drop (2 * np) (drop 188 bs)" by (simp add: add.commute)
    have d3: "drop (188 + 2 * np + 16 * ne) bs = drop (16 * ne) (drop (188 + 2 * np) bs)"
      by (simp add: add.commute)
    show ?thesis unfolding d3 append_take_drop_id unfolding d2 append_take_drop_id by (rule refl)
  qed
  ultimately show ?thesis
    using ok unfolding encode_capture_data_iff by (metis (no_types, lifting))
qed

interpretation capture_codec: canonical_codec encode_capture_data decode_capture_data
  by unfold_locales (fact decode_encoded_capture encode_decoded_capture)+

section \<open>Properties\<close>

lemma capture_tail_outcome:
  assumes i: "le_int (take 1 (drop 180 bs)) = int np" "le_int (take 1 (drop 179 bs)) = int ne"
    "le_int (take 2 (drop 128 bs)) = int ns" "le_int (take 4 (drop 184 bs)) = int ns * 2"
    and l: "length bs = 188 + 2 * np + 16 * ne + 2 * ns"
  shows "capture_tail bs \<in> range Inr \<union> {Inl ValueError}"
proof -
  have nat_ns: "nat (int ns * 2) = ns * 2" by simp
  have tp: "take_pairs bs 188 np = Inr (read_pairs (drop 188 bs) np, 188 + 2 * np)"
    using take_pairs_ok [of 188 np bs] l by simp
  have te: "take_events bs (188 + 2 * np) ne =
      Inr (read_events (drop (188 + 2 * np) bs) ne, 188 + 2 * np + 16 * ne)"
    using take_events_ok [of "188 + 2 * np" ne bs] l by simp
  have ts: "take_at bs (188 + 2 * np + 16 * ne) (ns * 2) =
      Inr (drop (188 + 2 * np + 16 * ne) bs, length bs)"
    using take_at_ok [of "188 + 2 * np + 16 * ne" "ns * 2" bs] l by simp
  have u: "unpack (replicate ns FH) (drop (188 + 2 * np + 16 * ne) bs) =
      Inr (unpack_go (replicate ns FH) (drop (188 + 2 * np + 16 * ne) bs))"
    using l by (simp add: unpack_def)
  show ?thesis
    unfolding capture_tail_def i nat_int nat_ns tp rbind_simps prod.case te ts u
    by (simp add: Let_def validate_capture_eq)
qed

lemma decode_capture_outcome: "decode_capture_data bs \<in> range Inr \<union> {Inl ValueError}"
proof -
  define np where "np = nat (le_int (take 1 (drop 180 bs)))"
  define ne where "ne = nat (le_int (take 1 (drop 179 bs)))"
  define ns where "ns = nat (le_int (take 2 (drop 128 bs)))"
  have i: "le_int (take 1 (drop 180 bs)) = int np" "le_int (take 1 (drop 179 bs)) = int ne"
    "le_int (take 2 (drop 128 bs)) = int ns"
    by (simp_all add: np_def ne_def ns_def)
  have "capture_tail bs \<in> range Inr \<union> {Inl ValueError}"
    if "int (length bs) = 188 + int np * 2 + int ne * 16 + le_int (take 4 (drop 184 bs))"
      and "le_int (take 4 (drop 184 bs)) = int ns * 2"
    using that by (intro capture_tail_outcome [OF i]) simp_all
  then show ?thesis unfolding decode_capture_data_eq i by (simp split: if_split)
qed

text \<open>C36 (roundtrip). CAPTURE\_DATA is lossless and canonical: a payload decodes to a capture exactly when it is
  the encoding of that capture, so every sample, event, register pair, identifier and timing field
  arrives as it was sent; the decoder otherwise raises \<open>ValueError\<close> and nothing else, so the two
  internal size assertions never fire.\<close>

theorem capture_data_lossless:
  "(decode_capture_data bs = Inr c \<longleftrightarrow> encode_capture_data c = Inr bs) \<and>
   decode_capture_data bs \<in> range Inr \<union> {Inl ValueError}"
  using capture_codec.dec_iff decode_capture_outcome by blast

lemma encode_capture_length:
  "encode_capture_data c = Inr bs \<Longrightarrow>
   length bs = 188 + 2 * length (cd_register_pairs c) + 16 * length (cd_events c) + 2 * length (cd_samples c)
     \<and> capture_ok c"
proof -
  assume "encode_capture_data c = Inr bs"
  then obtain h e s where "pack header_layout (header_of_capture c) = Inr h"
    "pack_events (cd_events c) = Inr e" "capture_ok c"
    "pack (replicate (length (cd_samples c)) FH) (map PInt (cd_samples c)) = Inr s"
    "bs = h @ pair_bytes (cd_register_pairs c) @ e @ s"
    by (auto simp: encode_capture_data_iff)
  then show ?thesis
    using pack_events_read [of "cd_events c" e "[]"] by (auto dest!: pack_length)
qed

text \<open>The parser's length window for CAPTURE\_DATA is exactly what a device capture needs: a
  capture of at most 2048 samples (the largest \<open>sample_count\<close> a configuration allows) encodes to
  at most 4576 bytes whatever registers and events it carries, hence is admitted both as a response
  and as an asynchronous message.\<close>

theorem capture_data_fits_the_policy:
  assumes "encode_capture_data c = Inr bs" and "length (cd_samples c) \<le> 2048"
  shows "payload_length_is_valid CAPTURE_DATA FLAG_RESPONSE (int (length bs)) \<and>
    payload_length_is_valid CAPTURE_DATA FLAG_ASYNC (int (length bs))"
proof -
  have "length (cd_register_pairs c) \<le> 10" "length (cd_events c) \<le> 17"
    using encode_capture_length [OF assms(1)] by (auto simp: capture_ok_def pairs_ok_def)
  then show ?thesis
    using encode_capture_length [OF assms(1)] assms(2) by (simp add: payload_length_is_valid_def)
qed

text \<open>A minimal capture, used by the witnesses.\<close>

definition tiny_capture :: CaptureData where
  "tiny_capture =
     \<lparr>cd_request_id = replicate 16 1, cd_schedule_id = replicate 16 0, cd_capture_id = replicate 16 2,
      cd_boot_id = replicate 16 3, cd_device_id = replicate 16 4, cd_profile_sha256 = replicate 32 5,
      cd_device_config_crc32 = 6, cd_capture_sequence = 7, cd_sample_interval_ticks = 120,
      cd_burst_period_ticks = 24, cd_sample_count = 2, cd_pretrigger_count = 1, cd_adc_bits = 12,
      cd_sample_encoding = 1, cd_vref_mv = 3300, cd_smclk_nominal_hz = 24000000,
      cd_smclk_calibrated_hz = 0, cd_frame_start_tick48 = 9, cd_t_trigger_offset_ticks = 0,
      cd_adc0_hold_offset_ticks = -3, cd_adc_aperture_ns = 0, cd_trigger_to_tx_output_ns = 0,
      cd_calibration_version = 0, cd_quality_flags = 0, cd_tuss_dev_stat = 0,
      cd_out3_start_level = 0, cd_out4_start_level = 1, cd_register_pairs = [(0x10, 0x2E)],
      cd_events = [\<lparr>ev_channel = 3, ev_edge = 1, ev_capture_method = 1, ev_level_after = 1,
        ev_sample_index = -1, ev_subsample_tick = 5, ev_uncertainty_ticks = 0,
        ev_frame_offset_ticks = 0\<rparr>],
      cd_samples = [100, 4095]\<rparr>"

lemma capture_ok_fits_encode:
  assumes "capture_ok c" and "fits header_layout (header_of_capture c)"
    and "list_all (\<lambda>e. fits EVENT_layout (event_tuple e)) (cd_events c)"
  shows "\<exists>bs. encode_capture_data c = Inr bs"
proof -
  have "\<exists>b. pack_events es = Inr b" if "list_all (\<lambda>e. fits EVENT_layout (event_tuple e)) es" for es
    using that by (induction es) (auto dest!: fits_packs)
  then show ?thesis
    using assms fits_packs [OF assms(2)] fits_packs [OF fits_samples]
    by (fastforce simp: encode_capture_data_iff capture_ok_def)
qed

lemma tiny_capture_ok: "capture_ok tiny_capture"
  by (simp add: tiny_capture_def capture_ok_def pairs_ok_def reg_ok_def event_ok_def)

lemma tiny_capture_encodes: "\<exists>bs. encode_capture_data tiny_capture = Inr bs"
  by (rule capture_ok_fits_encode [OF tiny_capture_ok])
    (simp_all add: tiny_capture_def header_of_capture_def header_tuple_def header_layout_def EVENT_layout_def
      event_tuple_def frange_def)

theorem capture_data_fits_the_policy_witness:
  "\<exists>bs. encode_capture_data tiny_capture = Inr bs \<and> length (cd_samples tiny_capture) \<le> 2048 \<and>
     payload_length_is_valid CAPTURE_DATA FLAG_RESPONSE (int (length bs)) \<and>
     payload_length_is_valid CAPTURE_DATA FLAG_ASYNC (int (length bs))"
proof -
  obtain bs where e: "encode_capture_data tiny_capture = Inr bs"
    using tiny_capture_encodes by blast
  have n: "length (cd_samples tiny_capture) \<le> 2048" by (simp add: tiny_capture_def)
  show ?thesis using e n capture_data_fits_the_policy [OF e n] by blast
qed

end
