(* ===== verification/Spool.thy ===== *)
theory Spool
  imports Capture_Data "HOL-Library.Sublist"
begin

text \<open>
  \<open>spool.py\<close>: the durable store of the bridge for captures the core has not committed. A table is
  the list of its rows in primary-key order; \<open>AUTOINCREMENT\<close> is the last key ever given out. Every
  public method is one SQLite transaction, so an exception leaves the tables as they were. The
  columns are SQLite integers: binding an integer outside the signed 64-bit range raises
  \<open>OverflowError\<close>, and a violated \<open>UNIQUE\<close> or \<open>PRIMARY KEY\<close> raises \<open>IntegrityError\<close>. File
  handling, WAL mode and the exhaustion of the key space at \<open>2^63 - 1\<close> rows are not modelled.

  The theorems: a spooled frame is kept byte for byte, in arrival order, until a receipt that
  matches its identity and CRC arrives; storing is idempotent; committing in order is idempotent;
  and a capture that is spooled again after its commit can never be committed.
\<close>

section \<open>Tables\<close>

definition DELETED :: int where "DELETED = 1"
definition ALREADY_COMMITTED :: int where "ALREADY_COMMITTED = 2"

record PendingCapture =
  pc_record_id :: int
  pc_device_id :: bytes
  pc_boot_id :: bytes
  pc_capture_id :: bytes
  pc_capture_sequence :: int
  pc_source_connection_id :: int
  pc_source_first_stream_offset :: int
  pc_source_last_stream_offset :: int
  pc_inner_frame_crc32 :: int
  pc_inner_frame :: bytes
  pc_stored_utc_ns :: int

record Tombstone =
  ts_record_id :: int
  ts_device_id :: bytes
  ts_boot_id :: bytes
  ts_capture_id :: bytes
  ts_inner_frame_crc32 :: int

record CaptureSpool =
  sp_tombstone_limit :: int
  sp_pending_captures :: "PendingCapture list"
  sp_last_record_id :: int
  sp_committed_tombstones :: "Tombstone list"

text \<open>\<open>CaptureSpool(path, tombstone_limit=n)\<close> on a path without a database.\<close>

definition new_spool :: "int \<Rightarrow> CaptureSpool res" where
  "new_spool tombstone_limit =
     (if tombstone_limit < 1 then Inl ValueError
      else Inr \<lparr>sp_tombstone_limit = tombstone_limit, sp_pending_captures = [],
                sp_last_record_id = 0, sp_committed_tombstones = []\<rparr>)"

type_synonym 'a spool_op = "(CaptureSpool, 'a) meth"

text \<open>Binding an integer parameter of a statement.\<close>

definition sqlite_int :: "int \<Rightarrow> bool" where
  "sqlite_int x \<longleftrightarrow> - (2 ^ 63) \<le> x \<and> x < 2 ^ 63"

type_synonym capture_key = "bytes \<times> bytes \<times> bytes"

definition pc_key :: "PendingCapture \<Rightarrow> capture_key" where
  "pc_key p = (pc_device_id p, pc_boot_id p, pc_capture_id p)"

definition ts_key :: "Tombstone \<Rightarrow> capture_key" where
  "ts_key t = (ts_device_id t, ts_boot_id t, ts_capture_id t)"

section \<open>Operations\<close>

definition store_capture :: "bytes \<Rightarrow> int \<Rightarrow> int \<Rightarrow> int \<Rightarrow> int \<Rightarrow> PendingCapture spool_op" where
  "store_capture inner_frame source_connection_id first_offset last_offset stored_utc_ns =
     mbind (mlift (decode_frame inner_frame)) (\<lambda>frame.
     mbind (mguard (message_type frame = CAPTURE_DATA) ValueError) (\<lambda>_.
     mbind (mguard (last_offset - first_offset + 1 = int (length inner_frame)) ValueError) (\<lambda>_.
     mbind (mlift (decode_capture_data (payload frame))) (\<lambda>capture.
     let inner_crc = crc32_iso_hdlc inner_frame;
         key = (cd_device_id capture, cd_boot_id capture, cd_capture_id capture) in
     mbind mget (\<lambda>s.
     case find (\<lambda>p. pc_key p = key) (sp_pending_captures s) of
       Some pending \<Rightarrow>
         if pc_inner_frame pending \<noteq> inner_frame \<or> pc_inner_frame_crc32 pending \<noteq> inner_crc
         then mraise SpoolConflictError
         else mret pending
     | None \<Rightarrow>
         mbind (mguard (list_all sqlite_int
                  [cd_capture_sequence capture, source_connection_id, first_offset, last_offset,
                   inner_crc, stored_utc_ns]) OverflowError) (\<lambda>_.
         let record_id = sp_last_record_id s + 1;
             row = \<lparr>pc_record_id = record_id, pc_device_id = cd_device_id capture,
                    pc_boot_id = cd_boot_id capture, pc_capture_id = cd_capture_id capture,
                    pc_capture_sequence = cd_capture_sequence capture,
                    pc_source_connection_id = source_connection_id,
                    pc_source_first_stream_offset = first_offset,
                    pc_source_last_stream_offset = last_offset,
                    pc_inner_frame_crc32 = inner_crc, pc_inner_frame = inner_frame,
                    pc_stored_utc_ns = stored_utc_ns\<rparr> in
         mbind (mupd (\<lambda>s. s\<lparr>sp_pending_captures := sp_pending_captures s @ [row],
                            sp_last_record_id := record_id\<rparr>)) (\<lambda>_.
         mret row)))))))"

definition pending_records :: "int \<Rightarrow> PendingCapture list spool_op" where
  "pending_records limit =
     mbind (mguard (1 \<le> limit \<and> limit \<le> 1024) ValueError) (\<lambda>_.
     mbind mget (\<lambda>s. mret (take (nat limit) (sp_pending_captures s))))"

text \<open>
  The final \<open>DELETE\<close>: of the rows of one device, those stay whose key is among the \<open>limit\<close>
  largest.
\<close>

definition newest_ids :: "bytes \<Rightarrow> int \<Rightarrow> Tombstone list \<Rightarrow> int list" where
  "newest_ids device_id limit ts =
     take (nat limit) (rev (sort (map ts_record_id (filter (\<lambda>t. ts_device_id t = device_id) ts))))"

definition prune_tombstones :: "bytes \<Rightarrow> int \<Rightarrow> Tombstone list \<Rightarrow> Tombstone list" where
  "prune_tombstones device_id limit ts =
     filter (\<lambda>t. \<not> (ts_device_id t = device_id \<and>
                   ts_record_id t \<notin> set (newest_ids device_id limit ts))) ts"

definition mark_committed :: "int \<Rightarrow> bytes \<Rightarrow> bytes \<Rightarrow> bytes \<Rightarrow> int \<Rightarrow> int spool_op" where
  "mark_committed record_id device_id boot_id capture_id inner_frame_crc32 =
     mbind (mguard (sqlite_int record_id) OverflowError) (\<lambda>_.
     mbind mget (\<lambda>s.
     case find (\<lambda>p. pc_record_id p = record_id) (sp_pending_captures s) of
       Some p \<Rightarrow>
         mbind (mguard (pc_device_id p = device_id \<and> pc_boot_id p = boot_id \<and>
                  pc_capture_id p = capture_id \<and> pc_inner_frame_crc32 p = inner_frame_crc32)
                SpoolConflictError) (\<lambda>_.
         let t = \<lparr>ts_record_id = record_id, ts_device_id = device_id, ts_boot_id = boot_id,
                  ts_capture_id = capture_id, ts_inner_frame_crc32 = inner_frame_crc32\<rparr> in
         mbind (mguard (list_all (\<lambda>u. ts_record_id u \<noteq> record_id \<and> ts_key u \<noteq> ts_key t)
                  (sp_committed_tombstones s)) IntegrityError) (\<lambda>_.
         mbind (mupd (\<lambda>s. s\<lparr>
             sp_pending_captures := filter (\<lambda>p. pc_record_id p \<noteq> record_id) (sp_pending_captures s),
             sp_committed_tombstones := prune_tombstones device_id (sp_tombstone_limit s)
               (sp_committed_tombstones s @ [t])\<rparr>)) (\<lambda>_.
         mret DELETED)))
     | None \<Rightarrow>
         (case find (\<lambda>t. ts_record_id t = record_id) (sp_committed_tombstones s) of
            None \<Rightarrow> mraise SpoolConflictError
          | Some t \<Rightarrow>
              if ts_device_id t = device_id \<and> ts_boot_id t = boot_id \<and>
                 ts_capture_id t = capture_id \<and> ts_inner_frame_crc32 t = inner_frame_crc32
              then mret ALREADY_COMMITTED else mraise SpoolConflictError)))"

section \<open>Invariant\<close>

text \<open>A pending row says what its frame says.\<close>

definition row_ok :: "PendingCapture \<Rightarrow> bool" where
  "row_ok p \<longleftrightarrow> (\<exists>f c. decode_frame (pc_inner_frame p) = Inr f \<and> message_type f = CAPTURE_DATA \<and>
     decode_capture_data (payload f) = Inr c \<and>
     pc_key p = (cd_device_id c, cd_boot_id c, cd_capture_id c) \<and>
     pc_capture_sequence p = cd_capture_sequence c \<and>
     pc_inner_frame_crc32 p = crc32_iso_hdlc (pc_inner_frame p))"

definition spool_inv :: "CaptureSpool \<Rightarrow> bool" where
  "spool_inv s \<longleftrightarrow> 1 \<le> sp_tombstone_limit s \<and> 0 \<le> sp_last_record_id s \<and>
     sorted_wrt (<) (map pc_record_id (sp_pending_captures s)) \<and>
     list_all (\<lambda>p. 1 \<le> pc_record_id p \<and> pc_record_id p \<le> sp_last_record_id s \<and> row_ok p)
       (sp_pending_captures s) \<and>
     distinct (map pc_key (sp_pending_captures s)) \<and>
     list_all (\<lambda>t. 1 \<le> ts_record_id t \<and> ts_record_id t \<le> sp_last_record_id s)
       (sp_committed_tombstones s) \<and>
     distinct (map ts_record_id (sp_committed_tombstones s)) \<and>
     distinct (map ts_key (sp_committed_tombstones s)) \<and>
     pc_record_id ` set (sp_pending_captures s) \<inter> ts_record_id ` set (sp_committed_tombstones s) = {}"

lemma new_spool_inv: "new_spool n = Inr s \<Longrightarrow> spool_inv s"
  by (auto simp: new_spool_def spool_inv_def split: if_splits)

text \<open>What a successful \<open>store_capture\<close> is: either the row was there, or it is appended.\<close>

lemma store_capture_cases:
  assumes "store_capture inner conn o1 o2 utc s = (r, s')"
  obtains (error) e where "r = Inl e" "s' = s"
    | (known) p where "r = Inr p" "s' = s" "p \<in> set (sp_pending_captures s)" "pc_inner_frame p = inner"
    | (new) p where "r = Inr p" "pc_record_id p = sp_last_record_id s + 1" "pc_inner_frame p = inner"
        "row_ok p" "pc_key p \<notin> pc_key ` set (sp_pending_captures s)"
        "s' = s\<lparr>sp_pending_captures := sp_pending_captures s @ [p], sp_last_record_id := pc_record_id p\<rparr>"
proof (cases r)
  case (Inl e)
  then have "s' = s"
    using assms by (auto simp: store_capture_def mbind_run mguard_run Let_def
        split: sum.splits option.splits if_splits)
  then show thesis using Inl error by blast
next
  case (Inr p)
  then obtain f c where f: "decode_frame inner = Inr f" "message_type f = CAPTURE_DATA"
    and c: "decode_capture_data (payload f) = Inr c"
    using assms by (auto simp: store_capture_def mbind_run mguard_run Let_def split: sum.splits if_splits)
  let ?key = "(cd_device_id c, cd_boot_id c, cd_capture_id c)"
  show thesis
  proof (cases "find (\<lambda>p. pc_key p = ?key) (sp_pending_captures s)")
    case (Some q)
    then have "q \<in> set (sp_pending_captures s)" by (auto dest: find_SomeD)
    then show thesis
      using assms Inr f c Some known by (auto simp: store_capture_def mbind_run mguard_run Let_def split: if_splits)
  next
    case None
    then have "?key \<notin> pc_key ` set (sp_pending_captures s)" by (auto simp: find_None_iff)
    then show thesis
      using assms Inr f c None new [of p]
      by (auto simp: store_capture_def mbind_run mguard_run Let_def row_ok_def pc_key_def split: if_splits)
  qed
qed

lemma store_capture_keeps: "keeps spool_inv (store_capture inner conn o1 o2 utc)"
  unfolding keeps_def
proof (intro allI impI)
  fix s assume inv: "spool_inv s"
  obtain r s' where run: "store_capture inner conn o1 o2 utc s = (r, s')" by force
  then show "spool_inv (snd (store_capture inner conn o1 o2 utc s))"
  proof (cases rule: store_capture_cases)
    case (new p)
    have "\<forall>q \<in> set (sp_pending_captures s). pc_record_id q < pc_record_id p"
      and "\<forall>t \<in> set (sp_committed_tombstones s). ts_record_id t < pc_record_id p"
      using inv new(2) by (auto simp: spool_inv_def list_all_iff)
    then show ?thesis
      using inv new run by (auto simp: spool_inv_def sorted_wrt_append list_all_iff)
  qed (use inv run in simp_all)
qed

lemma set_prune: "set (prune_tombstones d n ts) \<subseteq> set ts"
  by (auto simp: prune_tombstones_def)

lemma distinct_map_prune: "distinct (map f ts) \<Longrightarrow> distinct (map f (prune_tombstones d n ts))"
  by (simp add: prune_tombstones_def distinct_map_filter)

text \<open>The three outcomes of \<open>mark_committed\<close> on a pending record, and the two others.\<close>

definition receipt_matches :: "PendingCapture \<Rightarrow> bytes \<Rightarrow> bytes \<Rightarrow> bytes \<Rightarrow> int \<Rightarrow> bool" where
  "receipt_matches p device_id boot_id capture_id crc \<longleftrightarrow>
     pc_device_id p = device_id \<and> pc_boot_id p = boot_id \<and> pc_capture_id p = capture_id \<and>
     pc_inner_frame_crc32 p = crc"

definition tombstone_of :: "PendingCapture \<Rightarrow> Tombstone" where
  "tombstone_of p = \<lparr>ts_record_id = pc_record_id p, ts_device_id = pc_device_id p,
     ts_boot_id = pc_boot_id p, ts_capture_id = pc_capture_id p,
     ts_inner_frame_crc32 = pc_inner_frame_crc32 p\<rparr>"

definition commit_row :: "PendingCapture \<Rightarrow> CaptureSpool \<Rightarrow> CaptureSpool" where
  "commit_row p s = s\<lparr>
     sp_pending_captures := filter (\<lambda>q. pc_record_id q \<noteq> pc_record_id p) (sp_pending_captures s),
     sp_committed_tombstones := prune_tombstones (pc_device_id p) (sp_tombstone_limit s)
       (sp_committed_tombstones s @ [tombstone_of p])\<rparr>"

lemma mark_committed_cases:
  assumes "mark_committed i d b c crc s = (r, s')"
  obtains (error) e where "r = Inl e" "s' = s"
    | (already) t where "r = Inr ALREADY_COMMITTED" "s' = s" "t \<in> set (sp_committed_tombstones s)"
        "ts_record_id t = i" "ts_key t = (d, b, c)" "ts_inner_frame_crc32 t = crc"
    | (deleted) p where "r = Inr DELETED" "p \<in> set (sp_pending_captures s)" "pc_record_id p = i"
        "receipt_matches p d b c crc" "s' = commit_row p s"
        "ts_record_id ` set (sp_committed_tombstones s) \<inter> {i} = {}"
        "pc_key p \<notin> ts_key ` set (sp_committed_tombstones s)"
proof (cases "find (\<lambda>p. pc_record_id p = i) (sp_pending_captures s)")
  case None
  then show thesis
    using assms error already
    by (cases "find (\<lambda>t. ts_record_id t = i) (sp_committed_tombstones s)")
      (auto simp: mark_committed_def mbind_run mguard_run ts_key_def dest!: find_SomeD split: if_splits)
next
  case (Some p)
  then have p: "p \<in> set (sp_pending_captures s)" "pc_record_id p = i"
    by (auto dest: find_SomeD)
  show thesis
  proof (cases r)
    case (Inl e)
    then show thesis
      using assms Some error
      by (auto simp: mark_committed_def mbind_run mguard_run Let_def split: if_splits)
  next
    case (Inr v)
    then have "v = DELETED" "receipt_matches p d b c crc" "s' = commit_row p s"
      "list_all (\<lambda>u. ts_record_id u \<noteq> i \<and> ts_key u \<noteq> pc_key p) (sp_committed_tombstones s)"
      using assms Some p
      by (auto simp: mark_committed_def mbind_run mguard_run Let_def receipt_matches_def commit_row_def
          tombstone_of_def ts_key_def pc_key_def split: if_splits)
    then show thesis using p deleted [of p] Inr by (fastforce simp: list_all_iff)
  qed
qed

lemma sorted_wrt_map_filter:
  "sorted_wrt (<) (map f xs) \<Longrightarrow> sorted_wrt (<) (map f (filter P xs))"
  by (induction xs) auto

lemma mark_committed_keeps: "keeps spool_inv (mark_committed i d b c crc)"
  unfolding keeps_def
proof (intro allI impI)
  fix s assume inv: "spool_inv s"
  obtain r s' where run: "mark_committed i d b c crc s = (r, s')" by force
  then show "spool_inv (snd (mark_committed i d b c crc s))"
  proof (cases rule: mark_committed_cases)
    case (deleted p)
    let ?ts = "sp_committed_tombstones s @ [tombstone_of p]"
    have ids: "distinct (map ts_record_id ?ts)" and keys: "distinct (map ts_key ?ts)"
      using inv deleted(3,6,7)
      by (auto simp: spool_inv_def tombstone_of_def ts_key_def pc_key_def)
    have range: "list_all (\<lambda>t. 1 \<le> ts_record_id t \<and> ts_record_id t \<le> sp_last_record_id s) ?ts"
      using inv deleted(2) by (auto simp: spool_inv_def list_all_iff tombstone_of_def)
    have disj: "pc_record_id ` set (filter (\<lambda>q. pc_record_id q \<noteq> pc_record_id p) (sp_pending_captures s)) \<inter>
        ts_record_id ` set ?ts = {}"
      using inv by (auto simp: spool_inv_def tombstone_of_def)
    let ?ts' = "prune_tombstones (pc_device_id p) (sp_tombstone_limit s) ?ts"
    have sub: "set ?ts' \<subseteq> set ?ts" by (rule set_prune)
    have range': "list_all (\<lambda>t. 1 \<le> ts_record_id t \<and> ts_record_id t \<le> sp_last_record_id s) ?ts'"
      using range sub unfolding list_all_iff by blast
    have disj': "pc_record_id ` set (filter (\<lambda>q. pc_record_id q \<noteq> pc_record_id p) (sp_pending_captures s)) \<inter>
        ts_record_id ` set ?ts' = {}"
      using disj sub by blast
    have pend: "list_all (\<lambda>p. 1 \<le> pc_record_id p \<and> pc_record_id p \<le> sp_last_record_id s \<and> row_ok p)
        (filter (\<lambda>q. pc_record_id q \<noteq> pc_record_id p) (sp_pending_captures s))"
      using inv by (auto simp: spool_inv_def list_all_iff)
    have "spool_inv (commit_row p s)"
      unfolding spool_inv_def commit_row_def
      using inv pend range' disj' distinct_map_prune [OF ids] distinct_map_prune [OF keys]
      by (simp add: spool_inv_def sorted_wrt_map_filter distinct_map_filter)
    then show ?thesis using run deleted(5) by simp
  qed (use inv run in simp_all)
qed

section \<open>Lookups\<close>

lemma find_unique:
  "distinct (map f xs) \<Longrightarrow> x \<in> set xs \<Longrightarrow> find (\<lambda>y. f y = f x) xs = Some x"
  by (induction xs) (auto simp: image_iff)

lemma strictly_sorted_distinct: "sorted_wrt (<) (xs :: int list) \<Longrightarrow> distinct xs"
  by (induction xs) auto

lemma pending_ids_distinct: "spool_inv s \<Longrightarrow> distinct (map pc_record_id (sp_pending_captures s))"
  by (auto simp: spool_inv_def intro: strictly_sorted_distinct)

lemma newest_contains_max:
  assumes "1 \<le> n" and "t \<in> set ts" "ts_device_id t = d"
    and "\<And>u. u \<in> set ts \<Longrightarrow> ts_device_id u = d \<Longrightarrow> ts_record_id u \<le> ts_record_id t"
  shows "ts_record_id t \<in> set (newest_ids d n ts)"
proof -
  let ?xs = "sort (map ts_record_id (filter (\<lambda>t. ts_device_id t = d) ts))"
  have mem: "ts_record_id t \<in> set ?xs" using assms(2,3) by auto
  then have ne: "?xs \<noteq> []" by (metis empty_iff list.set(1))
  have "last ?xs \<in> set ?xs" using ne last_in_set by blast
  then have "last ?xs \<le> ts_record_id t" using assms(4) by auto
  moreover have "ts_record_id t \<le> last ?xs"
  proof -
    from mem obtain i where i: "i < length ?xs" "?xs ! i = ts_record_id t"
      unfolding in_set_conv_nth by blast
    have "sorted ?xs" by simp
    then have "?xs ! i \<le> ?xs ! (length ?xs - 1)" using i(1) by (intro sorted_nth_mono) auto
    then show ?thesis using i(2) ne by (simp add: last_conv_nth)
  qed
  ultimately have "hd (rev ?xs) = ts_record_id t" using ne by (simp add: hd_rev)
  moreover have "hd (rev ?xs) \<in> set (take (nat n) (rev ?xs))"
    using ne assms(1) by (cases "rev ?xs") (auto simp: take_Cons')
  ultimately show ?thesis by (simp add: newest_ids_def)
qed

lemma find_in_tombstones:
  "distinct (map ts_record_id ts) \<Longrightarrow> t \<in> set ts \<Longrightarrow> find (\<lambda>u. ts_record_id u = ts_record_id t) ts = Some t"
  by (rule find_unique)

section \<open>A frame for the witnesses\<close>

lemma capture_frame_exists:
  "\<exists>inner. decode_frame inner = Inr (mk_frame CAPTURE_DATA 1
      (case encode_capture_data tiny_capture of Inr b \<Rightarrow> b | Inl e \<Rightarrow> []) FLAG_ASYNC) \<and>
    decode_capture_data (case encode_capture_data tiny_capture of Inr b \<Rightarrow> b | Inl e \<Rightarrow> []) = Inr tiny_capture"
proof -
  obtain b where b: "encode_capture_data tiny_capture = Inr b" using tiny_capture_encodes by blast
  have "length b = 210" using encode_capture_length [OF b] by (simp add: tiny_capture_def)
  then have "frame_ok (mk_frame CAPTURE_DATA 1 b FLAG_ASYNC)"
    by (simp add: frame_ok_def PROTOCOL_VERSION_def flag_defs)
  then show ?thesis using decode_frame_bytes capture_codec.dec_enc [OF b] b by auto
qed

lemma demo_store:
  obtains inner s0 p s where "new_spool 1 = Inr s0" "spool_inv s0"
    "store_capture inner 1 0 (int (length inner) - 1) 5 s0 = (Inr p, s)" "spool_inv s"
    "sp_pending_captures s = [p]" "pc_record_id p = 1" "sp_committed_tombstones s = []"
    "sp_tombstone_limit s = 1"
proof -
  obtain inner where inner: "decode_frame inner = Inr (mk_frame CAPTURE_DATA 1
      (case encode_capture_data tiny_capture of Inr b \<Rightarrow> b | Inl e \<Rightarrow> []) FLAG_ASYNC)"
    "decode_capture_data (case encode_capture_data tiny_capture of Inr b \<Rightarrow> b | Inl e \<Rightarrow> []) = Inr tiny_capture"
    using capture_frame_exists by blast
  define s0 where "s0 = \<lparr>sp_tombstone_limit = 1, sp_pending_captures = [],
                sp_last_record_id = 0, sp_committed_tombstones = []\<rparr>"
  have n: "new_spool 1 = Inr s0" by (simp add: new_spool_def s0_def)
  have len: "length inner \<le> 8212"
    using inner(1) decode_frame_iff [of inner] by (auto simp: frame_ok_def)
  have ints: "sqlite_int (crc32_iso_hdlc inner)" "sqlite_int (int (length inner) - 1)"
    using len order_trans [OF _ crc32_iso_hdlc_bounds(1), of "- 9223372036854775808" inner]
      less_trans [OF crc32_iso_hdlc_bounds(2), of 9223372036854775808 inner] by (simp_all add: sqlite_int_def)
  then obtain p s where st: "store_capture inner 1 0 (int (length inner) - 1) 5 s0 = (Inr p, s)"
    using inner by (simp add: store_capture_def mbind_run mguard_run Let_def s0_def tiny_capture_def sqlite_int_def)
  have inv: "spool_inv s" using keepsD [OF store_capture_keeps new_spool_inv [OF n]] st by (metis snd_conv)
  from st have "sp_pending_captures s = [p]" "pc_record_id p = 1" "sp_committed_tombstones s = []"
    "sp_tombstone_limit s = 1"
    by (cases rule: store_capture_cases; simp add: s0_def)+
  then show thesis using that [OF n new_spool_inv [OF n] st inv] by blast
qed

section \<open>Properties\<close>

text \<open>C13 (safety). A spooled frame is only ever removed by its own receipt. In a consistent spool, no
  \<open>store_capture\<close> and no \<open>mark_committed\<close> touches a pending row, except a \<open>mark_committed\<close> that
  names the row's key and carries its device, boot and capture identity and its CRC; and the rows
  that remain keep their order.\<close>

theorem pending_until_matching_receipt:
  assumes "spool_inv s" and "p \<in> set (sp_pending_captures s)"
  shows "p \<in> set (sp_pending_captures (snd (store_capture inner conn o1 o2 utc s))) \<and>
    (case mark_committed i d b c crc s of (r, s') \<Rightarrow>
       subseq (sp_pending_captures s') (sp_pending_captures s) \<and>
       (p \<in> set (sp_pending_captures s') \<or>
        r = Inr DELETED \<and> i = pc_record_id p \<and> d = pc_device_id p \<and> b = pc_boot_id p \<and>
        c = pc_capture_id p \<and> crc = pc_inner_frame_crc32 p))"
proof
  obtain r s' where run: "store_capture inner conn o1 o2 utc s = (r, s')" by force
  then show "p \<in> set (sp_pending_captures (snd (store_capture inner conn o1 o2 utc s)))"
    by (cases rule: store_capture_cases) (use assms(2) run in simp_all)
  obtain q t where com: "mark_committed i d b c crc s = (q, t)" by force
  then show "case mark_committed i d b c crc s of (r, s') \<Rightarrow>
       subseq (sp_pending_captures s') (sp_pending_captures s) \<and>
       (p \<in> set (sp_pending_captures s') \<or>
        r = Inr DELETED \<and> i = pc_record_id p \<and> d = pc_device_id p \<and> b = pc_boot_id p \<and>
        c = pc_capture_id p \<and> crc = pc_inner_frame_crc32 p)"
  proof (cases rule: mark_committed_cases)
    case (deleted p')
    show ?thesis
    proof (cases "pc_record_id p = pc_record_id p'")
      case True
      have "inj_on pc_record_id (set (sp_pending_captures s))"
        using pending_ids_distinct [OF assms(1)] by (simp add: distinct_map)
      then have "p = p'" using True assms(2) deleted(2) by (rule inj_onD)
      then show ?thesis
        using com deleted by (auto simp: commit_row_def receipt_matches_def subseq_filter_left)
    next
      case False
      then show ?thesis
        using com deleted assms(2) by (auto simp: commit_row_def subseq_filter_left)
    qed
  qed (use com assms(2) in simp_all)
qed

theorem pending_until_matching_receipt_witness:
  "\<exists>s p. spool_inv s \<and> p \<in> set (sp_pending_captures s) \<and>
     p \<in> set (sp_pending_captures (snd (store_capture [] 1 0 9 5 s)))"
proof -
  obtain inner s0 p s where "spool_inv s" "sp_pending_captures s = [p]"
    using demo_store by metis
  then have h: "spool_inv s" "p \<in> set (sp_pending_captures s)" by simp_all
  show ?thesis using h pending_until_matching_receipt [OF h, of "[]" 1 0 9 5] by blast
qed

text \<open>Storing is durable and idempotent: when \<open>store_capture\<close> returns, the returned row holds
  exactly the given bytes and is pending behind everything that was pending before; storing the
  same bytes again, from another connection or at another time, returns the same row and changes
  nothing.\<close>

theorem store_capture_durable_idempotent:
  assumes "spool_inv s" and "store_capture inner conn o1 o2 utc s = (Inr p, s')"
    and "o2' - o1' + 1 = int (length inner)"
  shows "pc_inner_frame p = inner \<and> p \<in> set (sp_pending_captures s') \<and>
    prefix (sp_pending_captures s) (sp_pending_captures s') \<and> spool_inv s' \<and>
    store_capture inner conn' o1' o2' utc' s' = (Inr p, s')"
proof -
  have inv: "spool_inv s'"
    using keepsD [OF store_capture_keeps assms(1)] assms(2) by (metis snd_conv)
  from assms(2) have p: "pc_inner_frame p = inner" "p \<in> set (sp_pending_captures s')"
    "prefix (sp_pending_captures s) (sp_pending_captures s')"
    by (cases rule: store_capture_cases; auto)+
  have "row_ok p" using inv p(2) by (auto simp: spool_inv_def list_all_iff)
  then obtain f c where f: "decode_frame inner = Inr f" "message_type f = CAPTURE_DATA"
    "decode_capture_data (payload f) = Inr c" "pc_key p = (cd_device_id c, cd_boot_id c, cd_capture_id c)"
    "pc_inner_frame_crc32 p = crc32_iso_hdlc inner"
    using p(1) by (auto simp: row_ok_def)
  have "find (\<lambda>q. pc_key q = pc_key p) (sp_pending_captures s') = Some p"
    using inv p(2) by (intro find_unique) (simp_all add: spool_inv_def)
  then have "store_capture inner conn' o1' o2' utc' s' = (Inr p, s')"
    using f p(1) assms(3) by (simp add: store_capture_def mbind_run mguard_run Let_def)
  then show ?thesis using p inv by blast
qed

theorem store_capture_durable_idempotent_witness:
  "\<exists>inner s p s'. spool_inv s \<and> store_capture inner 1 0 (int (length inner) - 1) 5 s = (Inr p, s') \<and>
     pc_inner_frame p = inner \<and> store_capture inner 9 100 (99 + int (length inner)) 77 s' = (Inr p, s')"
proof -
  obtain inner s0 p s where h: "spool_inv s0"
    "store_capture inner 1 0 (int (length inner) - 1) 5 s0 = (Inr p, s)"
    using demo_store by metis
  have o: "99 + int (length inner) - 100 + 1 = int (length inner)" by simp
  show ?thesis using h store_capture_durable_idempotent [OF h o, of 9 77] by blast
qed

text \<open>Committing is idempotent while records are committed in order: if the receipt for \<open>p\<close> is
  accepted when \<open>p\<close> is newer than every tombstone of its device, then the row is gone, and
  repeating the receipt answers ALREADY\_COMMITTED and changes nothing, whatever the tombstone
  limit.\<close>

theorem in_order_commit_idempotent:
  assumes "spool_inv s" and "mark_committed i d b c crc s = (Inr DELETED, s')"
    and "list_all (\<lambda>t. ts_device_id t = d \<longrightarrow> ts_record_id t < i) (sp_committed_tombstones s)"
  shows "i \<notin> pc_record_id ` set (sp_pending_captures s') \<and>
    mark_committed i d b c crc s' = (Inr ALREADY_COMMITTED, s')"
  using assms(2)
proof (cases rule: mark_committed_cases)
  case (deleted p)
  let ?ts = "sp_committed_tombstones s @ [tombstone_of p]"
  have inv: "spool_inv s'" using keepsD [OF mark_committed_keeps assms(1)] assms(2) by (metis snd_conv)
  have d: "pc_device_id p = d" using deleted(4) by (simp add: receipt_matches_def)
  have "ts_record_id (tombstone_of p) \<in> set (newest_ids d (sp_tombstone_limit s) ?ts)"
  proof (rule newest_contains_max)
    show "1 \<le> sp_tombstone_limit s" using assms(1) by (simp add: spool_inv_def)
    show "ts_device_id (tombstone_of p) = d" by (simp add: tombstone_of_def d)
    show "ts_record_id u \<le> ts_record_id (tombstone_of p)" if "u \<in> set ?ts" "ts_device_id u = d" for u
      using that assms(3) deleted(3) by (auto simp: list_all_iff tombstone_of_def)
  qed simp
  then have "tombstone_of p \<in> set (sp_committed_tombstones s')"
    by (simp add: deleted(5) commit_row_def prune_tombstones_def d)
  then have t: "find (\<lambda>t. ts_record_id t = i) (sp_committed_tombstones s') = Some (tombstone_of p)"
    using find_in_tombstones [of "sp_committed_tombstones s'" "tombstone_of p"] inv deleted(3)
    by (simp add: spool_inv_def tombstone_of_def)
  have gone: "i \<notin> pc_record_id ` set (sp_pending_captures s')"
    using deleted(3) by (auto simp: deleted(5) commit_row_def)
  then have "find (\<lambda>p. pc_record_id p = i) (sp_pending_captures s') = None"
    by (auto simp: find_None_iff)
  moreover have "sqlite_int i"
    using assms(2) by (auto simp: mark_committed_def mbind_run mguard_run split: if_splits)
  ultimately show ?thesis
    using t deleted(4) gone
    by (simp add: mark_committed_def mbind_run mguard_run tombstone_of_def receipt_matches_def)
qed (simp_all add: DELETED_def ALREADY_COMMITTED_def)

lemma commit_first:
  assumes "sp_pending_captures s = [p]" "pc_record_id p = 1" "sp_committed_tombstones s = []"
    "sp_tombstone_limit s = 1"
  shows "mark_committed 1 (pc_device_id p) (pc_boot_id p) (pc_capture_id p) (pc_inner_frame_crc32 p) s =
    (Inr DELETED, s\<lparr>sp_pending_captures := [], sp_committed_tombstones := [tombstone_of p]\<rparr>)"
  using assms
  by (simp add: mark_committed_def mbind_run mguard_run Let_def sqlite_int_def prune_tombstones_def newest_ids_def
      tombstone_of_def)

theorem in_order_commit_idempotent_witness:
  "\<exists>s s' d b c crc. spool_inv s \<and> mark_committed 1 d b c crc s = (Inr DELETED, s') \<and>
     mark_committed 1 d b c crc s' = (Inr ALREADY_COMMITTED, s')"
proof -
  obtain inner s0 p s where d: "spool_inv s" "sp_pending_captures s = [p]" "pc_record_id p = 1"
    "sp_committed_tombstones s = []" "sp_tombstone_limit s = 1"
    using demo_store by metis
  note m = commit_first [OF d(2-5)]
  show ?thesis
    using d(1) m in_order_commit_idempotent [OF d(1) m] d(4) by (intro exI conjI) auto
qed

lemma commit_tombstoned_fails:
  assumes "spool_inv s" "p \<in> set (sp_pending_captures s)" "sqlite_int (pc_record_id p)"
    and "pc_key p \<in> ts_key ` set (sp_committed_tombstones s)"
  shows "mark_committed (pc_record_id p) (pc_device_id p) (pc_boot_id p) (pc_capture_id p)
      (pc_inner_frame_crc32 p) s = (Inl IntegrityError, s)"
proof -
  have "find (\<lambda>q. pc_record_id q = pc_record_id p) (sp_pending_captures s) = Some p"
    by (rule find_unique [OF pending_ids_distinct [OF assms(1)] assms(2)])
  moreover obtain u where "u \<in> set (sp_committed_tombstones s)" "ts_key u = pc_key p"
    using assms(4) by force
  then have "\<not> list_all (\<lambda>u. ts_record_id u \<noteq> pc_record_id p \<and>
      ts_key u \<noteq> (pc_device_id p, pc_boot_id p, pc_capture_id p)) (sp_committed_tombstones s)"
    by (auto simp: list_all_iff pc_key_def)
  moreover have "ts_key \<lparr>ts_record_id = i, ts_device_id = d, ts_boot_id = b, ts_capture_id = c,
      ts_inner_frame_crc32 = r\<rparr> = (d, b, c)" for i d b c r
    by (simp add: ts_key_def)
  ultimately show ?thesis
    using assms(3) by (simp add: mark_committed_def mbind_run mguard_run Let_def)
qed

text \<open>C39 (error). A capture that is spooled again after its commit is stuck: if a pending row has the identity of
  a tombstone, then its own, fully matching receipt raises \<open>IntegrityError\<close> and changes nothing, so
  the row stays at the head of the spool. (The witness reaches this state from an empty spool by
  storing, committing and storing the same frame.)\<close>

theorem respooled_capture_cannot_be_committed:
  assumes "spool_inv s" and "p \<in> set (sp_pending_captures s)" and "sqlite_int (pc_record_id p)"
    and "pc_key p \<in> ts_key ` set (sp_committed_tombstones s)"
  shows "mark_committed (pc_record_id p) (pc_device_id p) (pc_boot_id p) (pc_capture_id p)
      (pc_inner_frame_crc32 p) s = (Inl IntegrityError, s)"
  using assms by (rule commit_tombstoned_fails)

theorem respooled_capture_cannot_be_committed_witness:
  "\<exists>inner s0 p1 s1 s2 p2 s3. new_spool 1 = Inr s0 \<and>
     store_capture inner 1 0 (int (length inner) - 1) 5 s0 = (Inr p1, s1) \<and>
     mark_committed 1 (pc_device_id p1) (pc_boot_id p1) (pc_capture_id p1) (pc_inner_frame_crc32 p1) s1 =
       (Inr DELETED, s2) \<and>
     store_capture inner 1 0 (int (length inner) - 1) 5 s2 = (Inr p2, s3) \<and>
     mark_committed (pc_record_id p2) (pc_device_id p2) (pc_boot_id p2) (pc_capture_id p2)
       (pc_inner_frame_crc32 p2) s3 = (Inl IntegrityError, s3)"
proof -
  obtain inner s0 p1 s1 where d: "new_spool 1 = Inr s0"
    "store_capture inner 1 0 (int (length inner) - 1) 5 s0 = (Inr p1, s1)" "spool_inv s1"
    "sp_pending_captures s1 = [p1]" "pc_record_id p1 = 1" "sp_committed_tombstones s1 = []"
    "sp_tombstone_limit s1 = 1"
    using demo_store by metis
  note m = commit_first [OF d(4-7)]
  define s2 where "s2 = s1\<lparr>sp_pending_captures := [], sp_committed_tombstones := [tombstone_of p1]\<rparr>"
  have inv2: "spool_inv s2" using keepsD [OF mark_committed_keeps d(3)] m unfolding s2_def by (metis snd_conv)
  from d(2) have again: "\<exists>p2 s3. store_capture inner 1 0 (int (length inner) - 1) 5 s2 = (Inr p2, s3) \<and>
      sp_pending_captures s3 = [p2] \<and> pc_key p2 = pc_key p1 \<and> pc_record_id p2 = sp_last_record_id s2 + 1 \<and>
      sp_committed_tombstones s3 = [tombstone_of p1]"
    using d(1) by (auto simp: store_capture_def mbind_run mguard_run Let_def s2_def new_spool_def pc_key_def
        split: sum.splits if_splits)
  then obtain p2 s3 where st: "store_capture inner 1 0 (int (length inner) - 1) 5 s2 = (Inr p2, s3)"
    and s3: "sp_pending_captures s3 = [p2]" "pc_key p2 = pc_key p1" "pc_record_id p2 = sp_last_record_id s2 + 1"
      "sp_committed_tombstones s3 = [tombstone_of p1]"
    by blast
  have inv3: "spool_inv s3" using keepsD [OF store_capture_keeps inv2] st by (metis snd_conv)
  from d(2) have "sp_last_record_id s1 = 1"
    by (cases rule: store_capture_cases) (use d in \<open>auto simp: new_spool_def\<close>)
  then have i: "sqlite_int (pc_record_id p2)" by (simp add: s3 s2_def sqlite_int_def)
  have k: "pc_key p2 \<in> ts_key ` set (sp_committed_tombstones s3)"
    using s3(2) by (simp add: s3(4) pc_key_def ts_key_def tombstone_of_def)
  have "p2 \<in> set (sp_pending_captures s3)" by (simp add: s3)
  note stuck = respooled_capture_cannot_be_committed [OF inv3 this i k]
  show ?thesis using d(1,2) m st stuck unfolding s2_def by blast
qed

end
