(* ===== verification/Utf8.thy ===== *)
theory Utf8
  imports Struct_Codec
begin

text \<open>
  Python's strict UTF-8 codec (\<open>str.encode("utf-8")\<close>, \<open>bytes.decode("utf-8")\<close>). A \<open>str\<close> is its
  list of code points; a lone surrogate, which a \<open>str\<close> may hold, cannot be encoded, and the
  decoder refuses truncated, overlong, surrogate and out-of-range sequences. The codec is canonical.
\<close>

type_synonym pystr = "nat list"

definition scalar :: "nat \<Rightarrow> bool" where
  "scalar cp \<longleftrightarrow> cp < 0x110000 \<and> \<not> (0xD800 \<le> cp \<and> cp \<le> 0xDFFF)"

definition utf8_units :: "nat \<Rightarrow> nat list" where
  "utf8_units cp =
     (if cp < 0x80 then [cp]
      else if cp < 0x800 then [0xC0 + cp div 64, 0x80 + cp mod 64]
      else if cp < 0x10000 then [0xE0 + cp div 4096, 0x80 + cp div 64 mod 64, 0x80 + cp mod 64]
      else [0xF0 + cp div 262144, 0x80 + cp div 4096 mod 64, 0x80 + cp div 64 mod 64, 0x80 + cp mod 64])"

definition utf8_encode :: "pystr \<Rightarrow> bytes res" where
  "utf8_encode s = (if list_all scalar s then Inr (map of_nat (concat (map utf8_units s)))
                    else Inl UnicodeError)"

definition cont :: "nat \<Rightarrow> bool" where
  "cont c \<longleftrightarrow> 0x80 \<le> c \<and> c < 0xC0"

text \<open>One code point at the head of the input, and what follows it.\<close>

definition utf8_next :: "nat \<Rightarrow> nat list \<Rightarrow> (nat \<times> nat list) option" where
  "utf8_next x xs =
     (if x < 0x80 then Some (x, xs)
      else if 0xC2 \<le> x \<and> x < 0xE0 then
        (case xs of
           c1 # r \<Rightarrow> if cont c1 then Some ((x - 0xC0) * 64 + (c1 - 0x80), r) else None
         | _ \<Rightarrow> None)
      else if 0xE0 \<le> x \<and> x < 0xF0 then
        (case xs of
           c1 # c2 # r \<Rightarrow>
             let cp = (x - 0xE0) * 4096 + (c1 - 0x80) * 64 + (c2 - 0x80) in
             if cont c1 \<and> cont c2 \<and> 0x800 \<le> cp \<and> scalar cp then Some (cp, r) else None
         | _ \<Rightarrow> None)
      else if 0xF0 \<le> x \<and> x < 0xF5 then
        (case xs of
           c1 # c2 # c3 # r \<Rightarrow>
             let cp = (x - 0xF0) * 262144 + (c1 - 0x80) * 4096 + (c2 - 0x80) * 64 + (c3 - 0x80) in
             if cont c1 \<and> cont c2 \<and> cont c3 \<and> 0x10000 \<le> cp \<and> scalar cp then Some (cp, r) else None
         | _ \<Rightarrow> None)
      else None)"

lemma utf8_next_length: "utf8_next x xs = Some (cp, r) \<Longrightarrow> length r \<le> length xs"
  by (auto simp: utf8_next_def Let_def split: if_splits list.splits)

function utf8_decode_units :: "nat list \<Rightarrow> pystr res" where
  "utf8_decode_units [] = Inr []"
| "utf8_decode_units (x # xs) =
     (case utf8_next x xs of
        None \<Rightarrow> Inl UnicodeError
      | Some (cp, r) \<Rightarrow> rbind (utf8_decode_units r) (\<lambda>s. Inr (cp # s)))"
  by pat_completeness auto
termination
  by (relation "measure length") (auto dest!: utf8_next_length)

definition utf8_decode :: "bytes \<Rightarrow> pystr res" where
  "utf8_decode bs = utf8_decode_units (map unat bs)"

section \<open>Both directions\<close>

lemma digits64:
  "(n :: nat) div 64 * 64 + n mod 64 = n"
  "n div 4096 * 4096 + n div 64 mod 64 * 64 + n mod 64 = n"
  "n div 262144 * 262144 + n div 4096 mod 64 * 4096 + n div 64 mod 64 * 64 + n mod 64 = n"
proof -
  have a: "n div 64 * 64 + n mod 64 = n" for n :: nat by simp
  have b: "n div 4096 = n div 64 div 64" "n div 262144 = n div 64 div 64 div 64"
    by (simp_all add: div_mult2_eq [symmetric])
  show "n div 64 * 64 + n mod 64 = n" by (rule a)
  show "n div 4096 * 4096 + n div 64 mod 64 * 64 + n mod 64 = n"
    using a [of n] a [of "n div 64"] unfolding b by linarith
  show "n div 262144 * 262144 + n div 4096 mod 64 * 4096 + n div 64 mod 64 * 64 + n mod 64 = n"
    using a [of n] a [of "n div 64"] a [of "n div 64 div 64"] unfolding b by linarith
qed

lemma utf8_next_units:
  assumes "scalar cp"
  shows "\<exists>x xs. utf8_units cp = x # xs \<and> utf8_next x (xs @ r) = Some (cp, r)"
proof -
  have d: "cp div 64 < n" if "cp < 64 * n" for n
    using that by (simp add: div_less_iff_less_mult mult.commute)
  consider "cp < 0x80" | "0x80 \<le> cp" "cp < 0x800" | "0x800 \<le> cp" "cp < 0x10000" | "0x10000 \<le> cp"
    by linarith
  then show ?thesis
  proof cases
    case 2
    have "2 \<le> cp div 64" using 2 by simp
    moreover have "cp div 64 < 32" using d [of 32] 2 by simp
    ultimately show ?thesis using 2 digits64(1) [of cp]
      by (simp add: utf8_units_def utf8_next_def cont_def) (simp add: div_less_iff_less_mult)
  next
    case 3
    then have "cp div 4096 < 16" by simp
    then show ?thesis
      using 3 digits64(2) [of cp] assms by (simp add: utf8_units_def utf8_next_def cont_def Let_def)
  next
    case 4
    then have "cp div 262144 < 5" using assms by (simp add: scalar_def)
    then show ?thesis
      using 4 digits64(3) [of cp] assms by (simp add: utf8_units_def utf8_next_def cont_def Let_def)
  qed (simp_all add: utf8_units_def utf8_next_def)
qed

lemma mult64_digits:
  fixes a b c :: nat
  assumes "b < 64" "c < 64" "d < 64"
  shows "(a * 64 + b) div 64 = a" "(a * 64 + b) mod 64 = b"
    "(a * 4096 + b * 64 + c) div 4096 = a" "(a * 4096 + b * 64 + c) div 64 mod 64 = b"
    "(a * 4096 + b * 64 + c) mod 64 = c"
    "(a * 262144 + b * 4096 + c * 64 + d) div 262144 = a"
    "(a * 262144 + b * 4096 + c * 64 + d) div 4096 mod 64 = b"
    "(a * 262144 + b * 4096 + c * 64 + d) div 64 mod 64 = c"
    "(a * 262144 + b * 4096 + c * 64 + d) mod 64 = d"
proof -
  have s: "(u * 64 + v) div 64 = u" "(u * 64 + v) mod 64 = v" if "v < 64" for u v :: nat
    using that by simp_all
  have r3: "a * 4096 + b * 64 + c = (a * 64 + b) * 64 + c"
    and r4: "a * 262144 + b * 4096 + c * 64 + d = ((a * 64 + b) * 64 + c) * 64 + d" by simp_all
  have q: "n div 4096 = n div 64 div 64" "n div 262144 = n div 64 div 64 div 64" for n :: nat
    by (simp_all add: div_mult2_eq [symmetric])
  show "(a * 64 + b) div 64 = a" "(a * 64 + b) mod 64 = b" using s assms by blast+
  show "(a * 4096 + b * 64 + c) div 4096 = a" "(a * 4096 + b * 64 + c) div 64 mod 64 = b"
    "(a * 4096 + b * 64 + c) mod 64 = c"
    unfolding r3 q using assms by (simp_all only: s)
  show "(a * 262144 + b * 4096 + c * 64 + d) div 262144 = a"
    "(a * 262144 + b * 4096 + c * 64 + d) div 4096 mod 64 = b"
    "(a * 262144 + b * 4096 + c * 64 + d) div 64 mod 64 = c"
    "(a * 262144 + b * 4096 + c * 64 + d) mod 64 = d"
    unfolding r4 q using assms by (simp_all only: s)
qed

lemma utf8_next_SomeD:
  assumes "utf8_next x xs = Some (cp, r)"
  shows "x # xs = utf8_units cp @ r" and "scalar cp"
proof -
  have c: "c - 0x80 < 64" "0x80 + (c - 0x80) = c" if "cont c" for c
    using that by (auto simp: cont_def)
  consider (one) "x < 0x80" "cp = x" "r = xs"
    | (two) c1 where "0xC2 \<le> x" "x < 0xE0" "xs = c1 # r" "cont c1" "cp = (x - 0xC0) * 64 + (c1 - 0x80)"
    | (three) c1 c2 where "0xE0 \<le> x" "x < 0xF0" "xs = c1 # c2 # r" "cont c1" "cont c2"
        "cp = (x - 0xE0) * 4096 + (c1 - 0x80) * 64 + (c2 - 0x80)" "0x800 \<le> cp" "scalar cp"
    | (four) c1 c2 c3 where "0xF0 \<le> x" "x < 0xF5" "xs = c1 # c2 # c3 # r" "cont c1" "cont c2" "cont c3"
        "cp = (x - 0xF0) * 262144 + (c1 - 0x80) * 4096 + (c2 - 0x80) * 64 + (c3 - 0x80)"
        "0x10000 \<le> cp" "scalar cp"
    using assms by (auto simp: utf8_next_def Let_def split: if_splits list.splits)
  then have "x # xs = utf8_units cp @ r \<and> scalar cp"
  proof cases
    case one
    then show ?thesis by (simp add: utf8_units_def scalar_def)
  next
    case two
    have "cp div 64 = x - 0xC0" "cp mod 64 = c1 - 0x80"
      using two c(1) [OF two(4)] by (simp_all only: mult64_digits)
    moreover have "0x80 \<le> cp" "cp < 0x800"
      using two c(1) [OF two(4)] by simp_all
    moreover from this have "utf8_units cp = [0xC0 + cp div 64, 0x80 + cp mod 64]" "scalar cp"
      by (simp_all add: utf8_units_def scalar_def)
    moreover have "0xC0 + (x - 0xC0) = x" using two(1) by simp
    ultimately show ?thesis using c(2) [OF two(4)] two(3) by simp
  next
    case three
    have "cp div 4096 = x - 0xE0" "cp div 64 mod 64 = c1 - 0x80" "cp mod 64 = c2 - 0x80"
      using three c(1) [OF three(4)] c(1) [OF three(5)] by (simp_all only: mult64_digits)
    moreover have "cp < 0x10000"
    proof -
      have "x - 0xE0 \<le> 15" "c1 - 0x80 \<le> 63" "c2 - 0x80 \<le> 63"
        using three(2) c(1) [OF three(4)] c(1) [OF three(5)] by simp_all
      then show ?thesis unfolding three(6) by linarith
    qed
    moreover from this three(7) have "utf8_units cp =
        [0xE0 + cp div 4096, 0x80 + cp div 64 mod 64, 0x80 + cp mod 64]"
      by (simp add: utf8_units_def)
    moreover have "0xE0 + (x - 0xE0) = x" using three(1) by simp
    ultimately show ?thesis
      using c(2) [OF three(4)] c(2) [OF three(5)] three(3,8) by simp
  next
    case four
    have "cp div 262144 = x - 0xF0" "cp div 4096 mod 64 = c1 - 0x80" "cp div 64 mod 64 = c2 - 0x80"
      "cp mod 64 = c3 - 0x80"
      using four c(1) [OF four(4)] c(1) [OF four(5)] c(1) [OF four(6)] by (simp_all only: mult64_digits)
    moreover from four(8) have "utf8_units cp = [0xF0 + cp div 262144, 0x80 + cp div 4096 mod 64,
        0x80 + cp div 64 mod 64, 0x80 + cp mod 64]"
      by (simp add: utf8_units_def)
    moreover have "0xF0 + (x - 0xF0) = x" using four(1) by simp
    ultimately show ?thesis
      using c(2) [OF four(4)] c(2) [OF four(5)] c(2) [OF four(6)] four(3,9) by simp
  qed
  then show "x # xs = utf8_units cp @ r" and "scalar cp" by blast+
qed

lemma utf8_decode_units_encode:
  "list_all scalar s \<Longrightarrow> utf8_decode_units (concat (map utf8_units s)) = Inr s"
proof (induction s)
  case (Cons cp s)
  obtain x xs where "utf8_units cp = x # xs"
    and "utf8_next x (xs @ concat (map utf8_units s)) = Some (cp, concat (map utf8_units s))"
    using utf8_next_units [of cp "concat (map utf8_units s)"] Cons.prems by auto
  then show ?case using Cons by simp
qed simp

lemma utf8_decode_units_okD:
  "utf8_decode_units us = Inr s \<Longrightarrow> us = concat (map utf8_units s) \<and> list_all scalar s"
proof (induction us arbitrary: s rule: utf8_decode_units.induct)
  case (2 x xs)
  then obtain cp r s' where n: "utf8_next x xs = Some (cp, r)" and r: "utf8_decode_units r = Inr s'"
    and s: "s = cp # s'"
    by (auto split: option.splits)
  have "r = concat (map utf8_units s') \<and> list_all scalar s'"
    using "2.IH" [OF n refl r] .
  then show ?case using utf8_next_SomeD [OF n] s by simp
qed simp

lemma utf8_units_bytes: "scalar cp \<Longrightarrow> list_all (\<lambda>u. u < 256) (utf8_units cp)"
  by (auto simp: utf8_units_def scalar_def div_less_iff_less_mult)

lemma map_unat_of_nat: "list_all (\<lambda>u. u < 256) us \<Longrightarrow> map unat (map of_nat us :: bytes) = us"
  by (induction us) (simp_all add: unat_of_nat)

interpretation utf8: canonical_codec utf8_encode utf8_decode
proof unfold_locales
  show "utf8_decode bs = Inr s" if "utf8_encode s = Inr bs" for s bs
  proof -
    have ok: "list_all scalar s" and bs: "bs = map of_nat (concat (map utf8_units s))"
      using that by (auto simp: utf8_encode_def split: if_splits)
    have "list_all (\<lambda>u. u < 256) (concat (map utf8_units s))"
      using ok utf8_units_bytes by (fastforce simp: list_all_iff)
    then show ?thesis
      unfolding utf8_decode_def bs by (simp only: map_unat_of_nat utf8_decode_units_encode [OF ok])
  qed
  show "utf8_encode s = Inr bs" if "utf8_decode bs = Inr s" for s bs
  proof -
    have "map unat bs = concat (map utf8_units s)" and "list_all scalar s"
      using utf8_decode_units_okD that by (auto simp: utf8_decode_def)
    moreover have "map of_nat (map unat bs) = bs" by (simp add: comp_def)
    ultimately show ?thesis by (simp add: utf8_encode_def)
  qed
qed

lemma utf8_decode_error: "utf8_decode bs = Inl e \<Longrightarrow> e = UnicodeError"
proof -
  have "utf8_decode_units us = Inl e \<Longrightarrow> e = UnicodeError" for us
    by (induction us rule: utf8_decode_units.induct) (auto split: option.splits simp: rbind_Inl_iff)
  then show "utf8_decode bs = Inl e \<Longrightarrow> e = UnicodeError" by (simp add: utf8_decode_def)
qed

end
