(* ===== verification/Messages.thy ===== *)
theory Messages
  imports Message_Codec Utf8 Config_V2 Message_Lengths
begin

text \<open>
  \<open>messages.py\<close>: the typed payload codecs of the device commands and responses. A dataclass is a
  record whose fields carry a short prefix of the message (several dataclasses share field names);
  \<open>encode_x\<close> and \<open>decode_x\<close> follow the source statement by statement, \<open>x_layout\<close> is the
  struct format and \<open>x_of\<close> the constructor applied to the unpacked tuple. Each codec interprets the
  locales of \<open>Message_Codec\<close>.
\<close>

section \<open>HELLO\<close>

record HelloRequest =
  hq_host_nonce :: bytes
  hq_min_version :: int
  hq_max_version :: int

definition hello_request_layout :: "fmt list" where
  "hello_request_layout = [Fs 16, FB, FB, FH]"

definition encode_hello_request :: "HelloRequest \<Rightarrow> bytes res" where
  "encode_hello_request m =
     rbind (fixed_bytes (hq_host_nonce m) 16) (\<lambda>nonce.
     if \<not> (0 \<le> hq_min_version m \<and> hq_min_version m \<le> hq_max_version m \<and> hq_max_version m \<le> 0xFF)
     then Inl ValueError
     else pack hello_request_layout
            [PBytes nonce, PInt (hq_min_version m), PInt (hq_max_version m), PInt 0])"

definition decode_hello_request :: "bytes \<Rightarrow> HelloRequest res" where
  "decode_hello_request data =
     (if length data \<noteq> 20 then Inl ValueError
      else rbind (unpack hello_request_layout data) (\<lambda>vs.
        if vint (vs ! 3) \<noteq> 0 then Inl ValueError
        else
          let m = \<lparr>hq_host_nonce = vbytes (vs ! 0), hq_min_version = vint (vs ! 1),
                   hq_max_version = vint (vs ! 2)\<rparr>
          in rbind (encode_hello_request m) (\<lambda>_. Inr m)))"

record HelloResponse =
  hr_host_nonce :: bytes
  hr_boot_id :: bytes
  hr_device_id :: bytes
  hr_negotiated_version :: int
  hr_reset_reason :: int
  hr_fw_major :: int
  hr_fw_minor :: int
  hr_fw_patch :: int
  hr_fw_build :: int
  hr_device_state :: int

definition hello_response_layout :: "fmt list" where
  "hello_response_layout = [Fs 16, Fs 16, Fs 16, FB, FB, FH, FH, FH, FI, FB, Fx 3]"

definition hello_response_tuple :: "HelloResponse \<Rightarrow> pyval list" where
  "hello_response_tuple m =
     [PBytes (hr_host_nonce m), PBytes (hr_boot_id m), PBytes (hr_device_id m),
      PInt (hr_negotiated_version m), PInt (hr_reset_reason m), PInt (hr_fw_major m),
      PInt (hr_fw_minor m), PInt (hr_fw_patch m), PInt (hr_fw_build m), PInt (hr_device_state m)]"

definition hello_response_of :: "pyval list \<Rightarrow> HelloResponse" where
  "hello_response_of vs =
     \<lparr>hr_host_nonce = vbytes (vs ! 0), hr_boot_id = vbytes (vs ! 1), hr_device_id = vbytes (vs ! 2),
      hr_negotiated_version = vint (vs ! 3), hr_reset_reason = vint (vs ! 4),
      hr_fw_major = vint (vs ! 5), hr_fw_minor = vint (vs ! 6), hr_fw_patch = vint (vs ! 7),
      hr_fw_build = vint (vs ! 8), hr_device_state = vint (vs ! 9)\<rparr>"

definition encode_hello_response :: "HelloResponse \<Rightarrow> bytes res" where
  "encode_hello_response m =
     rbind (fixed_bytes (hr_host_nonce m) 16) (\<lambda>_.
     rbind (fixed_bytes (hr_boot_id m) 16) (\<lambda>_.
     rbind (fixed_bytes (hr_device_id m) 16) (\<lambda>_.
     pack hello_response_layout (hello_response_tuple m))))"

definition decode_hello_response :: "bytes \<Rightarrow> HelloResponse res" where
  "decode_hello_response data =
     (if length data \<noteq> calcsize hello_response_layout then Inl ValueError
      else if drop (length data - 3) data \<noteq> replicate 3 0 then Inl ValueError
      else rbind (unpack hello_response_layout data) (\<lambda>vs. Inr (hello_response_of vs)))"

interpretation hello_response: canonical_struct_message
  encode_hello_response decode_hello_response hello_response_layout hello_response_tuple
  hello_response_of "\<lambda>_. True" "\<lambda>data. drop (length data - 3) data = replicate 3 0"
proof unfold_locales
  show "hello_response_of (hello_response_tuple m) = m" for m
    by (simp add: hello_response_of_def hello_response_tuple_def)
  show "hello_response_tuple (hello_response_of vs) = vs" if "fits hello_response_layout vs" for vs
    using that by (auto simp: hello_response_of_def hello_response_tuple_def hello_response_layout_def)
  show "encode_hello_response m = Inr bs \<longleftrightarrow> True \<and>
      exact hello_response_layout (hello_response_tuple m) \<and>
      pack hello_response_layout (hello_response_tuple m) = Inr bs" for m bs
    by (auto simp: encode_hello_response_def hello_response_tuple_def hello_response_layout_def)
  show "decode_hello_response bs = Inr m \<longleftrightarrow> drop (length bs - 3) bs = replicate 3 0 \<and>
      (\<exists>vs. unpack hello_response_layout bs = Inr vs \<and> m = hello_response_of vs \<and> True)" for bs m
    by (auto simp: decode_hello_response_def dest: unpack_length)
  show "decode_hello_response bs = Inl e \<Longrightarrow> e = ValueError" for bs e
    by (auto simp: decode_hello_response_def rbind_Inl_iff unpack_def split: if_splits)
qed (simp_all add: hello_response_layout_def)

section \<open>CAPTURE\_ONCE\<close>

record CaptureOnceRequest =
  co_request_id :: bytes
  co_expected_profile_sha256 :: bytes
  co_expected_device_config_crc32 :: int
  co_trigger_source :: int
  co_sync_timeout_ms :: int

definition capture_once_layout :: "fmt list" where
  "capture_once_layout = [Fs 16, Fs 32, FI, FB, Fx 3, FI]"

definition capture_once_tuple :: "CaptureOnceRequest \<Rightarrow> pyval list" where
  "capture_once_tuple m =
     [PBytes (co_request_id m), PBytes (co_expected_profile_sha256 m),
      PInt (co_expected_device_config_crc32 m), PInt (co_trigger_source m),
      PInt (co_sync_timeout_ms m)]"

definition capture_once_of :: "pyval list \<Rightarrow> CaptureOnceRequest" where
  "capture_once_of vs =
     \<lparr>co_request_id = vbytes (vs ! 0), co_expected_profile_sha256 = vbytes (vs ! 1),
      co_expected_device_config_crc32 = vint (vs ! 2), co_trigger_source = vint (vs ! 3),
      co_sync_timeout_ms = vint (vs ! 4)\<rparr>"

definition encode_capture_once_request :: "CaptureOnceRequest \<Rightarrow> bytes res" where
  "encode_capture_once_request m =
     (if co_trigger_source m \<notin> {0, 1, 2} then Inl ValueError
      else if co_trigger_source m = 1 \<and>
              \<not> (1 \<le> co_sync_timeout_ms m \<and> co_sync_timeout_ms m \<le> 60000) then Inl ValueError
      else if co_trigger_source m \<noteq> 1 \<and> co_sync_timeout_ms m \<noteq> 0 then Inl ValueError
      else
        rbind (fixed_bytes (co_request_id m) 16) (\<lambda>_.
        rbind (fixed_bytes (co_expected_profile_sha256 m) 32) (\<lambda>_.
        pack capture_once_layout (capture_once_tuple m))))"

definition decode_capture_once_request :: "bytes \<Rightarrow> CaptureOnceRequest res" where
  "decode_capture_once_request data =
     (if length data \<noteq> calcsize capture_once_layout then Inl ValueError
      else rbind (unpack capture_once_layout data) (\<lambda>vs.
        let m = capture_once_of vs in rbind (encode_capture_once_request m) (\<lambda>_. Inr m)))"

definition capture_once_ok :: "CaptureOnceRequest \<Rightarrow> bool" where
  "capture_once_ok m \<longleftrightarrow> (if co_trigger_source m = 1 then co_sync_timeout_ms m \<in> {1..60000}
     else co_trigger_source m \<in> {0, 2} \<and> co_sync_timeout_ms m = 0)"

text \<open>The decoder does not look at the three reserved bytes, so the codec is not canonical.\<close>

interpretation capture_once: checked_struct_message
  encode_capture_once_request decode_capture_once_request capture_once_layout capture_once_tuple
  capture_once_of capture_once_ok "\<lambda>_. True"
proof unfold_locales
  show "capture_once_tuple (capture_once_of vs) = vs" if "fits capture_once_layout vs" for vs
    using that by (auto simp: capture_once_of_def capture_once_tuple_def capture_once_layout_def)
  show "encode_capture_once_request m = Inr bs \<longleftrightarrow> capture_once_ok m \<and>
      exact capture_once_layout (capture_once_tuple m) \<and>
      pack capture_once_layout (capture_once_tuple m) = Inr bs" for m bs
    by (auto simp: encode_capture_once_request_def capture_once_ok_def capture_once_tuple_def
        capture_once_layout_def)
  show "e = ValueError \<or> pack capture_once_layout (capture_once_tuple m) = Inl e"
    if "encode_capture_once_request m = Inl e" for m e
    using that by (auto simp: encode_capture_once_request_def rbind_Inl_iff split: if_splits)
qed (simp_all add: capture_once_of_def capture_once_tuple_def decode_capture_once_request_def Let_def)

section \<open>GET\_CAPABILITIES\<close>

record CapabilitiesResponse =
  cap_capability_flags :: int
  cap_mcu_max_command_payload :: int
  cap_max_samples :: int
  cap_min_sample_interval_ticks :: int
  cap_max_sample_interval_ticks :: int
  cap_min_burst_period_ticks :: int
  cap_max_burst_period_ticks :: int
  cap_max_register_pairs :: int
  cap_max_out3_events :: int
  cap_max_out4_events :: int
  cap_adc_bits :: int
  cap_supported_io_modes :: int

definition capabilities_layout :: "fmt list" where
  "capabilities_layout = [FI, FH, FH, FH, FH, FH, FH, FB, FB, FB, FB, FB, Fx 3]"

definition capabilities_tuple :: "CapabilitiesResponse \<Rightarrow> pyval list" where
  "capabilities_tuple m =
     [PInt (cap_capability_flags m), PInt (cap_mcu_max_command_payload m), PInt (cap_max_samples m),
      PInt (cap_min_sample_interval_ticks m), PInt (cap_max_sample_interval_ticks m),
      PInt (cap_min_burst_period_ticks m), PInt (cap_max_burst_period_ticks m),
      PInt (cap_max_register_pairs m), PInt (cap_max_out3_events m), PInt (cap_max_out4_events m),
      PInt (cap_adc_bits m), PInt (cap_supported_io_modes m)]"

definition capabilities_of :: "pyval list \<Rightarrow> CapabilitiesResponse" where
  "capabilities_of vs =
     \<lparr>cap_capability_flags = vint (vs ! 0), cap_mcu_max_command_payload = vint (vs ! 1),
      cap_max_samples = vint (vs ! 2), cap_min_sample_interval_ticks = vint (vs ! 3),
      cap_max_sample_interval_ticks = vint (vs ! 4), cap_min_burst_period_ticks = vint (vs ! 5),
      cap_max_burst_period_ticks = vint (vs ! 6), cap_max_register_pairs = vint (vs ! 7),
      cap_max_out3_events = vint (vs ! 8), cap_max_out4_events = vint (vs ! 9),
      cap_adc_bits = vint (vs ! 10), cap_supported_io_modes = vint (vs ! 11)\<rparr>"

definition encode_capabilities_response :: "CapabilitiesResponse \<Rightarrow> bytes res" where
  "encode_capabilities_response m =
     (if cap_capability_flags m AND NOT 0x1FF \<noteq> 0 then Inl ValueError
      else if cap_min_sample_interval_ticks m > cap_max_sample_interval_ticks m then Inl ValueError
      else if cap_min_burst_period_ticks m > cap_max_burst_period_ticks m then Inl ValueError
      else if cap_supported_io_modes m AND NOT 0x0F \<noteq> 0 then Inl ValueError
      else pack capabilities_layout (capabilities_tuple m))"

definition decode_capabilities_response :: "bytes \<Rightarrow> CapabilitiesResponse res" where
  "decode_capabilities_response data =
     (if length data \<noteq> calcsize capabilities_layout then Inl ValueError
      else if drop (length data - 3) data \<noteq> replicate 3 0 then Inl ValueError
      else rbind (unpack capabilities_layout data) (\<lambda>vs.
        let m = capabilities_of vs in rbind (encode_capabilities_response m) (\<lambda>_. Inr m)))"

definition capabilities_ok :: "CapabilitiesResponse \<Rightarrow> bool" where
  "capabilities_ok m \<longleftrightarrow> cap_capability_flags m AND NOT 0x1FF = 0 \<and>
     cap_min_sample_interval_ticks m \<le> cap_max_sample_interval_ticks m \<and>
     cap_min_burst_period_ticks m \<le> cap_max_burst_period_ticks m \<and>
     cap_supported_io_modes m AND NOT 0x0F = 0"

interpretation capabilities: canonical_checked_struct_message
  encode_capabilities_response decode_capabilities_response capabilities_layout capabilities_tuple
  capabilities_of capabilities_ok "\<lambda>data. drop (length data - 3) data = replicate 3 0"
proof unfold_locales
  show "capabilities_tuple (capabilities_of vs) = vs" if "fits capabilities_layout vs" for vs
    using that by (auto simp: capabilities_of_def capabilities_tuple_def capabilities_layout_def)
  show "encode_capabilities_response m = Inr bs \<longleftrightarrow> capabilities_ok m \<and>
      exact capabilities_layout (capabilities_tuple m) \<and>
      pack capabilities_layout (capabilities_tuple m) = Inr bs" for m bs
    by (auto simp: encode_capabilities_response_def capabilities_ok_def capabilities_tuple_def
        capabilities_layout_def)
  show "e = ValueError \<or> pack capabilities_layout (capabilities_tuple m) = Inl e"
    if "encode_capabilities_response m = Inl e" for m e
    using that by (auto simp: encode_capabilities_response_def split: if_splits)
  show "pads_zero capabilities_layout bs"
    if "length bs = calcsize capabilities_layout" "drop (length bs - 3) bs = replicate 3 0" for bs
    using that by (simp add: capabilities_layout_def)
  show "drop (length bs - 3) bs = replicate 3 0"
    if "length bs = calcsize capabilities_layout" "pads_zero capabilities_layout bs" for bs
    using that by (simp add: capabilities_layout_def)
qed (simp_all add: capabilities_of_def capabilities_tuple_def decode_capabilities_response_def Let_def)

section \<open>START\_PERIODIC\<close>

record StartPeriodicRequest =
  sp_request_id :: bytes
  sp_schedule_id :: bytes
  sp_expected_profile_sha256 :: bytes
  sp_expected_device_config_crc32 :: int
  sp_period_us :: int
  sp_capture_count :: int
  sp_lease_timeout_ms :: int

definition start_periodic_layout :: "fmt list" where
  "start_periodic_layout = [Fs 16, Fs 16, Fs 32, FI, FI, FI, FI]"

definition start_periodic_tuple :: "StartPeriodicRequest \<Rightarrow> pyval list" where
  "start_periodic_tuple m =
     [PBytes (sp_request_id m), PBytes (sp_schedule_id m),
      PBytes (sp_expected_profile_sha256 m), PInt (sp_expected_device_config_crc32 m),
      PInt (sp_period_us m), PInt (sp_capture_count m), PInt (sp_lease_timeout_ms m)]"

definition start_periodic_of :: "pyval list \<Rightarrow> StartPeriodicRequest" where
  "start_periodic_of vs =
     \<lparr>sp_request_id = vbytes (vs ! 0), sp_schedule_id = vbytes (vs ! 1),
      sp_expected_profile_sha256 = vbytes (vs ! 2),
      sp_expected_device_config_crc32 = vint (vs ! 3), sp_period_us = vint (vs ! 4),
      sp_capture_count = vint (vs ! 5), sp_lease_timeout_ms = vint (vs ! 6)\<rparr>"

definition encode_start_periodic_request :: "StartPeriodicRequest \<Rightarrow> bytes res" where
  "encode_start_periodic_request m =
     (if sp_schedule_id m = replicate 16 0 then Inl ValueError
      else if \<not> (1 \<le> sp_period_us m \<and> sp_period_us m \<le> 0xFFFFFFFF) then Inl ValueError
      else if \<not> (0 \<le> sp_capture_count m \<and> sp_capture_count m \<le> 0xFFFFFFFF) then Inl ValueError
      else if \<not> (1000 \<le> sp_lease_timeout_ms m \<and> sp_lease_timeout_ms m \<le> 10000) then Inl ValueError
      else
        rbind (fixed_bytes (sp_request_id m) 16) (\<lambda>_.
        rbind (fixed_bytes (sp_schedule_id m) 16) (\<lambda>_.
        rbind (fixed_bytes (sp_expected_profile_sha256 m) 32) (\<lambda>_.
        pack start_periodic_layout (start_periodic_tuple m)))))"

definition decode_start_periodic_request :: "bytes \<Rightarrow> StartPeriodicRequest res" where
  "decode_start_periodic_request data =
     (if length data \<noteq> calcsize start_periodic_layout then Inl ValueError
      else rbind (unpack start_periodic_layout data) (\<lambda>vs.
        let m = start_periodic_of vs in rbind (encode_start_periodic_request m) (\<lambda>_. Inr m)))"

definition start_periodic_ok :: "StartPeriodicRequest \<Rightarrow> bool" where
  "start_periodic_ok m \<longleftrightarrow> sp_schedule_id m \<noteq> replicate 16 0 \<and> sp_period_us m \<in> {1..0xFFFFFFFF} \<and>
     sp_capture_count m \<in> {0..0xFFFFFFFF} \<and> sp_lease_timeout_ms m \<in> {1000..10000}"

interpretation start_periodic: canonical_checked_struct_message
  encode_start_periodic_request decode_start_periodic_request start_periodic_layout start_periodic_tuple
  start_periodic_of "start_periodic_ok" "\<lambda>_. True"
proof unfold_locales
  show "start_periodic_tuple (start_periodic_of vs) = vs" if "fits start_periodic_layout vs" for vs
    using that by (auto simp: start_periodic_of_def start_periodic_tuple_def start_periodic_layout_def)
  show "encode_start_periodic_request m = Inr bs \<longleftrightarrow> start_periodic_ok m \<and>
      exact start_periodic_layout (start_periodic_tuple m) \<and> pack start_periodic_layout (start_periodic_tuple m) = Inr bs" for m bs
    by (auto simp: encode_start_periodic_request_def start_periodic_ok_def start_periodic_tuple_def start_periodic_layout_def)
  show "e = ValueError \<or> pack start_periodic_layout (start_periodic_tuple m) = Inl e" if "encode_start_periodic_request m = Inl e" for m e
    using that by (auto simp: encode_start_periodic_request_def rbind_Inl_iff split: if_splits)
  show "pads_zero start_periodic_layout bs" if "length bs = calcsize start_periodic_layout" for bs
    by (simp add: start_periodic_layout_def)
qed (simp_all add: start_periodic_of_def start_periodic_tuple_def decode_start_periodic_request_def Let_def)

section \<open>RENEW\_PERIODIC\_LEASE\<close>

record RenewPeriodicLease =
  rl_boot_id :: bytes
  rl_schedule_id :: bytes
  rl_lease_sequence :: int
  rl_lease_timeout_or_remaining_ms :: int

definition renew_periodic_layout :: "fmt list" where
  "renew_periodic_layout = [Fs 16, Fs 16, FI, FI]"

definition renew_periodic_tuple :: "RenewPeriodicLease \<Rightarrow> pyval list" where
  "renew_periodic_tuple m =
     [PBytes (rl_boot_id m), PBytes (rl_schedule_id m), PInt (rl_lease_sequence m),
      PInt (rl_lease_timeout_or_remaining_ms m)]"

definition renew_periodic_of :: "pyval list \<Rightarrow> RenewPeriodicLease" where
  "renew_periodic_of vs =
     \<lparr>rl_boot_id = vbytes (vs ! 0), rl_schedule_id = vbytes (vs ! 1),
      rl_lease_sequence = vint (vs ! 2), rl_lease_timeout_or_remaining_ms = vint (vs ! 3)\<rparr>"

definition encode_renew_periodic_lease :: "RenewPeriodicLease \<Rightarrow> bytes res" where
  "encode_renew_periodic_lease m =
     (if rl_boot_id m = replicate 16 0 \<or> rl_schedule_id m = replicate 16 0 then Inl ValueError
      else if \<not> (1 \<le> rl_lease_sequence m \<and> rl_lease_sequence m \<le> 0xFFFFFFFF) then Inl ValueError
      else if \<not> (0 \<le> rl_lease_timeout_or_remaining_ms m \<and> rl_lease_timeout_or_remaining_ms m \<le> 10000) then Inl ValueError
      else
        rbind (fixed_bytes (rl_boot_id m) 16) (\<lambda>_.
        rbind (fixed_bytes (rl_schedule_id m) 16) (\<lambda>_.
        pack renew_periodic_layout (renew_periodic_tuple m))))"

definition decode_renew_periodic_lease :: "bytes \<Rightarrow> RenewPeriodicLease res" where
  "decode_renew_periodic_lease data =
     (if length data \<noteq> calcsize renew_periodic_layout then Inl ValueError
      else rbind (unpack renew_periodic_layout data) (\<lambda>vs.
        let m = renew_periodic_of vs in rbind (encode_renew_periodic_lease m) (\<lambda>_. Inr m)))"

definition renew_periodic_ok :: "RenewPeriodicLease \<Rightarrow> bool" where
  "renew_periodic_ok m \<longleftrightarrow> rl_boot_id m \<noteq> replicate 16 0 \<and> rl_schedule_id m \<noteq> replicate 16 0 \<and>
     rl_lease_sequence m \<in> {1..0xFFFFFFFF} \<and> rl_lease_timeout_or_remaining_ms m \<in> {0..10000}"

interpretation renew_periodic: canonical_checked_struct_message
  encode_renew_periodic_lease decode_renew_periodic_lease renew_periodic_layout renew_periodic_tuple
  renew_periodic_of "renew_periodic_ok" "\<lambda>_. True"
proof unfold_locales
  show "renew_periodic_tuple (renew_periodic_of vs) = vs" if "fits renew_periodic_layout vs" for vs
    using that by (auto simp: renew_periodic_of_def renew_periodic_tuple_def renew_periodic_layout_def)
  show "encode_renew_periodic_lease m = Inr bs \<longleftrightarrow> renew_periodic_ok m \<and>
      exact renew_periodic_layout (renew_periodic_tuple m) \<and> pack renew_periodic_layout (renew_periodic_tuple m) = Inr bs" for m bs
    by (auto simp: encode_renew_periodic_lease_def renew_periodic_ok_def renew_periodic_tuple_def renew_periodic_layout_def)
  show "e = ValueError \<or> pack renew_periodic_layout (renew_periodic_tuple m) = Inl e" if "encode_renew_periodic_lease m = Inl e" for m e
    using that by (auto simp: encode_renew_periodic_lease_def rbind_Inl_iff split: if_splits)
  show "pads_zero renew_periodic_layout bs" if "length bs = calcsize renew_periodic_layout" for bs
    by (simp add: renew_periodic_layout_def)
qed (simp_all add: renew_periodic_of_def renew_periodic_tuple_def decode_renew_periodic_lease_def Let_def)

section \<open>STOP\<close>

record StopRequest =
  stq_request_id :: bytes
  stq_schedule_id :: bytes

definition stop_request_layout :: "fmt list" where
  "stop_request_layout = [Fs 16, Fs 16]"

definition stop_request_tuple :: "StopRequest \<Rightarrow> pyval list" where
  "stop_request_tuple m =
     [PBytes (stq_request_id m), PBytes (stq_schedule_id m)]"

definition stop_request_of :: "pyval list \<Rightarrow> StopRequest" where
  "stop_request_of vs =
     \<lparr>stq_request_id = vbytes (vs ! 0), stq_schedule_id = vbytes (vs ! 1)\<rparr>"

definition encode_stop_request :: "StopRequest \<Rightarrow> bytes res" where
  "encode_stop_request m =
     rbind (fixed_bytes (stq_request_id m) 16) (\<lambda>_.
     rbind (fixed_bytes (stq_schedule_id m) 16) (\<lambda>_.
     pack stop_request_layout (stop_request_tuple m)))"

definition decode_stop_request :: "bytes \<Rightarrow> StopRequest res" where
  "decode_stop_request data =
     (if length data \<noteq> calcsize stop_request_layout then Inl ValueError
      else rbind (unpack stop_request_layout data) (\<lambda>vs. Inr (stop_request_of vs)))"

interpretation stop_request: canonical_struct_message
  encode_stop_request decode_stop_request stop_request_layout stop_request_tuple
  stop_request_of "\<lambda>_. True" "\<lambda>_. True"
proof unfold_locales
  show "stop_request_tuple (stop_request_of vs) = vs" if "fits stop_request_layout vs" for vs
    using that by (auto simp: stop_request_of_def stop_request_tuple_def stop_request_layout_def)
  show "encode_stop_request m = Inr bs \<longleftrightarrow> (\<lambda>_. True) m \<and>
      exact stop_request_layout (stop_request_tuple m) \<and> pack stop_request_layout (stop_request_tuple m) = Inr bs" for m bs
    by (auto simp: encode_stop_request_def stop_request_tuple_def stop_request_layout_def)
  show "decode_stop_request bs = Inr m \<longleftrightarrow> True \<and>
      (\<exists>vs. unpack stop_request_layout bs = Inr vs \<and> m = stop_request_of vs \<and> True)" for bs m
    by (auto simp: decode_stop_request_def dest: unpack_length)
  show "e = ValueError" if "decode_stop_request bs = Inl e" for bs e
    using that by (auto simp: decode_stop_request_def rbind_Inl_iff unpack_def split: if_splits)
  show "pads_zero stop_request_layout bs" if "length bs = calcsize stop_request_layout" for bs
    by (simp add: stop_request_layout_def)
qed (simp_all add: stop_request_of_def stop_request_tuple_def)

section \<open>GET\_STATUS\<close>

record StatusResponse =
  ss_boot_id :: bytes
  ss_device_state :: int
  ss_last_error :: int
  ss_profile_sha256 :: bytes
  ss_device_config_crc32 :: int
  ss_capture_sequence :: int
  ss_missed_capture_count :: int
  ss_quality_flags :: int
  ss_tuss_dev_stat :: int
  ss_vdrv_ready :: int
  ss_out3_enabled :: int
  ss_out4_enabled :: int
  ss_clock_fault_flags :: int
  ss_active_schedule_id :: bytes
  ss_lease_sequence :: int
  ss_lease_remaining_ms :: int

definition status_response_layout :: "fmt list" where
  "status_response_layout = [Fs 16, FB, Fx 1, FH, Fs 32, FI, FI, FI, FI, FB, FB, FB, FB, FH, Fx 2, Fs 16, FI, FI]"

definition status_response_tuple :: "StatusResponse \<Rightarrow> pyval list" where
  "status_response_tuple m =
     [PBytes (ss_boot_id m), PInt (ss_device_state m), PInt (ss_last_error m),
      PBytes (ss_profile_sha256 m), PInt (ss_device_config_crc32 m),
      PInt (ss_capture_sequence m), PInt (ss_missed_capture_count m),
      PInt (ss_quality_flags m), PInt (ss_tuss_dev_stat m), PInt (ss_vdrv_ready m),
      PInt (ss_out3_enabled m), PInt (ss_out4_enabled m), PInt (ss_clock_fault_flags m),
      PBytes (ss_active_schedule_id m), PInt (ss_lease_sequence m),
      PInt (ss_lease_remaining_ms m)]"

definition status_response_of :: "pyval list \<Rightarrow> StatusResponse" where
  "status_response_of vs =
     \<lparr>ss_boot_id = vbytes (vs ! 0), ss_device_state = vint (vs ! 1),
      ss_last_error = vint (vs ! 2), ss_profile_sha256 = vbytes (vs ! 3),
      ss_device_config_crc32 = vint (vs ! 4), ss_capture_sequence = vint (vs ! 5),
      ss_missed_capture_count = vint (vs ! 6), ss_quality_flags = vint (vs ! 7),
      ss_tuss_dev_stat = vint (vs ! 8), ss_vdrv_ready = vint (vs ! 9),
      ss_out3_enabled = vint (vs ! 10), ss_out4_enabled = vint (vs ! 11),
      ss_clock_fault_flags = vint (vs ! 12), ss_active_schedule_id = vbytes (vs ! 13),
      ss_lease_sequence = vint (vs ! 14), ss_lease_remaining_ms = vint (vs ! 15)\<rparr>"

definition encode_status_response :: "StatusResponse \<Rightarrow> bytes res" where
  "encode_status_response m =
     (if \<exists>level \<in> set [ss_vdrv_ready m, ss_out3_enabled m, ss_out4_enabled m]. level \<notin> {0, 1} then Inl ValueError
      else if ss_clock_fault_flags m AND NOT 0x0F \<noteq> 0 then Inl ValueError
      else if ss_active_schedule_id m = replicate 16 0 \<and>
              (ss_lease_sequence m \<noteq> 0 \<or> ss_lease_remaining_ms m \<noteq> 0) then Inl ValueError
      else
        rbind (fixed_bytes (ss_boot_id m) 16) (\<lambda>_.
        rbind (fixed_bytes (ss_profile_sha256 m) 32) (\<lambda>_.
        rbind (fixed_bytes (ss_active_schedule_id m) 16) (\<lambda>_.
        pack status_response_layout (status_response_tuple m)))))"

definition decode_status_response :: "bytes \<Rightarrow> StatusResponse res" where
  "decode_status_response data =
     (if length data \<noteq> calcsize status_response_layout then Inl ValueError
      else if \<not> (data ! 17 = 0 \<and> take 2 (drop 74 data) = replicate 2 0) then Inl ValueError
      else rbind (unpack status_response_layout data) (\<lambda>vs.
        let m = status_response_of vs in rbind (encode_status_response m) (\<lambda>_. Inr m)))"

definition status_response_ok :: "StatusResponse \<Rightarrow> bool" where
  "status_response_ok m \<longleftrightarrow> ss_vdrv_ready m \<in> {0, 1} \<and> ss_out3_enabled m \<in> {0, 1} \<and> ss_out4_enabled m \<in> {0, 1} \<and>
     ss_clock_fault_flags m AND NOT 0x0F = 0 \<and>
     (ss_active_schedule_id m = replicate 16 0 \<longrightarrow> ss_lease_sequence m = 0 \<and> ss_lease_remaining_ms m = 0)"

interpretation status_response: canonical_checked_struct_message
  encode_status_response decode_status_response status_response_layout status_response_tuple
  status_response_of "status_response_ok" "\<lambda>data. data ! 17 = 0 \<and> take 2 (drop 74 data) = replicate 2 0"
proof unfold_locales
  show "status_response_tuple (status_response_of vs) = vs" if "fits status_response_layout vs" for vs
    using that by (auto simp: status_response_of_def status_response_tuple_def status_response_layout_def)
  show "encode_status_response m = Inr bs \<longleftrightarrow> status_response_ok m \<and>
      exact status_response_layout (status_response_tuple m) \<and> pack status_response_layout (status_response_tuple m) = Inr bs" for m bs
    by (auto simp: encode_status_response_def status_response_ok_def status_response_tuple_def status_response_layout_def)
  show "e = ValueError \<or> pack status_response_layout (status_response_tuple m) = Inl e" if "encode_status_response m = Inl e" for m e
    using that by (auto simp: encode_status_response_def rbind_Inl_iff split: if_splits)
  show "pads_zero status_response_layout bs" if "length bs = calcsize status_response_layout" "bs ! 17 = 0 \<and> take 2 (drop 74 bs) = replicate 2 0" for bs
    using that by (simp add: status_response_layout_def take_1_drop)
  show "bs ! 17 = 0 \<and> take 2 (drop 74 bs) = replicate 2 0" if "length bs = calcsize status_response_layout" "pads_zero status_response_layout bs" for bs
    using that by (simp add: status_response_layout_def take_1_drop)
qed (simp_all add: status_response_of_def status_response_tuple_def decode_status_response_def Let_def)

section \<open>RUN\_IO2\_LOOPBACK\_TEST request\<close>

record Io2LoopbackRequest =
  lq_request_id :: bytes
  lq_expected_profile_sha256 :: bytes
  lq_expected_device_config_crc32 :: int
  lq_edge_count :: int

definition io2_loopback_request_layout :: "fmt list" where
  "io2_loopback_request_layout = [Fs 16, Fs 32, FI, FB, Fx 3]"

definition io2_loopback_request_tuple :: "Io2LoopbackRequest \<Rightarrow> pyval list" where
  "io2_loopback_request_tuple m =
     [PBytes (lq_request_id m), PBytes (lq_expected_profile_sha256 m),
      PInt (lq_expected_device_config_crc32 m), PInt (lq_edge_count m)]"

definition io2_loopback_request_of :: "pyval list \<Rightarrow> Io2LoopbackRequest" where
  "io2_loopback_request_of vs =
     \<lparr>lq_request_id = vbytes (vs ! 0), lq_expected_profile_sha256 = vbytes (vs ! 1),
      lq_expected_device_config_crc32 = vint (vs ! 2), lq_edge_count = vint (vs ! 3)\<rparr>"

definition encode_io2_loopback_request :: "Io2LoopbackRequest \<Rightarrow> bytes res" where
  "encode_io2_loopback_request m =
     (if lq_edge_count m \<noteq> 8 then Inl ValueError
      else
        rbind (fixed_bytes (lq_request_id m) 16) (\<lambda>_.
        rbind (fixed_bytes (lq_expected_profile_sha256 m) 32) (\<lambda>_.
        pack io2_loopback_request_layout (io2_loopback_request_tuple m))))"

definition decode_io2_loopback_request :: "bytes \<Rightarrow> Io2LoopbackRequest res" where
  "decode_io2_loopback_request data =
     (if length data \<noteq> calcsize io2_loopback_request_layout then Inl ValueError
      else if \<not> (take 3 (drop 53 data) = replicate 3 0) then Inl ValueError
      else rbind (unpack io2_loopback_request_layout data) (\<lambda>vs.
        let m = io2_loopback_request_of vs in rbind (encode_io2_loopback_request m) (\<lambda>_. Inr m)))"

definition io2_loopback_request_ok :: "Io2LoopbackRequest \<Rightarrow> bool" where
  "io2_loopback_request_ok m \<longleftrightarrow> lq_edge_count m = 8"

interpretation io2_loopback_request: canonical_checked_struct_message
  encode_io2_loopback_request decode_io2_loopback_request io2_loopback_request_layout io2_loopback_request_tuple
  io2_loopback_request_of "io2_loopback_request_ok" "\<lambda>data. take 3 (drop 53 data) = replicate 3 0"
proof unfold_locales
  show "io2_loopback_request_tuple (io2_loopback_request_of vs) = vs" if "fits io2_loopback_request_layout vs" for vs
    using that by (auto simp: io2_loopback_request_of_def io2_loopback_request_tuple_def io2_loopback_request_layout_def)
  show "encode_io2_loopback_request m = Inr bs \<longleftrightarrow> io2_loopback_request_ok m \<and>
      exact io2_loopback_request_layout (io2_loopback_request_tuple m) \<and> pack io2_loopback_request_layout (io2_loopback_request_tuple m) = Inr bs" for m bs
    by (auto simp: encode_io2_loopback_request_def io2_loopback_request_ok_def io2_loopback_request_tuple_def io2_loopback_request_layout_def)
  show "e = ValueError \<or> pack io2_loopback_request_layout (io2_loopback_request_tuple m) = Inl e" if "encode_io2_loopback_request m = Inl e" for m e
    using that by (auto simp: encode_io2_loopback_request_def rbind_Inl_iff split: if_splits)
  show "pads_zero io2_loopback_request_layout bs" if "length bs = calcsize io2_loopback_request_layout" "take 3 (drop 53 bs) = replicate 3 0" for bs
    using that by (simp add: io2_loopback_request_layout_def take_1_drop)
  show "take 3 (drop 53 bs) = replicate 3 0" if "length bs = calcsize io2_loopback_request_layout" "pads_zero io2_loopback_request_layout bs" for bs
    using that by (simp add: io2_loopback_request_layout_def take_1_drop)
qed (simp_all add: io2_loopback_request_of_def io2_loopback_request_tuple_def decode_io2_loopback_request_def Let_def)

section \<open>ACK\<close>

record Ack =
  ack_request_id :: bytes
  ack_acked_type :: int
  ack_resulting_state :: int
  ack_status_code :: int
  ack_device_config_crc32 :: int

definition ack_layout :: "fmt list" where
  "ack_layout = [Fs 16, FB, FB, FH, FI]"

definition ack_tuple :: "Ack \<Rightarrow> pyval list" where
  "ack_tuple m =
     [PBytes (ack_request_id m), PInt (ack_acked_type m), PInt (ack_resulting_state m),
      PInt (ack_status_code m), PInt (ack_device_config_crc32 m)]"

definition ack_of :: "pyval list \<Rightarrow> Ack" where
  "ack_of vs =
     \<lparr>ack_request_id = vbytes (vs ! 0), ack_acked_type = vint (vs ! 1),
      ack_resulting_state = vint (vs ! 2), ack_status_code = vint (vs ! 3),
      ack_device_config_crc32 = vint (vs ! 4)\<rparr>"

definition encode_ack :: "Ack \<Rightarrow> bytes res" where
  "encode_ack m =
     (if ack_status_code m \<noteq> 0 then Inl ValueError
      else
        rbind (fixed_bytes (ack_request_id m) 16) (\<lambda>_.
        pack ack_layout (ack_tuple m)))"

definition decode_ack :: "bytes \<Rightarrow> Ack res" where
  "decode_ack data =
     (if length data \<noteq> calcsize ack_layout then Inl ValueError
      else rbind (unpack ack_layout data) (\<lambda>vs.
        let m = ack_of vs in rbind (encode_ack m) (\<lambda>_. Inr m)))"

definition ack_ok :: "Ack \<Rightarrow> bool" where
  "ack_ok m \<longleftrightarrow> ack_status_code m = 0"

interpretation ack: canonical_checked_struct_message
  encode_ack decode_ack ack_layout ack_tuple
  ack_of "ack_ok" "\<lambda>_. True"
proof unfold_locales
  show "ack_tuple (ack_of vs) = vs" if "fits ack_layout vs" for vs
    using that by (auto simp: ack_of_def ack_tuple_def ack_layout_def)
  show "encode_ack m = Inr bs \<longleftrightarrow> ack_ok m \<and>
      exact ack_layout (ack_tuple m) \<and> pack ack_layout (ack_tuple m) = Inr bs" for m bs
    by (auto simp: encode_ack_def ack_ok_def ack_tuple_def ack_layout_def)
  show "e = ValueError \<or> pack ack_layout (ack_tuple m) = Inl e" if "encode_ack m = Inl e" for m e
    using that by (auto simp: encode_ack_def rbind_Inl_iff split: if_splits)
  show "pads_zero ack_layout bs" if "length bs = calcsize ack_layout" for bs
    by (simp add: ack_layout_def)
qed (simp_all add: ack_of_def ack_tuple_def decode_ack_def Let_def)

section \<open>RUN\_IO2\_LOOPBACK\_TEST response\<close>

record Io2LoopbackResult =
  lr_request_id :: bytes
  lr_profile_sha256 :: bytes
  lr_device_config_crc32 :: int
  lr_burst_period_ticks :: int
  lr_captured_edges :: int
  lr_result_flags :: int
  lr_capture_ticks :: "int list"
  lr_minimum_interval_ticks :: int
  lr_maximum_interval_ticks :: int
  lr_pre_spi_status :: int
  lr_pre_dev_stat :: int
  lr_pre_tof_config :: int
  lr_pre_vdrv_ctrl :: int
  lr_post_spi_status :: int
  lr_post_dev_stat :: int
  lr_post_tof_config :: int
  lr_post_vdrv_ctrl :: int
  lr_final_io2_level :: int

definition io2_loopback_result_layout :: "fmt list" where
  "io2_loopback_result_layout =
     [Fs 16, Fs 32, FI, FH, FB, FB, FH, FH, FH, FH, FH, FH, FH, FH, FH, FH,
      FB, FB, FB, FB, FB, FB, FB, FB, FB, Fx 1]"

definition io2_loopback_result_tuple :: "Io2LoopbackResult \<Rightarrow> pyval list" where
  "io2_loopback_result_tuple m =
     [PBytes (lr_request_id m), PBytes (lr_profile_sha256 m), PInt (lr_device_config_crc32 m),
      PInt (lr_burst_period_ticks m), PInt (lr_captured_edges m), PInt (lr_result_flags m)] @
     map PInt (lr_capture_ticks m) @
     [PInt (lr_minimum_interval_ticks m), PInt (lr_maximum_interval_ticks m),
      PInt (lr_pre_spi_status m), PInt (lr_pre_dev_stat m), PInt (lr_pre_tof_config m),
      PInt (lr_pre_vdrv_ctrl m), PInt (lr_post_spi_status m), PInt (lr_post_dev_stat m),
      PInt (lr_post_tof_config m), PInt (lr_post_vdrv_ctrl m), PInt (lr_final_io2_level m)]"

definition io2_loopback_result_of :: "pyval list \<Rightarrow> Io2LoopbackResult" where
  "io2_loopback_result_of vs =
     \<lparr>lr_request_id = vbytes (vs ! 0), lr_profile_sha256 = vbytes (vs ! 1),
      lr_device_config_crc32 = vint (vs ! 2), lr_burst_period_ticks = vint (vs ! 3),
      lr_captured_edges = vint (vs ! 4), lr_result_flags = vint (vs ! 5),
      lr_capture_ticks = map vint (take 8 (drop 6 vs)),
      lr_minimum_interval_ticks = vint (vs ! 14), lr_maximum_interval_ticks = vint (vs ! 15),
      lr_pre_spi_status = vint (vs ! 16), lr_pre_dev_stat = vint (vs ! 17),
      lr_pre_tof_config = vint (vs ! 18), lr_pre_vdrv_ctrl = vint (vs ! 19),
      lr_post_spi_status = vint (vs ! 20), lr_post_dev_stat = vint (vs ! 21),
      lr_post_tof_config = vint (vs ! 22), lr_post_vdrv_ctrl = vint (vs ! 23),
      lr_final_io2_level = vint (vs ! 24)\<rparr>"

definition encode_io2_loopback_result :: "Io2LoopbackResult \<Rightarrow> bytes res" where
  "encode_io2_loopback_result m =
     (if length (lr_capture_ticks m) \<noteq> 8 then Inl ValueError
      else if lr_result_flags m AND NOT 0x3F \<noteq> 0 then Inl ValueError
      else
        rbind (fixed_bytes (lr_request_id m) 16) (\<lambda>_.
        rbind (fixed_bytes (lr_profile_sha256 m) 32) (\<lambda>_.
        pack io2_loopback_result_layout (io2_loopback_result_tuple m))))"

definition decode_io2_loopback_result :: "bytes \<Rightarrow> Io2LoopbackResult res" where
  "decode_io2_loopback_result data =
     (if length data \<noteq> calcsize io2_loopback_result_layout then Inl ValueError
      else if \<not> (data ! (length data - 1) = 0) then Inl ValueError
      else rbind (unpack io2_loopback_result_layout data) (\<lambda>vs.
        let m = io2_loopback_result_of vs in rbind (encode_io2_loopback_result m) (\<lambda>_. Inr m)))"

definition io2_loopback_result_ok :: "Io2LoopbackResult \<Rightarrow> bool" where
  "io2_loopback_result_ok m \<longleftrightarrow>
     length (lr_capture_ticks m) = 8 \<and> lr_result_flags m AND NOT 0x3F = 0"

lemma length_8_conv:
  "length xs = 8 \<longleftrightarrow> (\<exists>a b c d e f g h. xs = [a, b, c, d, e, f, g, h])"
  by (auto simp: numeral_eq_Suc length_Suc_conv)

interpretation io2_loopback_result: canonical_checked_struct_message
  encode_io2_loopback_result decode_io2_loopback_result io2_loopback_result_layout
  io2_loopback_result_tuple io2_loopback_result_of io2_loopback_result_ok
  "\<lambda>data. data ! (length data - 1) = 0"
proof unfold_locales
  show "io2_loopback_result_of (io2_loopback_result_tuple m) = m" if "io2_loopback_result_ok m" for m
    using that by (cases m) (auto simp: io2_loopback_result_of_def io2_loopback_result_tuple_def
        io2_loopback_result_ok_def length_8_conv)
  show "io2_loopback_result_tuple (io2_loopback_result_of vs) = vs"
    if "fits io2_loopback_result_layout vs" for vs
    using that by (auto simp: io2_loopback_result_of_def io2_loopback_result_tuple_def
        io2_loopback_result_layout_def)
  show "encode_io2_loopback_result m = Inr bs \<longleftrightarrow> io2_loopback_result_ok m \<and>
      exact io2_loopback_result_layout (io2_loopback_result_tuple m) \<and>
      pack io2_loopback_result_layout (io2_loopback_result_tuple m) = Inr bs" for m bs
  proof (cases "io2_loopback_result_ok m")
    case True
    then have "exact io2_loopback_result_layout (io2_loopback_result_tuple m) \<longleftrightarrow>
        length (lr_request_id m) = 16 \<and> length (lr_profile_sha256 m) = 32"
      by (auto simp: io2_loopback_result_ok_def io2_loopback_result_tuple_def
          io2_loopback_result_layout_def length_8_conv)
    then show ?thesis
      using True by (auto simp: encode_io2_loopback_result_def io2_loopback_result_ok_def)
  next
    case False
    then show ?thesis by (auto simp: encode_io2_loopback_result_def io2_loopback_result_ok_def)
  qed
  show "e = ValueError \<or> pack io2_loopback_result_layout (io2_loopback_result_tuple m) = Inl e"
    if "encode_io2_loopback_result m = Inl e" for m e
    using that by (auto simp: encode_io2_loopback_result_def rbind_Inl_iff split: if_splits)
  show "pads_zero io2_loopback_result_layout bs"
    if "length bs = calcsize io2_loopback_result_layout" "bs ! (length bs - 1) = 0" for bs
    using that Cons_nth_drop_Suc [of 85 bs, symmetric] by (simp add: io2_loopback_result_layout_def)
  show "bs ! (length bs - 1) = 0"
    if "length bs = calcsize io2_loopback_result_layout" "pads_zero io2_loopback_result_layout bs" for bs
    using that Cons_nth_drop_Suc [of 85 bs, symmetric] by (simp add: io2_loopback_result_layout_def)
qed (simp_all add: decode_io2_loopback_result_def Let_def)

section \<open>HELLO request and SET\_CONFIG\<close>

interpretation hello_request: sized_canonical_codec encode_hello_request decode_hello_request 20
proof unfold_locales
  have enc: "encode_hello_request m = Inr bs \<longleftrightarrow> length (hq_host_nonce m) = 16 \<and>
      0 \<le> hq_min_version m \<and> hq_min_version m \<le> hq_max_version m \<and> hq_max_version m \<le> 255 \<and>
      pack hello_request_layout [PBytes (hq_host_nonce m), PInt (hq_min_version m),
        PInt (hq_max_version m), PInt 0] = Inr bs" for m bs
    by (auto simp: encode_hello_request_def)
  show "decode_hello_request bs = Inr m" if "encode_hello_request m = Inr bs" for m bs
  proof -
    have p: "pack hello_request_layout [PBytes (hq_host_nonce m), PInt (hq_min_version m),
        PInt (hq_max_version m), PInt 0] = Inr bs" and l: "length (hq_host_nonce m) = 16"
      using that by (simp_all add: enc)
    then have "unpack hello_request_layout bs = Inr [PBytes (hq_host_nonce m),
        PInt (hq_min_version m), PInt (hq_max_version m), PInt 0]"
      by (intro unpack_pack) (simp_all add: hello_request_layout_def)
    then show ?thesis
      using that pack_length [OF p]
      by (cases m) (simp add: decode_hello_request_def hello_request_layout_def Let_def)
  qed
  show "encode_hello_request m = Inr bs" if "decode_hello_request bs = Inr m" for m bs
  proof -
    from that obtain vs b where u: "unpack hello_request_layout bs = Inr vs" and r: "vint (vs ! 3) = 0"
      and m: "m = \<lparr>hq_host_nonce = vbytes (vs ! 0), hq_min_version = vint (vs ! 1),
                   hq_max_version = vint (vs ! 2)\<rparr>" and e: "encode_hello_request m = Inr b"
      by (auto simp: decode_hello_request_def Let_def)
    have "vs = [PBytes (hq_host_nonce m), PInt (hq_min_version m), PInt (hq_max_version m), PInt 0]"
      using fits_unpack [OF u] r unfolding m by (auto simp: hello_request_layout_def)
    then have "pack hello_request_layout [PBytes (hq_host_nonce m), PInt (hq_min_version m),
        PInt (hq_max_version m), PInt 0] = Inr bs"
      using pack_unpack [OF u] by (simp add: hello_request_layout_def)
    then show ?thesis using e by (simp add: enc)
  qed
  show "length bs = 20" if "encode_hello_request m = Inr bs" for m bs
    using that pack_length by (fastforce simp: enc hello_request_layout_def)
qed

record SetConfigRequest =
  sc_request_id :: bytes
  sc_expected_profile_sha256 :: bytes
  sc_config :: AcquisitionConfigV2

definition encode_set_config_request :: "SetConfigRequest \<Rightarrow> bytes res" where
  "encode_set_config_request m =
     rbind (fixed_bytes (sc_request_id m) 16) (\<lambda>request_id.
     rbind (fixed_bytes (sc_expected_profile_sha256 m) 32) (\<lambda>expected.
     rbind (encode_config_v2 (sc_config m)) (\<lambda>config.
     Inr (request_id @ expected @ config))))"

definition decode_set_config_request :: "bytes \<Rightarrow> SetConfigRequest res" where
  "decode_set_config_request data =
     (if length data < 100 then Inl ValueError
      else rbind (decode_config_v2 (drop 48 data)) (\<lambda>c.
        Inr \<lparr>sc_request_id = take 16 data, sc_expected_profile_sha256 = take 32 (drop 16 data),
             sc_config = c\<rparr>))"

lemma encode_set_config_length:
  "encode_set_config_request m = Inr bs \<Longrightarrow>
   length bs = 100 + 2 * length (register_pairs (sc_config m)) \<and> length (register_pairs (sc_config m)) \<le> 10"
  by (auto simp: encode_set_config_request_def encode_config_v2_eq length_config_bytes config_ok_def
      values_ok_def pairs_ok_def split: if_splits)

interpretation set_config: canonical_codec encode_set_config_request decode_set_config_request
proof unfold_locales
  show "decode_set_config_request bs = Inr m" if "encode_set_config_request m = Inr bs" for m bs
  proof -
    from that obtain c where c: "encode_config_v2 (sc_config m) = Inr c"
      and bs: "bs = sc_request_id m @ sc_expected_profile_sha256 m @ c"
      and l: "length (sc_request_id m) = 16" "length (sc_expected_profile_sha256 m) = 32"
      by (auto simp: encode_set_config_request_def)
    show ?thesis
      using config_codec.dec_enc [OF c] encode_set_config_length [OF that] l
      by (simp add: decode_set_config_request_def bs)
  qed
  show "encode_set_config_request m = Inr bs" if "decode_set_config_request bs = Inr m" for m bs
  proof -
    from that obtain c where l: "100 \<le> length bs" and c: "decode_config_v2 (drop 48 bs) = Inr c"
      and m: "m = \<lparr>sc_request_id = take 16 bs, sc_expected_profile_sha256 = take 32 (drop 16 bs),
             sc_config = c\<rparr>"
      by (auto simp: decode_set_config_request_def split: if_splits)
    have "take 16 bs @ take 32 (drop 16 bs) @ drop 48 bs = bs"
      using append_take_drop_id [of 32 "drop 16 bs"] by (simp add: drop_drop)
    then show ?thesis
      using config_codec.enc_dec [OF c] l by (simp add: encode_set_config_request_def m fixed_bytes_def)
  qed
qed

section \<open>ERROR\<close>

record ErrorResponse =
  er_request_id :: bytes
  er_failed_type :: int
  er_current_state :: int
  er_error_code :: int
  er_detail_arg0 :: int
  er_detail_arg1 :: int
  er_message :: pystr

definition error_prefix :: "fmt list" where
  "error_prefix = [Fs 16, FB, FB, FH, FI, FI, FB]"

definition encode_error :: "ErrorResponse \<Rightarrow> bytes res" where
  "encode_error m =
     rbind (utf8_encode (er_message m)) (\<lambda>encoded_message.
     if length encoded_message > 63 then Inl ValueError
     else
       rbind (fixed_bytes (er_request_id m) 16) (\<lambda>request_id.
       rbind (pack error_prefix
                [PBytes request_id, PInt (er_failed_type m), PInt (er_current_state m),
                 PInt (er_error_code m), PInt (er_detail_arg0 m), PInt (er_detail_arg1 m),
                 PInt (int (length encoded_message))]) (\<lambda>prefix.
       Inr (prefix @ encoded_message))))"

definition decode_error :: "bytes \<Rightarrow> ErrorResponse res" where
  "decode_error data =
     (if \<not> (calcsize error_prefix \<le> length data \<and> length data \<le> calcsize error_prefix + 63)
      then Inl ValueError
      else rbind (unpack_from error_prefix data 0) (\<lambda>vs.
        let message_length = vint (vs ! 6) in
        if int (length data) \<noteq> int (calcsize error_prefix) + message_length then Inl ValueError
        else case utf8_decode (drop (calcsize error_prefix) data) of
            Inl e \<Rightarrow> Inl ValueError
          | Inr msg \<Rightarrow>
              Inr \<lparr>er_request_id = vbytes (vs ! 0), er_failed_type = vint (vs ! 1),
                   er_current_state = vint (vs ! 2), er_error_code = vint (vs ! 3),
                   er_detail_arg0 = vint (vs ! 4), er_detail_arg1 = vint (vs ! 5),
                   er_message = msg\<rparr>))"

lemma decode_error_outcome: "decode_error data \<in> range Inr \<union> {Inl ValueError}"
  by (auto simp: decode_error_def Let_def unpack_from_def split: sum.split)

definition error_fields :: "ErrorResponse \<Rightarrow> nat \<Rightarrow> pyval list" where
  "error_fields m n = [PBytes (er_request_id m), PInt (er_failed_type m), PInt (er_current_state m),
     PInt (er_error_code m), PInt (er_detail_arg0 m), PInt (er_detail_arg1 m), PInt (int n)]"

lemma encode_error_iff:
  "encode_error m = Inr bs \<longleftrightarrow> (\<exists>msg pre. utf8_encode (er_message m) = Inr msg \<and> length msg \<le> 63 \<and>
     length (er_request_id m) = 16 \<and> pack error_prefix (error_fields m (length msg)) = Inr pre \<and>
     bs = pre @ msg)"
  by (fastforce simp: encode_error_def error_fields_def)

interpretation error_codec: canonical_codec encode_error decode_error
proof unfold_locales
  show "decode_error bs = Inr m" if "encode_error m = Inr bs" for m bs
  proof -
    from that obtain msg pre where e: "utf8_encode (er_message m) = Inr msg" "length msg \<le> 63"
      and p: "pack error_prefix (error_fields m (length msg)) = Inr pre"
      and l: "length (er_request_id m) = 16" and bs: "bs = pre @ msg"
      by (auto simp: encode_error_iff)
    have pl: "length pre = 29" using pack_length [OF p] by (simp add: error_prefix_def)
    have "exact error_prefix (error_fields m (length msg))"
      using l by (simp add: error_prefix_def error_fields_def)
    then have "unpack_from error_prefix bs 0 = Inr (error_fields m (length msg))"
      using unpack_from_pack [OF p, of "[]" 0 msg] by (simp add: bs)
    then show ?thesis
      using utf8.dec_enc [OF e(1)] e(2) pl bs
      by (simp add: decode_error_def error_prefix_def error_fields_def)
  qed
  show "encode_error m = Inr bs" if "decode_error bs = Inr m" for m bs
  proof -
    from that obtain vs msg where l: "29 \<le> length bs" "length bs \<le> 92"
      and u: "unpack_from error_prefix bs 0 = Inr vs" and n: "int (length bs) = 29 + vint (vs ! 6)"
      and t: "utf8_decode (drop 29 bs) = Inr msg"
      and m: "m = \<lparr>er_request_id = vbytes (vs ! 0), er_failed_type = vint (vs ! 1),
                   er_current_state = vint (vs ! 2), er_error_code = vint (vs ! 3),
                   er_detail_arg0 = vint (vs ! 4), er_detail_arg1 = vint (vs ! 5),
                   er_message = msg\<rparr>"
      by (cases "utf8_decode (drop 29 bs)")
        (auto simp: decode_error_def error_prefix_def Let_def split: if_splits)
    have len: "length (drop 29 bs) = length bs - 29" by simp
    have f: "error_fields m (length (drop 29 bs)) = vs" and rq: "length (er_request_id m) = 16"
      using fits_unpack_from [OF u] n l unfolding m by (auto simp: error_prefix_def error_fields_def)
    have go: "vs = unpack_go error_prefix bs" using u by (simp add: unpack_from_def split: if_splits)
    have "pack error_prefix vs = Inr (take 29 bs)"
      using pack_unpack_go [of error_prefix bs] l by (simp add: go error_prefix_def)
    then show ?thesis
      using utf8.enc_dec [OF t] l rq f unfolding encode_error_iff
      by (intro exI [of _ "drop 29 bs"] exI [of _ "take 29 bs"]) (simp add: m)
  qed
qed

section \<open>Properties\<close>

text \<open>C35 (roundtrip). For every device command and response of \<open>messages.py\<close> other than CAPTURE\_ONCE, a payload
  decodes to a message exactly when it is the encoding of that message: what is sent is what is
  read, and there is no second byte string for the same message. This covers the fixed layouts,
  SET\_CONFIG with its nested configuration, and ERROR with its UTF-8 text.\<close>

theorem message_payloads_canonical:
  "(decode_hello_request bs = Inr m1 \<longleftrightarrow> encode_hello_request m1 = Inr bs) \<and>
   (decode_hello_response bs = Inr m2 \<longleftrightarrow> encode_hello_response m2 = Inr bs) \<and>
   (decode_set_config_request bs = Inr m3 \<longleftrightarrow> encode_set_config_request m3 = Inr bs) \<and>
   (decode_capabilities_response bs = Inr m4 \<longleftrightarrow> encode_capabilities_response m4 = Inr bs) \<and>
   (decode_start_periodic_request bs = Inr m5 \<longleftrightarrow> encode_start_periodic_request m5 = Inr bs) \<and>
   (decode_renew_periodic_lease bs = Inr m6 \<longleftrightarrow> encode_renew_periodic_lease m6 = Inr bs) \<and>
   (decode_stop_request bs = Inr m7 \<longleftrightarrow> encode_stop_request m7 = Inr bs) \<and>
   (decode_status_response bs = Inr m8 \<longleftrightarrow> encode_status_response m8 = Inr bs) \<and>
   (decode_io2_loopback_request bs = Inr m9 \<longleftrightarrow> encode_io2_loopback_request m9 = Inr bs) \<and>
   (decode_io2_loopback_result bs = Inr m10 \<longleftrightarrow> encode_io2_loopback_result m10 = Inr bs) \<and>
   (decode_ack bs = Inr m11 \<longleftrightarrow> encode_ack m11 = Inr bs) \<and>
   (decode_error bs = Inr m12 \<longleftrightarrow> encode_error m12 = Inr bs)"
  by (intro conjI hello_request.dec_iff hello_response.dec_iff set_config.dec_iff
      capabilities.dec_iff start_periodic.dec_iff renew_periodic.dec_iff stop_request.dec_iff
      status_response.dec_iff io2_loopback_request.dec_iff io2_loopback_result.dec_iff
      ack.dec_iff error_codec.dec_iff)

lemma capture_once_pack_zeroed:
  assumes "unpack capture_once_layout bs = Inr vs"
  shows "pack capture_once_layout vs = Inr (take 53 bs @ replicate 3 0 @ drop 56 bs)"
proof -
  let ?z = "take 53 bs @ replicate 3 0 @ drop 56 bs"
  have l: "length bs = 60" using unpack_length [OF assms] by (simp add: capture_once_layout_def)
  have "unpack capture_once_layout ?z = Inr vs"
    using assms l by (simp add: unpack_def capture_once_layout_def drop_take)
  moreover have "pads_zero capture_once_layout ?z"
    using l by (simp add: capture_once_layout_def)
  ultimately show ?thesis by (rule pack_unpack)
qed

text \<open>CAPTURE\_ONCE reads back what was sent, but its decoder ignores the three reserved bytes:
  a 60-byte payload decodes to \<open>m\<close> exactly when \<open>m\<close> encodes to that payload with bytes 53 to 55
  set to zero. It is the one codec of \<open>messages.py\<close> with several byte strings per message.\<close>

theorem capture_once_payload:
  "decode_capture_once_request bs = Inr m \<longleftrightarrow>
     length bs = 60 \<and> encode_capture_once_request m = Inr (take 53 bs @ replicate 3 0 @ drop 56 bs)"
proof
  assume d: "decode_capture_once_request bs = Inr m"
  then obtain vs where u: "unpack capture_once_layout bs = Inr vs" and m: "m = capture_once_of vs"
    and ok: "capture_once_ok m"
    by (auto simp: capture_once.dec_iff_unpack)
  have f: "fits capture_once_layout vs" by (rule fits_unpack [OF u])
  have t: "capture_once_tuple m = vs" unfolding m by (rule capture_once.tuple_forth [OF f])
  show "length bs = 60 \<and> encode_capture_once_request m = Inr (take 53 bs @ replicate 3 0 @ drop 56 bs)"
    using ok f capture_once_pack_zeroed [OF u] unpack_length [OF u]
    by (auto simp: capture_once.enc_ok_iff t fits_iff capture_once_layout_def)
next
  let ?z = "take 53 bs @ replicate 3 0 @ drop 56 bs"
  assume e: "length bs = 60 \<and> encode_capture_once_request m = Inr ?z"
  then have "decode_capture_once_request ?z = Inr m" by (simp add: capture_once.dec_enc)
  moreover have "decode_capture_once_request ?z = decode_capture_once_request bs"
    using e by (simp add: decode_capture_once_request_def unpack_def capture_once_layout_def drop_take)
  ultimately show "decode_capture_once_request bs = Inr m" by simp
qed

lemma hello_request_outcome: "decode_hello_request bs \<in> range Inr \<union> {Inl ValueError}"
proof (cases "decode_hello_request bs")
  case (Inl e)
  have bad: "e = ValueError" if "hq_max_version m \<in> {0..255}" "encode_hello_request m = Inl e" for m
    using that by (auto simp: encode_hello_request_def rbind_Inl_iff hello_request_layout_def
        pack.simps frange_def split: if_splits)
  have range: "vint (vs ! 2) \<in> {0..255}" if "unpack hello_request_layout bs = Inr vs" for vs
    using fits_unpack [OF that] by (auto simp: hello_request_layout_def frange_def)
  have "e = ValueError"
  proof (cases "unpack hello_request_layout bs")
    case (Inl e')
    then show ?thesis using \<open>decode_hello_request bs = Inl e\<close>
      by (auto simp: decode_hello_request_def unpack_def hello_request_layout_def split: if_splits)
  next
    case (Inr vs)
    then show ?thesis
      using \<open>decode_hello_request bs = Inl e\<close> range [OF Inr]
        bad [of "\<lparr>hq_host_nonce = vbytes (vs ! 0), hq_min_version = vint (vs ! 1),
           hq_max_version = vint (vs ! 2)\<rparr>"]
      by (auto simp: decode_hello_request_def Let_def rbind_Inl_iff split: if_splits)
  qed
  then show ?thesis using Inl by simp
qed auto

lemma create_outcome: "create i n pre adc aux vref burst ps schema \<in> range Inr \<union> {Inl ValueError}"
  by (auto simp: create_eq Let_def)

lemma decode_config_outcome: "decode_config_v2 data \<in> range Inr \<union> {Inl ValueError}"
proof (cases "decode_config_v2 data")
  case (Inl e)
  have ce: "create i n pre adc aux vref burst ps schema = Inl e' \<Longrightarrow> e' = ValueError"
    for i n pre adc aux vref burst ps schema e'
    using create_outcome [of i n pre adc aux vref burst ps schema] by auto
  show ?thesis
    using Inl by (auto simp: decode_config_v2_def rbind_Inl_iff Let_def unpack_from_def
        dest: ce split: if_splits)
qed auto

text \<open>Every payload decoder is safe on untrusted bytes: it returns a message or raises
  \<open>ValueError\<close>, which is what the receivers catch; no \<open>struct.error\<close>, \<open>IndexError\<close> or
  \<open>UnicodeDecodeError\<close> can escape.\<close>

theorem message_decoders_raise_only_ValueError:
  "decode_config_v2 bs \<in> range Inr \<union> {Inl ValueError} \<and>
   decode_hello_request bs \<in> range Inr \<union> {Inl ValueError} \<and>
   decode_hello_response bs \<in> range Inr \<union> {Inl ValueError} \<and>
   decode_set_config_request bs \<in> range Inr \<union> {Inl ValueError} \<and>
   decode_capture_once_request bs \<in> range Inr \<union> {Inl ValueError} \<and>
   decode_capabilities_response bs \<in> range Inr \<union> {Inl ValueError} \<and>
   decode_start_periodic_request bs \<in> range Inr \<union> {Inl ValueError} \<and>
   decode_renew_periodic_lease bs \<in> range Inr \<union> {Inl ValueError} \<and>
   decode_stop_request bs \<in> range Inr \<union> {Inl ValueError} \<and>
   decode_status_response bs \<in> range Inr \<union> {Inl ValueError} \<and>
   decode_io2_loopback_request bs \<in> range Inr \<union> {Inl ValueError} \<and>
   decode_io2_loopback_result bs \<in> range Inr \<union> {Inl ValueError} \<and>
   decode_ack bs \<in> range Inr \<union> {Inl ValueError} \<and>
   decode_error bs \<in> range Inr \<union> {Inl ValueError}"
proof -
  have "decode_set_config_request bs \<in> range Inr \<union> {Inl ValueError}"
    using decode_config_outcome [of "drop 48 bs"] by (auto simp: decode_set_config_request_def)
  then show ?thesis
    by (intro conjI decode_config_outcome hello_request_outcome hello_response.dec_outcome
        capture_once.dec_outcome capabilities.dec_outcome start_periodic.dec_outcome
        renew_periodic.dec_outcome stop_request.dec_outcome status_response.dec_outcome
        io2_loopback_request.dec_outcome io2_loopback_result.dec_outcome ack.dec_outcome
        decode_error_outcome)
qed

text \<open>A payload, if the encoder produced one, is admitted by the flag and length policy.\<close>

definition admitted :: "MessageType \<Rightarrow> int \<Rightarrow> bytes res \<Rightarrow> bool" where
  "admitted t fl r = (case r of Inl e \<Rightarrow> True
     | Inr bs \<Rightarrow> flags_are_valid_for_message t fl \<and> payload_length_is_valid t fl (int (length bs)))"

lemma admittedI:
  "(\<And>bs. r = Inr bs \<Longrightarrow> length bs = n) \<Longrightarrow> flags_are_valid_for_message t fl \<Longrightarrow>
   payload_length_is_valid t fl (int n) \<Longrightarrow> admitted t fl r"
  by (auto simp: admitted_def split: sum.split)

lemmas policy_simps = flags_are_valid_for_message_def payload_length_is_valid_def flag_list_defs
  even_range_def

lemma encode_error_length: "encode_error m = Inr bs \<Longrightarrow> 29 \<le> length bs \<and> length bs \<le> 92"
  by (auto simp: encode_error_iff error_prefix_def dest!: pack_length)

lemma payloads_admitted:
  "admitted HELLO FLAG_NONE (encode_hello_request m1)"
  "admitted HELLO FLAG_RESPONSE (encode_hello_response m2)"
  "admitted SET_CONFIG FLAG_NONE (encode_set_config_request m3)"
  "admitted GET_CONFIG FLAG_RESPONSE (encode_config_v2 c)"
  "admitted CAPTURE_ONCE FLAG_NONE (encode_capture_once_request m4)"
  "admitted GET_CAPABILITIES FLAG_RESPONSE (encode_capabilities_response m5)"
  "admitted START_PERIODIC FLAG_NONE (encode_start_periodic_request m6)"
  "admitted RENEW_PERIODIC_LEASE FLAG_NONE (encode_renew_periodic_lease m7)"
  "admitted RENEW_PERIODIC_LEASE FLAG_RESPONSE (encode_renew_periodic_lease m7)"
  "admitted STOP FLAG_NONE (encode_stop_request m8)"
  "admitted GET_STATUS FLAG_RESPONSE (encode_status_response m9)"
  "admitted RUN_IO2_LOOPBACK_TEST FLAG_NONE (encode_io2_loopback_request m10)"
  "admitted RUN_IO2_LOOPBACK_TEST FLAG_RESPONSE (encode_io2_loopback_result m11)"
  "admitted ACK FLAG_RESPONSE (encode_ack m12)"
  "admitted ERROR FLAG_RESPONSE (encode_error m13)"
proof -
  show "admitted HELLO FLAG_NONE (encode_hello_request m1)"
    by (rule admittedI [of _ 20]) (auto simp: policy_simps dest: hello_request.enc_length)
  show "admitted SET_CONFIG FLAG_NONE (encode_set_config_request m3)"
    by (auto simp: admitted_def policy_simps dest!: encode_set_config_length split: sum.split)
  show "admitted GET_CONFIG FLAG_RESPONSE (encode_config_v2 c)"
    by (auto simp: admitted_def policy_simps encode_config_v2_eq length_config_bytes config_ok_def
        values_ok_def pairs_ok_def)
  show "admitted ERROR FLAG_RESPONSE (encode_error m13)"
    by (auto simp: admitted_def policy_simps dest!: encode_error_length split: sum.split)
qed (rule admittedI [OF hello_response.enc_length] admittedI [OF capture_once.enc_length]
      admittedI [OF capabilities.enc_length] admittedI [OF start_periodic.enc_length]
      admittedI [OF renew_periodic.enc_length] admittedI [OF stop_request.enc_length]
      admittedI [OF status_response.enc_length] admittedI [OF io2_loopback_request.enc_length]
      admittedI [OF io2_loopback_result.enc_length] admittedI [OF ack.enc_length],
     assumption, simp_all add: policy_simps hello_response_layout_def capture_once_layout_def
      capabilities_layout_def start_periodic_layout_def renew_periodic_layout_def
      stop_request_layout_def status_response_layout_def io2_loopback_request_layout_def
      io2_loopback_result_layout_def ack_layout_def)+


text \<open>The codecs and the stream parser agree: every payload that an encoder of \<open>messages.py\<close>
  or \<open>config_v2.py\<close> can produce, sent with the flags of its direction, has a length and flags that
  the parser's policy admits for its type, so the peer's parser never drops it as malformed.\<close>

theorem encoded_payloads_pass_the_policy:
  "admitted HELLO FLAG_NONE (encode_hello_request m1) \<and>
   admitted HELLO FLAG_RESPONSE (encode_hello_response m2) \<and>
   admitted SET_CONFIG FLAG_NONE (encode_set_config_request m3) \<and>
   admitted GET_CONFIG FLAG_RESPONSE (encode_config_v2 c) \<and>
   admitted CAPTURE_ONCE FLAG_NONE (encode_capture_once_request m4) \<and>
   admitted GET_CAPABILITIES FLAG_RESPONSE (encode_capabilities_response m5) \<and>
   admitted START_PERIODIC FLAG_NONE (encode_start_periodic_request m6) \<and>
   admitted RENEW_PERIODIC_LEASE FLAG_NONE (encode_renew_periodic_lease m7) \<and>
   admitted RENEW_PERIODIC_LEASE FLAG_RESPONSE (encode_renew_periodic_lease m7) \<and>
   admitted STOP FLAG_NONE (encode_stop_request m8) \<and>
   admitted GET_STATUS FLAG_RESPONSE (encode_status_response m9) \<and>
   admitted RUN_IO2_LOOPBACK_TEST FLAG_NONE (encode_io2_loopback_request m10) \<and>
   admitted RUN_IO2_LOOPBACK_TEST FLAG_RESPONSE (encode_io2_loopback_result m11) \<and>
   admitted ACK FLAG_RESPONSE (encode_ack m12) \<and>
   admitted ERROR FLAG_RESPONSE (encode_error m13)"
  by (intro conjI payloads_admitted)

end
