(* ===== verification/Safety.thy ===== *)
theory Safety
  imports Config_V2
begin

text \<open>
  \<open>safety.py\<close>, the project policy on top of a data-sheet-valid configuration, and
  \<open>tuss4470_spi.py\<close>, the SPI command encoder. The policy theorem turns the masked tests of the
  code into what they leave of each register; the SPI theorem shows odd parity and that the
  command, the address and the value can be read back from the two bytes.
\<close>

section \<open>Register policy\<close>

text \<open>\<open>BOOSTXL_DIRECT_WRITE_MASKS\<close>, in the dictionary's insertion order.\<close>

definition BOOSTXL_DIRECT_WRITE_MASKS :: "(int \<times> int) list" where
  "BOOSTXL_DIRECT_WRITE_MASKS =
     [(0x10, 0xFF), (0x11, 0x3F), (0x12, 0xFF), (0x13, 0xC7), (0x14, 0x1F), (0x16, 0x7F),
      (0x17, 0x1F), (0x18, 0xFF), (0x1A, 0xFF), (0x1B, 0xC3)]"

text \<open>\<open>dict(pairs)\<close>: a later pair replaces an earlier one.\<close>

definition dict_of :: "(int \<times> int) list \<Rightarrow> int \<rightharpoonup> int" where
  "dict_of ps = map_of (rev ps)"

text \<open>The loop over the write masks; \<open>registers[address]\<close> raises \<open>KeyError\<close> when absent.\<close>

fun check_masks :: "(int \<rightharpoonup> int) \<Rightarrow> (int \<times> int) list \<Rightarrow> unit res" where
  "check_masks registers [] = Inr ()"
| "check_masks registers ((address, write_mask) # ms) =
     (case registers address of
        None \<Rightarrow> Inl KeyError
      | Some v \<Rightarrow> if v AND NOT write_mask \<noteq> 0 then Inl ValueError else check_masks registers ms)"

definition lookup_reg :: "(int \<rightharpoonup> int) \<Rightarrow> int \<Rightarrow> int res" where
  "lookup_reg registers a = (case registers a of None \<Rightarrow> Inl KeyError | Some v \<Rightarrow> Inr v)"

definition validate_boostxl_direct_applied_config :: "AcquisitionConfigV2 \<Rightarrow> unit res" where
  "validate_boostxl_direct_applied_config config =
     (let registers = dict_of (register_pairs config) in
      if fst ` set (register_pairs config) \<noteq> fst ` set BOOSTXL_DIRECT_WRITE_MASKS
      then Inl ValueError
      else
        rbind (check_masks registers BOOSTXL_DIRECT_WRITE_MASKS) (\<lambda>_.
        if sample_count config \<noteq> 2048 then Inl ValueError
        else if \<not> (120 \<le> sample_interval_ticks config \<and> sample_interval_ticks config \<le> 960)
        then Inl ValueError
        else
          rbind (lookup_reg registers 0x1A) (\<lambda>burst.
          if burst AND 0x3F = 0 then Inl ValueError
          else if burst AND 0x40 \<noteq> 0 then Inl ValueError
          else
            rbind (lookup_reg registers 0x13) (\<lambda>r13.
            if r13 AND 0x04 \<noteq> 0 then Inl ValueError
            else
              rbind (lookup_reg registers 0x16) (\<lambda>vdrv.
              if vdrv AND 0x10 \<noteq> 0 then Inl ValueError
              else if vdrv AND 0x0F \<noteq> 0 then Inl ValueError
              else if vdrv AND 0x20 \<noteq> 0 then Inl ValueError
              else
                rbind (lookup_reg registers 0x1B) (\<lambda>tof.
                if tof AND (0x01 OR 0x40 OR 0x80) \<noteq> 0 then Inl ValueError
                else Inr ()))))))"

lemma dom_dict_of: "dom (dict_of ps) = fst ` set ps"
  by (simp add: dict_of_def dom_map_of_conv_image_fst)

lemma check_masks_iff:
  "check_masks r ms = Inr u \<longleftrightarrow> (\<forall>(a, m) \<in> set ms. \<exists>v. r a = Some v \<and> v AND NOT m = 0)"
  by (induction ms) (auto split: option.splits)

text \<open>What a mask test leaves of a register: the submasks of the write mask.\<close>

lemma and_not_eq_0_range:
  fixes v m :: int
  assumes "v AND NOT m = 0" and "0 \<le> m" and "m < 256"
  shows "0 \<le> v \<and> v < 256 \<and> v AND m = v"
proof -
  have vm: "v AND m = v"
  proof (rule bit_eqI)
    fix n
    have "bit (v AND NOT m) n = False" using assms(1) by simp
    then show "bit (v AND m) n = bit v n" by (auto simp: bit_simps)
  qed
  moreover have "v AND m < 256"
    using assms(2,3) AND_upper2 [of m v] by (simp add: AND_upper2')
  ultimately show ?thesis using assms(2) by (metis and_nonnegative_int_iff)
qed

text \<open>
  Each register is a byte once its mask test has passed, so what the tests leave of it is a
  finite check.
\<close>

lemma byte_check:
  fixes v m :: int
  assumes "0 \<le> m" "m < 256" and "list_all (\<lambda>v. (v AND NOT m = 0 \<and> P v) = Q v) [0..255]"
    and "\<And>v. Q v \<Longrightarrow> 0 \<le> v \<and> v < 256"
  shows "v AND NOT m = 0 \<and> P v \<longleftrightarrow> Q v"
proof (cases "0 \<le> v \<and> v < 256")
  case True
  then show ?thesis using assms(3) by (auto simp: list_all_iff)
next
  case False
  then show ?thesis using and_not_eq_0_range [of v m] assms(1,2,4) by blast
qed

lemma r13_check: "v AND NOT 0xC7 = 0 \<and> v AND 0x04 = 0 \<longleftrightarrow> v \<in> {0..255} \<and> v mod 64 \<le> (3 :: int)"
  by (rule byte_check) (simp_all, code_simp)

lemma r16_check:
  "v AND NOT 0x7F = 0 \<and> v AND 0x10 = 0 \<and> v AND 0x0F = 0 \<and> v AND 0x20 = 0 \<longleftrightarrow> v \<in> {0, 0x40 :: int}"
  by (rule byte_check) (simp_all, code_simp, auto)

lemma r1A_check:
  "v AND NOT 0xFF = 0 \<and> v AND 0x3F \<noteq> 0 \<and> v AND 0x40 = 0 \<longleftrightarrow> v \<in> {1..63} \<union> {129..191 :: int}"
  by (rule byte_check) (simp_all, code_simp, auto)

lemma r1B_check: "v AND NOT 0xC3 = 0 \<and> v AND (0x01 OR 0x40 OR 0x80) = 0 \<longleftrightarrow> v \<in> {0, 2 :: int}"
  by (rule byte_check) (simp_all, code_simp, auto)

lemma full_mask_check:
  "v AND NOT 0xFF = 0 \<longleftrightarrow> v \<in> {0..255 :: int}" "v AND NOT 0x3F = 0 \<longleftrightarrow> v \<in> {0..63 :: int}"
  "v AND NOT 0x1F = 0 \<longleftrightarrow> v \<in> {0..31 :: int}"
  using int_and_not_mask_iff [of v 8] int_and_not_mask_iff [of v 6] int_and_not_mask_iff [of v 5]
  by (simp_all add: mask_eq_exp_minus_1) linarith+

text \<open>
  The hardware envelope of the approved topology, register by register: the complete image, no
  reserved bit, 2048 samples, a finite burst of 1 to 63 pulses without pre-driver mode, the 3.3 V
  output range, 5 V internal VDRV at 10 mA, and none of the trigger, standby and sleep bits.
\<close>

definition boostxl_safe :: "AcquisitionConfigV2 \<Rightarrow> bool" where
  "boostxl_safe c \<longleftrightarrow> sample_count c = 2048 \<and> sample_interval_ticks c \<in> {120..960} \<and>
     (let registers = dict_of (register_pairs c); r = (\<lambda>a. the (registers a)) in
        dom registers = {0x10, 0x11, 0x12, 0x13, 0x14, 0x16, 0x17, 0x18, 0x1A, 0x1B} \<and>
        r 0x10 \<in> {0..255} \<and> r 0x11 \<in> {0..63} \<and> r 0x12 \<in> {0..255} \<and>
        r 0x13 \<in> {0..255} \<and> r 0x13 mod 64 \<le> 3 \<and> r 0x14 \<in> {0..31} \<and> r 0x16 \<in> {0, 0x40} \<and>
        r 0x17 \<in> {0..31} \<and> r 0x18 \<in> {0..255} \<and> r 0x1A \<in> {1..63} \<union> {129..191} \<and>
        r 0x1B \<in> {0, 2})"

lemma check_masks_complete:
  assumes "fst ` set ms \<subseteq> dom r"
  shows "check_masks r ms =
    (if list_all (\<lambda>(a, m). the (r a) AND NOT m = 0) ms then Inr () else Inl ValueError)"
  using assms by (induction ms) (auto split: option.splits)

lemma validate_boostxl_eq:
  "validate_boostxl_direct_applied_config c = (if boostxl_safe c then Inr () else Inl ValueError)"
proof (cases "dom (dict_of (register_pairs c)) =
    {0x10, 0x11, 0x12, 0x13, 0x14, 0x16, 0x17, 0x18, 0x1A, 0x1B}")
  case True
  define r where "r = (\<lambda>a. the (dict_of (register_pairs c) a))"
  have masks: "fst ` set BOOSTXL_DIRECT_WRITE_MASKS = dom (dict_of (register_pairs c))"
    by (simp add: True BOOSTXL_DIRECT_WRITE_MASKS_def)
  then have d: "fst ` set (register_pairs c) = fst ` set BOOSTXL_DIRECT_WRITE_MASKS"
    by (simp add: dom_dict_of)
  have m: "check_masks (dict_of (register_pairs c)) BOOSTXL_DIRECT_WRITE_MASKS =
    (if r 0x10 AND NOT 0xFF = 0 \<and> r 0x11 AND NOT 0x3F = 0 \<and> r 0x12 AND NOT 0xFF = 0 \<and>
        r 0x13 AND NOT 0xC7 = 0 \<and> r 0x14 AND NOT 0x1F = 0 \<and> r 0x16 AND NOT 0x7F = 0 \<and>
        r 0x17 AND NOT 0x1F = 0 \<and> r 0x18 AND NOT 0xFF = 0 \<and> r 0x1A AND NOT 0xFF = 0 \<and>
        r 0x1B AND NOT 0xC3 = 0 then Inr () else Inl ValueError)"
    using check_masks_complete [OF equalityD1 [OF masks]]
    by (simp add: BOOSTXL_DIRECT_WRITE_MASKS_def r_def)
  have l: "lookup_reg (dict_of (register_pairs c)) a = Inr (r a)"
    if "a \<in> dom (dict_of (register_pairs c))" for a
    using that by (auto simp: lookup_reg_def r_def)
  have l': "lookup_reg (dict_of (register_pairs c)) 0x1A = Inr (r 0x1A)"
    "lookup_reg (dict_of (register_pairs c)) 0x13 = Inr (r 0x13)"
    "lookup_reg (dict_of (register_pairs c)) 0x16 = Inr (r 0x16)"
    "lookup_reg (dict_of (register_pairs c)) 0x1B = Inr (r 0x1B)"
    by (rule l; simp add: True)+
  have safe: "boostxl_safe c \<longleftrightarrow> sample_count c = 2048 \<and>
      (120 \<le> sample_interval_ticks c \<and> sample_interval_ticks c \<le> 960) \<and>
      r 0x10 AND NOT 0xFF = 0 \<and> r 0x11 AND NOT 0x3F = 0 \<and> r 0x12 AND NOT 0xFF = 0 \<and>
      (r 0x13 AND NOT 0xC7 = 0 \<and> r 0x13 AND 0x04 = 0) \<and> r 0x14 AND NOT 0x1F = 0 \<and>
      (r 0x16 AND NOT 0x7F = 0 \<and> r 0x16 AND 0x10 = 0 \<and> r 0x16 AND 0x0F = 0 \<and> r 0x16 AND 0x20 = 0) \<and>
      r 0x17 AND NOT 0x1F = 0 \<and> r 0x18 AND NOT 0xFF = 0 \<and>
      (r 0x1A AND NOT 0xFF = 0 \<and> r 0x1A AND 0x3F \<noteq> 0 \<and> r 0x1A AND 0x40 = 0) \<and>
      (r 0x1B AND NOT 0xC3 = 0 \<and> r 0x1B AND (0x01 OR 0x40 OR 0x80) = 0)"
    unfolding r13_check r16_check r1A_check r1B_check
    unfolding full_mask_check boostxl_safe_def Let_def r_def True
    by (simp only: atLeastAtMost_iff simp_thms conj_assoc)
  have "validate_boostxl_direct_applied_config c = Inr () \<longleftrightarrow> boostxl_safe c"
    unfolding safe validate_boostxl_direct_applied_config_def Let_def m l' rbind_Inr_iff if_Inl_eq_Inr
    by (simp only: d not_not simp_thms rbind_Inr_iff if_Inl_eq_Inr sum.inject) blast
  moreover have "e = ValueError" if "validate_boostxl_direct_applied_config c = Inl e" for e
    using that unfolding validate_boostxl_direct_applied_config_def Let_def m l'
    by (simp only: d l' rbind_simps rbind_Inl_iff split: if_splits) simp_all
  ultimately show ?thesis
    by (cases "validate_boostxl_direct_applied_config c") auto
next
  case False
  then have "fst ` set (register_pairs c) \<noteq> fst ` set BOOSTXL_DIRECT_WRITE_MASKS"
    by (simp add: dom_dict_of BOOSTXL_DIRECT_WRITE_MASKS_def)
  moreover have "\<not> boostxl_safe c"
    using False by (simp add: boostxl_safe_def Let_def)
  ultimately show ?thesis
    by (simp add: validate_boostxl_direct_applied_config_def Let_def)
qed

text \<open>C34 (safety). The applied-configuration policy accepts a configuration exactly when every register is
  inside the approved hardware envelope (in particular VDRV is one of the two 5 V settings, the
  burst is finite, the output stays in the 3.3 V range and no trigger, standby or sleep bit is
  set), and every other configuration is refused with \<open>ValueError\<close>: no register lookup can fail.\<close>

theorem applied_config_policy:
  "validate_boostxl_direct_applied_config c = (if boostxl_safe c then Inr () else Inl ValueError)"
  by (rule validate_boostxl_eq)

section \<open>SPI commands\<close>

text \<open>\<open>int.bit_count\<close> on a natural number.\<close>

fun bit_count :: "nat \<Rightarrow> nat" where
  "bit_count n = (if n = 0 then 0 else n mod 2 + bit_count (n div 2))"

declare bit_count.simps [simp del]

text \<open>
  \<open>_encode\<close>. The arguments are integers by type; \<open>frame\<close> is never negative here, so it is a
  natural number and \<open>to_bytes(2, "big")\<close> raises \<open>OverflowError\<close> above 16 bits.
\<close>

definition to_bytes_2_big :: "nat \<Rightarrow> bytes res" where
  "to_bytes_2_big n =
     (if n < 65536 then Inr [word_of_int (int n div 256), word_of_int (int n mod 256)]
      else Inl OverflowError)"

definition spi_encode :: "int \<Rightarrow> int \<Rightarrow> bool \<Rightarrow> bytes res" where
  "spi_encode address val read =
     (if \<not> (0 \<le> address \<and> address \<le> 0x3F) then Inl ValueError
      else if \<not> (0 \<le> val \<and> val \<le> 0xFF) then Inl ValueError
      else
        let frame = (push_bit 15 (of_bool read) OR push_bit 9 (nat address)) OR nat val;
            frame' = (if bit_count frame mod 2 = 0 then frame OR push_bit 8 1 else frame)
        in to_bytes_2_big frame')"

definition encode_write :: "int \<Rightarrow> int \<Rightarrow> bytes res" where
  "encode_write address val = spi_encode address val False"

definition encode_read :: "int \<Rightarrow> bytes res" where
  "encode_read address = spi_encode address 0 True"

lemma bit_count_0 [simp]: "bit_count 0 = 0"
  by (simp add: bit_count.simps)

lemma bit_count_rec: "bit_count n = n mod 2 + bit_count (n div 2)"
  by (cases "n = 0") (simp_all add: bit_count.simps [of n])

lemma bit_count_split: "v < 2 ^ k \<Longrightarrow> bit_count (u * 2 ^ k + v) = bit_count u + bit_count v"
proof (induction k arbitrary: v)
  case (Suc k)
  have "u * 2 ^ Suc k + v = v + u * 2 ^ k * 2" by simp
  then have "(u * 2 ^ Suc k + v) mod 2 = v mod 2" "(u * 2 ^ Suc k + v) div 2 = u * 2 ^ k + v div 2"
    by (simp_all only: mod_mult_self1 div_mult_self1 zero_neq_numeral not_False_eq_True)
  moreover have "v div 2 < 2 ^ k" using Suc.prems by simp
  ultimately show ?case
    using Suc.IH [of "v div 2"] bit_count_rec [of "u * 2 ^ Suc k + v"] bit_count_rec [of v] by simp
qed simp

lemma or_push_bit_plus: "v < 2 ^ k \<Longrightarrow> push_bit k u OR v = u * 2 ^ k + (v :: nat)"
proof -
  assume v: "v < 2 ^ k"
  have "push_bit k u + v = push_bit k u OR v"
  proof (rule disjunctive_add_eq_or, rule bit_eqI)
    fix n
    have "\<not> bit v n" if "k \<le> n"
      using v that by (metis bit_take_bit_iff linorder_not_le take_bit_nat_eq_self)
    then show "bit (push_bit k u AND v) n = bit 0 n"
      by (auto simp: bit_simps)
  qed
  then show ?thesis by (simp add: push_bit_eq_mult)
qed

text \<open>The 16 bits of a command: read flag, six address bits, parity bit, eight value bits.\<close>

definition spi_word :: "bool \<Rightarrow> nat \<Rightarrow> bool \<Rightarrow> nat \<Rightarrow> nat" where
  "spi_word read a parity v = of_bool read * 32768 + a * 512 + of_bool parity * 256 + v"

lemma spi_word_bit_count:
  assumes "a < 64" and "v < 256"
  shows "bit_count (spi_word read a parity v) =
    of_bool read + bit_count a + of_bool parity + bit_count v"
proof -
  have "spi_word read a parity v = (of_bool read * 64 + a) * 2 ^ 9 + (of_bool parity * 2 ^ 8 + v)"
    by (simp add: spi_word_def)
  also have "bit_count \<dots> = bit_count (of_bool read * 2 ^ 6 + a) + bit_count (of_bool parity * 2 ^ 8 + v)"
    using assms by (subst bit_count_split) (auto simp: of_bool_def)
  also have "\<dots> = bit_count (of_bool read) + bit_count a + (bit_count (of_bool parity) + bit_count v)"
    using bit_count_split [of a 6 "of_bool read"] bit_count_split [of v 8 "of_bool parity"] assms by simp
  also have "bit_count (of_bool read) = of_bool read"
    using bit_count_rec [of 1] by simp
  also have "bit_count (of_bool parity) = of_bool parity"
    using bit_count_rec [of 1] by simp
  finally show ?thesis by simp
qed

lemma spi_word_False:
  "v < 256 \<Longrightarrow> spi_word read a False v = push_bit 9 (of_bool read * 64 + a) OR v"
  using or_push_bit_plus [of v 9 "of_bool read * 64 + a"] by (simp add: spi_word_def)

lemma spi_encode_eq:
  assumes "0 \<le> address" "address \<le> 0x3F" "0 \<le> val" "val \<le> 0xFF"
    and parity_def: "parity = even (of_bool read + bit_count (nat address) + bit_count (nat val))"
  shows "spi_encode address val read = to_bytes_2_big (spi_word read (nat address) parity (nat val))"
proof -
  let ?a = "nat address" and ?v = "nat val"
  have b: "?a < 64" "?v < 256" using assms(1-4) by auto
  have f1: "(push_bit 15 (of_bool read) OR push_bit 9 ?a) OR ?v = spi_word read ?a False ?v"
    using or_push_bit_plus [of "push_bit 9 ?a OR ?v" 15 "of_bool read"] or_push_bit_plus [of ?v 9 ?a] b
    by (simp add: or.assoc spi_word_def)
  have f2: "spi_word read ?a False ?v OR push_bit 8 1 = spi_word read ?a True ?v"
  proof -
    have "spi_word read ?a False ?v OR push_bit 8 1 =
        push_bit 9 (of_bool read * 64 + ?a) OR (push_bit 8 1 OR ?v)"
      unfolding spi_word_False [OF b(2)] by (simp only: or.commute or.left_commute or.assoc)
    also have "\<dots> = spi_word read ?a True ?v"
      using or_push_bit_plus [of ?v 8 1] or_push_bit_plus [of "256 + ?v" 9 "of_bool read * 64 + ?a"] b
      by (simp add: spi_word_def)
    finally show ?thesis .
  qed
  have p: "bit_count (spi_word read ?a False ?v) mod 2 = 0 \<longleftrightarrow> parity"
    using spi_word_bit_count [OF b, of read False] by (simp add: parity_def even_iff_mod_2_eq_zero)
  show ?thesis
    using assms(1-4) f2 by (simp add: spi_encode_def f1 p Let_def)
qed

text \<open>A TUSS4470 command that encodes at all (six-bit address, byte value) is two bytes whose
  16 bits have odd parity, and the read flag, the address and the value can be read back from
  them; anything else raises \<open>ValueError\<close>.\<close>

theorem spi_command_odd_parity:
  "(if 0 \<le> address \<and> address \<le> 0x3F \<and> 0 \<le> val \<and> val \<le> 0xFF
    then \<exists>hi lo. spi_encode address val read = Inr [hi, lo] \<and>
        odd (bit_count (nat (256 * uint hi + uint lo))) \<and>
        uint lo = val \<and> uint hi div 2 mod 64 = address \<and> (128 \<le> uint hi) = read
    else spi_encode address val read = Inl ValueError)"
proof (cases "0 \<le> address \<and> address \<le> 0x3F \<and> 0 \<le> val \<and> val \<le> 0xFF")
  case True
  let ?a = "nat address" and ?v = "nat val"
  define parity where "parity = even (of_bool read + bit_count ?a + bit_count ?v)"
  let ?w = "spi_word read ?a parity ?v"
  have b: "?a < 64" "?v < 256" using True by auto
  have w: "?w < 65536" using b by (simp add: spi_word_def of_bool_def)
  define hi lo :: byte where "hi = word_of_int (int ?w div 256)" and "lo = word_of_int (int ?w mod 256)"
  have e: "spi_encode address val read = Inr [hi, lo]"
    using True w spi_encode_eq [of address val parity read] by (simp add: parity_def to_bytes_2_big_def hi_def lo_def)
  have h: "int ?w div 256 = of_bool read * 128 + address * 2 + of_bool parity"
    and l: "int ?w mod 256 = val"
  proof -
    have "int ?w = val + (of_bool read * 128 + address * 2 + of_bool parity) * 256"
      using True by (simp add: spi_word_def)
    then show "int ?w div 256 = of_bool read * 128 + address * 2 + of_bool parity"
      and "int ?w mod 256 = val"
      using True by (simp_all only: div_mult_self1 mod_mult_self1) simp_all
  qed
  have odd: "odd (bit_count ?w)"
    using spi_word_bit_count [OF b, of read parity] by (auto simp: parity_def)
  have uhi: "uint hi = of_bool read * 128 + address * 2 + of_bool parity"
    unfolding hi_def uint_word_of_int_byte h
    using True by (intro mod_pos_pos_trivial) (simp_all add: of_bool_def)
  have ulo: "uint lo = val"
    unfolding lo_def uint_word_of_int_byte l using True by (intro mod_pos_pos_trivial) simp_all
  have "int ?w = 256 * uint hi + uint lo"
    using h l unfolding uhi ulo by (metis mult_div_mod_eq)
  then have "nat (256 * uint hi + uint lo) = ?w" by linarith
  moreover have "uint hi div 2 mod 64 = address"
  proof -
    have "uint hi div 2 = address + of_bool read * 64"
      unfolding uhi by (cases read; cases parity; simp)
    then show ?thesis using True by simp
  qed
  moreover have "(128 \<le> uint hi) = read"
    unfolding uhi using True by (cases read; cases parity; simp)
  ultimately have "\<exists>hi lo. spi_encode address val read = Inr [hi, lo] \<and>
        odd (bit_count (nat (256 * uint hi + uint lo))) \<and>
        uint lo = val \<and> uint hi div 2 mod 64 = address \<and> (128 \<le> uint hi) = read"
    using e odd ulo by (intro exI [of _ hi] exI [of _ lo]) (simp only: simp_thms)
  with True show ?thesis by (simp only: if_True simp_thms)
next
  case False
  then have "spi_encode address val read = Inl ValueError"
    by (auto simp: spi_encode_def)
  then show ?thesis using False by (simp only: if_False)
qed

end
