(* ===== verification/Simulator.thy ===== *)
theory Simulator
  imports Messages Capture_Data Safety
begin

text \<open>
  \<open>simulator.py\<close>: the deterministic protocol device. Its attributes are a record; a handler is a
  method that mutates the record and may raise, in the order of the source, so mutations made
  before an exception stay. The injected clock is read at most once per call, so its value is an
  argument \<open>clock\<close> of the call. \<open>_completed\<close>, the response cache, is a map.

  The theorems: an invariant that every call keeps, also a raising one (a running schedule implies
  HELLO and a configuration inside the hardware envelope); no capture without a live lease; the
  period grid and the missed count; exact replay of completed requests; and that every frame the
  device emits is accepted by the host's parser.
\<close>

section \<open>State\<close>

record PeriodicSchedule =
  ps_request_id :: bytes
  ps_schedule_id :: bytes
  ps_period_us :: int
  ps_capture_count :: int
  ps_lease_deadline_us :: int
  ps_next_capture_us :: int
  ps_completed_count :: int
  ps_lease_sequence :: int

record SimulatedDevice =
  sd_boot_id :: "bytes option"
  sd_config :: "AcquisitionConfigV2 option"
  sd_capture_sequence :: int
  sd_missed_capture_count :: int
  sd_last_error :: int
  sd_schedule :: "PeriodicSchedule option"
  sd_completed :: "int \<times> int \<times> bytes \<rightharpoonup> Frame list"

definition CONFIGURED_STATE :: int where "CONFIGURED_STATE = 2"
definition PERIODIC_STATE :: int where "PERIODIC_STATE = 6"
definition LEASE_EXPIRED_ERROR :: int where "LEASE_EXPIRED_ERROR = 18"

lemmas sim_consts = CONFIGURED_STATE_def PERIODIC_STATE_def LEASE_EXPIRED_ERROR_def

text \<open>The ASCII byte strings of the source.\<close>

definition ascii :: "string \<Rightarrow> bytes" where
  "ascii s = map (\<lambda>c. of_nat (of_char c)) s"

definition sim_device_id :: bytes where
  "sim_device_id = take 16 (sha256 (ascii ''USAC-SIMULATOR-DEVICE-V1''))"

definition new_device :: SimulatedDevice where
  "new_device = \<lparr>sd_boot_id = None, sd_config = None, sd_capture_sequence = 0,
     sd_missed_capture_count = 0, sd_last_error = 0, sd_schedule = None, sd_completed = Map.empty\<rparr>"

type_synonym 'a sim = "(SimulatedDevice, 'a) meth"

section \<open>Helpers\<close>

definition now_us :: "int \<Rightarrow> int res" where
  "now_us clock = (if clock < 0 then Inl ValueError else Inr clock)"

definition require_empty_payload :: "Frame \<Rightarrow> unit sim" where
  "require_empty_payload frame = mguard (payload frame = []) ValueError"

definition require_hello :: "unit sim" where
  "require_hello = mbind mget (\<lambda>d. mguard (sd_boot_id d \<noteq> None) ValueError)"

definition require_config :: "unit sim" where
  "require_config = mbind mget (\<lambda>d. mguard (sd_config d \<noteq> None) ValueError)"

text \<open>\<open>assert self.config is not None\<close>, \<open>assert self.boot_id is not None\<close>\<close>

definition the_config :: "AcquisitionConfigV2 sim" where
  "the_config = mbind mget (\<lambda>d. case sd_config d of None \<Rightarrow> mraise AssertionError | Some c \<Rightarrow> mret c)"

definition the_boot_id :: "bytes sim" where
  "the_boot_id = mbind mget (\<lambda>d. case sd_boot_id d of None \<Rightarrow> mraise AssertionError | Some b \<Rightarrow> mret b)"

definition expire_schedule :: "unit sim" where
  "expire_schedule = mupd (\<lambda>d. d\<lparr>sd_schedule := None, sd_last_error := LEASE_EXPIRED_ERROR\<rparr>)"

definition sim_event :: "AcquisitionConfigV2 \<Rightarrow> int \<Rightarrow> int \<Rightarrow> int \<Rightarrow> int \<Rightarrow> CaptureEvent" where
  "sim_event config channel sample_index edge level_after =
     (let subsample_tick = sample_interval_ticks config div 2 in
      \<lparr>ev_channel = channel, ev_edge = edge, ev_capture_method = 1, ev_level_after = level_after,
       ev_sample_index = sample_index, ev_subsample_tick = subsample_tick, ev_uncertainty_ticks = 1,
       ev_frame_offset_ticks = sample_index * sample_interval_ticks config + subsample_tick\<rparr>)"

text \<open>\<open>int.to_bytes(4, "little")\<close>\<close>

definition to_bytes_4_little :: "int \<Rightarrow> bytes res" where
  "to_bytes_4_little x = (if 0 \<le> x \<and> x < 2 ^ 32 then Inr (le_bytes 4 x) else Inl OverflowError)"

definition sim_samples :: "int \<Rightarrow> int list" where
  "sim_samples count = map (\<lambda>index. (index * 37 + 211) AND 0x0FFF) [0..count - 1]"

definition sim_events :: "AcquisitionConfigV2 \<Rightarrow> CaptureEvent list" where
  "sim_events config =
     (if aux_flags config AND 0x01 \<noteq> 0 then [sim_event config 3 96 1 1] else []) @
     (if aux_flags config AND 0x02 \<noteq> 0 then [sim_event config 4 128 2 0] else [])"

definition sim_capture_record ::
  "AcquisitionConfigV2 \<Rightarrow> bytes \<Rightarrow> bytes \<Rightarrow> bytes \<Rightarrow> int \<Rightarrow> bytes \<Rightarrow> CaptureData" where
  "sim_capture_record config boot_id request_id schedule_id seq seq_bytes =
     \<lparr>cd_request_id = request_id, cd_schedule_id = schedule_id,
      cd_capture_id = take 16 (sha256 (ascii ''USAC-SIM-CAPTURE-V1'' @ boot_id @ request_id @ seq_bytes)),
      cd_boot_id = boot_id, cd_device_id = sim_device_id, cd_profile_sha256 = profile_sha256 config,
      cd_device_config_crc32 = device_config_crc32 config, cd_capture_sequence = seq,
      cd_sample_interval_ticks = sample_interval_ticks config,
      cd_burst_period_ticks = burst_period_ticks config, cd_sample_count = sample_count config,
      cd_pretrigger_count = pretrigger_count config, cd_adc_bits = adc_bits config,
      cd_sample_encoding = 1, cd_vref_mv = vref_mv config, cd_smclk_nominal_hz = 24000000,
      cd_smclk_calibrated_hz = 24000000, cd_frame_start_tick48 = 1000000 + seq * 10000,
      cd_t_trigger_offset_ticks = 300, cd_adc0_hold_offset_ticks = -180, cd_adc_aperture_ns = 1000,
      cd_trigger_to_tx_output_ns = 125, cd_calibration_version = 1, cd_quality_flags = 0,
      cd_tuss_dev_stat = 0x08,
      cd_out3_start_level = (if aux_flags config AND 0x01 \<noteq> 0 then 0 else 0xFF),
      cd_out4_start_level = (if aux_flags config AND 0x02 \<noteq> 0 then 0 else 0xFF),
      cd_register_pairs = register_pairs config, cd_events = sim_events config,
      cd_samples = sim_samples (sample_count config)\<rparr>"

definition make_capture :: "bytes \<Rightarrow> bytes \<Rightarrow> CaptureData sim" where
  "make_capture request_id schedule_id =
     mbind the_config (\<lambda>config.
     mbind the_boot_id (\<lambda>boot_id.
     mbind (mupd (\<lambda>d. d\<lparr>sd_capture_sequence := sd_capture_sequence d + 1\<rparr>)) (\<lambda>_.
     mbind mget (\<lambda>d.
     mbind (mlift (to_bytes_4_little (sd_capture_sequence d))) (\<lambda>seq_bytes.
     mret (sim_capture_record config boot_id request_id schedule_id (sd_capture_sequence d) seq_bytes))))))"

definition sim_ack :: "Frame \<Rightarrow> bytes \<Rightarrow> int \<Rightarrow> Frame sim" where
  "sim_ack frame request_id state =
     mbind the_config (\<lambda>config.
     mbind (mlift (encode_ack \<lparr>ack_request_id = request_id,
              ack_acked_type = type_code (message_type frame), ack_resulting_state = state,
              ack_status_code = 0, ack_device_config_crc32 = device_config_crc32 config\<rparr>)) (\<lambda>p.
     mret (mk_frame ACK (sequence frame) p FLAG_RESPONSE)))"

section \<open>Handlers\<close>

definition sim_hello :: "Frame \<Rightarrow> Frame list sim" where
  "sim_hello frame =
     mbind (mlift (decode_hello_request (payload frame))) (\<lambda>request.
     mbind (mguard (hq_min_version request \<le> 1 \<and> 1 \<le> hq_max_version request) ValueError) (\<lambda>_.
     let boot_id = take 16 (sha256 (ascii ''USAC-BOOT-ID-V1'' @ sim_device_id @ hq_host_nonce request)) in
     mbind (mupd (\<lambda>d. d\<lparr>sd_boot_id := Some boot_id\<rparr>)) (\<lambda>_.
     mbind (mlift (encode_hello_response
              \<lparr>hr_host_nonce = hq_host_nonce request, hr_boot_id = boot_id,
               hr_device_id = sim_device_id, hr_negotiated_version = 1, hr_reset_reason = 0,
               hr_fw_major = 0, hr_fw_minor = 1, hr_fw_patch = 0, hr_fw_build = 1,
               hr_device_state = 0\<rparr>)) (\<lambda>p.
     mret [mk_frame HELLO (sequence frame) p FLAG_RESPONSE]))))"

definition sim_get_capabilities :: "Frame \<Rightarrow> Frame list sim" where
  "sim_get_capabilities frame =
     mbind (require_empty_payload frame) (\<lambda>_.
     mbind (mlift (encode_capabilities_response
              \<lparr>cap_capability_flags = 0x7F, cap_mcu_max_command_payload = 192,
               cap_max_samples = 2048, cap_min_sample_interval_ticks = 120,
               cap_max_sample_interval_ticks = 960, cap_min_burst_period_ticks = 24,
               cap_max_burst_period_ticks = 800, cap_max_register_pairs = 10,
               cap_max_out3_events = 8, cap_max_out4_events = 8, cap_adc_bits = 12,
               cap_supported_io_modes = 0x0F\<rparr>)) (\<lambda>p.
     mret [mk_frame GET_CAPABILITIES (sequence frame) p FLAG_RESPONSE]))"

definition sim_set_config :: "Frame \<Rightarrow> Frame list sim" where
  "sim_set_config frame =
     mbind require_hello (\<lambda>_.
     mbind (mlift (decode_set_config_request (payload frame))) (\<lambda>request.
     mbind mget (\<lambda>d.
     mbind (mguard (sc_expected_profile_sha256 request =
              (case sd_config d of None \<Rightarrow> replicate 32 0 | Some c \<Rightarrow> profile_sha256 c)) ValueError) (\<lambda>_.
     mbind (mlift (validate_boostxl_direct_applied_config (sc_config request))) (\<lambda>_.
     mbind (mupd (\<lambda>d. d\<lparr>sd_config := Some (sc_config request)\<rparr>)) (\<lambda>_.
     mbind (mlift (encode_ack \<lparr>ack_request_id = sc_request_id request,
              ack_acked_type = type_code SET_CONFIG, ack_resulting_state = 2, ack_status_code = 0,
              ack_device_config_crc32 = device_config_crc32 (sc_config request)\<rparr>)) (\<lambda>p.
     mret [mk_frame ACK (sequence frame) p FLAG_RESPONSE])))))))"

definition sim_get_config :: "Frame \<Rightarrow> Frame list sim" where
  "sim_get_config frame =
     mbind require_config (\<lambda>_.
     mbind the_config (\<lambda>config.
     mbind (mlift (encode_config_v2 config)) (\<lambda>p.
     mret [mk_frame GET_CONFIG (sequence frame) p FLAG_RESPONSE])))"

definition sim_capture_once :: "Frame \<Rightarrow> Frame list sim" where
  "sim_capture_once frame =
     mbind require_hello (\<lambda>_.
     mbind require_config (\<lambda>_.
     mbind (mlift (decode_capture_once_request (payload frame))) (\<lambda>request.
     mbind the_config (\<lambda>config.
     mbind the_boot_id (\<lambda>_.
     mbind (mguard (co_expected_profile_sha256 request = profile_sha256 config) ValueError) (\<lambda>_.
     mbind (mguard (co_expected_device_config_crc32 request = device_config_crc32 config) ValueError) (\<lambda>_.
     mbind (make_capture (co_request_id request) (replicate 16 0)) (\<lambda>capture.
     mbind (mlift (encode_ack \<lparr>ack_request_id = co_request_id request,
              ack_acked_type = type_code CAPTURE_ONCE, ack_resulting_state = 2, ack_status_code = 0,
              ack_device_config_crc32 = device_config_crc32 config\<rparr>)) (\<lambda>p.
     mbind (mlift (encode_capture_data capture)) (\<lambda>data.
     mret [mk_frame ACK (sequence frame) p FLAG_RESPONSE,
           mk_frame CAPTURE_DATA (sequence frame) data FLAG_RESPONSE]))))))))))"

definition sim_start_periodic :: "int \<Rightarrow> Frame \<Rightarrow> Frame list sim" where
  "sim_start_periodic clock frame =
     mbind require_hello (\<lambda>_.
     mbind require_config (\<lambda>_.
     mbind mget (\<lambda>d.
     mbind (mguard (sd_schedule d = None) ValueError) (\<lambda>_.
     mbind (mlift (decode_start_periodic_request (payload frame))) (\<lambda>request.
     mbind the_config (\<lambda>config.
     mbind (mguard (sp_expected_profile_sha256 request = profile_sha256 config) ValueError) (\<lambda>_.
     mbind (mguard (sp_expected_device_config_crc32 request = device_config_crc32 config) ValueError) (\<lambda>_.
     mbind (mguard (100000 \<le> sp_period_us request) ValueError) (\<lambda>_.
     mbind (mlift (now_us clock)) (\<lambda>now.
     mbind (mupd (\<lambda>d. d\<lparr>sd_schedule := Some
              \<lparr>ps_request_id = sp_request_id request, ps_schedule_id = sp_schedule_id request,
               ps_period_us = sp_period_us request, ps_capture_count = sp_capture_count request,
               ps_lease_deadline_us = now + sp_lease_timeout_ms request * 1000,
               ps_next_capture_us = now + sp_period_us request,
               ps_completed_count = 0, ps_lease_sequence = 0\<rparr>, sd_last_error := 0\<rparr>)) (\<lambda>_.
     mbind (sim_ack frame (sp_request_id request) PERIODIC_STATE) (\<lambda>a.
     mret [a]))))))))))))"

text \<open>A higher lease sequence replaces the deadline; an older or repeated one changes nothing.\<close>

definition renew_schedule :: "int \<Rightarrow> RenewPeriodicLease \<Rightarrow> PeriodicSchedule \<Rightarrow> PeriodicSchedule" where
  "renew_schedule now request schedule =
     (if rl_lease_sequence request > ps_lease_sequence schedule
      then schedule\<lparr>ps_lease_sequence := rl_lease_sequence request,
             ps_lease_deadline_us := now + rl_lease_timeout_or_remaining_ms request * 1000\<rparr>
      else schedule)"

definition sim_renew_periodic :: "int \<Rightarrow> Frame \<Rightarrow> Frame list sim" where
  "sim_renew_periodic clock frame =
     mbind require_hello (\<lambda>_.
     mbind (mlift (decode_renew_periodic_lease (payload frame))) (\<lambda>request.
     mbind the_boot_id (\<lambda>boot_id.
     mbind mget (\<lambda>d.
     case sd_schedule d of
       None \<Rightarrow> mraise ValueError
     | Some schedule \<Rightarrow>
         mbind (mguard (rl_boot_id request = boot_id \<and>
                  rl_schedule_id request = ps_schedule_id schedule) ValueError) (\<lambda>_.
         mbind (mlift (now_us clock)) (\<lambda>now.
         if ps_lease_deadline_us schedule \<le> now
         then mbind expire_schedule (\<lambda>_. mraise ValueError)
         else
           let schedule' = renew_schedule now request schedule in
           mbind (mupd (\<lambda>d. d\<lparr>sd_schedule := Some schedule'\<rparr>)) (\<lambda>_.
           mbind (mlift (encode_renew_periodic_lease
                    \<lparr>rl_boot_id = boot_id, rl_schedule_id = ps_schedule_id schedule',
                     rl_lease_sequence = ps_lease_sequence schedule',
                     rl_lease_timeout_or_remaining_ms =
                       max 0 ((ps_lease_deadline_us schedule' - now) div 1000)\<rparr>)) (\<lambda>p.
           mret [mk_frame RENEW_PERIODIC_LEASE (sequence frame) p FLAG_RESPONSE]))))))))"

definition sim_stop :: "Frame \<Rightarrow> Frame list sim" where
  "sim_stop frame =
     mbind require_hello (\<lambda>_.
     mbind (mlift (decode_stop_request (payload frame))) (\<lambda>request.
     mbind mget (\<lambda>d.
     mbind (mguard (case sd_schedule d of None \<Rightarrow> True
              | Some schedule \<Rightarrow> ps_schedule_id schedule = stq_schedule_id request) ValueError) (\<lambda>_.
     mbind (mupd (\<lambda>d. d\<lparr>sd_schedule := None, sd_last_error := 0\<rparr>)) (\<lambda>_.
     mbind (mlift (encode_ack \<lparr>ack_request_id = stq_request_id request,
              ack_acked_type = type_code STOP, ack_resulting_state = CONFIGURED_STATE,
              ack_status_code = 0,
              ack_device_config_crc32 =
                (case sd_config d of None \<Rightarrow> 0 | Some c \<Rightarrow> device_config_crc32 c)\<rparr>)) (\<lambda>p.
     mret [mk_frame ACK (sequence frame) p FLAG_RESPONSE]))))))"

definition sim_get_status :: "int \<Rightarrow> Frame \<Rightarrow> Frame list sim" where
  "sim_get_status clock frame =
     mbind require_hello (\<lambda>_.
     mbind (require_empty_payload frame) (\<lambda>_.
     mbind (mlift (now_us clock)) (\<lambda>now.
     mbind mget (\<lambda>d0.
     mbind (case sd_schedule d0 of
              None \<Rightarrow> mret ()
            | Some schedule \<Rightarrow>
                if ps_lease_deadline_us schedule \<le> now then expire_schedule else mret ()) (\<lambda>_.
     mbind the_boot_id (\<lambda>boot_id.
     mbind mget (\<lambda>d.
     let schedule = sd_schedule d; config = sd_config d in
     mbind (mlift (encode_status_response
              \<lparr>ss_boot_id = boot_id,
               ss_device_state = (if schedule \<noteq> None then PERIODIC_STATE else CONFIGURED_STATE),
               ss_last_error = sd_last_error d,
               ss_profile_sha256 = (case config of None \<Rightarrow> replicate 32 0 | Some c \<Rightarrow> profile_sha256 c),
               ss_device_config_crc32 = (case config of None \<Rightarrow> 0 | Some c \<Rightarrow> device_config_crc32 c),
               ss_capture_sequence = sd_capture_sequence d,
               ss_missed_capture_count = sd_missed_capture_count d,
               ss_quality_flags = 0, ss_tuss_dev_stat = 0x08, ss_vdrv_ready = 1,
               ss_out3_enabled = (case config of None \<Rightarrow> 0 | Some c \<Rightarrow> of_bool (aux_flags c AND 0x01 \<noteq> 0)),
               ss_out4_enabled = (case config of None \<Rightarrow> 0 | Some c \<Rightarrow> of_bool (aux_flags c AND 0x02 \<noteq> 0)),
               ss_clock_fault_flags = 0,
               ss_active_schedule_id =
                 (case schedule of None \<Rightarrow> replicate 16 0 | Some s \<Rightarrow> ps_schedule_id s),
               ss_lease_sequence = (case schedule of None \<Rightarrow> 0 | Some s \<Rightarrow> ps_lease_sequence s),
               ss_lease_remaining_ms =
                 (case schedule of None \<Rightarrow> 0
                  | Some s \<Rightarrow> max 0 ((ps_lease_deadline_us s - now) div 1000))\<rparr>)) (\<lambda>p.
     mret [mk_frame GET_STATUS (sequence frame) p FLAG_RESPONSE]))))))))"

text \<open>\<open>SimulatedDevice.handle\<close>\<close>

definition dispatch :: "int \<Rightarrow> Frame \<Rightarrow> Frame list sim" where
  "dispatch clock frame =
     (case message_type frame of
        HELLO \<Rightarrow> sim_hello frame
      | GET_CAPABILITIES \<Rightarrow> sim_get_capabilities frame
      | SET_CONFIG \<Rightarrow> sim_set_config frame
      | GET_CONFIG \<Rightarrow> sim_get_config frame
      | CAPTURE_ONCE \<Rightarrow> sim_capture_once frame
      | START_PERIODIC \<Rightarrow> sim_start_periodic clock frame
      | RENEW_PERIODIC_LEASE \<Rightarrow> sim_renew_periodic clock frame
      | STOP \<Rightarrow> sim_stop frame
      | GET_STATUS \<Rightarrow> sim_get_status clock frame
      | _ \<Rightarrow> mraise ValueError)"

definition cache_key :: "Frame \<Rightarrow> int \<times> int \<times> bytes" where
  "cache_key frame = (type_code (message_type frame), sequence frame, payload frame)"

definition handle :: "int \<Rightarrow> Frame \<Rightarrow> Frame list sim" where
  "handle clock frame =
     mbind mget (\<lambda>d.
     case sd_completed d (cache_key frame) of
       Some result \<Rightarrow> mret result
     | None \<Rightarrow>
         mbind (mguard (flags frame = FLAG_NONE) ValueError) (\<lambda>_.
         mbind (dispatch clock frame) (\<lambda>response.
         mbind (mupd (\<lambda>d. d\<lparr>sd_completed := (sd_completed d)(cache_key frame \<mapsto> response)\<rparr>)) (\<lambda>_.
         mret response))))"

text \<open>\<open>SimulatedDevice.poll\<close>, with the schedule's two updates named.\<close>

definition overdue_periods :: "int \<Rightarrow> PeriodicSchedule \<Rightarrow> int" where
  "overdue_periods now s = (now - ps_next_capture_us s) div ps_period_us s"

definition advance_schedule :: "int \<Rightarrow> PeriodicSchedule \<Rightarrow> PeriodicSchedule" where
  "advance_schedule now s =
     s\<lparr>ps_next_capture_us := ps_next_capture_us s + (overdue_periods now s + 1) * ps_period_us s\<rparr>"

definition complete_capture :: "PeriodicSchedule \<Rightarrow> PeriodicSchedule option" where
  "complete_capture s =
     (let s' = s\<lparr>ps_completed_count := ps_completed_count s + 1\<rparr> in
      if ps_capture_count s' \<noteq> 0 \<and> ps_capture_count s' \<le> ps_completed_count s' then None else Some s')"

definition poll :: "int \<Rightarrow> Frame list sim" where
  "poll clock =
     mbind mget (\<lambda>d.
     case sd_schedule d of
       None \<Rightarrow> mret []
     | Some schedule \<Rightarrow>
         mbind (mlift (now_us clock)) (\<lambda>now.
         if ps_lease_deadline_us schedule \<le> now then mbind expire_schedule (\<lambda>_. mret [])
         else if now < ps_next_capture_us schedule then mret []
         else
           mbind (mupd (\<lambda>d. d\<lparr>sd_missed_capture_count :=
                    sd_missed_capture_count d + overdue_periods now schedule,
                    sd_schedule := Some (advance_schedule now schedule)\<rparr>)) (\<lambda>_.
           mbind (make_capture (ps_request_id schedule) (ps_schedule_id schedule)) (\<lambda>capture.
           mbind (mupd (\<lambda>d. d\<lparr>sd_schedule := complete_capture (advance_schedule now schedule)\<rparr>)) (\<lambda>_.
           mbind mget (\<lambda>d'.
           mbind (mlift (encode_capture_data capture)) (\<lambda>data.
           mret [mk_frame CAPTURE_DATA (sd_capture_sequence d') data FLAG_ASYNC])))))))"

section \<open>Invariant\<close>

definition schedule_ok :: "PeriodicSchedule \<Rightarrow> bool" where
  "schedule_ok s \<longleftrightarrow> length (ps_request_id s) = 16 \<and> length (ps_schedule_id s) = 16 \<and>
     ps_schedule_id s \<noteq> replicate 16 0 \<and> 100000 \<le> ps_period_us s \<and> 0 \<le> ps_capture_count s \<and>
     0 \<le> ps_completed_count s \<and>
     (ps_capture_count s \<noteq> 0 \<longrightarrow> ps_completed_count s < ps_capture_count s) \<and>
     0 \<le> ps_lease_sequence s \<and> ps_lease_sequence s \<le> 0xFFFFFFFF"

definition sim_inv :: "SimulatedDevice \<Rightarrow> bool" where
  "sim_inv d \<longleftrightarrow> pred_option (\<lambda>b. length b = 16) (sd_boot_id d) \<and>
     pred_option (\<lambda>c. config_ok c \<and> boostxl_safe c) (sd_config d) \<and>
     pred_option schedule_ok (sd_schedule d) \<and>
     (sd_schedule d \<noteq> None \<longrightarrow> sd_boot_id d \<noteq> None \<and> sd_config d \<noteq> None) \<and>
     0 \<le> sd_capture_sequence d \<and> 0 \<le> sd_missed_capture_count d"

lemma sim_inv_new: "sim_inv new_device"
  by (simp add: sim_inv_def new_device_def)

lemmas sim_helper_defs = require_hello_def require_config_def require_empty_payload_def the_config_def
  the_boot_id_def expire_schedule_def now_us_def

lemma decode_set_config_ok: "decode_set_config_request p = Inr r \<Longrightarrow> config_ok (sc_config r)"
  using decode_config_okD(1) by (fastforce simp: decode_set_config_request_def split: if_splits)

lemma decode_start_ok:
  "decode_start_periodic_request p = Inr r \<Longrightarrow> start_periodic_ok r \<and> length (sp_request_id r) = 16 \<and>
     length (sp_schedule_id r) = 16"
  using start_periodic.enc_dec [of p r]
  by (auto simp: encode_start_periodic_request_def start_periodic_ok_def split: if_splits)

lemma decode_renew_ok:
  "decode_renew_periodic_lease p = Inr r \<Longrightarrow> renew_periodic_ok r"
  by (rule renew_periodic.dec_ok)

lemma validate_safe: "validate_boostxl_direct_applied_config c = Inr u \<Longrightarrow> boostxl_safe c"
  by (simp add: validate_boostxl_eq split: if_splits)

lemma sim_hello_keeps: "keeps sim_inv (sim_hello f)"
  by (auto simp: keeps_def sim_hello_def mbind_run mguard_run sim_inv_def Let_def
      split: sum.splits prod.splits if_splits)

lemma sim_get_capabilities_keeps: "keeps sim_inv (sim_get_capabilities f)"
  by (auto simp: keeps_def sim_get_capabilities_def mbind_run mguard_run sim_helper_defs
      split: sum.splits prod.splits if_splits)

lemma sim_set_config_keeps: "keeps sim_inv (sim_set_config f)"
  by (auto simp: keeps_def sim_set_config_def mbind_run mguard_run sim_helper_defs sim_inv_def
      dest!: decode_set_config_ok validate_safe
      split: sum.splits prod.splits if_splits)

lemma sim_get_config_keeps: "keeps sim_inv (sim_get_config f)"
  by (auto simp: keeps_def sim_get_config_def mbind_run mguard_run sim_helper_defs
      split: sum.splits prod.splits if_splits option.splits)

lemma make_capture_run:
  assumes "sd_config d = Some c" "sd_boot_id d = Some b" "0 \<le> sd_capture_sequence d"
  shows "make_capture r s d =
    (if sd_capture_sequence d + 1 < 2 ^ 32
     then Inr (sim_capture_record c b r s (sd_capture_sequence d + 1)
                 (le_bytes 4 (sd_capture_sequence d + 1)))
     else Inl OverflowError, d\<lparr>sd_capture_sequence := sd_capture_sequence d + 1\<rparr>)"
  using assms
  by (simp add: make_capture_def mbind_run the_config_def the_boot_id_def to_bytes_4_little_def)

lemma make_capture_keeps: "keeps sim_inv (make_capture r s)"
  by (auto simp: keeps_def make_capture_def mbind_run mguard_run sim_helper_defs sim_inv_def
      split: sum.splits prod.splits if_splits option.splits)

lemma sim_stop_keeps: "keeps sim_inv (sim_stop f)"
  by (auto simp: keeps_def sim_stop_def mbind_run mguard_run sim_helper_defs sim_inv_def
      split: sum.splits prod.splits if_splits)

lemma sim_get_status_keeps: "keeps sim_inv (sim_get_status clock f)"
  by (auto simp: keeps_def sim_get_status_def mbind_run mguard_run sim_helper_defs sim_inv_def Let_def
      split: sum.splits prod.splits if_splits option.splits)

lemma keeps_expire [intro!]: "keeps sim_inv expire_schedule"
  by (simp add: keeps_def expire_schedule_def sim_inv_def)

lemma keeps_helpers [intro!]:
  "keeps sim_inv require_hello" "keeps sim_inv require_config" "keeps sim_inv the_config"
  "keeps sim_inv the_boot_id" "keeps sim_inv (sim_ack f r st)"
  unfolding require_hello_def require_config_def the_config_def the_boot_id_def sim_ack_def
  by (intro keeps_bind keeps_basic; (simp add: keeps_def split: option.split)?)+

lemma sim_capture_once_keeps: "keeps sim_inv (sim_capture_once f)"
  unfolding sim_capture_once_def by (intro keeps_bind keeps_basic keeps_helpers make_capture_keeps)

text \<open>
  A handler with a guarded update keeps the invariant when the update does in every state that
  passed the guards: the guards are kept as hypotheses by running the handler up to the update.
\<close>

lemma sim_start_periodic_keeps: "keeps sim_inv (sim_start_periodic clock f)"
proof -
  have upd: "sim_inv (d\<lparr>sd_schedule := Some
              \<lparr>ps_request_id = sp_request_id r, ps_schedule_id = sp_schedule_id r,
               ps_period_us = sp_period_us r, ps_capture_count = sp_capture_count r,
               ps_lease_deadline_us = l, ps_next_capture_us = n,
               ps_completed_count = 0, ps_lease_sequence = 0\<rparr>, sd_last_error := 0\<rparr>)"
    if "sim_inv d" "decode_start_periodic_request p = Inr r" "100000 \<le> sp_period_us r"
      "sd_boot_id d \<noteq> None" "sd_config d \<noteq> None" for d p r l n
    using that decode_start_ok [OF that(2)]
    by (auto simp: sim_inv_def schedule_ok_def start_periodic_ok_def)
  show ?thesis
    unfolding keeps_def
  proof (intro allI impI)
    fix d assume "sim_inv d"
    then show "sim_inv (snd (sim_start_periodic clock f d))"
      using upd [of d "payload f"]
      by (auto simp: sim_start_periodic_def mbind_run mguard_run require_hello_def require_config_def
          the_config_def now_us_def sim_ack_def split: sum.splits prod.splits if_splits option.splits)
  qed
qed

lemma schedule_ok_renewed:
  "schedule_ok s \<Longrightarrow> renew_periodic_ok r \<Longrightarrow> schedule_ok (renew_schedule now r s)"
  by (simp add: renew_schedule_def schedule_ok_def renew_periodic_ok_def)

lemma sim_renew_periodic_keeps: "keeps sim_inv (sim_renew_periodic clock f)"
proof -
  have upd: "sim_inv (d\<lparr>sd_schedule := Some s'\<rparr>)"
    if "sim_inv d" "sd_schedule d = Some s" "schedule_ok s'" for d s s'
    using that by (simp add: sim_inv_def)
  have ok: "schedule_ok s" if "sim_inv d" "sd_schedule d = Some s" for d s
    using that by (simp add: sim_inv_def)
  show ?thesis
    unfolding keeps_def
  proof (intro allI impI)
    fix d assume inv: "sim_inv d"
    show "sim_inv (snd (sim_renew_periodic clock f d))"
      using inv keepsD [OF keeps_expire inv]
      by (auto simp: sim_renew_periodic_def mbind_run mguard_run require_hello_def Let_def
          the_boot_id_def now_us_def intro!: upd [OF inv] schedule_ok_renewed
          dest: ok [OF inv] decode_renew_ok split: sum.splits prod.splits option.splits if_split_asm)
  qed
qed

text \<open>The device after a due capture, and what \<open>poll\<close> returns then.\<close>

definition after_capture :: "int \<Rightarrow> PeriodicSchedule \<Rightarrow> SimulatedDevice \<Rightarrow> SimulatedDevice" where
  "after_capture now s d = d\<lparr>sd_missed_capture_count := sd_missed_capture_count d + overdue_periods now s,
     sd_schedule := complete_capture (advance_schedule now s),
     sd_capture_sequence := sd_capture_sequence d + 1\<rparr>"

lemma poll_due:
  assumes "sd_schedule d = Some s" "sd_config d = Some c" "sd_boot_id d = Some b"
    and "0 \<le> sd_capture_sequence d"
    and "0 \<le> clock" "clock < ps_lease_deadline_us s" "ps_next_capture_us s \<le> clock"
  shows "poll clock d =
    (if sd_capture_sequence d + 1 < 2 ^ 32
     then (rbind (encode_capture_data (sim_capture_record c b (ps_request_id s) (ps_schedule_id s)
             (sd_capture_sequence d + 1) (le_bytes 4 (sd_capture_sequence d + 1))))
             (\<lambda>data. Inr [mk_frame CAPTURE_DATA (sd_capture_sequence d + 1) data FLAG_ASYNC]),
           after_capture clock s d)
     else (Inl OverflowError, d\<lparr>sd_missed_capture_count := sd_missed_capture_count d + overdue_periods clock s,
             sd_schedule := Some (advance_schedule clock s),
             sd_capture_sequence := sd_capture_sequence d + 1\<rparr>))"
  using assms make_capture_run [of "d\<lparr>sd_missed_capture_count := sd_missed_capture_count d + overdue_periods clock s,
      sd_schedule := Some (advance_schedule clock s)\<rparr>" c b]
  by (simp add: poll_def mbind_run now_us_def after_capture_def rbind_def split: sum.split)

lemma overdue_nonneg: "schedule_ok s \<Longrightarrow> ps_next_capture_us s \<le> now \<Longrightarrow> 0 \<le> overdue_periods now s"
  by (simp add: overdue_periods_def pos_imp_zdiv_nonneg_iff schedule_ok_def)

lemma schedule_ok_advance: "schedule_ok s \<Longrightarrow> schedule_ok (advance_schedule now s)"
  by (simp add: schedule_ok_def advance_schedule_def)

lemma schedule_ok_complete: "schedule_ok s \<Longrightarrow> pred_option schedule_ok (complete_capture s)"
  by (auto simp: schedule_ok_def complete_capture_def Let_def)

lemma poll_not_due:
  assumes "sd_schedule d = Some s"
    and "clock < 0 \<or> ps_lease_deadline_us s \<le> clock \<or> clock < ps_next_capture_us s"
  shows "poll clock d =
    (if clock < 0 then (Inl ValueError, d)
     else if ps_lease_deadline_us s \<le> clock
     then (Inr [], d\<lparr>sd_schedule := None, sd_last_error := LEASE_EXPIRED_ERROR\<rparr>)
     else (Inr [], d))"
  using assms by (auto simp: poll_def now_us_def mbind_run expire_schedule_def)

lemma poll_idle: "sd_schedule d = None \<Longrightarrow> poll clock d = (Inr [], d)"
  by (simp add: poll_def mbind_run)

lemma poll_keeps: "keeps sim_inv (poll clock)"
  unfolding keeps_def
proof (intro allI impI)
  fix d assume inv: "sim_inv d"
  consider (idle) "sd_schedule d = None"
    | (wait) s where "sd_schedule d = Some s"
        "clock < 0 \<or> ps_lease_deadline_us s \<le> clock \<or> clock < ps_next_capture_us s"
    | (due) s where "sd_schedule d = Some s" "0 \<le> clock" "clock < ps_lease_deadline_us s"
        "ps_next_capture_us s \<le> clock"
    by (cases "sd_schedule d") fastforce+
  then show "sim_inv (snd (poll clock d))"
  proof cases
    case idle
    then show ?thesis using inv by (simp add: poll_idle)
  next
    case wait
    then show ?thesis using inv by (simp add: poll_not_due sim_inv_def)
  next
    case due
    then obtain c b where cb: "sd_config d = Some c" "sd_boot_id d = Some b" and ok: "schedule_ok s"
      using inv by (auto simp: sim_inv_def)
    have "pred_option schedule_ok (complete_capture (advance_schedule clock s))"
      by (intro schedule_ok_complete schedule_ok_advance ok)
    then show ?thesis
      using inv due cb overdue_nonneg [OF ok due(4)] schedule_ok_advance [OF ok]
      by (simp add: poll_due [OF due(1) cb] sim_inv_def after_capture_def)
  qed
qed

lemma dispatch_keeps: "keeps sim_inv (dispatch clock f)"
  by (cases "message_type f")
    (simp_all add: dispatch_def keeps_basic sim_hello_keeps sim_get_capabilities_keeps
      sim_set_config_keeps sim_get_config_keeps sim_capture_once_keeps sim_start_periodic_keeps
      sim_renew_periodic_keeps sim_stop_keeps sim_get_status_keeps)

lemma handle_keeps: "keeps sim_inv (handle clock f)"
proof -
  have cache: "sim_inv (d\<lparr>sd_completed := c\<rparr>) = sim_inv d" for d c
    by (simp add: sim_inv_def)
  have "keeps sim_inv (mbind (mguard (flags f = FLAG_NONE) ValueError) (\<lambda>_.
         mbind (dispatch clock f) (\<lambda>response.
         mbind (mupd (\<lambda>d. d\<lparr>sd_completed := (sd_completed d)(cache_key f \<mapsto> response)\<rparr>)) (\<lambda>_.
         mret response))))"
    by (intro keeps_bind keeps_basic dispatch_keeps) (simp add: keeps_def cache)
  then show ?thesis
    unfolding handle_def keeps_def by (auto split: option.split)
qed

section \<open>Captures\<close>

lemma length_sim_samples [simp]: "length (sim_samples n) = nat n"
  by (simp add: sim_samples_def)

lemma sim_samples_range: "list_all (\<lambda>s. 0 \<le> s \<and> s \<le> 0xFFFF) (sim_samples n)"
proof -
  have "x AND 0xFFF \<le> 0xFFFF" for x :: int
    using AND_upper2 [of "0xFFF" x] by simp
  then show ?thesis by (simp add: sim_samples_def list_all_iff)
qed

lemma sim_events_ok:
  "120 \<le> sample_interval_ticks c \<Longrightarrow> list_all (event_ok (sample_interval_ticks c)) (sim_events c) \<and>
   length (sim_events c) \<le> 2"
  by (auto simp: sim_events_def sim_event_def event_ok_def Let_def)

lemma sim_event_fits:
  assumes "120 \<le> sample_interval_ticks c" "sample_interval_ticks c \<le> 960"
  shows "list_all (\<lambda>e. fits EVENT_layout (event_tuple e)) (sim_events c)"
proof -
  have "sample_interval_ticks c div 2 \<le> 480" "0 \<le> sample_interval_ticks c div 2"
    using assms by linarith+
  then show ?thesis
    using assms by (auto simp: sim_events_def sim_event_def event_tuple_def EVENT_layout_def Let_def frange_def)
qed

lemma length_sim_device_id [simp]: "length sim_device_id = 16"
  by (simp add: sim_device_id_def)

text \<open>In a state that satisfies the invariant the capture of a \<open>poll\<close> always encodes.\<close>

lemma sim_capture_encodes:
  assumes c: "config_ok c" "boostxl_safe c" and l: "length b = 16" "length r = 16" "length s = 16"
    and seq: "0 \<le> n" "n < 2 ^ 32"
  shows "\<exists>data. encode_capture_data (sim_capture_record c b r s n q) = Inr data \<and>
    length data \<le> 4576 \<and> 188 \<le> length data"
proof -
  let ?c = "sim_capture_record c b r s n q"
  have v: "values_ok c" and sha: "length (profile_sha256 c) = 32"
    and crc: "0 \<le> device_config_crc32 c" "device_config_crc32 c < 2 ^ 32"
    using c(1) by (simp_all add: config_ok_def)
  have n: "sample_count c = 2048" using c(2) by (simp add: boostxl_safe_def)
  have iv: "120 \<le> sample_interval_ticks c" "sample_interval_ticks c \<le> 960"
    using v by (simp_all add: values_ok_def)
  have ok: "capture_ok ?c"
    using v l n sha seq sim_samples_range [of 2048] sim_events_ok [OF iv(1)]
    by (simp add: capture_ok_def sim_capture_record_def values_ok_def)
  have "fits header_layout (header_of_capture ?c)"
    using v l n sha crc seq sim_events_ok [OF iv(1)]
    by (simp add: header_of_capture_def header_tuple_def header_layout_def sim_capture_record_def frange_def
        values_ok_def pairs_ok_def)
  then obtain data where e: "encode_capture_data ?c = Inr data"
    using capture_ok_fits_encode [OF ok] sim_event_fits [OF iv] by (auto simp: sim_capture_record_def)
  then show ?thesis
    using encode_capture_length [OF e] n sim_events_ok [OF iv(1)] v
    by (simp add: sim_capture_record_def values_ok_def pairs_ok_def)
qed

section \<open>What the device emits\<close>

definition accepted :: "Frame \<Rightarrow> bool" where
  "accepted f \<longleftrightarrow> frame_ok f \<and> policy_ok f"

lemma accepted_admitted:
  assumes "admitted t fl (Inr p)" "0 \<le> sq" "sq < 4294967296"
  shows "accepted (mk_frame t sq p fl)"
  using assms payload_length_bounds [of t fl "int (length p)"] flags_valid_bounds [of t fl]
  by (simp add: accepted_def admitted_def frame_ok_def policy_ok_def PROTOCOL_VERSION_def)

text \<open>A single response frame whose payload the policy admits.\<close>

definition one_response :: "Frame \<Rightarrow> Frame list \<Rightarrow> bool" where
  "one_response f rs \<longleftrightarrow> (\<exists>t fl p. admitted t fl (Inr p) \<and> rs = [mk_frame t (sequence f) p fl])"

lemma one_responseI: "admitted t fl r \<Longrightarrow> r = Inr p \<Longrightarrow> one_response f [mk_frame t (sequence f) p fl]"
  by (auto simp: one_response_def)

lemma accepted_capture:
  assumes "188 \<le> length p" "length p \<le> 4576" "fl \<in> {FLAG_RESPONSE, FLAG_ASYNC}" "0 \<le> sq" "sq < 4294967296"
  shows "accepted (mk_frame CAPTURE_DATA sq p fl)"
  using assms by (auto simp: accepted_def frame_ok_def policy_ok_def PROTOCOL_VERSION_def policy_simps)

text \<open>
  A handler responds when whatever it returns is such a frame. The rules follow the handlers'
  structure; the leaves are the places where a payload is encoded into the response.
\<close>

definition responds :: "Frame \<Rightarrow> Frame list sim \<Rightarrow> bool" where
  "responds f m \<longleftrightarrow> (\<forall>d rs d'. m d = (Inr rs, d') \<longrightarrow> one_response f rs)"

lemma respondsD: "responds f m \<Longrightarrow> m d = (Inr rs, d') \<Longrightarrow> one_response f rs"
  by (auto simp: responds_def)

lemma responds_bind: "(\<And>x. responds f (g x)) \<Longrightarrow> responds f (mbind m g)"
  by (auto simp: responds_def mbind_ok_iff)

lemma responds_raise: "responds f (mraise e)"
  by (simp add: responds_def)

lemma responds_leaf:
  "admitted t fl r \<Longrightarrow> responds f (mbind (mlift r) (\<lambda>p. mret [mk_frame t (sequence f) p fl]))"
  by (auto simp: responds_def mbind_ok_iff intro: one_responseI)

lemma responds_ack: "responds f (mbind (sim_ack f r st) (\<lambda>a. mret [a]))"
  using payloads_admitted(14)
  by (auto simp: responds_def sim_ack_def mbind_ok_iff intro: one_responseI)

lemma responds_if: "responds f m \<Longrightarrow> responds f m' \<Longrightarrow> responds f (if c then m else m')"
  by simp

lemma responds_option:
  "responds f m \<Longrightarrow> (\<And>x. responds f (g x)) \<Longrightarrow> responds f (case v of None \<Rightarrow> m | Some x \<Rightarrow> g x)"
  by (simp split: option.split)

lemmas responds_leaves = payloads_admitted(2,4,6,9,11,14) [THEN responds_leaf] responds_ack responds_raise
lemmas responds_steps = responds_if responds_option responds_bind

lemma sim_responds:
  "responds f (sim_hello f)" "responds f (sim_get_capabilities f)" "responds f (sim_set_config f)"
  "responds f (sim_get_config f)" "responds f (sim_start_periodic clock f)"
  "responds f (sim_renew_periodic clock f)" "responds f (sim_stop f)"
  "responds f (sim_get_status clock f)"
  unfolding sim_hello_def sim_get_capabilities_def sim_set_config_def sim_get_config_def
    sim_start_periodic_def sim_renew_periodic_def sim_stop_def sim_get_status_def Let_def
  by (rule responds_leaves responds_steps)+

lemma sim_capture_once_frames:
  assumes inv: "sim_inv d" and run: "sim_capture_once f d = (Inr rs, d')"
    and sq: "0 \<le> sequence f" "sequence f < 4294967296"
  shows "list_all accepted rs"
proof -
  from run obtain req c b cap p data d1 where
    req: "decode_capture_once_request (payload f) = Inr req"
    and c: "sd_config d = Some c" and b: "sd_boot_id d = Some b"
    and mk: "make_capture (co_request_id req) (replicate 16 0) d = (Inr cap, d1)"
    and p: "\<exists>m. encode_ack m = Inr p" and data: "encode_capture_data cap = Inr data"
    and rs: "rs = [mk_frame ACK (sequence f) p FLAG_RESPONSE,
           mk_frame CAPTURE_DATA (sequence f) data FLAG_RESPONSE]"
    by (auto simp: sim_capture_once_def mbind_ok_iff sim_helper_defs mguard_run
        split: option.splits if_splits) blast
  have ok: "config_ok c" "boostxl_safe c" "length b = 16" "0 \<le> sd_capture_sequence d"
    using inv c b by (simp_all add: sim_inv_def)
  have len: "length (co_request_id req) = 16"
    using req fits_unpack
    by (fastforce simp: capture_once.dec_iff_unpack capture_once_layout_def capture_once_of_def)
  have "cap = sim_capture_record c b (co_request_id req) (replicate 16 0) (sd_capture_sequence d + 1)
      (le_bytes 4 (sd_capture_sequence d + 1))" and "sd_capture_sequence d + 1 < 4294967296"
    using mk make_capture_run [OF c b ok(4)] by (auto split: if_splits)
  then have "188 \<le> length data" "length data \<le> 4576"
    using sim_capture_encodes [OF ok(1,2,3) len, of "replicate 16 0" "sd_capture_sequence d + 1"
        "le_bytes 4 (sd_capture_sequence d + 1)"] ok(4) data
    by auto
  then have "accepted (mk_frame CAPTURE_DATA (sequence f) data FLAG_RESPONSE)"
    using sq by (intro accepted_capture) simp_all
  moreover have "accepted (mk_frame ACK (sequence f) p FLAG_RESPONSE)"
    using p sq payloads_admitted(14) by (metis accepted_admitted)
  ultimately show ?thesis by (simp add: rs)
qed

lemma dispatch_frames:
  assumes inv: "sim_inv d" and run: "dispatch clock f d = (Inr rs, d')"
    and sq: "0 \<le> sequence f" "sequence f < 4294967296"
  shows "list_all accepted rs"
proof (cases "message_type f = CAPTURE_ONCE")
  case True
  then show ?thesis using sim_capture_once_frames [OF inv _ sq] run by (simp add: dispatch_def)
next
  case False
  then have "one_response f rs"
    using run by (cases "message_type f") (auto simp: dispatch_def dest: sim_responds [THEN respondsD])
  then show ?thesis using sq by (auto simp: one_response_def intro: accepted_admitted)
qed

text \<open>The cache only ever holds frames that were emitted.\<close>

definition cache_ok :: "SimulatedDevice \<Rightarrow> bool" where
  "cache_ok d \<longleftrightarrow> (\<forall>k rs. sd_completed d k = Some rs \<longrightarrow> list_all accepted rs)"

lemma dispatch_cache: "keeps (\<lambda>d. sd_completed d = C) (dispatch clock f)"
proof -
  let ?k = "keeps (\<lambda>d. sd_completed d = C)"
  have "?k (sim_hello f)" "?k (sim_get_capabilities f)" "?k (sim_set_config f)" "?k (sim_get_config f)"
    "?k (sim_capture_once f)" "?k (sim_start_periodic clock f)" "?k (sim_renew_periodic clock f)"
    "?k (sim_stop f)" "?k (sim_get_status clock f)"
    unfolding sim_hello_def sim_get_capabilities_def sim_set_config_def sim_get_config_def
      sim_capture_once_def make_capture_def sim_ack_def
      sim_start_periodic_def sim_renew_periodic_def sim_stop_def sim_get_status_def Let_def sim_helper_defs
    by ((rule keeps_rules)+, (simp; fail)?)+
  then show ?thesis
    by (cases "message_type f") (simp_all add: dispatch_def keeps_basic)
qed

lemma handle_frames:
  assumes inv: "sim_inv d" "cache_ok d" and run: "handle clock f d = (r, d')"
    and sq: "0 \<le> sequence f" "sequence f < 4294967296"
  shows "cache_ok d' \<and> (\<forall>rs. r = Inr rs \<longrightarrow> list_all accepted rs)"
proof (cases "sd_completed d (cache_key f)")
  case (Some rs)
  then have "list_all accepted rs" using inv(2) unfolding cache_ok_def by blast
  then show ?thesis using Some inv run by (auto simp: handle_def)
next
  case None
  show ?thesis
  proof (cases "flags f = FLAG_NONE")
    case False
    then show ?thesis using None inv run by (auto simp: handle_def mbind_run mguard_run)
  next
    case True
    obtain q d1 where dp: "dispatch clock f d = (q, d1)" by force
    have same: "sd_completed d1 = sd_completed d"
      using keepsD [OF dispatch_cache [of "sd_completed d"], of d clock f] dp by simp
    show ?thesis
    proof (cases q)
      case (Inl e)
      then show ?thesis
        using True None run dp inv(2) same by (auto simp: handle_def mbind_run mguard_run cache_ok_def)
    next
      case (Inr rs)
      have "list_all accepted rs" using dispatch_frames [OF inv(1) _ sq] dp Inr by blast
      then show ?thesis
        using True None run dp Inr inv(2) same
        by (auto simp: handle_def mbind_run mguard_run cache_ok_def split: if_splits)
    qed
  qed
qed

section \<open>Runs\<close>

text \<open>The device under any sequence of requests and polls, at any clock values.\<close>

inductive sim_reach :: "SimulatedDevice \<Rightarrow> bool" where
  start: "sim_reach new_device"
| request: "sim_reach d \<Longrightarrow> frame_ok f \<Longrightarrow> sim_reach (snd (handle clock f d))"
| tick: "sim_reach d \<Longrightarrow> sim_reach (snd (poll clock d))"

lemma sim_reach_inv: "sim_reach d \<Longrightarrow> sim_inv d \<and> cache_ok d"
proof (induction rule: sim_reach.induct)
  case start
  then show ?case by (simp add: sim_inv_new) (simp add: cache_ok_def new_device_def)
next
  case (request d f clock)
  then show ?case
    using keepsD [OF handle_keeps] handle_frames [of d clock f "fst (handle clock f d)" "snd (handle clock f d)"]
    by (simp add: frame_ok_def)
next
  case (tick d clock)
  have "sd_completed (snd (poll clock d)) = sd_completed d"
  proof -
    have "keeps (\<lambda>d'. sd_completed d' = sd_completed d) (poll clock)"
      unfolding poll_def make_capture_def sim_helper_defs
      by ((rule keeps_rules)+, (simp; fail)?)+
    then show ?thesis by (rule keepsD) simp
  qed
  then show ?case using tick keepsD [OF poll_keeps] by (simp add: cache_ok_def)
qed

text \<open>All frames of a sequence of polls; a poll that raises emits none.\<close>

fun poll_run :: "SimulatedDevice \<Rightarrow> int list \<Rightarrow> Frame list \<times> SimulatedDevice" where
  "poll_run d [] = ([], d)"
| "poll_run d (clock # clocks) =
     (case poll clock d of
        (Inl e, d') \<Rightarrow> poll_run d' clocks
      | (Inr fs, d') \<Rightarrow> (case poll_run d' clocks of (gs, d'') \<Rightarrow> (fs @ gs, d'')))"

definition remaining :: "SimulatedDevice \<Rightarrow> int" where
  "remaining d = (case sd_schedule d of None \<Rightarrow> 0
     | Some s \<Rightarrow> ps_capture_count s - ps_completed_count s)"

lemma poll_remaining:
  assumes inv: "sim_inv d" and fin: "pred_option (\<lambda>s. ps_capture_count s \<noteq> 0) (sd_schedule d)"
    and run: "poll clock d = (r, d')"
  shows "pred_option (\<lambda>s. ps_capture_count s \<noteq> 0) (sd_schedule d') \<and> 0 \<le> remaining d' \<and>
    int (length (case r of Inl e \<Rightarrow> [] | Inr fs \<Rightarrow> fs)) + remaining d' \<le> remaining d"
proof -
  consider (idle) "sd_schedule d = None"
    | (wait) s where "sd_schedule d = Some s"
        "clock < 0 \<or> ps_lease_deadline_us s \<le> clock \<or> clock < ps_next_capture_us s"
    | (due) s where "sd_schedule d = Some s" "0 \<le> clock" "clock < ps_lease_deadline_us s"
        "ps_next_capture_us s \<le> clock"
    by (cases "sd_schedule d") fastforce+
  then show ?thesis
  proof cases
    case idle
    then show ?thesis using run by (auto simp: poll_idle remaining_def)
  next
    case wait
    then show ?thesis
      using run inv fin by (auto simp: poll_not_due remaining_def sim_inv_def schedule_ok_def split: if_splits)
  next
    case due
    then obtain c b where cb: "sd_config d = Some c" "sd_boot_id d = Some b" and ok: "schedule_ok s"
      and seq: "0 \<le> sd_capture_sequence d" and n: "ps_capture_count s \<noteq> 0"
      using inv fin by (auto simp: sim_inv_def)
    show ?thesis
      using run due(1) ok n
      by (auto simp: poll_due [OF due(1) cb seq due(2-4)] remaining_def after_capture_def complete_capture_def
          advance_schedule_def Let_def schedule_ok_def rbind_def split: if_splits sum.splits)
  qed
qed

lemma poll_run_bound:
  assumes "sim_inv d" and "pred_option (\<lambda>s. ps_capture_count s \<noteq> 0) (sd_schedule d)"
  shows "int (length (fst (poll_run d clocks))) \<le> remaining d"
  using assms
proof (induction clocks arbitrary: d)
  case Nil
  then show ?case by (auto simp: remaining_def sim_inv_def schedule_ok_def split: option.split)
next
  case (Cons clock clocks)
  obtain r d' where run: "poll clock d = (r, d')" by force
  note step = poll_remaining [OF Cons.prems run]
  have "sim_inv d'" using keepsD [OF poll_keeps Cons.prems(1), of clock] run by simp
  then have "int (length (fst (poll_run d' clocks))) \<le> remaining d'"
    using step by (intro Cons.IH) simp_all
  then show ?case using step run by (cases r) (auto split: prod.splits)
qed

section \<open>A device for the witnesses\<close>

text \<open>The reference profile of the repository (10 registers, 2048 samples at 120 ticks).\<close>

definition demo_config :: AcquisitionConfigV2 where
  "demo_config = with_digests (unhashed_of 120 2048 0 12 0 3300 600 D10X4_REGISTER_PAIRS 2)"

lemma demo_config_ok: "config_ok demo_config" "boostxl_safe demo_config"
proof -
  have "values_ok (unhashed_of 120 2048 0 12 0 3300 600 D10X4_REGISTER_PAIRS 2)"
    by (simp add: values_ok_def unhashed_of_def pairs_ok_def reg_ok_def D10X4_REGISTER_PAIRS_def)
  then show "config_ok demo_config" unfolding demo_config_def by (rule config_ok_with_digests)
  show "boostxl_safe demo_config"
    by (simp add: boostxl_safe_def demo_config_def with_digests_def unhashed_of_def dict_of_def
        D10X4_REGISTER_PAIRS_def Let_def) auto
qed

definition demo_schedule :: PeriodicSchedule where
  "demo_schedule = \<lparr>ps_request_id = replicate 16 1, ps_schedule_id = replicate 16 2,
     ps_period_us = 100000, ps_capture_count = 3, ps_lease_deadline_us = 5000000,
     ps_next_capture_us = 100000, ps_completed_count = 0, ps_lease_sequence = 0\<rparr>"

definition demo_device :: SimulatedDevice where
  "demo_device = new_device\<lparr>sd_boot_id := Some (replicate 16 7), sd_config := Some demo_config,
     sd_schedule := Some demo_schedule\<rparr>"

lemma demo_sel [simp]:
  "sd_schedule demo_device = Some demo_schedule" "sd_capture_sequence demo_device = 0"
  "sd_missed_capture_count demo_device = 0" "ps_lease_deadline_us demo_schedule = 5000000"
  "ps_next_capture_us demo_schedule = 100000" "ps_period_us demo_schedule = 100000"
  "ps_capture_count demo_schedule = 3" "ps_completed_count demo_schedule = 0"
  "ps_schedule_id demo_schedule = replicate 16 2"
  by (simp_all add: demo_device_def new_device_def demo_schedule_def)

lemma demo_device_inv: "sim_inv demo_device"
  using demo_config_ok
  by (simp add: sim_inv_def demo_device_def new_device_def demo_schedule_def schedule_ok_def numeral_eq_Suc)

section \<open>Properties\<close>

text \<open>C37 (invariant). Over every history of requests and polls, at any clock values and including calls that
  raise, the device holds only configurations that encode and that the safety policy approves, and
  a periodic schedule only runs on a device that has said HELLO and been configured, with a period
  of at least 100 ms and fewer completed captures than a bounded schedule asked for.\<close>

theorem simulator_state_invariant:
  assumes "sim_reach d"
  shows "pred_option (\<lambda>c. is_ok (encode_config_v2 c) \<and>
       validate_boostxl_direct_applied_config c = Inr ()) (sd_config d) \<and>
     pred_option (\<lambda>s. sd_boot_id d \<noteq> None \<and> sd_config d \<noteq> None \<and> 100000 \<le> ps_period_us s \<and>
       ps_schedule_id s \<noteq> replicate 16 0 \<and>
       (ps_capture_count s = 0 \<or> ps_completed_count s < ps_capture_count s)) (sd_schedule d)"
proof -
  have inv: "sim_inv d" using sim_reach_inv [OF assms] by simp
  have "pred_option (\<lambda>c. is_ok (encode_config_v2 c) \<and>
       validate_boostxl_direct_applied_config c = Inr ()) (sd_config d)"
    using inv by (cases "sd_config d") (simp_all add: sim_inv_def encode_config_v2_eq validate_boostxl_eq)
  moreover have "pred_option (\<lambda>s. sd_boot_id d \<noteq> None \<and> sd_config d \<noteq> None \<and> 100000 \<le> ps_period_us s \<and>
       ps_schedule_id s \<noteq> replicate 16 0 \<and>
       (ps_capture_count s = 0 \<or> ps_completed_count s < ps_capture_count s)) (sd_schedule d)"
    using inv by (cases "sd_schedule d") (auto simp: sim_inv_def schedule_ok_def)
  ultimately show ?thesis by blast
qed

text \<open>C38 (functional). What one turn of the simulated main loop does. With a schedule, and before the 32-bit
  capture counter is exhausted, \<open>poll\<close> returns normally; it emits exactly one asynchronous
  CAPTURE\_DATA frame if a capture is due and the lease is live, and nothing otherwise; once the
  lease deadline has passed the schedule is gone and the error is LEASE\_EXPIRED. A due capture
  leaves the next due time on the period grid, after the current time and at most one period away,
  and every skipped period is added to the missed count.\<close>

theorem poll_behaviour:
  assumes "sim_inv d" and "sd_schedule d = Some s" and "0 \<le> clock" and "sd_capture_sequence d < 4294967295"
  shows "if ps_lease_deadline_us s \<le> clock
    then poll clock d = (Inr [], d\<lparr>sd_schedule := None, sd_last_error := LEASE_EXPIRED_ERROR\<rparr>)
    else if clock < ps_next_capture_us s then poll clock d = (Inr [], d)
    else \<exists>data capture d' next.
      poll clock d = (Inr [mk_frame CAPTURE_DATA (sd_capture_sequence d + 1) data FLAG_ASYNC], d') \<and>
      decode_capture_data data = Inr capture \<and> cd_schedule_id capture = ps_schedule_id s \<and>
      length (cd_samples capture) = 2048 \<and>
      sd_capture_sequence d' = sd_capture_sequence d + 1 \<and>
      next = ps_next_capture_us s +
        (sd_missed_capture_count d' - sd_missed_capture_count d + 1) * ps_period_us s \<and>
      sd_missed_capture_count d \<le> sd_missed_capture_count d' \<and> clock < next \<and> next \<le> clock + ps_period_us s \<and>
      (if ps_capture_count s = ps_completed_count s + 1 then sd_schedule d' = None
       else sd_schedule d' = Some (s\<lparr>ps_next_capture_us := next, ps_completed_count := ps_completed_count s + 1\<rparr>))"
proof -
  from assms obtain c b where cb: "sd_config d = Some c" "sd_boot_id d = Some b" and ok: "schedule_ok s"
    and seq: "0 \<le> sd_capture_sequence d" and c: "config_ok c" "boostxl_safe c" and lb: "length b = 16"
    by (auto simp: sim_inv_def)
  show ?thesis
  proof (cases "clock < 0 \<or> ps_lease_deadline_us s \<le> clock \<or> clock < ps_next_capture_us s")
    case True
    then show ?thesis
      unfolding poll_not_due [OF assms(2) True] using assms(3) by (auto simp: split: if_split)
  next
    case False
    let ?rec = "sim_capture_record c b (ps_request_id s) (ps_schedule_id s)
             (sd_capture_sequence d + 1) (le_bytes 4 (sd_capture_sequence d + 1))"
    have ls: "length (ps_request_id s) = 16" "length (ps_schedule_id s) = 16"
      using ok by (simp_all add: schedule_ok_def)
    obtain data where data: "encode_capture_data ?rec = Inr data"
      using sim_capture_encodes [OF c lb ls, of "sd_capture_sequence d + 1"] assms(4) seq by auto
    have run: "poll clock d = (Inr [mk_frame CAPTURE_DATA (sd_capture_sequence d + 1) data FLAG_ASYNC],
        after_capture clock s d)"
      using poll_due [OF assms(2) cb seq assms(3)] False data assms(4) by simp
    let ?next = "ps_next_capture_us (advance_schedule clock s)"
    have p: "0 < ps_period_us s" using ok by (simp add: schedule_ok_def)
    have "?next = ps_next_capture_us s + overdue_periods clock s * ps_period_us s + ps_period_us s"
      by (simp add: advance_schedule_def distrib_right)
    then have grid: "clock < ?next" "?next \<le> clock + ps_period_us s"
      using pos_mod_sign [OF p, of "clock - ps_next_capture_us s"]
        pos_mod_bound [OF p, of "clock - ps_next_capture_us s"]
        div_mult_mod_eq [of "clock - ps_next_capture_us s" "ps_period_us s", folded overdue_periods_def]
      by linarith+
    have n: "ps_capture_count s \<noteq> 0 \<and> ps_capture_count s \<le> ps_completed_count s + 1 \<longleftrightarrow>
        ps_capture_count s = ps_completed_count s + 1"
      using ok by (auto simp: schedule_ok_def)
    have sched: "if ps_capture_count s = ps_completed_count s + 1
        then sd_schedule (after_capture clock s d) = None
        else sd_schedule (after_capture clock s d) =
          Some (s\<lparr>ps_next_capture_us := ?next, ps_completed_count := ps_completed_count s + 1\<rparr>)"
      using n ok by (auto simp: after_capture_def complete_capture_def advance_schedule_def Let_def
          schedule_ok_def)
    have samples: "length (cd_samples ?rec) = 2048"
      using c(2) by (simp add: sim_capture_record_def boostxl_safe_def)
    have id: "cd_schedule_id ?rec = ps_schedule_id s" by (simp add: sim_capture_record_def)
    have miss: "?next = ps_next_capture_us s + (sd_missed_capture_count (after_capture clock s d)
        - sd_missed_capture_count d + 1) * ps_period_us s"
      "sd_missed_capture_count d \<le> sd_missed_capture_count (after_capture clock s d)"
      using overdue_nonneg [OF ok] False by (simp_all add: after_capture_def advance_schedule_def)
    have "sd_capture_sequence (after_capture clock s d) = sd_capture_sequence d + 1"
      by (simp add: after_capture_def)
    then show ?thesis
      using False run capture_codec.dec_enc [OF data] id samples miss grid sched by auto
  qed
qed

theorem poll_behaviour_witness:
  "\<exists>data capture d' next.
      poll 250000 demo_device = (Inr [mk_frame CAPTURE_DATA 1 data FLAG_ASYNC], d') \<and>
      decode_capture_data data = Inr capture \<and> cd_schedule_id capture = replicate 16 2 \<and>
      length (cd_samples capture) = 2048 \<and> sd_capture_sequence d' = 1 \<and>
      next = 100000 + (sd_missed_capture_count d' + 1) * 100000 \<and>
      0 \<le> sd_missed_capture_count d' \<and> 250000 < next \<and> next \<le> 350000 \<and>
      sd_schedule d' = Some (demo_schedule\<lparr>ps_next_capture_us := next, ps_completed_count := 1\<rparr>)"
  using poll_behaviour [OF demo_device_inv, of demo_schedule 250000] by simp

text \<open>A bounded schedule never over-delivers: from any consistent state whose schedule asked for
  \<open>n\<close> captures and has completed \<open>k\<close>, no sequence of polls, at whatever clock values, emits more
  than \<open>n - k\<close> frames.\<close>

theorem bounded_schedule_never_overdelivers:
  assumes "sim_inv d" and "sd_schedule d = Some s" and "ps_capture_count s \<noteq> 0"
  shows "int (length (fst (poll_run d clocks))) \<le> ps_capture_count s - ps_completed_count s"
  using poll_run_bound [OF assms(1), of clocks] assms(2,3) by (simp add: remaining_def)

theorem bounded_schedule_never_overdelivers_witness:
  "int (length (fst (poll_run demo_device [100000, 250000, 300000, 400000, 500000]))) \<le> 3 - 0"
  using bounded_schedule_never_overdelivers [OF demo_device_inv, of demo_schedule]
  by (simp del: poll_run.simps)

text \<open>A retransmitted request is answered from the cache: after a request has succeeded, the same
  message type, sequence number and payload return the same frames again and change nothing, at
  any later clock value.\<close>

theorem completed_request_replays:
  assumes "handle clock f d = (Inr rs, d')" and "message_type g = message_type f"
    and "sequence g = sequence f" and "payload g = payload f"
  shows "handle clock' g d' = (Inr rs, d')"
proof -
  have key: "cache_key g = cache_key f" using assms(2-4) by (simp add: cache_key_def)
  have "sd_completed d' (cache_key f) = Some rs"
    using assms(1)
    by (cases "sd_completed d (cache_key f)") (auto simp: handle_def mbind_ok_iff split: if_splits)
  then show ?thesis using key by (simp add: handle_def)
qed

definition caps_frame :: Frame where
  "caps_frame = mk_frame GET_CAPABILITIES 5 [] FLAG_NONE"

lemma caps_frame_answered: "\<exists>rs d'. handle 0 caps_frame new_device = (Inr rs, d')"
proof -
  let ?caps = "\<lparr>cap_capability_flags = 0x7F, cap_mcu_max_command_payload = 192,
               cap_max_samples = 2048, cap_min_sample_interval_ticks = 120,
               cap_max_sample_interval_ticks = 960, cap_min_burst_period_ticks = 24,
               cap_max_burst_period_ticks = 800, cap_max_register_pairs = 10,
               cap_max_out3_events = 8, cap_max_out4_events = 8, cap_adc_bits = 12,
               cap_supported_io_modes = 0x0F\<rparr>"
  have "\<exists>p. encode_capabilities_response ?caps = Inr p"
    by (simp add: encode_capabilities_response_def capabilities_tuple_def capabilities_layout_def codec_simps
        fits_packs)
  then show ?thesis
    by (auto simp: handle_def new_device_def caps_frame_def mk_frame_def dispatch_def sim_get_capabilities_def
        mbind_run mguard_run require_empty_payload_def cache_key_def)
qed

theorem completed_request_replays_witness:
  "\<exists>rs d'. handle 0 caps_frame new_device = (Inr rs, d') \<and> handle 99 caps_frame d' = (Inr rs, d')"
proof -
  obtain rs d' where r: "handle 0 caps_frame new_device = (Inr rs, d')"
    using caps_frame_answered by blast
  show ?thesis using r completed_request_replays [OF r refl refl refl, of 99] by blast
qed

theorem simulator_state_invariant_witness:
  "sim_reach (snd (handle 0 caps_frame new_device)) \<and>
   pred_option (\<lambda>c. is_ok (encode_config_v2 c) \<and> validate_boostxl_direct_applied_config c = Inr ())
     (sd_config (snd (handle 0 caps_frame new_device)))"
proof -
  have r: "sim_reach (snd (handle 0 caps_frame new_device))"
    by (intro sim_reach.intros)
      (simp add: caps_frame_def mk_frame_def frame_ok_def PROTOCOL_VERSION_def FLAG_NONE_def)
  show ?thesis using r simulator_state_invariant [OF r] by blast
qed

end
