(* ===== verification/Bridge_Messages.thy ===== *)
theory Bridge_Messages
  imports Message_Codec Message_Lengths
begin

text \<open>
  \<open>bridge_messages.py\<close>: the payloads of the durable capture handoff between bridge and core. A
  delivery carries an unchanged device frame with its own length and CRC; the commit request and
  response acknowledge it. The delivery and the request are canonical; the response decoder accepts
  dispositions its encoder refuses.
\<close>

section \<open>BRIDGE\_CAPTURE\_DELIVERY\<close>

record BridgeCaptureDelivery =
  bd_connection_id :: int
  bd_spool_record_id :: int
  bd_source_connection_id :: int
  bd_source_first_stream_offset :: int
  bd_source_last_stream_offset :: int
  bd_stored_utc_ns :: int
  bd_inner_frame :: bytes

definition delivery_layout :: "fmt list" where
  "delivery_layout = [FQ, FQ, FQ, FQ, FQ, FQ, FI, FI]"

definition encode_bridge_capture_delivery :: "BridgeCaptureDelivery \<Rightarrow> bytes res" where
  "encode_bridge_capture_delivery m =
     (if \<not> (208 \<le> length (bd_inner_frame m) \<and> length (bd_inner_frame m) \<le> 4652) then Inl ValueError
      else if bd_source_last_stream_offset m - bd_source_first_stream_offset m + 1 \<noteq>
              int (length (bd_inner_frame m)) then Inl ValueError
      else
        rbind (decode_frame (bd_inner_frame m)) (\<lambda>inner.
        if message_type inner \<noteq> CAPTURE_DATA then Inl ValueError
        else
          rbind (pack delivery_layout
                   [PInt (bd_connection_id m), PInt (bd_spool_record_id m),
                    PInt (bd_source_connection_id m), PInt (bd_source_first_stream_offset m),
                    PInt (bd_source_last_stream_offset m), PInt (bd_stored_utc_ns m),
                    PInt (int (length (bd_inner_frame m))),
                    PInt (crc32_iso_hdlc (bd_inner_frame m))]) (\<lambda>prefix.
          Inr (prefix @ bd_inner_frame m))))"

definition decode_bridge_capture_delivery :: "bytes \<Rightarrow> BridgeCaptureDelivery res" where
  "decode_bridge_capture_delivery data =
     (if length data < calcsize delivery_layout then Inl ValueError
      else
        rbind (unpack_from delivery_layout data 0) (\<lambda>vs.
        if int (length data) \<noteq> int (calcsize delivery_layout) + vint (vs ! 6) then Inl ValueError
        else
          let inner = drop (calcsize delivery_layout) data in
          if crc32_iso_hdlc inner \<noteq> vint (vs ! 7) then Inl ValueError
          else
            let m = \<lparr>bd_connection_id = vint (vs ! 0), bd_spool_record_id = vint (vs ! 1),
                     bd_source_connection_id = vint (vs ! 2),
                     bd_source_first_stream_offset = vint (vs ! 3),
                     bd_source_last_stream_offset = vint (vs ! 4), bd_stored_utc_ns = vint (vs ! 5),
                     bd_inner_frame = inner\<rparr>
            in rbind (encode_bridge_capture_delivery m) (\<lambda>_. Inr m)))"

definition delivery_fields :: "BridgeCaptureDelivery \<Rightarrow> pyval list" where
  "delivery_fields m = [PInt (bd_connection_id m), PInt (bd_spool_record_id m),
     PInt (bd_source_connection_id m), PInt (bd_source_first_stream_offset m),
     PInt (bd_source_last_stream_offset m), PInt (bd_stored_utc_ns m),
     PInt (int (length (bd_inner_frame m))), PInt (crc32_iso_hdlc (bd_inner_frame m))]"

lemma encode_delivery_iff:
  "encode_bridge_capture_delivery m = Inr bs \<longleftrightarrow>
     208 \<le> length (bd_inner_frame m) \<and> length (bd_inner_frame m) \<le> 4652 \<and>
     bd_source_last_stream_offset m - bd_source_first_stream_offset m + 1 = int (length (bd_inner_frame m)) \<and>
     (\<exists>f. decode_frame (bd_inner_frame m) = Inr f \<and> message_type f = CAPTURE_DATA) \<and>
     (\<exists>pre. pack delivery_layout (delivery_fields m) = Inr pre \<and> bs = pre @ bd_inner_frame m)"
  by (fastforce simp: encode_bridge_capture_delivery_def delivery_fields_def)

interpretation delivery_codec: canonical_codec encode_bridge_capture_delivery decode_bridge_capture_delivery
proof unfold_locales
  show "decode_bridge_capture_delivery bs = Inr m" if enc: "encode_bridge_capture_delivery m = Inr bs" for m bs
  proof -
    from enc obtain pre where p: "pack delivery_layout (delivery_fields m) = Inr pre"
      and bs: "bs = pre @ bd_inner_frame m"
      by (auto simp: encode_delivery_iff)
    have lp: "length pre = 56" using pack_length [OF p] by (simp add: delivery_layout_def)
    have "unpack_from delivery_layout bs 0 = Inr (delivery_fields m)"
      using unpack_from_pack [OF p, of "[]" 0 "bd_inner_frame m"]
      by (simp add: bs delivery_layout_def delivery_fields_def)
    then show ?thesis
      using enc lp by (cases m)
        (simp add: decode_bridge_capture_delivery_def delivery_fields_def bs Let_def delivery_layout_def)
  qed
  show "encode_bridge_capture_delivery m = Inr bs" if "decode_bridge_capture_delivery bs = Inr m" for m bs
  proof -
    from that obtain vs b where l: "56 \<le> length bs" and u: "unpack_from delivery_layout bs 0 = Inr vs"
      and n: "int (length bs) = 56 + vint (vs ! 6)" and crc: "crc32_iso_hdlc (drop 56 bs) = vint (vs ! 7)"
      and m: "m = \<lparr>bd_connection_id = vint (vs ! 0), bd_spool_record_id = vint (vs ! 1),
                     bd_source_connection_id = vint (vs ! 2),
                     bd_source_first_stream_offset = vint (vs ! 3),
                     bd_source_last_stream_offset = vint (vs ! 4), bd_stored_utc_ns = vint (vs ! 5),
                     bd_inner_frame = drop 56 bs\<rparr>"
      and enc: "encode_bridge_capture_delivery m = Inr b"
      by (auto simp: decode_bridge_capture_delivery_def Let_def delivery_layout_def split: if_splits)
    have f: "delivery_fields m = vs"
      using fits_unpack_from [OF u] n l crc unfolding m by (auto simp: delivery_layout_def delivery_fields_def)
    have "vs = unpack_go delivery_layout bs" using u by (simp add: unpack_from_def split: if_splits)
    then have "pack delivery_layout (delivery_fields m) = Inr (take 56 bs)"
      using pack_unpack_go [of delivery_layout bs] l by (simp add: f delivery_layout_def)
    moreover have "bs = take 56 bs @ bd_inner_frame m" by (simp add: m)
    ultimately have "b = bs" using enc by (auto simp: encode_delivery_iff)
    then show ?thesis using enc by simp
  qed
qed

section \<open>CAPTURE\_COMMITTED\<close>

record CaptureCommittedRequest =
  cq_connection_id :: int
  cq_spool_record_id :: int
  cq_device_id :: bytes
  cq_boot_id :: bytes
  cq_capture_id :: bytes
  cq_inner_frame_crc32 :: int

definition committed_request_layout :: "fmt list" where
  "committed_request_layout = [FQ, FQ, Fs 16, Fs 16, Fs 16, FI]"

definition committed_request_tuple :: "CaptureCommittedRequest \<Rightarrow> pyval list" where
  "committed_request_tuple m =
     [PInt (cq_connection_id m), PInt (cq_spool_record_id m), PBytes (cq_device_id m),
      PBytes (cq_boot_id m), PBytes (cq_capture_id m), PInt (cq_inner_frame_crc32 m)]"

definition committed_request_of :: "pyval list \<Rightarrow> CaptureCommittedRequest" where
  "committed_request_of vs =
     \<lparr>cq_connection_id = vint (vs ! 0), cq_spool_record_id = vint (vs ! 1),
      cq_device_id = vbytes (vs ! 2), cq_boot_id = vbytes (vs ! 3), cq_capture_id = vbytes (vs ! 4),
      cq_inner_frame_crc32 = vint (vs ! 5)\<rparr>"

definition encode_capture_committed_request :: "CaptureCommittedRequest \<Rightarrow> bytes res" where
  "encode_capture_committed_request m =
     rbind (fixed_bytes (cq_device_id m) 16) (\<lambda>_.
     rbind (fixed_bytes (cq_boot_id m) 16) (\<lambda>_.
     rbind (fixed_bytes (cq_capture_id m) 16) (\<lambda>_.
     pack committed_request_layout (committed_request_tuple m))))"

definition decode_capture_committed_request :: "bytes \<Rightarrow> CaptureCommittedRequest res" where
  "decode_capture_committed_request data =
     (if length data \<noteq> calcsize committed_request_layout then Inl ValueError
      else rbind (unpack committed_request_layout data) (\<lambda>vs. Inr (committed_request_of vs)))"

interpretation committed_request: canonical_struct_message
  encode_capture_committed_request decode_capture_committed_request committed_request_layout
  committed_request_tuple committed_request_of "\<lambda>_. True" "\<lambda>_. True"
proof unfold_locales
  show "committed_request_tuple (committed_request_of vs) = vs" if "fits committed_request_layout vs" for vs
    using that by (auto simp: committed_request_of_def committed_request_tuple_def
        committed_request_layout_def)
  show "encode_capture_committed_request m = Inr bs \<longleftrightarrow> True \<and>
      exact committed_request_layout (committed_request_tuple m) \<and>
      pack committed_request_layout (committed_request_tuple m) = Inr bs" for m bs
    by (auto simp: encode_capture_committed_request_def committed_request_tuple_def
        committed_request_layout_def)
  show "decode_capture_committed_request bs = Inr m \<longleftrightarrow> True \<and>
      (\<exists>vs. unpack committed_request_layout bs = Inr vs \<and> m = committed_request_of vs \<and> True)" for bs m
    by (auto simp: decode_capture_committed_request_def dest: unpack_length)
  show "e = ValueError" if "decode_capture_committed_request bs = Inl e" for bs e
    using that by (auto simp: decode_capture_committed_request_def rbind_Inl_iff unpack_def split: if_splits)
qed (simp_all add: committed_request_of_def committed_request_tuple_def committed_request_layout_def)

record CaptureCommittedResponse =
  cp_connection_id :: int
  cp_spool_record_id :: int
  cp_disposition :: int

definition committed_response_layout :: "fmt list" where
  "committed_response_layout = [FQ, FQ, FB, Fx 7]"

definition encode_capture_committed_response :: "CaptureCommittedResponse \<Rightarrow> bytes res" where
  "encode_capture_committed_response m =
     (if cp_disposition m \<notin> {1, 2} then Inl ValueError
      else pack committed_response_layout
             [PInt (cp_connection_id m), PInt (cp_spool_record_id m), PInt (cp_disposition m)])"

definition decode_capture_committed_response :: "bytes \<Rightarrow> CaptureCommittedResponse res" where
  "decode_capture_committed_response data =
     (if length data \<noteq> calcsize committed_response_layout then Inl ValueError
      else if drop (length data - 7) data \<noteq> replicate 7 0 then Inl ValueError
      else rbind (unpack committed_response_layout data) (\<lambda>vs.
        Inr \<lparr>cp_connection_id = vint (vs ! 0), cp_spool_record_id = vint (vs ! 1),
             cp_disposition = vint (vs ! 2)\<rparr>))"

lemma decode_committed_response_iff:
  "decode_capture_committed_response bs = Inr m \<longleftrightarrow>
     pack committed_response_layout
       [PInt (cp_connection_id m), PInt (cp_spool_record_id m), PInt (cp_disposition m)] = Inr bs"
  (is "_ \<longleftrightarrow> pack _ ?t = _")
proof
  assume "decode_capture_committed_response bs = Inr m"
  then obtain vs where u: "unpack committed_response_layout bs = Inr vs"
    and z: "drop (length bs - 7) bs = replicate 7 0" and l: "length bs = 24"
    and m: "m = \<lparr>cp_connection_id = vint (vs ! 0), cp_spool_record_id = vint (vs ! 1),
             cp_disposition = vint (vs ! 2)\<rparr>"
    by (auto simp: decode_capture_committed_response_def committed_response_layout_def split: if_splits)
  have "?t = vs"
    using fits_unpack [OF u] unfolding m by (auto simp: committed_response_layout_def)
  then show "pack committed_response_layout ?t = Inr bs"
    using pack_unpack [OF u] z l by (simp add: committed_response_layout_def)
next
  assume p: "pack committed_response_layout ?t = Inr bs"
  have "unpack committed_response_layout bs = Inr ?t"
    by (rule unpack_pack [OF p]) (simp add: committed_response_layout_def)
  then show "decode_capture_committed_response bs = Inr m"
    using pack_length [OF p] pads_zero_pack [OF p, of "[]"]
    by (simp add: decode_capture_committed_response_def committed_response_layout_def)
qed

interpretation committed_response: sized_codec
  encode_capture_committed_response decode_capture_committed_response 24
proof unfold_locales
  show "decode_capture_committed_response bs = Inr m"
    if "encode_capture_committed_response m = Inr bs" for m bs
    using that by (simp add: decode_committed_response_iff encode_capture_committed_response_def)
  show "length bs = 24" if "encode_capture_committed_response m = Inr bs" for m bs
    using that by (auto simp: encode_capture_committed_response_def committed_response_layout_def
        dest!: pack_length)
qed

section \<open>Properties\<close>

text \<open>The handoff payloads are canonical: a delivery payload decodes to a message exactly when it
  is that message's encoding, and the commit request likewise has one byte string per message.\<close>

theorem handoff_payloads_canonical:
  "(decode_bridge_capture_delivery bs = Inr m \<longleftrightarrow> encode_bridge_capture_delivery m = Inr bs) \<and>
   (decode_capture_committed_request bs = Inr q \<longleftrightarrow> encode_capture_committed_request q = Inr bs)"
  using delivery_codec.dec_iff committed_request.dec_iff by blast

text \<open>What an accepted delivery guarantees the core: its inner bytes are the tail of the payload,
  unchanged, they are the encoding of a well-formed CAPTURE\_DATA frame, and the source offsets span
  exactly these bytes.\<close>

theorem delivery_carries_intact_frame:
  assumes "decode_bridge_capture_delivery bs = Inr m"
  shows "drop 56 bs = bd_inner_frame m \<and>
    (\<exists>f. encode_frame f = Inr (bd_inner_frame m) \<and> message_type f = CAPTURE_DATA) \<and>
    bd_source_last_stream_offset m - bd_source_first_stream_offset m + 1 = int (length bs) - 56"
proof -
  have enc: "encode_bridge_capture_delivery m = Inr bs"
    using assms by (simp add: delivery_codec.dec_iff)
  then obtain pre where p: "pack delivery_layout (delivery_fields m) = Inr pre"
    and bs: "bs = pre @ bd_inner_frame m"
    by (auto simp: encode_delivery_iff)
  have "length pre = 56" using pack_length [OF p] by (simp add: delivery_layout_def)
  then show ?thesis
    using enc bs frame_codec.enc_dec by (auto simp: encode_delivery_iff)
qed

text \<open>The smallest frame a delivery can carry, in a delivery.\<close>

definition sample_inner_frame :: Frame where
  "sample_inner_frame = mk_frame CAPTURE_DATA 1 (replicate 188 0) FLAG_ASYNC"

definition sample_delivery :: BridgeCaptureDelivery where
  "sample_delivery = \<lparr>bd_connection_id = 1, bd_spool_record_id = 1, bd_source_connection_id = 1,
     bd_source_first_stream_offset = 0, bd_source_last_stream_offset = 207, bd_stored_utc_ns = 5,
     bd_inner_frame = frame_bytes sample_inner_frame\<rparr>"

lemma sample_delivery_encodes: "\<exists>bs. encode_bridge_capture_delivery sample_delivery = Inr bs"
proof -
  have ok: "frame_ok sample_inner_frame"
    by (simp add: sample_inner_frame_def frame_ok_def PROTOCOL_VERSION_def flag_defs)
  have "fits delivery_layout (delivery_fields sample_delivery)"
    using crc32_iso_hdlc_bounds [of "frame_bytes sample_inner_frame"]
    by (simp add: delivery_layout_def delivery_fields_def sample_delivery_def frange_def sample_inner_frame_def)
  then show ?thesis
    using fits_packs [of delivery_layout "delivery_fields sample_delivery"] decode_frame_bytes [OF ok]
    unfolding encode_delivery_iff
    by (auto simp: sample_delivery_def sample_inner_frame_def)
qed

theorem delivery_carries_intact_frame_witness:
  "\<exists>bs. decode_bridge_capture_delivery bs = Inr sample_delivery \<and>
     drop 56 bs = bd_inner_frame sample_delivery \<and>
     (\<exists>f. encode_frame f = Inr (bd_inner_frame sample_delivery) \<and> message_type f = CAPTURE_DATA) \<and>
     bd_source_last_stream_offset sample_delivery - bd_source_first_stream_offset sample_delivery + 1 =
       int (length bs) - 56"
proof -
  obtain bs where "encode_bridge_capture_delivery sample_delivery = Inr bs"
    using sample_delivery_encodes by blast
  then have d: "decode_bridge_capture_delivery bs = Inr sample_delivery"
    by (rule delivery_codec.dec_enc)
  show ?thesis using d delivery_carries_intact_frame [OF d] by blast
qed

text \<open>The commit response reads back what was sent. Its decoder is laxer than its encoder: it
  agrees with the encoder exactly on the dispositions 1 and 2, and it accepts payloads with any
  other disposition byte, which the encoder refuses to produce.\<close>

theorem committed_response_decoder_is_lax:
  "(decode_capture_committed_response bs = Inr m \<and> cp_disposition m \<in> {1, 2} \<longleftrightarrow>
      encode_capture_committed_response m = Inr bs) \<and>
   (\<exists>bs' m'. decode_capture_committed_response bs' = Inr m' \<and>
      encode_capture_committed_response m' = Inl ValueError)"
proof
  show "decode_capture_committed_response bs = Inr m \<and> cp_disposition m \<in> {1, 2} \<longleftrightarrow>
      encode_capture_committed_response m = Inr bs"
    by (auto simp: decode_committed_response_iff encode_capture_committed_response_def)
  let ?m = "\<lparr>cp_connection_id = 1, cp_spool_record_id = 1, cp_disposition = 3\<rparr>"
  have "\<exists>bs'. pack committed_response_layout [PInt 1, PInt 1, PInt 3] = Inr bs'"
    by (rule fits_packs) (simp add: committed_response_layout_def frange_def)
  then obtain bs' where "decode_capture_committed_response bs' = Inr ?m"
    by (auto simp: decode_committed_response_iff)
  moreover have "encode_capture_committed_response ?m = Inl ValueError"
    by (simp add: encode_capture_committed_response_def)
  ultimately show "\<exists>bs' m'. decode_capture_committed_response bs' = Inr m' \<and>
      encode_capture_committed_response m' = Inl ValueError" by blast
qed

end
