(* ===== verification/Reconnect.thy ===== *)
theory Reconnect
  imports Usac_Prelude Complex_Main
begin

text \<open>
  The bounded retry and the session supervisor of \<open>reconnect.py\<close>. The callables the code
  receives (\<open>operation\<close>, \<open>sleep\<close>, \<open>run_one_session\<close>, \<open>should_stop\<close>) are arguments, as methods
  over a caller's state; a delay in seconds is a rational, on which the doubling and the cap of
  the source are exact. \<open>ConnectionError\<close> and \<open>TimeoutError\<close> are subclasses of \<open>OSError\<close>.
\<close>

section \<open>\<open>retry_connection\<close>\<close>

text \<open>The loop, by the number of attempts that are left.\<close>

fun retry_loop ::
  "('s, 'a) meth \<Rightarrow> (rat \<Rightarrow> ('s, unit) meth) \<Rightarrow> nat \<Rightarrow> rat \<Rightarrow> ('s, 'a) meth" where
  "retry_loop operation sleep 0 delay s = (Inl AssertionError, s)"
| "retry_loop operation sleep (Suc left) delay s =
     (case operation s of
        (Inr v, s') \<Rightarrow> (Inr v, s')
      | (Inl e, s') \<Rightarrow>
          if \<not> is_OSError e \<or> left = 0 then (Inl e, s')
          else case sleep delay s' of
              (Inl e', s'') \<Rightarrow> (Inl e', s'')
            | (Inr _, s'') \<Rightarrow> retry_loop operation sleep left (min (delay * 2) 2) s'')"

definition retry_connection ::
  "('s, 'a) meth \<Rightarrow> (rat \<Rightarrow> ('s, unit) meth) \<Rightarrow> int \<Rightarrow> rat \<Rightarrow> ('s, 'a) meth" where
  "retry_connection operation sleep attempts initial_delay_s s =
     (if attempts < 1 then (Inl ValueError, s)
      else if initial_delay_s < 0 then (Inl ValueError, s)
      else retry_loop operation sleep (nat attempts) initial_delay_s s)"

section \<open>\<open>supervise_sessions\<close>\<close>

text \<open>
  The supervisor may run for ever, so a run that does not return is the value \<^const>\<open>None\<close>.
\<close>

partial_function (option) supervise_loop ::
  "('s, unit) meth \<Rightarrow> rat \<Rightarrow> ('s \<Rightarrow> bool \<times> 's) \<Rightarrow> (rat \<Rightarrow> 's \<Rightarrow> 's) \<Rightarrow> 's
     \<Rightarrow> (unit res \<times> 's) option" where
  "supervise_loop run_one_session reconnect_delay_s should_stop sleep s =
     (let (stop, s1) = should_stop s in
      if stop then Some (Inr (), s1)
      else
        let (r, s2) = run_one_session s1 in
        if (case r of Inl e \<Rightarrow> \<not> is_OSError e | Inr _ \<Rightarrow> False) then Some (r, s2)
        else
          let (stop', s3) = should_stop s2 in
          supervise_loop run_one_session reconnect_delay_s should_stop sleep
            (if stop' then s3 else sleep reconnect_delay_s s3))"

definition supervise_sessions ::
  "('s, unit) meth \<Rightarrow> rat \<Rightarrow> ('s \<Rightarrow> bool \<times> 's) \<Rightarrow> (rat \<Rightarrow> 's \<Rightarrow> 's) \<Rightarrow> 's
     \<Rightarrow> (unit res \<times> 's) option" where
  "supervise_sessions run_one_session reconnect_delay_s should_stop sleep s =
     (if reconnect_delay_s < 0 then Some (Inl ValueError, s)
      else supervise_loop run_one_session reconnect_delay_s should_stop sleep s)"

section \<open>Executions as traces\<close>

text \<open>
  Every behaviour of a callable over time is a sequence of outcomes. The scripted callables below
  take their outcome from such a sequence and log what is done, so that a statement about all
  scripts is a statement about all environments.
\<close>

datatype 'a act = Called "'a res" | Slept rat

type_synonym 'a script = "'a res list \<times> 'a act list"

fun play :: "('a script, 'a) meth" where
  "play ([], l) = (Inl AssertionError, ([], l))"
| "play (r # rs, l) = (r, (rs, l @ [Called r]))"

fun play_sleep :: "rat \<Rightarrow> ('a script, unit) meth" where
  "play_sleep d (rs, l) = (Inr (), (rs, l @ [Slept d]))"

definition transient :: "'a res \<Rightarrow> bool" where
  "transient r \<longleftrightarrow> (case r of Inl e \<Rightarrow> is_OSError e | Inr _ \<Rightarrow> False)"

text \<open>What a bounded retry of a script should do, said without a loop: it makes the transient
  prefix of the script and one more call, but at most \<open>n\<close>.\<close>

definition retry_calls :: "nat \<Rightarrow> 'a res list \<Rightarrow> nat" where
  "retry_calls n rs = min n (Suc (length (takeWhile transient rs)))"

fun backoff :: "nat \<Rightarrow> rat \<Rightarrow> rat list" where
  "backoff 0 d = []"
| "backoff (Suc n) d = d # backoff n (min (d * 2) 2)"

fun log_of :: "'a res list \<Rightarrow> rat list \<Rightarrow> 'a act list" where
  "log_of [] ds = []"
| "log_of (r # rs) [] = Called r # log_of rs []"
| "log_of (r # rs) (d # ds) = Called r # Slept d # log_of rs ds"

lemma backoff_le: "d \<le> b \<Longrightarrow> 2 \<le> b \<Longrightarrow> \<forall>x \<in> set (backoff n d). x \<le> b"
proof (induction n arbitrary: d)
  case (Suc n)
  have "min (d * 2) 2 \<le> b" using Suc.prems(2) by (simp add: min_le_iff_disj)
  then show ?case using Suc by simp
qed simp

lemma length_backoff [simp]: "length (backoff n d) = n"
  by (induction n arbitrary: d) simp_all

lemma retry_calls_Suc:
  "retry_calls (Suc n) (r # rs) = (if transient r then Suc (retry_calls n rs) else 1)"
  by (simp add: retry_calls_def)

lemma retry_loop_script:
  assumes "0 < n" and "n \<le> length rs"
  shows "retry_loop play play_sleep n d (rs, l) =
    (let k = retry_calls n rs in
     (rs ! (k - 1), (drop k rs, l @ log_of (take k rs) (backoff (k - 1) d))))"
  using assms
proof (induction n arbitrary: rs d l)
  case 0
  then show ?case by simp
next
  case (Suc n)
  obtain r rs' where rs: "rs = r # rs'" using Suc.prems by (cases rs) auto
  show ?case
  proof (cases "transient r \<and> n \<noteq> 0")
    case False
    have k: "retry_calls (Suc n) rs = 1"
      using False by (auto simp: rs retry_calls_Suc) (auto simp: retry_calls_def)
    have "retry_loop play play_sleep (Suc n) d (rs, l) = (r, (rs', l @ [Called r]))"
      using False by (auto simp: rs transient_def split: sum.splits)
    then show ?thesis by (simp add: k, simp add: rs)
  next
    case True
    then obtain e where e: "r = Inl e" "is_OSError e" by (auto simp: transient_def split: sum.splits)
    have len: "n \<le> length rs'" using Suc.prems rs by simp
    define k where "k = retry_calls n rs'"
    have k: "retry_calls (Suc n) rs = Suc k" "k \<noteq> 0"
      using True by (simp_all add: rs retry_calls_Suc k_def) (simp add: retry_calls_def)
    have b: "backoff k d = d # backoff (k - 1) (min (d * 2) 2)" using k(2) by (cases k) simp_all
    show ?thesis
      using True e len Suc.IH [of rs' "min (d * 2) 2" "l @ [Called r, Slept d]"] k(2)
      by (simp add: k(1) b, simp add: rs k_def [symmetric] Let_def)
  qed
qed

text \<open>Retrying is bounded and touches nothing but the transport: for every behaviour of the
  operation (a script of outcomes), \<open>retry_connection\<close> with \<open>n\<close> attempts returns after at most \<open>n\<close>
  calls, with the outcome of its last call; it stops at the first call that succeeds or raises
  anything but \<open>OSError\<close>, it sleeps once between two calls, and no sleep is longer than the larger
  of 2 s and the initial delay.\<close>

theorem retry_connection_bounded:
  assumes "1 \<le> attempts" and "0 \<le> delay" and "nat attempts \<le> length rs"
  shows "\<exists>k. 1 \<le> k \<and> k \<le> nat attempts \<and>
    retry_connection play play_sleep attempts delay (rs, []) =
      (rs ! (k - 1), (drop k rs, log_of (take k rs) (backoff (k - 1) delay))) \<and>
    (\<forall>i < k - 1. transient (rs ! i)) \<and> (transient (rs ! (k - 1)) \<longrightarrow> k = nat attempts) \<and>
    (\<forall>d \<in> set (backoff (k - 1) delay). d \<le> max 2 delay)"
proof -
  define k where "k = retry_calls (nat attempts) rs"
  let ?w = "takeWhile transient rs"
  have n: "0 < nat attempts" using assms(1) by simp
  have 1: "retry_connection play play_sleep attempts delay (rs, []) =
      (rs ! (k - 1), (drop k rs, log_of (take k rs) (backoff (k - 1) delay)))"
    using assms retry_loop_script [OF n assms(3), of delay "[]"]
    by (simp add: retry_connection_def k_def Let_def)
  have kb: "1 \<le> k" "k \<le> nat attempts" "k - 1 \<le> length ?w"
    using n by (auto simp: k_def retry_calls_def)
  have 2: "\<forall>i < k - 1. transient (rs ! i)"
    using kb(3) by (metis less_le_trans nth_mem set_takeWhileD takeWhile_nth)
  have 3: "k = nat attempts" if t: "transient (rs ! (k - 1))"
  proof (rule ccontr)
    assume "k \<noteq> nat attempts"
    then have "k = Suc (length ?w)" "length ?w < length rs"
      using kb assms(3) by (auto simp: k_def retry_calls_def min_def split: if_splits)
    then show False using t nth_length_takeWhile [of transient rs] by simp
  qed
  show ?thesis using 1 2 3 kb(1,2) backoff_le [of delay "max 2 delay" "k - 1"] by (intro exI [of _ k]) auto
qed

theorem retry_connection_bounded_witness:
  "\<exists>k. 1 \<le> k \<and> k \<le> nat 3 \<and>
    retry_connection play play_sleep 3 (1/10) ([Inl ConnectionError, Inr (7::int), Inr 8], []) =
      ([Inl ConnectionError, Inr 7, Inr 8] ! (k - 1), (drop k [Inl ConnectionError, Inr 7, Inr 8],
        log_of (take k [Inl ConnectionError, Inr 7, Inr 8]) (backoff (k - 1) (1/10))))"
  using retry_connection_bounded [of 3 "1/10" "[Inl ConnectionError, Inr (7::int), Inr 8]"] by auto

section \<open>The supervisor ends when it is told to, and only hides transport failures\<close>

type_synonym sup_state = "unit res list \<times> nat \<times> nat"

text \<open>A scripted supervisor environment: the sessions still to come, the number of sessions run
  and the number of pauses; \<open>should_stop\<close> turns true when the script is used up.\<close>

fun sup_run :: "(sup_state, unit) meth" where
  "sup_run ([], k, p) = (Inr (), ([], k, p))"
| "sup_run (r # rs, k, p) = (r, (rs, Suc k, p))"

definition sup_stop :: "sup_state \<Rightarrow> bool \<times> sup_state" where
  "sup_stop s = (fst s = [], s)"

definition sup_sleep :: "rat \<Rightarrow> sup_state \<Rightarrow> sup_state" where
  "sup_sleep d s = (fst s, fst (snd s), Suc (snd (snd s)))"

definition fatal :: "unit res \<Rightarrow> bool" where
  "fatal r \<longleftrightarrow> \<not> is_ok r \<and> \<not> transient r"

lemma supervise_loop_ends:
  "\<exists>p'. supervise_loop sup_run d sup_stop sup_sleep (rs, k, p) =
    (case dropWhile (\<lambda>r. \<not> fatal r) rs of
       [] \<Rightarrow> Some (Inr (), ([], k + length rs, p'))
     | r # rest \<Rightarrow> Some (r, (rest, k + length (takeWhile (\<lambda>r. \<not> fatal r) rs) + 1, p')))"
proof (induction rs arbitrary: k p)
  case Nil
  show ?case by (subst supervise_loop.simps) (simp add: sup_stop_def)
next
  case (Cons r rs)
  have "supervise_loop sup_run d sup_stop sup_sleep (r # rs, k, p) =
     (if fatal r then Some (r, (rs, Suc k, p))
      else supervise_loop sup_run d sup_stop sup_sleep (rs, Suc k, if rs = [] then p else Suc p))"
    by (subst supervise_loop.simps)
      (auto simp: sup_stop_def sup_sleep_def fatal_def transient_def is_ok_def Let_def split: sum.splits)
  then show ?case using Cons.IH [of "Suc k" "if rs = [] then p else Suc p"] by (auto split: list.splits)
qed

text \<open>The supervisor keeps reopening sessions through every transport failure and returns when it is
  asked to stop: if \<open>should_stop\<close> turns true after the sessions \<open>rs\<close>, none of which raised anything
  but an \<open>OSError\<close>, all of them are run and it returns normally; the first other exception ends it at
  once and is what the caller sees.\<close>

theorem supervise_sessions_ends:
  assumes "0 \<le> delay"
  shows "\<exists>p. supervise_sessions sup_run delay sup_stop sup_sleep (rs, 0, 0) =
    (case dropWhile (\<lambda>r. \<not> fatal r) rs of
       [] \<Rightarrow> Some (Inr (), ([], length rs, p))
     | r # rest \<Rightarrow> Some (r, (rest, length (takeWhile (\<lambda>r. \<not> fatal r) rs) + 1, p)))"
  using assms supervise_loop_ends [of delay rs 0 0] by (auto simp: supervise_sessions_def split: list.splits)

theorem supervise_sessions_ends_witness:
  "\<exists>p. supervise_sessions sup_run 1 sup_stop sup_sleep ([Inl OSError, Inr (), Inl ValueError, Inr ()], 0, 0) =
     Some (Inl ValueError, ([Inr ()], 3, p))"
  using supervise_sessions_ends [of 1 "[Inl OSError, Inr (), Inl ValueError, Inr ()]"]
  by (simp add: fatal_def transient_def is_ok_def is_OSError_def eval_nat_numeral)

end
