(* ===== verification/Py_Values.thy ===== *)
theory Py_Values
  imports Usac_Prelude Complex_Main "HOL-Library.Log_Nat" "HOL-Library.AList"
begin

text \<open>
  The Python values that travel through the semantic configuration: booleans, unbounded integers,
  IEEE doubles, text and containers, with Python's equality across the numeric types, truth value,
  \<open>int()\<close> and \<open>float()\<close>; and the arithmetic on doubles that the code uses. A finite double is the
  rational it denotes; every operation rounds its exact result to 53 significant bits, ties to
  even. Exponent overflow and subnormal results do not occur for the frequencies and times the
  code computes and are not modelled.
\<close>

section \<open>Doubles\<close>

definition round_half_even :: "rat \<Rightarrow> int" where
  "round_half_even x =
     (let f = \<lfloor>x\<rfloor>; d = x - of_int f in
      if d < 1 / 2 then f else if 1 / 2 < d then f + 1 else if even f then f else f + 1)"

text \<open>The binary exponent of a positive rational: \<open>2 ^ e \<le> x < 2 ^ (e + 1)\<close>.\<close>

definition rat_exponent :: "rat \<Rightarrow> int" where
  "rat_exponent x =
     (let (p, q) = quotient_of x; k = int (floorlog 2 (nat p)) - int (floorlog 2 (nat q)) in
      if 2 powi k \<le> x then k else k - 1)"

definition fl :: "rat \<Rightarrow> rat" where
  "fl x =
     (if x = 0 then 0
      else let ulp = 2 powi (rat_exponent \<bar>x\<bar> - 52)
           in of_int (round_half_even (x / ulp)) * ulp)"

text \<open>\<open>a / b\<close> of two integers, which Python rounds once, and \<open>round\<close> of a double.\<close>

definition true_div :: "int \<Rightarrow> int \<Rightarrow> rat res" where
  "true_div a b = (if b = 0 then Inl ZeroDivisionError else Inr (fl (of_int a / of_int b)))"

lemma fl_tenth: "fl (1 / 10) = 3602879701896397 / 36028797018963968"
  by code_simp

lemma round_half_even_error: "\<bar>of_int (round_half_even x) - x\<bar> \<le> 1 / 2"
proof -
  have "of_int \<lfloor>x\<rfloor> \<le> x" "x < of_int \<lfloor>x\<rfloor> + 1" by linarith+
  then show ?thesis by (auto simp: round_half_even_def Let_def abs_le_iff)
qed

section \<open>Objects\<close>

datatype pyobj =
    ONone
  | OBool bool
  | OInt int
  | OFloat rat
  | OInf bool
  | ONan
  | OStr string
  | OList "pyobj list"
  | ODict "(string \<times> pyobj) list"

text \<open>The exact value of a finite number: \<open>bool\<close> is a subclass of \<open>int\<close>.\<close>

fun py_num :: "pyobj \<Rightarrow> rat option" where
  "py_num (OBool b) = Some (if b then 1 else 0)"
| "py_num (OInt i) = Some (of_int i)"
| "py_num (OFloat x) = Some x"
| "py_num _ = None"

text \<open>\<open>==\<close>\<close>

function py_eq :: "pyobj \<Rightarrow> pyobj \<Rightarrow> bool" where
  "py_eq (OList xs) y =
     (case y of OList ys \<Rightarrow> length xs = length ys \<and> (\<forall>i < length xs. py_eq (xs ! i) (ys ! i))
      | _ \<Rightarrow> False)"
| "py_eq (ODict xs) y =
     (case y of ODict ys \<Rightarrow> length xs = length ys \<and>
          (\<forall>i < length xs. case map_of ys (fst (xs ! i)) of
             None \<Rightarrow> False | Some w \<Rightarrow> py_eq (snd (xs ! i)) w)
      | _ \<Rightarrow> False)"
| "py_eq (OBool b) y = (py_num y = Some (if b then 1 else 0))"
| "py_eq (OInt i) y = (py_num y = Some (of_int i))"
| "py_eq (OFloat x) y = (py_num y = Some x)"
| "py_eq ONone y = (y = ONone)"
| "py_eq (OInf s) y = (y = OInf s)"
| "py_eq ONan y = False"
| "py_eq (OStr s) y = (y = OStr s)"
  by pat_completeness auto
termination
proof (relation "measure (\<lambda>(x, y). size x)", goal_cases)
  case 1
  show ?case by simp
next
  case (2 xs y ys i)
  then have "xs ! i \<in> set xs" by simp
  then show ?case using size_list_estimation' [of "xs ! i" xs "size (xs ! i)" size] by simp
next
  case (3 xs y ys i w)
  then have m: "xs ! i \<in> set xs" by simp
  have "size (snd (xs ! i)) \<le> size_prod (\<lambda>_. 0) size (xs ! i)"
    by (cases "xs ! i") simp
  with m show ?case
    using size_list_estimation' [OF m, of "size (snd (xs ! i))" "size_prod (\<lambda>_. 0) size"] by simp
qed

text \<open>\<open>bool()\<close>\<close>

fun py_truth :: "pyobj \<Rightarrow> bool" where
  "py_truth ONone = False"
| "py_truth (OBool b) = b"
| "py_truth (OInt i) = (i \<noteq> 0)"
| "py_truth (OFloat x) = (x \<noteq> 0)"
| "py_truth (OStr s) = (s \<noteq> [])"
| "py_truth (OList xs) = (xs \<noteq> [])"
| "py_truth (ODict xs) = (xs \<noteq> [])"
| "py_truth _ = True"

text \<open>
  \<open>int()\<close> and \<open>float()\<close>. The code converts fields that the registry declares as numbers; text that
  happens to spell a number is not modelled and counts as a \<open>ValueError\<close> here.
\<close>

fun py_int :: "pyobj \<Rightarrow> int res" where
  "py_int (OBool b) = Inr (if b then 1 else 0)"
| "py_int (OInt i) = Inr i"
| "py_int (OFloat x) = Inr (if 0 \<le> x then \<lfloor>x\<rfloor> else \<lceil>x\<rceil>)"
| "py_int (OInf _) = Inl OverflowError"
| "py_int ONan = Inl ValueError"
| "py_int (OStr _) = Inl ValueError"
| "py_int _ = Inl TypeError"

fun py_float :: "pyobj \<Rightarrow> pyobj res" where
  "py_float (OBool b) = Inr (OFloat (if b then 1 else 0))"
| "py_float (OInt i) = Inr (OFloat (fl (of_int i)))"
| "py_float (OFloat x) = Inr (OFloat x)"
| "py_float (OInf s) = Inr (OInf s)"
| "py_float ONan = Inr ONan"
| "py_float (OStr _) = Inl ValueError"
| "py_float _ = Inl TypeError"

section \<open>Dictionaries with insertion order\<close>

type_synonym 'v dict = "(string \<times> 'v) list"

definition dget :: "('k \<times> 'v) list \<Rightarrow> 'k \<Rightarrow> 'v res" where
  "dget d k = (case map_of d k of None \<Rightarrow> Inl KeyError | Some v \<Rightarrow> Inr v)"

lemma dget_ok_iff [simp]: "dget d k = Inr v \<longleftrightarrow> map_of d k = Some v"
  by (simp add: dget_def split: option.split)

lemma dget_err_iff [simp]: "dget d k = Inl e \<longleftrightarrow> map_of d k = None \<and> e = KeyError"
  by (auto simp: dget_def split: option.split)

lemma dget_update [simp]: "dget (AList.update k v d) k' = (if k' = k then Inr v else dget d k')"
  by (simp add: dget_def update_conv)

end
