(* ===== verification/Parameters.thy ===== *)
theory Parameters
  imports Py_Values
begin

text \<open>
  The semantic parameter registry of \<open>parameters.py\<close>: register fields with their mask, shift and
  encoding, the schema with its consistency check, and the translation between semantic values and
  register bits. The JSON document is given as a typed value (\<open>document\<close>); reading the file and
  malformed JSON are not modelled.
\<close>

unbundle bit_operations_syntax

section \<open>Fields\<close>

datatype encoding =
    EncBool
  | EncUint int int
  | EncEnum "(int \<times> pyobj) list"
  | EncOther string

record RegisterField =
  rf_name :: string
  rf_address :: int
  rf_mask :: int
  rf_shift :: nat
  rf_encoding :: encoding
  rf_default :: pyobj
  rf_sweepable :: bool
  rf_mutable_states :: "string list"
  rf_safety :: string
  rf_readback :: string
  rf_metadata :: "pyobj dict"

definition test_values :: "RegisterField \<Rightarrow> pyobj list res" where
  "test_values field =
     (case rf_encoding field of
        EncBool \<Rightarrow> Inr [OBool False, OBool True]
      | EncEnum items \<Rightarrow> Inr (map snd items)
      | EncUint minimum maximum \<Rightarrow>
          Inr (if minimum = maximum then [OInt minimum] else [OInt minimum, OInt maximum])
      | EncOther _ \<Rightarrow> Inl ValueError)"

definition field_encode :: "RegisterField \<Rightarrow> pyobj \<Rightarrow> int res" where
  "field_encode field semantic_value =
     (case rf_encoding field of
        EncBool \<Rightarrow> (case semantic_value of OBool b \<Rightarrow> Inr (if b then 1 else 0) | _ \<Rightarrow> Inl ValueError)
      | EncUint lo hi \<Rightarrow>
          (case semantic_value of
             OInt v \<Rightarrow> if lo \<le> v \<and> v \<le> hi then Inr v else Inl ValueError
           | _ \<Rightarrow> Inl ValueError)
      | EncEnum items \<Rightarrow>
          (case find (\<lambda>item. py_eq (snd item) semantic_value) items of
             Some item \<Rightarrow> Inr (fst item)
           | None \<Rightarrow> Inl ValueError)
      | EncOther _ \<Rightarrow> Inl ValueError)"

definition field_decode :: "RegisterField \<Rightarrow> int \<Rightarrow> pyobj res" where
  "field_decode field code =
     (case rf_encoding field of
        EncBool \<Rightarrow> if code \<noteq> 0 \<and> code \<noteq> 1 then Inl ValueError else Inr (OBool (code \<noteq> 0))
      | EncUint lo hi \<Rightarrow> if lo \<le> code \<and> code \<le> hi then Inr (OInt code) else Inl ValueError
      | EncEnum items \<Rightarrow>
          (case find (\<lambda>item. fst item = code) items of
             Some item \<Rightarrow> Inr (snd item)
           | None \<Rightarrow> Inl ValueError)
      | EncOther _ \<Rightarrow> Inl ValueError)"

section \<open>The schema\<close>

text \<open>An entry of \<open>nonregister_fields\<close>, by the keys the code reads.\<close>

record nonregister =
  nr_name :: string
  nr_kind :: string
  nr_access :: "string option"
  nr_min :: rat
  nr_max :: rat
  nr_values :: "pyobj list"
  nr_default :: "pyobj option"
  nr_value :: pyobj
  nr_sweepable :: bool

record ParameterSchema =
  ps_schema_name :: string
  ps_schema_version :: int
  ps_register_fields :: "RegisterField dict"
  ps_nonregister_fields :: "nonregister dict"
  ps_register_write_masks :: "(int \<times> int) list"
  ps_register_names :: "(int \<times> string) list"

record document =
  doc_schema_name :: string
  doc_schema_version :: int
  doc_registers :: "(int \<times> string \<times> int) list"
  doc_register_fields :: "RegisterField list"
  doc_nonregister_fields :: "nonregister list"

text \<open>
  One turn of the mask check. The comparison of the two dictionaries at the end is on lists: they
  are built over the same keys in the same order.
\<close>

fun combine_fields :: "RegisterField list \<Rightarrow> (int \<times> int) list \<Rightarrow> (int \<times> int) list res" where
  "combine_fields [] combined = Inr combined"
| "combine_fields (field # fds) combined =
     (case map_of combined (rf_address field) of
        None \<Rightarrow> Inl ValueError
      | Some used \<Rightarrow>
          if used AND rf_mask field \<noteq> 0 then Inl ValueError
          else
            let width_mask = drop_bit (rf_shift field) (rf_mask field) in
            if rf_mask field \<noteq> push_bit (rf_shift field) width_mask then Inl ValueError
            else combine_fields fds
                   (AList.update (rf_address field) (used OR rf_mask field) combined))"

definition combined_masks :: "ParameterSchema \<Rightarrow> (int \<times> int) list res" where
  "combined_masks schema =
     rbind (combine_fields (map snd (ps_register_fields schema))
              (map (\<lambda>(address, _). (address, 0)) (ps_register_write_masks schema))) (\<lambda>combined.
     if combined \<noteq> ps_register_write_masks schema then Inl ValueError else Inr combined)"

fun collect_fields :: "RegisterField list \<Rightarrow> RegisterField dict \<Rightarrow> RegisterField dict res" where
  "collect_fields [] fds = Inr fds"
| "collect_fields (item # items) fds =
     (if rf_name item \<in> fst ` set fds then Inl ValueError
      else collect_fields items (fds @ [(rf_name item, item)]))"

definition load_schema :: "document \<Rightarrow> ParameterSchema res" where
  "load_schema document =
     (if doc_schema_name document \<noteq> ''tuss4470-parameters-v1'' then Inl ValueError
      else if doc_schema_version document \<noteq> 1 then Inl ValueError
      else
        rbind (collect_fields (doc_register_fields document) []) (\<lambda>fds.
        let schema = \<lparr>ps_schema_name = doc_schema_name document,
              ps_schema_version = doc_schema_version document,
              ps_register_fields = fds,
              ps_nonregister_fields =
                fold (\<lambda>item. AList.update (nr_name item) item) (doc_nonregister_fields document) [],
              ps_register_write_masks =
                fold (\<lambda>(address, name, mask). AList.update address mask) (doc_registers document) [],
              ps_register_names =
                fold (\<lambda>(address, name, mask). AList.update address name) (doc_registers document) []\<rparr>
        in rbind (combined_masks schema) (\<lambda>_. Inr schema)))"

definition encode_field :: "ParameterSchema \<Rightarrow> string \<Rightarrow> pyobj \<Rightarrow> int \<Rightarrow> int res" where
  "encode_field schema name semantic_value register_value =
     rbind (dget (ps_register_fields schema) name) (\<lambda>field.
     rbind (field_encode field semantic_value) (\<lambda>code.
     let width_mask = drop_bit (rf_shift field) (rf_mask field) in
     if code AND NOT width_mask \<noteq> 0 then Inl ValueError
     else Inr ((register_value AND NOT (rf_mask field)) OR
               (push_bit (rf_shift field) code AND rf_mask field))))"

definition decode_field :: "ParameterSchema \<Rightarrow> string \<Rightarrow> int \<Rightarrow> pyobj res" where
  "decode_field schema name register_value =
     rbind (dget (ps_register_fields schema) name) (\<lambda>field.
     field_decode field (drop_bit (rf_shift field) (register_value AND rf_mask field)))"

section \<open>Fields and bits\<close>

text \<open>An enum whose codes are pairwise different can be read back.\<close>

definition enum_codes_distinct :: "RegisterField \<Rightarrow> bool" where
  "enum_codes_distinct field =
     (case rf_encoding field of EncEnum items \<Rightarrow> distinct (map fst items) | _ \<Rightarrow> True)"

lemma py_eq_refl_scalar: "py_eq (OBool b) (OBool b)" "py_eq (OInt i) (OInt i)"
  by simp_all

lemma find_distinct_fst:
  assumes "distinct (map fst items)" and "item \<in> set items"
  shows "find (\<lambda>i. fst i = fst item) items = Some item"
  using assms by (induction items) (auto simp: rev_image_eqI)

lemma field_decode_encode:
  assumes "enum_codes_distinct field" and "field_encode field v = Inr code"
  shows "\<exists>v'. field_decode field code = Inr v' \<and> py_eq v' v"
proof (cases "rf_encoding field")
  case (EncEnum items)
  then obtain item where item: "find (\<lambda>item. py_eq (snd item) v) items = Some item" "code = fst item"
    using assms(2) by (auto simp: field_encode_def split: option.splits)
  have m: "item \<in> set items" "py_eq (snd item) v" using find_SomeD [OF item(1)] by simp_all
  then show ?thesis
    using EncEnum assms(1) find_distinct_fst [OF _ m(1)]
    by (simp add: field_decode_def enum_codes_distinct_def item(2))
qed (use assms(2) in \<open>auto simp: field_encode_def field_decode_def split: pyobj.splits if_splits\<close>)

lemma masked_field_bits:
  fixes code m r :: int
  assumes "m = push_bit s (drop_bit s m)" and "code AND NOT (drop_bit s m) = 0"
  shows "drop_bit s (((r AND NOT m) OR (push_bit s code AND m)) AND m) = code"
proof -
  have c: "bit code i \<Longrightarrow> bit m (s + i)" for i
    using assms(2) by (metis (no_types) bit_and_iff bit_drop_bit_eq bit_not_int_iff' bit_0_eq bot_apply bot_bool_def comp_apply bit_not_iff possible_bit_int add.commute)
  show ?thesis
    by (rule bit_eqI) (auto simp: bit_simps dest: c)
qed

lemma masked_field_other:
  fixes code m m' r :: int
  assumes "m AND m' = 0"
  shows "((r AND NOT m) OR (push_bit s code AND m)) AND m' = r AND m'"
proof -
  have "\<not> (bit m i \<and> bit m' i)" for i using assms by (metis bit_and_iff bit_0_eq bot_apply bot_bool_def)
  then show ?thesis by (intro bit_eqI) (auto simp: bit_simps)
qed

section \<open>What the mask check establishes\<close>

definition fields_disjoint :: "RegisterField list \<Rightarrow> bool" where
  "fields_disjoint fds \<longleftrightarrow>
     (\<forall>i j. i < j \<and> j < length fds \<and> rf_address (fds ! i) = rf_address (fds ! j)
        \<longrightarrow> rf_mask (fds ! i) AND rf_mask (fds ! j) = 0)"

definition field_aligned :: "RegisterField \<Rightarrow> bool" where
  "field_aligned f \<longleftrightarrow> rf_mask f = push_bit (rf_shift f) (drop_bit (rf_shift f) (rf_mask f))"

lemma and_0_or: "(a OR b) AND c = 0 \<longleftrightarrow> a AND c = 0 \<and> b AND c = (0::int)"
  by (auto simp: bit_eq_iff bit_simps)

lemma combine_fields_sound:
  assumes "combine_fields fds combined = Inr final"
  shows "fields_disjoint fds" "\<forall>f \<in> set fds. field_aligned f"
    "\<forall>f \<in> set fds. \<exists>u. map_of combined (rf_address f) = Some u \<and> u AND rf_mask f = 0"
    "map fst final = map fst combined"
proof -
  have "fields_disjoint fds \<and> (\<forall>f \<in> set fds. field_aligned f) \<and>
    (\<forall>f \<in> set fds. \<exists>u. map_of combined (rf_address f) = Some u \<and> u AND rf_mask f = 0) \<and>
    map fst final = map fst combined"
    using assms
  proof (induction fds combined rule: combine_fields.induct)
    case (1 combined)
    then show ?case by (simp add: fields_disjoint_def)
  next
    case (2 field fds combined)
    obtain used where u: "map_of combined (rf_address field) = Some used" "used AND rf_mask field = 0"
      and al: "field_aligned field"
      and rest: "combine_fields fds (AList.update (rf_address field) (used OR rf_mask field) combined) = Inr final"
      using "2.prems" by (auto simp: field_aligned_def Let_def split: option.splits if_splits)
    note ih = "2.IH" [OF u(1) _ refl _ rest]
    have ih1: "fields_disjoint fds" "\<forall>f \<in> set fds. field_aligned f"
      and ih2: "\<And>f. f \<in> set fds \<Longrightarrow> \<exists>v. map_of (AList.update (rf_address field) (used OR rf_mask field) combined)
          (rf_address f) = Some v \<and> v AND rf_mask f = 0"
      and ih3: "map fst final = map fst (AList.update (rf_address field) (used OR rf_mask field) combined)"
      using ih u(2) al by (auto simp: field_aligned_def)
    have head: "rf_mask field AND rf_mask f = 0" if "f \<in> set fds" "rf_address f = rf_address field" for f
      using ih2 [OF that(1)] that(2) by (auto simp: update_conv and_0_or)
    have disj: "fields_disjoint (field # fds)"
      unfolding fields_disjoint_def
    proof (intro allI impI, elim conjE)
      fix i j assume ij: "i < j" "j < length (field # fds)"
        and a: "rf_address ((field # fds) ! i) = rf_address ((field # fds) ! j)"
      obtain j' where j': "j = Suc j'" "j' < length fds" using ij by (cases j) auto
      show "rf_mask ((field # fds) ! i) AND rf_mask ((field # fds) ! j) = 0"
      proof (cases i)
        case 0
        then show ?thesis using head [of "fds ! j'"] a j' by simp
      next
        case (Suc i')
        then show ?thesis using ih1(1) ij(1) a j' by (simp add: fields_disjoint_def)
      qed
    qed
    have earlier: "\<exists>v. map_of combined (rf_address f) = Some v \<and> v AND rf_mask f = 0" if "f \<in> set fds" for f
      using ih2 [OF that] u by (auto simp: update_conv and_0_or split: if_splits)
    have keys: "map fst (AList.update (rf_address field) (used OR rf_mask field) combined) = map fst combined"
      using map_of_SomeD [OF u(1)] by (force simp: update_keys)
    show ?case using disj al ih1(2) earlier u ih3 keys by auto
  qed
  then show "fields_disjoint fds" "\<forall>f \<in> set fds. field_aligned f"
    "\<forall>f \<in> set fds. \<exists>u. map_of combined (rf_address f) = Some u \<and> u AND rf_mask f = 0"
    "map fst final = map fst combined"
    by blast+
qed

lemma combined_masks_sound:
  assumes "combined_masks schema = Inr m"
  shows "fields_disjoint (map snd (ps_register_fields schema))"
    "f \<in> snd ` set (ps_register_fields schema) \<Longrightarrow> field_aligned f"
    "f \<in> snd ` set (ps_register_fields schema) \<Longrightarrow> rf_address f \<in> fst ` set (ps_register_write_masks schema)"
proof -
  obtain final where c: "combine_fields (map snd (ps_register_fields schema))
      (map (\<lambda>(address, _). (address, 0)) (ps_register_write_masks schema)) = Inr final"
    using assms by (auto simp: combined_masks_def)
  note s = combine_fields_sound [OF c]
  show "fields_disjoint (map snd (ps_register_fields schema))" by (rule s(1))
  show "field_aligned f" if "f \<in> snd ` set (ps_register_fields schema)" using s(2) that by auto
  show "rf_address f \<in> fst ` set (ps_register_write_masks schema)"
    if "f \<in> snd ` set (ps_register_fields schema)"
  proof -
    from that obtain u where "map_of (map (\<lambda>(address, _). (address, 0::int)) (ps_register_write_masks schema)) (rf_address f) = Some u"
      using s(3) by fastforce
    then show ?thesis by (force dest!: map_of_SomeD)
  qed
qed

text \<open>The consistency a schema needs for its fields to be independent.\<close>

definition schema_ok :: "ParameterSchema \<Rightarrow> bool" where
  "schema_ok schema \<longleftrightarrow> is_ok (combined_masks schema) \<and> distinct (map fst (ps_register_fields schema)) \<and>
     (\<forall>f \<in> snd ` set (ps_register_fields schema). enum_codes_distinct f)"

lemma schema_ok_disjoint:
  assumes "schema_ok schema" "map_of (ps_register_fields schema) n = Some f"
    "map_of (ps_register_fields schema) n' = Some f'" "n \<noteq> n'" "rf_address f = rf_address f'"
  shows "rf_mask f AND rf_mask f' = 0"
proof -
  let ?l = "ps_register_fields schema"
  obtain m where "combined_masks schema = Inr m" using assms(1) by (auto simp: schema_ok_def is_ok_def split: sum.splits)
  note disj = combined_masks_sound(1) [OF this]
  obtain i j where ij: "i < length ?l" "j < length ?l" "?l ! i = (n, f)" "?l ! j = (n', f')"
    using assms(2,3) by (meson map_of_SomeD in_set_conv_nth)
  then have "i < j \<or> j < i" using assms(4) by (metis linorder_neqE_nat prod.inject)
  then show ?thesis
    using disj [unfolded fields_disjoint_def, rule_format, of i j]
      disj [unfolded fields_disjoint_def, rule_format, of j i] ij assms(5)
    by (auto simp: and.commute)
qed

lemma collect_fields_sound:
  assumes "collect_fields items acc = Inr fds" "distinct (map fst acc)"
  shows "distinct (map fst fds) \<and> snd ` set fds = snd ` set acc \<union> set items"
  using assms by (induction items acc rule: collect_fields.induct) (auto split: if_splits)

lemma load_schema_ok:
  assumes "load_schema doc = Inr schema" "\<forall>f \<in> set (doc_register_fields doc). enum_codes_distinct f"
  shows "schema_ok schema"
proof -
  obtain fds m where c: "collect_fields (doc_register_fields doc) [] = Inr fds"
    "ps_register_fields schema = fds" "combined_masks schema = Inr m"
    using assms(1) by (auto simp: load_schema_def Let_def)
  then show ?thesis using collect_fields_sound [OF c(1)] assms(2) by (auto simp: schema_ok_def)
qed

lemma encode_field_ok:
  assumes "schema_ok schema" "encode_field schema name v r = Inr r'"
  obtains f code where "map_of (ps_register_fields schema) name = Some f" "field_encode f v = Inr code"
    "r' = (r AND NOT (rf_mask f)) OR (push_bit (rf_shift f) code AND rf_mask f)"
    "drop_bit (rf_shift f) (r' AND rf_mask f) = code"
proof -
  obtain f code where f: "map_of (ps_register_fields schema) name = Some f" "field_encode f v = Inr code"
    "code AND NOT (drop_bit (rf_shift f) (rf_mask f)) = 0"
    "r' = (r AND NOT (rf_mask f)) OR (push_bit (rf_shift f) code AND rf_mask f)"
    using assms(2) by (auto simp: encode_field_def Let_def split: if_splits)
  obtain m where "combined_masks schema = Inr m" using assms(1) by (auto simp: schema_ok_def is_ok_def split: sum.splits)
  from combined_masks_sound(2) [OF this, of f] f(1) have "field_aligned f"
    by (metis image_eqI map_of_SomeD snd_conv)
  then have "drop_bit (rf_shift f) (r' AND rf_mask f) = code"
    unfolding f(4) by (intro masked_field_bits f(3)) (simp add: field_aligned_def)
  then show ?thesis using that f by blast
qed

lemma decode_encode_field:
  assumes "schema_ok schema" "encode_field schema name v r = Inr r'"
  shows "\<exists>v'. decode_field schema name r' = Inr v' \<and> py_eq v' v"
proof -
  obtain f code where f: "map_of (ps_register_fields schema) name = Some f" "field_encode f v = Inr code"
    "drop_bit (rf_shift f) (r' AND rf_mask f) = code"
    using encode_field_ok [OF assms] by metis
  have "enum_codes_distinct f"
    using assms(1) map_of_SomeD [OF f(1)] by (force simp: schema_ok_def)
  from field_decode_encode [OF this f(2)] f show ?thesis
    by (auto simp: decode_field_def rbind_def dget_def)
qed

lemma decode_encode_other_field:
  assumes "schema_ok schema" "encode_field schema name v r = Inr r'" "name' \<noteq> name"
    "map_of (ps_register_fields schema) name = Some f" "map_of (ps_register_fields schema) name' = Some f'"
    "rf_address f' = rf_address f"
  shows "decode_field schema name' r' = decode_field schema name' r"
proof -
  obtain code where "r' = (r AND NOT (rf_mask f)) OR (push_bit (rf_shift f) code AND rf_mask f)"
    using encode_field_ok [OF assms(1,2)] assms(4) by (metis option.inject)
  moreover have "rf_mask f AND rf_mask f' = 0"
    using schema_ok_disjoint [OF assms(1,4,5)] assms(3,6) by simp
  ultimately have "r' AND rf_mask f' = r AND rf_mask f'" by (simp add: masked_field_other)
  then have "drop_bit (rf_shift f') (r' AND rf_mask f') = drop_bit (rf_shift f') (r AND rf_mask f')" by (rule arg_cong)
  then show ?thesis using assms(5) by (simp add: decode_field_def dget_def del: drop_bit_and)
qed

text \<open>A register field is an independent cell of its register. In every schema that loads (with
  unambiguous enum codes), writing a value into a field and reading the field back gives an equal
  value, every other field of the same register still reads as before, and no bit outside the
  field's mask changes.\<close>

theorem register_field_roundtrip:
  assumes "load_schema doc = Inr schema" and "\<forall>f \<in> set (doc_register_fields doc). enum_codes_distinct f"
    and "encode_field schema name v r = Inr r'"
  shows "(\<exists>v'. decode_field schema name r' = Inr v' \<and> py_eq v' v) \<and>
    (\<exists>f. map_of (ps_register_fields schema) name = Some f \<and>
      r' AND NOT (rf_mask f) = r AND NOT (rf_mask f) \<and>
      (\<forall>name' f'. name' \<noteq> name \<longrightarrow> map_of (ps_register_fields schema) name' = Some f' \<longrightarrow>
         rf_address f' = rf_address f \<longrightarrow> decode_field schema name' r' = decode_field schema name' r))"
proof -
  note ok = load_schema_ok [OF assms(1,2)]
  obtain f code where f: "map_of (ps_register_fields schema) name = Some f"
    "r' = (r AND NOT (rf_mask f)) OR (push_bit (rf_shift f) code AND rf_mask f)"
    using encode_field_ok [OF ok assms(3)] by metis
  have "r' AND NOT (rf_mask f) = r AND NOT (rf_mask f)"
    unfolding f(2) by (rule bit_eqI) (auto simp: bit_simps)
  then show ?thesis
    using decode_encode_field [OF ok assms(3)] decode_encode_other_field [OF ok assms(3)] f(1) by blast
qed

section \<open>The shipped registry\<close>

text \<open>
  The document \<open>protocol/schema/tuss4470-parameters-v1.yaml\<close> (JSON text), without the display
  tables and source notes.
\<close>

definition reg_field ::
  "string \<Rightarrow> int \<Rightarrow> int \<Rightarrow> nat \<Rightarrow> encoding \<Rightarrow> pyobj \<Rightarrow> bool \<Rightarrow> string \<Rightarrow> RegisterField" where
  "reg_field name address msk shift enc dflt sweepable safety =
     \<lparr>rf_name = name, rf_address = address, rf_mask = msk, rf_shift = shift, rf_encoding = enc,
      rf_default = dflt, rf_sweepable = sweepable,
      rf_mutable_states = (if sweepable then [''IDLE'', ''CONFIGURED''] else [''IDLE'']),
      rf_safety = safety, rf_readback = ''masked_exact'', rf_metadata = []\<rparr>"

definition registry_fields :: "RegisterField list" where
  "registry_fields = [
    reg_field ''BPF_HPF_FREQ'' 16 63 0 (EncUint 0 63) (OInt 46) True ''static'',
    reg_field ''BPF_BYPASS'' 16 64 6 (EncEnum [(0, OStr ''bpf_enabled''), (1, OStr ''hpf_enabled'')]) (OStr ''bpf_enabled'') True ''static'',
    reg_field ''BPF_FC_TRIM_FRC'' 16 128 7 (EncEnum [(0, OStr ''factory''), (1, OStr ''override'')]) (OStr ''factory'') True ''static'',
    reg_field ''BPF_FC_TRIM'' 17 15 0 (EncUint 0 15) (OInt 0) True ''static'',
    reg_field ''BPF_Q_SEL'' 17 48 4 (EncEnum [(0, OStr ''q4''), (1, OStr ''q5''), (2, OStr ''q2''), (3, OStr ''q3'')]) (OStr ''q4'') True ''static'',
    reg_field ''LOGAMP_INT_ADJ'' 18 15 0 (EncUint 0 15) (OInt 0) True ''static'',
    reg_field ''LOGAMP_SLOPE_ADJ'' 18 112 4 (EncUint 0 7) (OInt 0) True ''static'',
    reg_field ''LOGAMP_FRC'' 18 128 7 (EncEnum [(0, OStr ''factory''), (1, OStr ''override'')]) (OStr ''factory'') True ''static'',
    reg_field ''LNA_GAIN'' 19 3 0 (EncEnum [(0, OStr ''15_v_per_v''), (1, OStr ''10_v_per_v''), (2, OStr ''20_v_per_v''), (3, OStr ''12.5_v_per_v'')]) (OStr ''15_v_per_v'') True ''static'',
    reg_field ''VOUT_SCALE_SEL'' 19 4 2 (EncEnum [(0, OStr ''3.3_v''), (1, OStr ''5.0_v'')]) (OStr ''3.3_v'') True ''adc_range_guarded'',
    reg_field ''LOGAMP_DIS_LAST_GM'' 19 64 6 (EncBool) (OBool False) True ''static'',
    reg_field ''LOGAMP_DIS_FIRST_GM'' 19 128 7 (EncBool) (OBool False) True ''static'',
    reg_field ''IO_MODE'' 20 3 0 (EncEnum [(0, OStr ''io_mode_0''), (1, OStr ''io_mode_1''), (2, OStr ''io_mode_2''), (3, OStr ''io_mode_3'')]) (OStr ''io_mode_3'') True ''driver_guarded'',
    reg_field ''DRV_PLS_FLT_DT'' 20 28 2 (EncEnum [(0, OStr ''64_us''), (1, OStr ''48_us''), (2, OStr ''32_us''), (3, OStr ''24_us''), (4, OStr ''16_us''), (5, OStr ''8_us''), (6, OStr ''4_us''), (7, OStr ''disabled'')]) (OStr ''64_us'') True ''driver_guarded'',
    reg_field ''VDRV_VOLTAGE_LEVEL'' 22 15 0 (EncUint 0 15) (OInt 0) True ''power_guarded'',
    reg_field ''VDRV_CURRENT_LEVEL'' 22 16 4 (EncEnum [(0, OStr ''10_ma''), (1, OStr ''20_ma'')]) (OStr ''10_ma'') True ''power_guarded'',
    reg_field ''VDRV_HI_Z'' 22 32 5 (EncBool) (OBool False) False ''power_state_control'',
    reg_field ''DIS_VDRV_REG_LSTN'' 22 64 6 (EncBool) (OBool True) False ''power_state_control'',
    reg_field ''ECHO_INT_THR_SEL'' 23 15 0 (EncUint 0 15) (OInt 7) True ''static'',
    reg_field ''ECHO_INT_CMP_EN'' 23 16 4 (EncBool) (OBool False) True ''static'',
    reg_field ''ZC_CMP_HYST'' 24 7 0 (EncEnum [(0, OStr ''30_mv''), (1, OStr ''80_mv''), (2, OStr ''130_mv''), (3, OStr ''180_mv''), (4, OStr ''230_mv''), (5, OStr ''280_mv''), (6, OStr ''330_mv''), (7, OStr ''380_mv'')]) (OStr ''230_mv'') True ''static'',
    reg_field ''ZC_CMP_STG_SEL'' 24 24 3 (EncUint 0 3) (OInt 2) True ''static'',
    reg_field ''ZC_CMP_IN_SEL'' 24 32 5 (EncEnum [(0, OStr ''inp_minus_vcm''), (1, OStr ''inp_minus_inn'')]) (OStr ''inp_minus_vcm'') True ''static'',
    reg_field ''ZC_EN_ECHO_INT'' 24 64 6 (EncBool) (OBool False) True ''static'',
    reg_field ''ZC_CMP_EN'' 24 128 7 (EncBool) (OBool False) True ''static'',
    reg_field ''BURST_PULSE'' 26 63 0 (EncUint 0 63) (OInt 1) True ''burst_guarded'',
    reg_field ''PRE_DRIVER_MODE'' 26 64 6 (EncBool) (OBool False) False ''hardware_restricted'',
    reg_field ''HALF_BRG_MODE'' 26 128 7 (EncBool) (OBool False) True ''driver_guarded'',
    reg_field ''CMD_TRIGGER'' 27 1 0 (EncBool) (OBool False) False ''state_machine_only'',
    reg_field ''VDRV_TRIGGER'' 27 2 1 (EncBool) (OBool True) False ''power_state_control'',
    reg_field ''STDBY_MODE_EN'' 27 64 6 (EncBool) (OBool False) False ''state_transition'',
    reg_field ''SLEEP_MODE_EN'' 27 128 7 (EncBool) (OBool False) False ''state_transition'']"

definition registry_nonregister :: "nonregister list" where
  "registry_nonregister = [
     \<lparr>nr_name = ''requested_burst_frequency_hz'', nr_kind = ''integer'', nr_access = Some ''requested'', nr_min = 30000, nr_max = 1000000,
       nr_values = [], nr_default = Some (OInt 480000), nr_value = ONone, nr_sweepable = True\<rparr>,
     \<lparr>nr_name = ''burst_period_ticks'', nr_kind = ''integer'', nr_access = Some ''derived_device_authority'', nr_min = 24, nr_max = 800,
       nr_values = [], nr_default = Some (OInt 50), nr_value = ONone, nr_sweepable = False\<rparr>,
     \<lparr>nr_name = ''requested_sample_rate_hz'', nr_kind = ''integer'', nr_access = Some ''requested'', nr_min = 25000, nr_max = 200000,
       nr_values = [], nr_default = Some (OInt 200000), nr_value = ONone, nr_sweepable = True\<rparr>,
     \<lparr>nr_name = ''requested_record_ms'', nr_kind = ''number'', nr_access = Some ''requested'', nr_min = (5764607523034235 / 562949953421312), nr_max = (5764607523034235 / 70368744177664),
       nr_values = [], nr_default = Some (OFloat (5764607523034235 / 562949953421312)), nr_value = ONone, nr_sweepable = True\<rparr>,
     \<lparr>nr_name = ''sample_interval_ticks'', nr_kind = ''integer'', nr_access = Some ''derived_device_authority'', nr_min = 120, nr_max = 960,
       nr_values = [], nr_default = Some (OInt 120), nr_value = ONone, nr_sweepable = False\<rparr>,
     \<lparr>nr_name = ''sample_count'', nr_kind = ''constant'', nr_access = Some ''read_only'', nr_min = 0, nr_max = 0,
       nr_values = [], nr_default = None, nr_value = OInt 2048, nr_sweepable = False\<rparr>,
     \<lparr>nr_name = ''pretrigger_count'', nr_kind = ''integer'', nr_access = Some ''requested'', nr_min = 0, nr_max = 2047,
       nr_values = [], nr_default = Some (OInt 64), nr_value = ONone, nr_sweepable = True\<rparr>,
     \<lparr>nr_name = ''out3_enabled'', nr_kind = ''bool'', nr_access = Some ''requested'', nr_min = 0, nr_max = 0,
       nr_values = [], nr_default = Some (OBool False), nr_value = ONone, nr_sweepable = True\<rparr>,
     \<lparr>nr_name = ''out4_enabled'', nr_kind = ''bool'', nr_access = Some ''requested'', nr_min = 0, nr_max = 0,
       nr_values = [], nr_default = Some (OBool False), nr_value = ONone, nr_sweepable = True\<rparr>,
     \<lparr>nr_name = ''loops'', nr_kind = ''integer'', nr_access = Some ''requested'', nr_min = 0, nr_max = 4294967295,
       nr_values = [], nr_default = Some (OInt 1), nr_value = ONone, nr_sweepable = False\<rparr>,
     \<lparr>nr_name = ''start_delay_ms'', nr_kind = ''integer'', nr_access = Some ''requested'', nr_min = 0, nr_max = 3600000,
       nr_values = [], nr_default = Some (OInt 0), nr_value = ONone, nr_sweepable = False\<rparr>,
     \<lparr>nr_name = ''loop_delay_ms'', nr_kind = ''integer'', nr_access = Some ''requested'', nr_min = 0, nr_max = 3600000,
       nr_values = [], nr_default = Some (OInt 0), nr_value = ONone, nr_sweepable = False\<rparr>,
     \<lparr>nr_name = ''sweep'', nr_kind = ''object'', nr_access = Some ''requested'', nr_min = 0, nr_max = 0,
       nr_values = [], nr_default = Some (ODict []), nr_value = ONone, nr_sweepable = False\<rparr>,
     \<lparr>nr_name = ''trigger_source'', nr_kind = ''enum'', nr_access = Some ''requested'', nr_min = 0, nr_max = 0,
       nr_values = [OStr ''SOFTWARE'', OStr ''EXTERNAL_SYNC_SLAVE'', OStr ''EXTERNAL_SYNC_MASTER''], nr_default = Some (OStr ''SOFTWARE''), nr_value = ONone, nr_sweepable = False\<rparr>,
     \<lparr>nr_name = ''sync_timeout_ms'', nr_kind = ''integer'', nr_access = Some ''requested'', nr_min = 0, nr_max = 60000,
       nr_values = [], nr_default = Some (OInt 0), nr_value = ONone, nr_sweepable = False\<rparr>]"

definition registry_document :: document where
  "registry_document =
     \<lparr>doc_schema_name = ''tuss4470-parameters-v1'', doc_schema_version = 1,
      doc_registers = [(16, ''BPF_CONFIG_1'', 255), (17, ''BPF_CONFIG_2'', 63), (18, ''DEV_CTRL_1'',
        255), (19, ''DEV_CTRL_2'', 199), (20, ''DEV_CTRL_3'', 31), (22, ''VDRV_CTRL'',
        127), (23, ''ECHO_INT_CONFIG'', 31), (24, ''ZC_CONFIG'', 255), (26,
        ''BURST_PULSE'', 255), (27, ''TOF_CONFIG'', 195)],
      doc_register_fields = registry_fields, doc_nonregister_fields = registry_nonregister\<rparr>"

lemma registry_loads: "rbind (load_schema registry_document) (\<lambda>_. Inr ()) = Inr ()"
  by code_simp

lemma registry_enums: "\<forall>f \<in> set (doc_register_fields registry_document). enum_codes_distinct f"
  by code_simp

definition registry :: ParameterSchema where
  "registry = (case load_schema registry_document of Inr s \<Rightarrow> s | Inl _ \<Rightarrow> undefined)"

lemma load_registry: "load_schema registry_document = Inr registry"
  using registry_loads by (auto simp del: rbind_Inr_iff simp: registry_def rbind_def split: sum.splits)

lemma registry_ok: "schema_ok registry"
  by (rule load_schema_ok [OF load_registry registry_enums])

lemma registry_lna_gain:
  "rbind (load_schema registry_document) (\<lambda>s. encode_field s ''LNA_GAIN'' (OStr ''20_v_per_v'') 0xC5) = Inr 0xC6"
  by code_simp

theorem register_field_roundtrip_witness:
  "encode_field registry ''LNA_GAIN'' (OStr ''20_v_per_v'') 0xC5 = Inr 0xC6 \<and>
   (\<exists>v'. decode_field registry ''LNA_GAIN'' 0xC6 = Inr v' \<and> py_eq v' (OStr ''20_v_per_v''))"
proof -
  have e: "encode_field registry ''LNA_GAIN'' (OStr ''20_v_per_v'') 0xC5 = Inr 0xC6"
    using registry_lna_gain by (simp add: load_registry rbind_def)
  show ?thesis using e register_field_roundtrip [OF load_registry registry_enums e] by blast
qed

end
