(* ===== verification/Hex.thy ===== *)
theory Hex
  imports Usac_Prelude
begin

text \<open>\<open>bytes.hex\<close> and \<open>bytes.fromhex\<close>, which the host uses as the text form of identifiers.\<close>

definition hex_digit :: "nat \<Rightarrow> char" where
  "hex_digit n = ''0123456789abcdef'' ! n"

definition py_hex :: "bytes \<Rightarrow> string" where
  "py_hex bs = concat (map (\<lambda>b. [hex_digit (unat b div 16), hex_digit (unat b mod 16)]) bs)"

definition hex_val :: "char \<Rightarrow> nat option" where
  "hex_val c =
     (let n = of_char c :: nat in
      if 48 \<le> n \<and> n \<le> 57 then Some (n - 48)
      else if 97 \<le> n \<and> n \<le> 102 then Some (n - 87)
      else if 65 \<le> n \<and> n \<le> 70 then Some (n - 55)
      else None)"

definition is_space :: "char \<Rightarrow> bool" where
  "is_space c \<longleftrightarrow> (of_char c :: nat) \<in> {9, 10, 11, 12, 13, 32}"

text \<open>White space is skipped between bytes, not inside one.\<close>

fun fromhex :: "string \<Rightarrow> bytes res" where
  "fromhex [] = Inr []"
| "fromhex [c] = (if is_space c then Inr [] else Inl ValueError)"
| "fromhex (c # d # cs) =
     (if is_space c then fromhex (d # cs)
      else case (hex_val c, hex_val d) of
          (Some a, Some b) \<Rightarrow> rbind (fromhex cs) (\<lambda>r. Inr (word_of_nat (16 * a + b) # r))
        | _ \<Rightarrow> Inl ValueError)"

lemma hex_digit_props:
  "n < 16 \<Longrightarrow> hex_val (hex_digit n) = Some n \<and> \<not> is_space (hex_digit n)"
proof -
  have "\<forall>n \<in> set [0..<16]. hex_val (hex_digit n) = Some n \<and> \<not> is_space (hex_digit n)"
    by code_simp
  then show "n < 16 \<Longrightarrow> hex_val (hex_digit n) = Some n \<and> \<not> is_space (hex_digit n)" by simp
qed

lemma py_hex_Nil [simp]: "py_hex [] = []"
  by (simp add: py_hex_def)

lemma py_hex_Cons: "py_hex (b # bs) = hex_digit (unat b div 16) # hex_digit (unat b mod 16) # py_hex bs"
  by (simp add: py_hex_def)

lemma length_py_hex [simp]: "length (py_hex bs) = 2 * length bs"
  by (induction bs) (simp_all add: py_hex_Cons)

lemma fromhex_hex [simp]: "fromhex (py_hex bs) = Inr bs"
proof (induction bs)
  case (Cons b bs)
  have "unat b < 2 ^ LENGTH(8)" by (rule unsigned_less)
  then have "unat b div 16 < 16" "unat b mod 16 < 16" by (simp_all add: less_mult_imp_div_less)
  then show ?case using Cons hex_digit_props by (simp add: py_hex_Cons)
qed simp

lemma py_hex_inject [simp]: "py_hex a = py_hex b \<longleftrightarrow> a = b"
  by (metis fromhex_hex sum.inject(2))

lemma py_hex_eq_Nil [simp]: "py_hex a = [] \<longleftrightarrow> a = []"
  by (metis py_hex_Nil py_hex_inject)

lemma fromhex_errors: "fromhex s = Inl e \<Longrightarrow> e = ValueError"
  by (induction s rule: fromhex.induct) (auto simp: rbind_Inl_iff split: if_splits option.splits)

end
