(* ===== verification/Parameter_Service.thy ===== *)
theory Parameter_Service
  imports Parameters Safety Hex
begin

text \<open>
  The semantic configuration service of \<open>parameter_service.py\<close>: drafts, tick quantisation, the
  safety review, compilation to registers, and the DRAFT, VALIDATED, APPLIED states of a snapshot.
  A dictionary is an association list in insertion order. \<open>registry_view\<close>, which only reshapes the
  registry for display, is not modelled.
\<close>

section \<open>Snapshots\<close>

datatype ConfigState = DRAFT | VALIDATED | APPLIED

text \<open>A snapshot moves up: the states are ordered by how far the configuration has come.\<close>

fun config_rank :: "ConfigState \<Rightarrow> nat" where
  "config_rank DRAFT = 0"
| "config_rank VALIDATED = 1"
| "config_rank APPLIED = 2"

lemma config_rank_inject: "config_rank a = config_rank b \<Longrightarrow> a = b"
  by (cases a; cases b) simp_all

instantiation ConfigState :: linorder
begin

definition less_eq_ConfigState :: "ConfigState \<Rightarrow> ConfigState \<Rightarrow> bool" where
  "less_eq_ConfigState a b \<longleftrightarrow> config_rank a \<le> config_rank b"

definition less_ConfigState :: "ConfigState \<Rightarrow> ConfigState \<Rightarrow> bool" where
  "less_ConfigState a b \<longleftrightarrow> config_rank a < config_rank b"

instance
  by standard (auto simp: less_eq_ConfigState_def less_ConfigState_def intro: config_rank_inject)

end

datatype ValidationCode = INVALID_VALUE | UNSAFE_CONFIG | UNSUPPORTED_HARDWARE_PROFILE

record FieldValidationError =
  fe_field :: string
  fe_code :: ValidationCode
  fe_message :: string

record ConfigurationSnapshot =
  cs_state :: ConfigState
  cs_requested :: "pyobj dict"
  cs_actual :: "pyobj dict"
  cs_readback :: "pyobj dict"

record ValidationResult =
  vr_snapshot :: ConfigurationSnapshot
  vr_errors :: "FieldValidationError list"
  vr_compiled :: "AcquisitionConfigV2 option"

record ParameterService =
  svc_schema :: ParameterSchema
  svc_smclk_hz :: int

definition new_service :: "ParameterSchema \<Rightarrow> int \<Rightarrow> ParameterService res" where
  "new_service schema smclk_hz =
     (if smclk_hz \<le> 0 then Inl ValueError else Inr \<lparr>svc_schema = schema, svc_smclk_hz = smclk_hz\<rparr>)"

section \<open>Validation of one value\<close>

text \<open>A range check on a number; it fails for NaN and the infinities.\<close>

definition in_range :: "rat \<Rightarrow> pyobj \<Rightarrow> rat \<Rightarrow> bool" where
  "in_range lo value hi = (case py_num value of Some x \<Rightarrow> lo \<le> x \<and> x \<le> hi | None \<Rightarrow> False)"

fun is_py_int :: "pyobj \<Rightarrow> bool" where
  "is_py_int (OInt _) = True"
| "is_py_int _ = False"

fun is_py_number :: "pyobj \<Rightarrow> bool" where
  "is_py_number (OInt _) = True"
| "is_py_number (OFloat _) = True"
| "is_py_number (OInf _) = True"
| "is_py_number ONan = True"
| "is_py_number _ = False"

fun is_py_bool :: "pyobj \<Rightarrow> bool" where
  "is_py_bool (OBool _) = True"
| "is_py_bool _ = False"

fun is_py_dict :: "pyobj \<Rightarrow> bool" where
  "is_py_dict (ODict _) = True"
| "is_py_dict _ = False"

definition validate_datasheet_value :: "ParameterService \<Rightarrow> string \<Rightarrow> pyobj \<Rightarrow> unit res" where
  "validate_datasheet_value svc name value =
     (case map_of (ps_register_fields (svc_schema svc)) name of
        Some field \<Rightarrow> rbind (field_encode field value) (\<lambda>_. Inr ())
      | None \<Rightarrow>
          rbind (dget (ps_nonregister_fields (svc_schema svc)) name) (\<lambda>field.
          if nr_access field = Some ''read_only'' then Inl ValueError
          else if nr_kind field = ''bool'' \<and> \<not> is_py_bool value then Inl ValueError
          else if nr_kind field = ''integer'' then
            (if \<not> is_py_int value then Inl ValueError
             else if \<not> in_range (nr_min field) value (nr_max field) then Inl ValueError else Inr ())
          else if nr_kind field = ''number'' then
            (if \<not> is_py_number value then Inl ValueError
             else if \<not> in_range (nr_min field) value (nr_max field) then Inl ValueError else Inr ())
          else if nr_kind field = ''enum'' \<and> \<not> list_ex (\<lambda>v. py_eq v value) (nr_values field)
          then Inl ValueError
          else if nr_kind field = ''object'' \<and> \<not> is_py_dict value then Inl ValueError
          else Inr ()))"

section \<open>Drafts\<close>

definition get_int :: "pyobj dict \<Rightarrow> string \<Rightarrow> int res" where
  "get_int requested name = rbind (dget requested name) py_int"

definition actual_values :: "ParameterService \<Rightarrow> pyobj dict \<Rightarrow> pyobj dict res" where
  "actual_values svc requested =
     rbind (get_int requested ''sample_interval_ticks'') (\<lambda>sample_ticks.
     rbind (get_int requested ''burst_period_ticks'') (\<lambda>burst_ticks.
     rbind (get_int requested ''sample_count'') (\<lambda>sample_count.
     rbind (true_div (svc_smclk_hz svc) sample_ticks) (\<lambda>sample_rate.
     rbind (true_div (sample_count * sample_ticks * 1000) (svc_smclk_hz svc)) (\<lambda>record_ms.
     rbind (true_div (svc_smclk_hz svc) burst_ticks) (\<lambda>burst_frequency.
     Inr [(''sample_rate_hz'', OFloat sample_rate), (''record_ms'', OFloat record_ms),
          (''burst_frequency_hz'', OFloat burst_frequency), (''smclk_hz'', OInt (svc_smclk_hz svc))]))))))"

definition draft_snapshot :: "ParameterService \<Rightarrow> pyobj dict \<Rightarrow> ConfigurationSnapshot res" where
  "draft_snapshot svc requested =
     rbind (actual_values svc requested) (\<lambda>actual.
     Inr \<lparr>cs_state = DRAFT, cs_requested = requested, cs_actual = actual, cs_readback = []\<rparr>)"

definition nonregister_default :: "string \<times> nonregister \<Rightarrow> pyobj dict \<Rightarrow> pyobj dict" where
  "nonregister_default = (\<lambda>(name, field) requested.
     if nr_kind field = ''constant'' then AList.update name (nr_value field) requested
     else case nr_default field of
         Some v \<Rightarrow> AList.update name v requested
       | None \<Rightarrow> requested)"

definition new_draft :: "ParameterService \<Rightarrow> ConfigurationSnapshot res" where
  "new_draft svc =
     draft_snapshot svc
       (fold nonregister_default (ps_nonregister_fields (svc_schema svc))
          (map (\<lambda>(name, field). (name, rf_default field)) (ps_register_fields (svc_schema svc))))"

fun put_changes :: "ParameterService \<Rightarrow> pyobj dict \<Rightarrow> pyobj dict \<Rightarrow> pyobj dict res" where
  "put_changes svc [] requested = Inr requested"
| "put_changes svc ((name, value) # changes) requested =
     rbind (validate_datasheet_value svc name value) (\<lambda>_.
     put_changes svc changes (AList.update name value requested))"

text \<open>\<open>round(float(record_ms) * smclk / (count * 1000))\<close>, rounded at every operation.\<close>

fun record_ticks :: "pyobj \<Rightarrow> int \<Rightarrow> int \<Rightarrow> int res" where
  "record_ticks (OFloat x) smclk denominator =
     (if denominator = 0 then Inl ZeroDivisionError
      else Inr (round_half_even (fl (fl (x * fl (of_int smclk)) / fl (of_int denominator)))))"
| "record_ticks (OInf _) smclk denominator =
     (if denominator = 0 then Inl ZeroDivisionError else Inl OverflowError)"
| "record_ticks _ smclk denominator =
     (if denominator = 0 then Inl ZeroDivisionError else Inl ValueError)"

definition quantise_sampling :: "ParameterService \<Rightarrow> string set \<Rightarrow> pyobj dict \<Rightarrow> pyobj dict res" where
  "quantise_sampling svc changed requested =
     rbind (if ''requested_sample_rate_hz'' \<in> changed then
              rbind (get_int requested ''requested_sample_rate_hz'') (\<lambda>rate.
              rbind (true_div (svc_smclk_hz svc) rate) (\<lambda>q.
              Inr (AList.update ''sample_interval_ticks'' (OInt (round_half_even q)) requested)))
            else if ''requested_record_ms'' \<in> changed then
              rbind (dget requested ''requested_record_ms'') (\<lambda>record_ms.
              rbind (py_float record_ms) (\<lambda>record_ms.
              rbind (get_int requested ''sample_count'') (\<lambda>count.
              rbind (record_ticks record_ms (svc_smclk_hz svc) (count * 1000)) (\<lambda>ticks.
              Inr (AList.update ''sample_interval_ticks'' (OInt ticks) requested)))))
            else Inr requested) (\<lambda>requested.
     if {''requested_sample_rate_hz'', ''requested_record_ms'', ''sample_interval_ticks''} \<inter> changed = {}
     then Inr requested
     else
       rbind (get_int requested ''sample_interval_ticks'') (\<lambda>ticks.
       rbind (validate_datasheet_value svc ''sample_interval_ticks'' (OInt ticks)) (\<lambda>_.
       rbind (if ''requested_sample_rate_hz'' \<in> changed then Inr requested
              else rbind (true_div (svc_smclk_hz svc) ticks) (\<lambda>q.
                Inr (AList.update ''requested_sample_rate_hz'' (OInt (round_half_even q)) requested)))
         (\<lambda>requested.
       if ''requested_record_ms'' \<in> changed then Inr requested
       else
         rbind (get_int requested ''sample_count'') (\<lambda>count.
         rbind (true_div (count * ticks * 1000) (svc_smclk_hz svc)) (\<lambda>q.
         Inr (AList.update ''requested_record_ms'' (OFloat q) requested)))))))"

definition quantise_burst :: "ParameterService \<Rightarrow> string set \<Rightarrow> pyobj dict \<Rightarrow> pyobj dict res" where
  "quantise_burst svc changed requested =
     rbind (if ''requested_burst_frequency_hz'' \<in> changed then
              rbind (get_int requested ''requested_burst_frequency_hz'') (\<lambda>frequency.
              rbind (true_div (svc_smclk_hz svc) frequency) (\<lambda>q.
              Inr (AList.update ''burst_period_ticks'' (OInt (round_half_even q)) requested)))
            else Inr requested) (\<lambda>requested.
     if {''requested_burst_frequency_hz'', ''burst_period_ticks''} \<inter> changed = {} then Inr requested
     else
       rbind (get_int requested ''burst_period_ticks'') (\<lambda>ticks.
       rbind (validate_datasheet_value svc ''burst_period_ticks'' (OInt ticks)) (\<lambda>_.
       if ''requested_burst_frequency_hz'' \<in> changed then Inr requested
       else rbind (true_div (svc_smclk_hz svc) ticks) (\<lambda>q.
         Inr (AList.update ''requested_burst_frequency_hz'' (OInt (round_half_even q)) requested)))))"

definition update_draft ::
  "ParameterService \<Rightarrow> ConfigurationSnapshot \<Rightarrow> pyobj dict \<Rightarrow> ConfigurationSnapshot res" where
  "update_draft svc snapshot changes =
     (let changed = fst ` set changes in
      if \<not> changed \<subseteq> fst ` set (ps_register_fields (svc_schema svc))
                      \<union> fst ` set (ps_nonregister_fields (svc_schema svc)) then Inl ValueError
      else if card ({''requested_sample_rate_hz'', ''requested_record_ms'', ''sample_interval_ticks''}
                     \<inter> changed) > 1 then Inl ValueError
      else if card ({''requested_burst_frequency_hz'', ''burst_period_ticks''} \<inter> changed) > 1
      then Inl ValueError
      else
        rbind (put_changes svc changes (cs_requested snapshot)) (\<lambda>requested.
        rbind (quantise_sampling svc changed requested) (\<lambda>requested.
        rbind (quantise_burst svc changed requested) (\<lambda>requested.
        draft_snapshot svc requested))))"

section \<open>Compilation\<close>

fun compile_registers ::
  "ParameterSchema \<Rightarrow> pyobj dict \<Rightarrow> RegisterField dict \<Rightarrow> (int \<times> int) list \<Rightarrow> (int \<times> int) list res" where
  "compile_registers schema requested [] registers = Inr registers"
| "compile_registers schema requested ((name, field) # fds) registers =
     rbind (dget requested name) (\<lambda>value.
     rbind (dget registers (rf_address field)) (\<lambda>register_value.
     rbind (encode_field schema name value register_value) (\<lambda>r.
     compile_registers schema requested fds (AList.update (rf_address field) r registers))))"

definition compile_config :: "ParameterService \<Rightarrow> pyobj dict \<Rightarrow> AcquisitionConfigV2 res" where
  "compile_config svc requested =
     rbind (compile_registers (svc_schema svc) requested (ps_register_fields (svc_schema svc))
              (map (\<lambda>(address, _). (address, 0)) (ps_register_write_masks (svc_schema svc)))) (\<lambda>registers.
     rbind (dget requested ''out3_enabled'') (\<lambda>out3.
     rbind (dget requested ''out4_enabled'') (\<lambda>out4.
     rbind (get_int requested ''sample_interval_ticks'') (\<lambda>interval.
     rbind (get_int requested ''sample_count'') (\<lambda>count.
     rbind (get_int requested ''pretrigger_count'') (\<lambda>pretrigger.
     rbind (get_int requested ''burst_period_ticks'') (\<lambda>burst.
     create interval count pretrigger 12
       ((if py_truth out3 then 1 else 0) OR push_bit 1 (if py_truth out4 then 1 else 0))
       3300 burst registers 2)))))))"

section \<open>Safety review\<close>

definition safety_checks :: "(string \<times> (pyobj \<Rightarrow> bool) \<times> ValidationCode \<times> string) list" where
  "safety_checks =
     [(''BURST_PULSE'', \<lambda>v. py_eq v (OInt 0), UNSAFE_CONFIG, ''continuous Burst is prohibited''),
      (''PRE_DRIVER_MODE'', \<lambda>v. v = OBool True, UNSUPPORTED_HARDWARE_PROFILE,
         ''pre-driver requires an external-driver hardware profile''),
      (''VOUT_SCALE_SEL'', \<lambda>v. py_eq v (OStr ''5.0_v''), UNSAFE_CONFIG,
         ''5 V VOUT exceeds the 3.3 V ADC path''),
      (''VDRV_CURRENT_LEVEL'', \<lambda>v. py_eq v (OStr ''20_ma''), UNSAFE_CONFIG,
         ''20 mA VDRV is not approved for this profile''),
      (''VDRV_VOLTAGE_LEVEL'', \<lambda>v. \<not> py_eq v (OInt 0), UNSAFE_CONFIG,
         ''only internal 5 V VDRV is approved''),
      (''VDRV_HI_Z'', \<lambda>v. v = OBool True, UNSAFE_CONFIG,
         ''stable APPLIED configuration must leave VDRV enabled''),
      (''CMD_TRIGGER'', \<lambda>v. v = OBool True, UNSAFE_CONFIG, ''CMD_TRIGGER is state-machine controlled''),
      (''STDBY_MODE_EN'', \<lambda>v. v = OBool True, UNSAFE_CONFIG,
         ''standby is a state transition, not a stable profile bit''),
      (''SLEEP_MODE_EN'', \<lambda>v. v = OBool True, UNSAFE_CONFIG,
         ''sleep is a state transition, not a stable profile bit'')]"

fun run_checks ::
  "(string \<times> (pyobj \<Rightarrow> bool) \<times> ValidationCode \<times> string) list \<Rightarrow> pyobj dict \<Rightarrow> FieldValidationError list res"
where
  "run_checks [] requested = Inr []"
| "run_checks ((name, failed, code, message) # checks) requested =
     rbind (dget requested name) (\<lambda>v.
     rbind (run_checks checks requested) (\<lambda>errors.
     Inr (if failed v then \<lparr>fe_field = name, fe_code = code, fe_message = message\<rparr> # errors else errors)))"

definition safety_errors :: "pyobj dict \<Rightarrow> FieldValidationError list res" where
  "safety_errors requested = run_checks safety_checks requested"

definition pairs_object :: "(int \<times> int) list \<Rightarrow> pyobj" where
  "pairs_object pairs = OList (map (\<lambda>(a, v). OList [OInt a, OInt v]) pairs)"

definition validate_snapshot :: "ParameterService \<Rightarrow> ConfigurationSnapshot \<Rightarrow> ValidationResult res" where
  "validate_snapshot svc snapshot =
     rbind (safety_errors (cs_requested snapshot)) (\<lambda>errors.
     if errors \<noteq> [] then
       Inr \<lparr>vr_snapshot = snapshot\<lparr>cs_state := DRAFT\<rparr>, vr_errors = errors, vr_compiled = None\<rparr>
     else
       rbind (compile_config svc (cs_requested snapshot)) (\<lambda>compiled.
       rbind (validate_boostxl_direct_applied_config compiled) (\<lambda>_.
       rbind (actual_values svc (cs_requested snapshot)) (\<lambda>actual.
       Inr \<lparr>vr_snapshot = snapshot\<lparr>cs_state := VALIDATED,
              cs_actual := actual @ [(''register_pairs'', pairs_object (register_pairs compiled)),
                 (''profile_sha256'', OStr (py_hex (profile_sha256 compiled))),
                 (''device_config_crc32'', OInt (device_config_crc32 compiled))],
              cs_readback := []\<rparr>,
            vr_errors = [], vr_compiled = Some compiled\<rparr>))))"

section \<open>Applying\<close>

fun decode_fields ::
  "ParameterSchema \<Rightarrow> (int \<rightharpoonup> int) \<Rightarrow> RegisterField dict \<Rightarrow> pyobj dict res" where
  "decode_fields schema register_values [] = Inr []"
| "decode_fields schema register_values ((name, field) # fds) =
     rbind (lookup_reg register_values (rf_address field)) (\<lambda>r.
     rbind (decode_field schema name r) (\<lambda>v.
     rbind (decode_fields schema register_values fds) (\<lambda>rest. Inr ((name, v) # rest))))"

definition timing_fields :: "ParameterService \<Rightarrow> AcquisitionConfigV2 \<Rightarrow> pyobj dict res" where
  "timing_fields svc config =
     rbind (true_div (svc_smclk_hz svc) (burst_period_ticks config)) (\<lambda>frequency.
     rbind (true_div (svc_smclk_hz svc) (sample_interval_ticks config)) (\<lambda>rate.
     rbind (true_div (sample_count config * sample_interval_ticks config * 1000) (svc_smclk_hz svc))
       (\<lambda>record_ms.
     Inr [(''requested_burst_frequency_hz'', OInt (round_half_even frequency)),
          (''burst_period_ticks'', OInt (burst_period_ticks config)),
          (''requested_sample_rate_hz'', OInt (round_half_even rate)),
          (''requested_record_ms'', OFloat record_ms),
          (''sample_interval_ticks'', OInt (sample_interval_ticks config)),
          (''sample_count'', OInt (sample_count config)),
          (''pretrigger_count'', OInt (pretrigger_count config)),
          (''out3_enabled'', OBool (aux_flags config AND 0x01 \<noteq> 0)),
          (''out4_enabled'', OBool (aux_flags config AND 0x02 \<noteq> 0))])))"

definition host_only_fields :: "string list" where
  "host_only_fields = [''loops'', ''start_delay_ms'', ''loop_delay_ms'', ''sweep'', ''trigger_source'',
     ''sync_timeout_ms'']"

definition mark_applied ::
  "ParameterService \<Rightarrow> ConfigurationSnapshot \<Rightarrow> AcquisitionConfigV2 \<Rightarrow> ConfigurationSnapshot res" where
  "mark_applied svc snapshot config_readback =
     (if cs_state snapshot \<noteq> VALIDATED then Inl ValueError
      else
        rbind (compile_config svc (cs_requested snapshot)) (\<lambda>compiled.
        if config_readback \<noteq> compiled then Inl ValueError
        else
          rbind (decode_fields (svc_schema svc) (dict_of (register_pairs config_readback))
                   (ps_register_fields (svc_schema svc))) (\<lambda>semantic_fields.
          rbind (timing_fields svc config_readback) (\<lambda>timing.
          let semantic_fields = fold (\<lambda>(k, v). AList.update k v) timing semantic_fields in
          Inr (snapshot\<lparr>cs_state := APPLIED,
             cs_readback := [(''register_pairs'', pairs_object (register_pairs config_readback)),
               (''sample_interval_ticks'', OInt (sample_interval_ticks config_readback)),
               (''burst_period_ticks'', OInt (burst_period_ticks config_readback)),
               (''fields'', ODict semantic_fields),
               (''host_only_fields'', OList (map OStr host_only_fields))]\<rparr>)))))"


section \<open>What compilation and read-back guarantee\<close>

lemma compile_registers_keys:
  assumes "compile_registers schema requested fds regs = Inr final"
  shows "map fst final = map fst regs"
  using assms
proof (induction schema requested fds regs rule: compile_registers.induct)
  case (2 schema requested name field fds regs)
  then obtain v r r' where "map_of regs (rf_address field) = Some r"
    "compile_registers schema requested fds (AList.update (rf_address field) r' regs) = Inr final"
    "map fst final = map fst (AList.update (rf_address field) r' regs)"
    by (auto simp del: dget_update)
  then show ?case using map_of_SomeD by (force simp: update_keys)
qed simp

text \<open>A register field that is not compiled any more keeps reading the same.\<close>

lemma compile_registers_frame:
  assumes "schema_ok schema" and "compile_registers schema requested fds regs = Inr final"
    and "\<forall>(n, f) \<in> set fds. map_of (ps_register_fields schema) n = Some f"
    and "name \<notin> fst ` set fds" and "map_of (ps_register_fields schema) name = Some g"
    and "map_of regs (rf_address g) = Some r"
  shows "\<exists>r'. map_of final (rf_address g) = Some r' \<and> decode_field schema name r' = decode_field schema name r"
  using assms
proof (induction schema requested fds regs arbitrary: r rule: compile_registers.induct)
  case (2 schema requested n f fds regs)
  obtain v r0 r1 where s: "map_of requested n = Some v" "map_of regs (rf_address f) = Some r0"
    "encode_field schema n v r0 = Inr r1"
    "compile_registers schema requested fds (AList.update (rf_address f) r1 regs) = Inr final"
    using "2.prems"(2) by auto
  have f: "map_of (ps_register_fields schema) n = Some f" and n: "name \<noteq> n" using "2.prems"(3,4) by auto
  define r' where "r' = (if rf_address g = rf_address f then r1 else r)"
  have m: "map_of (AList.update (rf_address f) r1 regs) (rf_address g) = Some r'"
    using "2.prems"(6) by (simp add: update_conv r'_def)
  have "decode_field schema name r' = decode_field schema name r"
    using decode_encode_other_field [OF "2.prems"(1) s(3) n f "2.prems"(5)] s(2) "2.prems"(6)
    by (auto simp: r'_def)
  with "2.IH" [OF _ _ _ "2.prems"(1) s(4) _ _ "2.prems"(5) m] "2.prems"(3,4) s(1-3) show ?case
    by simp
qed simp

lemma compile_registers_decodes:
  assumes "schema_ok schema" and "compile_registers schema requested fds regs = Inr final"
    and "\<forall>(n, f) \<in> set fds. map_of (ps_register_fields schema) n = Some f"
    and "distinct (map fst fds)" and "(name, g) \<in> set fds"
  shows "\<exists>v r v'. map_of requested name = Some v \<and> map_of final (rf_address g) = Some r \<and>
    decode_field schema name r = Inr v' \<and> py_eq v' v"
  using assms
proof (induction schema requested fds regs rule: compile_registers.induct)
  case (2 schema requested n f fds regs)
  obtain v r0 r1 where s: "map_of requested n = Some v" "map_of regs (rf_address f) = Some r0"
    "encode_field schema n v r0 = Inr r1"
    "compile_registers schema requested fds (AList.update (rf_address f) r1 regs) = Inr final"
    using "2.prems"(2) by auto
  show ?case
  proof (cases "(name, g) = (n, f)")
    case True
    obtain v' where v': "decode_field schema name r1 = Inr v'" "py_eq v' v"
      using decode_encode_field [OF "2.prems"(1) s(3)] True by auto
    have "\<exists>r'. map_of final (rf_address g) = Some r' \<and> decode_field schema name r' = decode_field schema name r1"
      using True "2.prems"(3,4)
      by (intro compile_registers_frame [OF "2.prems"(1) s(4)]) (auto simp: update_conv)
    then show ?thesis using v' s(1) True by auto
  next
    case False
    then show ?thesis
      using "2.IH" [OF _ _ _ "2.prems"(1) s(4)] "2.prems"(3-5) s(1-3) by auto
  qed
qed simp

lemma decode_fields_ok:
  assumes "\<forall>(n, f) \<in> set fds. \<exists>r. regs (rf_address f) = Some r \<and> is_ok (decode_field schema n r)"
  shows "\<exists>out. decode_fields schema regs fds = Inr out \<and> map fst out = map fst fds \<and>
    (\<forall>(n, v) \<in> set out. \<exists>f r. (n, f) \<in> set fds \<and> regs (rf_address f) = Some r \<and> decode_field schema n r = Inr v)"
  using assms
proof (induction fds)
  case (Cons nf fds)
  obtain n f where nf: "nf = (n, f)" by (cases nf)
  obtain r v where "regs (rf_address f) = Some r" "decode_field schema n r = Inr v"
    using Cons.prems by (auto simp: nf is_ok_def)
  moreover obtain out where "decode_fields schema regs fds = Inr out" "map fst out = map fst fds"
    "\<forall>(n, v) \<in> set out. \<exists>f r. (n, f) \<in> set fds \<and> regs (rf_address f) = Some r \<and> decode_field schema n r = Inr v"
    using Cons by auto
  ultimately show ?case by (fastforce simp: nf lookup_reg_def)
qed simp

lemma compile_config_sound:
  assumes "compile_config svc requested = Inr c"
  shows "compile_registers (svc_schema svc) requested (ps_register_fields (svc_schema svc))
       (map (\<lambda>(address, _). (address, 0)) (ps_register_write_masks (svc_schema svc))) = Inr (register_pairs c)"
    "values_ok c" "config_ok c"
proof -
  obtain regs aux i n p b where "compile_registers (svc_schema svc) requested (ps_register_fields (svc_schema svc))
       (map (\<lambda>(address, _). (address, 0)) (ps_register_write_masks (svc_schema svc))) = Inr regs"
    and c: "create i n p 12 aux 3300 b regs 2 = Inr c"
    using assms by (auto simp: compile_config_def)
  moreover from c have v: "values_ok (unhashed_of i n p 12 aux 3300 b regs 2)"
    "c = with_digests (unhashed_of i n p 12 aux 3300 b regs 2)"
    by (auto simp: create_eq Let_def split: if_splits)
  ultimately show "compile_registers (svc_schema svc) requested (ps_register_fields (svc_schema svc))
       (map (\<lambda>(address, _). (address, 0)) (ps_register_write_masks (svc_schema svc))) = Inr (register_pairs c)"
    by (simp add: with_digests_def unhashed_of_def)
  show "config_ok c" unfolding v(2) by (rule config_ok_with_digests [OF v(1)])
  then show "values_ok c" by (simp add: config_ok_def)
qed

lemma values_ok_dict_of: "values_ok c \<Longrightarrow> dict_of (register_pairs c) = map_of (register_pairs c)"
  unfolding dict_of_def values_ok_def pairs_ok_def
  by (intro map_of_inject_set [THEN iffD2]) (auto simp: strict_sorted_iff rev_map [symmetric])

definition timing_names :: "string set" where
  "timing_names = {''requested_burst_frequency_hz'', ''burst_period_ticks'', ''requested_sample_rate_hz'',
     ''requested_record_ms'', ''sample_interval_ticks'', ''sample_count'', ''pretrigger_count'',
     ''out3_enabled'', ''out4_enabled''}"

lemma timing_fields_ok:
  assumes "values_ok c" and "0 < svc_smclk_hz svc"
  shows "\<exists>t. timing_fields svc c = Inr t \<and> fst ` set t = timing_names"
  using assms by (auto simp: timing_fields_def true_div_def values_ok_def timing_names_def)

lemma map_of_fold_update_other:
  "n \<notin> fst ` set t \<Longrightarrow> map_of (fold (\<lambda>(k, v). AList.update k v) t d) n = map_of d n"
  by (induction t arbitrary: d) (auto simp: update_conv)

lemma validate_snapshot_compiled:
  assumes "validate_snapshot svc snap = Inr r" and "vr_compiled r = Some c"
  shows "vr_errors r = []" "cs_state (vr_snapshot r) = VALIDATED"
    "cs_requested (vr_snapshot r) = cs_requested snap"
    "compile_config svc (cs_requested snap) = Inr c" "boostxl_safe c" "safety_errors (cs_requested snap) = Inr []"
  using assms by (auto simp: validate_snapshot_def validate_boostxl_eq split: if_splits)

text \<open>The semantic fields that a successful application reports.\<close>

definition readback_fields :: "ConfigurationSnapshot \<Rightarrow> pyobj dict" where
  "readback_fields snap =
     (case map_of (cs_readback snap) ''fields'' of Some (ODict fds) \<Rightarrow> fds | _ \<Rightarrow> [])"

lemma mark_applied_ok:
  assumes "schema_ok (svc_schema svc)" and "0 < svc_smclk_hz svc"
    and "fst ` set (ps_register_fields (svc_schema svc)) \<inter> timing_names = {}"
    and "cs_state snap = VALIDATED" and "compile_config svc (cs_requested snap) = Inr c"
  shows "\<exists>a. mark_applied svc snap c = Inr a \<and> cs_state a = APPLIED \<and>
    cs_requested a = cs_requested snap \<and>
    (\<forall>name \<in> fst ` set (ps_register_fields (svc_schema svc)).
       \<exists>v v'. map_of (cs_requested snap) name = Some v \<and>
         map_of (readback_fields a) name = Some v' \<and> py_eq v' v)"
proof -
  let ?fds = "ps_register_fields (svc_schema svc)" and ?regs = "dict_of (register_pairs c)"
  have d: "distinct (map fst ?fds)" using assms(1) by (simp add: schema_ok_def)
  have own: "\<forall>(n, f) \<in> set ?fds. map_of ?fds n = Some f" using d by auto
  note c = compile_config_sound [OF assms(5)]
  have dec: "\<exists>v r v'. map_of (cs_requested snap) n = Some v \<and> ?regs (rf_address f) = Some r \<and>
      decode_field (svc_schema svc) n r = Inr v' \<and> py_eq v' v" if "(n, f) \<in> set ?fds" for n f
    using compile_registers_decodes [OF assms(1) c(1) own d that] values_ok_dict_of [OF c(2)] by simp
  obtain out where out: "decode_fields (svc_schema svc) ?regs ?fds = Inr out" "map fst out = map fst ?fds"
    "\<And>n v. (n, v) \<in> set out \<Longrightarrow>
       \<exists>f r. (n, f) \<in> set ?fds \<and> ?regs (rf_address f) = Some r \<and> decode_field (svc_schema svc) n r = Inr v"
    using decode_fields_ok [of ?fds ?regs "svc_schema svc"] dec by (fastforce simp: is_ok_def)
  obtain t where t: "timing_fields svc c = Inr t" "fst ` set t = timing_names"
    using timing_fields_ok [OF c(2) assms(2)] by blast
  let ?sem = "fold (\<lambda>(k, v). AList.update k v) t out"
  obtain a where a: "mark_applied svc snap c = Inr a" "cs_state a = APPLIED" "cs_requested a = cs_requested snap"
    "readback_fields a = ?sem"
    using assms(4,5) out(1) t(1) by (auto simp: mark_applied_def Let_def readback_fields_def)
  have "\<exists>v v'. map_of (cs_requested snap) name = Some v \<and> map_of ?sem name = Some v' \<and> py_eq v' v"
    if n: "name \<in> fst ` set ?fds" for name
  proof -
    have "name \<notin> fst ` set t" using n t(2) assms(3) by auto
    then have m: "map_of ?sem name = map_of out name" by (rule map_of_fold_update_other)
    have "name \<in> fst ` set out" using n arg_cong [OF out(2), of set] by auto
    then obtain v' where v': "map_of out name = Some v'" by (metis map_of_eq_None_iff not_None_eq)
    obtain f r where f: "(name, f) \<in> set ?fds" "?regs (rf_address f) = Some r"
      "decode_field (svc_schema svc) name r = Inr v'"
      using out(3) [OF map_of_SomeD [OF v']] by blast
    then show ?thesis using dec [OF f(1)] m v' by auto
  qed
  then show ?thesis using a by (intro exI [of _ a]) auto
qed

text \<open>C16 (refinement). The DRAFT, VALIDATED, APPLIED life cycle keeps its promises. A snapshot that validates without
  errors compiles to a configuration that encodes and that the hardware safety policy accepts; when
  the device reads exactly this configuration back, \<open>mark_applied\<close> cannot fail, and the semantic
  fields decoded from the read-back registers equal, field by field, the values the user requested.
  A snapshot with errors stays a draft and compiles to nothing.\<close>

theorem validated_then_applied:
  assumes "schema_ok (svc_schema svc)" and "0 < svc_smclk_hz svc"
    and "fst ` set (ps_register_fields (svc_schema svc)) \<inter> timing_names = {}"
    and "validate_snapshot svc snap = Inr r"
  shows "case vr_compiled r of
      None \<Rightarrow> vr_errors r \<noteq> [] \<and> cs_state (vr_snapshot r) = DRAFT
    | Some c \<Rightarrow> vr_errors r = [] \<and> is_ok (encode_config_v2 c) \<and>
        validate_boostxl_direct_applied_config c = Inr () \<and>
        (\<exists>a. mark_applied svc (vr_snapshot r) c = Inr a \<and> cs_state (vr_snapshot r) < cs_state a \<and>
           cs_requested a = cs_requested snap \<and>
           (\<forall>name \<in> fst ` set (ps_register_fields (svc_schema svc)).
              \<exists>v v'. map_of (cs_requested snap) name = Some v \<and>
                map_of (readback_fields a) name = Some v' \<and> py_eq v' v))"
proof (cases "vr_compiled r")
  case None
  then show ?thesis using assms(4) by (auto simp: validate_snapshot_def split: if_splits)
next
  case (Some c)
  note v = validate_snapshot_compiled [OF assms(4) Some]
  have "is_ok (encode_config_v2 c)"
    using compile_config_sound(3) [OF v(4)] by (simp add: encode_config_v2_eq)
  moreover have "validate_boostxl_direct_applied_config c = Inr ()"
    using v(5) by (simp add: validate_boostxl_eq)
  moreover have "compile_config svc (cs_requested (vr_snapshot r)) = Inr c" using v(3,4) by simp
  note mark_applied_ok [OF assms(1-3) v(2) this]
  moreover have "VALIDATED < APPLIED" by (simp add: less_ConfigState_def)
  ultimately show ?thesis using Some v(1,2,3) by auto
qed

section \<open>The default draft of the shipped registry\<close>

definition demo_service :: ParameterService where
  "demo_service = \<lparr>svc_schema = registry, svc_smclk_hz = 24000000\<rparr>"

definition default_requested :: "ParameterSchema \<Rightarrow> pyobj dict" where
  "default_requested schema = fold nonregister_default (ps_nonregister_fields schema)
     (map (\<lambda>(name, field). (name, rf_default field)) (ps_register_fields schema))"

lemma default_timing:
  "rbind (load_schema registry_document) (\<lambda>s.
     Inr (map (map_of (default_requested s)) [''out3_enabled'', ''out4_enabled'',
       ''sample_interval_ticks'', ''sample_count'', ''pretrigger_count'', ''burst_period_ticks''])) =
   Inr [Some (OBool False), Some (OBool False), Some (OInt 120), Some (OInt 2048), Some (OInt 64), Some (OInt 50)]"
  by code_simp

lemma default_safety:
  "rbind (load_schema registry_document) (\<lambda>s. safety_errors (default_requested s)) = Inr []"
  by code_simp

definition default_registers :: "(int \<times> int) list" where
  "default_registers =
     [(16, 46), (17, 0), (18, 0), (19, 0), (20, 3), (22, 64), (23, 7), (24, 20), (26, 1), (27, 2)]"

lemma default_compiles:
  "rbind (load_schema registry_document) (\<lambda>s.
     compile_registers s (default_requested s) (ps_register_fields s)
      (map (\<lambda>(address, _). (address, 0)) (ps_register_write_masks s))) = Inr default_registers"
  by code_simp

lemma default_draft_validates:
  "\<exists>d r c. new_draft demo_service = Inr d \<and> validate_snapshot demo_service d = Inr r \<and> vr_compiled r = Some c"
proof -
  let ?q = "default_requested registry"
  let ?u = "unhashed_of 120 2048 64 12 0 3300 50 default_registers 2"
  have q: "map_of ?q ''out3_enabled'' = Some (OBool False)" "map_of ?q ''out4_enabled'' = Some (OBool False)"
    "map_of ?q ''sample_interval_ticks'' = Some (OInt 120)" "map_of ?q ''sample_count'' = Some (OInt 2048)"
    "map_of ?q ''pretrigger_count'' = Some (OInt 64)" "map_of ?q ''burst_period_ticks'' = Some (OInt 50)"
    using default_timing unfolding load_registry by simp_all
  then obtain act where act: "actual_values demo_service ?q = Inr act"
    by (simp add: actual_values_def get_int_def true_div_def demo_service_def dget_def)
  then have d: "new_draft demo_service = Inr \<lparr>cs_state = DRAFT, cs_requested = ?q, cs_actual = act, cs_readback = []\<rparr>"
    by (simp add: new_draft_def draft_snapshot_def demo_service_def default_requested_def)
  have v: "values_ok ?u"
    by (simp add: values_ok_def unhashed_of_def pairs_ok_def reg_ok_def default_registers_def)
  have comp: "compile_config demo_service ?q = Inr (with_digests ?u)"
    using default_compiles q v unfolding load_registry
    by (simp add: compile_config_def demo_service_def get_int_def dget_def create_eq Let_def)
  have safe: "boostxl_safe (with_digests ?u)"
    by (simp add: boostxl_safe_def with_digests_def unhashed_of_def dict_of_def Let_def default_registers_def) auto
  show ?thesis
    using default_safety d act comp safe unfolding load_registry
    by (simp add: validate_snapshot_def validate_boostxl_eq)
qed

lemma registry_names:
  "fst ` set (ps_register_fields registry) \<inter> timing_names = {}"
proof -
  have "rbind (load_schema registry_document) (\<lambda>s. Inr (list_all (\<lambda>(n, _). n \<notin> timing_names) (ps_register_fields s))) = Inr True"
    by code_simp
  then show ?thesis unfolding load_registry by (auto simp: list_all_iff)
qed

theorem validated_then_applied_witness:
  "\<exists>d r c a. new_draft demo_service = Inr d \<and> validate_snapshot demo_service d = Inr r \<and> vr_compiled r = Some c \<and>
     mark_applied demo_service (vr_snapshot r) c = Inr a \<and> cs_state (vr_snapshot r) < cs_state a"
proof -
  obtain d r c where d: "new_draft demo_service = Inr d" "validate_snapshot demo_service d = Inr r"
    "vr_compiled r = Some c"
    using default_draft_validates by blast
  have "schema_ok (svc_schema demo_service)" "0 < svc_smclk_hz demo_service"
    "fst ` set (ps_register_fields (svc_schema demo_service)) \<inter> timing_names = {}"
    using registry_ok registry_names by (simp_all add: demo_service_def)
  from validated_then_applied [OF this d(2)] d show ?thesis by auto
qed

end
