(* ===== verification/Save_Policy.thy ===== *)
theory Save_Policy
  imports Usac_Prelude
begin

text \<open>The two enumerations of \<open>core_store.py\<close> that plans and the store share, with their text values.\<close>

datatype SavePolicy = SAVE_NONE | SAVE_ALL | SAVE_LAST

fun policy_value :: "SavePolicy \<Rightarrow> string" where
  "policy_value SAVE_NONE = ''SAVE_NONE''"
| "policy_value SAVE_ALL = ''SAVE_ALL''"
| "policy_value SAVE_LAST = ''SAVE_LAST''"

text \<open>\<open>SavePolicy(text)\<close>\<close>

definition policy_of :: "string \<Rightarrow> SavePolicy res" where
  "policy_of text =
     (if text = ''SAVE_NONE'' then Inr SAVE_NONE
      else if text = ''SAVE_ALL'' then Inr SAVE_ALL
      else if text = ''SAVE_LAST'' then Inr SAVE_LAST
      else Inl ValueError)"

lemma policy_of_value [simp]: "policy_of (policy_value p) = Inr p"
  by (cases p) (simp_all add: policy_of_def)

datatype CaptureResolution = RAW_ARCHIVED | ROLLING_LATEST | DISCARDED_BY_POLICY

end
