(* ===== verification/Run_Plan.thy ===== *)
theory Run_Plan
  imports Parameter_Service Save_Policy
begin

text \<open>
  Finite run plans (\<open>run_plan.py\<close>): validation, the expansion of a sweep into configuration
  targets, and the lazy step sequence, which is indexed and iterated without being stored.
\<close>

section \<open>Plans\<close>

record SweepPlan =
  sw_field :: string
  sw_values :: "pyobj list"

record RunPlanV1 =
  rp_loops :: pyobj
  rp_start_delay_ms :: pyobj
  rp_loop_delay_ms :: pyobj
  rp_sweep :: "SweepPlan option"
  rp_trigger_source :: string
  rp_sync_timeout_ms :: int
  rp_save_policy :: SavePolicy

definition sweep_to_dict :: "SweepPlan \<Rightarrow> pyobj dict" where
  "sweep_to_dict sweep = [(''field'', OStr (sw_field sweep)), (''values'', OList (sw_values sweep))]"

definition plan_to_dict :: "RunPlanV1 \<Rightarrow> pyobj dict" where
  "plan_to_dict plan =
     [(''loops'', rp_loops plan), (''start_delay_ms'', rp_start_delay_ms plan),
      (''loop_delay_ms'', rp_loop_delay_ms plan), (''trigger_source'', OStr (rp_trigger_source plan)),
      (''sync_timeout_ms'', OInt (rp_sync_timeout_ms plan)),
      (''save_policy'', OStr (policy_value (rp_save_policy plan))),
      (''sweep'', case rp_sweep plan of None \<Rightarrow> ONone | Some sweep \<Rightarrow> ODict (sweep_to_dict sweep))]"

definition bounded_integer :: "pyobj \<Rightarrow> int \<Rightarrow> int res" where
  "bounded_integer value maximum =
     (case value of
        OInt v \<Rightarrow> if 0 \<le> v \<and> v \<le> maximum then Inr v else Inl RunPlanError
      | _ \<Rightarrow> Inl RunPlanError)"

definition trigger_sources :: "string list" where
  "trigger_sources = [''SOFTWARE'', ''EXTERNAL_SYNC_SLAVE'', ''EXTERNAL_SYNC_MASTER'']"

text \<open>The value of \<open>Loops\<close> is returned beside the check; the source reads it from the plan again.\<close>

definition validate_plan :: "RunPlanV1 \<Rightarrow> int res" where
  "validate_plan plan =
     rbind (bounded_integer (rp_loops plan) 0xFFFFFFFF) (\<lambda>loops.
     rbind (bounded_integer (rp_start_delay_ms plan) 3600000) (\<lambda>_.
     rbind (bounded_integer (rp_loop_delay_ms plan) 3600000) (\<lambda>_.
     if loops = 0 then Inl RunPlanError
     else if rp_trigger_source plan \<notin> set trigger_sources then Inl RunPlanError
     else if rp_trigger_source plan = ''EXTERNAL_SYNC_SLAVE'' then
       (if \<not> (1 \<le> rp_sync_timeout_ms plan \<and> rp_sync_timeout_ms plan \<le> 60000) then Inl RunPlanError
        else Inr loops)
     else if rp_sync_timeout_ms plan \<noteq> 0 then Inl RunPlanError
     else Inr loops)))"

section \<open>The lazy step sequence\<close>

record RunTarget =
  tg_sweep_index :: "int option"
  tg_snapshot :: ConfigurationSnapshot
  tg_compiled :: AcquisitionConfigV2

record RunStep =
  st_sweep_index :: "int option"
  st_loop_index :: int
  st_snapshot :: ConfigurationSnapshot
  st_compiled :: AcquisitionConfigV2

record CompiledRunSteps =
  crs_targets :: "RunTarget list"
  crs_loops :: int

definition run_step :: "RunTarget \<Rightarrow> int \<Rightarrow> RunStep" where
  "run_step target loop_index =
     \<lparr>st_sweep_index = tg_sweep_index target, st_loop_index = loop_index,
      st_snapshot = tg_snapshot target, st_compiled = tg_compiled target\<rparr>"

definition steps_len :: "CompiledRunSteps \<Rightarrow> int" where
  "steps_len s = int (length (crs_targets s)) * crs_loops s"

text \<open>After the range check the list index is in range; \<open>divmod\<close> rounds down, like \<open>div\<close>.\<close>

definition steps_getitem :: "CompiledRunSteps \<Rightarrow> int \<Rightarrow> RunStep res" where
  "steps_getitem s index =
     (let len = steps_len s;
          normalized = (if index < 0 then index + len else index)
      in if normalized < 0 \<or> normalized \<ge> len then Inl IndexError
         else Inr (run_step (crs_targets s ! nat (normalized div crs_loops s)) (normalized mod crs_loops s)))"

definition steps_iter :: "CompiledRunSteps \<Rightarrow> RunStep list" where
  "steps_iter s = concat (map (\<lambda>target. map (run_step target) [0..crs_loops s - 1]) (crs_targets s))"

section \<open>Compilation\<close>

definition validated_target ::
  "ParameterService \<Rightarrow> ConfigurationSnapshot \<Rightarrow> (ConfigurationSnapshot \<times> AcquisitionConfigV2) res" where
  "validated_target svc snapshot =
     rbind (validate_snapshot svc snapshot) (\<lambda>result.
     if vr_errors result \<noteq> [] then Inl RunPlanError
     else case vr_compiled result of
         None \<Rightarrow> Inl RunPlanError
       | Some compiled \<Rightarrow> Inr (vr_snapshot result, compiled))"

definition wrap_value_error :: "'a res \<Rightarrow> 'a res" where
  "wrap_value_error m = (case m of Inl e \<Rightarrow> Inl (if is_ValueError e then RunPlanError else e) | Inr x \<Rightarrow> Inr x)"

fun sweep_targets ::
  "ParameterService \<Rightarrow> ConfigurationSnapshot \<Rightarrow> string \<Rightarrow> int \<Rightarrow> pyobj list \<Rightarrow> RunTarget list res" where
  "sweep_targets svc baseline field index [] = Inr []"
| "sweep_targets svc baseline field index (value # values) =
     rbind (wrap_value_error (update_draft svc baseline [(field, value)])) (\<lambda>draft.
     rbind (validated_target svc draft) (\<lambda>(snapshot, compiled).
     rbind (sweep_targets svc baseline field (index + 1) values) (\<lambda>rest.
     Inr (\<lparr>tg_sweep_index = Some index, tg_snapshot = snapshot, tg_compiled = compiled\<rparr> # rest))))"

definition field_sweepable :: "ParameterSchema \<Rightarrow> string \<Rightarrow> bool res" where
  "field_sweepable schema field =
     (case map_of (ps_register_fields schema) field of
        Some f \<Rightarrow> Inr (rf_sweepable f)
      | None \<Rightarrow>
          (case map_of (ps_nonregister_fields schema) field of
             Some f \<Rightarrow> Inr (nr_sweepable f)
           | None \<Rightarrow> Inl RunPlanError))"

definition compile_run_steps ::
  "ParameterService \<Rightarrow> ConfigurationSnapshot \<Rightarrow> RunPlanV1 \<Rightarrow> CompiledRunSteps res" where
  "compile_run_steps svc baseline plan =
     rbind (validate_plan plan) (\<lambda>loops.
     rbind (case rp_sweep plan of
              None \<Rightarrow>
                rbind (validated_target svc baseline) (\<lambda>(snapshot, compiled).
                Inr [\<lparr>tg_sweep_index = None, tg_snapshot = snapshot, tg_compiled = compiled\<rparr>])
            | Some sweep \<Rightarrow>
                if \<not> (1 \<le> length (sw_values sweep) \<and> length (sw_values sweep) \<le> 256)
                then Inl RunPlanError
                else
                  rbind (field_sweepable (svc_schema svc) (sw_field sweep)) (\<lambda>sweepable.
                  if \<not> sweepable then Inl RunPlanError
                  else sweep_targets svc baseline (sw_field sweep) 0 (sw_values sweep))) (\<lambda>targets.
     Inr \<lparr>crs_targets = targets, crs_loops = loops\<rparr>))"

section \<open>The sequence protocol\<close>

text \<open>
  What Python code may rely on of an object that implements \<open>collections.abc.Sequence\<close>: \<open>len\<close>,
  indexing from either end, \<open>IndexError\<close> outside, and an iteration that agrees with indexing.
\<close>

locale py_sequence =
  fixes len :: "'s \<Rightarrow> int" and getitem :: "'s \<Rightarrow> int \<Rightarrow> 'e res" and iter :: "'s \<Rightarrow> 'e list"
    and valid :: "'s \<Rightarrow> bool"
  assumes len_iter: "valid s \<Longrightarrow> len s = int (length (iter s))"
    and getitem_nth: "valid s \<Longrightarrow> 0 \<le> i \<Longrightarrow> i < len s \<Longrightarrow> getitem s i = Inr (iter s ! nat i)"
    and getitem_neg: "valid s \<Longrightarrow> - len s \<le> i \<Longrightarrow> i < 0 \<Longrightarrow> getitem s i = getitem s (i + len s)"
    and getitem_out: "valid s \<Longrightarrow> i < - len s \<or> len s \<le> i \<Longrightarrow> getitem s i = Inl IndexError"
begin

lemma len_nonneg: "valid s \<Longrightarrow> 0 \<le> len s"
  by (simp add: len_iter)

lemma getitem_total: "valid s \<Longrightarrow> is_ok (getitem s i) \<or> getitem s i = Inl IndexError"
  using getitem_nth [of s i] getitem_neg [of s i] getitem_out [of s i] getitem_nth [of s "i + len s"]
  by (cases "0 \<le> i"; cases "i < len s"; cases "- len s \<le> i") auto

lemma iter_by_index: "valid s \<Longrightarrow> map (getitem s) [0..len s - 1] = map Inr (iter s)"
proof (rule nth_equalityI)
  assume v: "valid s"
  then show "length (map (getitem s) [0..len s - 1]) = length (map Inr (iter s) :: 'e res list)"
    by (simp add: len_iter)
  fix i assume "i < length (map (getitem s) [0..len s - 1])"
  then have "i < length (iter s)" using v by (simp add: len_iter)
  then show "map (getitem s) [0..len s - 1] ! i = map Inr (iter s) ! i"
    using v getitem_nth [OF v, of "int i"] by (simp add: len_iter nth_upto)
qed

lemma reversed_by_index: "valid s \<Longrightarrow> map (\<lambda>i. getitem s (- i)) [1..len s] = map Inr (rev (iter s))"
proof (rule nth_equalityI)
  assume v: "valid s"
  then show "length (map (\<lambda>i. getitem s (- i)) [1..len s]) = length (map Inr (rev (iter s)) :: 'e res list)"
    by (simp add: len_iter)
  fix i assume "i < length (map (\<lambda>i. getitem s (- i)) [1..len s])"
  then have i: "i < length (iter s)" using v by (simp add: len_iter)
  have "getitem s (- (1 + int i)) = getitem s (int (length (iter s)) - 1 - int i)"
    using getitem_neg [OF v, of "- (1 + int i)"] i by (simp add: len_iter [OF v] algebra_simps)
  also have "\<dots> = Inr (iter s ! (length (iter s) - Suc i))"
  proof -
    have "nat (int (length (iter s)) - 1 - int i) = length (iter s) - Suc i" using i by arith
    then show ?thesis
      using getitem_nth [OF v, of "int (length (iter s)) - 1 - int i"] i by (simp add: len_iter [OF v])
  qed
  finally show "map (\<lambda>i. getitem s (- i)) [1..len s] ! i = map Inr (rev (iter s)) ! i"
    using v i by (simp add: len_iter nth_upto rev_nth)
qed

end

lemma concat_uniform_nth:
  assumes "\<forall>xs \<in> set xss. length xs = n" "i < length xss * n"
  shows "concat xss ! i = xss ! (i div n) ! (i mod n)"
  using assms
proof (induction xss arbitrary: i)
  case (Cons xs xss)
  show ?case
  proof (cases "i < n")
    case True
    then show ?thesis using Cons.prems by (simp add: nth_append)
  next
    case False
    then have n: "0 < n" using Cons.prems(2) by (cases n) auto
    have "i div n = Suc ((i - n) div n)" "i mod n = (i - n) mod n"
      using False n by (simp_all add: le_div_geq le_mod_geq)
    then show ?thesis using Cons False by (simp add: nth_append)
  qed
qed simp

lemma int_div_less: "0 < l \<Longrightarrow> i < n * l \<Longrightarrow> i div l < (n::int)"
proof (rule ccontr)
  assume l: "0 < l" "i < n * l" "\<not> i div l < n"
  then have "n * l \<le> (i div l) * l" by (simp add: mult_right_mono)
  also have "\<dots> \<le> i" using l(1) by (simp add: minus_mod_eq_div_mult [symmetric])
  finally show False using l(2) by simp
qed

definition steps_valid :: "CompiledRunSteps \<Rightarrow> bool" where
  "steps_valid s \<longleftrightarrow> 1 \<le> crs_loops s"

lemma length_steps_iter: "steps_valid s \<Longrightarrow> steps_len s = int (length (steps_iter s))"
  by (simp add: steps_iter_def steps_len_def steps_valid_def length_concat comp_def sum_list_triv)

lemma steps_iter_nth:
  assumes "steps_valid s" "0 \<le> i" "i < steps_len s"
  shows "steps_iter s ! nat i = run_step (crs_targets s ! nat (i div crs_loops s)) (i mod crs_loops s)"
proof -
  let ?n = "nat (crs_loops s)" and ?xss = "map (\<lambda>t. map (run_step t) [0..crs_loops s - 1]) (crs_targets s)"
  have n: "0 < ?n" "int ?n = crs_loops s" using assms(1) by (auto simp: steps_valid_def)
  have lt: "nat i < length ?xss * ?n"
  proof -
    have "int (nat i) < int (length ?xss * ?n)" using assms n(2) by (simp add: steps_len_def)
    then show ?thesis by (simp only: of_nat_less_iff)
  qed
  have "steps_iter s ! nat i = ?xss ! (nat i div ?n) ! (nat i mod ?n)"
    unfolding steps_iter_def by (rule concat_uniform_nth [OF _ lt]) (auto simp: steps_valid_def)
  moreover have "nat i div ?n < length ?xss" using lt n(1) by (simp add: less_mult_imp_div_less)
  moreover have "nat i mod ?n < ?n" using n(1) by simp
  moreover have "nat i div ?n = nat (i div crs_loops s)" "int (nat i mod ?n) = i mod crs_loops s"
    using assms(2) n by (simp_all add: nat_div_distrib zmod_int)
  ultimately show ?thesis by (simp add: nth_upto)
qed

interpretation run_steps: py_sequence steps_len steps_getitem steps_iter steps_valid
proof
  fix s :: CompiledRunSteps and i :: int
  assume v: "steps_valid s"
  show "steps_len s = int (length (steps_iter s))" by (rule length_steps_iter [OF v])
  show "steps_getitem s i = Inr (steps_iter s ! nat i)" if "0 \<le> i" "i < steps_len s"
    using that steps_iter_nth [OF v that] by (simp add: steps_getitem_def Let_def)
  show "steps_getitem s i = steps_getitem s (i + steps_len s)" if "- steps_len s \<le> i" "i < 0"
    using that by (simp add: steps_getitem_def Let_def)
  show "steps_getitem s i = Inl IndexError" if "i < - steps_len s \<or> steps_len s \<le> i"
    using that length_steps_iter [OF v] by (auto simp: steps_getitem_def Let_def)
qed

text \<open>The lazy step sequence is the list it stands for: for a plan with at least one loop, indexing
  computes, without building it, exactly the element of the eager expansion (targets in order, every
  loop of one target before the next), from the front and from the back, and raises \<open>IndexError\<close>
  exactly outside \<open>-len..len-1\<close>.\<close>

theorem run_steps_index_is_iteration:
  assumes "1 \<le> crs_loops s"
  shows "map (steps_getitem s) [0..steps_len s - 1] = map Inr (steps_iter s) \<and>
    map (\<lambda>i. steps_getitem s (- i)) [1..steps_len s] = map Inr (rev (steps_iter s)) \<and>
    (steps_getitem s i = Inl IndexError \<longleftrightarrow> i < - steps_len s \<or> steps_len s \<le> i)"
proof -
  have v: "steps_valid s" using assms by (simp add: steps_valid_def)
  have "steps_getitem s i = Inl IndexError \<longleftrightarrow> i < - steps_len s \<or> steps_len s \<le> i"
    using run_steps.len_nonneg [OF v] by (auto simp: steps_getitem_def Let_def)
  then show ?thesis using run_steps.iter_by_index [OF v] run_steps.reversed_by_index [OF v] by blast
qed


definition demo_snapshot :: ConfigurationSnapshot where
  "demo_snapshot = \<lparr>cs_state = DRAFT, cs_requested = [], cs_actual = [], cs_readback = []\<rparr>"

definition demo_target :: "int \<Rightarrow> RunTarget" where
  "demo_target i = \<lparr>tg_sweep_index = Some i, tg_snapshot = demo_snapshot,
     tg_compiled = unhashed_of 120 2048 0 12 0 3300 600 D10X4_REGISTER_PAIRS 2\<rparr>"

theorem run_steps_index_is_iteration_witness:
  "map (steps_getitem \<lparr>crs_targets = [demo_target 0, demo_target 1], crs_loops = 3\<rparr>) [0..5] =
   map Inr (steps_iter \<lparr>crs_targets = [demo_target 0, demo_target 1], crs_loops = 3\<rparr>) \<and>
   steps_getitem \<lparr>crs_targets = [demo_target 0, demo_target 1], crs_loops = 3\<rparr> 6 = Inl IndexError"
  using run_steps_index_is_iteration [of "\<lparr>crs_targets = [demo_target 0, demo_target 1], crs_loops = 3\<rparr>" 6]
  by (simp add: steps_len_def)

section \<open>What a compiled plan contains\<close>

lemma quantise_keeps_field:
  assumes "quantise_sampling svc {f} requested = Inr requested'" "map_of requested f = Some v"
  shows "map_of requested' f = Some v"
  using assms by (auto simp: quantise_sampling_def update_conv split: if_splits)

lemma quantise_burst_keeps_field:
  assumes "quantise_burst svc {f} requested = Inr requested'" "map_of requested f = Some v"
  shows "map_of requested' f = Some v"
  using assms by (auto simp: quantise_burst_def update_conv split: if_splits)

lemma update_draft_sets_field:
  assumes "update_draft svc snap [(f, v)] = Inr d"
  shows "map_of (cs_requested d) f = Some v"
proof -
  obtain q1 q2 where "quantise_sampling svc {f} (AList.update f v (cs_requested snap)) = Inr q1"
    "quantise_burst svc {f} q1 = Inr q2" "cs_requested d = q2"
    using assms by (auto simp: update_draft_def Let_def draft_snapshot_def split: if_splits)
  then show ?thesis
    using quantise_keeps_field [of svc f _ q1 v] quantise_burst_keeps_field [of svc f q1 q2 v]
    by (simp add: update_conv)
qed

text \<open>A target that may be sent to the device.\<close>

definition target_ok :: "RunTarget \<Rightarrow> bool" where
  "target_ok t \<longleftrightarrow> cs_state (tg_snapshot t) = VALIDATED \<and> config_ok (tg_compiled t) \<and> boostxl_safe (tg_compiled t)"

lemma validated_target_ok:
  assumes "validated_target svc snap = Inr (snap', c)"
  shows "cs_state snap' = VALIDATED" "config_ok c" "boostxl_safe c" "cs_requested snap' = cs_requested snap"
proof -
  obtain r where r: "validate_snapshot svc snap = Inr r" "vr_compiled r = Some c" "vr_snapshot r = snap'"
    using assms by (auto simp: validated_target_def split: option.splits)
  note v = validate_snapshot_compiled [OF r(1,2)]
  show "cs_state snap' = VALIDATED" "boostxl_safe c" "cs_requested snap' = cs_requested snap"
    using v r(3) by auto
  show "config_ok c" by (rule compile_config_sound(3) [OF v(4)])
qed

lemma wrap_value_error_ok [simp]: "wrap_value_error m = Inr x \<longleftrightarrow> m = Inr x"
  by (simp add: wrap_value_error_def split: sum.splits)

lemma sweep_targets_sound:
  assumes "sweep_targets svc baseline f k vs = Inr ts"
  shows "list_all2 (\<lambda>v t. target_ok t \<and> map_of (cs_requested (tg_snapshot t)) f = Some v) vs ts \<and>
    map tg_sweep_index ts = map (\<lambda>i. Some (k + int i)) [0..<length vs]"
  using assms
proof (induction svc baseline f k vs arbitrary: ts rule: sweep_targets.induct)
  case (2 svc baseline f k v vs)
  then obtain d snap c rest where s: "update_draft svc baseline [(f, v)] = Inr d"
    "validated_target svc d = Inr (snap, c)" "sweep_targets svc baseline f (k + 1) vs = Inr rest"
    "ts = \<lparr>tg_sweep_index = Some k, tg_snapshot = snap, tg_compiled = c\<rparr> # rest"
    by (auto split: prod.splits)
  note ih = "2.IH" [OF _ s(2) refl s(3)]
  have i: "map (\<lambda>i. Some (k + int i)) [0..<length (v # vs)] = Some k # map (\<lambda>i. Some (k + 1 + int i)) [0..<length vs]"
    by (simp add: upt_conv_Cons map_Suc_upt [symmetric] comp_def del: upt_Suc)
  show ?case
    using ih s(1) validated_target_ok [OF s(2)] update_draft_sets_field [OF s(1)]
    unfolding s(4) i by (auto simp: target_ok_def)
qed simp

lemma compile_run_steps_targets:
  assumes "compile_run_steps svc baseline plan = Inr s"
  shows "list_all target_ok (crs_targets s)"
    "validate_plan plan = Inr (crs_loops s)"
    "length (crs_targets s) = (case rp_sweep plan of None \<Rightarrow> 1 | Some w \<Rightarrow> length (sw_values w))"
    "length (crs_targets s) \<le> 256"
    "rp_sweep plan = Some w \<Longrightarrow> i < length (crs_targets s) \<Longrightarrow>
       tg_sweep_index (crs_targets s ! i) = Some (int i) \<and>
       map_of (cs_requested (tg_snapshot (crs_targets s ! i))) (sw_field w) = Some (sw_values w ! i)"
proof -
  have "list_all target_ok (crs_targets s) \<and> validate_plan plan = Inr (crs_loops s) \<and>
    length (crs_targets s) = (case rp_sweep plan of None \<Rightarrow> 1 | Some w \<Rightarrow> length (sw_values w)) \<and>
    length (crs_targets s) \<le> 256 \<and>
    (\<forall>w i. rp_sweep plan = Some w \<longrightarrow> i < length (crs_targets s) \<longrightarrow>
       tg_sweep_index (crs_targets s ! i) = Some (int i) \<and>
       map_of (cs_requested (tg_snapshot (crs_targets s ! i))) (sw_field w) = Some (sw_values w ! i))"
  proof (cases "rp_sweep plan")
    case None
    then show ?thesis
      using assms by (auto simp: compile_run_steps_def target_ok_def dest: validated_target_ok split: prod.splits)
  next
    case (Some w)
    then obtain ts where t: "sweep_targets svc baseline (sw_field w) 0 (sw_values w) = Inr ts"
      "crs_targets s = ts" "validate_plan plan = Inr (crs_loops s)" "length (sw_values w) \<le> 256"
      using assms by (auto simp: compile_run_steps_def split: if_splits)
    note ts = sweep_targets_sound [OF t(1)]
    have len: "length ts = length (sw_values w)" using ts by (auto dest: list_all2_lengthD)
    have "tg_sweep_index (ts ! i) = Some (int i)" if "i < length ts" for i
      using ts that len by (auto dest!: arg_cong [where f = "\<lambda>l. l ! i"])
    moreover have "target_ok (ts ! i) \<and> map_of (cs_requested (tg_snapshot (ts ! i))) (sw_field w) = Some (sw_values w ! i)"
      if "i < length ts" for i
      using ts that len by (auto dest: list_all2_nthD2)
    ultimately show ?thesis using Some t(2-4) len by (auto simp: list_all_length)
  qed
  then show "list_all target_ok (crs_targets s)" "validate_plan plan = Inr (crs_loops s)"
    "length (crs_targets s) = (case rp_sweep plan of None \<Rightarrow> 1 | Some w \<Rightarrow> length (sw_values w))"
    "length (crs_targets s) \<le> 256"
    "rp_sweep plan = Some w \<Longrightarrow> i < length (crs_targets s) \<Longrightarrow>
       tg_sweep_index (crs_targets s ! i) = Some (int i) \<and>
       map_of (cs_requested (tg_snapshot (crs_targets s ! i))) (sw_field w) = Some (sw_values w ! i)"
    by blast+
qed

lemma validate_plan_loops:
  "validate_plan plan = Inr loops \<Longrightarrow> rp_loops plan = OInt loops \<and> 1 \<le> loops \<and> loops \<le> 0xFFFFFFFF"
  by (auto simp: validate_plan_def bounded_integer_def split: pyobj.splits if_splits)

text \<open>C14 (safety). A plan that compiles is finite and every step of it is approved before the first command is sent:
  it retains at most 256 targets, it has loops times as many steps, every step carries a validated
  snapshot and a configuration that encodes and passes the hardware safety policy, and in a sweep
  step \<open>i\<close> belongs to point \<open>i div loops\<close> and requests exactly that point's value of the swept field.\<close>

theorem compiled_plan_is_safe:
  assumes "compile_run_steps svc baseline plan = Inr s"
  shows "rp_loops plan = OInt (crs_loops s) \<and> 1 \<le> crs_loops s \<and> length (crs_targets s) \<le> 256 \<and>
    int (length (steps_iter s)) =
      crs_loops s * (case rp_sweep plan of None \<Rightarrow> 1 | Some w \<Rightarrow> int (length (sw_values w))) \<and>
    (\<forall>step \<in> set (steps_iter s). cs_state (st_snapshot step) = VALIDATED \<and>
       is_ok (encode_config_v2 (st_compiled step)) \<and>
       validate_boostxl_direct_applied_config (st_compiled step) = Inr ()) \<and>
    (\<forall>w i. rp_sweep plan = Some w \<longrightarrow> 0 \<le> i \<longrightarrow> i < steps_len s \<longrightarrow>
       st_sweep_index (steps_iter s ! nat i) = Some (i div crs_loops s) \<and>
       map_of (cs_requested (st_snapshot (steps_iter s ! nat i))) (sw_field w) =
         Some (sw_values w ! nat (i div crs_loops s)))"
proof -
  note t = compile_run_steps_targets [OF assms]
  note l = validate_plan_loops [OF t(2)]
  have v: "steps_valid s" using l by (simp add: steps_valid_def)
  have len: "int (length (steps_iter s)) =
      crs_loops s * (case rp_sweep plan of None \<Rightarrow> 1 | Some w \<Rightarrow> int (length (sw_values w)))"
    using length_steps_iter [OF v] t(3) by (auto simp: steps_len_def mult.commute split: option.splits)
  have ok: "\<forall>step \<in> set (steps_iter s). cs_state (st_snapshot step) = VALIDATED \<and>
       is_ok (encode_config_v2 (st_compiled step)) \<and>
       validate_boostxl_direct_applied_config (st_compiled step) = Inr ()"
    using t(1) by (auto simp: steps_iter_def run_step_def list_all_iff target_ok_def encode_config_v2_eq validate_boostxl_eq)
  have idx: "st_sweep_index (steps_iter s ! nat i) = Some (i div crs_loops s) \<and>
       map_of (cs_requested (st_snapshot (steps_iter s ! nat i))) (sw_field w) =
         Some (sw_values w ! nat (i div crs_loops s))"
    if w: "rp_sweep plan = Some w" and i: "0 \<le> i" "i < steps_len s" for w i
  proof -
    have pos: "0 < crs_loops s" using l by simp
    have q: "0 \<le> i div crs_loops s" "i div crs_loops s < int (length (crs_targets s))"
      using i pos by (simp_all add: pos_imp_zdiv_nonneg_iff steps_len_def int_div_less)
    then have "nat (i div crs_loops s) < length (crs_targets s)" by linarith
    from t(5) [OF w this] q steps_iter_nth [OF v i] show ?thesis by (simp add: run_step_def)
  qed
  show ?thesis using l t(4) len ok idx by blast
qed


definition demo_plan :: RunPlanV1 where
  "demo_plan = \<lparr>rp_loops = OInt 2, rp_start_delay_ms = OInt 0, rp_loop_delay_ms = OInt 5, rp_sweep = None,
     rp_trigger_source = ''SOFTWARE'', rp_sync_timeout_ms = 0, rp_save_policy = SAVE_ALL\<rparr>"

lemma demo_plan_compiles:
  assumes "validate_snapshot svc d = Inr r" and "vr_compiled r = Some c"
  shows "\<exists>s. compile_run_steps svc d demo_plan = Inr s \<and> crs_loops s = 2"
  using assms(1) validate_snapshot_compiled(1) [OF assms] assms(2)
  by (simp add: compile_run_steps_def validate_plan_def demo_plan_def bounded_integer_def trigger_sources_def
      validated_target_def)

theorem compiled_plan_is_safe_witness:
  "\<exists>d s. new_draft demo_service = Inr d \<and> compile_run_steps demo_service d demo_plan = Inr s \<and>
     length (steps_iter s) = 2 \<and>
     (\<forall>step \<in> set (steps_iter s). validate_boostxl_direct_applied_config (st_compiled step) = Inr ())"
proof -
  obtain d r c where d: "new_draft demo_service = Inr d" "validate_snapshot demo_service d = Inr r"
    "vr_compiled r = Some c"
    using default_draft_validates by blast
  obtain s where s: "compile_run_steps demo_service d demo_plan = Inr s" "crs_loops s = 2"
    using demo_plan_compiles [OF d(2,3)] by blast
  from compiled_plan_is_safe [OF s(1)] s(2)
  have "int (length (steps_iter s)) = 2"
    "\<forall>step \<in> set (steps_iter s). validate_boostxl_direct_applied_config (st_compiled step) = Inr ()"
    by (simp_all add: demo_plan_def)
  then show ?thesis using d(1) s(1) by auto
qed

end
