(* ===== verification/Periodic_Lease.thy ===== *)
theory Periodic_Lease
  imports Usac_Prelude
begin

text \<open>
  The core's renewal state for periodic captures (\<open>periodic_lease.py\<close>). The device client that the
  controller calls is a record of operations over a client state, passed as an argument, so that a
  call at a later time can be a different operation; what the controller may rely on is the locale
  \<open>leasing_device\<close>.
\<close>

section \<open>Schedules and renewals\<close>

record HostPeriodicSchedule =
  sch_boot_id :: bytes
  sch_schedule_id :: bytes
  sch_profile_sha256 :: bytes
  sch_device_config_crc32 :: int
  sch_period_us :: int
  sch_capture_count :: int
  sch_lease_timeout_ms :: int

definition validate_schedule :: "HostPeriodicSchedule \<Rightarrow> unit res" where
  "validate_schedule s =
     (if length (sch_boot_id s) \<noteq> 16 \<or> sch_boot_id s = replicate 16 0 then Inl ValueError
      else if length (sch_schedule_id s) \<noteq> 16 \<or> sch_schedule_id s = replicate 16 0 then Inl ValueError
      else if length (sch_profile_sha256 s) \<noteq> 32 then Inl ValueError
      else if \<not> (100000 \<le> sch_period_us s \<and> sch_period_us s \<le> 0xFFFFFFFF) then Inl ValueError
      else if \<not> (0 \<le> sch_capture_count s \<and> sch_capture_count s \<le> 0xFFFFFFFF) then Inl ValueError
      else if \<not> (1000 \<le> sch_lease_timeout_ms s \<and> sch_lease_timeout_ms s \<le> 10000) then Inl ValueError
      else Inr ())"

record LeaseRenewal =
  lr_boot_id :: bytes
  lr_schedule_id :: bytes
  lr_lease_sequence :: int
  lr_lease_timeout_ms :: int

record 'c PeriodicDeviceClient =
  pdc_start_periodic :: "HostPeriodicSchedule \<Rightarrow> ('c, unit) meth"
  pdc_renew_periodic :: "LeaseRenewal \<Rightarrow> ('c, LeaseRenewal) meth"
  pdc_stop_periodic :: "bytes \<Rightarrow> ('c, unit) meth"

section \<open>The controller\<close>

record 'c PeriodicLeaseController =
  plc_client :: 'c
  plc_schedule :: "HostPeriodicSchedule option"
  plc_lease_sequence :: int
  plc_next_renewal_ms :: int

definition new_controller :: "'c \<Rightarrow> 'c PeriodicLeaseController" where
  "new_controller client = \<lparr>plc_client = client, plc_schedule = None, plc_lease_sequence = 0,
     plc_next_renewal_ms = 0\<rparr>"

definition lease_active :: "'c PeriodicLeaseController \<Rightarrow> bool" where
  "lease_active s \<longleftrightarrow> plc_schedule s \<noteq> None"

definition renew_interval_ms :: "HostPeriodicSchedule \<Rightarrow> int" where
  "renew_interval_ms schedule = min (sch_lease_timeout_ms schedule div 3) 1000"

text \<open>A call on \<open>self._client\<close>.\<close>

definition on_client :: "('c, 'a) meth \<Rightarrow> ('c PeriodicLeaseController, 'a) meth" where
  "on_client m s = (case m (plc_client s) of (r, c) \<Rightarrow> (r, s\<lparr>plc_client := c\<rparr>))"

definition lease_start ::
  "'c PeriodicDeviceClient \<Rightarrow> HostPeriodicSchedule \<Rightarrow> int \<Rightarrow> ('c PeriodicLeaseController, unit) meth" where
  "lease_start client schedule now_ms =
     mbind (mlift (validate_schedule schedule)) (\<lambda>_.
     mbind mget (\<lambda>s.
     mbind (mguard (plc_schedule s = None) LeaseConflictError) (\<lambda>_.
     mbind (mguard (0 \<le> now_ms) ValueError) (\<lambda>_.
     mbind (on_client (pdc_start_periodic client schedule)) (\<lambda>_.
     mupd (\<lambda>s. s\<lparr>plc_schedule := Some schedule, plc_lease_sequence := 0,
       plc_next_renewal_ms := now_ms + renew_interval_ms schedule\<rparr>))))))"

definition response_matches :: "LeaseRenewal \<Rightarrow> LeaseRenewal \<Rightarrow> bool" where
  "response_matches renewal response \<longleftrightarrow>
     lr_boot_id response = lr_boot_id renewal \<and> lr_schedule_id response = lr_schedule_id renewal \<and>
     lr_lease_sequence response = lr_lease_sequence renewal \<and>
     0 < lr_lease_timeout_ms response \<and> lr_lease_timeout_ms response \<le> lr_lease_timeout_ms renewal"

definition next_renewal :: "HostPeriodicSchedule \<Rightarrow> int \<Rightarrow> LeaseRenewal" where
  "next_renewal schedule lease_sequence =
     \<lparr>lr_boot_id = sch_boot_id schedule, lr_schedule_id = sch_schedule_id schedule,
      lr_lease_sequence = lease_sequence + 1, lr_lease_timeout_ms = sch_lease_timeout_ms schedule\<rparr>"

definition renew_if_due :: "'c PeriodicDeviceClient \<Rightarrow> int \<Rightarrow> ('c PeriodicLeaseController, bool) meth" where
  "renew_if_due client now_ms =
     mbind mget (\<lambda>s.
     case plc_schedule s of
       None \<Rightarrow> mret False
     | Some schedule \<Rightarrow>
         if now_ms < plc_next_renewal_ms s then mret False
         else
           let renewal = next_renewal schedule (plc_lease_sequence s) in
           mbind (on_client (pdc_renew_periodic client renewal)) (\<lambda>response.
           if \<not> response_matches renewal response then
             mbind (mupd (\<lambda>s. s\<lparr>plc_schedule := None\<rparr>)) (\<lambda>_. mraise LeaseConflictError)
           else
             mbind (mupd (\<lambda>s. s\<lparr>plc_lease_sequence := lr_lease_sequence renewal,
               plc_next_renewal_ms := now_ms + renew_interval_ms schedule\<rparr>)) (\<lambda>_.
             mret True)))"

definition lease_stop :: "'c PeriodicDeviceClient \<Rightarrow> ('c PeriodicLeaseController, unit) meth" where
  "lease_stop client =
     mbind mget (\<lambda>s.
     case plc_schedule s of
       None \<Rightarrow> mret ()
     | Some schedule \<Rightarrow>
         mbind (mupd (\<lambda>s. s\<lparr>plc_schedule := None, plc_lease_sequence := 0, plc_next_renewal_ms := 0\<rparr>)) (\<lambda>_.
         on_client (pdc_stop_periodic client (sch_schedule_id schedule))))"

definition lease_finish :: "('c PeriodicLeaseController, unit) meth" where
  "lease_finish = mupd (\<lambda>s. s\<lparr>plc_schedule := None, plc_lease_sequence := 0, plc_next_renewal_ms := 0\<rparr>)"

section \<open>A core that stays alive\<close>

text \<open>
  The core's loop at the times \<open>ts\<close>, as in \<open>AcquisitionApplication._periodic_worker\<close>: a renewal if
  one is due, then other device work (\<open>work\<close>, polling for captures). \<open>client t\<close> are the device operations at time \<open>t\<close>.
\<close>

fun lease_run ::
  "(int \<Rightarrow> 'c PeriodicDeviceClient) \<Rightarrow> (int \<Rightarrow> 'c \<Rightarrow> 'c) \<Rightarrow> int list \<Rightarrow> ('c PeriodicLeaseController, bool list) meth"
where
  "lease_run client work [] = mret []"
| "lease_run client work (t # ts) =
     mbind (renew_if_due (client t) t) (\<lambda>b.
     mbind (mupd (\<lambda>s. s\<lparr>plc_client := work t (plc_client s)\<rparr>)) (\<lambda>_.
     mbind (lease_run client work ts) (\<lambda>bs. mret (b # bs))))"

text \<open>Every turn comes no later than \<open>gap\<close> after the one before.\<close>

fun spaced :: "int \<Rightarrow> int \<Rightarrow> int list \<Rightarrow> bool" where
  "spaced gap t [] \<longleftrightarrow> True"
| "spaced gap t (t' # ts) \<longleftrightarrow> t \<le> t' \<and> t' \<le> t + gap \<and> spaced gap t' ts"

lemma renew_interval_bounds:
  assumes "validate_schedule sch = Inr ()"
  shows "0 < renew_interval_ms sch" "3 * renew_interval_ms sch \<le> sch_lease_timeout_ms sch"
    "renew_interval_ms sch \<le> 1000"
  using assms by (auto simp: validate_schedule_def renew_interval_ms_def split: if_splits)

text \<open>
  The contract of a device with leases: starting a schedule leases it until the timeout has passed;
  a renewal in time, with the next sequence number, is answered with the same identity and moves the
  deadline to the timeout after now; other work before the deadline does not end the lease.
\<close>

locale leasing_device =
  fixes client :: "int \<Rightarrow> 'c PeriodicDeviceClient" and work :: "int \<Rightarrow> 'c \<Rightarrow> 'c"
    and admits :: "'c \<Rightarrow> HostPeriodicSchedule \<Rightarrow> bool"
    and leased :: "'c \<Rightarrow> HostPeriodicSchedule \<Rightarrow> int \<Rightarrow> int \<Rightarrow> bool"
  assumes start_leases: "validate_schedule sch = Inr () \<Longrightarrow> admits c sch \<Longrightarrow> 0 \<le> now \<Longrightarrow>
      pdc_start_periodic (client now) sch c = (Inr (), c') \<Longrightarrow> leased c' sch 0 (now + sch_lease_timeout_ms sch)"
    and renew_extends: "validate_schedule sch = Inr () \<Longrightarrow> leased c sch seq deadline \<Longrightarrow>
      0 \<le> now \<Longrightarrow> now < deadline \<Longrightarrow> 0 \<le> seq \<Longrightarrow> seq < 0xFFFFFFFF \<Longrightarrow>
      \<exists>response c'. pdc_renew_periodic (client now) (next_renewal sch seq) c = (Inr response, c') \<and>
        response_matches (next_renewal sch seq) response \<and>
        leased c' sch (seq + 1) (now + sch_lease_timeout_ms sch)"
    and work_keeps: "leased c sch seq deadline \<Longrightarrow> 0 \<le> now \<Longrightarrow> now < deadline \<Longrightarrow> leased (work now c) sch seq deadline"
begin

lemma start_then_leased:
  assumes "lease_start (client now) sch now s = (Inr (), s')" "admits (plc_client s) sch"
  shows "plc_schedule s' = Some sch" "plc_lease_sequence s' = 0" "validate_schedule sch = Inr ()" "0 \<le> now"
    "plc_next_renewal_ms s' = now + renew_interval_ms sch"
    "leased (plc_client s') sch 0 (now + sch_lease_timeout_ms sch)"
  using assms start_leases
  by (auto simp: lease_start_def mbind_ok_iff mguard_run on_client_def split: if_splits prod.splits)

lemma one_turn:
  assumes "validate_schedule sch = Inr ()" "plc_schedule s = Some sch"
    "leased (plc_client s) sch (plc_lease_sequence s) deadline"
    "0 \<le> t" "t < deadline" "0 \<le> plc_lease_sequence s" "plc_lease_sequence s < 0xFFFFFFFF"
  obtains s' where
    "renew_if_due (client t) t s = (Inr (plc_next_renewal_ms s \<le> t), s')"
    "plc_schedule s' = Some sch"
    "if plc_next_renewal_ms s \<le> t
     then leased (plc_client s') sch (plc_lease_sequence s') (t + sch_lease_timeout_ms sch) \<and>
       plc_next_renewal_ms s' = t + renew_interval_ms sch \<and> plc_lease_sequence s' = plc_lease_sequence s + 1
     else leased (plc_client s') sch (plc_lease_sequence s') deadline \<and>
       plc_next_renewal_ms s' = plc_next_renewal_ms s \<and> plc_lease_sequence s' = plc_lease_sequence s"
proof -
  obtain response c' where r: "pdc_renew_periodic (client t) (next_renewal sch (plc_lease_sequence s)) (plc_client s) = (Inr response, c')"
    "response_matches (next_renewal sch (plc_lease_sequence s)) response"
    "leased c' sch (plc_lease_sequence s + 1) (t + sch_lease_timeout_ms sch)"
    using renew_extends [OF assms(1,3,4-7)] by blast
  show ?thesis
  proof (cases "plc_next_renewal_ms s \<le> t")
    case True
    have q: "lr_lease_sequence (next_renewal sch (plc_lease_sequence s)) = plc_lease_sequence s + 1"
      by (simp add: next_renewal_def)
    show ?thesis
      using True r assms(2)
      by (intro that [of "s\<lparr>plc_client := c', plc_lease_sequence := plc_lease_sequence s + 1,
            plc_next_renewal_ms := t + renew_interval_ms sch\<rparr>"])
        (simp_all add: renew_if_due_def mbind_run on_client_def Let_def q)
  next
    case False
    then show ?thesis
      using assms(2,3) by (intro that [of s]) (simp_all add: renew_if_due_def)
  qed
qed

lemma run_keeps_lease:
  assumes "validate_schedule sch = Inr ()" "plc_schedule s = Some sch"
    "leased (plc_client s) sch (plc_lease_sequence s) deadline"
    "deadline = plc_next_renewal_ms s + (sch_lease_timeout_ms sch - renew_interval_ms sch)"
    "0 \<le> t0" "t0 < plc_next_renewal_ms s" "deadline \<le> t0 + sch_lease_timeout_ms sch"
    "spaced (sch_lease_timeout_ms sch - renew_interval_ms sch) t0 ts"
    "0 \<le> plc_lease_sequence s" "plc_lease_sequence s + int (length ts) \<le> 0xFFFFFFFF"
  shows "\<exists>bs s' d'. lease_run client work ts s = (Inr bs, s') \<and> plc_schedule s' = Some sch \<and>
    leased (plc_client s') sch (plc_lease_sequence s') d' \<and>
    plc_lease_sequence s' = plc_lease_sequence s + int (length (filter (\<lambda>b. b) bs)) \<and>
    last (t0 # ts) < d' \<and> d' \<le> last (t0 # ts) + sch_lease_timeout_ms sch"
  using assms
proof (induction ts arbitrary: s t0 deadline)
  case Nil
  then show ?case using renew_interval_bounds [OF assms(1)] by auto
next
  case (Cons t ts)
  note b = renew_interval_bounds [OF assms(1)]
  have t: "0 \<le> t" "t < deadline" "t0 \<le> t" using Cons.prems(4-8) b by auto
  have n: "plc_lease_sequence s < 0xFFFFFFFF" using Cons.prems(10) by simp
  obtain s0 where s0: "renew_if_due (client t) t s = (Inr (plc_next_renewal_ms s \<le> t), s0)"
    "plc_schedule s0 = Some sch"
    "if plc_next_renewal_ms s \<le> t
     then leased (plc_client s0) sch (plc_lease_sequence s0) (t + sch_lease_timeout_ms sch) \<and>
       plc_next_renewal_ms s0 = t + renew_interval_ms sch \<and> plc_lease_sequence s0 = plc_lease_sequence s + 1
     else leased (plc_client s0) sch (plc_lease_sequence s0) deadline \<and>
       plc_next_renewal_ms s0 = plc_next_renewal_ms s \<and> plc_lease_sequence s0 = plc_lease_sequence s"
    using one_turn [OF Cons.prems(1-3) t(1,2) Cons.prems(9) n] by blast
  define s1 where "s1 = s0\<lparr>plc_client := work t (plc_client s0)\<rparr>"
  define d1 where "d1 = (if plc_next_renewal_ms s \<le> t then t + sch_lease_timeout_ms sch else deadline)"
  have td: "t < d1" using t(2) b by (auto simp: d1_def)
  have l0: "leased (plc_client s0) sch (plc_lease_sequence s0) d1"
    using s0(3) by (auto simp: d1_def split: if_splits)
  have l1: "leased (plc_client s1) sch (plc_lease_sequence s1) d1" "plc_schedule s1 = Some sch"
    "d1 = plc_next_renewal_ms s1 + (sch_lease_timeout_ms sch - renew_interval_ms sch)"
    "t < plc_next_renewal_ms s1" "d1 \<le> t + sch_lease_timeout_ms sch"
    "plc_lease_sequence s1 = plc_lease_sequence s + of_bool (plc_next_renewal_ms s \<le> t)"
    using s0(2,3) Cons.prems(4,7) b t(3) work_keeps [OF l0 t(1) td]
    by (auto simp: d1_def s1_def split: if_splits)
  have sp: "spaced (sch_lease_timeout_ms sch - renew_interval_ms sch) t ts" using Cons.prems(8) by simp
  have q: "0 \<le> plc_lease_sequence s1" "plc_lease_sequence s1 + int (length ts) \<le> 0xFFFFFFFF"
    using l1(6) Cons.prems(9,10) by auto
  obtain bs s' d' where ih: "lease_run client work ts s1 = (Inr bs, s')" "plc_schedule s' = Some sch"
    "leased (plc_client s') sch (plc_lease_sequence s') d'"
    "plc_lease_sequence s' = plc_lease_sequence s1 + int (length (filter (\<lambda>b. b) bs))"
    "last (t # ts) < d'" "d' \<le> last (t # ts) + sch_lease_timeout_ms sch"
    using Cons.IH [OF Cons.prems(1) l1(2,1,3) t(1) l1(4,5) sp q] by blast
  have "lease_run client work (t # ts) s = (Inr ((plc_next_renewal_ms s \<le> t) # bs), s')"
    using s0(1) ih(1) by (simp add: mbind_run s1_def)
  then show ?case
    using ih l1(6) by (intro exI [of _ "(plc_next_renewal_ms s \<le> t) # bs"] exI [of _ s'] exI [of _ d']) simp
qed

end

end
