(* ===== verification/Device_Session.thy ===== *)
theory Device_Session
  imports Messages
begin

text \<open>The read-back and session records of \<open>device_executor.py\<close> that device clients produce.\<close>

record DeviceReadback =
  rb_config :: AcquisitionConfigV2

record PublishedDeviceSession =
  pub_connected :: bool
  pub_backend :: string
  pub_session_generation :: int
  pub_hello :: "HelloResponse option"
  pub_device_id :: "bytes option"
  pub_boot_id :: "bytes option"

end
