(* ===== verification/Simulated_Client.thy ===== *)
theory Simulated_Client
  imports Simulator Periodic_Lease Device_Session
begin

text \<open>
  The in-process device client (\<open>simulated_device_client.py\<close>): every host operation is a complete
  protocol exchange with the simulated device, through the real payload codecs. The device's clock
  reading (in microseconds) is an argument of the operations that reach the device.
\<close>

section \<open>State and helpers\<close>

record SimulatedDeviceClient =
  scl_device :: SimulatedDevice
  scl_sequence :: int
  scl_identifier_counter :: int
  scl_boot_id :: "bytes option"
  scl_device_id :: "bytes option"
  scl_hello :: "HelloResponse option"
  scl_last_acked_type :: "MessageType option"
  scl_capture_wire_frames :: "bytes \<rightharpoonup> bytes"
  scl_published_session :: "PublishedDeviceSession option"

type_synonym 'a scl = "(SimulatedDeviceClient, 'a) meth"

definition on_device :: "'a sim \<Rightarrow> 'a scl" where
  "on_device m c = (case m (scl_device c) of (r, d) \<Rightarrow> (r, c\<lparr>scl_device := d\<rparr>))"

definition next_sequence :: "int scl" where
  "next_sequence =
     mbind (mupd (\<lambda>c. c\<lparr>scl_sequence := scl_sequence c + 1\<rparr>)) (\<lambda>_.
     mbind mget (\<lambda>c. mret (scl_sequence c)))"

definition new_identifier :: "string \<Rightarrow> bytes scl" where
  "new_identifier purpose =
     mbind (mupd (\<lambda>c. c\<lparr>scl_identifier_counter := scl_identifier_counter c + 1\<rparr>)) (\<lambda>_.
     mbind mget (\<lambda>c.
     mbind (mlift (to_bytes_4_little (scl_identifier_counter c))) (\<lambda>counter.
     mret (take 16 (sha256 (ascii ''USAC-SIM-CLIENT-V1'' @ ascii purpose @ counter))))))"

text \<open>\<open>self._device.handle(Frame(type, self._next_sequence(), encode(...)))\<close>: the sequence number is
  taken before the payload is encoded.\<close>

definition exchange :: "int \<Rightarrow> MessageType \<Rightarrow> bytes res \<Rightarrow> Frame list scl" where
  "exchange clock t encoded =
     mbind next_sequence (\<lambda>seq.
     mbind (mlift encoded) (\<lambda>p.
     on_device (handle clock (mk_frame t seq p FLAG_NONE))))"

definition require_count :: "Frame list \<Rightarrow> nat \<Rightarrow> unit scl" where
  "require_count frames expected = mguard (length frames = expected) RuntimeError"

definition require_ack :: "Frame \<Rightarrow> bytes \<Rightarrow> MessageType \<Rightarrow> unit scl" where
  "require_ack frame request_id expected_type =
     mbind (mguard (message_type frame = ACK \<and> flags frame = FLAG_RESPONSE) RuntimeError) (\<lambda>_.
     mbind (mlift (decode_ack (payload frame))) (\<lambda>ack.
     mbind (mguard (ack_request_id ack = request_id \<and> ack_acked_type ack = type_code expected_type) RuntimeError) (\<lambda>_.
     mupd (\<lambda>c. c\<lparr>scl_last_acked_type := Some expected_type\<rparr>))))"

section \<open>Operations\<close>

definition client_hello :: "int \<Rightarrow> unit scl" where
  "client_hello clock =
     mbind (new_identifier ''hello'') (\<lambda>nonce.
     mbind (exchange clock HELLO
              (encode_hello_request \<lparr>hq_host_nonce = nonce, hq_min_version = 1, hq_max_version = 1\<rparr>)) (\<lambda>response.
     mbind (require_count response 1) (\<lambda>_.
     mbind (mlift (decode_hello_response (payload (hd response)))) (\<lambda>hello.
     mbind (mguard (flags (hd response) = FLAG_RESPONSE \<and> hr_host_nonce hello = nonce) RuntimeError) (\<lambda>_.
     mupd (\<lambda>c. c\<lparr>scl_boot_id := Some (hr_boot_id hello), scl_device_id := Some (hr_device_id hello),
       scl_hello := Some hello\<rparr>))))))"

text \<open>\<open>__init__\<close>: the object is filled, then the HELLO exchange runs, then the session is published.\<close>

definition new_client :: "SimulatedDevice \<Rightarrow> SimulatedDeviceClient" where
  "new_client device = \<lparr>scl_device = device, scl_sequence = 0, scl_identifier_counter = 0,
     scl_boot_id = None, scl_device_id = None, scl_hello = None, scl_last_acked_type = None,
     scl_capture_wire_frames = Map.empty, scl_published_session = None\<rparr>"

definition init_client :: "int \<Rightarrow> unit scl" where
  "init_client clock =
     mbind (client_hello clock) (\<lambda>_.
     mupd (\<lambda>c. c\<lparr>scl_published_session := Some \<lparr>pub_connected = True, pub_backend = ''SIMULATOR'',
       pub_session_generation = 0, pub_hello = scl_hello c, pub_device_id = scl_device_id c,
       pub_boot_id = scl_boot_id c\<rparr>\<rparr>))"

definition client_apply_config :: "int \<Rightarrow> AcquisitionConfigV2 \<Rightarrow> DeviceReadback scl" where
  "client_apply_config clock config =
     mbind (new_identifier ''set-config'') (\<lambda>request_id.
     mbind mget (\<lambda>c.
     let expected = (case sd_config (scl_device c) of Some old \<Rightarrow> profile_sha256 old | None \<Rightarrow> replicate 32 0) in
     mbind (exchange clock SET_CONFIG
              (encode_set_config_request \<lparr>sc_request_id = request_id,
                 sc_expected_profile_sha256 = expected, sc_config = config\<rparr>)) (\<lambda>response.
     mbind (require_count response 1) (\<lambda>_.
     mbind (require_ack (hd response) request_id SET_CONFIG) (\<lambda>_.
     mbind (exchange clock GET_CONFIG (Inr [])) (\<lambda>readback_frames.
     mbind (require_count readback_frames 1) (\<lambda>_.
     mbind (mlift (decode_config_v2 (payload (hd readback_frames)))) (\<lambda>readback.
     mret \<lparr>rb_config = readback\<rparr>))))))))"

definition TRIGGER_CODES :: "(string \<times> int) list" where
  "TRIGGER_CODES = [(''SOFTWARE'', 0), (''EXTERNAL_SYNC_SLAVE'', 1), (''EXTERNAL_SYNC_MASTER'', 2)]"

definition keep_wire_frame :: "bytes \<Rightarrow> Frame \<Rightarrow> unit scl" where
  "keep_wire_frame capture_id frame =
     mbind (mlift (encode_frame frame)) (\<lambda>wire.
     mupd (\<lambda>c. c\<lparr>scl_capture_wire_frames := (scl_capture_wire_frames c)(capture_id \<mapsto> wire)\<rparr>))"

definition client_capture_once :: "int \<Rightarrow> AcquisitionConfigV2 \<Rightarrow> string \<Rightarrow> int \<Rightarrow> CaptureData scl" where
  "client_capture_once clock config trigger_source sync_timeout_ms =
     mbind (new_identifier ''capture-once'') (\<lambda>request_id.
     mbind (exchange clock CAPTURE_ONCE
              (case map_of TRIGGER_CODES trigger_source of
                 None \<Rightarrow> Inl KeyError
               | Some code \<Rightarrow> encode_capture_once_request
                   \<lparr>co_request_id = request_id, co_expected_profile_sha256 = profile_sha256 config,
                    co_expected_device_config_crc32 = device_config_crc32 config,
                    co_trigger_source = code, co_sync_timeout_ms = sync_timeout_ms\<rparr>)) (\<lambda>response.
     mbind (require_count response 2) (\<lambda>_.
     mbind (require_ack (response ! 0) request_id CAPTURE_ONCE) (\<lambda>_.
     mbind (mguard (message_type (response ! 1) = CAPTURE_DATA) RuntimeError) (\<lambda>_.
     mbind (mlift (decode_capture_data (payload (response ! 1)))) (\<lambda>capture.
     mbind (keep_wire_frame (cd_capture_id capture) (response ! 1)) (\<lambda>_.
     mret capture)))))))"

definition client_status :: "int \<Rightarrow> StatusResponse scl" where
  "client_status clock =
     mbind (exchange clock GET_STATUS (Inr [])) (\<lambda>response.
     mbind (require_count response 1) (\<lambda>_.
     mlift (decode_status_response (payload (hd response)))))"

definition client_capabilities :: "int \<Rightarrow> CapabilitiesResponse scl" where
  "client_capabilities clock =
     mbind (exchange clock GET_CAPABILITIES (Inr [])) (\<lambda>response.
     mbind (require_count response 1) (\<lambda>_.
     mlift (decode_capabilities_response (payload (hd response)))))"

definition client_start_periodic :: "int \<Rightarrow> HostPeriodicSchedule \<Rightarrow> unit scl" where
  "client_start_periodic clock schedule =
     mbind (new_identifier ''start-periodic'') (\<lambda>request_id.
     mbind (exchange clock START_PERIODIC
              (encode_start_periodic_request
                 \<lparr>sp_request_id = request_id, sp_schedule_id = sch_schedule_id schedule,
                  sp_expected_profile_sha256 = sch_profile_sha256 schedule,
                  sp_expected_device_config_crc32 = sch_device_config_crc32 schedule,
                  sp_period_us = sch_period_us schedule, sp_capture_count = sch_capture_count schedule,
                  sp_lease_timeout_ms = sch_lease_timeout_ms schedule\<rparr>)) (\<lambda>response.
     mbind (require_count response 1) (\<lambda>_.
     require_ack (hd response) request_id START_PERIODIC)))"

definition client_renew_periodic :: "int \<Rightarrow> LeaseRenewal \<Rightarrow> LeaseRenewal scl" where
  "client_renew_periodic clock renewal =
     mbind (exchange clock RENEW_PERIODIC_LEASE
              (encode_renew_periodic_lease
                 \<lparr>rl_boot_id = lr_boot_id renewal, rl_schedule_id = lr_schedule_id renewal,
                  rl_lease_sequence = lr_lease_sequence renewal,
                  rl_lease_timeout_or_remaining_ms = lr_lease_timeout_ms renewal\<rparr>)) (\<lambda>response.
     mbind (require_count response 1) (\<lambda>_.
     mbind (mlift (decode_renew_periodic_lease (payload (hd response)))) (\<lambda>decoded.
     mret \<lparr>lr_boot_id = rl_boot_id decoded, lr_schedule_id = rl_schedule_id decoded,
           lr_lease_sequence = rl_lease_sequence decoded,
           lr_lease_timeout_ms = rl_lease_timeout_or_remaining_ms decoded\<rparr>)))"

definition client_stop_periodic :: "int \<Rightarrow> bytes \<Rightarrow> unit scl" where
  "client_stop_periodic clock schedule_id =
     mbind (new_identifier ''stop-periodic'') (\<lambda>request_id.
     mbind (exchange clock STOP
              (encode_stop_request \<lparr>stq_request_id = request_id, stq_schedule_id = schedule_id\<rparr>)) (\<lambda>response.
     mbind (require_count response 1) (\<lambda>_.
     require_ack (hd response) request_id STOP)))"

fun take_captures :: "Frame list \<Rightarrow> CaptureData list scl" where
  "take_captures [] = mret []"
| "take_captures (frame # frames) =
     mbind (mguard (message_type frame = CAPTURE_DATA \<and> flags frame = FLAG_ASYNC) RuntimeError) (\<lambda>_.
     mbind (mlift (decode_capture_data (payload frame))) (\<lambda>capture.
     mbind (keep_wire_frame (cd_capture_id capture) frame) (\<lambda>_.
     mbind (take_captures frames) (\<lambda>captures.
     mret (capture # captures)))))"

definition client_poll_captures :: "int \<Rightarrow> CaptureData list scl" where
  "client_poll_captures clock = mbind (on_device (poll clock)) take_captures"

definition client_capture_wire_frame :: "bytes \<Rightarrow> bytes scl" where
  "client_capture_wire_frame capture_id =
     mbind mget (\<lambda>c. case scl_capture_wire_frames c capture_id of None \<Rightarrow> mraise KeyError | Some w \<Rightarrow> mret w)"

definition client_release_capture :: "bytes \<Rightarrow> unit scl" where
  "client_release_capture capture_id =
     mupd (\<lambda>c. c\<lparr>scl_capture_wire_frames := (scl_capture_wire_frames c)(capture_id := None)\<rparr>)"


section \<open>Every exchange is a new request\<close>

text \<open>
  Sequence numbers only grow, so a request is never answered from the device's cache of completed
  requests.
\<close>

definition fresh :: "SimulatedDeviceClient \<Rightarrow> bool" where
  "fresh c \<longleftrightarrow> (\<forall>t q p. sd_completed (scl_device c) (t, q, p) \<noteq> None \<longrightarrow> q \<le> scl_sequence c)"

lemmas sim_run_simps = mbind_run mguard_run sim_helper_defs sim_ack_def make_capture_def Let_def

lemma handlers_keep_cache:
  "keeps (\<lambda>d. sd_completed d = m) (sim_hello f)"
  "keeps (\<lambda>d. sd_completed d = m) (sim_get_capabilities f)"
  "keeps (\<lambda>d. sd_completed d = m) (sim_set_config f)"
  "keeps (\<lambda>d. sd_completed d = m) (sim_get_config f)"
  "keeps (\<lambda>d. sd_completed d = m) (sim_capture_once f)"
  "keeps (\<lambda>d. sd_completed d = m) (sim_start_periodic clock f)"
  "keeps (\<lambda>d. sd_completed d = m) (sim_renew_periodic clock f)"
  "keeps (\<lambda>d. sd_completed d = m) (sim_stop f)"
  "keeps (\<lambda>d. sd_completed d = m) (sim_get_status clock f)"
  unfolding sim_hello_def sim_get_capabilities_def sim_set_config_def sim_get_config_def sim_capture_once_def
    sim_start_periodic_def sim_renew_periodic_def sim_stop_def sim_get_status_def sim_helper_defs sim_ack_def
    make_capture_def Let_def
  by (intro keeps_rules; simp)+

lemma dispatch_keeps_cache: "sd_completed (snd (dispatch clock f d)) = sd_completed d"
proof -
  have "keeps (\<lambda>d'. sd_completed d' = sd_completed d) (dispatch clock f)"
    by (cases "message_type f") (simp_all add: dispatch_def handlers_keep_cache keeps_basic)
  then show ?thesis by (auto dest: keepsD)
qed

lemma poll_keeps_cache: "sd_completed (snd (poll clock d)) = sd_completed d"
proof -
  have "keeps (\<lambda>d'. sd_completed d' = sd_completed d) (poll clock)"
    unfolding poll_def sim_helper_defs make_capture_def Let_def by (intro keeps_rules; simp)+
  then show ?thesis by (auto dest: keepsD)
qed


definition request_frame :: "SimulatedDeviceClient \<Rightarrow> MessageType \<Rightarrow> bytes \<Rightarrow> Frame" where
  "request_frame c t p = mk_frame t (scl_sequence c + 1) p FLAG_NONE"

text \<open>What an exchange does: the request is dispatched, and a response is remembered.\<close>

lemma exchange_ok_iff:
  assumes "fresh c"
  shows "exchange clock t encoded c = (Inr rs, c') \<longleftrightarrow>
    (\<exists>p d'. encoded = Inr p \<and> dispatch clock (request_frame c t p) (scl_device c) = (Inr rs, d') \<and>
       c' = c\<lparr>scl_sequence := scl_sequence c + 1,
         scl_device := d'\<lparr>sd_completed := (sd_completed d')(cache_key (request_frame c t p) \<mapsto> rs)\<rparr>\<rparr>)"
proof -
  have "sd_completed (scl_device c) (cache_key (request_frame c t p)) = None" for p
    using assms [unfolded fresh_def, rule_format, of "type_code t" "scl_sequence c + 1" p]
    by (cases "sd_completed (scl_device c) (cache_key (request_frame c t p))")
      (simp_all add: cache_key_def request_frame_def mk_frame_def)
  moreover have "flags (request_frame c t p) = FLAG_NONE" for p by (simp add: request_frame_def mk_frame_def)
  ultimately show ?thesis
    by (cases encoded)
      (auto simp: exchange_def next_sequence_def request_frame_def [symmetric] on_device_def handle_def
        mbind_run mguard_run split: sum.splits prod.splits)
qed

lemma exchange_keeps_fresh: "keeps fresh (exchange clock t encoded)"
proof -
  have "fresh (snd (exchange clock t encoded c))" if "fresh c" for c
  proof (cases "exchange clock t encoded c")
    case (Pair r c')
    show ?thesis
    proof (cases r)
      case (Inr rs)
      with Pair exchange_ok_iff [OF that] obtain p d' where d: "dispatch clock (request_frame c t p) (scl_device c) = (Inr rs, d')"
        and c': "c' = c\<lparr>scl_sequence := scl_sequence c + 1,
         scl_device := d'\<lparr>sd_completed := (sd_completed d')(cache_key (request_frame c t p) \<mapsto> rs)\<rparr>\<rparr>"
        by blast
      have "sd_completed d' = sd_completed (scl_device c)"
        using dispatch_keeps_cache [of clock "request_frame c t p" "scl_device c"] d by simp
      then show ?thesis
        using that Pair by (fastforce simp: c' fresh_def cache_key_def request_frame_def mk_frame_def)
    next
      case (Inl e)
      have "sd_completed (scl_device c') = sd_completed (scl_device c)" "scl_sequence c' = scl_sequence c + 1"
        using Pair Inl
        by (auto simp: exchange_def next_sequence_def on_device_def handle_def mbind_run mguard_run
            split: sum.splits prod.splits option.splits if_splits dest: arg_cong [where f = "\<lambda>x. sd_completed (snd x)"]
            simp: dispatch_keeps_cache)
      then show ?thesis using that Pair by (fastforce simp: fresh_def)
    qed
  qed
  then show ?thesis by (simp add: keeps_def)
qed

section \<open>The client as a leasing device\<close>

text \<open>The lease of an unbounded schedule, at device times that are whole milliseconds.\<close>

definition sim_leased :: "SimulatedDeviceClient \<Rightarrow> HostPeriodicSchedule \<Rightarrow> int \<Rightarrow> int \<Rightarrow> bool" where
  "sim_leased c sch seq deadline \<longleftrightarrow> fresh c \<and> sd_boot_id (scl_device c) = Some (sch_boot_id sch) \<and>
     (\<exists>s. sd_schedule (scl_device c) = Some s \<and> ps_schedule_id s = sch_schedule_id sch \<and>
        ps_lease_sequence s = seq \<and> ps_lease_deadline_us s = 1000 * deadline \<and> ps_capture_count s = 0)"

definition sim_admits :: "SimulatedDeviceClient \<Rightarrow> HostPeriodicSchedule \<Rightarrow> bool" where
  "sim_admits c sch \<longleftrightarrow> fresh c \<and> sd_boot_id (scl_device c) = Some (sch_boot_id sch) \<and> sch_capture_count sch = 0"

definition sim_ops :: "int \<Rightarrow> SimulatedDeviceClient PeriodicDeviceClient" where
  "sim_ops now = \<lparr>pdc_start_periodic = client_start_periodic (1000 * now),
     pdc_renew_periodic = client_renew_periodic (1000 * now),
     pdc_stop_periodic = client_stop_periodic (1000 * now)\<rparr>"

definition sim_work :: "int \<Rightarrow> SimulatedDeviceClient \<Rightarrow> SimulatedDeviceClient" where
  "sim_work now c = snd (client_poll_captures (1000 * now) c)"

lemma take_captures_device: "scl_device (snd (take_captures frames c)) = scl_device c \<and>
    scl_sequence (snd (take_captures frames c)) = scl_sequence c"
proof -
  have "keeps (\<lambda>c'. scl_device c' = scl_device c \<and> scl_sequence c' = scl_sequence c) (take_captures frames)"
  proof (induction frames)
    case (Cons f fs)
    show ?case
      unfolding take_captures.simps keep_wire_frame_def by (intro keeps_rules; (rule Cons | simp)?)+
  qed (simp only: take_captures.simps keeps_basic)
  then show ?thesis by (auto dest: keepsD)
qed

lemma poll_device:
  "scl_device (snd (client_poll_captures clock c)) = snd (poll clock (scl_device c)) \<and>
   scl_sequence (snd (client_poll_captures clock c)) = scl_sequence c"
  using take_captures_device
  by (auto simp: client_poll_captures_def mbind_run on_device_def split: prod.splits sum.splits)

lemma poll_keeps_schedule:
  assumes "sd_schedule d = Some s" "0 \<le> clock" "clock < ps_lease_deadline_us s" "ps_capture_count s = 0"
  shows "\<exists>s'. sd_schedule (snd (poll clock d)) = Some s' \<and> ps_schedule_id s' = ps_schedule_id s \<and>
    ps_lease_sequence s' = ps_lease_sequence s \<and> ps_lease_deadline_us s' = ps_lease_deadline_us s \<and>
    ps_capture_count s' = 0 \<and> sd_boot_id (snd (poll clock d)) = sd_boot_id d"
  using assms
  by (auto simp: poll_def sim_run_simps complete_capture_def advance_schedule_def
      split: sum.splits prod.splits option.splits if_splits)

lemma renew_run:
  assumes "validate_schedule sch = Inr ()" "sim_leased c sch seq deadline" "0 \<le> now" "now < deadline"
    "0 \<le> seq" "seq < 0xFFFFFFFF"
  shows "\<exists>c'. client_renew_periodic (1000 * now) (next_renewal sch seq) c = (Inr (next_renewal sch seq), c') \<and>
    sim_leased c' sch (seq + 1) (now + sch_lease_timeout_ms sch)"
proof -
  obtain s where s: "sd_schedule (scl_device c) = Some s" "ps_schedule_id s = sch_schedule_id sch"
    "ps_lease_sequence s = seq" "ps_lease_deadline_us s = 1000 * deadline" "ps_capture_count s = 0"
    and b: "sd_boot_id (scl_device c) = Some (sch_boot_id sch)" and f: "fresh c"
    using assms(2) by (auto simp: sim_leased_def)
  have v: "length (sch_boot_id sch) = 16" "sch_boot_id sch \<noteq> replicate 16 0"
    "length (sch_schedule_id sch) = 16" "sch_schedule_id sch \<noteq> replicate 16 0"
    "1000 \<le> sch_lease_timeout_ms sch" "sch_lease_timeout_ms sch \<le> 10000"
    using assms(1) by (auto simp: validate_schedule_def split: if_splits)
  define m where "m = \<lparr>rl_boot_id = sch_boot_id sch, rl_schedule_id = sch_schedule_id sch,
     rl_lease_sequence = seq + 1, rl_lease_timeout_or_remaining_ms = sch_lease_timeout_ms sch\<rparr>"
  obtain p where p: "encode_renew_periodic_lease m = Inr p"
    using v assms(5,6)
    by (auto simp: encode_renew_periodic_lease_def m_def renew_periodic_tuple_def renew_periodic_layout_def
        codec_simps fits_packs)
  have dec: "decode_renew_periodic_lease p = Inr m" using p by (simp add: renew_periodic.dec_iff)
  let ?f = "request_frame c RENEW_PERIODIC_LEASE p"
  let ?s = "s\<lparr>ps_lease_sequence := seq + 1, ps_lease_deadline_us := 1000 * now + sch_lease_timeout_ms sch * 1000\<rparr>"
  have resp: "\<lparr>rl_boot_id = sch_boot_id sch, rl_schedule_id = ps_schedule_id ?s, rl_lease_sequence = ps_lease_sequence ?s,
      rl_lease_timeout_or_remaining_ms = max 0 ((ps_lease_deadline_us ?s - 1000 * now) div 1000)\<rparr> = m"
    using v(5) by (simp add: m_def s)
  have "dispatch (1000 * now) ?f (scl_device c) =
      (Inr [mk_frame RENEW_PERIODIC_LEASE (scl_sequence c + 1) p FLAG_RESPONSE], (scl_device c)\<lparr>sd_schedule := Some ?s\<rparr>)"
    using assms(3,4) dec b s(1) resp p
    by (simp add: dispatch_def request_frame_def mk_frame_def sim_renew_periodic_def sim_run_simps s(2-4)
        renew_schedule_def m_def)
  then obtain c' where c': "exchange (1000 * now) RENEW_PERIODIC_LEASE (encode_renew_periodic_lease m) c =
      (Inr [mk_frame RENEW_PERIODIC_LEASE (scl_sequence c + 1) p FLAG_RESPONSE], c')"
      "sd_schedule (scl_device c') = Some ?s" "sd_boot_id (scl_device c') = Some (sch_boot_id sch)"
    using exchange_ok_iff [OF f] p b by fastforce
  have "fresh c'" using keepsD [OF exchange_keeps_fresh f, of "1000 * now" RENEW_PERIODIC_LEASE "encode_renew_periodic_lease m"] c'(1)
    by simp
  then have "sim_leased c' sch (seq + 1) (now + sch_lease_timeout_ms sch)"
    using c' s by (simp add: sim_leased_def algebra_simps)
  moreover have "client_renew_periodic (1000 * now) (next_renewal sch seq) c = (Inr (next_renewal sch seq), c')"
    using c'(1) dec
    by (simp add: client_renew_periodic_def mbind_run next_renewal_def m_def require_count_def mguard_run mk_frame_def)
  ultimately show ?thesis by blast
qed

lemma start_run:
  assumes "validate_schedule sch = Inr ()" "sim_admits c sch" "0 \<le> now"
    "client_start_periodic (1000 * now) sch c = (Inr (), c')"
  shows "sim_leased c' sch 0 (now + sch_lease_timeout_ms sch)"
proof -
  obtain rid c1 where i: "new_identifier ''start-periodic'' c = (Inr rid, c1)"
    and f: "fresh c1" "scl_device c1 = scl_device c"
    using assms(2,4) by (auto simp: client_start_periodic_def mbind_ok_iff new_identifier_def sim_admits_def fresh_def)
  let ?m = "\<lparr>sp_request_id = rid, sp_schedule_id = sch_schedule_id sch,
      sp_expected_profile_sha256 = sch_profile_sha256 sch,
      sp_expected_device_config_crc32 = sch_device_config_crc32 sch, sp_period_us = sch_period_us sch,
      sp_capture_count = sch_capture_count sch, sp_lease_timeout_ms = sch_lease_timeout_ms sch\<rparr>"
  obtain rs c2 where x: "exchange (1000 * now) START_PERIODIC (encode_start_periodic_request ?m) c1 = (Inr rs, c2)"
    and r: "require_ack (hd rs) rid START_PERIODIC c2 = (Inr (), c')"
    using assms(4) i by (auto simp: client_start_periodic_def mbind_ok_iff require_count_def mguard_run split: if_splits)
  have dev: "scl_device c' = scl_device c2" "scl_sequence c' = scl_sequence c2"
    using r by (auto simp: require_ack_def mbind_run mguard_run split: sum.splits if_splits)
  obtain p d' where p: "encode_start_periodic_request ?m = Inr p"
    "dispatch (1000 * now) (request_frame c1 START_PERIODIC p) (scl_device c1) = (Inr rs, d')"
    "sd_schedule (scl_device c2) = sd_schedule d'" "sd_boot_id (scl_device c2) = sd_boot_id d'"
    using x exchange_ok_iff [OF f(1)] by auto
  have dec: "decode_start_periodic_request p = Inr ?m" using p(1) by (simp add: start_periodic.dec_iff)
  have pay: "payload (request_frame c1 START_PERIODIC p) = p" "message_type (request_frame c1 START_PERIODIC p) = START_PERIODIC"
    by (simp_all add: request_frame_def mk_frame_def)
  have "sd_boot_id d' = Some (sch_boot_id sch)" "\<exists>s. sd_schedule d' = Some s \<and> ps_schedule_id s = sch_schedule_id sch \<and>
      ps_lease_sequence s = 0 \<and> ps_lease_deadline_us s = 1000 * (now + sch_lease_timeout_ms sch) \<and> ps_capture_count s = 0"
    using p(2) assms(2,3)
    by (auto simp: dispatch_def pay sim_start_periodic_def mbind_ok_iff dec sim_helper_defs sim_ack_def mguard_run
        sim_admits_def f(2) algebra_simps split: if_splits option.splits)
  moreover have "fresh c2" using keepsD [OF exchange_keeps_fresh f(1), of "1000 * now" START_PERIODIC "encode_start_periodic_request ?m"] x
    by simp
  ultimately show ?thesis using p(3,4) dev by (simp add: sim_leased_def fresh_def)
qed

interpretation sim_lease: leasing_device sim_ops sim_work sim_admits sim_leased
proof
  fix sch :: HostPeriodicSchedule and c c' :: SimulatedDeviceClient and now seq deadline :: int
  show "sim_leased c' sch 0 (now + sch_lease_timeout_ms sch)"
    if "validate_schedule sch = Inr ()" "sim_admits c sch" "0 \<le> now"
      "pdc_start_periodic (sim_ops now) sch c = (Inr (), c')"
    using start_run that by (simp add: sim_ops_def)
  show "\<exists>response c'. pdc_renew_periodic (sim_ops now) (next_renewal sch seq) c = (Inr response, c') \<and>
      response_matches (next_renewal sch seq) response \<and> sim_leased c' sch (seq + 1) (now + sch_lease_timeout_ms sch)"
    if v: "validate_schedule sch = Inr ()" and "sim_leased c sch seq deadline" "0 \<le> now" "now < deadline"
      "0 \<le> seq" "seq < 0xFFFFFFFF"
  proof -
    have "response_matches (next_renewal sch seq) (next_renewal sch seq)"
      using v by (auto simp: response_matches_def next_renewal_def validate_schedule_def split: if_splits)
    then show ?thesis using renew_run [OF that] by (auto simp: sim_ops_def)
  qed
  show "sim_leased (sim_work now c) sch seq deadline" if "sim_leased c sch seq deadline" "0 \<le> now" "now < deadline"
  proof -
    from that(1) obtain s where s: "sd_schedule (scl_device c) = Some s" "ps_schedule_id s = sch_schedule_id sch"
      "ps_lease_sequence s = seq" "ps_lease_deadline_us s = 1000 * deadline" "ps_capture_count s = 0"
      by (auto simp: sim_leased_def)
    have "0 \<le> 1000 * now" "1000 * now < ps_lease_deadline_us s" using that(2,3) s(4) by simp_all
    from poll_keeps_schedule [OF s(1) this s(5)] that(1) s show ?thesis
      by (auto simp: sim_leased_def sim_work_def poll_device fresh_def poll_keeps_cache)
  qed
qed


section \<open>Properties\<close>

text \<open>C15 (liveness). The core keeps a periodic acquisition alive and nothing else does. Once a schedule without
  capture limit has been started on the device, and as long as the core's loop (renew if due, then
  poll) turns at least once in every \<open>timeout - interval\<close> milliseconds (two thirds of the lease
  timeout or more), no renewal is ever refused, the device still runs this schedule with the
  controller's sequence number, and its deadline lies after the last turn; but at most one timeout
  after it, so that a core that stops turning lets the lease run out.\<close>

theorem lease_survives_while_core_runs:
  assumes "lease_start (sim_ops t0) sch t0 s = (Inr (), s1)"
    and "fresh (plc_client s)" and "sd_boot_id (scl_device (plc_client s)) = Some (sch_boot_id sch)"
    and "sch_capture_count sch = 0"
    and "spaced (sch_lease_timeout_ms sch - renew_interval_ms sch) t0 ts" and "length ts \<le> 0xFFFFFFFF"
  shows "\<exists>bs s' d. lease_run sim_ops sim_work ts s1 = (Inr bs, s') \<and> plc_schedule s' = Some sch \<and>
    sd_schedule (scl_device (plc_client s')) = Some d \<and> ps_schedule_id d = sch_schedule_id sch \<and>
    ps_lease_sequence d = plc_lease_sequence s' \<and>
    1000 * last (t0 # ts) < ps_lease_deadline_us d \<and>
    ps_lease_deadline_us d \<le> 1000 * (last (t0 # ts) + sch_lease_timeout_ms sch)"
proof -
  have "sim_admits (plc_client s) sch" using assms(2-4) by (simp add: sim_admits_def)
  note st = sim_lease.start_then_leased [OF assms(1) this]
  have l: "sim_leased (plc_client s1) sch (plc_lease_sequence s1) (t0 + sch_lease_timeout_ms sch)"
    using st(2,6) by simp
  have q: "t0 + sch_lease_timeout_ms sch = plc_next_renewal_ms s1 + (sch_lease_timeout_ms sch - renew_interval_ms sch)"
    "t0 < plc_next_renewal_ms s1" "0 \<le> plc_lease_sequence s1"
    "plc_lease_sequence s1 + int (length ts) \<le> 0xFFFFFFFF"
    using st(2,5) renew_interval_bounds(1) [OF st(3)] assms(6) by simp_all
  obtain bs s' d' where "lease_run sim_ops sim_work ts s1 = (Inr bs, s')" "plc_schedule s' = Some sch"
    "sim_leased (plc_client s') sch (plc_lease_sequence s') d'"
    "last (t0 # ts) < d'" "d' \<le> last (t0 # ts) + sch_lease_timeout_ms sch"
    using sim_lease.run_keeps_lease [OF st(3,1) l q(1) st(4) q(2) order_refl assms(5) q(3,4)] by blast
  then show ?thesis by (auto simp: sim_leased_def)
qed

text \<open>When a device accepts a schedule.\<close>

lemma start_succeeds:
  assumes "validate_schedule sch = Inr ()" "fresh c" "0 \<le> now" "sd_boot_id (scl_device c) \<noteq> None"
    "sd_config (scl_device c) = Some cfg" "config_ok cfg" "sd_schedule (scl_device c) = None"
    "sch_profile_sha256 sch = profile_sha256 cfg" "sch_device_config_crc32 sch = device_config_crc32 cfg"
    "0 \<le> scl_identifier_counter c" "scl_identifier_counter c < 0xFFFFFFFF"
  shows "\<exists>c'. client_start_periodic (1000 * now) sch c = (Inr (), c')"
proof -
  obtain rid c1 where i: "new_identifier ''start-periodic'' c = (Inr rid, c1)" "length rid = 16"
    and f: "fresh c1" "scl_device c1 = scl_device c"
    using assms(2,10,11) by (auto simp: new_identifier_def mbind_run to_bytes_4_little_def fresh_def)
  let ?m = "\<lparr>sp_request_id = rid, sp_schedule_id = sch_schedule_id sch,
      sp_expected_profile_sha256 = sch_profile_sha256 sch,
      sp_expected_device_config_crc32 = sch_device_config_crc32 sch, sp_period_us = sch_period_us sch,
      sp_capture_count = sch_capture_count sch, sp_lease_timeout_ms = sch_lease_timeout_ms sch\<rparr>"
  have crc: "0 \<le> device_config_crc32 cfg" "device_config_crc32 cfg < 4294967296"
    using assms(6) by (simp_all add: config_ok_def)
  obtain p where p: "encode_start_periodic_request ?m = Inr p"
    using assms(1,8,9) i(2) crc
    by (auto simp: encode_start_periodic_request_def start_periodic_tuple_def start_periodic_layout_def
        validate_schedule_def codec_simps fits_packs split: if_splits)
  have dec: "decode_start_periodic_request p = Inr ?m" using p by (simp add: start_periodic.dec_iff)
  let ?a = "\<lparr>ack_request_id = rid, ack_acked_type = type_code START_PERIODIC, ack_resulting_state = PERIODIC_STATE,
      ack_status_code = 0, ack_device_config_crc32 = device_config_crc32 cfg\<rparr>"
  obtain q where q: "encode_ack ?a = Inr q"
    using i(2) crc by (auto simp: encode_ack_def ack_tuple_def ack_layout_def sim_consts codec_simps fits_packs)
  have deca: "decode_ack q = Inr ?a" using q by (simp add: ack.dec_iff)
  obtain d' where "dispatch (1000 * now) (request_frame c1 START_PERIODIC p) (scl_device c1) =
      (Inr [mk_frame ACK (scl_sequence c1 + 1) q FLAG_RESPONSE], d')"
    using assms(1,3-5,7-9) dec q f(2)
    by (auto simp: dispatch_def request_frame_def mk_frame_def sim_start_periodic_def sim_run_simps
        validate_schedule_def split: if_splits)
  then obtain c2 where "exchange (1000 * now) START_PERIODIC (encode_start_periodic_request ?m) c1 =
      (Inr [mk_frame ACK (scl_sequence c1 + 1) q FLAG_RESPONSE], c2)"
    using exchange_ok_iff [OF f(1)] p by fastforce
  then show ?thesis
    using i(1) deca
    by (simp add: client_start_periodic_def mbind_run require_count_def mguard_run require_ack_def mk_frame_def)
qed

definition demo_client :: SimulatedDeviceClient where
  "demo_client = new_client (new_device\<lparr>sd_boot_id := Some (replicate 16 7), sd_config := Some demo_config\<rparr>)"

definition demo_lease :: HostPeriodicSchedule where
  "demo_lease = \<lparr>sch_boot_id = replicate 16 7, sch_schedule_id = replicate 16 2,
     sch_profile_sha256 = profile_sha256 demo_config, sch_device_config_crc32 = device_config_crc32 demo_config,
     sch_period_us = 100000, sch_capture_count = 0, sch_lease_timeout_ms = 3000\<rparr>"

theorem lease_survives_while_core_runs_witness:
  "\<exists>s1 bs s'. lease_start (sim_ops 0) demo_lease 0 (new_controller demo_client) = (Inr (), s1) \<and>
     lease_run sim_ops sim_work [900, 1800, 3500] s1 = (Inr bs, s') \<and> plc_schedule s' = Some demo_lease"
proof -
  have len: "length (profile_sha256 demo_config) = 32" by (simp add: demo_config_def with_digests_def)
  then have v: "validate_schedule demo_lease = Inr ()"
    by (simp add: validate_schedule_def demo_lease_def replicate_eq_replicate)
  have f: "fresh demo_client" by (simp add: fresh_def demo_client_def new_client_def new_device_def)
  obtain c' where c': "client_start_periodic 0 demo_lease demo_client = (Inr (), c')"
    using start_succeeds [OF v f, of 0 demo_config] demo_config_ok(1)
    by (auto simp: demo_client_def new_client_def new_device_def demo_lease_def)
  then obtain s1 where s1: "lease_start (sim_ops 0) demo_lease 0 (new_controller demo_client) = (Inr (), s1)"
    using v by (simp add: lease_start_def mbind_run mguard_run on_client_def new_controller_def sim_ops_def)
  from lease_survives_while_core_runs [OF s1, of "[900, 1800, 3500]"] f
  obtain bs s' where "lease_run sim_ops sim_work [900, 1800, 3500] s1 = (Inr bs, s')" "plc_schedule s' = Some demo_lease"
    by (auto simp: new_controller_def demo_client_def new_client_def demo_lease_def renew_interval_ms_def)
  then show ?thesis using s1 by blast
qed

end
