(* ===== verification/Core_Store.thy ===== *)
theory Core_Store
  imports Spool Bridge_Messages Py_Values Hex Save_Policy
begin

text \<open>
  The core's capture archive (\<open>core_store.py\<close>). Every SQLite table is a list of rows in insertion
  order, with explicit row ids where the code uses them; a public operation is one transaction, so
  an exception leaves the tables as they were. JSON columns hold the decoded dictionary, since every
  text the store writes is read back with \<open>json.loads\<close>. Integer parameters outside 64 bits raise
  \<open>OverflowError\<close>, as SQLite's binding does. Files, PRAGMAs and schema creation are not modelled.
\<close>

section \<open>Tables\<close>

record ConfigContext =
  cc_profile_sha256 :: bytes
  cc_device_config_crc32 :: int
  cc_request_id :: bytes
  cc_requested :: "pyobj dict"
  cc_encoded :: "pyobj dict"
  cc_readback :: "pyobj dict"
  cc_actual :: "pyobj dict"
  cc_run_plan :: "pyobj dict"

record ArchivedCapture =
  ar_row_id :: int
  ar_device_id :: bytes
  ar_boot_id :: bytes
  ar_capture_id :: bytes
  ar_request_id :: bytes
  ar_schedule_id :: bytes
  ar_profile_sha256 :: bytes
  ar_device_config_crc32 :: int
  ar_capture_sequence :: int
  ar_sample_interval_ticks :: int
  ar_burst_period_ticks :: int
  ar_sample_count :: int
  ar_pretrigger_count :: int
  ar_quality_flags :: int
  ar_tuss_dev_stat :: int
  ar_source_connection_id :: int
  ar_source_first_stream_offset :: int
  ar_source_last_stream_offset :: int
  ar_bridge_spool_record_id :: int
  ar_inner_frame_crc32 :: int
  ar_wire_frame :: bytes
  ar_sample_blob :: bytes
  ar_configuration :: "pyobj dict"
  ar_requested :: "pyobj dict"
  ar_encoded :: "pyobj dict"
  ar_readback :: "pyobj dict"
  ar_actual :: "pyobj dict"
  ar_run_plan :: "pyobj dict"
  ar_adc_clipping :: bool
  ar_transport_crc32 :: int
  ar_stored_utc_ns :: int
  ar_session_id :: string
  ar_group_id :: "string option"

record StoredEvent =
  se_capture_row_id :: int
  se_ordinal :: int
  se_event :: CaptureEvent

record ResolutionRow =
  rs_row_id :: int
  rs_device_id :: bytes
  rs_boot_id :: bytes
  rs_capture_id :: bytes
  rs_inner_frame_crc32 :: int
  rs_inner_frame_sha256 :: bytes
  rs_resolution :: CaptureResolution
  rs_session_id :: string
  rs_resolved_utc_ns :: int

text \<open>The seven delivery columns of \<open>session_latest_captures\<close> are kept as one delivery.\<close>

record LatestCapture =
  lc_session_id :: string
  lc_delivery :: BridgeCaptureDelivery
  lc_group_id :: "string option"

text \<open>A session summary, by the keys the store reads or writes; the rest is carried along.\<close>

record SessionSummary =
  sm_session_id :: string
  sm_state :: string
  sm_save_policy :: string
  sm_acquired_count :: "int option"
  sm_capture_count :: "int option"
  sm_last_capture_id :: "string option"
  sm_saved_count :: "int option"
  sm_discarded_by_policy_count :: "int option"
  sm_last_saved_capture_id :: "string option"
  sm_terminal_reason :: "string option"
  sm_started_utc_ns :: "int option"
  sm_finished_utc_ns :: "int option"
  sm_other :: "pyobj dict"

record SessionRow =
  sn_session_id :: string
  sn_state :: string
  sn_save_policy :: string
  sn_summary :: SessionSummary
  sn_updated_utc_ns :: int

record DeliveryStats =
  dt_session_id :: string
  dt_acquired_count :: int
  dt_last_capture_id :: bytes

record PolicyContext =
  po_rowid :: int
  po_device_id :: bytes
  po_boot_id :: bytes
  po_session_id :: string
  po_save_policy :: SavePolicy
  po_group_id :: "string option"

record ExperimentRow =
  ex_experiment_id :: string
  ex_name :: string
  ex_notes :: string
  ex_created_utc_ns :: int
  ex_updated_utc_ns :: int

record GroupRow =
  gr_group_id :: string
  gr_experiment_id :: string
  gr_name :: string
  gr_cell_id :: string
  gr_notes :: string
  gr_created_utc_ns :: int
  gr_updated_utc_ns :: int

record CaptureStore =
  db_captures :: "ArchivedCapture list"
  db_last_capture_row :: int
  db_events :: "StoredEvent list"
  db_contexts :: "ConfigContext list"
  db_resolutions :: "ResolutionRow list"
  db_last_resolution_row :: int
  db_latest :: "LatestCapture list"
  db_sessions :: "SessionRow list"
  db_stats :: "DeliveryStats list"
  db_policies :: "PolicyContext list"
  db_experiments :: "ExperimentRow list"
  db_groups :: "GroupRow list"

definition new_store :: CaptureStore where
  "new_store = \<lparr>db_captures = [], db_last_capture_row = 0, db_events = [], db_contexts = [],
     db_resolutions = [], db_last_resolution_row = 0, db_latest = [], db_sessions = [], db_stats = [],
     db_policies = [], db_experiments = [], db_groups = []\<rparr>"

type_synonym 'a db = "(CaptureStore, 'a) meth"

text \<open>\<open>with self._connect() as connection\<close>: commit on return, roll back on an exception.\<close>

definition transaction :: "'a db \<Rightarrow> 'a db" where
  "transaction m s = (case m s of (Inr x, s') \<Rightarrow> (Inr x, s') | (Inl e, _) \<Rightarrow> (Inl e, s))"

text \<open>\<open>INSERT ... ON CONFLICT(key) DO UPDATE\<close>\<close>

definition upsert :: "('r \<Rightarrow> 'k) \<Rightarrow> 'r \<Rightarrow> 'r list \<Rightarrow> 'r list" where
  "upsert key r rows =
     (if list_ex (\<lambda>x. key x = key r) rows then map (\<lambda>x. if key x = key r then r else x) rows
      else rows @ [r])"

definition bind_ints :: "int list \<Rightarrow> unit db" where
  "bind_ints xs = mguard (list_all sqlite_int xs) OverflowError"

section \<open>Identifiers\<close>

definition validate_entity_id :: "string \<Rightarrow> string res" where
  "validate_entity_id value =
     (if length value \<noteq> 32 \<or> \<not> set value \<subseteq> set ''0123456789abcdef'' then Inl ValueError else Inr value)"

definition normalize_session_id :: "string option \<Rightarrow> string res" where
  "normalize_session_id session_id =
     (case session_id of
        None \<Rightarrow> Inr []
      | Some text \<Rightarrow>
          if text = [] then Inr []
          else rbind (fromhex text) (\<lambda>raw.
            if length raw \<noteq> 16 then Inl ValueError else Inr (py_hex raw)))"

text \<open>\<open>self._normalize_session_id(run_plan.get("session_id", ""))\<close> on decoded JSON.\<close>

definition run_plan_session :: "pyobj dict \<Rightarrow> string res" where
  "run_plan_session run_plan =
     (case map_of run_plan ''session_id'' of
        None \<Rightarrow> Inr []
      | Some v \<Rightarrow>
          if \<not> py_truth v then Inr []
          else (case v of OStr text \<Rightarrow> normalize_session_id (Some text) | _ \<Rightarrow> Inl TypeError))"

definition validate_group_target :: "string option \<Rightarrow> string option db" where
  "validate_group_target group_id =
     (case group_id of
        None \<Rightarrow> mret None
      | Some g \<Rightarrow>
          mbind (mlift (validate_entity_id g)) (\<lambda>g.
          mbind mget (\<lambda>s.
          mbind (mguard (list_ex (\<lambda>r. gr_group_id r = g) (db_groups s)) KeyError) (\<lambda>_.
          mret (Some g)))))"

definition store_receipt :: "BridgeCaptureDelivery \<Rightarrow> CaptureData \<Rightarrow> int \<Rightarrow> CaptureCommittedRequest" where
  "store_receipt delivery capture inner_crc =
     \<lparr>cq_connection_id = bd_connection_id delivery, cq_spool_record_id = bd_spool_record_id delivery,
      cq_device_id = cd_device_id capture, cq_boot_id = cd_boot_id capture,
      cq_capture_id = cd_capture_id capture, cq_inner_frame_crc32 = inner_crc\<rparr>"

section \<open>Configuration contexts\<close>

type_synonym context_key = "bytes \<times> int \<times> bytes"

definition context_key :: "ConfigContext \<Rightarrow> context_key" where
  "context_key c = (cc_profile_sha256 c, cc_device_config_crc32 c, cc_request_id c)"

definition capture_context_key :: "CaptureData \<Rightarrow> context_key" where
  "capture_context_key c = (cd_profile_sha256 c, cd_device_config_crc32 c, cd_request_id c)"

definition save_configuration_context :: "ConfigContext \<Rightarrow> unit db" where
  "save_configuration_context c =
     mbind (mguard (length (cc_profile_sha256 c) = 32) ValueError) (\<lambda>_.
     mbind (mguard (length (cc_request_id c) = 16) ValueError) (\<lambda>_.
     transaction (
       mbind (bind_ints [cc_device_config_crc32 c]) (\<lambda>_.
       mupd (\<lambda>s. s\<lparr>db_contexts := upsert context_key c (db_contexts s)\<rparr>)))))"

definition drop_context :: "context_key \<Rightarrow> CaptureStore \<Rightarrow> CaptureStore" where
  "drop_context k s = s\<lparr>db_contexts := filter (\<lambda>c. context_key c \<noteq> k) (db_contexts s)\<rparr>"

definition delete_context :: "context_key \<Rightarrow> unit db" where
  "delete_context k = mupd (drop_context k)"

definition configuration_json :: "CaptureData \<Rightarrow> pyobj dict" where
  "configuration_json c =
     [(''profile_sha256'', OStr (py_hex (cd_profile_sha256 c))),
      (''device_config_crc32'', OInt (cd_device_config_crc32 c)),
      (''sample_interval_ticks'', OInt (cd_sample_interval_ticks c)),
      (''burst_period_ticks'', OInt (cd_burst_period_ticks c)),
      (''sample_count'', OInt (cd_sample_count c)), (''pretrigger_count'', OInt (cd_pretrigger_count c)),
      (''register_pairs'', OList (map (\<lambda>(a, v). OList [OInt a, OInt v]) (cd_register_pairs c)))]"

section \<open>Archiving\<close>

definition po_key :: "PolicyContext \<Rightarrow> bytes \<times> bytes" where
  "po_key p = (po_device_id p, po_boot_id p)"

definition ar_key :: "ArchivedCapture \<Rightarrow> capture_key" where
  "ar_key r = (ar_device_id r, ar_boot_id r, ar_capture_id r)"

definition rs_key :: "ResolutionRow \<Rightarrow> capture_key" where
  "rs_key r = (rs_device_id r, rs_boot_id r, rs_capture_id r)"

definition cd_key :: "CaptureData \<Rightarrow> capture_key" where
  "cd_key c = (cd_device_id c, cd_boot_id c, cd_capture_id c)"

definition archive_row ::
  "int \<Rightarrow> BridgeCaptureDelivery \<Rightarrow> Frame \<Rightarrow> CaptureData \<Rightarrow> int \<Rightarrow> ConfigContext option \<Rightarrow> string \<Rightarrow> string option
     \<Rightarrow> ArchivedCapture" where
  "archive_row row_id delivery frame capture inner_crc context session_id group_id =
     \<lparr>ar_row_id = row_id, ar_device_id = cd_device_id capture, ar_boot_id = cd_boot_id capture,
      ar_capture_id = cd_capture_id capture, ar_request_id = cd_request_id capture,
      ar_schedule_id = cd_schedule_id capture, ar_profile_sha256 = cd_profile_sha256 capture,
      ar_device_config_crc32 = cd_device_config_crc32 capture,
      ar_capture_sequence = cd_capture_sequence capture,
      ar_sample_interval_ticks = cd_sample_interval_ticks capture,
      ar_burst_period_ticks = cd_burst_period_ticks capture, ar_sample_count = cd_sample_count capture,
      ar_pretrigger_count = cd_pretrigger_count capture, ar_quality_flags = cd_quality_flags capture,
      ar_tuss_dev_stat = cd_tuss_dev_stat capture,
      ar_source_connection_id = bd_source_connection_id delivery,
      ar_source_first_stream_offset = bd_source_first_stream_offset delivery,
      ar_source_last_stream_offset = bd_source_last_stream_offset delivery,
      ar_bridge_spool_record_id = bd_spool_record_id delivery,
      ar_inner_frame_crc32 = inner_crc, ar_wire_frame = bd_inner_frame delivery,
      ar_sample_blob = (let n = nat (cd_sample_count capture * 2)
         in if n = 0 then [] else drop (length (payload frame) - n) (payload frame)),
      ar_configuration = configuration_json capture,
      ar_requested = (case context of None \<Rightarrow> [] | Some c \<Rightarrow> cc_requested c),
      ar_encoded = (case context of None \<Rightarrow> configuration_json capture | Some c \<Rightarrow> cc_encoded c),
      ar_readback = (case context of None \<Rightarrow> [] | Some c \<Rightarrow> cc_readback c),
      ar_actual = (case context of None \<Rightarrow> [] | Some c \<Rightarrow> cc_actual c),
      ar_run_plan = (case context of None \<Rightarrow> [] | Some c \<Rightarrow> cc_run_plan c),
      ar_adc_clipping = list_ex (\<lambda>x. x = 0 \<or> x = 2 ^ nat (cd_adc_bits capture) - 1) (cd_samples capture),
      ar_transport_crc32 = inner_crc, ar_stored_utc_ns = bd_stored_utc_ns delivery, ar_session_id = session_id, ar_group_id = group_id\<rparr>"

definition event_rows :: "int \<Rightarrow> CaptureEvent list \<Rightarrow> StoredEvent list" where
  "event_rows row_id events =
     map (\<lambda>(i, e). \<lparr>se_capture_row_id = row_id, se_ordinal = int i, se_event = e\<rparr>) (enumerate 0 events)"

definition archive_delivery ::
  "BridgeCaptureDelivery \<Rightarrow> Frame \<Rightarrow> CaptureData \<Rightarrow> int \<Rightarrow> string \<Rightarrow> string option \<Rightarrow> bool db" where
  "archive_delivery delivery frame capture inner_crc forced_session_id group_id =
     mbind (validate_group_target group_id) (\<lambda>normalized_group_id.
     mbind mget (\<lambda>s.
     let context = find (\<lambda>c. context_key c = capture_context_key capture) (db_contexts s);
         run_plan = (case context of None \<Rightarrow> [] | Some c \<Rightarrow> cc_run_plan c) in
     mbind (mlift (if forced_session_id \<noteq> [] then Inr forced_session_id else run_plan_session run_plan)) (\<lambda>session_id.
     case find (\<lambda>r. ar_key r = cd_key capture) (db_captures s) of
       Some existing \<Rightarrow>
         mbind (mguard (ar_inner_frame_crc32 existing = inner_crc \<and>
                  ar_wire_frame existing = bd_inner_frame delivery) StorageConflictError) (\<lambda>_.
         mret False)
     | None \<Rightarrow>
         mbind (bind_ints [bd_source_connection_id delivery, bd_source_first_stream_offset delivery,
                  bd_source_last_stream_offset delivery, bd_spool_record_id delivery,
                  bd_stored_utc_ns delivery]) (\<lambda>_.
         let row_id = db_last_capture_row s + 1 in
         mbind (mupd (\<lambda>s. s\<lparr>
             db_captures := db_captures s @
               [archive_row row_id delivery frame capture inner_crc context session_id normalized_group_id],
             db_last_capture_row := row_id,
             db_events := db_events s @ event_rows row_id (cd_events capture)\<rparr>)) (\<lambda>_.
         mret True)))))"

section \<open>Resolutions\<close>

definition RESOLUTION_LIMIT :: nat where "RESOLUTION_LIMIT = 4096"

definition newest_rows :: "ResolutionRow list \<Rightarrow> ResolutionRow list" where
  "newest_rows rows =
     (let newest = take RESOLUTION_LIMIT (rev (sort (map rs_row_id rows)))
      in filter (\<lambda>r. rs_row_id r \<in> set newest) rows)"

definition pruned :: "CaptureStore \<Rightarrow> CaptureStore" where
  "pruned s = s\<lparr>db_resolutions := newest_rows (db_resolutions s)\<rparr>"

definition prune_resolutions :: "unit db" where
  "prune_resolutions = mupd pruned"

definition with_resolution ::
  "CaptureData \<Rightarrow> int \<Rightarrow> bytes \<Rightarrow> CaptureResolution \<Rightarrow> string \<Rightarrow> int \<Rightarrow> CaptureStore \<Rightarrow> CaptureStore" where
  "with_resolution capture inner_crc inner_sha resolution session_id utc_ns s = s\<lparr>
     db_resolutions := db_resolutions s @
       [\<lparr>rs_row_id = db_last_resolution_row s + 1, rs_device_id = cd_device_id capture,
         rs_boot_id = cd_boot_id capture, rs_capture_id = cd_capture_id capture,
         rs_inner_frame_crc32 = inner_crc, rs_inner_frame_sha256 = inner_sha,
         rs_resolution = resolution, rs_session_id = session_id, rs_resolved_utc_ns = utc_ns\<rparr>],
     db_last_resolution_row := db_last_resolution_row s + 1\<rparr>"

definition insert_resolution ::
  "CaptureData \<Rightarrow> int \<Rightarrow> bytes \<Rightarrow> CaptureResolution \<Rightarrow> string \<Rightarrow> int \<Rightarrow> unit db" where
  "insert_resolution capture inner_crc inner_sha resolution session_id utc_ns =
     mbind (bind_ints [inner_crc, utc_ns]) (\<lambda>_.
     mupd (with_resolution capture inner_crc inner_sha resolution session_id utc_ns))"

definition counted :: "string \<Rightarrow> bytes \<Rightarrow> CaptureStore \<Rightarrow> CaptureStore" where
  "counted session_id capture_id s = s\<lparr>db_stats :=
     (case find (\<lambda>d. dt_session_id d = session_id) (db_stats s) of
        None \<Rightarrow> db_stats s @ [\<lparr>dt_session_id = session_id, dt_acquired_count = 1, dt_last_capture_id = capture_id\<rparr>]
      | Some _ \<Rightarrow> map (\<lambda>d. if dt_session_id d = session_id
          then d\<lparr>dt_acquired_count := dt_acquired_count d + 1, dt_last_capture_id := capture_id\<rparr> else d)
          (db_stats s))\<rparr>"

definition count_delivery :: "string \<Rightarrow> bytes \<Rightarrow> unit db" where
  "count_delivery session_id capture_id = mupd (counted session_id capture_id)"

definition update_resolutions :: "(ResolutionRow \<Rightarrow> bool) \<Rightarrow> CaptureResolution \<Rightarrow> unit db" where
  "update_resolutions P resolution = mupd (\<lambda>s. s\<lparr>db_resolutions :=
     map (\<lambda>r. if P r then r\<lparr>rs_resolution := resolution\<rparr> else r) (db_resolutions s)\<rparr>)"

section \<open>Committing a delivery\<close>

record CoreCommitResult =
  ccr_receipt :: CaptureCommittedRequest
  ccr_inserted :: bool
  ccr_resolution :: CaptureResolution

definition open_delivery :: "BridgeCaptureDelivery \<Rightarrow> (Frame \<times> CaptureData) res" where
  "open_delivery delivery =
     rbind (encode_bridge_capture_delivery delivery) (\<lambda>_.
     rbind (decode_frame (bd_inner_frame delivery)) (\<lambda>frame.
     rbind (decode_capture_data (payload frame)) (\<lambda>capture.
     Inr (frame, capture))))"

text \<open>The SAVE\_LAST branch: the rolling row is replaced and the context of the frame it replaces goes.\<close>

definition roll_latest :: "BridgeCaptureDelivery \<Rightarrow> CaptureData \<Rightarrow> string \<Rightarrow> string option \<Rightarrow> unit db" where
  "roll_latest delivery capture session group_id =
     mbind mget (\<lambda>s.
     let previous_row = find (\<lambda>r. lc_session_id r = session) (db_latest s) in
     mbind (bind_ints [bd_connection_id delivery, bd_spool_record_id delivery,
              bd_source_connection_id delivery, bd_source_first_stream_offset delivery,
              bd_source_last_stream_offset delivery, bd_stored_utc_ns delivery]) (\<lambda>_.
     mbind (mupd (\<lambda>s. s\<lparr>db_latest := upsert lc_session_id
              \<lparr>lc_session_id = session, lc_delivery = delivery, lc_group_id = group_id\<rparr> (db_latest s)\<rparr>)) (\<lambda>_.
     case previous_row of
       None \<Rightarrow> mret ()
     | Some row \<Rightarrow>
         mbind (mlift (decode_frame (bd_inner_frame (lc_delivery row)))) (\<lambda>frame.
         mbind (mlift (decode_capture_data (payload frame))) (\<lambda>previous.
         if capture_context_key previous \<noteq> capture_context_key capture
         then delete_context (capture_context_key previous) else mret ())))))"

definition resolve_new ::
  "SavePolicy \<Rightarrow> string \<Rightarrow> string option \<Rightarrow> BridgeCaptureDelivery \<Rightarrow> Frame \<Rightarrow> CaptureData \<Rightarrow> int
     \<Rightarrow> (bool \<times> CaptureResolution) db" where
  "resolve_new policy session group_id delivery frame capture inner_crc =
     (case policy of
        SAVE_ALL \<Rightarrow>
          mbind (archive_delivery delivery frame capture inner_crc session group_id) (\<lambda>inserted.
          mret (inserted, RAW_ARCHIVED))
      | SAVE_LAST \<Rightarrow>
          mbind (roll_latest delivery capture session group_id) (\<lambda>_. mret (True, ROLLING_LATEST))
      | SAVE_NONE \<Rightarrow> mret (True, DISCARDED_BY_POLICY))"

definition commit_in_connection ::
  "BridgeCaptureDelivery \<Rightarrow> SavePolicy \<Rightarrow> string \<Rightarrow> string option \<Rightarrow> Frame \<Rightarrow> CaptureData \<Rightarrow> CoreCommitResult db" where
  "commit_in_connection delivery policy session group_id frame capture =
     (let inner_crc = crc32_iso_hdlc (bd_inner_frame delivery); inner_sha = sha256 (bd_inner_frame delivery) in
      mbind (validate_group_target group_id) (\<lambda>normalized_group_id.
      mbind mget (\<lambda>s.
      mbind (case find (\<lambda>r. rs_key r = cd_key capture) (db_resolutions s) of
               Some existing \<Rightarrow>
                 mbind (mguard (rs_inner_frame_crc32 existing = inner_crc \<and>
                          rs_inner_frame_sha256 existing = inner_sha) StorageConflictError) (\<lambda>_.
                 mret (False, rs_resolution existing))
             | None \<Rightarrow>
                 mbind (resolve_new policy session normalized_group_id delivery frame capture inner_crc) (\<lambda>(inserted, resolution).
                 mbind (insert_resolution capture inner_crc inner_sha resolution session
                          (bd_stored_utc_ns delivery)) (\<lambda>_.
                 mbind (if session \<noteq> [] then count_delivery session (cd_capture_id capture) else mret ()) (\<lambda>_.
                 mbind prune_resolutions (\<lambda>_.
                 mret (inserted, resolution)))))) (\<lambda>(inserted, resolution).
      mbind (if resolution \<noteq> ROLLING_LATEST then delete_context (capture_context_key capture) else mret ()) (\<lambda>_.
      mret \<lparr>ccr_receipt = store_receipt delivery capture inner_crc, ccr_inserted = inserted,
            ccr_resolution = resolution\<rparr>)))))"

definition commit_arguments ::
  "BridgeCaptureDelivery \<Rightarrow> string \<Rightarrow> string option \<Rightarrow> (SavePolicy \<times> string \<times> Frame \<times> CaptureData) res" where
  "commit_arguments delivery save_policy session_id =
     rbind (policy_of save_policy) (\<lambda>policy.
     rbind (normalize_session_id session_id) (\<lambda>session.
     if policy \<noteq> SAVE_ALL \<and> session = [] then Inl ValueError
     else rbind (open_delivery delivery) (\<lambda>(frame, capture). Inr (policy, session, frame, capture))))"

definition commit_delivery ::
  "BridgeCaptureDelivery \<Rightarrow> string \<Rightarrow> string option \<Rightarrow> string option \<Rightarrow> CoreCommitResult db" where
  "commit_delivery delivery save_policy session_id group_id =
     mbind (mlift (commit_arguments delivery save_policy session_id)) (\<lambda>(policy, session, frame, capture).
     transaction (commit_in_connection delivery policy session group_id frame capture))"

section \<open>What a run of an operation is\<close>

lemma transaction_ok [simp]: "transaction m s = (Inr x, s') \<longleftrightarrow> m s = (Inr x, s')"
  by (auto simp: transaction_def split: prod.splits sum.splits)

lemma transaction_error: "transaction m s = (Inl e, s') \<longleftrightarrow> s' = s \<and> (\<exists>t. m s = (Inl e, t))"
  by (auto simp: transaction_def split: prod.splits sum.splits)

lemma bind_ints_ok: "bind_ints xs s = (Inr u, s') \<longleftrightarrow> s' = s \<and> list_all sqlite_int xs"
  by (auto simp: bind_ints_def mguard_run)

lemma mguard_ok: "mguard b e s = (Inr u, s') \<longleftrightarrow> s' = s \<and> b"
  by (auto simp: mguard_run)

lemma validate_group_target_ok:
  "validate_group_target g s = (Inr h, s') \<Longrightarrow> h = g \<and> s' = s"
  by (auto simp: validate_group_target_def validate_entity_id_def mbind_ok_iff mguard_ok
      split: option.splits if_splits)

lemma archive_delivery_ok:
  assumes "archive_delivery d f c crc sess g s = (Inr inserted, s')"
  obtains (known) row where "\<not> inserted" "s' = s" "row \<in> set (db_captures s)" "ar_key row = cd_key c"
      "ar_wire_frame row = bd_inner_frame d" "ar_inner_frame_crc32 row = crc"
    | (fresh) ctx session where "inserted" "cd_key c \<notin> ar_key ` set (db_captures s)"
      "s' = s\<lparr>db_captures := db_captures s @
               [archive_row (db_last_capture_row s + 1) d f c crc ctx session g],
             db_last_capture_row := db_last_capture_row s + 1,
             db_events := db_events s @ event_rows (db_last_capture_row s + 1) (cd_events c)\<rparr>"
      "sess \<noteq> [] \<Longrightarrow> session = sess"
proof (cases "find (\<lambda>r. ar_key r = cd_key c) (db_captures s)")
  case (Some row)
  then have "row \<in> set (db_captures s)" "ar_key row = cd_key c" by (auto dest: find_SomeD)
  then show thesis
    using assms Some known
    by (auto simp: archive_delivery_def mbind_ok_iff mguard_ok Let_def
        dest!: validate_group_target_ok split: if_splits)
next
  case None
  then have key: "cd_key c \<notin> ar_key ` set (db_captures s)" by (auto simp: find_None_iff)
  let ?ctx = "find (\<lambda>x. context_key x = capture_context_key c) (db_contexts s)"
  from assms None obtain session where "inserted"
    "sess \<noteq> [] \<longrightarrow> session = sess"
    "s' = s\<lparr>db_captures := db_captures s @
               [archive_row (db_last_capture_row s + 1) d f c crc ?ctx session g],
             db_last_capture_row := db_last_capture_row s + 1,
             db_events := db_events s @ event_rows (db_last_capture_row s + 1) (cd_events c)\<rparr>"
    by (cases "sess = []") (auto simp: archive_delivery_def mbind_ok_iff mguard_ok bind_ints_ok Let_def
        dest!: validate_group_target_ok)
  then show thesis using key fresh [of ?ctx session] by blast
qed

text \<open>The one tombstone insertion of a commit, with the accounting and the pruning that follow.\<close>

definition settled ::
  "BridgeCaptureDelivery \<Rightarrow> CaptureData \<Rightarrow> bool \<Rightarrow> string \<Rightarrow> CaptureResolution \<Rightarrow> CaptureStore \<Rightarrow> CaptureStore" where
  "settled d c counts session resolution s =
     pruned ((if counts then counted session (cd_capture_id c) else id)
       (with_resolution c (crc32_iso_hdlc (bd_inner_frame d)) (sha256 (bd_inner_frame d)) resolution session
          (bd_stored_utc_ns d) s))"

definition trimmed :: "CaptureData \<Rightarrow> CaptureResolution \<Rightarrow> CaptureStore \<Rightarrow> CaptureStore" where
  "trimmed c resolution s =
     (if resolution \<noteq> ROLLING_LATEST then drop_context (capture_context_key c) s else s)"

definition tombstone_for :: "BridgeCaptureDelivery \<Rightarrow> CaptureData \<Rightarrow> ResolutionRow \<Rightarrow> bool" where
  "tombstone_for d c t \<longleftrightarrow> rs_key t = cd_key c \<and>
     rs_inner_frame_crc32 t = crc32_iso_hdlc (bd_inner_frame d) \<and>
     rs_inner_frame_sha256 t = sha256 (bd_inner_frame d)"

lemma commit_in_connection_ok:
  assumes "commit_in_connection d pol sess g f c s = (Inr r, s')"
  obtains (known) t where "t \<in> set (db_resolutions s)" "tombstone_for d c t"
      "r = \<lparr>ccr_receipt = store_receipt d c (crc32_iso_hdlc (bd_inner_frame d)), ccr_inserted = False,
            ccr_resolution = rs_resolution t\<rparr>"
      "s' = trimmed c (rs_resolution t) s"
    | (fresh) inserted resolution s1 where "cd_key c \<notin> rs_key ` set (db_resolutions s)"
      "resolve_new pol sess g d f c (crc32_iso_hdlc (bd_inner_frame d)) s = (Inr (inserted, resolution), s1)"
      "r = \<lparr>ccr_receipt = store_receipt d c (crc32_iso_hdlc (bd_inner_frame d)), ccr_inserted = inserted,
            ccr_resolution = resolution\<rparr>"
      "s' = trimmed c resolution (settled d c (sess \<noteq> []) sess resolution s1)"
proof (cases "find (\<lambda>r. rs_key r = cd_key c) (db_resolutions s)")
  case (Some t)
  then have "t \<in> set (db_resolutions s)" "rs_key t = cd_key c" by (auto dest: find_SomeD)
  then show thesis
    using assms Some known [of t]
    by (auto simp: commit_in_connection_def mbind_ok_iff mguard_ok Let_def tombstone_for_def trimmed_def
        delete_context_def dest!: validate_group_target_ok split: if_splits)
next
  case None
  then have "cd_key c \<notin> rs_key ` set (db_resolutions s)" by (auto simp: find_None_iff)
  then show thesis
    using assms None fresh
    by (auto simp: commit_in_connection_def mbind_ok_iff Let_def insert_resolution_def bind_ints_ok
        count_delivery_def prune_resolutions_def delete_context_def settled_def trimmed_def
        dest!: validate_group_target_ok split: if_splits)
qed

section \<open>The store invariant\<close>

text \<open>
  An archived row is, in every column, what the frame it stores says, and the event rows that
  refer to it are the events of that frame, in order.
\<close>

definition archived_as :: "ArchivedCapture \<Rightarrow> Frame \<Rightarrow> CaptureData \<Rightarrow> bool" where
  "archived_as r f c \<longleftrightarrow> decode_frame (ar_wire_frame r) = Inr f \<and> decode_capture_data (payload f) = Inr c \<and>
     (\<exists>d ctx. r = archive_row (ar_row_id r) d f c (crc32_iso_hdlc (bd_inner_frame d)) ctx (ar_session_id r) (ar_group_id r))"

definition archived_ok :: "StoredEvent list \<Rightarrow> ArchivedCapture \<Rightarrow> bool" where
  "archived_ok events r \<longleftrightarrow> (\<exists>f c. archived_as r f c \<and>
     filter (\<lambda>e. se_capture_row_id e = ar_row_id r) events = event_rows (ar_row_id r) (cd_events c))"

lemma archived_columns:
  assumes "archived_as r f c"
  shows "decode_frame (ar_wire_frame r) = Inr f" "decode_capture_data (payload f) = Inr c" "ar_key r = cd_key c"
    "ar_inner_frame_crc32 r = crc32_iso_hdlc (ar_wire_frame r)"
    "ar_device_id r = cd_device_id c" "ar_boot_id r = cd_boot_id c" "ar_capture_id r = cd_capture_id c"
    "ar_request_id r = cd_request_id c" "ar_profile_sha256 r = cd_profile_sha256 c"
    "ar_device_config_crc32 r = cd_device_config_crc32 c" "ar_capture_sequence r = cd_capture_sequence c"
    "ar_sample_interval_ticks r = cd_sample_interval_ticks c" "ar_burst_period_ticks r = cd_burst_period_ticks c"
    "ar_sample_count r = cd_sample_count c" "ar_pretrigger_count r = cd_pretrigger_count c"
    "ar_quality_flags r = cd_quality_flags c" "ar_tuss_dev_stat r = cd_tuss_dev_stat c"
    "ar_sample_blob r = (let n = nat (cd_sample_count c * 2) in if n = 0 then [] else drop (length (payload f) - n) (payload f))"
    "ar_adc_clipping r = list_ex (\<lambda>x. x = 0 \<or> x = 2 ^ nat (cd_adc_bits c) - 1) (cd_samples c)"
proof -
  obtain d ctx where r: "r = archive_row (ar_row_id r) d f c (crc32_iso_hdlc (bd_inner_frame d)) ctx (ar_session_id r) (ar_group_id r)"
    and f: "decode_frame (ar_wire_frame r) = Inr f" "decode_capture_data (payload f) = Inr c"
    using assms by (auto simp: archived_as_def)
  show "decode_frame (ar_wire_frame r) = Inr f" "decode_capture_data (payload f) = Inr c" by (rule f)+
  show "ar_key r = cd_key c" "ar_inner_frame_crc32 r = crc32_iso_hdlc (ar_wire_frame r)"
    "ar_device_id r = cd_device_id c" "ar_boot_id r = cd_boot_id c" "ar_capture_id r = cd_capture_id c"
    "ar_request_id r = cd_request_id c" "ar_profile_sha256 r = cd_profile_sha256 c"
    "ar_device_config_crc32 r = cd_device_config_crc32 c" "ar_capture_sequence r = cd_capture_sequence c"
    "ar_sample_interval_ticks r = cd_sample_interval_ticks c" "ar_burst_period_ticks r = cd_burst_period_ticks c"
    "ar_sample_count r = cd_sample_count c" "ar_pretrigger_count r = cd_pretrigger_count c"
    "ar_quality_flags r = cd_quality_flags c" "ar_tuss_dev_stat r = cd_tuss_dev_stat c"
    "ar_sample_blob r = (let n = nat (cd_sample_count c * 2) in if n = 0 then [] else drop (length (payload f) - n) (payload f))"
    "ar_adc_clipping r = list_ex (\<lambda>x. x = 0 \<or> x = 2 ^ nat (cd_adc_bits c) - 1) (cd_samples c)"
    by (subst r, simp add: archive_row_def ar_key_def cd_key_def)+
qed

definition captures_inv :: "ArchivedCapture list \<Rightarrow> int \<Rightarrow> StoredEvent list \<Rightarrow> bool" where
  "captures_inv rows newest events \<longleftrightarrow> 0 \<le> newest \<and> sorted_wrt (<) (map ar_row_id rows) \<and>
     list_all (\<lambda>r. 1 \<le> ar_row_id r \<and> ar_row_id r \<le> newest \<and> archived_ok events r) rows \<and>
     distinct (map ar_key rows) \<and>
     se_capture_row_id ` set events \<subseteq> ar_row_id ` set rows"

definition resolutions_inv :: "ResolutionRow list \<Rightarrow> int \<Rightarrow> bool" where
  "resolutions_inv rows newest \<longleftrightarrow> 0 \<le> newest \<and> sorted_wrt (<) (map rs_row_id rows) \<and>
     list_all (\<lambda>r. 1 \<le> rs_row_id r \<and> rs_row_id r \<le> newest) rows \<and>
     distinct (map rs_key rows) \<and> length rows \<le> RESOLUTION_LIMIT"

text \<open>The rolling frames can all be decoded again, and every session counts at least one delivery.\<close>

definition sessions_inv :: "CaptureStore \<Rightarrow> bool" where
  "sessions_inv s \<longleftrightarrow>
     distinct (map lc_session_id (db_latest s)) \<and>
     list_all (\<lambda>r. open_delivery (lc_delivery r) \<in> range Inr) (db_latest s) \<and>
     distinct (map dt_session_id (db_stats s)) \<and> list_all (\<lambda>d. 1 \<le> dt_acquired_count d) (db_stats s) \<and>
     distinct (map context_key (db_contexts s)) \<and> distinct (map sn_session_id (db_sessions s)) \<and>
     distinct (map po_key (db_policies s))"

definition store_inv :: "CaptureStore \<Rightarrow> bool" where
  "store_inv s \<longleftrightarrow> captures_inv (db_captures s) (db_last_capture_row s) (db_events s) \<and>
     resolutions_inv (db_resolutions s) (db_last_resolution_row s) \<and> sessions_inv s"

lemmas store_inv_defs = store_inv_def captures_inv_def resolutions_inv_def sessions_inv_def

lemma new_store_inv: "store_inv new_store"
  by (simp add: store_inv_defs new_store_def)

subsection \<open>Tables with keys\<close>

lemma map_upsert_keys: "map key (map (\<lambda>x. if key x = key r then r else x) rows) = map key rows"
  by simp

lemma upsert_keys: "distinct (map key rows) \<Longrightarrow> distinct (map key (upsert key r rows))"
  by (cases "list_ex (\<lambda>x. key x = key r) rows")
    (simp_all only: upsert_def if_True if_False map_upsert_keys, auto simp: list_ex_iff)

lemma set_upsert: "set (upsert key r rows) \<subseteq> insert r (set rows)"
  by (auto simp: upsert_def)

lemma in_upsert: "r \<in> set (upsert key r rows)"
proof (cases "list_ex (\<lambda>x. key x = key r) rows")
  case True
  then obtain x where "x \<in> set rows" "key x = key r" by (auto simp: list_ex_iff)
  then have "r \<in> (\<lambda>x. if key x = key r then r else x) ` set rows" by (intro rev_image_eqI) auto
  then show ?thesis using True by (simp add: upsert_def)
qed (simp add: upsert_def)

subsection \<open>Pruning\<close>

lemma max_in_newest:
  fixes xs :: "int list"
  assumes "x \<in> set xs" "\<And>y. y \<in> set xs \<Longrightarrow> y \<le> x" "1 \<le> n"
  shows "x \<in> set (take n (rev (sort xs)))"
proof -
  have "length (rev (sort xs)) \<noteq> 0" using assms(1) by (cases xs) auto
  then obtain y ys where ys: "rev (sort xs) = y # ys" by (cases "rev (sort xs)") auto
  have "sorted (rev (y # ys))" using ys by (metis rev_rev_ident sorted_sort)
  moreover have mem: "set (y # ys) = set xs" using ys by (metis set_rev set_sort)
  ultimately have "x \<le> y" using assms(1) by (auto simp: sorted_append)
  moreover have "y \<le> x" using mem assms(2) by auto
  ultimately show ?thesis using ys assms(3) by (cases n) auto
qed

lemma sorted_ids_filter:
  "sorted_wrt (<) (map k rows) \<Longrightarrow> sorted_wrt (<) (map (k :: _ \<Rightarrow> int) (filter P rows))"
  by (rule sorted_wrt_map_filter)

lemma newest_rows_length:
  assumes "sorted_wrt (<) (map rs_row_id rows)"
  shows "length (newest_rows rows) \<le> RESOLUTION_LIMIT"
proof -
  let ?new = "take RESOLUTION_LIMIT (rev (sort (map rs_row_id rows)))"
  have "distinct (map rs_row_id (newest_rows rows))"
    using sorted_ids_filter [OF assms] by (auto simp: newest_rows_def Let_def intro: strictly_sorted_distinct)
  then have "length (newest_rows rows) = card (rs_row_id ` set (newest_rows rows))"
    by (metis distinct_card length_map list.set_map)
  also have "\<dots> \<le> card (set ?new)" by (rule card_mono) (auto simp: newest_rows_def Let_def)
  also have "\<dots> \<le> length ?new" by (rule card_length)
  finally show ?thesis by simp
qed

lemma newest_rows_keep_last:
  assumes "sorted_wrt (<) (map rs_row_id (rows @ [t]))"
  shows "t \<in> set (newest_rows (rows @ [t]))"
proof -
  have "rs_row_id t \<in> set (take RESOLUTION_LIMIT (rev (sort (map rs_row_id (rows @ [t])))))"
    by (rule max_in_newest) (use assms in \<open>auto simp: sorted_wrt_append RESOLUTION_LIMIT_def\<close>)
  then show ?thesis by (simp add: newest_rows_def Let_def)
qed

lemma newest_rows_inv:
  assumes "0 \<le> n" "sorted_wrt (<) (map rs_row_id rows)" "distinct (map rs_key rows)"
    "list_all (\<lambda>r. 1 \<le> rs_row_id r \<and> rs_row_id r \<le> n) rows"
  shows "resolutions_inv (newest_rows rows) n"
  using assms newest_rows_length [OF assms(2)] sorted_ids_filter [OF assms(2)]
  by (auto simp: resolutions_inv_def newest_rows_def Let_def list_all_iff distinct_map_filter)

subsection \<open>Preservation\<close>

lemma se_row_event_rows: "se_capture_row_id ` set (event_rows i es) \<subseteq> {i}"
  by (auto simp: event_rows_def)

lemma filter_event_rows:
  "filter (\<lambda>e. se_capture_row_id e = k) (event_rows i es) = (if k = i then event_rows i es else [])"
  using se_row_event_rows [of i es] by (auto simp: filter_empty_conv filter_id_conv)

lemma captures_inv_snoc:
  assumes "captures_inv rows n events" "ar_row_id r = n + 1" "archived_as r f c" "ar_key r \<notin> ar_key ` set rows"
  shows "captures_inv (rows @ [r]) (n + 1) (events @ event_rows (n + 1) (cd_events c))"
proof -
  let ?events = "events @ event_rows (n + 1) (cd_events c)"
  have rows: "\<forall>x \<in> set rows. 1 \<le> ar_row_id x \<and> ar_row_id x \<le> n \<and> archived_ok events x"
    and ev: "se_capture_row_id ` set events \<subseteq> ar_row_id ` set rows"
    using assms(1) by (simp_all add: captures_inv_def list_all_iff)
  then have sorted: "sorted_wrt (<) (map ar_row_id (rows @ [r]))"
    using assms(1,2) by (auto simp: captures_inv_def sorted_wrt_append)
  have old: "archived_ok ?events x" if "x \<in> set rows" for x
    using rows that by (fastforce simp: archived_ok_def filter_event_rows)
  have "filter (\<lambda>e. se_capture_row_id e = n + 1) events = []"
    using ev rows by (force simp: filter_empty_conv)
  then have new: "archived_ok ?events r"
    using assms(2,3) by (auto simp: archived_ok_def filter_event_rows)
  have "list_all (\<lambda>x. 1 \<le> ar_row_id x \<and> ar_row_id x \<le> n + 1 \<and> archived_ok ?events x) (rows @ [r])"
    using rows old new assms(1,2) by (fastforce simp: list_all_iff captures_inv_def)
  moreover have "se_capture_row_id ` set ?events \<subseteq> ar_row_id ` set (rows @ [r])"
    using ev assms(2) se_row_event_rows [of "n + 1" "cd_events c"] by auto
  ultimately show ?thesis using assms(1,4) sorted by (simp add: captures_inv_def)
qed

text \<open>The part of the state that only the archive operation changes.\<close>

definition beside_archive :: "CaptureStore \<Rightarrow> CaptureStore" where
  "beside_archive s = s\<lparr>db_captures := [], db_last_capture_row := 0, db_events := []\<rparr>"

lemma beside_archive_fields:
  assumes "beside_archive s' = beside_archive s"
  shows "db_contexts s' = db_contexts s" "db_resolutions s' = db_resolutions s"
    "db_last_resolution_row s' = db_last_resolution_row s" "db_latest s' = db_latest s"
    "db_sessions s' = db_sessions s" "db_stats s' = db_stats s" "db_policies s' = db_policies s"
    "db_experiments s' = db_experiments s" "db_groups s' = db_groups s"
  using assms by (cases s; cases s'; simp add: beside_archive_def)+

lemma archive_delivery_effect:
  assumes "captures_inv (db_captures s) (db_last_capture_row s) (db_events s)"
    and "decode_frame (bd_inner_frame d) = Inr f" "decode_capture_data (payload f) = Inr c"
    and "archive_delivery d f c (crc32_iso_hdlc (bd_inner_frame d)) sess g s = (Inr inserted, s')"
  shows "captures_inv (db_captures s') (db_last_capture_row s') (db_events s')"
    and "beside_archive s' = beside_archive s"
    and "\<exists>row \<in> set (db_captures s'). ar_key row = cd_key c \<and> ar_wire_frame row = bd_inner_frame d"
    and "prefix (db_captures s) (db_captures s')"
proof -
  let ?crc = "crc32_iso_hdlc (bd_inner_frame d)"
  from assms(4) have "captures_inv (db_captures s') (db_last_capture_row s') (db_events s') \<and>
    beside_archive s' = beside_archive s \<and>
    (\<exists>row \<in> set (db_captures s'). ar_key row = cd_key c \<and> ar_wire_frame row = bd_inner_frame d) \<and>
    prefix (db_captures s) (db_captures s')"
  proof (cases rule: archive_delivery_ok)
    case (fresh ctx session)
    let ?row = "archive_row (db_last_capture_row s + 1) d f c ?crc ctx session g"
    have key: "ar_key ?row = cd_key c" by (simp add: ar_key_def cd_key_def archive_row_def)
    have ok: "archived_as ?row f c"
      using assms(2,3) by (auto simp: archived_as_def archive_row_def)
    have wire: "ar_wire_frame ?row = bd_inner_frame d" "ar_row_id ?row = db_last_capture_row s + 1"
      by (simp_all add: archive_row_def)
    show ?thesis
      using captures_inv_snoc [OF assms(1) wire(2) ok] fresh(2) key wire(1)
      by (simp add: fresh(3) beside_archive_def)
  qed (use assms(1) in auto)
  then show "captures_inv (db_captures s') (db_last_capture_row s') (db_events s')"
    "beside_archive s' = beside_archive s"
    "\<exists>row \<in> set (db_captures s'). ar_key row = cd_key c \<and> ar_wire_frame row = bd_inner_frame d"
    "prefix (db_captures s) (db_captures s')" by blast+
qed

lemma sessions_inv_beside: "beside_archive s' = beside_archive s \<Longrightarrow> sessions_inv s' \<longleftrightarrow> sessions_inv s"
  unfolding sessions_inv_def using beside_archive_fields [of s' s] by simp

lemma counted_sessions_inv:
  assumes "sessions_inv s"
  shows "sessions_inv (counted sess i s)"
proof (cases "find (\<lambda>d. dt_session_id d = sess) (db_stats s)")
  case None
  moreover have "sess \<notin> dt_session_id ` set (db_stats s)" using None by (auto simp: find_None_iff)
  ultimately show ?thesis using assms by (simp add: counted_def sessions_inv_def)
next
  case (Some x)
  let ?h = "\<lambda>d. if dt_session_id d = sess
    then d\<lparr>dt_acquired_count := dt_acquired_count d + 1, dt_last_capture_id := i\<rparr> else d"
  have "map dt_session_id (map ?h (db_stats s)) = map dt_session_id (db_stats s)" by simp
  moreover have "list_all (\<lambda>d. 1 \<le> dt_acquired_count d) (map ?h (db_stats s))"
    using assms by (auto simp: sessions_inv_def list_all_iff)
  ultimately show ?thesis using assms Some unfolding counted_def sessions_inv_def
    by (simp del: map_map)
qed

lemma with_resolution_simps [simp]:
  "db_captures (with_resolution c x h r u t s) = db_captures s"
  "db_last_capture_row (with_resolution c x h r u t s) = db_last_capture_row s"
  "db_events (with_resolution c x h r u t s) = db_events s"
  "db_latest (with_resolution c x h r u t s) = db_latest s"
  "sessions_inv (with_resolution c x h r u t s) = sessions_inv s"
  by (simp_all add: with_resolution_def sessions_inv_def)

lemma counted_simps [simp]:
  "db_captures (counted u i s) = db_captures s" "db_last_capture_row (counted u i s) = db_last_capture_row s"
  "db_events (counted u i s) = db_events s" "db_resolutions (counted u i s) = db_resolutions s"
  "db_last_resolution_row (counted u i s) = db_last_resolution_row s" "db_latest (counted u i s) = db_latest s"
  by (simp_all add: counted_def)

lemma pruned_simps [simp]:
  "db_captures (pruned s) = db_captures s" "db_last_capture_row (pruned s) = db_last_capture_row s"
  "db_events (pruned s) = db_events s" "db_resolutions (pruned s) = newest_rows (db_resolutions s)"
  "db_last_resolution_row (pruned s) = db_last_resolution_row s" "db_latest (pruned s) = db_latest s"
  "sessions_inv (pruned s) = sessions_inv s"
  by (simp_all add: pruned_def sessions_inv_def)

lemma drop_context_simps [simp]:
  "db_captures (drop_context k s) = db_captures s" "db_last_capture_row (drop_context k s) = db_last_capture_row s"
  "db_events (drop_context k s) = db_events s" "db_resolutions (drop_context k s) = db_resolutions s"
  "db_last_resolution_row (drop_context k s) = db_last_resolution_row s"
  "db_latest (drop_context k s) = db_latest s" "db_stats (drop_context k s) = db_stats s"
  by (simp_all add: drop_context_def)

lemma drop_context_inv: "store_inv s \<Longrightarrow> store_inv (drop_context k s)"
  by (simp add: store_inv_def sessions_inv_def) (simp add: drop_context_def distinct_map_filter)

lemma trimmed_simps [simp]:
  "db_captures (trimmed c r s) = db_captures s" "db_resolutions (trimmed c r s) = db_resolutions s"
  "db_latest (trimmed c r s) = db_latest s" "db_groups (trimmed c r s) = db_groups s"
  by (simp_all add: trimmed_def drop_context_def)

lemma trimmed_inv: "store_inv s \<Longrightarrow> store_inv (trimmed c r s)"
  by (simp add: trimmed_def drop_context_inv)

lemma trimmed_idem [simp]: "trimmed c r (trimmed c r s) = trimmed c r s"
  by (simp add: trimmed_def drop_context_def)

lemma settled_effect:
  assumes "store_inv s" "cd_key c \<notin> rs_key ` set (db_resolutions s)"
  shows "store_inv (settled d c counts u resolution s)"
    and "\<exists>t \<in> set (db_resolutions (settled d c counts u resolution s)). tombstone_for d c t \<and> rs_resolution t = resolution"
proof -
  let ?s1 = "with_resolution c (crc32_iso_hdlc (bd_inner_frame d)) (sha256 (bd_inner_frame d)) resolution u
      (bd_stored_utc_ns d) s"
  obtain t where t: "db_resolutions ?s1 = db_resolutions s @ [t]" "rs_row_id t = db_last_resolution_row s + 1"
    "rs_key t = cd_key c" "tombstone_for d c t" "rs_resolution t = resolution"
    by (simp add: with_resolution_def rs_key_def cd_key_def tombstone_for_def)
  have rows: "sorted_wrt (<) (map rs_row_id (db_resolutions s @ [t]))"
    "distinct (map rs_key (db_resolutions s @ [t]))"
    "list_all (\<lambda>r. 1 \<le> rs_row_id r \<and> rs_row_id r \<le> db_last_resolution_row s + 1) (db_resolutions s @ [t])"
    "0 \<le> db_last_resolution_row s + 1"
    using assms t(2,3) by (fastforce simp: store_inv_def resolutions_inv_def sorted_wrt_append list_all_iff)+
  have last: "db_last_resolution_row ?s1 = db_last_resolution_row s + 1"
    by (simp add: with_resolution_def)
  have "resolutions_inv (newest_rows (db_resolutions ?s1)) (db_last_resolution_row ?s1)"
    unfolding t(1) last by (rule newest_rows_inv [OF rows(4,1,2,3)])
  then show "store_inv (settled d c counts u resolution s)"
    using assms(1) by (cases counts) (simp_all add: settled_def store_inv_def counted_sessions_inv)
  show "\<exists>t \<in> set (db_resolutions (settled d c counts u resolution s)). tombstone_for d c t \<and> rs_resolution t = resolution"
  proof -
    have "db_resolutions (settled d c counts u resolution s) = newest_rows (db_resolutions ?s1)"
      by (cases counts) (simp_all add: settled_def)
    then show ?thesis using newest_rows_keep_last [OF rows(1)] t(4,5) unfolding t(1) by metis
  qed
qed

lemma open_delivery_ok:
  assumes "open_delivery d = Inr (f, c)"
  shows "decode_frame (bd_inner_frame d) = Inr f" "decode_capture_data (payload f) = Inr c"
    "\<exists>bs. encode_bridge_capture_delivery d = Inr bs"
  using assms by (auto simp: open_delivery_def)

lemma roll_latest_ok:
  assumes "roll_latest d c sess g s = (Inr u, s')"
  obtains ks where "s' = fold drop_context ks (s\<lparr>db_latest := upsert lc_session_id
      \<lparr>lc_session_id = sess, lc_delivery = d, lc_group_id = g\<rparr> (db_latest s)\<rparr>)"
proof -
  let ?s = "s\<lparr>db_latest := upsert lc_session_id
      \<lparr>lc_session_id = sess, lc_delivery = d, lc_group_id = g\<rparr> (db_latest s)\<rparr>"
  from assms have "s' = ?s \<or> s' \<in> range (\<lambda>k. drop_context k ?s)"
    by (auto simp: roll_latest_def mbind_ok_iff bind_ints_ok Let_def delete_context_def
        split: option.splits if_splits)
  then show thesis using that [of "[]"] that [of "[_]"] by auto
qed

lemma fold_drop_context:
  "store_inv s \<Longrightarrow> store_inv (fold drop_context ks s)"
  "db_captures (fold drop_context ks s) = db_captures s"
  "db_resolutions (fold drop_context ks s) = db_resolutions s"
  "db_latest (fold drop_context ks s) = db_latest s"
  by (induction ks arbitrary: s) (simp_all add: drop_context_inv)

lemma resolve_new_effect:
  assumes "store_inv s" "open_delivery d = Inr (f, c)"
    and "resolve_new pol sess g d f c (crc32_iso_hdlc (bd_inner_frame d)) s = (Inr (inserted, resolution), s1)"
  shows "store_inv s1" and "db_resolutions s1 = db_resolutions s" and "prefix (db_captures s) (db_captures s1)"
    and "pol = SAVE_ALL \<longleftrightarrow> resolution = RAW_ARCHIVED" "pol = SAVE_LAST \<longleftrightarrow> resolution = ROLLING_LATEST"
    and "resolution = RAW_ARCHIVED \<Longrightarrow>
      \<exists>row \<in> set (db_captures s1). ar_key row = cd_key c \<and> ar_wire_frame row = bd_inner_frame d"
    and "resolution = ROLLING_LATEST \<Longrightarrow>
      \<lparr>lc_session_id = sess, lc_delivery = d, lc_group_id = g\<rparr> \<in> set (db_latest s1)"
proof -
  have "store_inv s1 \<and> db_resolutions s1 = db_resolutions s \<and> prefix (db_captures s) (db_captures s1) \<and>
    (pol = SAVE_ALL \<longleftrightarrow> resolution = RAW_ARCHIVED) \<and> (pol = SAVE_LAST \<longleftrightarrow> resolution = ROLLING_LATEST) \<and>
    (resolution = RAW_ARCHIVED \<longrightarrow>
      (\<exists>row \<in> set (db_captures s1). ar_key row = cd_key c \<and> ar_wire_frame row = bd_inner_frame d)) \<and>
    (resolution = ROLLING_LATEST \<longrightarrow>
      \<lparr>lc_session_id = sess, lc_delivery = d, lc_group_id = g\<rparr> \<in> set (db_latest s1))"
  proof (cases pol)
    case SAVE_NONE
    then show ?thesis using assms by (auto simp: resolve_new_def)
  next
    case SAVE_ALL
    then have a: "archive_delivery d f c (crc32_iso_hdlc (bd_inner_frame d)) sess g s = (Inr inserted, s1)"
      and r: "resolution = RAW_ARCHIVED"
      using assms(3) by (auto simp: resolve_new_def mbind_ok_iff)
    have ci: "captures_inv (db_captures s) (db_last_capture_row s) (db_events s)"
      using assms(1) by (simp add: store_inv_def)
    note e = archive_delivery_effect [OF ci open_delivery_ok(1,2) [OF assms(2)] a]
    note b = beside_archive_fields [OF e(2)]
    have "store_inv s1" using assms(1) e(1) b sessions_inv_beside [OF e(2)] by (simp add: store_inv_def)
    then show ?thesis using e b(2) r SAVE_ALL by simp
  next
    case SAVE_LAST
    then obtain u where rl: "roll_latest d c sess g s = (Inr u, s1)" and r: "resolution = ROLLING_LATEST"
      using assms(3) by (auto simp: resolve_new_def mbind_ok_iff)
    obtain ks where ks: "s1 = fold drop_context ks (s\<lparr>db_latest := upsert lc_session_id
      \<lparr>lc_session_id = sess, lc_delivery = d, lc_group_id = g\<rparr> (db_latest s)\<rparr>)"
      using roll_latest_ok [OF rl] by blast
    have "store_inv (s\<lparr>db_latest := upsert lc_session_id
      \<lparr>lc_session_id = sess, lc_delivery = d, lc_group_id = g\<rparr> (db_latest s)\<rparr>)"
      using assms(1,2) set_upsert [of lc_session_id "\<lparr>lc_session_id = sess, lc_delivery = d, lc_group_id = g\<rparr>" "db_latest s"]
      by (auto simp: store_inv_def sessions_inv_def list_all_iff intro!: upsert_keys)
    then show ?thesis using r SAVE_LAST by (simp add: ks fold_drop_context in_upsert)
  qed
  then show "store_inv s1" "db_resolutions s1 = db_resolutions s" "prefix (db_captures s) (db_captures s1)"
    "pol = SAVE_ALL \<longleftrightarrow> resolution = RAW_ARCHIVED" "pol = SAVE_LAST \<longleftrightarrow> resolution = ROLLING_LATEST"
    "resolution = RAW_ARCHIVED \<Longrightarrow>
      \<exists>row \<in> set (db_captures s1). ar_key row = cd_key c \<and> ar_wire_frame row = bd_inner_frame d"
    "resolution = ROLLING_LATEST \<Longrightarrow>
      \<lparr>lc_session_id = sess, lc_delivery = d, lc_group_id = g\<rparr> \<in> set (db_latest s1)" by blast+
qed

subsection \<open>Commits and repeated commits\<close>

lemma validate_group_target_groups:
  assumes "validate_group_target g s = (Inr h, s')" "db_groups t = db_groups s"
  shows "validate_group_target g t = (Inr g, t)"
  using assms by (auto simp: validate_group_target_def validate_entity_id_def mbind_run mguard_run
      split: option.splits if_splits)

lemma settled_groups [simp]: "db_groups (settled d c counts u r s) = db_groups s"
  by (simp add: settled_def pruned_def counted_def with_resolution_def)

lemma settled_captures [simp]: "db_captures (settled d c counts u r s) = db_captures s" "db_latest (settled d c counts u r s) = db_latest s"
  by (cases counts; simp add: settled_def)+

lemma resolve_new_groups:
  assumes "resolve_new pol sess g d f c crc s = (Inr x, s1)"
  shows "db_groups s1 = db_groups s"
proof (cases pol)
  case SAVE_ALL
  then obtain b where "archive_delivery d f c crc sess g s = (Inr b, s1)"
    using assms by (auto simp: resolve_new_def mbind_ok_iff)
  then show ?thesis by (cases rule: archive_delivery_ok) simp_all
next
  case SAVE_LAST
  have fold: "db_groups (fold drop_context ks t) = db_groups t" for ks t
    by (induction ks arbitrary: t) (simp_all add: drop_context_def)
  from SAVE_LAST obtain u where "roll_latest d c sess g s = (Inr u, s1)"
    using assms by (auto simp: resolve_new_def mbind_ok_iff)
  then show ?thesis by (rule roll_latest_ok) (simp add: fold)
qed (use assms in \<open>auto simp: resolve_new_def\<close>)

lemma commit_known:
  assumes "validate_group_target g s = (Inr h, s')" "resolutions_inv (db_resolutions s) n"
    and "t \<in> set (db_resolutions s)" "tombstone_for d c t"
  shows "commit_in_connection d pol sess g f c s =
    (Inr \<lparr>ccr_receipt = store_receipt d c (crc32_iso_hdlc (bd_inner_frame d)), ccr_inserted = False,
       ccr_resolution = rs_resolution t\<rparr>, trimmed c (rs_resolution t) s)"
proof -
  have "find (\<lambda>r. rs_key r = rs_key t) (db_resolutions s) = Some t"
    using assms(2,3) by (intro find_unique) (simp_all add: resolutions_inv_def)
  then show ?thesis
    using assms(4) validate_group_target_groups [OF assms(1), of s]
    by (simp add: commit_in_connection_def mbind_run Let_def tombstone_for_def trimmed_def delete_context_def
        mguard_run)
qed

lemma commit_validates:
  "commit_in_connection d pol sess g f c s = (Inr r, s') \<Longrightarrow> \<exists>h. validate_group_target g s = (Inr h, s)"
  using validate_group_target_ok by (fastforce simp: commit_in_connection_def mbind_ok_iff Let_def)

lemma commit_in_connection_effect:
  assumes inv: "store_inv s" and op: "open_delivery d = Inr (f, c)"
    and run: "commit_in_connection d pol sess g f c s = (Inr r, s')"
  shows "store_inv s'"
    and "ccr_receipt r = store_receipt d c (crc32_iso_hdlc (bd_inner_frame d))"
    and "\<exists>t \<in> set (db_resolutions s'). tombstone_for d c t \<and> rs_resolution t = ccr_resolution r"
    and "prefix (db_captures s) (db_captures s')"
    and "ccr_inserted r \<Longrightarrow> ccr_resolution r = RAW_ARCHIVED \<Longrightarrow>
      \<exists>row \<in> set (db_captures s'). ar_key row = cd_key c \<and> ar_wire_frame row = bd_inner_frame d"
    and "ccr_inserted r \<Longrightarrow> ccr_resolution r = ROLLING_LATEST \<Longrightarrow>
      \<lparr>lc_session_id = sess, lc_delivery = d, lc_group_id = g\<rparr> \<in> set (db_latest s')"
    and "ccr_inserted r \<Longrightarrow> pol = SAVE_ALL \<longleftrightarrow> ccr_resolution r = RAW_ARCHIVED"
    and "ccr_inserted r \<Longrightarrow> pol = SAVE_LAST \<longleftrightarrow> ccr_resolution r = ROLLING_LATEST"
    and "db_groups s' = db_groups s" and "trimmed c (ccr_resolution r) s' = s'"
proof -
  let ?archived = "\<exists>row \<in> set (db_captures s'). ar_key row = cd_key c \<and> ar_wire_frame row = bd_inner_frame d"
  let ?rolling = "\<lparr>lc_session_id = sess, lc_delivery = d, lc_group_id = g\<rparr> \<in> set (db_latest s')"
  let ?tomb = "\<exists>t \<in> set (db_resolutions s'). tombstone_for d c t \<and> rs_resolution t = ccr_resolution r"
  have "store_inv s' \<and> ccr_receipt r = store_receipt d c (crc32_iso_hdlc (bd_inner_frame d)) \<and> ?tomb \<and>
    prefix (db_captures s) (db_captures s') \<and>
    (ccr_inserted r \<longrightarrow> (ccr_resolution r = RAW_ARCHIVED \<longrightarrow> ?archived) \<and>
       (ccr_resolution r = ROLLING_LATEST \<longrightarrow> ?rolling) \<and>
       (pol = SAVE_ALL \<longleftrightarrow> ccr_resolution r = RAW_ARCHIVED) \<and>
       (pol = SAVE_LAST \<longleftrightarrow> ccr_resolution r = ROLLING_LATEST)) \<and>
    db_groups s' = db_groups s \<and> trimmed c (ccr_resolution r) s' = s'"
    using run
  proof (cases rule: commit_in_connection_ok)
    case (known t)
    then show ?thesis using inv trimmed_inv by auto
  next
    case (fresh inserted resolution s1)
    note e = resolve_new_effect [OF inv op fresh(2)]
    have key: "cd_key c \<notin> rs_key ` set (db_resolutions s1)" using fresh(1) e(2) by simp
    note st = settled_effect [OF e(1) key, of d "sess \<noteq> []" sess resolution]
    show ?thesis
      using e st trimmed_inv [OF st(1)] resolve_new_groups [OF fresh(2)] by (auto simp: fresh(3,4))
  qed
  then show "store_inv s'" "ccr_receipt r = store_receipt d c (crc32_iso_hdlc (bd_inner_frame d))" ?tomb
    "prefix (db_captures s) (db_captures s')"
    "ccr_inserted r \<Longrightarrow> ccr_resolution r = RAW_ARCHIVED \<Longrightarrow> ?archived"
    "ccr_inserted r \<Longrightarrow> ccr_resolution r = ROLLING_LATEST \<Longrightarrow> ?rolling"
    "ccr_inserted r \<Longrightarrow> pol = SAVE_ALL \<longleftrightarrow> ccr_resolution r = RAW_ARCHIVED"
    "ccr_inserted r \<Longrightarrow> pol = SAVE_LAST \<longleftrightarrow> ccr_resolution r = ROLLING_LATEST"
    "db_groups s' = db_groups s" "trimmed c (ccr_resolution r) s' = s'" by blast+
qed

lemma commit_delivery_run:
  assumes "commit_delivery d pol sess g s = (Inr r, s')"
  obtains p u f c where "commit_arguments d pol sess = Inr (p, u, f, c)" "open_delivery d = Inr (f, c)"
    "commit_in_connection d p u g f c s = (Inr r, s')"
  using assms by (auto simp: commit_delivery_def mbind_ok_iff commit_arguments_def split: if_splits)

lemma commit_delivery_repeat:
  assumes inv: "store_inv s" and run: "commit_delivery d pol sess g s = (Inr r, s')"
  shows "commit_delivery d pol sess g s' = (Inr (r\<lparr>ccr_inserted := False\<rparr>), s')"
proof -
  from run obtain p u f c where a: "commit_arguments d pol sess = Inr (p, u, f, c)"
    and op: "open_delivery d = Inr (f, c)" and cc: "commit_in_connection d p u g f c s = (Inr r, s')"
    by (rule commit_delivery_run)
  note e = commit_in_connection_effect [OF inv op cc]
  from e(3) obtain t where t: "t \<in> set (db_resolutions s')" "tombstone_for d c t" "rs_resolution t = ccr_resolution r"
    by blast
  obtain h where "validate_group_target g s = (Inr h, s)" using commit_validates [OF cc] by blast
  then have vg: "validate_group_target g s' = (Inr g, s')" using e(9) by (rule validate_group_target_groups)
  have ri: "resolutions_inv (db_resolutions s') (db_last_resolution_row s')" using e(1) by (simp add: store_inv_def)
  have "r\<lparr>ccr_inserted := False\<rparr> = \<lparr>ccr_receipt = store_receipt d c (crc32_iso_hdlc (bd_inner_frame d)),
      ccr_inserted = False, ccr_resolution = rs_resolution t\<rparr>"
    using e(2) t(3) by (cases r) simp
  then have "commit_in_connection d p u g f c s' = (Inr (r\<lparr>ccr_inserted := False\<rparr>), s')"
    using commit_known [OF vg ri t(1,2)] e(10) t(3) by simp
  then show ?thesis using a by (simp add: commit_delivery_def mbind_run transaction_def)
qed

section \<open>A delivery for the witnesses\<close>

definition tiny_bytes :: bytes where
  "tiny_bytes = (case encode_capture_data tiny_capture of Inr b \<Rightarrow> b | Inl e \<Rightarrow> [])"

definition tiny_frame :: Frame where "tiny_frame = mk_frame CAPTURE_DATA 1 tiny_bytes FLAG_ASYNC"

definition tiny_delivery :: BridgeCaptureDelivery where
  "tiny_delivery = \<lparr>bd_connection_id = 1, bd_spool_record_id = 1, bd_source_connection_id = 1,
     bd_source_first_stream_offset = 0, bd_source_last_stream_offset = 229, bd_stored_utc_ns = 5,
     bd_inner_frame = frame_bytes tiny_frame\<rparr>"

lemma tiny_bytes: "encode_capture_data tiny_capture = Inr tiny_bytes" "length tiny_bytes = 210"
proof -
  obtain b where b: "encode_capture_data tiny_capture = Inr b" using tiny_capture_encodes by blast
  then show "encode_capture_data tiny_capture = Inr tiny_bytes" by (simp add: tiny_bytes_def)
  show "length tiny_bytes = 210" using encode_capture_length [OF b] b by (simp add: tiny_bytes_def tiny_capture_def)
qed

lemma tiny_frame_ok: "frame_ok tiny_frame"
  using tiny_bytes(2) by (simp add: tiny_frame_def frame_ok_def PROTOCOL_VERSION_def flag_defs)

lemma tiny_delivery_opens: "open_delivery tiny_delivery = Inr (tiny_frame, tiny_capture)"
proof -
  have "fits delivery_layout (delivery_fields tiny_delivery)"
    using crc32_iso_hdlc_bounds [of "frame_bytes tiny_frame"] tiny_bytes(2)
    by (simp add: delivery_layout_def delivery_fields_def tiny_delivery_def frange_def tiny_frame_def)
  then have "\<exists>bs. encode_bridge_capture_delivery tiny_delivery = Inr bs"
    using fits_packs [of delivery_layout "delivery_fields tiny_delivery"] decode_frame_bytes [OF tiny_frame_ok] tiny_bytes(2)
    unfolding encode_delivery_iff
    by (auto simp: tiny_delivery_def tiny_frame_def)
  then show ?thesis
    using decode_frame_bytes [OF tiny_frame_ok] capture_codec.dec_enc [OF tiny_bytes(1)]
    by (auto simp: open_delivery_def tiny_delivery_def) (simp add: tiny_frame_def)
qed

lemma crc_sqlite_int [simp]: "sqlite_int (crc32_iso_hdlc bs)"
  using order_trans [OF _ crc32_iso_hdlc_bounds(1), of "- 9223372036854775808" bs]
    less_trans [OF crc32_iso_hdlc_bounds(2), of 9223372036854775808 bs] by (simp add: sqlite_int_def)

lemma tiny_commit:
  "\<exists>r s'. commit_delivery tiny_delivery ''SAVE_ALL'' None None new_store = (Inr r, s') \<and>
     ccr_inserted r \<and> ccr_resolution r = RAW_ARCHIVED \<and>
     db_last_capture_row s' = 1 \<and> length (db_captures s') = 1"
  by (simp add: commit_delivery_def commit_arguments_def policy_of_def normalize_session_id_def tiny_delivery_opens
      commit_in_connection_def transaction_def mbind_run Let_def validate_group_target_def new_store_def
      resolve_new_def archive_delivery_def bind_ints_def mguard_run insert_resolution_def run_plan_session_def
      prune_resolutions_def delete_context_def)
    (simp add: tiny_delivery_def sqlite_int_def)

section \<open>Properties\<close>



text \<open>C26 (error). A capture identity is bound to its bytes. If the store knows the identity of a well-formed
  delivery, by a tombstone with another CRC or another SHA-256, the commit raises \<open>StorageConflictError\<close>
  whatever the policy and session; and every commit that raises, for any reason, leaves the store exactly as
  it was.\<close>

theorem commit_conflict_changes_nothing:
  assumes "store_inv s" and "commit_arguments d pol sess = Inr (p, u, f, c)"
    and "validate_group_target g s = (Inr g, s)" and "t \<in> set (db_resolutions s)" and "rs_key t = cd_key c"
    and "\<not> tombstone_for d c t"
  shows "commit_delivery d pol sess g s = (Inl StorageConflictError, s) \<and>
    (\<forall>d' pol' sess' g' e s'. commit_delivery d' pol' sess' g' s = (Inl e, s') \<longrightarrow> s' = s)"
proof
  have "find (\<lambda>r. rs_key r = rs_key t) (db_resolutions s) = Some t"
    using assms(1,4) by (intro find_unique) (simp_all add: store_inv_def resolutions_inv_def)
  then show "commit_delivery d pol sess g s = (Inl StorageConflictError, s)"
    using assms(2-6)
    by (auto simp: commit_delivery_def transaction_def commit_in_connection_def mbind_run mguard_run Let_def
        tombstone_for_def)
  show "\<forall>d' pol' sess' g' e s'. commit_delivery d' pol' sess' g' s = (Inl e, s') \<longrightarrow> s' = s"
    by (auto simp: commit_delivery_def mbind_run transaction_error split: sum.splits)
qed

definition foreign_tombstone :: ResolutionRow where
  "foreign_tombstone = \<lparr>rs_row_id = 1, rs_device_id = cd_device_id tiny_capture,
     rs_boot_id = cd_boot_id tiny_capture, rs_capture_id = cd_capture_id tiny_capture, rs_inner_frame_crc32 = 0,
     rs_inner_frame_sha256 = [], rs_resolution = DISCARDED_BY_POLICY, rs_session_id = [], rs_resolved_utc_ns = 0\<rparr>"

theorem commit_conflict_changes_nothing_witness:
  "commit_delivery tiny_delivery ''SAVE_ALL'' None None
     (new_store\<lparr>db_resolutions := [foreign_tombstone], db_last_resolution_row := 1\<rparr>) =
   (Inl StorageConflictError, new_store\<lparr>db_resolutions := [foreign_tombstone], db_last_resolution_row := 1\<rparr>)"
proof -
  let ?s = "new_store\<lparr>db_resolutions := [foreign_tombstone], db_last_resolution_row := 1\<rparr>"
  have i: "store_inv ?s"
    by (simp add: store_inv_defs new_store_def foreign_tombstone_def RESOLUTION_LIMIT_def)
  have a: "commit_arguments tiny_delivery ''SAVE_ALL'' None = Inr (SAVE_ALL, [], tiny_frame, tiny_capture)"
    by (simp add: commit_arguments_def policy_of_def normalize_session_id_def tiny_delivery_opens)
  have v: "validate_group_target None ?s = (Inr None, ?s)" by (simp add: validate_group_target_def)
  have k: "rs_key foreign_tombstone = cd_key tiny_capture"
    by (simp add: rs_key_def cd_key_def foreign_tombstone_def)
  have "length (rs_inner_frame_sha256 foreign_tombstone) \<noteq> length (sha256 (bd_inner_frame tiny_delivery))"
    by (simp add: foreign_tombstone_def)
  then have n: "\<not> tombstone_for tiny_delivery tiny_capture foreign_tombstone" by (auto simp: tombstone_for_def)
  have "foreign_tombstone \<in> set (db_resolutions ?s)" by simp
  from commit_conflict_changes_nothing [OF i a v this k n] show ?thesis by blast
qed

end
