(* ===== verification/Store_Sessions.thy ===== *)
theory Store_Sessions
  imports Core_Store
begin

text \<open>
  The session side of \<open>core_store.py\<close>: delivery policies per device boot, replayed deliveries,
  freezing the rolling capture, session summaries, group assignment, and the paged listing.
\<close>

section \<open>Delivery policies\<close>

definition POLICY_LIMIT :: nat where "POLICY_LIMIT = 256"

text \<open>A new row gets the largest rowid plus one; an update keeps its rowid.\<close>

definition put_policy :: "bytes \<Rightarrow> bytes \<Rightarrow> string \<Rightarrow> SavePolicy \<Rightarrow> string option \<Rightarrow> PolicyContext list \<Rightarrow> PolicyContext list" where
  "put_policy device_id boot_id session policy group_id rows =
     (case find (\<lambda>p. po_key p = (device_id, boot_id)) rows of
        Some _ \<Rightarrow> map (\<lambda>p. if po_key p = (device_id, boot_id)
          then p\<lparr>po_session_id := session, po_save_policy := policy, po_group_id := group_id\<rparr> else p) rows
      | None \<Rightarrow> rows @ [\<lparr>po_rowid = foldr max (map po_rowid rows) 0 + 1, po_device_id = device_id,
          po_boot_id = boot_id, po_session_id = session, po_save_policy = policy, po_group_id = group_id\<rparr>])"

definition register_delivery_policy ::
  "bytes \<Rightarrow> bytes \<Rightarrow> string \<Rightarrow> string \<Rightarrow> string option \<Rightarrow> unit db" where
  "register_delivery_policy device_id boot_id session_id save_policy group_id =
     mbind (mguard (length device_id = 16 \<and> length boot_id = 16) ValueError) (\<lambda>_.
     mbind (mlift (normalize_session_id (Some session_id))) (\<lambda>session.
     mbind (mlift (policy_of save_policy)) (\<lambda>policy.
     transaction (
       mbind (validate_group_target group_id) (\<lambda>normalized_group_id.
       mupd (\<lambda>s.
         let rows = put_policy device_id boot_id session policy normalized_group_id (db_policies s);
             newest = take POLICY_LIMIT (rev (sort (map po_rowid rows)))
         in s\<lparr>db_policies := filter (\<lambda>p. po_rowid p \<in> set newest) rows\<rparr>))))))"

definition unregister_delivery_policy :: "bytes \<Rightarrow> bytes \<Rightarrow> string \<Rightarrow> unit db" where
  "unregister_delivery_policy device_id boot_id session_id =
     mbind (mguard (length device_id = 16 \<and> length boot_id = 16) ValueError) (\<lambda>_.
     mbind (mlift (normalize_session_id (Some session_id))) (\<lambda>session.
     transaction (mupd (\<lambda>s. s\<lparr>db_policies :=
       filter (\<lambda>p. \<not> (po_key p = (device_id, boot_id) \<and> po_session_id p = session)) (db_policies s)\<rparr>))))"

section \<open>Freezing the rolling capture\<close>

definition finalize_latest_in_connection :: "string \<Rightarrow> bytes option db" where
  "finalize_latest_in_connection session =
     mbind mget (\<lambda>s.
     case find (\<lambda>r. lc_session_id r = session) (db_latest s) of
       None \<Rightarrow> mret None
     | Some row \<Rightarrow>
         let delivery = lc_delivery row in
         mbind (mlift (decode_frame (bd_inner_frame delivery))) (\<lambda>frame.
         mbind (mlift (decode_capture_data (payload frame))) (\<lambda>capture.
         mbind (archive_delivery delivery frame capture (crc32_iso_hdlc (bd_inner_frame delivery))
                  session (lc_group_id row)) (\<lambda>_.
         mbind (delete_context (capture_context_key capture)) (\<lambda>_.
         mbind (mupd (\<lambda>s. s\<lparr>db_latest := filter (\<lambda>r. lc_session_id r \<noteq> session) (db_latest s)\<rparr>)) (\<lambda>_.
         mbind (update_resolutions (\<lambda>r. rs_key r = cd_key capture) RAW_ARCHIVED) (\<lambda>_.
         mret (Some (cd_capture_id capture)))))))))"

definition finalize_latest_capture :: "string \<Rightarrow> bytes option db" where
  "finalize_latest_capture session_id =
     mbind (mlift (normalize_session_id (Some session_id))) (\<lambda>session.
     transaction (finalize_latest_in_connection session))"

section \<open>Session summaries\<close>

text \<open>\<open>payload.get("finished_utc_ns") or payload.get("started_utc_ns") or 0\<close>\<close>

definition summary_time :: "SessionSummary \<Rightarrow> int" where
  "summary_time p =
     (case sm_finished_utc_ns p of
        Some t \<Rightarrow> if t \<noteq> 0 then t else (case sm_started_utc_ns p of Some t' \<Rightarrow> t' | None \<Rightarrow> 0)
      | None \<Rightarrow> (case sm_started_utc_ns p of Some t' \<Rightarrow> t' | None \<Rightarrow> 0))"

definition upsert_session_summary :: "SessionSummary \<Rightarrow> unit db" where
  "upsert_session_summary p =
     mbind (bind_ints [summary_time p]) (\<lambda>_.
     mupd (\<lambda>s. s\<lparr>db_sessions := upsert sn_session_id
       \<lparr>sn_session_id = sm_session_id p, sn_state = sm_state p, sn_save_policy = sm_save_policy p,
        sn_summary = p, sn_updated_utc_ns = summary_time p\<rparr> (db_sessions s)\<rparr>))"

definition save_session_summary :: "SessionSummary \<Rightarrow> unit db" where
  "save_session_summary summary =
     mbind (mlift (normalize_session_id (Some (sm_session_id summary)))) (\<lambda>session.
     mbind (mlift (policy_of (sm_save_policy summary))) (\<lambda>_.
     mbind (mguard (sm_state summary \<noteq> []) ValueError) (\<lambda>_.
     transaction (upsert_session_summary (summary\<lparr>sm_session_id := session\<rparr>)))))"

definition acquired_by :: "CaptureStore \<Rightarrow> string \<Rightarrow> int" where
  "acquired_by s u =
     (case find (\<lambda>d. dt_session_id d = u) (db_stats s) of
        Some d \<Rightarrow> dt_acquired_count d
      | None \<Rightarrow> int (length (sort_key rs_row_id (filter (\<lambda>r. rs_session_id r = u) (db_resolutions s)))))"

definition last_acquired :: "CaptureStore \<Rightarrow> string \<Rightarrow> bytes option" where
  "last_acquired s u =
     (let rows = sort_key rs_row_id (filter (\<lambda>r. rs_session_id r = u) (db_resolutions s))
      in case find (\<lambda>d. dt_session_id d = u) (db_stats s) of
           Some d \<Rightarrow> Some (dt_last_capture_id d)
         | None \<Rightarrow> if rows = [] then None else Some (rs_capture_id (last rows)))"

definition with_acquired :: "CaptureStore \<Rightarrow> string \<Rightarrow> SessionSummary \<Rightarrow> SessionSummary" where
  "with_acquired s u summary = summary\<lparr>sm_session_id := u, sm_acquired_count := Some (acquired_by s u),
     sm_capture_count := (case sm_capture_count summary of None \<Rightarrow> None | Some _ \<Rightarrow> Some (acquired_by s u)),
     sm_last_capture_id :=
       (case last_acquired s u of Some i \<Rightarrow> Some (py_hex i) | None \<Rightarrow> sm_last_capture_id summary)\<rparr>"

definition with_saved :: "CaptureStore \<Rightarrow> string \<Rightarrow> int \<Rightarrow> SessionSummary \<Rightarrow> SessionSummary" where
  "with_saved s u acquired summary =
     (let archived = sort_key ar_row_id (filter (\<lambda>r. ar_session_id r = u) (db_captures s));
          saved = int (length archived)
      in summary\<lparr>sm_saved_count := Some saved, sm_discarded_by_policy_count := Some (max 0 (acquired - saved)),
           sm_last_saved_capture_id :=
             (if archived = [] then None else Some (py_hex (ar_capture_id (last archived))))\<rparr>)"

definition finalize_summary_in_connection :: "SessionSummary \<Rightarrow> SavePolicy \<Rightarrow> SessionSummary db" where
  "finalize_summary_in_connection summary policy =
     mbind (mlift (normalize_session_id (Some (sm_session_id summary)))) (\<lambda>session.
     mbind mget (\<lambda>s.
     mbind (if policy = SAVE_LAST
            then mbind (finalize_latest_in_connection session) (\<lambda>_. mret ()) else mret ()) (\<lambda>_.
     mbind mget (\<lambda>s'.
     let final = with_saved s' session (acquired_by s session) (with_acquired s session summary) in
     mbind (upsert_session_summary final) (\<lambda>_.
     mret final)))))"

definition live_states :: "string list" where
  "live_states = [''RUNNING'', ''STOPPING'']"

definition finalize_session_summary :: "SessionSummary \<Rightarrow> SessionSummary db" where
  "finalize_session_summary summary =
     mbind (mlift (normalize_session_id (Some (sm_session_id summary)))) (\<lambda>session.
     mbind (mguard (sm_state summary \<noteq> [] \<and> sm_state summary \<notin> set live_states) ValueError) (\<lambda>_.
     mbind (mlift (policy_of (sm_save_policy summary))) (\<lambda>policy.
     transaction (finalize_summary_in_connection (summary\<lparr>sm_session_id := session\<rparr>) policy))))"

definition get_session_summary :: "string \<Rightarrow> SessionSummary db" where
  "get_session_summary session_id =
     mbind (mlift (normalize_session_id (Some session_id))) (\<lambda>session.
     mbind mget (\<lambda>s.
     case find (\<lambda>r. sn_session_id r = session) (db_sessions s) of
       None \<Rightarrow> mraise KeyError
     | Some row \<Rightarrow> mret (sn_summary row)))"

text \<open>Every abandoned session is closed in a transaction of its own.\<close>

fun close_sessions :: "SessionRow list \<Rightarrow> unit db" where
  "close_sessions [] = mret ()"
| "close_sessions (row # rows) =
     mbind (finalize_session_summary ((sn_summary row)\<lparr>sm_state := ''INTERRUPTED'',
              sm_terminal_reason := Some ''CORE_RESTART''\<rparr>)) (\<lambda>_.
     close_sessions rows)"

definition reconcile_interrupted_sessions :: "int db" where
  "reconcile_interrupted_sessions =
     mbind mget (\<lambda>s.
     let rows = filter (\<lambda>r. sn_state r \<in> set live_states) (db_sessions s) in
     mbind (close_sessions rows) (\<lambda>_.
     mret (int (length rows))))"

section \<open>Replayed deliveries\<close>

definition terminal_replay_in_connection ::
  "BridgeCaptureDelivery \<Rightarrow> CaptureData \<Rightarrow> string \<Rightarrow> SavePolicy \<Rightarrow> string option \<Rightarrow> SessionSummary \<Rightarrow> CoreCommitResult db" where
  "terminal_replay_in_connection delivery capture session policy group_id summary =
     (let inner_crc = crc32_iso_hdlc (bd_inner_frame delivery); inner_sha = sha256 (bd_inner_frame delivery);
          receipt = store_receipt delivery capture inner_crc in
      mbind (mlift (decode_frame (bd_inner_frame delivery))) (\<lambda>frame.
      mbind mget (\<lambda>s.
      case find (\<lambda>r. rs_key r = cd_key capture) (db_resolutions s) of
        Some existing \<Rightarrow>
          mbind (mguard (rs_inner_frame_crc32 existing = inner_crc \<and>
                   rs_inner_frame_sha256 existing = inner_sha) StorageConflictError) (\<lambda>_.
          mret \<lparr>ccr_receipt = receipt, ccr_inserted = False, ccr_resolution = rs_resolution existing\<rparr>)
      | None \<Rightarrow>
          mbind (if policy = SAVE_LAST then
                   mbind (mupd (\<lambda>s. s\<lparr>db_events := filter (\<lambda>e. \<not> list_ex (\<lambda>r. ar_session_id r = session \<and>
                            ar_row_id r = se_capture_row_id e) (db_captures s)) (db_events s)\<rparr>)) (\<lambda>_.
                   mbind (mupd (\<lambda>s. s\<lparr>db_captures := filter (\<lambda>r. ar_session_id r \<noteq> session) (db_captures s)\<rparr>)) (\<lambda>_.
                   update_resolutions (\<lambda>r. rs_session_id r = session) DISCARDED_BY_POLICY))
                 else mret ()) (\<lambda>_.
          mbind (if policy = SAVE_NONE then mret DISCARDED_BY_POLICY
                 else mbind (archive_delivery delivery frame capture inner_crc session group_id) (\<lambda>_.
                   mret RAW_ARCHIVED)) (\<lambda>resolution.
          mbind (insert_resolution capture inner_crc inner_sha resolution session (bd_stored_utc_ns delivery)) (\<lambda>_.
          mbind (count_delivery session (cd_capture_id capture)) (\<lambda>_.
          mbind prune_resolutions (\<lambda>_.
          mbind (delete_context (capture_context_key capture)) (\<lambda>_.
          mbind (finalize_summary_in_connection summary policy) (\<lambda>_.
          mret \<lparr>ccr_receipt = receipt, ccr_inserted = True, ccr_resolution = resolution\<rparr>)))))))))) "

text \<open>\<open>commit_delivery(..., _connection=connection)\<close>, inside the caller's transaction.\<close>

definition commit_within ::
  "BridgeCaptureDelivery \<Rightarrow> string \<Rightarrow> string option \<Rightarrow> string option \<Rightarrow> CoreCommitResult db" where
  "commit_within delivery save_policy session_id group_id =
     mbind (mlift (commit_arguments delivery save_policy session_id)) (\<lambda>(policy, session, frame, capture).
     commit_in_connection delivery policy session group_id frame capture)"

definition commit_replayed_delivery :: "BridgeCaptureDelivery \<Rightarrow> CoreCommitResult db" where
  "commit_replayed_delivery delivery =
     mbind (mlift (open_delivery delivery)) (\<lambda>(frame, capture).
     transaction (
       mbind mget (\<lambda>s.
       let policy_context = find (\<lambda>p. po_key p = (cd_device_id capture, cd_boot_id capture)) (db_policies s) in
       if list_ex (\<lambda>r. rs_key r = cd_key capture) (db_resolutions s)
       then commit_within delivery ''SAVE_ALL'' None None
       else case policy_context of
           None \<Rightarrow> mraise RuntimeError
         | Some p \<Rightarrow>
             (case find (\<lambda>r. sn_session_id r = po_session_id p) (db_sessions s) of
                Some row \<Rightarrow>
                  if sn_state row \<notin> set live_states
                  then terminal_replay_in_connection delivery capture (po_session_id p) (po_save_policy p)
                         (po_group_id p) (sn_summary row)
                  else commit_within delivery (policy_value (po_save_policy p)) (Some (po_session_id p)) (po_group_id p)
              | None \<Rightarrow>
                  commit_within delivery (policy_value (po_save_policy p)) (Some (po_session_id p)) (po_group_id p)))))"

section \<open>Groups and listing\<close>

fun distinct_capture_ids :: "bytes list \<Rightarrow> bytes list \<Rightarrow> bytes list res" where
  "distinct_capture_ids [] acc = Inr acc"
| "distinct_capture_ids (i # ids) acc =
     (if length i \<noteq> 16 then Inl ValueError
      else if i \<in> set acc then distinct_capture_ids ids acc
      else if length acc + 1 > 500 then Inl ValueError
      else distinct_capture_ids ids (acc @ [i]))"

definition assign_capture_group :: "bytes list \<Rightarrow> string option \<Rightarrow> int db" where
  "assign_capture_group capture_ids group_id =
     mbind (mlift (distinct_capture_ids capture_ids [])) (\<lambda>ids.
     mbind (mguard (ids \<noteq> []) ValueError) (\<lambda>_.
     transaction (
       mbind (validate_group_target group_id) (\<lambda>g.
       mbind mget (\<lambda>s.
       mbind (mguard (list_all (\<lambda>i. length (filter (\<lambda>r. ar_capture_id r = i) (db_captures s)) = 1) ids) KeyError) (\<lambda>_.
       mbind (mupd (\<lambda>s. s\<lparr>db_captures :=
         map (\<lambda>r. if ar_capture_id r \<in> set ids then r\<lparr>ar_group_id := g\<rparr> else r) (db_captures s)\<rparr>)) (\<lambda>_.
       mret (int (length ids)))))))))"

definition capture_count :: "int db" where
  "capture_count = mbind mget (\<lambda>s. mret (int (length (db_captures s))))"

definition resolution_count :: "int db" where
  "resolution_count = mbind mget (\<lambda>s. mret (int (length (db_resolutions s))))"

definition latest_capture_count :: "string \<Rightarrow> int db" where
  "latest_capture_count session_id =
     mbind (mlift (normalize_session_id (Some session_id))) (\<lambda>session.
     mbind mget (\<lambda>s. mret (int (length (filter (\<lambda>r. lc_session_id r = session) (db_latest s))))))"

record CaptureSummary =
  su_row_id :: int
  su_capture_id :: string
  su_device_id :: string
  su_boot_id :: string
  su_capture_sequence :: int
  su_sample_interval_ticks :: int
  su_sample_count :: int
  su_pretrigger_count :: int
  su_stored_utc_ns :: int
  su_session_id :: "string option"
  su_group_id :: "string option"
  su_experiment_id :: "string option"
  su_group_name :: "string option"
  su_experiment_name :: "string option"
  su_cell_id :: "string option"

text \<open>The two left joins of the listing query, for one row.\<close>

definition group_of :: "CaptureStore \<Rightarrow> ArchivedCapture \<Rightarrow> GroupRow option" where
  "group_of s r = (case ar_group_id r of None \<Rightarrow> None | Some g \<Rightarrow> find (\<lambda>x. gr_group_id x = g) (db_groups s))"

definition capture_summary :: "CaptureStore \<Rightarrow> ArchivedCapture \<Rightarrow> CaptureSummary" where
  "capture_summary s r =
     (let g = group_of s r;
          x = (case g of None \<Rightarrow> None
            | Some g \<Rightarrow> find (\<lambda>e. ex_experiment_id e = gr_experiment_id g) (db_experiments s)) in
      \<lparr>su_row_id = ar_row_id r, su_capture_id = py_hex (ar_capture_id r), su_device_id = py_hex (ar_device_id r),
       su_boot_id = py_hex (ar_boot_id r), su_capture_sequence = ar_capture_sequence r,
       su_sample_interval_ticks = ar_sample_interval_ticks r, su_sample_count = ar_sample_count r,
       su_pretrigger_count = ar_pretrigger_count r, su_stored_utc_ns = ar_stored_utc_ns r,
       su_session_id = (if ar_session_id r = [] then None else Some (ar_session_id r)),
       su_group_id = ar_group_id r, su_experiment_id = map_option gr_experiment_id g,
       su_group_name = map_option gr_name g, su_experiment_name = map_option ex_name x,
       su_cell_id = map_option gr_cell_id g\<rparr>)"

record listing_filter =
  lf_session_id :: "string option"
  lf_experiment_id :: "string option"
  lf_group_id :: "string option"
  lf_ungrouped :: bool

definition listing_session :: "string option \<Rightarrow> string option res" where
  "listing_session session_id =
     (case session_id of
        None \<Rightarrow> Inr None
      | Some text \<Rightarrow> rbind (fromhex text) (\<lambda>raw.
          if length raw \<noteq> 16 then Inl ValueError else Inr (Some (py_hex raw))))"

definition optional_entity :: "string option \<Rightarrow> string option res" where
  "optional_entity v = (case v of None \<Rightarrow> Inr None | Some x \<Rightarrow> rbind (validate_entity_id x) (\<lambda>y. Inr (Some y)))"

text \<open>The \<open>WHERE\<close> clause without the cursor.\<close>

definition listed :: "CaptureStore \<Rightarrow> listing_filter \<Rightarrow> ArchivedCapture \<Rightarrow> bool" where
  "listed s f r \<longleftrightarrow>
     (case lf_session_id f of None \<Rightarrow> True | Some v \<Rightarrow> ar_session_id r = v) \<and>
     (case lf_experiment_id f of None \<Rightarrow> True | Some v \<Rightarrow> map_option gr_experiment_id (group_of s r) = Some v) \<and>
     (case lf_group_id f of None \<Rightarrow> True | Some v \<Rightarrow> ar_group_id r = Some v) \<and>
     (lf_ungrouped f \<longrightarrow> ar_group_id r = None)"

definition check_filter :: "listing_filter \<Rightarrow> listing_filter db" where
  "check_filter f =
     mbind (mlift (listing_session (lf_session_id f))) (\<lambda>session.
     mbind (mguard (\<not> (lf_ungrouped f \<and> (lf_experiment_id f \<noteq> None \<or> lf_group_id f \<noteq> None))) ValueError) (\<lambda>_.
     mbind (mlift (optional_entity (lf_experiment_id f))) (\<lambda>experiment.
     mbind (mlift (optional_entity (lf_group_id f))) (\<lambda>grp.
     mbind mget (\<lambda>s.
     mbind (case experiment of
              None \<Rightarrow> mret ()
            | Some x \<Rightarrow> mguard (list_ex (\<lambda>e. ex_experiment_id e = x) (db_experiments s)) KeyError) (\<lambda>_.
     mbind (case grp of
              None \<Rightarrow> mret ()
            | Some g \<Rightarrow>
                (case find (\<lambda>r. gr_group_id r = g) (db_groups s) of
                   None \<Rightarrow> mraise KeyError
                 | Some owner \<Rightarrow>
                     mguard (experiment = None \<or> experiment = Some (gr_experiment_id owner)) ValueError)) (\<lambda>_.
     mret \<lparr>lf_session_id = session, lf_experiment_id = experiment, lf_group_id = grp,
           lf_ungrouped = lf_ungrouped f\<rparr>)))))))"

definition list_captures :: "int \<Rightarrow> int \<Rightarrow> listing_filter \<Rightarrow> (CaptureSummary list \<times> int option) db" where
  "list_captures after_row_id limit f =
     mbind (mguard (0 \<le> after_row_id) ValueError) (\<lambda>_.
     mbind (mguard (1 \<le> limit \<and> limit \<le> 100) ValueError) (\<lambda>_.
     mbind (check_filter f) (\<lambda>f.
     mbind mget (\<lambda>s.
     mbind (bind_ints [after_row_id]) (\<lambda>_.
     let rows = take (nat (limit + 1)) (sort_key ar_row_id
           (filter (\<lambda>r. after_row_id < ar_row_id r \<and> listed s f r) (db_captures s)));
         page = take (nat limit) rows;
         next_cursor = (if int (length rows) > limit then Some (ar_row_id (last page)) else None)
     in mret (map (capture_summary s) page, next_cursor))))))"

section \<open>Every operation keeps the store consistent\<close>

text \<open>A body of a transaction only has to keep the invariant when it returns.\<close>

definition ok_keeps :: "('s \<Rightarrow> bool) \<Rightarrow> ('s, 'a) meth \<Rightarrow> bool" where
  "ok_keeps I m \<longleftrightarrow> (\<forall>s x s'. I s \<longrightarrow> m s = (Inr x, s') \<longrightarrow> I s')"

lemma ok_keepsD: "ok_keeps I m \<Longrightarrow> I s \<Longrightarrow> m s = (Inr x, s') \<Longrightarrow> I s'"
  by (auto simp: ok_keeps_def)

lemma ok_keeps_bind: "ok_keeps I m \<Longrightarrow> (\<And>x. ok_keeps I (f x)) \<Longrightarrow> ok_keeps I (mbind m f)"
  unfolding ok_keeps_def mbind_ok_iff by blast

lemma ok_keeps_basic:
  "ok_keeps I (mret x)" "ok_keeps I (mraise e)" "ok_keeps I (mlift r)" "ok_keeps I mget" "ok_keeps I (mguard b e)"
  "ok_keeps I (bind_ints xs)"
  by (simp_all add: ok_keeps_def mguard_ok bind_ints_ok)

lemma ok_keeps_mupd: "(\<And>s. I s \<Longrightarrow> I (g s)) \<Longrightarrow> ok_keeps I (mupd g)"
  by (simp add: ok_keeps_def)

lemma ok_keeps_if: "(c \<Longrightarrow> ok_keeps I m) \<Longrightarrow> (\<not> c \<Longrightarrow> ok_keeps I m') \<Longrightarrow> ok_keeps I (if c then m else m')"
  by simp

lemma ok_keeps_group: "ok_keeps I (validate_group_target g)"
  using validate_group_target_ok by (fastforce simp: ok_keeps_def)

lemmas ok_keeps_rules = ok_keeps_bind ok_keeps_basic ok_keeps_if ok_keeps_group

lemma keeps_transaction: "ok_keeps I m \<Longrightarrow> keeps I (transaction m)"
  unfolding keeps_def ok_keeps_def transaction_def by (auto split: prod.splits sum.splits)

subsection \<open>The pieces\<close>

lemma update_resolutions_inv:
  assumes "store_inv s"
  shows "store_inv (s\<lparr>db_resolutions := map (\<lambda>r. if P r then r\<lparr>rs_resolution := x\<rparr> else r) (db_resolutions s)\<rparr>)"
proof -
  let ?h = "\<lambda>r. if P r then r\<lparr>rs_resolution := x\<rparr> else r"
  have ids: "map rs_row_id (map ?h rows) = map rs_row_id rows" "map rs_key (map ?h rows) = map rs_key rows" for rows
    by (simp_all add: rs_key_def)
  have "list_all (\<lambda>r. 1 \<le> rs_row_id r \<and> rs_row_id r \<le> db_last_resolution_row s) (map ?h (db_resolutions s))"
    using assms by (auto simp: store_inv_def resolutions_inv_def list_all_iff)
  then show ?thesis
    using assms ids unfolding store_inv_def resolutions_inv_def sessions_inv_def by (simp del: map_map)
qed

lemma update_resolutions_keeps: "ok_keeps store_inv (update_resolutions P x)"
  unfolding update_resolutions_def by (intro ok_keeps_mupd update_resolutions_inv)

lemma delete_context_keeps: "ok_keeps store_inv (delete_context k)"
  unfolding delete_context_def by (intro ok_keeps_mupd drop_context_inv)

lemma archive_keeps:
  assumes "decode_frame (bd_inner_frame d) = Inr f" "decode_capture_data (payload f) = Inr c"
  shows "ok_keeps store_inv (archive_delivery d f c (crc32_iso_hdlc (bd_inner_frame d)) sess g)"
  unfolding ok_keeps_def
proof (intro allI impI)
  fix s x s'
  assume s: "store_inv s" and a: "archive_delivery d f c (crc32_iso_hdlc (bd_inner_frame d)) sess g s = (Inr x, s')"
  have ci: "captures_inv (db_captures s) (db_last_capture_row s) (db_events s)" using s by (simp add: store_inv_def)
  note e = archive_delivery_effect [OF ci assms a]
  show "store_inv s'"
    using s e(1) beside_archive_fields [OF e(2)] sessions_inv_beside [OF e(2)] by (simp add: store_inv_def)
qed

lemma captures_inv_filter:
  assumes "captures_inv rows n events"
    and "\<And>e r. r \<in> set rows \<Longrightarrow> ar_row_id r = se_capture_row_id e \<Longrightarrow> P r = Q e"
  shows "captures_inv (filter P rows) n (filter Q events)"
proof -
  have rows: "\<forall>r \<in> set rows. 1 \<le> ar_row_id r \<and> ar_row_id r \<le> n \<and> archived_ok events r"
    and ev: "se_capture_row_id ` set events \<subseteq> ar_row_id ` set rows"
    using assms(1) by (simp_all add: captures_inv_def list_all_iff)
  have "filter (\<lambda>e. se_capture_row_id e = ar_row_id r) (filter Q events) =
      filter (\<lambda>e. se_capture_row_id e = ar_row_id r) events" if "r \<in> set rows" "P r" for r
    using assms(2) [OF that(1)] that(2) by (auto simp: filter_filter intro!: filter_cong)
  then have "archived_ok (filter Q events) r" if "r \<in> set rows" "P r" for r
    using rows that by (auto simp: archived_ok_def simp del: filter_filter)
  moreover have "se_capture_row_id ` set (filter Q events) \<subseteq> ar_row_id ` set (filter P rows)"
  proof
    fix i assume "i \<in> se_capture_row_id ` set (filter Q events)"
    then obtain e where e: "e \<in> set events" "Q e" "i = se_capture_row_id e" by auto
    with ev obtain r where "r \<in> set rows" "ar_row_id r = se_capture_row_id e" by force
    then show "i \<in> ar_row_id ` set (filter P rows)" using assms(2) e by (force intro!: rev_image_eqI)
  qed
  ultimately show ?thesis
    using assms(1) rows by (auto simp: captures_inv_def list_all_iff distinct_map_filter sorted_ids_filter)
qed

lemma captures_inv_row_ids:
  "captures_inv rows n events \<Longrightarrow> r \<in> set rows \<Longrightarrow> r' \<in> set rows \<Longrightarrow> ar_row_id r = ar_row_id r' \<Longrightarrow> r = r'"
  by (auto simp: captures_inv_def strict_sorted_iff distinct_map dest: inj_onD)

text \<open>The archive of a closed SAVE\_LAST session is emptied before the late frame goes in.\<close>

lemma purge_inv:
  assumes "store_inv s"
  shows "store_inv (s\<lparr>db_events := filter (\<lambda>e. \<not> list_ex (\<lambda>r. ar_session_id r = u \<and> ar_row_id r = se_capture_row_id e)
       (db_captures s)) (db_events s), db_captures := filter (\<lambda>r. ar_session_id r \<noteq> u) (db_captures s)\<rparr>)"
proof -
  have c: "captures_inv (db_captures s) (db_last_capture_row s) (db_events s)" using assms by (simp add: store_inv_def)
  have "captures_inv (filter (\<lambda>r. ar_session_id r \<noteq> u) (db_captures s)) (db_last_capture_row s)
    (filter (\<lambda>e. \<not> list_ex (\<lambda>r. ar_session_id r = u \<and> ar_row_id r = se_capture_row_id e)
       (db_captures s)) (db_events s))"
    by (rule captures_inv_filter [OF c]) (auto simp: list_ex_iff dest: captures_inv_row_ids [OF c])
  then show ?thesis using assms by (simp add: store_inv_def sessions_inv_def)
qed

lemma upsert_session_summary_keeps: "ok_keeps store_inv (upsert_session_summary p)"
  unfolding upsert_session_summary_def
  by (intro ok_keeps_rules ok_keeps_mupd) (auto simp: store_inv_def sessions_inv_def intro: upsert_keys)

lemma latest_filter_inv: "store_inv s \<Longrightarrow> store_inv (s\<lparr>db_latest := filter P (db_latest s)\<rparr>)"
  by (auto simp: store_inv_def sessions_inv_def list_all_iff distinct_map_filter)

lemma finalize_latest_keeps: "ok_keeps store_inv (finalize_latest_in_connection u)"
  unfolding ok_keeps_def
proof (intro allI impI)
  fix s x s'
  assume s: "store_inv s" and run: "finalize_latest_in_connection u s = (Inr x, s')"
  show "store_inv s'"
  proof (cases "find (\<lambda>r. lc_session_id r = u) (db_latest s)")
    case None
    then show ?thesis using s run by (simp add: finalize_latest_in_connection_def)
  next
    case (Some row)
    let ?d = "lc_delivery row"
    from run Some obtain f c where f: "decode_frame (bd_inner_frame ?d) = Inr f" "decode_capture_data (payload f) = Inr c"
      and rest: "mbind (archive_delivery ?d f c (crc32_iso_hdlc (bd_inner_frame ?d)) u (lc_group_id row)) (\<lambda>_.
         mbind (delete_context (capture_context_key c)) (\<lambda>_.
         mbind (mupd (\<lambda>s. s\<lparr>db_latest := filter (\<lambda>r. lc_session_id r \<noteq> u) (db_latest s)\<rparr>)) (\<lambda>_.
         mbind (update_resolutions (\<lambda>r. rs_key r = cd_key c) RAW_ARCHIVED) (\<lambda>_.
         mret (Some (cd_capture_id c)))))) s = (Inr x, s')"
      by (auto simp: finalize_latest_in_connection_def Let_def mbind_ok_iff)
    have "ok_keeps store_inv (mbind (archive_delivery ?d f c (crc32_iso_hdlc (bd_inner_frame ?d)) u (lc_group_id row)) (\<lambda>_.
         mbind (delete_context (capture_context_key c)) (\<lambda>_.
         mbind (mupd (\<lambda>s. s\<lparr>db_latest := filter (\<lambda>r. lc_session_id r \<noteq> u) (db_latest s)\<rparr>)) (\<lambda>_.
         mbind (update_resolutions (\<lambda>r. rs_key r = cd_key c) RAW_ARCHIVED) (\<lambda>_.
         mret (Some (cd_capture_id c)))))))"
      by (intro ok_keeps_bind archive_keeps [OF f] delete_context_keeps ok_keeps_mupd latest_filter_inv
          update_resolutions_keeps ok_keeps_basic)
    then show ?thesis using s rest by (rule ok_keepsD)
  qed
qed

lemma finalize_summary_keeps: "ok_keeps store_inv (finalize_summary_in_connection p pol)"
  unfolding finalize_summary_in_connection_def Let_def
  by (intro ok_keeps_rules finalize_latest_keeps upsert_session_summary_keeps)

text \<open>A fresh tombstone needs an identity that has none; the steps before it do not give one out.\<close>

definition unresolved :: "CaptureData \<Rightarrow> CaptureStore \<Rightarrow> bool" where
  "unresolved c s \<longleftrightarrow> store_inv s \<and> cd_key c \<notin> rs_key ` set (db_resolutions s)"

lemma update_resolutions_unresolved: "ok_keeps (unresolved c) (update_resolutions P x)"
proof -
  have "unresolved c (s\<lparr>db_resolutions := map (\<lambda>r. if P r then r\<lparr>rs_resolution := x\<rparr> else r) (db_resolutions s)\<rparr>)"
    if "unresolved c s" for s
    using that update_resolutions_inv [of s P x] by (auto simp: unresolved_def rs_key_def)
  then show ?thesis unfolding update_resolutions_def by (intro ok_keeps_mupd)
qed

lemma archive_unresolved:
  assumes "decode_frame (bd_inner_frame d) = Inr f" "decode_capture_data (payload f) = Inr c"
  shows "ok_keeps (unresolved k) (archive_delivery d f c (crc32_iso_hdlc (bd_inner_frame d)) sess g)"
  unfolding ok_keeps_def
proof (intro allI impI)
  fix s x s'
  assume s: "unresolved k s" and a: "archive_delivery d f c (crc32_iso_hdlc (bd_inner_frame d)) sess g s = (Inr x, s')"
  have "store_inv s'" using ok_keepsD [OF archive_keeps [OF assms] _ a] s by (simp add: unresolved_def)
  moreover have "db_resolutions s' = db_resolutions s"
    using a by (cases rule: archive_delivery_ok) simp_all
  ultimately show "unresolved k s'" using s by (simp add: unresolved_def)
qed

lemma purge_unresolved:
  "ok_keeps (unresolved c) (mbind (mupd (\<lambda>s. s\<lparr>db_events := filter (\<lambda>e. \<not> list_ex (\<lambda>r. ar_session_id r = u \<and>
       ar_row_id r = se_capture_row_id e) (db_captures s)) (db_events s)\<rparr>)) (\<lambda>_.
     mbind (mupd (\<lambda>s. s\<lparr>db_captures := filter (\<lambda>r. ar_session_id r \<noteq> u) (db_captures s)\<rparr>)) (\<lambda>_.
     update_resolutions P x)))"
proof -
  have "ok_keeps (unresolved c) (mupd (\<lambda>s. s\<lparr>db_events := filter (\<lambda>e. \<not> list_ex (\<lambda>r. ar_session_id r = u \<and>
       ar_row_id r = se_capture_row_id e) (db_captures s)) (db_events s),
       db_captures := filter (\<lambda>r. ar_session_id r \<noteq> u) (db_captures s)\<rparr>))"
    using purge_inv by (intro ok_keeps_mupd) (auto simp: unresolved_def)
  then have "ok_keeps (unresolved c) (mbind (mupd (\<lambda>s. s\<lparr>db_events := filter (\<lambda>e. \<not> list_ex (\<lambda>r. ar_session_id r = u \<and>
       ar_row_id r = se_capture_row_id e) (db_captures s)) (db_events s),
       db_captures := filter (\<lambda>r. ar_session_id r \<noteq> u) (db_captures s)\<rparr>)) (\<lambda>_. update_resolutions P x))"
    by (intro ok_keeps_bind update_resolutions_unresolved)
  then show ?thesis by (simp add: ok_keeps_def mbind_run)
qed

lemma settle_keeps:
  fixes d :: BridgeCaptureDelivery
  assumes "unresolved c s"
    and "mbind (insert_resolution c (crc32_iso_hdlc (bd_inner_frame d)) (sha256 (bd_inner_frame d)) resolution u utc) (\<lambda>_.
       mbind (count_delivery u (cd_capture_id c)) (\<lambda>_. mbind prune_resolutions m)) s = (Inr r, s')"
    and "utc = bd_stored_utc_ns d" "ok_keeps store_inv (m ())"
  shows "store_inv s'"
proof -
  have "m () (settled d c True u resolution s) = (Inr r, s')"
    using assms(2,3) by (auto simp: insert_resolution_def mbind_ok_iff bind_ints_ok count_delivery_def
        prune_resolutions_def settled_def)
  moreover have "store_inv (settled d c True u resolution s)"
    using assms(1) settled_effect(1) by (simp add: unresolved_def)
  ultimately show ?thesis using ok_keepsD [OF assms(4)] by blast
qed

text \<open>A terminal replay that returns: the frame was known, or its tombstone is inserted after the purge.\<close>

definition replay_tail ::
  "BridgeCaptureDelivery \<Rightarrow> CaptureData \<Rightarrow> string \<Rightarrow> SavePolicy \<Rightarrow> SessionSummary \<Rightarrow> CaptureResolution \<Rightarrow> CoreCommitResult db" where
  "replay_tail d c u pol summary resolution =
     mbind (insert_resolution c (crc32_iso_hdlc (bd_inner_frame d)) (sha256 (bd_inner_frame d))
        resolution u (bd_stored_utc_ns d)) (\<lambda>_. mbind (count_delivery u (cd_capture_id c)) (\<lambda>_. mbind prune_resolutions (\<lambda>_.
        mbind (delete_context (capture_context_key c)) (\<lambda>_. mbind (finalize_summary_in_connection summary pol) (\<lambda>_.
        mret \<lparr>ccr_receipt = store_receipt d c (crc32_iso_hdlc (bd_inner_frame d)), ccr_inserted = True,
              ccr_resolution = resolution\<rparr>)))))"

lemma terminal_replay_ok:
  assumes "decode_capture_data (payload f) = Inr c" "decode_frame (bd_inner_frame d) = Inr f"
    and s: "store_inv s" and run: "terminal_replay_in_connection d c u pol g summary s = (Inr r, s')"
  obtains (known) t where "t \<in> set (db_resolutions s)" "tombstone_for d c t" "s' = s"
      "ccr_receipt r = store_receipt d c (crc32_iso_hdlc (bd_inner_frame d))"
    | (fresh) s2 resolution where "unresolved c s2" "replay_tail d c u pol summary resolution s2 = (Inr r, s')"
      "ccr_receipt r = store_receipt d c (crc32_iso_hdlc (bd_inner_frame d))"
proof (cases "find (\<lambda>r. rs_key r = cd_key c) (db_resolutions s)")
  case (Some t)
  then have "t \<in> set (db_resolutions s)" "rs_key t = cd_key c" by (auto dest: find_SomeD)
  then show thesis
    using known [of t] run assms(1,2) Some
    by (auto simp: terminal_replay_in_connection_def Let_def tombstone_for_def split: if_splits)
next
  case None
  let ?purge = "if pol = SAVE_LAST then
       mbind (mupd (\<lambda>s. s\<lparr>db_events := filter (\<lambda>e. \<not> list_ex (\<lambda>r. ar_session_id r = u \<and>
                ar_row_id r = se_capture_row_id e) (db_captures s)) (db_events s)\<rparr>)) (\<lambda>_.
       mbind (mupd (\<lambda>s. s\<lparr>db_captures := filter (\<lambda>r. ar_session_id r \<noteq> u) (db_captures s)\<rparr>)) (\<lambda>_.
       update_resolutions (\<lambda>r. rs_session_id r = u) DISCARDED_BY_POLICY)) else mret ()"
  let ?archive = "if pol = SAVE_NONE then mret DISCARDED_BY_POLICY
     else mbind (archive_delivery d f c (crc32_iso_hdlc (bd_inner_frame d)) u g) (\<lambda>_. mret RAW_ARCHIVED)"
  have "unresolved c s" using s None by (auto simp: unresolved_def find_None_iff)
  moreover have "mbind ?purge (\<lambda>_. mbind ?archive (replay_tail d c u pol summary)) s = (Inr r, s')"
    using run None assms(1,2)
    by (simp add: terminal_replay_in_connection_def replay_tail_def [abs_def] Let_def del: mbind_mupd split del: if_split)
  then obtain x resolution s1 s2 where p: "?purge s = (Inr x, s1)" and a: "?archive s1 = (Inr resolution, s2)"
    and rest: "replay_tail d c u pol summary resolution s2 = (Inr r, s')"
    unfolding mbind_ok_iff [of ?purge] mbind_ok_iff [of ?archive] by blast
  moreover have "ok_keeps (unresolved c) ?purge" "ok_keeps (unresolved c) ?archive"
    by (intro ok_keeps_if purge_unresolved ok_keeps_basic ok_keeps_bind archive_unresolved [OF assms(2,1)])+
  ultimately have "unresolved c s2" by (blast dest: ok_keepsD)
  moreover have "ccr_receipt r = store_receipt d c (crc32_iso_hdlc (bd_inner_frame d))"
    using rest by (auto simp: replay_tail_def mbind_ok_iff)
  ultimately show thesis using fresh rest by blast
qed

lemma terminal_replay_keeps:
  assumes "decode_capture_data (payload f) = Inr c" "decode_frame (bd_inner_frame d) = Inr f"
  shows "ok_keeps store_inv (terminal_replay_in_connection d c u pol g summary)"
  unfolding ok_keeps_def
proof (intro allI impI)
  fix s r s'
  assume s: "store_inv s" and run: "terminal_replay_in_connection d c u pol g summary s = (Inr r, s')"
  from assms s run show "store_inv s'"
  proof (cases rule: terminal_replay_ok)
    case (fresh s2 resolution)
    show ?thesis
      by (rule settle_keeps [OF fresh(1) fresh(2) [unfolded replay_tail_def] refl])
        (intro ok_keeps_bind delete_context_keeps finalize_summary_keeps ok_keeps_basic)
  qed (use s in simp)
qed

subsection \<open>The public operations\<close>

lemma commit_within_keeps: "ok_keeps store_inv (commit_within d pol sess g)"
  unfolding ok_keeps_def
proof (intro allI impI)
  fix s r s'
  assume s: "store_inv s" and run: "commit_within d pol sess g s = (Inr r, s')"
  then obtain p u f c where "open_delivery d = Inr (f, c)" "commit_in_connection d p u g f c s = (Inr r, s')"
    by (auto simp: commit_within_def mbind_ok_iff commit_arguments_def split: if_splits)
  then show "store_inv s'" using commit_in_connection_effect(1) [OF s] by blast
qed

lemma commit_delivery_keeps: "keeps store_inv (commit_delivery d pol sess g)"
  unfolding keeps_def
proof (intro allI impI)
  fix s assume s: "store_inv s"
  obtain r s' where run: "commit_delivery d pol sess g s = (r, s')" by force
  show "store_inv (snd (commit_delivery d pol sess g s))"
  proof (cases r)
    case (Inl e)
    then have "s' = s" using run by (auto simp: commit_delivery_def mbind_run transaction_error split: sum.splits)
    then show ?thesis using run s by simp
  next
    case (Inr x)
    then obtain p u f c where "open_delivery d = Inr (f, c)" "commit_in_connection d p u g f c s = (Inr x, s')"
      using run commit_delivery_run by metis
    then show ?thesis using commit_in_connection_effect(1) [OF s] run by simp
  qed
qed

lemma commit_replayed_keeps: "keeps store_inv (commit_replayed_delivery d)"
proof (cases "open_delivery d")
  case (Inl e)
  then show ?thesis by (simp add: commit_replayed_delivery_def keeps_def)
next
  case (Inr fc)
  obtain f c where fc: "fc = (f, c)" by force
  note o = open_delivery_ok(2,1) [OF Inr [unfolded fc]]
  have "commit_replayed_delivery d = transaction (mbind mget (\<lambda>s.
       if list_ex (\<lambda>r. rs_key r = cd_key c) (db_resolutions s)
       then commit_within d ''SAVE_ALL'' None None
       else case find (\<lambda>p. po_key p = (cd_device_id c, cd_boot_id c)) (db_policies s) of
           None \<Rightarrow> mraise RuntimeError
         | Some p \<Rightarrow>
             (case find (\<lambda>r. sn_session_id r = po_session_id p) (db_sessions s) of
                Some row \<Rightarrow>
                  if sn_state row \<notin> set live_states
                  then terminal_replay_in_connection d c (po_session_id p) (po_save_policy p)
                         (po_group_id p) (sn_summary row)
                  else commit_within d (policy_value (po_save_policy p)) (Some (po_session_id p)) (po_group_id p)
              | None \<Rightarrow>
                  commit_within d (policy_value (po_save_policy p)) (Some (po_session_id p)) (po_group_id p))))"
    by (rule ext) (simp add: commit_replayed_delivery_def Inr fc Let_def)
  then show ?thesis
    by (auto intro!: keeps_transaction ok_keeps_rules commit_within_keeps terminal_replay_keeps [OF o]
        split: option.splits)
qed

lemma archive_row_regroup:
  "(archive_row i d f c crc ctx u g)\<lparr>ar_group_id := g'\<rparr> = archive_row i d f c crc ctx u g'"
  by (simp add: archive_row_def)

lemma assign_group_inv:
  assumes "store_inv s"
  shows "store_inv (s\<lparr>db_captures := map (\<lambda>r. if P r then r\<lparr>ar_group_id := g\<rparr> else r) (db_captures s)\<rparr>)"
proof -
  let ?h = "\<lambda>r. if P r then r\<lparr>ar_group_id := g\<rparr> else r"
  have ids: "map ar_row_id (map ?h rows) = map ar_row_id rows" "map ar_key (map ?h rows) = map ar_key rows" for rows
    by (simp_all add: ar_key_def)
  have set_ids: "ar_row_id ` set (map ?h rows) = ar_row_id ` set rows" for rows
    using ids(1) by (metis list.set_map)
  have "archived_as (r\<lparr>ar_group_id := g\<rparr>) f c" if as: "archived_as r f c" for r f c
  proof -
    obtain d ctx where "r = archive_row (ar_row_id r) d f c (crc32_iso_hdlc (bd_inner_frame d)) ctx (ar_session_id r) (ar_group_id r)"
      using as by (auto simp: archived_as_def)
    then have "\<exists>d ctx. r\<lparr>ar_group_id := g\<rparr> =
        archive_row (ar_row_id r) d f c (crc32_iso_hdlc (bd_inner_frame d)) ctx (ar_session_id r) g"
      by (metis archive_row_regroup)
    then show ?thesis using as by (simp add: archived_as_def)
  qed
  then have ok: "archived_ok es (r\<lparr>ar_group_id := g\<rparr>)" if "archived_ok es r" for es r
    using that by (simp add: archived_ok_def) blast
  have "list_all (\<lambda>r. 1 \<le> ar_row_id r \<and> ar_row_id r \<le> db_last_capture_row s \<and> archived_ok (db_events s) r)
      (map ?h (db_captures s))"
    using assms ok by (auto simp: store_inv_def captures_inv_def list_all_iff)
  then show ?thesis
    using assms ids set_ids unfolding store_inv_def captures_inv_def sessions_inv_def
    by (simp del: map_map set_map)
qed

lemma put_policy_keys: "distinct (map po_key rows) \<Longrightarrow> distinct (map po_key (put_policy d b u p g rows))"
proof (cases "find (\<lambda>x. po_key x = (d, b)) rows")
  case None
  then have "(d, b) \<notin> po_key ` set rows" by (auto simp: find_None_iff)
  moreover assume "distinct (map po_key rows)"
  ultimately show ?thesis using None by (simp add: put_policy_def) (simp add: po_key_def)
next
  case (Some x)
  have "map po_key (map (\<lambda>x. if po_key x = (d, b)
      then x\<lparr>po_session_id := u, po_save_policy := p, po_group_id := g\<rparr> else x) rows) = map po_key rows"
    by (simp add: po_key_def)
  moreover assume "distinct (map po_key rows)"
  ultimately show ?thesis using Some by (simp add: put_policy_def del: map_map)
qed

lemma policies_inv: "store_inv s \<Longrightarrow> distinct (map po_key rows) \<Longrightarrow> store_inv (s\<lparr>db_policies := rows\<rparr>)"
  by (simp add: store_inv_def sessions_inv_def)

lemma register_keeps: "keeps store_inv (register_delivery_policy d b u p g)"
  unfolding register_delivery_policy_def Let_def
  by (intro keeps_bind keeps_basic keeps_transaction ok_keeps_bind ok_keeps_group ok_keeps_mupd policies_inv
      distinct_map_filter put_policy_keys) (auto simp: store_inv_def sessions_inv_def)

lemma unregister_keeps: "keeps store_inv (unregister_delivery_policy d b u)"
  unfolding unregister_delivery_policy_def
  by (intro keeps_bind keeps_basic keeps_transaction ok_keeps_mupd policies_inv distinct_map_filter)
    (auto simp: store_inv_def sessions_inv_def)

lemma save_context_keeps: "keeps store_inv (save_configuration_context c)"
  unfolding save_configuration_context_def
  by (intro keeps_bind keeps_basic keeps_transaction ok_keeps_bind ok_keeps_basic ok_keeps_mupd)
    (auto simp: store_inv_def sessions_inv_def intro: upsert_keys)

lemma finalize_session_keeps: "keeps store_inv (finalize_session_summary p)"
  unfolding finalize_session_summary_def
  by (intro keeps_bind keeps_basic keeps_transaction finalize_summary_keeps)

lemma close_sessions_keeps: "keeps store_inv (close_sessions rows)"
proof (induction rows)
  case Nil
  show ?case unfolding close_sessions.simps by (rule keeps_basic)
next
  case (Cons row rows)
  show ?case unfolding close_sessions.simps by (intro keeps_bind finalize_session_keeps Cons.IH)
qed


section \<open>Paging\<close>

text \<open>A client that follows \<open>next_cursor\<close> until it is null; the first argument bounds the number of requests.\<close>

fun follow_pages :: "nat \<Rightarrow> int \<Rightarrow> int \<Rightarrow> listing_filter \<Rightarrow> CaptureStore \<Rightarrow> CaptureSummary list option" where
  "follow_pages 0 after_row_id limit f s = None"
| "follow_pages (Suc n) after_row_id limit f s =
     (case list_captures after_row_id limit f s of
        (Inr (items, None), _) \<Rightarrow> Some items
      | (Inr (items, Some cursor), s') \<Rightarrow> map_option ((@) items) (follow_pages n cursor limit f s')
      | (Inl _, _) \<Rightarrow> None)"

lemma filter_after_nth:
  fixes key :: "'a \<Rightarrow> int"
  assumes "sorted_wrt (<) (map key xs)" "n < length xs"
  shows "filter (\<lambda>r. key (xs ! n) < key r) xs = drop (Suc n) xs"
proof -
  have xs: "xs = take n xs @ xs ! n # drop (Suc n) xs" using assms(2) by (rule id_take_nth_drop)
  have "sorted_wrt (<) (map key (take n xs) @ key (xs ! n) # map key (drop (Suc n) xs))"
    using assms(1) xs by (metis list.simps(9) map_append)
  then have "\<forall>r \<in> set (take n xs). \<not> key (xs ! n) < key r" "\<forall>r \<in> set (drop (Suc n) xs). key (xs ! n) < key r"
    by (auto simp: sorted_wrt_append)
  then have "filter (\<lambda>r. key (xs ! n) < key r) (take n xs) = []"
    "filter (\<lambda>r. key (xs ! n) < key r) (drop (Suc n) xs) = drop (Suc n) xs"
    by (simp_all add: filter_empty_conv)
  then show ?thesis by (subst (2) xs) simp
qed

lemma list_captures_page:
  assumes "store_inv s" "check_filter f s = (Inr f', s)" "0 \<le> after" "sqlite_int after" "1 \<le> limit" "limit \<le> 100"
    and rows: "rows = filter (\<lambda>r. after < ar_row_id r) (filter (listed s f') (db_captures s))"
  shows "list_captures after limit f s = (Inr (map (capture_summary s) (take (nat limit) rows),
      if int (length rows) > limit then Some (ar_row_id (rows ! (nat limit - 1))) else None), s)"
proof -
  have "sorted_wrt (<) (map ar_row_id rows)"
    using assms(1) unfolding rows store_inv_def captures_inv_def by (simp add: sorted_ids_filter del: filter_filter)
  then have sort: "sort_key ar_row_id rows = rows" by (intro sort_key_id_if_sorted strict_sorted_imp_sorted)
  have "filter (\<lambda>r. after < ar_row_id r \<and> listed s f' r) (db_captures s) = rows"
    by (simp add: rows conj_commute)
  moreover have "last (take (nat limit) rows) = rows ! (nat limit - 1)" if "int (length rows) > limit"
    using that assms(5) by (subst last_conv_nth) (auto simp: min_def)
  ultimately show ?thesis
    using assms(2-6) sort
    by (auto simp: list_captures_def mbind_run mguard_run bind_ints_def Let_def take_take min_def)
qed

lemma follow_pages_rows:
  assumes "store_inv s" "check_filter f s = (Inr f', s)" "1 \<le> limit" "limit \<le> 100"
    and "db_last_capture_row s < 2 ^ 63" "0 \<le> after" "sqlite_int after"
    and "rows = filter (\<lambda>r. after < ar_row_id r) (filter (listed s f') (db_captures s))"
    and "length rows < n"
  shows "follow_pages n after limit f s = Some (map (capture_summary s) rows)"
  using assms(6-9)
proof (induction n arbitrary: after rows)
  case (Suc n)
  note prems = Suc.prems
  note page = list_captures_page [OF assms(1,2) prems(1,2) assms(3,4) prems(3)]
  show ?case
  proof (cases "int (length rows) > limit")
    case False
    then show ?thesis using page by simp
  next
    case True
    let ?k = "nat limit - 1"
    let ?c = "ar_row_id (rows ! ?k)"
    have k: "?k < length rows" "Suc ?k = nat limit" using True assms(3) by auto
    have "rows ! ?k \<in> set rows" using k(1) by simp
    then have c: "after < ?c" "1 \<le> ?c" "?c \<le> db_last_capture_row s"
      using assms(1) unfolding prems(3) by (auto simp: store_inv_def captures_inv_def list_all_iff)
    then have c2: "0 \<le> ?c" "sqlite_int ?c" using assms(5) by (auto simp: sqlite_int_def)
    have "sorted_wrt (<) (map ar_row_id rows)"
      using assms(1) unfolding prems(3) store_inv_def captures_inv_def
      by (simp add: sorted_ids_filter del: filter_filter)
    then have "filter (\<lambda>r. ?c < ar_row_id r) rows = drop (nat limit) rows"
      using filter_after_nth [OF _ k(1)] k(2) by simp
    moreover have "filter (\<lambda>r. ?c < ar_row_id r) rows =
        filter (\<lambda>r. ?c < ar_row_id r) (filter (listed s f') (db_captures s))"
      unfolding prems(3) filter_filter by (rule filter_cong) (use c(1) prems(3) in auto)
    ultimately have d: "drop (nat limit) rows =
        filter (\<lambda>r. ?c < ar_row_id r) (filter (listed s f') (db_captures s))" by simp
    have "length (drop (nat limit) rows) < n" using k prems(4) by simp
    from Suc.IH [OF c2 d this]
    have "map_option ((@) (map (capture_summary s) (take (nat limit) rows))) (follow_pages n ?c limit f s) =
      Some (map (capture_summary s) rows)"
      by (simp flip: map_append)
    then show ?thesis using page True by simp
  qed
qed simp

text \<open>C17 (equivalence). Paging is complete: on a consistent store, a client that starts at cursor 0 and follows
  \<open>next_cursor\<close> with any legal page size gets, in at most one request per archived capture plus one, exactly
  the summaries of the captures its filter selects, each once and in row order. (The bound on the row
  counter is SQLite's own.)\<close>

theorem listing_pages_are_complete:
  assumes "store_inv s" and "check_filter f s = (Inr f', s)" and "1 \<le> limit" and "limit \<le> 100"
    and "db_last_capture_row s < 2 ^ 63"
  shows "follow_pages (Suc (length (db_captures s))) 0 limit f s =
    Some (map (capture_summary s) (filter (listed s f') (db_captures s)))"
proof -
  let ?rows = "filter (listed s f') (db_captures s)"
  have "filter (\<lambda>r. 0 < ar_row_id r) ?rows = ?rows"
    unfolding filter_id_conv using assms(1) by (auto simp: store_inv_def captures_inv_def list_all_iff)
  then have "?rows = filter (\<lambda>r. 0 < ar_row_id r) ?rows" ..
  then show ?thesis
    by (intro follow_pages_rows [OF assms(1-5)]) (simp_all add: sqlite_int_def less_Suc_eq_le)
qed

theorem listing_pages_are_complete_witness:
  "\<exists>s row. db_captures s = [row] \<and> (let f = \<lparr>lf_session_id = None, lf_experiment_id = None, lf_group_id = None,
     lf_ungrouped = False\<rparr> in follow_pages 2 0 1 f s = Some [capture_summary s row])"
proof -
  obtain r s where c: "commit_delivery tiny_delivery ''SAVE_ALL'' None None new_store = (Inr r, s)"
    and n: "db_last_capture_row s = 1" "length (db_captures s) = 1"
    using tiny_commit by blast
  then obtain row where row: "db_captures s = [row]" by (auto simp: length_Suc_conv)
  have i: "store_inv s" using keepsD [OF commit_delivery_keeps new_store_inv] c by (metis snd_conv)
  let ?f = "\<lparr>lf_session_id = None, lf_experiment_id = None, lf_group_id = None, lf_ungrouped = False\<rparr>"
  have f: "check_filter ?f s = (Inr ?f, s)"
    by (simp add: check_filter_def listing_session_def optional_entity_def mbind_run mguard_run)
  have "db_last_capture_row s < 2 ^ 63" using n by simp
  from listing_pages_are_complete [OF i f _ _ this, of 1] show ?thesis
    by (intro exI [of _ s] exI [of _ row]) (simp add: row listed_def Let_def numeral_2_eq_2)
qed

section \<open>Closing a session\<close>

lemma normalize_session_idem:
  assumes "normalize_session_id x = Inr u"
  shows "normalize_session_id (Some u) = Inr u"
  using assms by (auto simp: normalize_session_id_def split: option.splits if_splits)

lemma finalize_latest_effect:
  assumes s: "store_inv s" and run: "finalize_latest_in_connection u s = (Inr x, s')"
  shows "u \<notin> lc_session_id ` set (db_latest s')"
    and "l \<in> set (db_latest s) \<Longrightarrow> lc_session_id l = u \<Longrightarrow>
      \<exists>row \<in> set (db_captures s'). ar_wire_frame row = bd_inner_frame (lc_delivery l)"
    and "prefix (db_captures s) (db_captures s')"
proof -
  have "u \<notin> lc_session_id ` set (db_latest s') \<and> (\<forall>l \<in> set (db_latest s). lc_session_id l = u \<longrightarrow>
      (\<exists>row \<in> set (db_captures s'). ar_wire_frame row = bd_inner_frame (lc_delivery l))) \<and>
      prefix (db_captures s) (db_captures s')"
  proof (cases "find (\<lambda>r. lc_session_id r = u) (db_latest s)")
    case None
    then have "s' = s" using run by (simp add: finalize_latest_in_connection_def)
    then show ?thesis using None by (auto simp: find_None_iff)
  next
    case (Some row)
    let ?d = "lc_delivery row"
    from run Some obtain f c b s1 where
      f: "decode_frame (bd_inner_frame ?d) = Inr f" "decode_capture_data (payload f) = Inr c"
      and a: "archive_delivery ?d f c (crc32_iso_hdlc (bd_inner_frame ?d)) u (lc_group_id row) s = (Inr b, s1)"
      and s': "db_latest s' = filter (\<lambda>r. lc_session_id r \<noteq> u) (db_latest s1)" "db_captures s' = db_captures s1"
      by (auto simp: finalize_latest_in_connection_def Let_def mbind_ok_iff delete_context_def update_resolutions_def)
    have ci: "captures_inv (db_captures s) (db_last_capture_row s) (db_events s)" using s by (simp add: store_inv_def)
    note e = archive_delivery_effect [OF ci f a]
    have "row \<in> set (db_latest s)" "lc_session_id row = u" using find_SomeD [OF Some] by auto
    then have "l = row" if "l \<in> set (db_latest s)" "lc_session_id l = u" for l
      using s that by (auto simp: store_inv_def sessions_inv_def distinct_map dest: inj_onD)
    then show ?thesis using e(3,4) s' by auto
  qed
  then show "u \<notin> lc_session_id ` set (db_latest s')"
    "l \<in> set (db_latest s) \<Longrightarrow> lc_session_id l = u \<Longrightarrow>
      \<exists>row \<in> set (db_captures s'). ar_wire_frame row = bd_inner_frame (lc_delivery l)"
    "prefix (db_captures s) (db_captures s')" by blast+
qed

lemma find_upsert: "find (\<lambda>x. key x = key r) (upsert key r rows) = Some r"
proof (cases "list_ex (\<lambda>x. key x = key r) rows")
  case True
  then have "find (\<lambda>x. key x = key r) (map (\<lambda>x. if key x = key r then r else x) rows) = Some r"
    by (induction rows) auto
  then show ?thesis using True by (simp add: upsert_def)
next
  case False
  then have "find (\<lambda>x. key x = key r) rows = None" by (auto simp: find_None_iff list_ex_iff)
  then have "find (\<lambda>x. key x = key r) (rows @ [r]) = Some r" by (induction rows) (auto split: if_splits)
  then show ?thesis using False by (simp add: upsert_def)
qed

lemma finalize_summary_run:
  assumes "finalize_summary_in_connection p pol s = (Inr q, s')"
  obtains u a s1 where "normalize_session_id (Some (sm_session_id p)) = Inr u" "sm_session_id q = u"
    "sm_state q = sm_state p" "sm_acquired_count q = Some a"
    "if pol = SAVE_LAST then \<exists>x. finalize_latest_in_connection u s = (Inr x, s1) else s1 = s"
    "sm_saved_count q = Some (int (length (filter (\<lambda>r. ar_session_id r = u) (db_captures s1))))"
    "sm_discarded_by_policy_count q =
       Some (max 0 (a - int (length (filter (\<lambda>r. ar_session_id r = u) (db_captures s1)))))"
    "s' = s1\<lparr>db_sessions := upsert sn_session_id \<lparr>sn_session_id = u, sn_state = sm_state q,
       sn_save_policy = sm_save_policy q, sn_summary = q, sn_updated_utc_ns = summary_time q\<rparr> (db_sessions s1)\<rparr>"
    "a = acquired_by s u"
proof -
  let ?first = "\<lambda>u. if pol = SAVE_LAST then mbind (finalize_latest_in_connection u) (\<lambda>_. mret ()) else mret ()"
  from assms obtain u v s1 where u: "normalize_session_id (Some (sm_session_id p)) = Inr u"
    and first: "?first u s = (Inr v, s1)"
    and q: "sm_session_id q = u" "sm_state q = sm_state p" "sm_acquired_count q = Some (acquired_by s u)"
    "sm_saved_count q = Some (int (length (filter (\<lambda>r. ar_session_id r = u) (db_captures s1))))"
    "sm_discarded_by_policy_count q =
       Some (max 0 (acquired_by s u - int (length (filter (\<lambda>r. ar_session_id r = u) (db_captures s1)))))"
    and s': "s' = s1\<lparr>db_sessions := upsert sn_session_id \<lparr>sn_session_id = u, sn_state = sm_state q,
       sn_save_policy = sm_save_policy q, sn_summary = q, sn_updated_utc_ns = summary_time q\<rparr> (db_sessions s1)\<rparr>"
    unfolding finalize_summary_in_connection_def Let_def mbind_ok_iff [of "mlift _"] mbind_ok_iff [of mget]
      mbind_ok_iff [of "if _ then _ else _"]
    by (auto simp: upsert_session_summary_def bind_ints_ok mbind_ok_iff with_saved_def with_acquired_def Let_def
        simp del: if_split split del: if_split)
  have "if pol = SAVE_LAST then \<exists>x. finalize_latest_in_connection u s = (Inr x, s1) else s1 = s"
    using first by (auto simp: mbind_ok_iff)
  then show thesis by (rule that [OF u q(1,2,3) _ q(4,5) s' refl])
qed

text \<open>C28 (functional). Closing a session freezes its data and its accounting together. When
  \<open>finalize_session_summary\<close> returns on a consistent store: the summary is in a terminal state; its saved
  count is the number of archived captures of the session, its discarded count is what was acquired beyond
  them and never negative; a SAVE\_LAST session has no rolling frame left, and the frame it had is in the
  archive byte for byte; nothing archived before has changed; and reading the session back gives exactly the
  returned summary.\<close>

theorem closed_session_accounts_for_its_captures:
  assumes "store_inv s" and "finalize_session_summary p s = (Inr q, s')"
  shows "sm_state q \<notin> set live_states \<and>
    (\<exists>n. sm_saved_count q = Some n \<and> n = int (length (filter (\<lambda>r. ar_session_id r = sm_session_id q) (db_captures s'))) \<and>
       sm_acquired_count q = Some (acquired_by s (sm_session_id q)) \<and>
       sm_discarded_by_policy_count q = Some (max 0 (acquired_by s (sm_session_id q) - n))) \<and>
    (policy_of (sm_save_policy p) = Inr SAVE_LAST \<longrightarrow> sm_session_id q \<notin> lc_session_id ` set (db_latest s') \<and>
       (\<forall>l \<in> set (db_latest s). lc_session_id l = sm_session_id q \<longrightarrow>
          (\<exists>row \<in> set (db_captures s'). ar_wire_frame row = bd_inner_frame (lc_delivery l)))) \<and>
    prefix (db_captures s) (db_captures s') \<and> get_session_summary (sm_session_id q) s' = (Inr q, s')"
proof -
  from assms(2) obtain w pol where st: "sm_state p \<notin> set live_states" "policy_of (sm_save_policy p) = Inr pol"
    and run: "finalize_summary_in_connection (p\<lparr>sm_session_id := w\<rparr>) pol s = (Inr q, s')"
    by (auto simp: finalize_session_summary_def mbind_ok_iff split: if_splits)
  from run obtain u s1 where u: "normalize_session_id (Some w) = Inr u" "sm_session_id q = u"
      "sm_state q = sm_state p" "sm_acquired_count q = Some (acquired_by s u)"
    and s1: "if pol = SAVE_LAST then \<exists>x. finalize_latest_in_connection u s = (Inr x, s1) else s1 = s"
    and q: "sm_saved_count q = Some (int (length (filter (\<lambda>r. ar_session_id r = u) (db_captures s1))))"
      "sm_discarded_by_policy_count q =
         Some (max 0 (acquired_by s u - int (length (filter (\<lambda>r. ar_session_id r = u) (db_captures s1)))))"
    and s': "s' = s1\<lparr>db_sessions := upsert sn_session_id \<lparr>sn_session_id = u, sn_state = sm_state q,
       sn_save_policy = sm_save_policy q, sn_summary = q, sn_updated_utc_ns = summary_time q\<rparr> (db_sessions s1)\<rparr>"
    by (rule finalize_summary_run) simp_all
  have pre: "prefix (db_captures s) (db_captures s1)"
    using s1 finalize_latest_effect(3) [OF assms(1)] by (auto split: if_splits)
  have lat: "u \<notin> lc_session_id ` set (db_latest s1) \<and> (\<forall>l \<in> set (db_latest s). lc_session_id l = u \<longrightarrow>
      (\<exists>row \<in> set (db_captures s1). ar_wire_frame row = bd_inner_frame (lc_delivery l)))" if "pol = SAVE_LAST"
    using s1 that finalize_latest_effect(1,2) [OF assms(1)] by auto
  have "find (\<lambda>r. sn_session_id r = u) (db_sessions s') = Some \<lparr>sn_session_id = u, sn_state = sm_state q,
       sn_save_policy = sm_save_policy q, sn_summary = q, sn_updated_utc_ns = summary_time q\<rparr>"
    using find_upsert [of sn_session_id "\<lparr>sn_session_id = u, sn_state = sm_state q,
       sn_save_policy = sm_save_policy q, sn_summary = q, sn_updated_utc_ns = summary_time q\<rparr>" "db_sessions s1"]
    by (simp add: s')
  then have "get_session_summary u s' = (Inr q, s')"
    using normalize_session_idem [OF u(1)] by (simp add: get_session_summary_def mbind_run)
  then show ?thesis using st u q pre lat by (simp add: s')
qed

definition closing_summary :: SessionSummary where
  "closing_summary = \<lparr>sm_session_id = [], sm_state = ''COMPLETED'', sm_save_policy = ''SAVE_ALL'',
     sm_acquired_count = None, sm_capture_count = None, sm_last_capture_id = None, sm_saved_count = None,
     sm_discarded_by_policy_count = None, sm_last_saved_capture_id = None, sm_terminal_reason = None,
     sm_started_utc_ns = Some 1, sm_finished_utc_ns = Some 2, sm_other = []\<rparr>"

theorem closed_session_accounts_for_its_captures_witness:
  "\<exists>q s'. finalize_session_summary closing_summary new_store = (Inr q, s') \<and>
     sm_saved_count q = Some (int (length (filter (\<lambda>r. ar_session_id r = sm_session_id q) (db_captures s')))) \<and>
     get_session_summary (sm_session_id q) s' = (Inr q, s')"
proof -
  obtain q s' where r: "finalize_session_summary closing_summary new_store = (Inr q, s')"
    by (simp add: finalize_session_summary_def finalize_summary_in_connection_def mbind_run mguard_run
        normalize_session_id_def closing_summary_def policy_of_def live_states_def transaction_def Let_def
        upsert_session_summary_def bind_ints_def summary_time_def with_saved_def with_acquired_def sqlite_int_def)
  show ?thesis using r closed_session_accounts_for_its_captures [OF new_store_inv r] by auto
qed

end
