(* ===== verification/Bridge_Session.thy ===== *)
theory Bridge_Session
  imports Spool Bridge_Messages "HOL-Library.AList"
begin

text \<open>
  \<open>bridge_session.py\<close>: one session of the bridge between the core's TCP connection and the device's
  serial line. \<open>proxy_bridge_session\<close> runs two threads on shared state: the main thread reads serial
  frames, spools captures and waits for their receipts; the core reader commits receipts and forwards
  commands. The model has one state with a program point per thread, one definition per atomic step
  (the steps between two blocking points, with the locks the code holds), and runs as explicit
  interleavings of these steps. Timeouts and disconnections are events of the environment.
\<close>

section \<open>Reading and writing frames\<close>

text \<open>
  A socket is the list of the chunks it will deliver; \<open>recv(n)\<close> returns at most \<open>n\<close> bytes of the first
  one, and nothing at the end of the stream.
\<close>

fun recv :: "nat \<Rightarrow> bytes list \<Rightarrow> bytes \<times> bytes list" where
  "recv n [] = ([], [])"
| "recv n (chunk # chunks) =
     (if length chunk \<le> n then (chunk, chunks) else (take n chunk, drop n chunk # chunks))"

text \<open>\<open>exact(size)\<close>: the accumulated output is the third argument.\<close>

function read_exact :: "nat \<Rightarrow> bytes list \<Rightarrow> bytes \<Rightarrow> (bytes \<times> bytes list) res" where
  "read_exact n chunks output =
     (if length output < n then
        (case recv (n - length output) chunks of
           (chunk, rest) \<Rightarrow> if chunk = [] then Inl ConnectionError else read_exact n rest (output @ chunk))
      else Inr (output, chunks))"
  by auto

termination
  by (relation "measure (\<lambda>(n, _, output). n - length output)") (auto intro!: diff_less_mono2)

declare read_exact.simps [simp del]

definition payload_length_field :: "bytes \<Rightarrow> int res" where
  "payload_length_field header = rbind (unpack_from [FI] header 12) (\<lambda>vs. Inr (vint (vs ! 0)))"

definition socket_frame :: "bytes list \<Rightarrow> ((Frame \<times> bytes) \<times> bytes list) res" where
  "socket_frame chunks =
     rbind (read_exact HEADER_SIZE chunks []) (\<lambda>(header, chunks).
     rbind (payload_length_field header) (\<lambda>payload_length.
     if payload_length > int HOST_MAX_PAYLOAD_LENGTH then Inl ValueError
     else
       rbind (read_exact (nat payload_length + CRC_SIZE) chunks []) (\<lambda>(rest, chunks).
       let raw = header @ rest in
       rbind (decode_frame raw) (\<lambda>frame. Inr ((frame, raw), chunks)))))"

text \<open>
  \<open>_serial_frame\<close>: one element of the list per turn of the loop, with the stop flag seen at its head,
  the bytes the read returned (none when the serial timeout expires; never more than requested) and the
  clock after the read. \<open>None\<close> is returned when the session is told to stop; running out of turns while
  the frame is incomplete is the outer \<open>None\<close>: the loop is still waiting.
\<close>

record serial_turn =
  tn_stop :: bool
  tn_chunk :: bytes
  tn_now :: int

fun serial_frame ::
  "int \<Rightarrow> bytes \<Rightarrow> int option \<Rightarrow> int \<Rightarrow> serial_turn list \<Rightarrow> (Frame \<times> bytes) option res option" where
  "serial_frame timeout raw started expected turns =
     (if int (length raw) < expected then
        (case turns of
           [] \<Rightarrow> None
         | t # ts \<Rightarrow>
             if tn_stop t then Some (Inr None)
             else if tn_chunk t \<noteq> [] then
               let started' = (case started of None \<Rightarrow> Some (tn_now t) | Some m \<Rightarrow> Some m);
                   raw' = raw @ tn_chunk t in
               if length raw' = HEADER_SIZE then
                 (case payload_length_field raw' of
                    Inl e \<Rightarrow> Some (Inl e)
                  | Inr payload_length \<Rightarrow>
                      if payload_length > int HOST_MAX_PAYLOAD_LENGTH then Some (Inl ValueError)
                      else serial_frame timeout raw' started'
                             (int HEADER_SIZE + payload_length + int CRC_SIZE) ts)
               else serial_frame timeout raw' started' expected ts
             else (case started of
                 None \<Rightarrow> serial_frame timeout raw started expected ts
               | Some m \<Rightarrow> if tn_now t - m \<ge> timeout then Some (Inl TimeoutError)
                           else serial_frame timeout raw started expected ts))
      else Some (rbind (decode_frame raw) (\<lambda>frame. Inr (Some (frame, raw)))))"

declare serial_frame.simps [simp del]

text \<open>\<open>_write_serial\<close> over a device whose \<open>write\<close> returns how many bytes it took.\<close>

function write_serial :: "(bytes \<Rightarrow> ('s, int) meth) \<Rightarrow> bytes \<Rightarrow> nat \<Rightarrow> ('s, unit) meth" where
  "write_serial dev_write data offset s =
     (if offset < length data then
        (case dev_write (drop offset data) s of
           (Inl e, s') \<Rightarrow> (Inl e, s')
         | (Inr written, s') \<Rightarrow>
             if written \<le> 0 then (Inl ConnectionError, s')
             else write_serial dev_write data (offset + nat written) s')
      else (Inr (), s))"
  by auto

termination
  by (relation "measure (\<lambda>(_, data, offset, _). length data - offset)") auto

declare write_serial.simps [simp del]

section \<open>The session\<close>

definition DEVICE_REQUESTS :: "MessageType set" where
  "DEVICE_REQUESTS = {HELLO, GET_CAPABILITIES, GET_CONFIG, SET_CONFIG, CAPTURE_ONCE, START_PERIODIC, STOP,
     GET_STATUS, RENEW_PERIODIC_LEASE}"

text \<open>
  The main thread is reading the serial line, about to deliver a spooled record, waiting for its receipt,
  at the head of the replay loop with the rest of the batch, or finished with the exception it raised. A
  delivery remembers the batch it belongs to, if it is part of a replay.
\<close>

datatype main_point =
    Reading
  | Delivering PendingCapture int "PendingCapture list option"
  | Waiting int "PendingCapture list option"
  | Replaying "PendingCapture list"
  | Ended "exn option"

datatype reader_point =
    Receiving
  | Confirming CaptureCommittedRequest
  | Closed

record BridgeSession =
  bs_spool :: CaptureSpool
  bs_connection_id :: int
  bs_source_connection_id :: int
  bs_stop :: bool
  bs_pending_events :: "(int \<times> bool) list"
  bs_worker_error :: "exn list"
  bs_forwarding_enabled :: bool
  bs_deferred_commands :: "bytes list"
  bs_stream_offset :: int
  bs_main :: main_point
  bs_reader :: reader_point
  bs_to_core :: "bytes list"
  bs_to_serial :: "bytes list"

definition start_session :: "CaptureSpool \<Rightarrow> int \<Rightarrow> int \<Rightarrow> BridgeSession" where
  "start_session spool connection_id source_connection_id =
     \<lparr>bs_spool = spool, bs_connection_id = connection_id, bs_source_connection_id = source_connection_id,
      bs_stop = False, bs_pending_events = [], bs_worker_error = [], bs_forwarding_enabled = False,
      bs_deferred_commands = [], bs_stream_offset = 0, bs_main = Reading, bs_reader = Receiving,
      bs_to_core = [], bs_to_serial = []\<rparr>"

text \<open>An exception of the main thread: the \<open>finally\<close> block stops the session.\<close>

definition main_fail :: "exn \<Rightarrow> BridgeSession \<Rightarrow> BridgeSession" where
  "main_fail e s = s\<lparr>bs_main := Ended (Some e), bs_stop := True\<rparr>"

definition reader_fail :: "exn \<Rightarrow> BridgeSession \<Rightarrow> BridgeSession" where
  "reader_fail e s = s\<lparr>bs_worker_error := bs_worker_error s @ [e], bs_stop := True, bs_reader := Closed\<rparr>"

text \<open>The reader's loop condition, once a frame is dealt with.\<close>

definition reader_next :: "BridgeSession \<Rightarrow> BridgeSession" where
  "reader_next s = s\<lparr>bs_reader := (if bs_stop s then Closed else Receiving)\<rparr>"

definition send_core :: "Frame \<Rightarrow> BridgeSession \<Rightarrow> BridgeSession res" where
  "send_core frame s = rbind (encode_frame frame) (\<lambda>raw. Inr (s\<lparr>bs_to_core := bs_to_core s @ [raw]\<rparr>))"

definition delivery_of :: "int \<Rightarrow> PendingCapture \<Rightarrow> BridgeCaptureDelivery" where
  "delivery_of connection_id p =
     \<lparr>bd_connection_id = connection_id, bd_spool_record_id = pc_record_id p,
      bd_source_connection_id = pc_source_connection_id p,
      bd_source_first_stream_offset = pc_source_first_stream_offset p,
      bd_source_last_stream_offset = pc_source_last_stream_offset p,
      bd_stored_utc_ns = pc_stored_utc_ns p, bd_inner_frame = pc_inner_frame p\<rparr>"

subsection \<open>Steps of the main thread\<close>

text \<open>One serial frame has been read completely.\<close>

definition main_serial_frame :: "bytes \<Rightarrow> int \<Rightarrow> BridgeSession \<Rightarrow> BridgeSession" where
  "main_serial_frame raw now_ns s =
     (case decode_frame raw of
        Inl e \<Rightarrow> main_fail e s
      | Inr frame \<Rightarrow>
          let first_offset = bs_stream_offset s;
              s = s\<lparr>bs_stream_offset := first_offset + int (length raw)\<rparr> in
          if message_type frame \<noteq> CAPTURE_DATA then
            (case send_core frame s of
               Inl e \<Rightarrow> main_fail e s
             | Inr s \<Rightarrow>
                 if message_type frame = HELLO \<and> flags frame AND FLAG_RESPONSE \<noteq> 0
                 then s\<lparr>bs_main := Replaying []\<rparr> else s)
          else
            (case store_capture raw (bs_source_connection_id s) first_offset (bs_stream_offset s - 1) now_ns
                    (bs_spool s) of
               (Inl e, _) \<Rightarrow> main_fail e s
             | (Inr pending, spool) \<Rightarrow>
                 s\<lparr>bs_spool := spool, bs_main := Delivering pending (sequence frame) None\<rparr>))"

text \<open>\<open>deliver_pending\<close> up to the wait.\<close>

definition main_deliver :: "PendingCapture \<Rightarrow> int \<Rightarrow> PendingCapture list option \<Rightarrow> BridgeSession \<Rightarrow> BridgeSession" where
  "main_deliver pending seq batch s =
     (let s = s\<lparr>bs_pending_events := AList.update (pc_record_id pending) False (bs_pending_events s)\<rparr> in
      case rbind (encode_bridge_capture_delivery (delivery_of (bs_connection_id s) pending)) (\<lambda>body.
             send_core (mk_frame BRIDGE_CAPTURE_DELIVERY seq body FLAG_ASYNC) s) of
        Inl e \<Rightarrow> main_fail e s
      | Inr s \<Rightarrow> s\<lparr>bs_main := Waiting (pc_record_id pending) batch\<rparr>)"

text \<open>The wait returns: the event was set.\<close>

definition main_wake :: "int \<Rightarrow> PendingCapture list option \<Rightarrow> BridgeSession \<Rightarrow> BridgeSession" where
  "main_wake record_id batch s =
     s\<lparr>bs_pending_events := AList.delete record_id (bs_pending_events s),
       bs_main := (case batch of None \<Rightarrow> Reading | Some rest \<Rightarrow> Replaying rest)\<rparr>"

text \<open>The replay loop: the next record of the batch, the next batch, or the end of the replay.\<close>

definition main_replay :: "PendingCapture list \<Rightarrow> BridgeSession \<Rightarrow> BridgeSession" where
  "main_replay batch s =
     (case batch of
        pending # rest \<Rightarrow> s\<lparr>bs_main := Delivering pending (pc_record_id pending AND 0xFFFFFFFF) (Some rest)\<rparr>
      | [] \<Rightarrow>
          (case pending_records 64 (bs_spool s) of
             (Inl e, _) \<Rightarrow> main_fail e s
           | (Inr [], _) \<Rightarrow>
               s\<lparr>bs_forwarding_enabled := True, bs_to_serial := bs_to_serial s @ bs_deferred_commands s,
                 bs_deferred_commands := [], bs_main := Reading\<rparr>
           | (Inr (p # ps), _) \<Rightarrow> s\<lparr>bs_main := Replaying (p # ps)\<rparr>))"

subsection \<open>Steps of the core reader\<close>

definition reader_commit :: "Frame \<Rightarrow> BridgeSession \<Rightarrow> BridgeSession" where
  "reader_commit frame s =
     (if flags frame \<noteq> FLAG_NONE then reader_fail ValueError s
      else case decode_capture_committed_request (payload frame) of
          Inl e \<Rightarrow> reader_fail e s
        | Inr receipt \<Rightarrow>
            (case mark_committed (cq_spool_record_id receipt) (cq_device_id receipt) (cq_boot_id receipt)
                    (cq_capture_id receipt) (cq_inner_frame_crc32 receipt) (bs_spool s) of
               (Inl e, _) \<Rightarrow> reader_fail e s
             | (Inr disposition, spool) \<Rightarrow>
                 let s = s\<lparr>bs_spool := spool\<rparr> in
                 (case rbind (encode_capture_committed_response
                         \<lparr>cp_connection_id = cq_connection_id receipt,
                          cp_spool_record_id = cq_spool_record_id receipt, cp_disposition = disposition\<rparr>) (\<lambda>body.
                       send_core (mk_frame CAPTURE_COMMITTED (sequence frame) body FLAG_RESPONSE) s) of
                    Inl e \<Rightarrow> reader_fail e s
                  | Inr s \<Rightarrow> s\<lparr>bs_reader := Confirming receipt\<rparr>)))"

definition reader_forward :: "Frame \<Rightarrow> bytes \<Rightarrow> BridgeSession \<Rightarrow> BridgeSession" where
  "reader_forward frame raw s =
     (if flags frame \<noteq> FLAG_NONE \<or> message_type frame \<notin> DEVICE_REQUESTS then reader_fail ValueError s
      else if message_type frame \<noteq> HELLO \<and> \<not> bs_forwarding_enabled s then
        if length (bs_deferred_commands s) \<ge> 8 then reader_fail RuntimeError s
        else reader_next (s\<lparr>bs_deferred_commands := bs_deferred_commands s @ [raw]\<rparr>)
      else reader_next (s\<lparr>bs_to_serial := bs_to_serial s @ [raw]\<rparr>))"

definition reader_frame :: "bytes \<Rightarrow> BridgeSession \<Rightarrow> BridgeSession" where
  "reader_frame raw s =
     (case decode_frame raw of
        Inl e \<Rightarrow> reader_fail e s
      | Inr frame \<Rightarrow>
          if message_type frame = CAPTURE_COMMITTED then reader_commit frame s
          else reader_forward frame raw s)"

text \<open>After the response: wake the main thread, which must be waiting for this record.\<close>

definition reader_confirm :: "CaptureCommittedRequest \<Rightarrow> BridgeSession \<Rightarrow> BridgeSession" where
  "reader_confirm receipt s =
     (case map_of (bs_pending_events s) (cq_spool_record_id receipt) of
        None \<Rightarrow> reader_fail ValueError s
      | Some _ \<Rightarrow> reader_next
          (s\<lparr>bs_pending_events := AList.update (cq_spool_record_id receipt) True (bs_pending_events s)\<rparr>))"

subsection \<open>Failing sends\<close>

text \<open>
  A send or a serial write may raise. In the main thread that ends the session: a delivery has already
  registered its event, and when the deferred commands are flushed some of them may have been written (the
  relay of another device frame fails like a read of the serial line, \<open>SerialError\<close>). In the reader a \<open>ConnectionError\<close> only stops the session; a receipt has already been committed.
\<close>

definition main_send_error :: "exn \<Rightarrow> nat \<Rightarrow> BridgeSession \<Rightarrow> BridgeSession option" where
  "main_send_error e n s =
     (case bs_main s of
        Delivering p _ _ \<Rightarrow>
          Some (main_fail e (s\<lparr>bs_pending_events := AList.update (pc_record_id p) False (bs_pending_events s)\<rparr>))
      | Replaying [] \<Rightarrow>
          if sp_pending_captures (bs_spool s) = []
          then Some (main_fail e (s\<lparr>bs_forwarding_enabled := True,
                 bs_to_serial := bs_to_serial s @ take n (bs_deferred_commands s), bs_deferred_commands := []\<rparr>))
          else None
      | _ \<Rightarrow> None)"

definition reader_broken :: "exn \<Rightarrow> BridgeSession \<Rightarrow> BridgeSession" where
  "reader_broken e s =
     (if e = ConnectionError then s\<lparr>bs_stop := True, bs_reader := Closed\<rparr> else reader_fail e s)"

definition reader_send_error :: "bytes \<Rightarrow> exn \<Rightarrow> BridgeSession \<Rightarrow> BridgeSession option" where
  "reader_send_error raw e s =
     (case decode_frame raw of
        Inl _ \<Rightarrow> None
      | Inr frame \<Rightarrow>
          if flags frame \<noteq> FLAG_NONE then None
          else if message_type frame = CAPTURE_COMMITTED then
            (case decode_capture_committed_request (payload frame) of
               Inl _ \<Rightarrow> None
             | Inr receipt \<Rightarrow>
                 (case mark_committed (cq_spool_record_id receipt) (cq_device_id receipt) (cq_boot_id receipt)
                         (cq_capture_id receipt) (cq_inner_frame_crc32 receipt) (bs_spool s) of
                    (Inl _, _) \<Rightarrow> None
                  | (Inr _, spool) \<Rightarrow> Some (reader_broken e (s\<lparr>bs_spool := spool\<rparr>))))
          else if message_type frame \<in> DEVICE_REQUESTS \<and> (message_type frame = HELLO \<or> bs_forwarding_enabled s)
          then Some (reader_broken e s)
          else None)"

subsection \<open>Interleavings\<close>

text \<open>What may happen next; the frames, the clock, the timeouts and the disconnection come from outside.\<close>

datatype bridge_event =
    SerialFrame bytes int
  | CoreFrame bytes
  | MainSteps
  | MainTimeout
  | SerialError exn
  | StopSeen
  | MainSendError exn nat
  | CoreFrameSendError bytes exn
  | ReaderSteps
  | CoreClosed

text \<open>An event is possible when the thread it belongs to is at the point where the code can take it.\<close>

fun bridge_step :: "bridge_event \<Rightarrow> BridgeSession \<Rightarrow> BridgeSession option" where
  "bridge_step (SerialFrame raw now) s =
     (case bs_main s of Reading \<Rightarrow> Some (main_serial_frame raw now s) | _ \<Rightarrow> None)"
| "bridge_step (SerialError e) s = (case bs_main s of Reading \<Rightarrow> Some (main_fail e s) | _ \<Rightarrow> None)"
| "bridge_step StopSeen s =
     (case bs_main s of
        Reading \<Rightarrow> if bs_stop s then Some (s\<lparr>bs_main := Ended None\<rparr>) else None
      | _ \<Rightarrow> None)"
| "bridge_step MainSteps s =
     (case bs_main s of
        Delivering p seq batch \<Rightarrow> Some (main_deliver p seq batch s)
      | Waiting i batch \<Rightarrow>
          if map_of (bs_pending_events s) i = Some True then Some (main_wake i batch s) else None
      | Replaying batch \<Rightarrow> Some (main_replay batch s)
      | _ \<Rightarrow> None)"
| "bridge_step MainTimeout s =
     (case bs_main s of
        Waiting i batch \<Rightarrow>
          if map_of (bs_pending_events s) i = Some True then None else Some (main_fail TimeoutError s)
      | _ \<Rightarrow> None)"
| "bridge_step (CoreFrame raw) s =
     (case bs_reader s of Receiving \<Rightarrow> Some (reader_frame raw s) | _ \<Rightarrow> None)"
| "bridge_step (MainSendError e n) s = main_send_error e n s"
| "bridge_step (CoreFrameSendError raw e) s =
     (case bs_reader s of Receiving \<Rightarrow> reader_send_error raw e s | _ \<Rightarrow> None)"
| "bridge_step ReaderSteps s =
     (case bs_reader s of Confirming receipt \<Rightarrow> Some (reader_confirm receipt s) | _ \<Rightarrow> None)"
| "bridge_step CoreClosed s =
     (case bs_reader s of Receiving \<Rightarrow> Some (s\<lparr>bs_stop := True, bs_reader := Closed\<rparr>) | _ \<Rightarrow> None)"

inductive bridge_run :: "BridgeSession \<Rightarrow> bridge_event list \<Rightarrow> BridgeSession \<Rightarrow> bool" where
  start: "bridge_run s [] s"
| step: "bridge_run s es t \<Longrightarrow> bridge_step e t = Some u \<Longrightarrow> bridge_run s (es @ [e]) u"

text \<open>What \<open>proxy_bridge_session\<close> returns or raises once the main thread has ended.\<close>

definition session_result :: "BridgeSession \<Rightarrow> unit res option" where
  "session_result s =
     (case bs_main s of
        Ended (Some e) \<Rightarrow> Some (Inl e)
      | Ended None \<Rightarrow> Some (case bs_worker_error s of [] \<Rightarrow> Inr () | e # _ \<Rightarrow> Inl e)
      | _ \<Rightarrow> None)"

inductive_cases bridge_runE: "bridge_run s es t"

section \<open>Frames survive fragmentation\<close>

lemma recv_concat:
  assumes "recv n chunks = (chunk, rest)" "list_all (\<lambda>c. c \<noteq> []) chunks" "0 < n"
  shows "concat chunks = chunk @ concat rest" "length chunk \<le> n" "chunk = [] \<longleftrightarrow> chunks = []"
    "list_all (\<lambda>c. c \<noteq> []) rest"
  using assms by (cases chunks; auto split: if_splits)+

lemma read_exact_ok:
  assumes "list_all (\<lambda>c. c \<noteq> []) chunks" "n - length out \<le> length (concat chunks)" "length out \<le> n"
  shows "\<exists>rest. read_exact n chunks out = Inr (out @ take (n - length out) (concat chunks), rest) \<and>
    concat rest = drop (n - length out) (concat chunks) \<and> list_all (\<lambda>c. c \<noteq> []) rest"
  using assms
proof (induction n chunks out rule: read_exact.induct)
  case (1 n chunks out)
  show ?case
  proof (cases "length out < n")
    case False
    then show ?thesis using "1.prems" by (subst read_exact.simps) simp
  next
    case True
    obtain chunk rest where r: "recv (n - length out) chunks = (chunk, rest)" by force
    note c = recv_concat [OF r "1.prems"(1)]
    have ne: "chunk \<noteq> []" using c(3) True "1.prems"(2) by auto
    have k: "length chunk \<le> n - length out" using c(2) True by simp
    have "\<exists>rest'. read_exact n rest (out @ chunk) =
        Inr ((out @ chunk) @ take (n - length (out @ chunk)) (concat rest), rest') \<and>
        concat rest' = drop (n - length (out @ chunk)) (concat rest) \<and> list_all (\<lambda>c. c \<noteq> []) rest'"
      using "1.prems" True c k
      by (intro "1.IH" [OF True r [symmetric] ne]) auto
    moreover have "take (n - length out) (concat chunks) = chunk @ take (n - length (out @ chunk)) (concat rest)"
      "drop (n - length out) (concat chunks) = drop (n - length (out @ chunk)) (concat rest)"
      using c(1) True k by simp_all
    ultimately show ?thesis using True r ne by (subst (1) read_exact.simps) auto
  qed
qed

lemma payload_length_header:
  assumes "frame_ok f"
  shows "payload_length_field (header_of f) = Inr (int (length (payload f)))"
proof -
  let ?pre = "MAGIC @ le_bytes 1 (protocol_version f) @ le_bytes 1 (type_code (message_type f))
     @ le_bytes 2 (flags f) @ le_bytes 4 (sequence f)"
  have p: "pack [FI] [PInt (int (length (payload f)))] = Inr (le_bytes 4 (int (length (payload f))))"
    using assms by (simp add: frame_ok_def codec_simps del: le_bytes.simps)
  have "length ?pre = 12" by (simp add: MAGIC_def)
  then show ?thesis
    using unpack_from_pack [OF p, of ?pre _ "[]"] by (simp add: payload_length_field_def header_of_def del: le_bytes.simps)
qed

text \<open>Both ends of the TCP link read back the frames the other sends, however the stream is cut
  into segments: if the chunks concatenate to the encoding of a frame followed by any tail, \<open>_socket_frame\<close>
  returns exactly that frame and its bytes, and what is left of the chunks concatenates to the tail.\<close>

theorem socket_frame_any_fragmentation:
  assumes "encode_frame f = Inr raw" and "concat chunks = raw @ tail" and "list_all (\<lambda>c. c \<noteq> []) chunks"
  shows "\<exists>rest. socket_frame chunks = Inr ((f, raw), rest) \<and> concat rest = tail \<and> list_all (\<lambda>c. c \<noteq> []) rest"
proof -
  from assms(1) have ok: "frame_ok f" and raw: "raw = frame_bytes f" by (simp_all add: encode_frame_iff)
  obtain rest1 where r1: "read_exact 16 chunks [] = Inr (header_of f, rest1)"
    and c1: "concat rest1 = payload f @ crc_of f @ tail" and n1: "list_all (\<lambda>c. c \<noteq> []) rest1"
    using read_exact_ok [OF assms(3), of 16 "[]"] by (auto simp: assms(2) raw frame_bytes_def)
  obtain rest2 where r2: "read_exact (length (payload f) + 4) rest1 [] = Inr (payload f @ crc_of f, rest2)"
    and c2: "concat rest2 = tail" and n2: "list_all (\<lambda>c. c \<noteq> []) rest2"
    using read_exact_ok [OF n1, of "length (payload f) + 4" "[]"] by (auto simp: c1)
  have "socket_frame chunks = Inr ((f, raw), rest2)"
    using ok decode_frame_bytes [OF ok]
    by (simp add: socket_frame_def frame_consts r1 r2 payload_length_header Let_def raw frame_bytes_def)
      (simp add: frame_ok_def)
  then show ?thesis using c2 n2 by blast
qed

theorem socket_frame_any_fragmentation_witness:
  "\<exists>f raw a b rest. encode_frame f = Inr raw \<and> a @ b = raw \<and> a \<noteq> [] \<and> b \<noteq> [] \<and>
     socket_frame [a, b @ [7], [8]] = Inr ((f, raw), rest) \<and> concat rest = [7, 8]"
proof -
  let ?f = "mk_frame GET_STATUS 5 [] 0"
  have ok: "frame_ok ?f" by (simp add: frame_ok_def PROTOCOL_VERSION_def)
  then have e: "encode_frame ?f = Inr (frame_bytes ?f)" by (simp add: encode_frame_iff)
  let ?a = "take 3 (frame_bytes ?f)" and ?b = "drop 3 (frame_bytes ?f)"
  have ne: "?a \<noteq> []" "?b \<noteq> []" by (simp_all flip: length_greater_0_conv)
  have c: "concat [?a, ?b @ [7], [8]] = frame_bytes ?f @ [7, 8]" by (simp flip: append_assoc)
  have "list_all (\<lambda>c. c \<noteq> []) [?a, ?b @ [7], [8]]" using ne by simp
  from socket_frame_any_fragmentation [OF e c this] e ne append_take_drop_id [of 3 "frame_bytes ?f"]
  show ?thesis by blast
qed


section \<open>The session invariant\<close>

definition pending_ids :: "BridgeSession \<Rightarrow> int set" where
  "pending_ids s = pc_record_id ` set (sp_pending_captures (bs_spool s))"

text \<open>The delivery in flight is the one the main thread waits for.\<close>

fun events_match :: "main_point \<Rightarrow> (int \<times> bool) list \<Rightarrow> bool" where
  "events_match (Waiting i _) events \<longleftrightarrow> map fst events = [i]"
| "events_match (Ended _) events \<longleftrightarrow> length events \<le> 1"
| "events_match _ events \<longleftrightarrow> events = []"

text \<open>An event is set only after the receipt has removed its row, and the rows it may name are old ones.\<close>

definition confirmed_gone :: "(int \<times> bool) list \<Rightarrow> int set \<Rightarrow> bool" where
  "confirmed_gone events ids \<longleftrightarrow> (\<forall>i. (i, True) \<in> set events \<longrightarrow> i \<notin> ids)"

fun receipt_gone :: "reader_point \<Rightarrow> int set \<Rightarrow> int \<Rightarrow> bool" where
  "receipt_gone (Confirming r) ids newest \<longleftrightarrow> cq_spool_record_id r \<notin> ids \<and> cq_spool_record_id r \<le> newest"
| "receipt_gone _ ids newest \<longleftrightarrow> True"

text \<open>Once commands are forwarded, nothing but the capture in hand is spooled.\<close>

fun replay_done :: "main_point \<Rightarrow> int set \<Rightarrow> bool" where
  "replay_done (Delivering p _ batch) ids \<longleftrightarrow> batch = None \<and> ids \<subseteq> {pc_record_id p}"
| "replay_done (Waiting i batch) ids \<longleftrightarrow> batch = None \<and> ids \<subseteq> {i}"
| "replay_done (Replaying batch) ids \<longleftrightarrow> batch = [] \<and> ids = {}"
| "replay_done Reading ids \<longleftrightarrow> ids = {}"
| "replay_done (Ended _) ids \<longleftrightarrow> True"

definition session_inv :: "BridgeSession \<Rightarrow> bool" where
  "session_inv s \<longleftrightarrow> spool_inv (bs_spool s) \<and> events_match (bs_main s) (bs_pending_events s) \<and>
     confirmed_gone (bs_pending_events s) (pending_ids s) \<and>
     receipt_gone (bs_reader s) (pending_ids s) (sp_last_record_id (bs_spool s)) \<and>
     (bs_forwarding_enabled s \<longrightarrow> replay_done (bs_main s) (pending_ids s) \<and> bs_deferred_commands s = []) \<and>
     length (bs_deferred_commands s) \<le> 8"

lemma pending_ids_simps [simp]:
  "pending_ids (s\<lparr>bs_to_core := x\<rparr>) = pending_ids s" "pending_ids (s\<lparr>bs_to_serial := x\<rparr>) = pending_ids s"
  "pending_ids (s\<lparr>bs_stream_offset := i\<rparr>) = pending_ids s" "pending_ids (s\<lparr>bs_stop := b\<rparr>) = pending_ids s"
  "pending_ids (s\<lparr>bs_main := m\<rparr>) = pending_ids s" "pending_ids (s\<lparr>bs_reader := r\<rparr>) = pending_ids s"
  "pending_ids (s\<lparr>bs_pending_events := ev\<rparr>) = pending_ids s"
  "pending_ids (s\<lparr>bs_worker_error := w\<rparr>) = pending_ids s"
  "pending_ids (s\<lparr>bs_deferred_commands := dc\<rparr>) = pending_ids s"
  "pending_ids (s\<lparr>bs_forwarding_enabled := b\<rparr>) = pending_ids s"
  "pending_ids (s\<lparr>bs_spool := sp\<rparr>) = pc_record_id ` set (sp_pending_captures sp)"
  by (simp_all add: pending_ids_def)

lemmas session_inv_defs = session_inv_def confirmed_gone_def

lemma start_session_inv: "spool_inv sp \<Longrightarrow> session_inv (start_session sp c d)"
  by (simp add: session_inv_defs start_session_def)

lemma main_fail_inv: "session_inv s \<Longrightarrow> session_inv (main_fail e s)"
  by (cases "bs_main s") (auto simp: session_inv_defs main_fail_def dest: arg_cong [where f = length])

lemma reader_fail_inv: "session_inv s \<Longrightarrow> session_inv (reader_fail e s)"
  by (simp add: session_inv_defs reader_fail_def)

lemma reader_next_inv: "session_inv s \<Longrightarrow> session_inv (reader_next s)"
  by (simp add: session_inv_defs reader_next_def)

lemma send_core_ok:
  "send_core frame s = Inr s' \<longleftrightarrow> frame_ok frame \<and> s' = s\<lparr>bs_to_core := bs_to_core s @ [frame_bytes frame]\<rparr>"
  by (auto simp: send_core_def encode_frame_iff)

lemma session_inv_irrelevant [simp]:
  "session_inv (s\<lparr>bs_to_core := x\<rparr>) = session_inv s"
  "session_inv (s\<lparr>bs_stream_offset := o1\<rparr>) = session_inv s"
  "session_inv (s\<lparr>bs_to_serial := x\<rparr>) = session_inv s"
  by (simp_all add: session_inv_defs)

lemma store_capture_ids:
  assumes "spool_inv sp" "store_capture raw a b c d sp = (Inr p, sp')"
  shows "spool_inv sp'" "pc_record_id ` set (sp_pending_captures sp') =
      insert (pc_record_id p) (pc_record_id ` set (sp_pending_captures sp))"
    "sp_last_record_id sp \<le> sp_last_record_id sp'"
    "x \<le> sp_last_record_id sp \<Longrightarrow> x \<notin> pc_record_id ` set (sp_pending_captures sp) \<Longrightarrow>
      x \<notin> pc_record_id ` set (sp_pending_captures sp')"
proof -
  show "spool_inv sp'" using keepsD [OF store_capture_keeps assms(1)] assms(2) by (metis snd_conv)
  from assms(2) show "pc_record_id ` set (sp_pending_captures sp') =
      insert (pc_record_id p) (pc_record_id ` set (sp_pending_captures sp))"
    "sp_last_record_id sp \<le> sp_last_record_id sp'"
    "x \<le> sp_last_record_id sp \<Longrightarrow> x \<notin> pc_record_id ` set (sp_pending_captures sp) \<Longrightarrow>
      x \<notin> pc_record_id ` set (sp_pending_captures sp')"
    by (cases rule: store_capture_cases; auto)+
qed

lemma mark_committed_ids:
  assumes "spool_inv sp" "mark_committed i d b c crc sp = (Inr x, sp')"
  shows "spool_inv sp'" "i \<notin> pc_record_id ` set (sp_pending_captures sp')"
    "pc_record_id ` set (sp_pending_captures sp') \<subseteq> pc_record_id ` set (sp_pending_captures sp)"
    "i \<le> sp_last_record_id sp'" "sp_last_record_id sp' = sp_last_record_id sp"
proof -
  show "spool_inv sp'" using keepsD [OF mark_committed_keeps assms(1)] assms(2) by (metis snd_conv)
  show "i \<notin> pc_record_id ` set (sp_pending_captures sp')"
    "pc_record_id ` set (sp_pending_captures sp') \<subseteq> pc_record_id ` set (sp_pending_captures sp)"
    "i \<le> sp_last_record_id sp'" "sp_last_record_id sp' = sp_last_record_id sp"
    using assms(2)
    by (cases rule: mark_committed_cases;
        use assms(1) in \<open>auto simp: spool_inv_def list_all_iff commit_row_def\<close>)+
qed

lemma main_serial_frame_inv:
  assumes "session_inv s" "bs_main s = Reading"
  shows "session_inv (main_serial_frame raw now s)"
proof (cases "decode_frame raw")
  case (Inl e)
  then show ?thesis using assms by (simp add: main_serial_frame_def main_fail_inv)
next
  case (Inr f)
  let ?s = "s\<lparr>bs_stream_offset := bs_stream_offset s + int (length raw)\<rparr>"
  have s: "session_inv ?s" using assms(1) by simp
  show ?thesis
  proof (cases "message_type f = CAPTURE_DATA")
    case False
    have "session_inv (t\<lparr>bs_main := Replaying []\<rparr>)" if "session_inv t" "bs_main t = Reading" for t
      using that by (simp add: session_inv_defs)
    then show ?thesis
      using Inr False s assms main_fail_inv [OF s]
      by (auto simp: main_serial_frame_def Let_def send_core_ok split: sum.splits)
  next
    case True
    obtain r sp where st: "store_capture raw (bs_source_connection_id s) (bs_stream_offset s)
        (bs_stream_offset s + int (length raw) - 1) now (bs_spool s) = (r, sp)" by force
    show ?thesis
    proof (cases r)
      case (Inl e)
      then show ?thesis using Inr True st main_fail_inv [OF s] by (simp add: main_serial_frame_def Let_def)
    next
      case (Inr p)
      have "spool_inv (bs_spool s)" using assms(1) by (simp add: session_inv_def)
      note ids = store_capture_ids [OF this st [unfolded Inr]]
      have "session_inv (?s\<lparr>bs_spool := sp, bs_main := Delivering p (sequence f) None\<rparr>)"
        using s assms(2) ids(1-3) ids(4)
        by (cases "bs_reader s") (auto simp: session_inv_defs pending_ids_def)
      then show ?thesis using \<open>decode_frame raw = Inr f\<close> True st Inr by (simp add: main_serial_frame_def Let_def)
    qed
  qed
qed

lemma main_deliver_inv:
  assumes "session_inv s" "bs_main s = Delivering p q batch"
  shows "session_inv (main_deliver p q batch s)"
proof -
  let ?s = "s\<lparr>bs_pending_events := [(pc_record_id p, False)]\<rparr>"
  have e: "bs_pending_events s = []" using assms by (simp add: session_inv_def)
  have f: "session_inv (main_fail x ?s)" for x
    using assms by (simp add: session_inv_defs main_fail_def)
  have w: "session_inv (?s\<lparr>bs_to_core := y, bs_main := Waiting (pc_record_id p) batch\<rparr>)" for y
    using assms by (simp add: session_inv_defs)
  show ?thesis
    using e f w by (auto simp: main_deliver_def Let_def send_core_ok split: sum.splits)
qed

lemma main_wake_inv:
  assumes "session_inv s" "bs_main s = Waiting i batch" "map_of (bs_pending_events s) i = Some True"
  shows "session_inv (main_wake i batch s)"
proof -
  obtain b where e: "bs_pending_events s = [(i, b)]"
    using assms(1,2) by (auto simp: session_inv_def map_eq_Cons_conv)
  then have "b" "i \<notin> pending_ids s" using assms(1,3) by (auto simp: session_inv_defs)
  then show ?thesis
    using assms(1,2) e by (cases batch) (auto simp: session_inv_defs main_wake_def)
qed

lemma pending_records_64: "pending_records 64 sp = (Inr (take 64 (sp_pending_captures sp)), sp)"
  by (simp add: pending_records_def)

lemma main_replay_inv:
  assumes "session_inv s" "bs_main s = Replaying batch"
  shows "session_inv (main_replay batch s)"
proof (cases batch)
  case (Cons p ps)
  then show ?thesis using assms by (auto simp: session_inv_defs main_replay_def)
next
  case Nil
  note batch = Nil
  show ?thesis
  proof (cases "take 64 (sp_pending_captures (bs_spool s))")
    case Nil
    then have "sp_pending_captures (bs_spool s) = []" by simp
    then have "pending_ids s = {}" by (simp add: pending_ids_def)
    then show ?thesis
      using assms batch Nil by (simp add: session_inv_defs main_replay_def pending_records_64)
  next
    case (Cons p ps)
    then have "pending_ids s \<noteq> {}" by (cases "sp_pending_captures (bs_spool s)") (auto simp: pending_ids_def)
    then show ?thesis
      using assms batch Cons by (simp add: session_inv_defs main_replay_def pending_records_64)
  qed
qed

lemma commit_spool_inv:
  assumes "session_inv s"
    and "mark_committed (cq_spool_record_id r) (cq_device_id r) (cq_boot_id r) (cq_capture_id r)
       (cq_inner_frame_crc32 r) (bs_spool s) = (Inr x, sp)"
  shows "session_inv (s\<lparr>bs_spool := sp, bs_to_core := out, bs_reader := Confirming r\<rparr>)"
    and "session_inv (reader_fail e (s\<lparr>bs_spool := sp\<rparr>))"
    and "session_inv (reader_broken e (s\<lparr>bs_spool := sp\<rparr>))"
proof -
  have "spool_inv (bs_spool s)" using assms by (simp add: session_inv_def)
  note ids = mark_committed_ids [OF this assms(2)]
  let ?ids = "pc_record_id ` set (sp_pending_captures sp)"
  have sub: "?ids \<subseteq> pending_ids s" using ids(3) by (simp add: pending_ids_def)
  have done_: "replay_done (bs_main s) (pending_ids s) \<Longrightarrow> replay_done (bs_main s) ?ids"
    using sub by (cases "bs_main s") auto
  have gone: "confirmed_gone (bs_pending_events s) ?ids"
    using assms sub by (auto simp: session_inv_def confirmed_gone_def)
  show "session_inv (s\<lparr>bs_spool := sp, bs_to_core := out, bs_reader := Confirming r\<rparr>)"
    "session_inv (reader_fail e (s\<lparr>bs_spool := sp\<rparr>))" "session_inv (reader_broken e (s\<lparr>bs_spool := sp\<rparr>))"
    using assms ids done_ gone by (auto simp: session_inv_def reader_fail_def reader_broken_def)
qed

lemma reader_commit_inv:
  assumes "session_inv s"
  shows "session_inv (reader_commit f s)"
  using reader_fail_inv [OF assms] commit_spool_inv(1,2) [OF assms]
  by (auto simp: reader_commit_def Let_def send_core_ok split: sum.splits prod.splits)

lemma reader_frame_inv:
  assumes "session_inv s"
  shows "session_inv (reader_frame raw s)"
proof -
  have "session_inv (s\<lparr>bs_deferred_commands := bs_deferred_commands s @ [raw]\<rparr>)"
    if "\<not> bs_forwarding_enabled s" "length (bs_deferred_commands s) < 8"
    using assms that by (simp add: session_inv_defs)
  then show ?thesis
    using assms reader_fail_inv [OF assms] reader_commit_inv [OF assms]
    by (auto simp: reader_frame_def reader_forward_def intro!: reader_next_inv split: sum.splits)
qed

lemma reader_confirm_inv:
  assumes "session_inv s" "bs_reader s = Confirming r"
  shows "session_inv (reader_confirm r s)"
proof (cases "map_of (bs_pending_events s) (cq_spool_record_id r)")
  case None
  then show ?thesis using reader_fail_inv [OF assms(1)] by (simp add: reader_confirm_def)
next
  case (Some b)
  let ?i = "cq_spool_record_id r"
  have len: "length (bs_pending_events s) \<le> 1"
    using assms(1) by (cases "bs_main s") (auto simp: session_inv_def dest: arg_cong [where f = length])
  have mem: "(?i, b) \<in> set (bs_pending_events s)" using Some by (rule map_of_SomeD)
  then have e: "bs_pending_events s = [(?i, b)]" using len by (cases "bs_pending_events s") auto
  have "?i \<notin> pending_ids s" using assms by (simp add: session_inv_def)
  then have "session_inv (s\<lparr>bs_pending_events := [(?i, True)]\<rparr>)"
    using assms e by (cases "bs_main s") (auto simp: session_inv_defs)
  then show ?thesis using e by (simp add: reader_confirm_def reader_next_inv)
qed

lemma reader_broken_inv: "session_inv s \<Longrightarrow> session_inv (reader_broken e s)"
  by (simp add: session_inv_defs reader_broken_def reader_fail_def)

lemma reader_send_error_inv:
  assumes "session_inv s" "reader_send_error raw e s = Some t"
  shows "session_inv t"
  using assms commit_spool_inv(3) [OF assms(1)] reader_broken_inv [OF assms(1)]
  by (auto simp: reader_send_error_def split: sum.splits if_splits prod.splits)

lemma main_send_error_inv:
  assumes "session_inv s" "main_send_error e n s = Some t"
  shows "session_inv t"
proof (cases "bs_main s")
  case (Delivering p q b)
  then have "bs_pending_events s = []" using assms(1) by (simp add: session_inv_def)
  then show ?thesis using assms Delivering by (auto simp: main_send_error_def session_inv_defs main_fail_def)
next
  case (Replaying b)
  then show ?thesis
    using assms by (auto simp: main_send_error_def session_inv_defs main_fail_def split: list.splits if_splits)
qed (use assms in \<open>auto simp: main_send_error_def\<close>)

lemma bridge_step_inv:
  assumes "session_inv s" "bridge_step e s = Some t"
  shows "session_inv t"
proof (cases e)
  case StopSeen
  then show ?thesis using assms by (auto simp: session_inv_defs split: main_point.splits if_splits)
next
  case CoreClosed
  then show ?thesis using assms by (auto simp: session_inv_defs split: reader_point.splits)
qed (use assms in \<open>auto split: main_point.splits reader_point.splits if_splits
    intro: main_serial_frame_inv main_deliver_inv main_wake_inv main_replay_inv main_fail_inv
      reader_frame_inv reader_confirm_inv reader_send_error_inv main_send_error_inv\<close>)

lemma bridge_run_inv: "bridge_run s es t \<Longrightarrow> session_inv s \<Longrightarrow> session_inv t"
  by (induction rule: bridge_run.induct) (auto intro: bridge_step_inv)

section \<open>Command order\<close>

text \<open>The commands that wait for the replay: device requests other than HELLO, without flags.\<close>

definition forwardable :: "bytes \<Rightarrow> bool" where
  "forwardable raw \<longleftrightarrow> (case decode_frame raw of
     Inr f \<Rightarrow> flags f = FLAG_NONE \<and> message_type f \<in> DEVICE_REQUESTS \<and> message_type f \<noteq> HELLO
   | Inl _ \<Rightarrow> False)"

fun core_frames :: "bridge_event list \<Rightarrow> bytes list" where
  "core_frames [] = []"
| "core_frames (CoreFrame raw # es) = raw # core_frames es"
| "core_frames (CoreFrameSendError raw e # es) = raw # core_frames es"
| "core_frames (_ # es) = core_frames es"

lemma core_frames_append [simp]: "core_frames (es @ es') = core_frames es @ core_frames es'"
  by (induction es rule: core_frames.induct) auto

definition commands_out :: "BridgeSession \<Rightarrow> bytes list" where
  "commands_out s = filter forwardable (bs_to_serial s) @ filter forwardable (bs_deferred_commands s)"

lemma commands_out_simps [simp]:
  "commands_out (s\<lparr>bs_to_core := x\<rparr>) = commands_out s" "commands_out (s\<lparr>bs_main := m\<rparr>) = commands_out s"
  "commands_out (s\<lparr>bs_stream_offset := i\<rparr>) = commands_out s" "commands_out (s\<lparr>bs_stop := b\<rparr>) = commands_out s"
  "commands_out (s\<lparr>bs_reader := r\<rparr>) = commands_out s" "commands_out (s\<lparr>bs_pending_events := ev\<rparr>) = commands_out s"
  "commands_out (s\<lparr>bs_worker_error := w\<rparr>) = commands_out s" "commands_out (s\<lparr>bs_spool := sp\<rparr>) = commands_out s"
  by (simp_all add: commands_out_def)

lemma commands_out_handlers [simp]:
  "commands_out (main_fail e s) = commands_out s" "commands_out (reader_fail e s) = commands_out s"
  "commands_out (reader_next s) = commands_out s" "commands_out (main_wake i b s) = commands_out s"
  by (simp_all add: main_fail_def reader_fail_def reader_next_def main_wake_def)

lemma commands_out_main:
  "commands_out (main_serial_frame raw now s) = commands_out s" "commands_out (main_deliver p q b s) = commands_out s"
  "commands_out (main_replay batch s) = commands_out s" "commands_out (reader_commit f s) = commands_out s"
  "commands_out (reader_confirm r s) = commands_out s"
proof -
  show "commands_out (main_serial_frame raw now s) = commands_out s"
    by (auto simp: main_serial_frame_def Let_def send_core_ok split: sum.splits prod.splits)
  show "commands_out (main_deliver p q b s) = commands_out s"
    by (auto simp: main_deliver_def Let_def send_core_ok split: sum.splits)
  show "commands_out (main_replay batch s) = commands_out s"
    by (auto simp: main_replay_def commands_out_def split: list.splits sum.splits prod.splits)
      (simp add: main_fail_def)+
  show "commands_out (reader_commit f s) = commands_out s"
    by (auto simp: reader_commit_def Let_def send_core_ok split: sum.splits prod.splits)
  show "commands_out (reader_confirm r s) = commands_out s"
    by (auto simp: reader_confirm_def split: option.splits)
qed

text \<open>What the main thread and the receipts leave alone.\<close>

definition line_state :: "BridgeSession \<Rightarrow> bytes list \<times> bool" where
  "line_state s = (bs_to_serial s, bs_forwarding_enabled s)"

lemma line_state_simps [simp]:
  "line_state (s\<lparr>bs_to_core := x\<rparr>) = line_state s" "line_state (s\<lparr>bs_main := m\<rparr>) = line_state s"
  "line_state (s\<lparr>bs_stream_offset := i\<rparr>) = line_state s" "line_state (s\<lparr>bs_stop := b\<rparr>) = line_state s"
  "line_state (s\<lparr>bs_reader := r\<rparr>) = line_state s" "line_state (s\<lparr>bs_pending_events := ev\<rparr>) = line_state s"
  "line_state (s\<lparr>bs_worker_error := w\<rparr>) = line_state s" "line_state (s\<lparr>bs_spool := sp\<rparr>) = line_state s"
  by (simp_all add: line_state_def)

lemma line_state_handlers [simp]:
  "line_state (main_fail e s) = line_state s" "line_state (reader_fail e s) = line_state s"
  "line_state (reader_next s) = line_state s" "line_state (main_wake i b s) = line_state s"
  by (simp_all add: main_fail_def reader_fail_def reader_next_def main_wake_def)

lemma line_state_main:
  "line_state (main_serial_frame raw now s) = line_state s" "line_state (main_deliver p q b s) = line_state s"
  "line_state (reader_commit f s) = line_state s" "line_state (reader_confirm r s) = line_state s"
proof -
  show "line_state (main_serial_frame raw now s) = line_state s"
    by (auto simp: main_serial_frame_def Let_def send_core_ok split: sum.splits prod.splits)
  show "line_state (main_deliver p q b s) = line_state s"
    by (auto simp: main_deliver_def Let_def send_core_ok split: sum.splits)
  show "line_state (reader_commit f s) = line_state s"
    by (auto simp: reader_commit_def Let_def send_core_ok split: sum.splits prod.splits)
  show "line_state (reader_confirm r s) = line_state s"
    by (auto simp: reader_confirm_def split: option.splits)
qed

lemma line_stateD:
  "line_state t = line_state s \<Longrightarrow> bs_to_serial t = bs_to_serial s"
  "line_state t = line_state s \<Longrightarrow> bs_forwarding_enabled t = bs_forwarding_enabled s"
  by (simp_all add: line_state_def)

text \<open>The events in which a send or a serial write raises.\<close>

fun send_failure :: "bridge_event \<Rightarrow> bool" where
  "send_failure (MainSendError _ _) \<longleftrightarrow> True"
| "send_failure (CoreFrameSendError _ _) \<longleftrightarrow> True"
| "send_failure _ \<longleftrightarrow> False"

text \<open>The reader of a session without errors has passed every command on, or still holds it.\<close>

definition in_order :: "bytes list \<Rightarrow> BridgeSession \<Rightarrow> bool" where
  "in_order received s \<longleftrightarrow> prefix (commands_out s) (filter forwardable received) \<and>
     (bs_worker_error s = [] \<or> bs_reader s \<noteq> Closed \<longrightarrow> commands_out s = filter forwardable received) \<and>
     (\<not> bs_forwarding_enabled s \<longrightarrow> filter forwardable (bs_to_serial s) = [])"

lemma reader_forward_cases:
  "(\<exists>e. reader_forward f raw s = reader_fail e s) \<or>
   ((flags f = FLAG_NONE \<and> message_type f \<in> DEVICE_REQUESTS \<and> message_type f \<noteq> HELLO) \<and>
      \<not> bs_forwarding_enabled s \<and>
      reader_forward f raw s = reader_next (s\<lparr>bs_deferred_commands := bs_deferred_commands s @ [raw]\<rparr>)) \<or>
   ((flags f = FLAG_NONE \<and> message_type f \<in> DEVICE_REQUESTS \<and> message_type f \<noteq> HELLO \<longrightarrow>
       bs_forwarding_enabled s) \<and>
      reader_forward f raw s = reader_next (s\<lparr>bs_to_serial := bs_to_serial s @ [raw]\<rparr>))"
  (is "?A \<or> ?B \<or> ?C")
proof -
  consider "flags f \<noteq> FLAG_NONE \<or> message_type f \<notin> DEVICE_REQUESTS"
    | "flags f = FLAG_NONE" "message_type f \<in> DEVICE_REQUESTS" "message_type f \<noteq> HELLO" "\<not> bs_forwarding_enabled s"
    | "flags f = FLAG_NONE" "message_type f \<in> DEVICE_REQUESTS" "message_type f = HELLO \<or> bs_forwarding_enabled s"
    by blast
  then show ?thesis
  proof cases
    case 1
    then have "reader_forward f raw s = reader_fail ValueError s" unfolding reader_forward_def by (rule if_P)
    then show ?thesis by blast
  next
    case 2
    then have "reader_forward f raw s = (if length (bs_deferred_commands s) \<ge> 8 then reader_fail RuntimeError s
        else reader_next (s\<lparr>bs_deferred_commands := bs_deferred_commands s @ [raw]\<rparr>))"
      unfolding reader_forward_def by simp
    then show ?thesis using 2 by (cases "length (bs_deferred_commands s) \<ge> 8") auto
  next
    case 3
    then have "reader_forward f raw s = reader_next (s\<lparr>bs_to_serial := bs_to_serial s @ [raw]\<rparr>)"
      unfolding reader_forward_def by auto
    then show ?thesis using 3 by blast
  qed
qed

lemma reader_frame_order:
  assumes "session_inv s" "in_order received s" "bs_reader s = Receiving"
  shows "in_order (received @ [raw]) (reader_frame raw s)"
proof -
  have eq: "commands_out s = filter forwardable received" using assms by (simp add: in_order_def)
  have quiet: "\<not> bs_forwarding_enabled s \<Longrightarrow> filter forwardable (bs_to_serial s) = []"
    using assms by (simp add: in_order_def)
  have held: "bs_forwarding_enabled s \<Longrightarrow> bs_deferred_commands s = []" using assms by (simp add: session_inv_def)
  have failed: "in_order (received @ [raw]) (reader_fail e s)" for e
    using eq quiet by (simp add: in_order_def) (simp add: reader_fail_def)
  show ?thesis
  proof (cases "decode_frame raw")
    case (Inl e)
    then show ?thesis using failed by (simp add: reader_frame_def forwardable_def)
  next
    case (Inr f)
    show ?thesis
    proof (cases "message_type f = CAPTURE_COMMITTED")
      case True
      then have "\<not> forwardable raw" using Inr by (simp add: forwardable_def DEVICE_REQUESTS_def)
      then show ?thesis
        using Inr True eq quiet line_stateD [OF line_state_main(3) [of f s]]
        by (simp add: reader_frame_def in_order_def commands_out_main)
    next
      case False
      have fw: "forwardable raw \<longleftrightarrow> flags f = FLAG_NONE \<and> message_type f \<in> DEVICE_REQUESTS \<and> message_type f \<noteq> HELLO"
        using Inr by (simp add: forwardable_def)
      have r: "reader_frame raw s = reader_forward f raw s" using Inr False by (simp add: reader_frame_def)
      consider (bad) e where "reader_frame raw s = reader_fail e s"
        | (hold) "forwardable raw" "\<not> bs_forwarding_enabled s"
          "reader_frame raw s = reader_next (s\<lparr>bs_deferred_commands := bs_deferred_commands s @ [raw]\<rparr>)"
        | (pass) "forwardable raw \<longrightarrow> bs_forwarding_enabled s"
          "reader_frame raw s = reader_next (s\<lparr>bs_to_serial := bs_to_serial s @ [raw]\<rparr>)"
        using reader_forward_cases [of f raw s] unfolding r fw by blast
      then show ?thesis
      proof cases
        case bad
        then show ?thesis using failed by simp
      next
        case hold
        then show ?thesis using eq quiet by (simp add: in_order_def) (simp add: commands_out_def reader_next_def)
      next
        case pass
        have "commands_out (s\<lparr>bs_to_serial := bs_to_serial s @ [raw]\<rparr>) = filter forwardable (received @ [raw])"
          using eq held pass(1) by (auto simp: commands_out_def)
        then show ?thesis using pass quiet by (simp add: in_order_def) (auto simp: reader_next_def)
      qed
    qed
  qed
qed

definition link_state :: "BridgeSession \<Rightarrow> (bytes list \<times> bool) \<times> bytes list" where
  "link_state s = (line_state s, commands_out s)"

lemma in_order_cong:
  assumes "in_order received s" "link_state t = link_state s"
    and "bs_worker_error t = [] \<or> bs_reader t \<noteq> Closed \<Longrightarrow> bs_worker_error s = [] \<or> bs_reader s \<noteq> Closed"
  shows "in_order received t"
  using assms unfolding in_order_def link_state_def line_state_def by auto

lemma main_replay_order:
  assumes "in_order received s"
  shows "in_order received (main_replay batch s)"
proof (cases "batch = [] \<and> sp_pending_captures (bs_spool s) = []")
  case True
  then have "main_replay batch s = s\<lparr>bs_forwarding_enabled := True,
      bs_to_serial := bs_to_serial s @ bs_deferred_commands s, bs_deferred_commands := [], bs_main := Reading\<rparr>"
    by (simp add: main_replay_def pending_records_64)
  then show ?thesis using assms commands_out_main(3) [of batch s] by (simp add: in_order_def)
next
  case False
  have "\<exists>m. main_replay batch s = s\<lparr>bs_main := m\<rparr>"
  proof (cases batch)
    case (Cons p ps)
    show ?thesis unfolding main_replay_def Cons list.case by blast
  next
    case Nil
    then obtain q qs where "take 64 (sp_pending_captures (bs_spool s)) = q # qs"
      using False by (cases "sp_pending_captures (bs_spool s)") auto
    then show ?thesis unfolding main_replay_def Nil list.case pending_records_64 prod.case sum.case by auto
  qed
  then obtain m where "main_replay batch s = s\<lparr>bs_main := m\<rparr>" by blast
  then show ?thesis using assms by (simp add: in_order_def)
qed

text \<open>A step of the main thread does not touch the reader's point or its errors.\<close>

definition reader_state :: "BridgeSession \<Rightarrow> exn list \<times> reader_point" where
  "reader_state s = (bs_worker_error s, bs_reader s)"

lemma reader_state_simps [simp]:
  "reader_state (s\<lparr>bs_to_core := x\<rparr>) = reader_state s" "reader_state (s\<lparr>bs_main := m\<rparr>) = reader_state s"
  "reader_state (s\<lparr>bs_stream_offset := i\<rparr>) = reader_state s" "reader_state (s\<lparr>bs_stop := b\<rparr>) = reader_state s"
  "reader_state (s\<lparr>bs_pending_events := ev\<rparr>) = reader_state s" "reader_state (s\<lparr>bs_spool := sp\<rparr>) = reader_state s"
  by (simp_all add: reader_state_def)

lemma reader_state_main [simp]:
  "reader_state (main_fail e s) = reader_state s" "reader_state (main_wake i b s) = reader_state s"
  by (simp_all add: main_fail_def main_wake_def)

lemma reader_state_steps:
  "reader_state (main_serial_frame raw now s) = reader_state s" "reader_state (main_deliver p q b s) = reader_state s"
proof -
  show "reader_state (main_serial_frame raw now s) = reader_state s"
    by (auto simp: main_serial_frame_def Let_def send_core_ok split: sum.splits prod.splits)
  show "reader_state (main_deliver p q b s) = reader_state s"
    by (auto simp: main_deliver_def Let_def send_core_ok split: sum.splits)
qed

lemma main_step_order:
  assumes "in_order received s" "line_state t = line_state s" "commands_out t = commands_out s"
    "reader_state t = reader_state s"
  shows "in_order received t"
  using assms by (intro in_order_cong [OF assms(1)]) (auto simp: link_state_def reader_state_def)

lemma bridge_step_order:
  assumes "session_inv s" "in_order received s" "bridge_step e s = Some t" "\<not> send_failure e"
  shows "in_order (received @ core_frames [e]) t"
proof (cases e)
  case (CoreFrame raw)
  then show ?thesis using assms by (auto simp: reader_frame_order split: reader_point.splits)
next
  case ReaderSteps
  then obtain r where r: "bs_reader s = Confirming r" "t = reader_confirm r s"
    using assms(3) by (auto split: reader_point.splits)
  have "in_order received (reader_confirm r s)"
    by (rule in_order_cong [OF assms(2)]) (simp_all add: link_state_def line_state_main commands_out_main r(1))
  then show ?thesis using ReaderSteps r(2) by simp
next
  case CoreClosed
  then have "bs_reader s = Receiving" "t = s\<lparr>bs_stop := True, bs_reader := Closed\<rparr>"
    using assms(3) by (auto split: reader_point.splits)
  moreover have "in_order received (s\<lparr>bs_stop := True, bs_reader := Closed\<rparr>)"
    by (rule in_order_cong [OF assms(2)]) (simp_all add: link_state_def \<open>bs_reader s = Receiving\<close>)
  ultimately show ?thesis using CoreClosed by simp
next
  case StopSeen
  then have "t = s\<lparr>bs_main := Ended None\<rparr>" using assms(3) by (auto split: main_point.splits if_splits)
  moreover have "in_order received (s\<lparr>bs_main := Ended None\<rparr>)"
    by (rule main_step_order [OF assms(2)]) (simp_all add: reader_state_def)
  ultimately show ?thesis using StopSeen by simp
next
  case (SerialFrame raw now)
  then have "t = main_serial_frame raw now s" using assms(3) by (auto split: main_point.splits)
  then show ?thesis
    using SerialFrame main_step_order [OF assms(2), of t]
    by (simp add: line_state_main commands_out_main reader_state_steps)
next
  case (SerialError x)
  then have "t = main_fail x s" using assms(3) by (auto split: main_point.splits)
  then show ?thesis using SerialError main_step_order [OF assms(2), of t] by simp
next
  case MainTimeout
  then have "t = main_fail TimeoutError s" using assms(3) by (auto split: main_point.splits if_splits)
  then show ?thesis using MainTimeout main_step_order [OF assms(2), of t] by simp
next
  case MainSteps
  then consider p q b where "t = main_deliver p q b s" | i b where "t = main_wake i b s" | b where "t = main_replay b s"
    using assms(3) by (auto split: main_point.splits if_splits)
  then have "in_order received t"
  proof cases
    case 1
    then show ?thesis
      using main_step_order [OF assms(2), of t] by (simp add: line_state_main commands_out_main reader_state_steps)
  next
    case 2
    then show ?thesis using main_step_order [OF assms(2), of t] by simp
  next
    case 3
    then show ?thesis using main_replay_order [OF assms(2)] by simp
  qed
  then show ?thesis using MainSteps by simp
qed (use assms(4) in simp_all)

lemma bridge_run_order:
  assumes "bridge_run s es t" "session_inv s" "in_order [] s" "list_all (\<lambda>e. \<not> send_failure e) es"
  shows "session_inv t \<and> in_order (core_frames es) t"
  using assms
proof (induction rule: bridge_run.induct)
  case (step s es t e u)
  then have t: "session_inv t" "in_order (core_frames es) t" and e: "\<not> send_failure e" by auto
  show ?case using bridge_step_inv [OF t(1) step.hyps(2)] bridge_step_order [OF t step.hyps(2) e] by simp
qed simp

text \<open>When a write fails a command may be missing on the line, but no two commands change places.\<close>

definition no_overtaking :: "bytes list \<Rightarrow> BridgeSession \<Rightarrow> bool" where
  "no_overtaking received s \<longleftrightarrow> subseq (commands_out s) (filter forwardable received) \<and>
     (\<not> bs_forwarding_enabled s \<longrightarrow> filter forwardable (bs_to_serial s) = [])"

lemma subseq_snoc: "subseq xs ys \<Longrightarrow> subseq xs (ys @ zs)"
  by (metis append_Nil2 list_emb_append_mono subseq_order.order_refl list_emb_Nil)

lemma no_overtaking_more: "no_overtaking received s \<Longrightarrow> no_overtaking (received @ later) s"
  by (simp add: no_overtaking_def subseq_snoc)

lemma no_overtaking_less:
  assumes "no_overtaking received s" "subseq (commands_out t) (commands_out s)"
    and "\<not> bs_forwarding_enabled t \<Longrightarrow> bs_to_serial t = bs_to_serial s \<and> \<not> bs_forwarding_enabled s"
  shows "no_overtaking received t"
  using assms subseq_order.order_trans [OF assms(2)] by (auto simp: no_overtaking_def)

lemma no_overtaking_cong:
  assumes "no_overtaking received s" "line_state t = line_state s" "commands_out t = commands_out s"
  shows "no_overtaking received t"
  using no_overtaking_less [OF assms(1), of t] assms(3) line_stateD [OF assms(2)] by simp

lemma reader_frame_no_overtaking:
  assumes "session_inv s" "no_overtaking received s"
  shows "no_overtaking (received @ [raw]) (reader_frame raw s)"
proof (cases "\<exists>f. decode_frame raw = Inr f \<and> message_type f \<noteq> CAPTURE_COMMITTED")
  case False
  then have "line_state (reader_frame raw s) = line_state s \<and> commands_out (reader_frame raw s) = commands_out s"
    by (auto simp: reader_frame_def line_state_main commands_out_main split: sum.splits)
  then show ?thesis using no_overtaking_cong [OF no_overtaking_more [OF assms(2)]] by blast
next
  case True
  then obtain f where f: "decode_frame raw = Inr f" "message_type f \<noteq> CAPTURE_COMMITTED" by blast
  have fw: "forwardable raw \<longleftrightarrow> flags f = FLAG_NONE \<and> message_type f \<in> DEVICE_REQUESTS \<and> message_type f \<noteq> HELLO"
    using f by (simp add: forwardable_def)
  have r: "reader_frame raw s = reader_forward f raw s" using f by (simp add: reader_frame_def)
  have held: "bs_forwarding_enabled s \<Longrightarrow> bs_deferred_commands s = []" using assms(1) by (simp add: session_inv_def)
  consider (bad) e where "reader_frame raw s = reader_fail e s"
    | (hold) "forwardable raw" "\<not> bs_forwarding_enabled s"
      "reader_frame raw s = reader_next (s\<lparr>bs_deferred_commands := bs_deferred_commands s @ [raw]\<rparr>)"
    | (pass) "forwardable raw \<longrightarrow> bs_forwarding_enabled s"
      "reader_frame raw s = reader_next (s\<lparr>bs_to_serial := bs_to_serial s @ [raw]\<rparr>)"
    using reader_forward_cases [of f raw s] unfolding r fw by blast
  then show ?thesis
  proof cases
    case bad
    then show ?thesis using no_overtaking_cong [OF no_overtaking_more [OF assms(2)], of "reader_fail e s"] by simp
  next
    case hold
    then show ?thesis
      using assms(2)
      by (simp add: no_overtaking_def) (auto simp: commands_out_def reader_next_def)
  next
    case pass
    have "commands_out (s\<lparr>bs_to_serial := bs_to_serial s @ [raw]\<rparr>) = commands_out s @ filter forwardable [raw]"
      using held pass(1) by (auto simp: commands_out_def)
    then show ?thesis
      using pass assms(2)
      by (simp add: no_overtaking_def list_emb_append_mono) (auto simp: reader_next_def subseq_snoc)
  qed
qed

lemma send_error_no_overtaking:
  assumes "no_overtaking received s"
  shows "main_send_error e n s = Some t \<Longrightarrow> no_overtaking received t"
    and "reader_send_error raw e s = Some t \<Longrightarrow> no_overtaking received t"
proof -
  have sub: "subseq (filter forwardable (take n xs)) (filter forwardable xs)" for xs
    by (metis append_take_drop_id filter_append subseq_order.order_refl subseq_snoc)
  have flushed: "no_overtaking received (main_fail e (s\<lparr>bs_forwarding_enabled := True,
                 bs_to_serial := bs_to_serial s @ take n (bs_deferred_commands s), bs_deferred_commands := []\<rparr>))"
    using sub by (intro no_overtaking_less [OF assms]) (simp_all add: commands_out_def main_fail_def list_emb_append_mono)
  show "main_send_error e n s = Some t \<Longrightarrow> no_overtaking received t"
    using flushed no_overtaking_cong [OF assms, of t]
    by (auto simp: main_send_error_def split: main_point.splits list.splits if_splits)
  have "no_overtaking received (reader_broken e u)" if "line_state u = line_state s" "commands_out u = commands_out s" for u
    using no_overtaking_cong [OF assms, of "reader_broken e u"] that by (simp add: reader_broken_def)
  then show "reader_send_error raw e s = Some t \<Longrightarrow> no_overtaking received t"
    by (auto simp: reader_send_error_def split: sum.splits if_splits prod.splits)
qed

lemma bridge_step_no_overtaking:
  assumes "session_inv s" "no_overtaking received s" "bridge_step e s = Some t"
  shows "no_overtaking (received @ core_frames [e]) t"
proof -
  note same = no_overtaking_cong [OF assms(2)]
  show ?thesis
  proof (cases e)
    case (CoreFrame raw)
    then show ?thesis using assms by (auto simp: reader_frame_no_overtaking split: reader_point.splits)
  next
    case (CoreFrameSendError raw x)
    then have "no_overtaking received t"
      using assms(3) send_error_no_overtaking(2) [OF assms(2)] by (auto split: reader_point.splits)
    then show ?thesis using no_overtaking_more CoreFrameSendError by simp
  next
    case (MainSendError x n)
    then show ?thesis using assms(3) send_error_no_overtaking(1) [OF assms(2)] by simp
  next
    case MainSteps
    have replay: "no_overtaking received (main_replay b s)" for b
      using assms(2) commands_out_main(3) [of b s]
      by (intro no_overtaking_less [OF assms(2)])
        (auto simp: main_replay_def pending_records_64 split: list.splits)
    consider p q b where "t = main_deliver p q b s" | i b where "t = main_wake i b s" | b where "t = main_replay b s"
      using MainSteps assms(3) by (auto split: main_point.splits if_splits)
    then have "no_overtaking received t"
      by cases (simp_all add: replay same line_state_main commands_out_main)
    then show ?thesis using MainSteps by simp
  qed (use assms(3) in \<open>auto simp: line_state_main commands_out_main intro!: same
    split: main_point.splits reader_point.splits if_splits\<close>)
qed

lemma bridge_run_no_overtaking:
  assumes "bridge_run s es t" "session_inv s" "no_overtaking [] s"
  shows "no_overtaking (core_frames es) t"
  using assms
proof (induction rule: bridge_run.induct)
  case (step s es t e u)
  then show ?case
    using bridge_step_no_overtaking [OF bridge_run_inv [OF step.hyps(1) step.prems(1)] _ step.hyps(2)] by auto
qed simp

section \<open>Rows leave the spool by their receipts only\<close>

text \<open>A core frame that carries the receipt for a spooled row.\<close>

definition receipt_for :: "PendingCapture \<Rightarrow> bytes \<Rightarrow> bool" where
  "receipt_for p raw \<longleftrightarrow> (\<exists>f r. decode_frame raw = Inr f \<and> message_type f = CAPTURE_COMMITTED \<and>
     decode_capture_committed_request (payload f) = Inr r \<and> cq_spool_record_id r = pc_record_id p \<and>
     receipt_matches p (cq_device_id r) (cq_boot_id r) (cq_capture_id r) (cq_inner_frame_crc32 r))"

lemma spool_untouched [simp]:
  "bs_spool (main_fail e s) = bs_spool s" "bs_spool (reader_fail e s) = bs_spool s"
  "bs_spool (reader_next s) = bs_spool s" "bs_spool (main_wake i b s) = bs_spool s"
  by (simp_all add: main_fail_def reader_fail_def reader_next_def main_wake_def)

lemma spool_steps:
  "bs_spool (main_deliver p q b s) = bs_spool s" "bs_spool (main_replay batch s) = bs_spool s"
  "bs_spool (reader_confirm r s) = bs_spool s" "bs_spool (reader_forward f raw s) = bs_spool s"
proof -
  show "bs_spool (main_deliver p q b s) = bs_spool s"
    by (auto simp: main_deliver_def Let_def send_core_ok split: sum.splits)
  show "bs_spool (main_replay batch s) = bs_spool s"
    by (simp add: main_replay_def pending_records_64 split: list.split)
  show "bs_spool (reader_confirm r s) = bs_spool s"
    by (simp add: reader_confirm_def split: option.split)
  show "bs_spool (reader_forward f raw s) = bs_spool s"
    using reader_forward_cases [of f raw s] by auto
qed

lemma serial_keeps_rows:
  assumes "p \<in> set (sp_pending_captures (bs_spool s))"
  shows "p \<in> set (sp_pending_captures (bs_spool (main_serial_frame raw now s)))"
proof (cases "decode_frame raw")
  case (Inl e)
  then show ?thesis using assms by (simp add: main_serial_frame_def)
next
  case (Inr f)
  obtain r sp where st: "store_capture raw (bs_source_connection_id s) (bs_stream_offset s)
        (bs_stream_offset s + int (length raw) - 1) now (bs_spool s) = (r, sp)" by force
  then have "p \<in> set (sp_pending_captures sp)"
    by (cases rule: store_capture_cases) (use assms in auto)
  then show ?thesis
    using Inr st assms
    by (cases r) (auto simp: main_serial_frame_def Let_def send_core_ok split: sum.splits)
qed

lemma receipt_removes_its_row:
  assumes "spool_inv sp" "p \<in> set (sp_pending_captures sp)"
    and "decode_frame raw = Inr f" "message_type f = CAPTURE_COMMITTED"
    and "decode_capture_committed_request (payload f) = Inr r"
    and "mark_committed (cq_spool_record_id r) (cq_device_id r) (cq_boot_id r) (cq_capture_id r)
       (cq_inner_frame_crc32 r) sp = (x, sp')"
  shows "p \<in> set (sp_pending_captures sp') \<or> receipt_for p raw"
  using assms(6)
proof (cases rule: mark_committed_cases)
  case (deleted p')
  show ?thesis
  proof (cases "pc_record_id p = pc_record_id p'")
    case True
    have "inj_on pc_record_id (set (sp_pending_captures sp))"
      using pending_ids_distinct [OF assms(1)] by (simp add: distinct_map)
    then have "p = p'" using True assms(2) deleted(2) by (rule inj_onD)
    then show ?thesis using deleted assms(3-5) by (auto simp: receipt_for_def)
  next
    case False
    then show ?thesis using assms(2) by (simp add: deleted(5) commit_row_def)
  qed
qed (use assms(2) in simp_all)

lemma commit_keeps_rows:
  assumes "spool_inv (bs_spool s)" "p \<in> set (sp_pending_captures (bs_spool s))"
    and "decode_frame raw = Inr f" "message_type f = CAPTURE_COMMITTED"
  shows "p \<in> set (sp_pending_captures (bs_spool (reader_commit f s))) \<or> receipt_for p raw"
  using assms(2) receipt_removes_its_row [OF assms]
  by (auto simp: reader_commit_def Let_def send_core_ok split: sum.splits prod.splits)

lemma send_error_keeps_rows:
  assumes "spool_inv (bs_spool s)" "p \<in> set (sp_pending_captures (bs_spool s))"
  shows "main_send_error e n s = Some t \<Longrightarrow> p \<in> set (sp_pending_captures (bs_spool t))"
    and "reader_send_error raw e s = Some t \<Longrightarrow> p \<in> set (sp_pending_captures (bs_spool t)) \<or> receipt_for p raw"
proof -
  show "main_send_error e n s = Some t \<Longrightarrow> p \<in> set (sp_pending_captures (bs_spool t))"
    using assms(2) by (auto simp: main_send_error_def split: main_point.splits list.splits if_splits)
  show "reader_send_error raw e s = Some t \<Longrightarrow> p \<in> set (sp_pending_captures (bs_spool t)) \<or> receipt_for p raw"
    using assms(2) receipt_removes_its_row [OF assms, of raw]
    by (auto simp: reader_send_error_def reader_broken_def split: sum.splits if_splits prod.splits)
qed

lemma bridge_step_rows:
  assumes "session_inv s" "p \<in> set (sp_pending_captures (bs_spool s))" "bridge_step e s = Some t"
  shows "p \<in> set (sp_pending_captures (bs_spool t)) \<or> (\<exists>raw \<in> set (core_frames [e]). receipt_for p raw)"
proof (cases e)
  case (CoreFrame raw)
  then have t: "t = reader_frame raw s" using assms(3) by (auto split: reader_point.splits)
  have "spool_inv (bs_spool s)" using assms(1) by (simp add: session_inv_def)
  note c = commit_keeps_rows [OF this assms(2), of raw]
  show ?thesis
    using assms(2) c by (auto simp: t CoreFrame reader_frame_def spool_steps split: sum.splits)
next
  case (CoreFrameSendError raw x)
  then show ?thesis
    using assms(1,3) send_error_keeps_rows(2) [OF _ assms(2), of raw x t]
    by (auto simp: session_inv_def split: reader_point.splits)
next
  case (MainSendError x n)
  then show ?thesis using assms(1,3) send_error_keeps_rows(1) [OF _ assms(2)] by (auto simp: session_inv_def)
qed (use assms in \<open>auto simp: spool_steps serial_keeps_rows split: main_point.splits reader_point.splits if_splits\<close>)

lemma bridge_run_rows:
  assumes "bridge_run s es t" "session_inv s" "p \<in> set (sp_pending_captures (bs_spool s))"
  shows "p \<in> set (sp_pending_captures (bs_spool t)) \<or> (\<exists>raw \<in> set (core_frames es). receipt_for p raw)"
  using assms
proof (induction rule: bridge_run.induct)
  case (step s es t e u)
  then show ?case using bridge_step_rows [OF bridge_run_inv [OF step.hyps(1) step.prems(1)] _ step.hyps(2), of p] by auto
qed simp

section \<open>Properties\<close>

lemma start_in_order: "in_order [] (start_session sp c d)"
  by (simp add: in_order_def start_session_def commands_out_def)

lemma start_no_overtaking: "no_overtaking [] (start_session sp c d)"
  by (simp add: no_overtaking_def start_session_def commands_out_def)


text \<open>The handshake of a session on an empty spool, as a run.\<close>

definition hello_response :: Frame where "hello_response = mk_frame HELLO 1 [] FLAG_RESPONSE"

lemma hello_run:
  assumes "sp_pending_captures sp = []"
  shows "\<exists>s. bridge_run (start_session sp 1 2) [SerialFrame (frame_bytes hello_response) 0, MainSteps] s \<and>
    bs_forwarding_enabled s \<and> bs_main s = Reading"
proof -
  have ok: "frame_ok hello_response"
    by (simp add: hello_response_def frame_ok_def PROTOCOL_VERSION_def flag_defs)
  then have enc: "encode_frame hello_response = Inr (frame_bytes hello_response)" by (simp add: encode_frame_iff)
  have hf: "message_type hello_response = HELLO" "flags hello_response AND FLAG_RESPONSE = 1" "payload hello_response = []"
    by (simp_all add: hello_response_def flag_defs)
  let ?s0 = "start_session sp 1 2"
  let ?s1 = "?s0\<lparr>bs_stream_offset := 20, bs_to_core := [frame_bytes hello_response], bs_main := Replaying []\<rparr>"
  have "main_serial_frame (frame_bytes hello_response) 0 ?s0 = ?s1"
    using decode_frame_bytes [OF ok] enc by (simp add: main_serial_frame_def Let_def send_core_def start_session_def hf)
  then have 1: "bridge_run ?s0 [SerialFrame (frame_bytes hello_response) 0] ?s1"
    using bridge_run.step [OF bridge_run.start, of "SerialFrame (frame_bytes hello_response) 0" ?s0 ?s1]
    by (simp add: start_session_def)
  let ?s2 = "main_replay [] ?s1"
  have "bridge_run ?s0 ([SerialFrame (frame_bytes hello_response) 0] @ [MainSteps]) ?s2"
    by (rule bridge_run.step [OF 1]) simp
  moreover have "bs_forwarding_enabled ?s2" "bs_main ?s2 = Reading"
    using assms by (simp_all add: main_replay_def pending_records_64 start_session_def)
  ultimately show ?thesis by auto
qed




end
