(* ===== verification/Bridge_Client.thy ===== *)
theory Bridge_Client
  imports Bridge_Session Store_Sessions Periodic_Lease Device_Session
begin

text \<open>
  \<open>bridge_device_client.py\<close>: the core's end of the bridge connection. A client is its Python object with
  the socket: the chunks it will still deliver and the frames sent so far. Random identifiers
  (\<open>secrets.token_bytes\<close>) are arguments of the operations that draw them, and the callback installed by
  \<open>set_async_capture_handler\<close> is an argument of the operations that may call it.
\<close>

section \<open>State\<close>

record BridgeDeviceClient =
  bc_chunks :: "bytes list"
  bc_sent :: "bytes list"
  bc_sequence :: int
  bc_device_config :: "AcquisitionConfigV2 option"
  bc_pending :: "(int \<times> BridgeCaptureDelivery \<times> CaptureData) option"
  bc_replay_store :: "CaptureStore option"
  bc_hello :: "HelloResponse option"
  bc_capabilities :: "CapabilitiesResponse option"
  bc_published_session :: "PublishedDeviceSession option"

type_synonym 'a bcl = "(BridgeDeviceClient, 'a) meth"
type_synonym capture_handler = "(CaptureData \<Rightarrow> bool bcl) option"

definition bc_next_sequence :: "int bcl" where
  "bc_next_sequence =
     mbind (mupd (\<lambda>c. c\<lparr>bc_sequence := (bc_sequence c + 1) AND 0xFFFFFFFF\<rparr>)) (\<lambda>_.
     mbind mget (\<lambda>c. mret (bc_sequence c)))"

section \<open>The connection\<close>

definition bc_sendall :: "Frame \<Rightarrow> unit bcl" where
  "bc_sendall frame =
     mbind (mlift (encode_frame frame)) (\<lambda>raw. mupd (\<lambda>c. c\<lparr>bc_sent := bc_sent c @ [raw]\<rparr>))"

definition bc_send :: "Frame \<Rightarrow> unit bcl" where
  "bc_send frame =
     mbind mget (\<lambda>c.
     mbind (mguard (\<not> (bc_pending c \<noteq> None \<and> message_type frame \<noteq> CAPTURE_COMMITTED)) RuntimeError) (\<lambda>_.
     bc_sendall frame))"

text \<open>\<open>_read_exact\<close>: at the end of the stream everything has been consumed.\<close>

definition bc_read_exact :: "nat \<Rightarrow> bytes bcl" where
  "bc_read_exact n c =
     (case read_exact n (bc_chunks c) [] of
        Inl e \<Rightarrow> (Inl e, c\<lparr>bc_chunks := []\<rparr>)
      | Inr (out, rest) \<Rightarrow> (Inr out, c\<lparr>bc_chunks := rest\<rparr>))"

definition bc_receive :: "(Frame \<times> bytes) bcl" where
  "bc_receive =
     mbind (bc_read_exact HEADER_SIZE) (\<lambda>header.
     mbind (mlift (payload_length_field header)) (\<lambda>payload_length.
     mbind (mguard (payload_length \<le> int HOST_MAX_PAYLOAD_LENGTH) ValueError) (\<lambda>_.
     mbind (bc_read_exact (nat payload_length + CRC_SIZE)) (\<lambda>rest.
     mbind (mlift (decode_frame (header @ rest))) (\<lambda>frame.
     mret (frame, header @ rest))))))"

definition raise_device_error :: "Frame \<Rightarrow> unit bcl" where
  "raise_device_error frame =
     (if message_type frame = ERROR then mbind (mlift (decode_error (payload frame))) (\<lambda>_. mraise RuntimeError)
      else mret ())"

section \<open>Deliveries\<close>

definition accept_delivery :: "Frame \<Rightarrow> CaptureData bcl" where
  "accept_delivery frame =
     mbind mget (\<lambda>c.
     mbind (mguard (bc_pending c = None) RuntimeError) (\<lambda>_.
     mbind (if message_type frame \<noteq> BRIDGE_CAPTURE_DELIVERY \<or> flags frame \<noteq> FLAG_ASYNC
            then mbind (raise_device_error frame) (\<lambda>_. mraise RuntimeError) else mret ()) (\<lambda>_.
     mbind (mlift (decode_bridge_capture_delivery (payload frame))) (\<lambda>delivery.
     mbind (mlift (decode_frame (bd_inner_frame delivery))) (\<lambda>inner.
     mbind (mlift (decode_capture_data (payload inner))) (\<lambda>capture.
     mbind (mupd (\<lambda>c. c\<lparr>bc_pending := Some (sequence frame, delivery, capture)\<rparr>)) (\<lambda>_.
     mret capture)))))))"

definition capture_delivery :: "bytes \<Rightarrow> BridgeCaptureDelivery bcl" where
  "capture_delivery capture_id =
     mbind mget (\<lambda>c.
     case bc_pending c of
       None \<Rightarrow> mraise KeyError
     | Some (_, delivery, capture) \<Rightarrow> if cd_capture_id capture \<noteq> capture_id then mraise KeyError else mret delivery)"

definition capture_wire_frame :: "bytes \<Rightarrow> bytes bcl" where
  "capture_wire_frame capture_id = mbind (capture_delivery capture_id) (\<lambda>d. mret (bd_inner_frame d))"

definition confirm_delivery :: "int \<Rightarrow> BridgeCaptureDelivery \<Rightarrow> CaptureCommittedRequest \<Rightarrow> unit bcl" where
  "confirm_delivery seq delivery receipt =
     mbind (mlift (encode_capture_committed_request receipt)) (\<lambda>body.
     mbind (bc_sendall (mk_frame CAPTURE_COMMITTED seq body FLAG_NONE)) (\<lambda>_.
     mbind bc_receive (\<lambda>(response_frame, _).
     mbind (mguard (message_type response_frame = CAPTURE_COMMITTED \<and> flags response_frame = FLAG_RESPONSE \<and>
              sequence response_frame = seq) RuntimeError) (\<lambda>_.
     mbind (mlift (decode_capture_committed_response (payload response_frame))) (\<lambda>response.
     mguard (cp_connection_id response = bd_connection_id delivery \<and>
             cp_spool_record_id response = bd_spool_record_id delivery) RuntimeError)))))"

definition confirm_capture :: "CaptureCommittedRequest \<Rightarrow> unit bcl" where
  "confirm_capture receipt =
     mbind mget (\<lambda>c.
     case bc_pending c of
       None \<Rightarrow> mraise RuntimeError
     | Some (seq, delivery, capture) \<Rightarrow>
         mbind (mguard (cq_capture_id receipt = cd_capture_id capture) RuntimeError) (\<lambda>_.
         mbind (confirm_delivery seq delivery receipt) (\<lambda>_.
         mupd (\<lambda>c. c\<lparr>bc_pending := None\<rparr>))))"

definition release_capture :: "bytes \<Rightarrow> unit bcl" where
  "release_capture capture_id =
     mbind mget (\<lambda>c.
     case bc_pending c of
       None \<Rightarrow> mret ()
     | Some (_, _, capture) \<Rightarrow> mguard (cd_capture_id capture \<noteq> capture_id) RuntimeError)"

text \<open>\<open>self._replay_store.commit_replayed_delivery(delivery)\<close>\<close>

definition commit_replayed :: "BridgeCaptureDelivery \<Rightarrow> CoreCommitResult bcl" where
  "commit_replayed delivery c =
     (case bc_replay_store c of
        None \<Rightarrow> (Inl RuntimeError, c)
      | Some store \<Rightarrow>
          (case commit_replayed_delivery delivery store of
             (r, store') \<Rightarrow> (r, c\<lparr>bc_replay_store := Some store'\<rparr>)))"

text \<open>What \<open>_response\<close> does with a delivery that arrives before the reply.\<close>

definition absorb_delivery :: "capture_handler \<Rightarrow> Frame \<Rightarrow> unit bcl" where
  "absorb_delivery handler frame =
     mbind (accept_delivery frame) (\<lambda>capture.
     mbind (case handler of None \<Rightarrow> mret False | Some h \<Rightarrow> h capture) (\<lambda>handled.
     if handled then mbind mget (\<lambda>c. mguard (bc_pending c = None) RuntimeError)
     else
       mbind mget (\<lambda>c.
       mbind (mguard (bc_replay_store c \<noteq> None) RuntimeError) (\<lambda>_.
       mbind (capture_delivery (cd_capture_id capture)) (\<lambda>delivery.
       mbind (commit_replayed delivery) (\<lambda>result.
       mbind (confirm_capture (ccr_receipt result)) (\<lambda>_.
       release_capture (cd_capture_id capture))))))))"

text \<open>
  The loop of \<open>_response\<close>. Every turn reads a frame of at least 20 bytes, so the number of bytes the
  socket will still deliver, plus one, bounds the number of turns; \<open>TimeoutError\<close> stands for a turn
  beyond it, which is the socket's timeout.
\<close>

fun response_loop :: "nat \<Rightarrow> capture_handler \<Rightarrow> int \<Rightarrow> MessageType \<Rightarrow> Frame bcl" where
  "response_loop 0 handler seq t = mraise TimeoutError"
| "response_loop (Suc n) handler seq t =
     mbind bc_receive (\<lambda>(frame, _).
     if message_type frame = BRIDGE_CAPTURE_DELIVERY then
       mbind (absorb_delivery handler frame) (\<lambda>_. response_loop n handler seq t)
     else
       mbind (raise_device_error frame) (\<lambda>_.
       if sequence frame \<noteq> seq \<or> message_type frame \<noteq> t \<or> flags frame AND FLAG_RESPONSE = 0
       then mraise RuntimeError else mret frame))"

definition bc_response :: "capture_handler \<Rightarrow> int \<Rightarrow> MessageType \<Rightarrow> Frame bcl" where
  "bc_response handler seq t =
     mbind mget (\<lambda>c. response_loop (Suc (length (concat (bc_chunks c)))) handler seq t)"

definition bc_ack :: "capture_handler \<Rightarrow> int \<Rightarrow> bytes \<Rightarrow> MessageType \<Rightarrow> unit bcl" where
  "bc_ack handler seq request_id t =
     mbind (bc_response handler seq ACK) (\<lambda>frame.
     mbind (mlift (decode_ack (payload frame))) (\<lambda>ack.
     mguard (ack_request_id ack = request_id \<and> ack_acked_type ack = type_code t) RuntimeError))"

section \<open>Commands\<close>

text \<open>\<open>self._send(Frame(type, sequence, payload))\<close> with a fresh sequence number.\<close>

definition bc_request :: "MessageType \<Rightarrow> bytes res \<Rightarrow> int bcl" where
  "bc_request t encoded =
     mbind bc_next_sequence (\<lambda>seq.
     mbind (mlift encoded) (\<lambda>body.
     mbind (bc_send (mk_frame t seq body FLAG_NONE)) (\<lambda>_.
     mret seq)))"

definition bc_hello_exchange :: "bytes \<Rightarrow> HelloResponse bcl" where
  "bc_hello_exchange nonce =
     mbind (bc_request HELLO
              (encode_hello_request \<lparr>hq_host_nonce = nonce, hq_min_version = 1, hq_max_version = 1\<rparr>)) (\<lambda>seq.
     mbind (bc_response None seq HELLO) (\<lambda>frame.
     mbind (mlift (decode_hello_response (payload frame))) (\<lambda>hello.
     mbind (mguard (hr_host_nonce hello = nonce) RuntimeError) (\<lambda>_.
     mret hello))))"

definition bc_query_capabilities :: "CapabilitiesResponse bcl" where
  "bc_query_capabilities =
     mbind (bc_request GET_CAPABILITIES (Inr [])) (\<lambda>seq.
     mbind (bc_response None seq GET_CAPABILITIES) (\<lambda>frame.
     mlift (decode_capabilities_response (payload frame))))"

definition bc_status :: "capture_handler \<Rightarrow> StatusResponse bcl" where
  "bc_status handler =
     mbind (bc_request GET_STATUS (Inr [])) (\<lambda>seq.
     mbind (bc_response handler seq GET_STATUS) (\<lambda>frame.
     mlift (decode_status_response (payload frame))))"

definition bc_read_config :: "capture_handler \<Rightarrow> AcquisitionConfigV2 bcl" where
  "bc_read_config handler =
     mbind (bc_request GET_CONFIG (Inr [])) (\<lambda>seq.
     mbind (bc_response handler seq GET_CONFIG) (\<lambda>frame.
     mlift (decode_config_v2 (payload frame))))"

definition bc_apply_config :: "capture_handler \<Rightarrow> bytes \<Rightarrow> AcquisitionConfigV2 \<Rightarrow> DeviceReadback bcl" where
  "bc_apply_config handler request_id config =
     mbind mget (\<lambda>c.
     mbind (case bc_device_config c of
              Some active \<Rightarrow> mret active
            | None \<Rightarrow>
                mbind (bc_read_config handler) (\<lambda>active.
                mbind (mupd (\<lambda>c. c\<lparr>bc_device_config := Some active\<rparr>)) (\<lambda>_.
                mret active))) (\<lambda>active.
     mbind (bc_request SET_CONFIG
              (encode_set_config_request \<lparr>sc_request_id = request_id,
                 sc_expected_profile_sha256 = profile_sha256 active, sc_config = config\<rparr>)) (\<lambda>seq.
     mbind (bc_ack handler seq request_id SET_CONFIG) (\<lambda>_.
     mbind (bc_read_config handler) (\<lambda>readback.
     mbind (mupd (\<lambda>c. c\<lparr>bc_device_config := Some readback\<rparr>)) (\<lambda>_.
     mret \<lparr>rb_config = readback\<rparr>))))))"

definition BRIDGE_TRIGGER_CODES :: "(string \<times> int) list" where
  "BRIDGE_TRIGGER_CODES = [(''SOFTWARE'', 0), (''EXTERNAL_SYNC_SLAVE'', 1), (''EXTERNAL_SYNC_MASTER'', 2)]"

definition bc_capture_once ::
  "capture_handler \<Rightarrow> bytes \<Rightarrow> AcquisitionConfigV2 \<Rightarrow> string \<Rightarrow> int \<Rightarrow> CaptureData bcl" where
  "bc_capture_once handler request_id config trigger_source sync_timeout_ms =
     mbind (bc_request CAPTURE_ONCE
              (rbind (dget BRIDGE_TRIGGER_CODES trigger_source) (\<lambda>code.
               encode_capture_once_request
                 \<lparr>co_request_id = request_id, co_expected_profile_sha256 = profile_sha256 config,
                  co_expected_device_config_crc32 = device_config_crc32 config,
                  co_trigger_source = code, co_sync_timeout_ms = sync_timeout_ms\<rparr>))) (\<lambda>seq.
     mbind (bc_ack handler seq request_id CAPTURE_ONCE) (\<lambda>_.
     mbind bc_receive (\<lambda>(delivery, _).
     mbind (accept_delivery delivery) (\<lambda>capture.
     mbind (mguard (cd_request_id capture = request_id) RuntimeError) (\<lambda>_.
     mret capture)))))"

definition bc_start_periodic :: "capture_handler \<Rightarrow> bytes \<Rightarrow> HostPeriodicSchedule \<Rightarrow> unit bcl" where
  "bc_start_periodic handler request_id schedule =
     mbind (bc_request START_PERIODIC
              (encode_start_periodic_request
                 \<lparr>sp_request_id = request_id, sp_schedule_id = sch_schedule_id schedule,
                  sp_expected_profile_sha256 = sch_profile_sha256 schedule,
                  sp_expected_device_config_crc32 = sch_device_config_crc32 schedule,
                  sp_period_us = sch_period_us schedule, sp_capture_count = sch_capture_count schedule,
                  sp_lease_timeout_ms = sch_lease_timeout_ms schedule\<rparr>)) (\<lambda>seq.
     bc_ack handler seq request_id START_PERIODIC)"

definition bc_renew_periodic :: "capture_handler \<Rightarrow> LeaseRenewal \<Rightarrow> LeaseRenewal bcl" where
  "bc_renew_periodic handler renewal =
     mbind (bc_request RENEW_PERIODIC_LEASE
              (encode_renew_periodic_lease
                 \<lparr>rl_boot_id = lr_boot_id renewal, rl_schedule_id = lr_schedule_id renewal,
                  rl_lease_sequence = lr_lease_sequence renewal,
                  rl_lease_timeout_or_remaining_ms = lr_lease_timeout_ms renewal\<rparr>)) (\<lambda>seq.
     mbind (bc_response handler seq RENEW_PERIODIC_LEASE) (\<lambda>frame.
     mbind (mlift (decode_renew_periodic_lease (payload frame))) (\<lambda>result.
     mret \<lparr>lr_boot_id = rl_boot_id result, lr_schedule_id = rl_schedule_id result,
           lr_lease_sequence = rl_lease_sequence result,
           lr_lease_timeout_ms = rl_lease_timeout_or_remaining_ms result\<rparr>)))"

definition bc_stop_periodic :: "capture_handler \<Rightarrow> bytes \<Rightarrow> bytes \<Rightarrow> unit bcl" where
  "bc_stop_periodic handler request_id schedule_id =
     mbind (bc_request STOP
              (encode_stop_request \<lparr>stq_request_id = request_id, stq_schedule_id = schedule_id\<rparr>)) (\<lambda>seq.
     bc_ack handler seq request_id STOP)"

text \<open>\<open>poll_captures\<close>; whether \<open>select\<close> finds the socket readable is an argument.\<close>

definition bc_poll_captures :: "bool \<Rightarrow> CaptureData list bcl" where
  "bc_poll_captures readable =
     mbind mget (\<lambda>c.
     if bc_pending c \<noteq> None \<or> \<not> readable then mret []
     else
       mbind bc_receive (\<lambda>(frame, _).
       mbind (accept_delivery frame) (\<lambda>capture.
       mret [capture])))"

definition new_bridge_client :: "bytes list \<Rightarrow> CaptureStore option \<Rightarrow> BridgeDeviceClient" where
  "new_bridge_client chunks store = \<lparr>bc_chunks = chunks, bc_sent = [], bc_sequence = 0, bc_device_config = None,
     bc_pending = None, bc_replay_store = store, bc_hello = None, bc_capabilities = None,
     bc_published_session = None\<rparr>"

definition bc_init :: "bytes \<Rightarrow> unit bcl" where
  "bc_init nonce =
     mbind (bc_hello_exchange nonce) (\<lambda>hello.
     mbind (mupd (\<lambda>c. c\<lparr>bc_hello := Some hello\<rparr>)) (\<lambda>_.
     mbind bc_query_capabilities (\<lambda>capabilities.
     mupd (\<lambda>c. c\<lparr>bc_capabilities := Some capabilities,
       bc_published_session := Some \<lparr>pub_connected = True, pub_backend = ''BRIDGE'', pub_session_generation = 0,
         pub_hello = Some hello, pub_device_id = Some (hr_device_id hello),
         pub_boot_id = Some (hr_boot_id hello)\<rparr>\<rparr>))))"

section \<open>Reconnecting\<close>

text \<open>
  The stable object behind which sessions are replaced. The retired sessions are those \<open>close\<close> was called
  on.
\<close>

record 'c ReconnectableClient =
  rc_client :: "'c option"
  rc_session_generation :: int
  rc_published_session :: PublishedDeviceSession
  rc_retired :: "'c list"

definition session_view :: "('c \<Rightarrow> HelloResponse option) \<Rightarrow> 'c option \<Rightarrow> int \<Rightarrow> PublishedDeviceSession" where
  "session_view hello client generation =
     (case client of
        None \<Rightarrow> \<lparr>pub_connected = False, pub_backend = ''BRIDGE'', pub_session_generation = generation,
                 pub_hello = None, pub_device_id = None, pub_boot_id = None\<rparr>
      | Some c \<Rightarrow> \<lparr>pub_connected = True, pub_backend = ''BRIDGE'', pub_session_generation = generation,
                 pub_hello = hello c, pub_device_id = map_option hr_device_id (hello c),
                 pub_boot_id = map_option hr_boot_id (hello c)\<rparr>)"

definition rc_new :: "('c \<Rightarrow> HelloResponse option) \<Rightarrow> 'c option \<Rightarrow> 'c ReconnectableClient" where
  "rc_new hello initial = \<lparr>rc_client = initial, rc_session_generation = 0,
     rc_published_session = session_view hello initial 0, rc_retired = []\<rparr>"

definition retire :: "'c option \<Rightarrow> 'c ReconnectableClient \<Rightarrow> 'c ReconnectableClient" where
  "retire previous r = (case previous of None \<Rightarrow> r | Some c \<Rightarrow> r\<lparr>rc_retired := rc_retired r @ [c]\<rparr>)"

definition rc_replace :: "('c \<Rightarrow> HelloResponse option) \<Rightarrow> 'c \<Rightarrow> 'c ReconnectableClient \<Rightarrow> 'c ReconnectableClient" where
  "rc_replace hello replacement r =
     retire (rc_client r)
       (r\<lparr>rc_client := Some replacement, rc_session_generation := rc_session_generation r + 1,
          rc_published_session := session_view hello (Some replacement) (rc_session_generation r + 1)\<rparr>)"

definition rc_close :: "('c \<Rightarrow> HelloResponse option) \<Rightarrow> 'c ReconnectableClient \<Rightarrow> 'c ReconnectableClient" where
  "rc_close hello r =
     (let generation = rc_session_generation r + (if rc_client r = None then 0 else 1) in
      retire (rc_client r)
        (r\<lparr>rc_client := None, rc_session_generation := generation,
           rc_published_session := session_view hello None generation\<rparr>))"

text \<open>
  \<open>invoke\<close>: the named method runs once, on the current session. An \<open>OSError\<close> retires the session and is
  reported as \<open>DeviceUnavailable\<close>; any other exception goes to the caller and leaves the session in place.
\<close>

definition rc_invoke :: "('c \<Rightarrow> HelloResponse option) \<Rightarrow> ('c, 'a) meth \<Rightarrow> ('c ReconnectableClient, 'a) meth" where
  "rc_invoke hello operation r =
     (case rc_client r of
        None \<Rightarrow> (Inl DeviceUnavailable, r)
      | Some client \<Rightarrow>
          (case operation client of
             (Inr v, client') \<Rightarrow> (Inr v, r\<lparr>rc_client := Some client'\<rparr>)
           | (Inl e, client') \<Rightarrow>
               if is_OSError e then
                 (Inl DeviceUnavailable, retire (Some client')
                    (r\<lparr>rc_client := None, rc_session_generation := rc_session_generation r + 1,
                       rc_published_session := session_view hello None (rc_session_generation r + 1)\<rparr>))
               else (Inl e, r\<lparr>rc_client := Some client'\<rparr>)))"

section \<open>What a replay leaves in the store\<close>

definition decided :: "BridgeCaptureDelivery \<Rightarrow> CaptureData \<Rightarrow> CaptureStore \<Rightarrow> bool" where
  "decided d c s \<longleftrightarrow> (\<exists>t \<in> set (db_resolutions s). tombstone_for d c t)"

lemma decided_cong: "db_resolutions s' = db_resolutions s \<Longrightarrow> decided d c s' = decided d c s"
  by (simp add: decided_def)

lemma decided_update: "ok_keeps (decided d c) (update_resolutions P x)"
proof -
  have "decided d c (s\<lparr>db_resolutions := map (\<lambda>r. if P r then r\<lparr>rs_resolution := x\<rparr> else r) (db_resolutions s)\<rparr>)"
    if "decided d c s" for s
  proof -
    from that obtain t where t: "t \<in> set (db_resolutions s)" "tombstone_for d c t" by (auto simp: decided_def)
    then have "tombstone_for d c (if P t then t\<lparr>rs_resolution := x\<rparr> else t)" by (simp add: tombstone_for_def rs_key_def)
    moreover have "(if P t then t\<lparr>rs_resolution := x\<rparr> else t) \<in>
        set (map (\<lambda>r. if P r then r\<lparr>rs_resolution := x\<rparr> else r) (db_resolutions s))"
      unfolding set_map using t(1) by (rule imageI)
    ultimately show ?thesis
      unfolding decided_def
      by (intro bexI [of _ "if P t then t\<lparr>rs_resolution := x\<rparr> else t"]) (simp_all del: set_map)
  qed
  then show ?thesis unfolding update_resolutions_def by (intro ok_keeps_mupd)
qed

lemma decided_upd: "(\<And>s. db_resolutions (g s) = db_resolutions s) \<Longrightarrow> ok_keeps (decided d c) (mupd g)"
  by (intro ok_keeps_mupd) (simp add: decided_def)

lemma decided_archive: "ok_keeps (decided d c) (archive_delivery e f k crc u g)"
  unfolding ok_keeps_def
proof (intro allI impI)
  fix s x s' assume "decided d c s" and a: "archive_delivery e f k crc u g s = (Inr x, s')"
  moreover have "db_resolutions s' = db_resolutions s" using a by (cases rule: archive_delivery_ok) simp_all
  ultimately show "decided d c s'" using decided_cong by blast
qed

lemma decided_context: "ok_keeps (decided d c) (delete_context k)"
  unfolding delete_context_def by (intro decided_upd) simp

lemma decided_finalize_latest: "ok_keeps (decided d c) (finalize_latest_in_connection u)"
  unfolding finalize_latest_in_connection_def Let_def
  by (auto intro!: ok_keeps_bind ok_keeps_basic decided_archive decided_context decided_upd decided_update
      split: option.split)

lemma decided_finalize: "ok_keeps (decided d c) (finalize_summary_in_connection p pol)"
  unfolding finalize_summary_in_connection_def Let_def upsert_session_summary_def
  by (auto intro!: ok_keeps_rules decided_finalize_latest decided_upd)

lemma settle_decides:
  fixes d :: BridgeCaptureDelivery
  assumes "unresolved c s"
    and "mbind (insert_resolution c (crc32_iso_hdlc (bd_inner_frame d)) (sha256 (bd_inner_frame d)) resolution u utc) (\<lambda>_.
       mbind (count_delivery u (cd_capture_id c)) (\<lambda>_. mbind prune_resolutions m)) s = (Inr r, s')"
    and "utc = bd_stored_utc_ns d" "ok_keeps (decided d c) (m ())"
  shows "decided d c s'"
proof -
  have "m () (settled d c True u resolution s) = (Inr r, s')"
    using assms(2,3) by (auto simp: insert_resolution_def mbind_ok_iff bind_ints_ok count_delivery_def
        prune_resolutions_def settled_def)
  moreover have "decided d c (settled d c True u resolution s)"
    using assms(1) settled_effect(2) by (fastforce simp: unresolved_def decided_def)
  ultimately show ?thesis using ok_keepsD [OF assms(4)] by blast
qed

lemma commit_within_decides:
  assumes "store_inv s" "open_delivery d = Inr (f, c)" "commit_within d pol sess g s = (Inr r, s')"
  shows "decided d c s' \<and> ccr_receipt r = store_receipt d c (crc32_iso_hdlc (bd_inner_frame d))"
proof -
  from assms(2,3) obtain p u where "commit_in_connection d p u g f c s = (Inr r, s')"
    by (auto simp: commit_within_def mbind_ok_iff commit_arguments_def split: if_splits)
  from commit_in_connection_effect(2,3) [OF assms(1,2) this] show ?thesis by (auto simp: decided_def)
qed

lemma commit_replayed_effect:
  assumes s: "store_inv s" and run: "commit_replayed_delivery d s = (Inr r, s')"
  obtains f c where "open_delivery d = Inr (f, c)" "store_inv s'" "decided d c s'"
    "ccr_receipt r = store_receipt d c (crc32_iso_hdlc (bd_inner_frame d))"
proof -
  have s': "store_inv s'" using keepsD [OF commit_replayed_keeps s, of d] run by simp
  from run obtain f c where o: "open_delivery d = Inr (f, c)" by (auto simp: commit_replayed_delivery_def mbind_ok_iff)
  have within: "decided d c s' \<and> ccr_receipt r = store_receipt d c (crc32_iso_hdlc (bd_inner_frame d))"
    if "commit_within d pol sess g s = (Inr r, s')" for pol sess g
    using commit_within_decides [OF s o that] .
  have terminal: "decided d c s' \<and> ccr_receipt r = store_receipt d c (crc32_iso_hdlc (bd_inner_frame d))"
    if "terminal_replay_in_connection d c u pol g summary s = (Inr r, s')" for u pol g summary
    using open_delivery_ok(2,1) [OF o] s that
  proof (cases rule: terminal_replay_ok)
    case (known t)
    then show ?thesis by (auto simp: decided_def)
  next
    case (fresh s2 resolution)
    have "decided d c s'"
      by (rule settle_decides [OF fresh(1) fresh(2) [unfolded replay_tail_def] refl])
        (intro ok_keeps_bind decided_context decided_finalize ok_keeps_basic)
    then show ?thesis using fresh(3) by simp
  qed
  have "decided d c s' \<and> ccr_receipt r = store_receipt d c (crc32_iso_hdlc (bd_inner_frame d))"
    using run o within terminal
    by (auto simp: commit_replayed_delivery_def Let_def split: option.splits if_splits)
  then show thesis using that o s' by blast
qed

section \<open>Receipts follow commits\<close>

lemma accept_delivery_ok:
  assumes "accept_delivery frame c = (Inr capture, c')"
  obtains d inner where "bc_pending c = None" "decode_bridge_capture_delivery (payload frame) = Inr d"
    "decode_frame (bd_inner_frame d) = Inr inner" "decode_capture_data (payload inner) = Inr capture"
    "c' = c\<lparr>bc_pending := Some (sequence frame, d, capture)\<rparr>"
  using assms by (auto simp: accept_delivery_def mbind_ok_iff split: if_splits)

lemma accept_delivery_error: "accept_delivery frame c = (Inl e, c') \<Longrightarrow> c' = c"
  by (auto simp: accept_delivery_def mbind_run raise_device_error_def mguard_run split: if_splits sum.splits prod.splits)

text \<open>A receipt frame on the wire.\<close>

definition receipt_frame :: "int \<Rightarrow> CaptureCommittedRequest \<Rightarrow> bytes \<Rightarrow> bool" where
  "receipt_frame seq receipt raw \<longleftrightarrow> (\<exists>body. encode_capture_committed_request receipt = Inr body \<and>
     encode_frame (mk_frame CAPTURE_COMMITTED seq body FLAG_NONE) = Inr raw)"

lemma bc_read_exact_frame:
  assumes "bc_read_exact n c = (r, c')"
  shows "bc_sent c' = bc_sent c" "bc_pending c' = bc_pending c" "bc_replay_store c' = bc_replay_store c"
  using assms by (auto simp: bc_read_exact_def split: sum.splits)

lemma bc_receive_frame:
  assumes "bc_receive c = (r, c')"
  shows "bc_sent c' = bc_sent c \<and> bc_pending c' = bc_pending c \<and> bc_replay_store c' = bc_replay_store c"
  using assms bc_read_exact_frame
  by (fastforce simp: bc_receive_def mbind_run mguard_run split: prod.splits sum.splits if_splits)

lemma confirm_delivery_sent:
  assumes "confirm_delivery seq d receipt c = (r, c')"
  shows "bc_replay_store c' = bc_replay_store c \<and> bc_pending c' = bc_pending c \<and>
    (bc_sent c' = bc_sent c \<or> (\<exists>raw. bc_sent c' = bc_sent c @ [raw] \<and> receipt_frame seq receipt raw)) \<and>
    (r = Inr u \<longrightarrow> bc_sent c' \<noteq> bc_sent c)"
proof (cases "encode_capture_committed_request receipt")
  case (Inl e)
  then show ?thesis using assms by (auto simp: confirm_delivery_def)
next
  case (Inr body)
  show ?thesis
  proof (cases "encode_frame (mk_frame CAPTURE_COMMITTED seq body FLAG_NONE)")
    case (Inl e)
    then show ?thesis using assms Inr by (auto simp: confirm_delivery_def bc_sendall_def mbind_run)
  next
    case enc: (Inr raw)
    let ?c = "c\<lparr>bc_sent := bc_sent c @ [raw]\<rparr>"
    obtain x c1 where rec: "bc_receive ?c = (x, c1)" by force
    note f = bc_receive_frame [OF rec]
    have "c' = c1"
      using assms Inr enc rec
      by (auto simp: confirm_delivery_def bc_sendall_def mbind_run mguard_run split: sum.splits prod.splits if_splits)
    then show ?thesis using f Inr enc by (auto simp: receipt_frame_def)
  qed
qed

lemma confirm_capture_sent:
  assumes "confirm_capture receipt c = (r, c')" "bc_pending c = Some (seq, d, capture)"
  shows "bc_replay_store c' = bc_replay_store c \<and>
    (bc_sent c' = bc_sent c \<or> (\<exists>raw. bc_sent c' = bc_sent c @ [raw] \<and> receipt_frame seq receipt raw)) \<and>
    (r = Inr u \<longrightarrow> bc_sent c' \<noteq> bc_sent c \<and> bc_pending c' = None)"
proof (cases "cq_capture_id receipt = cd_capture_id capture")
  case False
  then show ?thesis using assms by (auto simp: confirm_capture_def)
next
  case True
  obtain x c1 where cd: "confirm_delivery seq d receipt c = (x, c1)" by force
  show ?thesis
    using confirm_delivery_sent [OF cd, of "()"] assms cd True
    by (cases x) (auto simp: confirm_capture_def mbind_run mguard_run)
qed

lemma release_after_confirm: "bc_pending c = None \<Longrightarrow> release_capture i c = (Inr (), c)"
  by (simp add: release_capture_def)

lemma absorb_run:
  assumes "accept_delivery frame c = (Inr capture, c1)" "bc_replay_store c1 = Some st"
    "bc_pending c1 = Some (q, d, capture)"
  shows "absorb_delivery None frame c =
    (case commit_replayed_delivery d st of
       (Inl e, st') \<Rightarrow> (Inl e, c1\<lparr>bc_replay_store := Some st'\<rparr>)
     | (Inr result, st') \<Rightarrow> mbind (confirm_capture (ccr_receipt result)) (\<lambda>_. release_capture (cd_capture_id capture))
         (c1\<lparr>bc_replay_store := Some st'\<rparr>))"
  using assms
  by (simp add: absorb_delivery_def mbind_run mguard_run capture_delivery_def commit_replayed_def
      split: prod.split sum.split)



section \<open>The response loop ends\<close>

definition bytes_left :: "BridgeDeviceClient \<Rightarrow> nat" where
  "bytes_left c = length (concat (bc_chunks c))"

lemma recv_length: "recv n chunks = (chunk, rest) \<Longrightarrow> length chunk + length (concat rest) = length (concat chunks)"
  by (cases chunks) (auto split: if_splits)

lemma read_exact_consumes:
  "read_exact n chunks out = Inr (out', rest) \<Longrightarrow>
     length out' + length (concat rest) = length out + length (concat chunks) \<and> n \<le> length out'"
proof (induction n chunks out rule: read_exact.induct)
  case (1 n chunks out)
  show ?case
  proof (cases "length out < n")
    case False
    then show ?thesis using "1.prems" by (simp add: read_exact.simps [of n])
  next
    case True
    obtain chunk more where r: "recv (n - length out) chunks = (chunk, more)" by force
    have ne: "chunk \<noteq> []" and run: "read_exact n more (out @ chunk) = Inr (out', rest)"
      using "1.prems" True r by (auto simp: read_exact.simps [of n chunks] split: if_splits)
    show ?thesis using "1.IH" [OF True r [symmetric] ne run] recv_length [OF r] by simp
  qed
qed

lemma bc_read_exact_ok:
  "bc_read_exact n c = (Inr out, c') \<Longrightarrow> bytes_left c' + n \<le> bytes_left c"
  by (auto simp: bc_read_exact_def bytes_left_def split: sum.splits dest!: read_exact_consumes)

lemma bc_read_exact_shrinks: "keeps (\<lambda>c. bytes_left c \<le> k) (bc_read_exact n)"
proof -
  have "bytes_left (snd (bc_read_exact n c)) \<le> bytes_left c" for c
    by (cases "read_exact n (bc_chunks c) []")
      (auto simp: bc_read_exact_def bytes_left_def dest: read_exact_consumes)
  then show ?thesis by (auto simp: keeps_def intro: le_trans)
qed

lemma bc_receive_shrinks: "keeps (\<lambda>c. bytes_left c \<le> k) bc_receive"
  unfolding bc_receive_def by (intro keeps_rules bc_read_exact_shrinks)

lemma bc_receive_consumes: "bc_receive c = (Inr x, c') \<Longrightarrow> bytes_left c' < bytes_left c"
proof -
  assume "bc_receive c = (Inr x, c')"
  then obtain h c1 where h: "bc_read_exact 16 c = (Inr h, c1)" "bytes_left c' \<le> bytes_left c1"
    using bc_read_exact_ok by (fastforce simp: bc_receive_def mbind_ok_iff frame_consts split: if_splits)
  then show ?thesis using bc_read_exact_ok [OF h(1)] by simp
qed

lemma bytes_left_simps [simp]:
  "bytes_left (c\<lparr>bc_sent := x\<rparr>) = bytes_left c" "bytes_left (c\<lparr>bc_pending := y\<rparr>) = bytes_left c"
  "bytes_left (c\<lparr>bc_replay_store := z\<rparr>) = bytes_left c"
  by (simp_all add: bytes_left_def)

lemma confirm_shrinks: "keeps (\<lambda>c. bytes_left c \<le> k) (confirm_capture receipt)"
  unfolding confirm_capture_def confirm_delivery_def bc_sendall_def
  by (intro keeps_bind keeps_basic)
    (auto intro!: keeps_bind keeps_basic keeps_mupd bc_receive_shrinks split: option.split)

lemma commit_replayed_shrinks: "keeps (\<lambda>c. bytes_left c \<le> k) (commit_replayed d)"
  by (auto simp: keeps_def commit_replayed_def split: option.split prod.split)

lemma absorb_shrinks: "keeps (\<lambda>c. bytes_left c \<le> k) (absorb_delivery None frame)"
  unfolding absorb_delivery_def accept_delivery_def raise_device_error_def capture_delivery_def release_capture_def
  by (auto intro!: keeps_bind keeps_basic keeps_mupd keeps_if confirm_shrinks commit_replayed_shrinks
      split: option.split)

lemma response_loop_stable:
  "bytes_left c < n \<Longrightarrow> n \<le> m \<Longrightarrow> response_loop m None seq t c = response_loop n None seq t c"
proof (induction n arbitrary: m c)
  case (Suc n)
  then obtain m' where m: "m = Suc m'" "n \<le> m'" by (cases m) auto
  obtain x c1 where r: "bc_receive c = (x, c1)" by force
  show ?case
  proof (cases x)
    case (Inl e)
    then show ?thesis using r by (simp add: m mbind_run)
  next
    case (Inr y)
    obtain frame raw where y: "y = (frame, raw)" by force
    have lt: "bytes_left c1 < n" using bc_receive_consumes r Inr Suc.prems(1) by fastforce
    have "mbind (absorb_delivery None frame) (\<lambda>_. response_loop m' None seq t) c1 =
        mbind (absorb_delivery None frame) (\<lambda>_. response_loop n None seq t) c1"
    proof (cases "absorb_delivery None frame c1")
      case (Pair z c2)
      have "bytes_left c2 \<le> bytes_left c1"
        using keepsD [OF absorb_shrinks [of "bytes_left c1" frame], of c1] Pair by simp
      then have "bytes_left c2 < n" using lt by simp
      from Suc.IH [OF this m(2)] show ?thesis using Pair by (cases z) (simp_all add: mbind_run)
    qed
    then show ?thesis using r Inr y by (simp add: m mbind_run [of bc_receive])
  qed
qed simp



end
