(* ===== verification/Handoff.thy ===== *)
theory Handoff
  imports Bridge_Client
begin

text \<open>
  The durable handoff from the bridge's spool to the core's store, across \<open>spool.py\<close>,
  \<open>bridge_session.py\<close>, \<open>bridge_device_client.py\<close> and \<open>core_store.py\<close>. What the bridge relies on is the
  locale \<open>committing_core\<close>: a core that returns a receipt has a durable decision and names the delivery's
  own identity. Both commit operations of the store satisfy it.
\<close>

section \<open>A core that commits\<close>

locale committing_core =
  fixes commit :: "BridgeCaptureDelivery \<Rightarrow> ('s, CoreCommitResult) meth"
    and ok :: "'s \<Rightarrow> bool"
    and holds :: "BridgeCaptureDelivery \<Rightarrow> CaptureData \<Rightarrow> 's \<Rightarrow> bool"
  assumes commits: "ok st \<Longrightarrow> commit d st = (Inr r, st') \<Longrightarrow>
      \<exists>f c. open_delivery d = Inr (f, c) \<and> ok st' \<and> holds d c st' \<and>
        ccr_receipt r = store_receipt d c (crc32_iso_hdlc (bd_inner_frame d))"
    and refuses: "ok st \<Longrightarrow> commit d st = (Inl e, st') \<Longrightarrow> ok st'"
begin

text \<open>The receipt for a spooled row is the one its spool accepts.\<close>

lemma receipt_is_accepted:
  assumes "spool_inv sp" "p \<in> set (sp_pending_captures sp)" "sqlite_int (pc_record_id p)"
    and "pc_key p \<notin> ts_key ` set (sp_committed_tombstones sp)"
    and "ok st" "commit (delivery_of conn p) st = (Inr r, st')"
  shows "mark_committed (cq_spool_record_id (ccr_receipt r)) (cq_device_id (ccr_receipt r))
      (cq_boot_id (ccr_receipt r)) (cq_capture_id (ccr_receipt r)) (cq_inner_frame_crc32 (ccr_receipt r)) sp =
    (Inr DELETED, commit_row p sp)"
proof -
  let ?d = "delivery_of conn p"
  obtain f c where o: "open_delivery ?d = Inr (f, c)"
    and rc: "ccr_receipt r = store_receipt ?d c (crc32_iso_hdlc (pc_inner_frame p))"
    using commits [OF assms(5,6)] by (auto simp: delivery_of_def)
  have row: "row_ok p" using assms(1,2) by (auto simp: spool_inv_def list_all_iff)
  have "decode_frame (pc_inner_frame p) = Inr f" "decode_capture_data (payload f) = Inr c"
    using open_delivery_ok(1,2) [OF o] by (simp_all add: delivery_of_def)
  then have key: "pc_key p = cd_key c" "pc_inner_frame_crc32 p = crc32_iso_hdlc (pc_inner_frame p)"
    using row by (auto simp: row_ok_def cd_key_def)
  have find: "find (\<lambda>q. pc_record_id q = pc_record_id p) (sp_pending_captures sp) = Some p"
    by (rule find_unique [OF pending_ids_distinct [OF assms(1)] assms(2)])
  have ids: "pc_record_id p \<notin> ts_record_id ` set (sp_committed_tombstones sp)"
    using assms(1,2) by (auto simp: spool_inv_def)
  have free: "list_all (\<lambda>u. ts_record_id u \<noteq> pc_record_id p \<and> ts_key u \<noteq> pc_key p) (sp_committed_tombstones sp)"
    using ids assms(4) by (force simp: list_all_iff)
  have fields: "cq_spool_record_id (ccr_receipt r) = pc_record_id p" "cq_device_id (ccr_receipt r) = pc_device_id p"
    "cq_boot_id (ccr_receipt r) = pc_boot_id p" "cq_capture_id (ccr_receipt r) = pc_capture_id p"
    "cq_inner_frame_crc32 (ccr_receipt r) = pc_inner_frame_crc32 p"
    using key by (simp_all add: rc store_receipt_def delivery_of_def pc_key_def cd_key_def)
  show ?thesis
    using find free assms(3)
    by (simp add: fields mark_committed_def mbind_run mguard_run Let_def commit_row_def tombstone_of_def ts_key_def
        pc_key_def)
qed

text \<open>The receipt can be put on the wire.\<close>

lemma receipt_encodes:
  assumes "ok st" "commit d st = (Inr r, st')" "0 \<le> q" "q < 2 ^ 32"
  shows "\<exists>raw. receipt_frame q (ccr_receipt r) raw"
proof -
  obtain f c where o: "open_delivery d = Inr (f, c)"
    and rc: "ccr_receipt r = store_receipt d c (crc32_iso_hdlc (bd_inner_frame d))"
    using commits [OF assms(1,2)] by blast
  have "encode_capture_data c = Inr (payload f)"
    using open_delivery_ok(2) [OF o] by (rule capture_codec.enc_dec)
  then have c: "capture_ok c" by (simp add: encode_capture_data_iff)
  obtain bs where "encode_bridge_capture_delivery d = Inr bs" using open_delivery_ok(3) [OF o] by blast
  then have "fits delivery_layout (delivery_fields d)" by (auto simp: encode_delivery_iff fits_iff) (simp add: delivery_layout_def delivery_fields_def)
  then have "fits committed_request_layout (committed_request_tuple (ccr_receipt r))"
    using c crc32_iso_hdlc_bounds [of "bd_inner_frame d"]
    by (auto simp: rc store_receipt_def committed_request_layout_def committed_request_tuple_def delivery_layout_def
        delivery_fields_def frange_def capture_ok_def)
  then obtain body where b: "pack committed_request_layout (committed_request_tuple (ccr_receipt r)) = Inr body"
    using fits_packs by blast
  then have enc: "encode_capture_committed_request (ccr_receipt r) = Inr body"
    using c by (simp add: encode_capture_committed_request_def rc store_receipt_def capture_ok_def)
  then have "length body = 68" using committed_request.enc_length by (simp add: committed_request_layout_def)
  then have "frame_ok (mk_frame CAPTURE_COMMITTED q body FLAG_NONE)"
    using assms(3,4) by (simp add: frame_ok_def PROTOCOL_VERSION_def flag_defs)
  then show ?thesis using enc by (auto simp: receipt_frame_def encode_frame_iff)
qed

end

interpretation replaying: committing_core commit_replayed_delivery store_inv decided
proof unfold_locales
  show "\<exists>f c. open_delivery d = Inr (f, c) \<and> store_inv st' \<and> decided d c st' \<and>
      ccr_receipt r = store_receipt d c (crc32_iso_hdlc (bd_inner_frame d))"
    if "store_inv st" "commit_replayed_delivery d st = (Inr r, st')" for st d r st'
    using commit_replayed_effect [OF that] by blast
  show "store_inv st'" if "store_inv st" "commit_replayed_delivery d st = (Inl e, st')" for st d e st'
    using keepsD [OF commit_replayed_keeps that(1), of d] that(2) by simp
qed

interpretation live: committing_core "\<lambda>d. commit_delivery d pol sess g" store_inv decided for pol sess g
proof unfold_locales
  show "\<exists>f c. open_delivery d = Inr (f, c) \<and> store_inv st' \<and> decided d c st' \<and>
      ccr_receipt r = store_receipt d c (crc32_iso_hdlc (bd_inner_frame d))"
    if s: "store_inv st" and run: "commit_delivery d pol sess g st = (Inr r, st')" for st d r st'
  proof -
    from run obtain p u f c where o: "open_delivery d = Inr (f, c)"
      and cc: "commit_in_connection d p u g f c st = (Inr r, st')" by (rule commit_delivery_run)
    show ?thesis using o commit_in_connection_effect(1,2,3) [OF s o cc] by (auto simp: decided_def)
  qed
  show "store_inv st'" if "store_inv st" "commit_delivery d pol sess g st = (Inl e, st')" for st d e st'
    using keepsD [OF commit_delivery_keeps that(1), of d pol sess g] that(2) by simp
qed

section \<open>One capture, end to end\<close>

lemma bc_receive_one:
  assumes "frame_ok f" "bc_chunks c = [frame_bytes f]"
  shows "bc_receive c = (Inr (f, frame_bytes f), c\<lparr>bc_chunks := []\<rparr>)"
proof -
  have ne: "list_all (\<lambda>c. c \<noteq> []) [frame_bytes f]" by (simp add: frame_bytes_def flip: length_greater_0_conv)
  obtain rest1 where r1: "read_exact 16 [frame_bytes f] [] = Inr (header_of f, rest1)"
    and c1: "concat rest1 = payload f @ crc_of f" and n1: "list_all (\<lambda>c. c \<noteq> []) rest1"
    using read_exact_ok [OF ne, of 16 "[]"] by (auto simp: frame_bytes_def)
  obtain rest2 where r2: "read_exact (length (payload f) + 4) rest1 [] = Inr (payload f @ crc_of f, rest2)"
    and c2: "concat rest2 = []" and n2: "list_all (\<lambda>c. c \<noteq> []) rest2"
    using read_exact_ok [OF n1, of "length (payload f) + 4" "[]"] by (auto simp: c1)
  have "rest2 = []" using c2 n2 by (cases rest2) auto
  then show ?thesis
    using assms decode_frame_bytes [OF assms(1)] r1 r2
    by (simp add: bc_receive_def bc_read_exact_def mbind_run mguard_run frame_consts payload_length_header frame_bytes_def)
      (simp add: frame_ok_def)
qed

lemma main_deliver_ok:
  assumes "bs_main (main_deliver p q b s) = Waiting i b'" "bs_pending_events s = []"
  obtains body where "encode_bridge_capture_delivery (delivery_of (bs_connection_id s) p) = Inr body"
    "frame_ok (mk_frame BRIDGE_CAPTURE_DELIVERY q body FLAG_ASYNC)" "i = pc_record_id p" "b' = b"
    "main_deliver p q b s = s\<lparr>bs_pending_events := [(pc_record_id p, False)],
       bs_to_core := bs_to_core s @ [frame_bytes (mk_frame BRIDGE_CAPTURE_DELIVERY q body FLAG_ASYNC)],
       bs_main := Waiting (pc_record_id p) b\<rparr>"
proof (cases "encode_bridge_capture_delivery (delivery_of (bs_connection_id s) p)")
  case (Inl e)
  then show thesis using assms by (simp add: main_deliver_def main_fail_def)
next
  case (Inr body)
  show thesis
  proof (cases "frame_ok (mk_frame BRIDGE_CAPTURE_DELIVERY q body FLAG_ASYNC)")
    case True
    then have "encode_frame (mk_frame BRIDGE_CAPTURE_DELIVERY q body FLAG_ASYNC) =
        Inr (frame_bytes (mk_frame BRIDGE_CAPTURE_DELIVERY q body FLAG_ASYNC))" by (simp add: encode_frame_iff)
    then show thesis using assms that [OF Inr True] Inr by (simp add: main_deliver_def send_core_def)
  next
    case False
    then obtain e where "encode_frame (mk_frame BRIDGE_CAPTURE_DELIVERY q body FLAG_ASYNC) = Inl e"
      using encode_frame_iff by (metis sum.exhaust)
    then show thesis using assms Inr by (simp add: main_deliver_def send_core_def main_fail_def)
  qed
qed

text \<open>The bridge's answer to a receipt it accepts.\<close>

definition confirmation :: "int \<Rightarrow> CaptureCommittedRequest \<Rightarrow> Frame \<Rightarrow> bool" where
  "confirmation q receipt f \<longleftrightarrow> (\<exists>body. frame_ok f \<and> f = mk_frame CAPTURE_COMMITTED q body FLAG_RESPONSE \<and>
     decode_capture_committed_response body = Inr \<lparr>cp_connection_id = cq_connection_id receipt,
       cp_spool_record_id = cq_spool_record_id receipt, cp_disposition = DELETED\<rparr>)"

lemma reader_accepts:
  assumes raw: "receipt_frame q receipt raw"
    and m: "mark_committed (cq_spool_record_id receipt) (cq_device_id receipt) (cq_boot_id receipt)
      (cq_capture_id receipt) (cq_inner_frame_crc32 receipt) (bs_spool s) = (Inr DELETED, sp)"
  shows "\<exists>f. confirmation q receipt f \<and>
    reader_frame raw s = s\<lparr>bs_spool := sp, bs_to_core := bs_to_core s @ [frame_bytes f], bs_reader := Confirming receipt\<rparr>"
proof -
  obtain body where enc: "encode_capture_committed_request receipt = Inr body"
    and fr: "frame_ok (mk_frame CAPTURE_COMMITTED q body FLAG_NONE)"
      "raw = frame_bytes (mk_frame CAPTURE_COMMITTED q body FLAG_NONE)"
    using raw by (auto simp: receipt_frame_def encode_frame_iff)
  have dec: "decode_capture_committed_request body = Inr receipt" using enc by (rule committed_request.dec_enc)
  let ?m = "\<lparr>cp_connection_id = cq_connection_id receipt, cp_spool_record_id = cq_spool_record_id receipt,
     cp_disposition = DELETED\<rparr>"
  have "fits committed_request_layout (committed_request_tuple receipt)"
    using enc by (auto simp: encode_capture_committed_request_def fits_iff)
      (simp add: committed_request_layout_def committed_request_tuple_def)
  then have "fits committed_response_layout
      [PInt (cp_connection_id ?m), PInt (cp_spool_record_id ?m), PInt (cp_disposition ?m)]"
    by (simp add: committed_request_layout_def committed_request_tuple_def committed_response_layout_def
        frange_def DELETED_def)
  then obtain rb where "encode_capture_committed_response ?m = Inr rb"
    using fits_packs by (auto simp: encode_capture_committed_response_def DELETED_def)
  note rb = this committed_response.dec_enc [OF this] committed_response.enc_length [OF this]
  let ?f = "mk_frame CAPTURE_COMMITTED q rb FLAG_RESPONSE"
  have ok: "frame_ok ?f" using fr(1) rb(3) by (simp add: frame_ok_def PROTOCOL_VERSION_def flag_defs)
  have "reader_frame raw s = s\<lparr>bs_spool := sp, bs_to_core := bs_to_core s @ [frame_bytes ?f], bs_reader := Confirming receipt\<rparr>"
    using decode_frame_bytes [OF fr(1)] ok m
    by (simp add: reader_frame_def reader_commit_def fr(2) dec rb(1) send_core_def encode_frame_iff [of ?f, THEN iffD2]
        Let_def)
  then show ?thesis using ok rb(2) by (auto simp: confirmation_def)
qed

lemma client_confirms:
  assumes p: "bc_pending c = Some (q, d, capture)" and i: "cq_capture_id receipt = cd_capture_id capture"
    and ids: "cq_connection_id receipt = bd_connection_id d" "cq_spool_record_id receipt = bd_spool_record_id d"
    and raw: "receipt_frame q receipt raw" and f: "confirmation q receipt f"
    and ch: "bc_chunks c = [frame_bytes f]"
  shows "mbind (confirm_capture receipt) (\<lambda>_. release_capture j) c =
    (Inr (), c\<lparr>bc_chunks := [], bc_sent := bc_sent c @ [raw], bc_pending := None\<rparr>)"
proof -
  obtain body where enc: "encode_capture_committed_request receipt = Inr body"
    and fr: "encode_frame (mk_frame CAPTURE_COMMITTED q body FLAG_NONE) = Inr raw"
    using raw by (auto simp: receipt_frame_def)
  obtain rb where ok: "frame_ok f" and fd: "f = mk_frame CAPTURE_COMMITTED q rb FLAG_RESPONSE"
    and dec: "decode_capture_committed_response rb = Inr \<lparr>cp_connection_id = cq_connection_id receipt,
       cp_spool_record_id = cq_spool_record_id receipt, cp_disposition = DELETED\<rparr>"
    using f by (auto simp: confirmation_def)
  have "bc_receive (c\<lparr>bc_sent := bc_sent c @ [raw]\<rparr>) =
      (Inr (f, frame_bytes f), c\<lparr>bc_sent := bc_sent c @ [raw], bc_chunks := []\<rparr>)"
    using ch by (intro bc_receive_one [OF ok]) simp
  then show ?thesis
    using p i ids dec
    by (simp add: confirm_capture_def confirm_delivery_def bc_sendall_def enc fr mbind_run mguard_run
        release_capture_def fd)
qed

text \<open>C1 (refinement). The handoff protocol moves a capture from the spool to the store. Suppose the bridge is about
  to deliver a pending row whose identity it has not committed before, its delivery can be sent, the core's
  client has nothing pending, and the store commits the delivery. Then: the frame the bridge sends is the one
  the client takes; the client sends one receipt, which the bridge accepts; with the bridge's answer, the
  client carries on with the committed store and nothing pending; exactly this row has left the spool; the
  store holds the decision for its bytes; and the bridge's main thread continues where it was.\<close>

theorem handoff_moves_the_capture:
  assumes "session_inv s" and "bs_main s = Delivering p q b" and "p \<in> set (sp_pending_captures (bs_spool s))"
    and "sqlite_int (pc_record_id p)" and "pc_key p \<notin> ts_key ` set (sp_committed_tombstones (bs_spool s))"
    and "bs_main (main_deliver p q b s) = Waiting i b'"
    and "bc_pending c = None" and "bc_replay_store c = Some st" and "store_inv st"
    and "commit_replayed_delivery (delivery_of (bs_connection_id s) p) st = (Inr r, st')"
  shows "\<exists>frame raw answer. bs_to_core (main_deliver p q b s) = bs_to_core s @ [frame_bytes frame] \<and>
    (let s2 = reader_frame raw (main_deliver p q b s); s3 = reader_confirm (ccr_receipt r) s2;
         s4 = main_wake i b' s3 in
     bs_to_core s2 = bs_to_core (main_deliver p q b s) @ [answer] \<and>
     absorb_delivery None frame (c\<lparr>bc_chunks := [answer]\<rparr>) =
       (Inr (), c\<lparr>bc_chunks := [], bc_sent := bc_sent c @ [raw], bc_replay_store := Some st'\<rparr>) \<and>
     sp_pending_captures (bs_spool s4) =
       filter (\<lambda>x. pc_record_id x \<noteq> pc_record_id p) (sp_pending_captures (bs_spool s)) \<and>
     (\<exists>k. decided (delivery_of (bs_connection_id s) p) k st') \<and> bs_pending_events s4 = [] \<and>
     bs_main s4 = (case b of None \<Rightarrow> Reading | Some rest \<Rightarrow> Replaying rest))"
proof -
  let ?d = "delivery_of (bs_connection_id s) p"
  have ev: "bs_pending_events s = []" using assms(1,2) by (simp add: session_inv_def)
  have sp: "spool_inv (bs_spool s)" using assms(1) by (simp add: session_inv_def)
  obtain body where body: "encode_bridge_capture_delivery ?d = Inr body"
    and fok: "frame_ok (mk_frame BRIDGE_CAPTURE_DELIVERY q body FLAG_ASYNC)" and i: "i = pc_record_id p" "b' = b"
    and s1: "main_deliver p q b s = s\<lparr>bs_pending_events := [(pc_record_id p, False)],
       bs_to_core := bs_to_core s @ [frame_bytes (mk_frame BRIDGE_CAPTURE_DELIVERY q body FLAG_ASYNC)],
       bs_main := Waiting (pc_record_id p) b\<rparr>"
    using main_deliver_ok [OF assms(6) ev] by metis
  let ?frame = "mk_frame BRIDGE_CAPTURE_DELIVERY q body FLAG_ASYNC"
  obtain inner k where o: "open_delivery ?d = Inr (inner, k)" and dc: "decided ?d k st'"
    and rc: "ccr_receipt r = store_receipt ?d k (crc32_iso_hdlc (bd_inner_frame ?d))"
    using commit_replayed_effect [OF assms(9,10)] by metis
  have q: "0 \<le> q" "q < 2 ^ 32" using fok by (simp_all add: frame_ok_def)
  obtain raw where raw: "receipt_frame q (ccr_receipt r) raw"
    using replaying.receipt_encodes [OF assms(9,10) q] by blast
  note m = replaying.receipt_is_accepted [OF sp assms(3,4,5,9,10)]
  have "bs_spool (main_deliver p q b s) = bs_spool s" by (rule spool_steps)
  then obtain f where f: "confirmation q (ccr_receipt r) f"
    and s2: "reader_frame raw (main_deliver p q b s) = (main_deliver p q b s)\<lparr>bs_spool := commit_row p (bs_spool s),
       bs_to_core := bs_to_core (main_deliver p q b s) @ [frame_bytes f], bs_reader := Confirming (ccr_receipt r)\<rparr>"
    using reader_accepts [OF raw, of "main_deliver p q b s" "commit_row p (bs_spool s)"] m by auto
  let ?c = "c\<lparr>bc_chunks := [frame_bytes f]\<rparr>"
  let ?c1 = "?c\<lparr>bc_pending := Some (q, ?d, k)\<rparr>"
  have acc: "accept_delivery ?frame ?c = (Inr k, ?c1)"
    using assms(7) delivery_codec.dec_enc [OF body] open_delivery_ok(1,2) [OF o]
    by (simp add: accept_delivery_def mbind_run mguard_run)
  have ids: "cq_capture_id (ccr_receipt r) = cd_capture_id k" "cq_connection_id (ccr_receipt r) = bd_connection_id ?d"
    "cq_spool_record_id (ccr_receipt r) = bd_spool_record_id ?d"
    by (simp_all add: rc store_receipt_def)
  have conf: "mbind (confirm_capture (ccr_receipt r)) (\<lambda>_. release_capture (cd_capture_id k))
      (?c1\<lparr>bc_replay_store := Some st'\<rparr>) =
    (Inr (), ?c1\<lparr>bc_replay_store := Some st', bc_chunks := [], bc_sent := bc_sent c @ [raw], bc_pending := None\<rparr>)"
    using client_confirms [OF _ ids(1) ids(2,3) raw f, of "?c1\<lparr>bc_replay_store := Some st'\<rparr>"] by simp
  have "absorb_delivery None ?frame ?c =
      (Inr (), ?c1\<lparr>bc_replay_store := Some st', bc_chunks := [], bc_sent := bc_sent c @ [raw], bc_pending := None\<rparr>)"
    using absorb_run [OF acc, of st q ?d] assms(8,10) conf by simp
  moreover have "?c1\<lparr>bc_replay_store := Some st', bc_chunks := [], bc_sent := bc_sent c @ [raw], bc_pending := None\<rparr> =
      c\<lparr>bc_chunks := [], bc_sent := bc_sent c @ [raw], bc_replay_store := Some st'\<rparr>"
    using assms(7) by (cases c) simp
  moreover have rid: "cq_spool_record_id (ccr_receipt r) = pc_record_id p" by (simp add: ids delivery_of_def)
  let ?s2 = "reader_frame raw (main_deliver p q b s)"
  let ?s4 = "main_wake i b' (reader_confirm (ccr_receipt r) ?s2)"
  have "bs_to_core ?s2 = bs_to_core (main_deliver p q b s) @ [frame_bytes f]" unfolding s2 by simp
  moreover have "sp_pending_captures (bs_spool ?s4) =
      filter (\<lambda>x. pc_record_id x \<noteq> pc_record_id p) (sp_pending_captures (bs_spool s))"
    unfolding s2 by (simp add: spool_steps commit_row_def)
  moreover have "bs_pending_events ?s4 = [] \<and> bs_main ?s4 = (case b of None \<Rightarrow> Reading | Some rest \<Rightarrow> Replaying rest)"
    unfolding s2 by (simp add: s1 i rid reader_confirm_def reader_next_def main_wake_def)
  moreover have "bs_to_core (main_deliver p q b s) = bs_to_core s @ [frame_bytes ?frame]" by (simp add: s1)
  ultimately show ?thesis unfolding Let_def using dc
    by (intro exI [of _ ?frame] exI [of _ raw] exI [of _ "frame_bytes f"]) auto
qed

text \<open>A session that has just spooled a capture, and a store that knows its policy.\<close>

definition tiny_row :: PendingCapture where
  "tiny_row = \<lparr>pc_record_id = 1, pc_device_id = cd_device_id tiny_capture, pc_boot_id = cd_boot_id tiny_capture,
     pc_capture_id = cd_capture_id tiny_capture, pc_capture_sequence = cd_capture_sequence tiny_capture,
     pc_source_connection_id = 1, pc_source_first_stream_offset = 0, pc_source_last_stream_offset = 229,
     pc_inner_frame_crc32 = crc32_iso_hdlc (frame_bytes tiny_frame), pc_inner_frame = frame_bytes tiny_frame,
     pc_stored_utc_ns = 5\<rparr>"

definition empty_spool :: CaptureSpool where
  "empty_spool = \<lparr>sp_tombstone_limit = 4096, sp_pending_captures = [], sp_last_record_id = 0,
     sp_committed_tombstones = []\<rparr>"

definition tiny_session :: BridgeSession where
  "tiny_session = main_serial_frame (frame_bytes tiny_frame) 5 (start_session empty_spool 1 1)"

definition policy_store :: CaptureStore where
  "policy_store = new_store\<lparr>db_policies := [\<lparr>po_rowid = 1, po_device_id = cd_device_id tiny_capture,
     po_boot_id = cd_boot_id tiny_capture, po_session_id = [], po_save_policy = SAVE_ALL, po_group_id = None\<rparr>]\<rparr>"

lemma empty_spool_inv: "spool_inv empty_spool"
  by (rule new_spool_inv [of 4096]) (simp add: new_spool_def empty_spool_def)

lemma tiny_stored:
  "store_capture (frame_bytes tiny_frame) 1 0 229 5 empty_spool =
    (Inr tiny_row, empty_spool\<lparr>sp_pending_captures := [tiny_row], sp_last_record_id := 1\<rparr>)"
proof -
  have t: "message_type tiny_frame = CAPTURE_DATA" "length (frame_bytes tiny_frame) = 230"
    "decode_capture_data (payload tiny_frame) = Inr tiny_capture"
    using tiny_bytes capture_codec.dec_enc [OF tiny_bytes(1)] by (simp_all add: tiny_frame_def)
  have "sqlite_int (cd_capture_sequence tiny_capture)" by (simp add: tiny_capture_def sqlite_int_def)
  then show ?thesis
    using t decode_frame_bytes [OF tiny_frame_ok]
    by (simp add: store_capture_def mbind_run mguard_run Let_def empty_spool_def tiny_row_def del: length_frame_bytes)
      (simp add: sqlite_int_def)
qed

lemma tiny_session_eq:
  "tiny_session = (start_session empty_spool 1 1)\<lparr>bs_stream_offset := 230,
     bs_spool := empty_spool\<lparr>sp_pending_captures := [tiny_row], sp_last_record_id := 1\<rparr>,
     bs_main := Delivering tiny_row 1 None\<rparr>"
proof -
  have t: "message_type tiny_frame = CAPTURE_DATA" "int (length (frame_bytes tiny_frame)) = 230" "sequence tiny_frame = 1"
    using tiny_bytes(2) by (simp_all add: tiny_frame_def)
  show ?thesis
    using t decode_frame_bytes [OF tiny_frame_ok] tiny_stored
    by (simp add: tiny_session_def main_serial_frame_def Let_def start_session_def del: length_frame_bytes)
qed

lemma tiny_session_inv: "session_inv tiny_session"
  unfolding tiny_session_def
  by (rule main_serial_frame_inv [OF start_session_inv [OF empty_spool_inv]]) (simp add: start_session_def)

lemma tiny_row_delivery: "delivery_of 1 tiny_row = tiny_delivery"
  by (simp add: delivery_of_def tiny_row_def tiny_delivery_def)

lemma policy_store_inv: "store_inv policy_store"
  by (simp add: store_inv_defs policy_store_def new_store_def)

lemma tiny_within: "\<exists>r st'. commit_within tiny_delivery ''SAVE_ALL'' (Some []) None policy_store = (Inr r, st')"
  by (simp add: commit_within_def commit_arguments_def policy_of_def normalize_session_id_def tiny_delivery_opens
      commit_in_connection_def mbind_run Let_def validate_group_target_def policy_store_def new_store_def
      resolve_new_def archive_delivery_def bind_ints_def mguard_run insert_resolution_def run_plan_session_def
      prune_resolutions_def delete_context_def)
    (simp add: tiny_delivery_def sqlite_int_def)

lemma tiny_replay: "\<exists>r st'. commit_replayed_delivery tiny_delivery policy_store = (Inr r, st')"
proof -
  obtain r st' where w: "commit_within tiny_delivery ''SAVE_ALL'' (Some []) None policy_store = (Inr r, st')"
    using tiny_within by blast
  have p: "db_resolutions policy_store = []" "db_sessions policy_store = []"
    "find (\<lambda>p. po_key p = (cd_device_id tiny_capture, cd_boot_id tiny_capture)) (db_policies policy_store) =
       Some \<lparr>po_rowid = 1, po_device_id = cd_device_id tiny_capture, po_boot_id = cd_boot_id tiny_capture,
         po_session_id = [], po_save_policy = SAVE_ALL, po_group_id = None\<rparr>"
    by (simp_all add: policy_store_def new_store_def po_key_def)
  show ?thesis
    using w p by (simp add: commit_replayed_delivery_def tiny_delivery_opens Let_def)
qed

lemma tiny_waits: "bs_main (main_deliver tiny_row 1 None tiny_session) = Waiting 1 None"
proof -
  obtain body where b: "encode_bridge_capture_delivery tiny_delivery = Inr body"
    using open_delivery_ok(3) [OF tiny_delivery_opens] by blast
  then have "length body = 286"
    using tiny_bytes(2)
    by (auto simp: encode_delivery_iff delivery_layout_def tiny_delivery_def tiny_frame_def dest!: pack_length)
  then have "frame_ok (mk_frame BRIDGE_CAPTURE_DELIVERY 1 body FLAG_ASYNC)"
    by (simp add: frame_ok_def PROTOCOL_VERSION_def flag_defs)
  then have "encode_frame (mk_frame BRIDGE_CAPTURE_DELIVERY 1 body FLAG_ASYNC) =
      Inr (frame_bytes (mk_frame BRIDGE_CAPTURE_DELIVERY 1 body FLAG_ASYNC))" by (simp add: encode_frame_iff)
  then show ?thesis
    using b by (simp add: main_deliver_def Let_def tiny_session_eq start_session_def tiny_row_delivery send_core_def)
      (simp add: tiny_row_def)
qed

theorem handoff_moves_the_capture_witness:
  "\<exists>raw answer st' r. (let s2 = reader_frame raw (main_deliver tiny_row 1 None tiny_session);
       s4 = main_wake 1 None (reader_confirm (ccr_receipt r) s2) in
     commit_replayed_delivery tiny_delivery policy_store = (Inr r, st') \<and>
     bs_to_core s2 = bs_to_core (main_deliver tiny_row 1 None tiny_session) @ [answer] \<and>
     sp_pending_captures (bs_spool s4) = [] \<and> (\<exists>k. decided tiny_delivery k st') \<and> bs_main s4 = Reading)"
proof -
  obtain r st' where c: "commit_replayed_delivery tiny_delivery policy_store = (Inr r, st')" using tiny_replay by blast
  have s: "bs_main tiny_session = Delivering tiny_row 1 None" "bs_connection_id tiny_session = 1"
    "sp_pending_captures (bs_spool tiny_session) = [tiny_row]" "sp_committed_tombstones (bs_spool tiny_session) = []"
    by (simp_all add: tiny_session_eq start_session_def empty_spool_def)
  have row: "sqlite_int (pc_record_id tiny_row)" by (simp add: tiny_row_def sqlite_int_def)
  let ?c = "new_bridge_client [] (Some policy_store)"
  have c2: "commit_replayed_delivery (delivery_of (bs_connection_id tiny_session) tiny_row) policy_store = (Inr r, st')"
    using c by (simp add: s(2) tiny_row_delivery)
  have h: "tiny_row \<in> set (sp_pending_captures (bs_spool tiny_session))"
    "pc_key tiny_row \<notin> ts_key ` set (sp_committed_tombstones (bs_spool tiny_session))"
    "bc_pending ?c = None" "bc_replay_store ?c = Some policy_store"
    by (simp_all add: s new_bridge_client_def)
  from handoff_moves_the_capture [OF tiny_session_inv s(1) h(1) row h(2) tiny_waits h(3,4) policy_store_inv c2] c
  show ?thesis by (auto simp: Let_def s tiny_row_delivery)
qed

end
