(* ===== verification/Store_Groups.thy ===== *)
theory Store_Groups
  imports Store_Sessions "HOL-Library.Char_ord" "HOL-Library.List_Lexorder" "HOL-Library.Product_Lexorder"
begin

text \<open>
  The remaining operations of \<open>core_store.py\<close>: experiments and groups (create, read, update, list),
  the grouping metadata, and the queries that read archived captures back. A new identifier
  (\<open>uuid.uuid4().hex\<close>) and the time of day are arguments. Texts are sequences of code points below 256.
\<close>

section \<open>Names and texts\<close>

text \<open>The code points below 256 that \<open>str.strip\<close> removes.\<close>

definition py_space :: "char \<Rightarrow> bool" where
  "py_space ch \<longleftrightarrow> (let n = of_char ch :: nat in
     (9 \<le> n \<and> n \<le> 13) \<or> (28 \<le> n \<and> n \<le> 32) \<or> n = 133 \<or> n = 160)"

definition py_strip :: "string \<Rightarrow> string" where
  "py_strip t = rev (dropWhile py_space (rev (dropWhile py_space t)))"

definition validate_entity_text :: "nat \<Rightarrow> pyobj \<Rightarrow> string res" where
  "validate_entity_text maximum value =
     (case value of
        OStr text \<Rightarrow> if length text > maximum then Inl ValueError else Inr text
      | _ \<Rightarrow> Inl ValueError)"

definition normalize_entity_name :: "pyobj \<Rightarrow> string res" where
  "normalize_entity_name name =
     (case name of
        OStr text \<Rightarrow>
          (let normalized = py_strip text in
           if \<not> (1 \<le> length normalized \<and> length normalized \<le> 120) then Inl ValueError else Inr normalized)
      | _ \<Rightarrow> Inl ValueError)"

text \<open>\<open>if field in changes: values[field] = check(changes[field])\<close>\<close>

definition optional_change :: "(pyobj \<Rightarrow> string res) \<Rightarrow> pyobj dict \<Rightarrow> string \<Rightarrow> string option res" where
  "optional_change check changes field =
     (case map_of changes field of
        None \<Rightarrow> Inr None
      | Some v \<Rightarrow> rbind (check v) (\<lambda>text. Inr (Some text)))"

definition override :: "'a option \<Rightarrow> 'a \<Rightarrow> 'a" where
  "override change old = (case change of None \<Rightarrow> old | Some new \<Rightarrow> new)"

section \<open>Experiments\<close>

definition get_experiment :: "string \<Rightarrow> ExperimentRow db" where
  "get_experiment experiment_id =
     mbind (mlift (validate_entity_id experiment_id)) (\<lambda>normalized_id.
     mbind mget (\<lambda>s.
     case find (\<lambda>e. ex_experiment_id e = normalized_id) (db_experiments s) of
       None \<Rightarrow> mraise KeyError
     | Some row \<Rightarrow> mret row))"

definition create_experiment :: "string \<Rightarrow> int \<Rightarrow> pyobj \<Rightarrow> pyobj \<Rightarrow> ExperimentRow db" where
  "create_experiment new_id now name notes =
     mbind (mlift (normalize_entity_name name)) (\<lambda>normalized_name.
     mbind (mlift (validate_entity_text 2000 notes)) (\<lambda>normalized_notes.
     mbind (transaction (
       mbind (bind_ints [now]) (\<lambda>_.
       mbind mget (\<lambda>s.
       mbind (mguard (new_id \<notin> ex_experiment_id ` set (db_experiments s)) IntegrityError) (\<lambda>_.
       mupd (\<lambda>s. s\<lparr>db_experiments := db_experiments s @
         [\<lparr>ex_experiment_id = new_id, ex_name = normalized_name, ex_notes = normalized_notes,
           ex_created_utc_ns = now, ex_updated_utc_ns = now\<rparr>]\<rparr>)))))) (\<lambda>_.
     get_experiment new_id)))"

definition list_experiments :: "ExperimentRow list db" where
  "list_experiments =
     mbind mget (\<lambda>s. mret (sort_key (\<lambda>e. (ex_created_utc_ns e, ex_experiment_id e)) (db_experiments s)))"

definition update_experiment :: "int \<Rightarrow> string \<Rightarrow> pyobj dict \<Rightarrow> ExperimentRow db" where
  "update_experiment now experiment_id changes =
     mbind (mlift (validate_entity_id experiment_id)) (\<lambda>normalized_id.
     mbind (mguard (fst ` set changes \<subseteq> {''name'', ''notes''}) ValueError) (\<lambda>_.
     mbind (mlift (optional_change normalize_entity_name changes ''name'')) (\<lambda>name.
     mbind (mlift (optional_change (validate_entity_text 2000) changes ''notes'')) (\<lambda>notes.
     mbind (if name = None \<and> notes = None then mret ()
            else transaction (
              mbind (bind_ints [now]) (\<lambda>_.
              mbind mget (\<lambda>s.
              mbind (mupd (\<lambda>s. s\<lparr>db_experiments := map (\<lambda>e. if ex_experiment_id e = normalized_id
                then e\<lparr>ex_name := override name (ex_name e), ex_notes := override notes (ex_notes e),
                       ex_updated_utc_ns := now\<rparr> else e) (db_experiments s)\<rparr>)) (\<lambda>_.
              mguard (normalized_id \<in> ex_experiment_id ` set (db_experiments s)) KeyError))))) (\<lambda>_.
     get_experiment normalized_id)))))"

section \<open>Groups\<close>

text \<open>\<open>_group_select_sql\<close> and \<open>_group_object\<close>: a group row with the number of captures archived under it.\<close>

record GroupObject =
  go_group :: GroupRow
  go_archived_count :: int

definition group_object :: "CaptureStore \<Rightarrow> GroupRow \<Rightarrow> GroupObject" where
  "group_object s row = \<lparr>go_group = row,
     go_archived_count = int (length (filter (\<lambda>r. ar_group_id r = Some (gr_group_id row)) (db_captures s)))\<rparr>"

definition get_group :: "string \<Rightarrow> GroupObject db" where
  "get_group group_id =
     mbind (mlift (validate_entity_id group_id)) (\<lambda>normalized_id.
     mbind mget (\<lambda>s.
     case find (\<lambda>g. gr_group_id g = normalized_id) (db_groups s) of
       None \<Rightarrow> mraise KeyError
     | Some row \<Rightarrow> mret (group_object s row)))"

definition create_group ::
  "string \<Rightarrow> int \<Rightarrow> string \<Rightarrow> pyobj \<Rightarrow> pyobj \<Rightarrow> pyobj \<Rightarrow> GroupObject db" where
  "create_group new_id now experiment_id name cell_id notes =
     mbind (mlift (validate_entity_id experiment_id)) (\<lambda>normalized_experiment_id.
     mbind (mlift (normalize_entity_name name)) (\<lambda>normalized_name.
     mbind (mlift (validate_entity_text 120 cell_id)) (\<lambda>normalized_cell_id.
     mbind (mlift (validate_entity_text 2000 notes)) (\<lambda>normalized_notes.
     mbind (transaction (
       mbind mget (\<lambda>s.
       mbind (mguard (normalized_experiment_id \<in> ex_experiment_id ` set (db_experiments s)) KeyError) (\<lambda>_.
       mbind (bind_ints [now]) (\<lambda>_.
       mbind (mguard (new_id \<notin> gr_group_id ` set (db_groups s)) IntegrityError) (\<lambda>_.
       mupd (\<lambda>s. s\<lparr>db_groups := db_groups s @
         [\<lparr>gr_group_id = new_id, gr_experiment_id = normalized_experiment_id, gr_name = normalized_name,
           gr_cell_id = normalized_cell_id, gr_notes = normalized_notes, gr_created_utc_ns = now,
           gr_updated_utc_ns = now\<rparr>]\<rparr>))))))) (\<lambda>_.
     get_group new_id)))))"

definition list_groups :: "string \<Rightarrow> GroupObject list db" where
  "list_groups experiment_id =
     mbind (mlift (validate_entity_id experiment_id)) (\<lambda>normalized_id.
     mbind mget (\<lambda>s.
     mbind (mguard (normalized_id \<in> ex_experiment_id ` set (db_experiments s)) KeyError) (\<lambda>_.
     mret (map (group_object s) (sort_key (\<lambda>g. (gr_created_utc_ns g, gr_group_id g))
       (filter (\<lambda>g. gr_experiment_id g = normalized_id) (db_groups s)))))))"

definition update_group :: "int \<Rightarrow> string \<Rightarrow> pyobj dict \<Rightarrow> GroupObject db" where
  "update_group now group_id changes =
     mbind (mlift (validate_entity_id group_id)) (\<lambda>normalized_id.
     mbind (mguard (fst ` set changes \<subseteq> {''name'', ''cell_id'', ''notes''}) ValueError) (\<lambda>_.
     mbind (mlift (optional_change normalize_entity_name changes ''name'')) (\<lambda>name.
     mbind (mlift (optional_change (validate_entity_text 120) changes ''cell_id'')) (\<lambda>cell_id.
     mbind (mlift (optional_change (validate_entity_text 2000) changes ''notes'')) (\<lambda>notes.
     mbind (if name = None \<and> cell_id = None \<and> notes = None then mret ()
            else transaction (
              mbind (bind_ints [now]) (\<lambda>_.
              mbind mget (\<lambda>s.
              mbind (mupd (\<lambda>s. s\<lparr>db_groups := map (\<lambda>g. if gr_group_id g = normalized_id
                then g\<lparr>gr_name := override name (gr_name g), gr_cell_id := override cell_id (gr_cell_id g),
                       gr_notes := override notes (gr_notes g), gr_updated_utc_ns := now\<rparr> else g) (db_groups s)\<rparr>)) (\<lambda>_.
              mguard (normalized_id \<in> gr_group_id ` set (db_groups s)) KeyError))))) (\<lambda>_.
     get_group normalized_id))))))"

record GroupingMetadata =
  gm_group_id :: "string option"
  gm_experiment_id :: "string option"
  gm_group_name :: "string option"
  gm_experiment_name :: "string option"
  gm_cell_id :: "string option"

definition experiment_of :: "CaptureStore \<Rightarrow> GroupRow \<Rightarrow> ExperimentRow option" where
  "experiment_of s g = find (\<lambda>e. ex_experiment_id e = gr_experiment_id g) (db_experiments s)"

definition grouping_metadata :: "string option \<Rightarrow> GroupingMetadata db" where
  "grouping_metadata group_id =
     (case group_id of
        None \<Rightarrow> mret \<lparr>gm_group_id = None, gm_experiment_id = None, gm_group_name = None,
                  gm_experiment_name = None, gm_cell_id = None\<rparr>
      | Some i \<Rightarrow>
          mbind (mlift (validate_entity_id i)) (\<lambda>normalized_id.
          mbind mget (\<lambda>s.
          case find (\<lambda>g. gr_group_id g = normalized_id) (db_groups s) of
            None \<Rightarrow> mraise KeyError
          | Some g \<Rightarrow>
              (case experiment_of s g of
                 None \<Rightarrow> mraise KeyError
               | Some e \<Rightarrow> mret \<lparr>gm_group_id = Some (gr_group_id g), gm_experiment_id = Some (gr_experiment_id g),
                   gm_group_name = Some (gr_name g), gm_experiment_name = Some (ex_name e),
                   gm_cell_id = Some (gr_cell_id g)\<rparr>))))"

section \<open>Reading captures back\<close>

record CaptureEventRecord =
  er_ordinal :: int
  er_channel :: int
  er_edge :: int
  er_capture_method :: int
  er_level_after :: int
  er_sample_index :: int
  er_subsample_tick :: int
  er_uncertainty_ticks :: int
  er_frame_offset_ticks :: int

record CaptureRecord =
  rc_capture_id :: bytes
  rc_device_id :: bytes
  rc_boot_id :: bytes
  rc_request_id :: bytes
  rc_profile_sha256 :: bytes
  rc_device_config_crc32 :: int
  rc_capture_sequence :: int
  rc_sample_interval_ticks :: int
  rc_burst_period_ticks :: int
  rc_sample_count :: int
  rc_pretrigger_count :: int
  rc_adc_bits :: int
  rc_sample_encoding :: int
  rc_vref_mv :: int
  rc_smclk_nominal_hz :: int
  rc_smclk_calibrated_hz :: int
  rc_frame_start_tick48 :: int
  rc_t_trigger_offset_ticks :: int
  rc_adc0_hold_offset_ticks :: int
  rc_adc_aperture_ns :: int
  rc_trigger_to_tx_output_ns :: int
  rc_calibration_version :: int
  rc_quality_flags :: int
  rc_tuss_dev_stat :: int
  rc_out3_start_level :: int
  rc_out4_start_level :: int
  rc_transport_crc32 :: int
  rc_wire_frame :: bytes
  rc_sample_blob :: bytes
  rc_requested_config :: "pyobj dict"
  rc_encoded_config :: "pyobj dict"
  rc_readback_config :: "pyobj dict"
  rc_actual_config :: "pyobj dict"
  rc_run_plan :: "pyobj dict"
  rc_adc_clipping :: bool
  rc_interpolated :: bool
  rc_group_id :: "string option"
  rc_experiment_id :: "string option"
  rc_group_name :: "string option"
  rc_experiment_name :: "string option"
  rc_cell_id :: "string option"
  rc_events :: "CaptureEventRecord list"

definition event_record :: "StoredEvent \<Rightarrow> CaptureEventRecord" where
  "event_record e = \<lparr>er_ordinal = se_ordinal e, er_channel = ev_channel (se_event e),
     er_edge = ev_edge (se_event e), er_capture_method = ev_capture_method (se_event e),
     er_level_after = ev_level_after (se_event e), er_sample_index = ev_sample_index (se_event e),
     er_subsample_tick = ev_subsample_tick (se_event e), er_uncertainty_ticks = ev_uncertainty_ticks (se_event e),
     er_frame_offset_ticks = ev_frame_offset_ticks (se_event e)\<rparr>"

definition capture_events_for_row :: "CaptureStore \<Rightarrow> int \<Rightarrow> CaptureEventRecord list" where
  "capture_events_for_row s row_id =
     map event_record (sort_key se_ordinal (filter (\<lambda>e. se_capture_row_id e = row_id) (db_events s)))"

text \<open>The two left joins of \<open>_capture_record_select_sql\<close> supply the grouping columns.\<close>

definition capture_record_from_row ::
  "CaptureStore \<Rightarrow> ArchivedCapture \<Rightarrow> CaptureEventRecord list \<Rightarrow> CaptureRecord res" where
  "capture_record_from_row s row events =
     (let g = group_of s row; x = (case g of None \<Rightarrow> None | Some g \<Rightarrow> experiment_of s g) in
      rbind (decode_frame (ar_wire_frame row)) (\<lambda>frame.
      rbind (decode_capture_data (payload frame)) (\<lambda>capture.
      Inr \<lparr>rc_capture_id = ar_capture_id row, rc_device_id = ar_device_id row, rc_boot_id = ar_boot_id row,
        rc_request_id = ar_request_id row, rc_profile_sha256 = ar_profile_sha256 row,
        rc_device_config_crc32 = ar_device_config_crc32 row, rc_capture_sequence = ar_capture_sequence row,
        rc_sample_interval_ticks = ar_sample_interval_ticks row,
        rc_burst_period_ticks = ar_burst_period_ticks row, rc_sample_count = ar_sample_count row,
        rc_pretrigger_count = ar_pretrigger_count row, rc_adc_bits = cd_adc_bits capture,
        rc_sample_encoding = cd_sample_encoding capture, rc_vref_mv = cd_vref_mv capture,
        rc_smclk_nominal_hz = cd_smclk_nominal_hz capture, rc_smclk_calibrated_hz = cd_smclk_calibrated_hz capture,
        rc_frame_start_tick48 = cd_frame_start_tick48 capture,
        rc_t_trigger_offset_ticks = cd_t_trigger_offset_ticks capture,
        rc_adc0_hold_offset_ticks = cd_adc0_hold_offset_ticks capture,
        rc_adc_aperture_ns = cd_adc_aperture_ns capture,
        rc_trigger_to_tx_output_ns = cd_trigger_to_tx_output_ns capture,
        rc_calibration_version = cd_calibration_version capture, rc_quality_flags = ar_quality_flags row,
        rc_tuss_dev_stat = ar_tuss_dev_stat row, rc_out3_start_level = cd_out3_start_level capture,
        rc_out4_start_level = cd_out4_start_level capture, rc_transport_crc32 = ar_inner_frame_crc32 row,
        rc_wire_frame = ar_wire_frame row, rc_sample_blob = ar_sample_blob row,
        rc_requested_config = ar_requested row, rc_encoded_config = ar_encoded row,
        rc_readback_config = ar_readback row, rc_actual_config = ar_actual row, rc_run_plan = ar_run_plan row,
        rc_adc_clipping = ar_adc_clipping row, rc_interpolated = False, rc_group_id = ar_group_id row,
        rc_experiment_id = map_option gr_experiment_id g, rc_group_name = map_option gr_name g,
        rc_experiment_name = map_option ex_name x, rc_cell_id = map_option gr_cell_id g, rc_events = events\<rparr>)))"

definition get_capture :: "bytes \<Rightarrow> CaptureRecord db" where
  "get_capture capture_id =
     mbind mget (\<lambda>s.
     case filter (\<lambda>r. ar_capture_id r = capture_id) (db_captures s) of
       [row] \<Rightarrow> mlift (capture_record_from_row s row (capture_events_for_row s (ar_row_id row)))
     | _ \<Rightarrow> mraise KeyError)"

fun capture_records :: "CaptureStore \<Rightarrow> ArchivedCapture list \<Rightarrow> CaptureRecord list res" where
  "capture_records s [] = Inr []"
| "capture_records s (row # rows) =
     rbind (capture_record_from_row s row (capture_events_for_row s (ar_row_id row))) (\<lambda>record.
     rbind (capture_records s rows) (\<lambda>records.
     Inr (record # records)))"

text \<open>
  The snapshot is one read transaction, and the caller drains the iterator before it closes; so the
  records are those of the state in which the transaction began.
\<close>

definition group_export_snapshot :: "string \<Rightarrow> (GroupObject \<times> ExperimentRow \<times> CaptureRecord list) db" where
  "group_export_snapshot group_id =
     mbind (mlift (validate_entity_id group_id)) (\<lambda>normalized_id.
     mbind mget (\<lambda>s.
     case find (\<lambda>g. gr_group_id g = normalized_id) (db_groups s) of
       None \<Rightarrow> mraise KeyError
     | Some group_row \<Rightarrow>
         (case experiment_of s group_row of
            None \<Rightarrow> mraise AssertionError
          | Some experiment_row \<Rightarrow>
              mbind (mlift (capture_records s (sort_key ar_row_id
                (filter (\<lambda>r. ar_group_id r = Some normalized_id) (db_captures s))))) (\<lambda>records.
              mret (group_object s group_row, experiment_row, records)))))"

definition get_capture_events :: "bytes \<Rightarrow> CaptureEventRecord list db" where
  "get_capture_events capture_id =
     mbind mget (\<lambda>s. mret (map event_record (sort_key se_ordinal (filter (\<lambda>e.
       \<exists>r \<in> set (db_captures s). ar_row_id r = se_capture_row_id e \<and> ar_capture_id r = capture_id) (db_events s)))))"

section \<open>Experiments and groups stay consistent\<close>

text \<open>Identifiers are unique, every group belongs to an experiment and every grouped capture to a group.\<close>

definition grouping_ok :: "ExperimentRow list \<Rightarrow> GroupRow list \<Rightarrow> bool" where
  "grouping_ok xs gs \<longleftrightarrow> distinct (map ex_experiment_id xs) \<and> distinct (map gr_group_id gs) \<and>
     gr_experiment_id ` set gs \<subseteq> ex_experiment_id ` set xs"

definition grouped :: "ExperimentRow list \<Rightarrow> GroupRow list \<Rightarrow> CaptureStore \<Rightarrow> bool" where
  "grouped xs gs s \<longleftrightarrow> db_experiments s = xs \<and> db_groups s = gs \<and>
     (\<forall>r \<in> set (db_captures s). \<forall>g. ar_group_id r = Some g \<longrightarrow> g \<in> gr_group_id ` set gs)"

definition grouping_inv :: "CaptureStore \<Rightarrow> bool" where
  "grouping_inv s \<longleftrightarrow> grouping_ok (db_experiments s) (db_groups s) \<and> grouped (db_experiments s) (db_groups s) s"

lemma grouped_keeps_inv: "(\<And>xs gs. keeps (grouped xs gs) m) \<Longrightarrow> keeps grouping_inv m"
  unfolding keeps_def grouping_inv_def by (metis grouped_def)

lemma ok_keeps_option:
  "ok_keeps I m \<Longrightarrow> (\<And>x. v = Some x \<Longrightarrow> ok_keeps I (f x)) \<Longrightarrow> ok_keeps I (case v of None \<Rightarrow> m | Some x \<Rightarrow> f x)"
  by (cases v) simp_all

lemma ok_keeps_prod: "(\<And>x y. p = (x, y) \<Longrightarrow> ok_keeps I (f x y)) \<Longrightarrow> ok_keeps I (case p of (x, y) \<Rightarrow> f x y)"
  by (cases p) simp

lemma validated_group_exists:
  "validate_group_target g s = (Inr h, s') \<Longrightarrow> h = Some i \<Longrightarrow> i \<in> gr_group_id ` set (db_groups s)"
  by (auto simp: validate_group_target_def validate_entity_id_def mbind_ok_iff mguard_ok list_ex_iff
      split: option.splits if_splits)

lemma grouped_archive: "ok_keeps (grouped xs gs) (archive_delivery d f c crc sess g)"
  unfolding ok_keeps_def
proof (intro allI impI)
  fix s x s'
  assume s: "grouped xs gs s" and run: "archive_delivery d f c crc sess g s = (Inr x, s')"
  then obtain h where h: "validate_group_target g s = (Inr h, s)"
    using validate_group_target_ok by (fastforce simp: archive_delivery_def mbind_ok_iff)
  have g: "i \<in> gr_group_id ` set gs" if "g = Some i" for i
    using validated_group_exists [OF h] validate_group_target_ok [OF h] that s by (simp add: grouped_def)
  from run show "grouped xs gs s'"
    by (cases rule: archive_delivery_ok) (use s g in \<open>auto simp: grouped_def archive_row_def\<close>)
qed

lemma grouped_pieces:
  "ok_keeps (grouped xs gs) (delete_context k)" "ok_keeps (grouped xs gs) (update_resolutions P x)"
  "ok_keeps (grouped xs gs) (insert_resolution c crc sha x u utc)" "ok_keeps (grouped xs gs) (count_delivery u i)"
  "ok_keeps (grouped xs gs) prune_resolutions" "ok_keeps (grouped xs gs) (upsert_session_summary p)"
  "ok_keeps (grouped xs gs) (roll_latest d c u g)"
  unfolding delete_context_def update_resolutions_def insert_resolution_def count_delivery_def prune_resolutions_def
    upsert_session_summary_def roll_latest_def Let_def
  by (intro ok_keeps_rules ok_keeps_mupd ok_keeps_option;
      simp add: grouped_def drop_context_def counted_def pruned_def with_resolution_def)+

lemma grouped_commit: "ok_keeps (grouped xs gs) (commit_in_connection d pol u g f c)"
  unfolding commit_in_connection_def resolve_new_def Let_def
  by (cases pol; simp only: SavePolicy.case)
    (intro ok_keeps_rules ok_keeps_option ok_keeps_prod grouped_archive grouped_pieces)+

lemma grouped_finalize:
  "ok_keeps (grouped xs gs) (finalize_latest_in_connection u)" "ok_keeps (grouped xs gs) (finalize_summary_in_connection p pol)"
proof -
  show l: "ok_keeps (grouped xs gs) (finalize_latest_in_connection u)" for u
    unfolding finalize_latest_in_connection_def Let_def
    by (intro ok_keeps_rules ok_keeps_option grouped_archive grouped_pieces ok_keeps_mupd) (simp add: grouped_def)
  show "ok_keeps (grouped xs gs) (finalize_summary_in_connection p pol)"
    unfolding finalize_summary_in_connection_def Let_def by (intro ok_keeps_rules l grouped_pieces)
qed

lemma grouped_terminal: "ok_keeps (grouped xs gs) (terminal_replay_in_connection d c u pol g p)"
  unfolding terminal_replay_in_connection_def Let_def
  by (intro ok_keeps_rules ok_keeps_option grouped_archive grouped_pieces grouped_finalize ok_keeps_mupd)
    (auto simp: grouped_def)

lemma keeps_prod: "(\<And>x y. keeps I (f x y)) \<Longrightarrow> keeps I (case p of (x, y) \<Rightarrow> f x y)"
  by (cases p) simp

lemma grouped_commits:
  "keeps (grouped xs gs) (commit_delivery d pol sess g)" "keeps (grouped xs gs) (commit_replayed_delivery d)"
proof -
  have w: "ok_keeps (grouped xs gs) (commit_within d p u g)" for p u g
    unfolding commit_within_def by (intro ok_keeps_rules ok_keeps_prod grouped_commit)
  show "keeps (grouped xs gs) (commit_delivery d pol sess g)"
    unfolding commit_delivery_def
    by (intro keeps_bind keeps_basic keeps_prod keeps_transaction grouped_commit)
  show "keeps (grouped xs gs) (commit_replayed_delivery d)"
    unfolding commit_replayed_delivery_def Let_def
    by (intro keeps_bind keeps_basic keeps_prod keeps_transaction ok_keeps_rules ok_keeps_option w grouped_terminal)
qed

lemma grouped_sessions:
  "keeps (grouped xs gs) (finalize_latest_capture u)" "keeps (grouped xs gs) (save_session_summary p)"
  "keeps (grouped xs gs) (finalize_session_summary p)" "keeps (grouped xs gs) (save_configuration_context c)"
  "keeps (grouped xs gs) (register_delivery_policy dev boot u pol g)"
  "keeps (grouped xs gs) (unregister_delivery_policy dev boot u)"
  unfolding finalize_latest_capture_def save_session_summary_def finalize_session_summary_def
    save_configuration_context_def register_delivery_policy_def unregister_delivery_policy_def Let_def
  by (intro keeps_bind keeps_basic keeps_transaction ok_keeps_rules ok_keeps_mupd grouped_finalize grouped_pieces;
      (simp add: grouped_def)?)+

lemma grouped_reconcile: "keeps (grouped xs gs) reconcile_interrupted_sessions"
proof -
  have "keeps (grouped xs gs) (close_sessions rows)" for rows
  proof (induction rows)
    case (Cons row rows)
    show ?case unfolding close_sessions.simps by (intro keeps_bind grouped_sessions Cons.IH)
  qed (simp only: close_sessions.simps keeps_basic)
  then show ?thesis
    unfolding reconcile_interrupted_sessions_def Let_def by (intro keeps_bind keeps_basic)
qed

lemma grouped_assign: "keeps (grouped xs gs) (assign_capture_group ids g)"
proof -
  have "ok_keeps (grouped xs gs) (mbind (validate_group_target g) (\<lambda>g.
       mbind mget (\<lambda>s.
       mbind (mguard (list_all (\<lambda>i. length (filter (\<lambda>r. ar_capture_id r = i) (db_captures s)) = 1) ids) KeyError) (\<lambda>_.
       mbind (mupd (\<lambda>s. s\<lparr>db_captures :=
         map (\<lambda>r. if ar_capture_id r \<in> set ids then r\<lparr>ar_group_id := g\<rparr> else r) (db_captures s)\<rparr>)) (\<lambda>_.
       mret (int (length ids)))))))" for ids
    using validated_group_exists validate_group_target_ok
    by (fastforce simp: ok_keeps_def mbind_ok_iff mguard_ok grouped_def)
  then show ?thesis
    unfolding assign_capture_group_def by (intro keeps_bind keeps_basic keeps_transaction)
qed

lemma reads_change_nothing: "keeps I (get_experiment i)" "keeps I (get_group j)"
  unfolding get_experiment_def get_group_def by (auto intro!: keeps_bind split: option.split)

lemma grouping_experiments:
  "keeps grouping_inv (create_experiment i now name notes)" "keeps grouping_inv (update_experiment now j changes)"
proof -
  show "keeps grouping_inv (create_experiment i now name notes)"
    unfolding create_experiment_def
    by (intro keeps_bind keeps_basic keeps_transaction reads_change_nothing)
      (auto simp: ok_keeps_def mbind_ok_iff mguard_ok bind_ints_ok grouping_inv_def grouping_ok_def grouped_def)
  have upd: "grouping_inv s \<Longrightarrow> grouping_inv (s\<lparr>db_experiments := map (\<lambda>e. if ex_experiment_id e = k
      then e\<lparr>ex_name := f e, ex_notes := h e, ex_updated_utc_ns := t\<rparr> else e) (db_experiments s)\<rparr>)" for s k f h t
    by (simp add: grouping_inv_def grouping_ok_def grouped_def comp_def image_image
        if_distrib [where f = ex_experiment_id] cong: if_cong del: if_image_distrib)
  show "keeps grouping_inv (update_experiment now j changes)"
    unfolding update_experiment_def
    by (intro keeps_bind keeps_basic keeps_if keeps_transaction ok_keeps_rules ok_keeps_mupd reads_change_nothing upd)
qed

lemma grouping_groups:
  "keeps grouping_inv (create_group i now x name cell notes)" "keeps grouping_inv (update_group now j changes)"
proof -
  show "keeps grouping_inv (create_group i now x name cell notes)"
    unfolding create_group_def
    by (intro keeps_bind keeps_basic keeps_transaction reads_change_nothing)
      (auto simp: ok_keeps_def mbind_ok_iff mguard_ok bind_ints_ok grouping_inv_def grouping_ok_def grouped_def)
  have upd: "grouping_inv s \<Longrightarrow> grouping_inv (s\<lparr>db_groups := map (\<lambda>g. if gr_group_id g = k
      then g\<lparr>gr_name := f g, gr_cell_id := h g, gr_notes := n g, gr_updated_utc_ns := t\<rparr> else g) (db_groups s)\<rparr>)"
    for s k f h n t
    by (simp add: grouping_inv_def grouping_ok_def grouped_def comp_def image_image
        if_distrib [where f = gr_group_id] if_distrib [where f = gr_experiment_id] cong: if_cong del: if_image_distrib)
  show "keeps grouping_inv (update_group now j changes)"
    unfolding update_group_def
    by (intro keeps_bind keeps_basic keeps_if keeps_transaction ok_keeps_rules ok_keeps_mupd reads_change_nothing upd)
qed

lemma entities_beside_archive [simp]:
  "store_inv (s\<lparr>db_experiments := xs\<rparr>) = store_inv s" "store_inv (s\<lparr>db_groups := gs\<rparr>) = store_inv s"
  by (simp_all add: store_inv_def sessions_inv_def)

lemma entities_keep_store:
  "keeps store_inv (create_experiment i now name notes)" "keeps store_inv (update_experiment now j changes)"
  "keeps store_inv (create_group i now x name cell notes)" "keeps store_inv (update_group now j changes)"
  unfolding create_experiment_def update_experiment_def create_group_def update_group_def
  by (intro keeps_bind keeps_basic keeps_if keeps_transaction ok_keeps_rules ok_keeps_mupd reads_change_nothing; simp)+

text \<open>C20 (invariant). Experiments, groups and captures never dangle: from an empty store on, whatever operation
  is called, with whatever arguments, and whether it returns or raises, experiment and group identifiers stay unique, every
  group belongs to an existing experiment, and every archived capture that names a group names an existing one;
  and the operations on experiments and groups keep the archive consistent too.\<close>

theorem store_keeps_grouping:
  "grouping_inv new_store \<and> keeps grouping_inv (create_experiment i now name notes) \<and>
   keeps grouping_inv (update_experiment now j changes) \<and>
   keeps grouping_inv (create_group i now x name cell notes) \<and> keeps grouping_inv (update_group now j changes) \<and>
   keeps grouping_inv (assign_capture_group ids g) \<and> keeps grouping_inv (commit_delivery d pol sess g) \<and>
   keeps grouping_inv (commit_replayed_delivery d) \<and> keeps grouping_inv (finalize_latest_capture u) \<and>
   keeps grouping_inv (save_session_summary p) \<and> keeps grouping_inv (finalize_session_summary p) \<and>
   keeps grouping_inv reconcile_interrupted_sessions \<and> keeps grouping_inv (save_configuration_context c) \<and>
   keeps grouping_inv (register_delivery_policy dev boot u pol g) \<and>
   keeps grouping_inv (unregister_delivery_policy dev boot u) \<and>
   keeps store_inv (create_experiment i now name notes) \<and> keeps store_inv (update_experiment now j changes) \<and>
   keeps store_inv (create_group i now x name cell notes) \<and> keeps store_inv (update_group now j changes)"
proof (intro conjI)
  show "grouping_inv new_store" by (simp add: grouping_inv_def grouping_ok_def grouped_def new_store_def)
qed (rule entities_keep_store grouping_experiments grouping_groups grouped_keeps_inv grouped_assign grouped_commits grouped_sessions
    grouped_reconcile)+

section \<open>Archived captures read back as they were received\<close>

definition sample_bytes :: "int list \<Rightarrow> bytes" where
  "sample_bytes samples = concat (map (le_bytes 2) samples)"

lemma pack_sample_bytes:
  "pack (replicate (length xs) FH) (map PInt xs) = Inr bs \<Longrightarrow> bs = sample_bytes xs"
  by (induction xs arbitrary: bs) (auto simp: sample_bytes_def codec_simps pack.simps split: if_splits)

lemma payload_samples:
  assumes "decode_capture_data p = Inr c"
  shows "(let n = nat (cd_sample_count c * 2) in if n = 0 then [] else drop (length p - n) p) = sample_bytes (cd_samples c)"
    and "length (sample_bytes (cd_samples c)) = nat (cd_sample_count c * 2)"
proof -
  obtain h e b where b: "capture_ok c" "pack (replicate (length (cd_samples c)) FH) (map PInt (cd_samples c)) = Inr b"
    "p = h @ pair_bytes (cd_register_pairs c) @ e @ b"
    using capture_codec.enc_dec [OF assms] by (auto simp: encode_capture_data_iff)
  have l: "length b = 2 * length (cd_samples c)" "b = sample_bytes (cd_samples c)"
    using pack_length [OF b(2)] pack_sample_bytes [OF b(2)] by simp_all
  then show "length (sample_bytes (cd_samples c)) = nat (cd_sample_count c * 2)"
    using b(1) by (simp add: capture_ok_def)
  show "(let n = nat (cd_sample_count c * 2) in if n = 0 then [] else drop (length p - n) p) = sample_bytes (cd_samples c)"
    using b(1,3) l by (auto simp: capture_ok_def Let_def)
qed

definition numbered_events :: "CaptureEvent list \<Rightarrow> CaptureEventRecord list" where
  "numbered_events events = map event_record (event_rows 0 events)"

text \<open>A record that says what the capture in this frame says.\<close>

definition record_of_capture :: "bytes \<Rightarrow> CaptureData \<Rightarrow> CaptureRecord \<Rightarrow> bool" where
  "record_of_capture w c r \<longleftrightarrow>
     rc_wire_frame r = w \<and> rc_transport_crc32 r = crc32_iso_hdlc w \<and>
     rc_sample_blob r = sample_bytes (cd_samples c) \<and> rc_events r = numbered_events (cd_events c) \<and>
     rc_capture_id r = cd_capture_id c \<and> rc_device_id r = cd_device_id c \<and> rc_boot_id r = cd_boot_id c \<and>
     rc_request_id r = cd_request_id c \<and> rc_profile_sha256 r = cd_profile_sha256 c \<and>
     rc_device_config_crc32 r = cd_device_config_crc32 c \<and> rc_capture_sequence r = cd_capture_sequence c \<and>
     rc_sample_interval_ticks r = cd_sample_interval_ticks c \<and> rc_burst_period_ticks r = cd_burst_period_ticks c \<and>
     rc_sample_count r = cd_sample_count c \<and> rc_pretrigger_count r = cd_pretrigger_count c \<and>
     rc_adc_bits r = cd_adc_bits c \<and> rc_sample_encoding r = cd_sample_encoding c \<and> rc_vref_mv r = cd_vref_mv c \<and>
     rc_smclk_nominal_hz r = cd_smclk_nominal_hz c \<and> rc_smclk_calibrated_hz r = cd_smclk_calibrated_hz c \<and>
     rc_frame_start_tick48 r = cd_frame_start_tick48 c \<and> rc_t_trigger_offset_ticks r = cd_t_trigger_offset_ticks c \<and>
     rc_adc0_hold_offset_ticks r = cd_adc0_hold_offset_ticks c \<and> rc_adc_aperture_ns r = cd_adc_aperture_ns c \<and>
     rc_trigger_to_tx_output_ns r = cd_trigger_to_tx_output_ns c \<and>
     rc_calibration_version r = cd_calibration_version c \<and> rc_quality_flags r = cd_quality_flags c \<and>
     rc_tuss_dev_stat r = cd_tuss_dev_stat c \<and> rc_out3_start_level r = cd_out3_start_level c \<and>
     rc_out4_start_level r = cd_out4_start_level c \<and>
     rc_adc_clipping r = list_ex (\<lambda>x. x = 0 \<or> x = 2 ^ nat (cd_adc_bits c) - 1) (cd_samples c) \<and>
     \<not> rc_interpolated r"

lemma event_rows_sorted: "sort_key se_ordinal (event_rows i es) = event_rows i es"
  by (rule sort_key_id_if_sorted)
    (simp add: event_rows_def comp_def case_prod_unfold sorted_iff_nth_mono nth_enumerate_eq)

lemma numbered_event_rows: "map event_record (event_rows i es) = numbered_events es"
  by (simp add: numbered_events_def event_rows_def event_record_def comp_def case_prod_unfold)

lemma row_reads_back:
  assumes "store_inv s" "r \<in> set (db_captures s)"
  obtains f c rec where "decode_frame (ar_wire_frame r) = Inr f" "decode_capture_data (payload f) = Inr c"
    "ar_key r = cd_key c" "capture_events_for_row s (ar_row_id r) = numbered_events (cd_events c)"
    "capture_record_from_row s r (capture_events_for_row s (ar_row_id r)) = Inr rec"
    "record_of_capture (ar_wire_frame r) c rec" "rc_group_id rec = ar_group_id r"
    "rc_experiment_id rec = map_option gr_experiment_id (group_of s r)"
    "rc_group_name rec = map_option gr_name (group_of s r)"
    "rc_experiment_name rec = map_option ex_name (Option.bind (group_of s r) (experiment_of s))"
proof -
  obtain f c where a: "archived_as r f c"
    and e: "filter (\<lambda>e. se_capture_row_id e = ar_row_id r) (db_events s) = event_rows (ar_row_id r) (cd_events c)"
    using assms by (auto simp: store_inv_def captures_inv_def list_all_iff archived_ok_def)
  note cols = archived_columns [OF a]
  have ev: "capture_events_for_row s (ar_row_id r) = numbered_events (cd_events c)"
    by (simp add: capture_events_for_row_def e event_rows_sorted numbered_event_rows)
  obtain rec where rec: "capture_record_from_row s r (capture_events_for_row s (ar_row_id r)) = Inr rec"
    by (simp add: capture_record_from_row_def cols(1,2) Let_def)
  have blob: "ar_sample_blob r = sample_bytes (cd_samples c)" unfolding cols(18) by (rule payload_samples [OF cols(2)])
  have "record_of_capture (ar_wire_frame r) c rec"
    using rec [symmetric]
    by (simp add: capture_record_from_row_def cols(1,2) record_of_capture_def Let_def)
      (simp add: cols(3-17,19) blob ev)
  moreover have "rc_group_id rec = ar_group_id r" "rc_experiment_id rec = map_option gr_experiment_id (group_of s r)"
    "rc_group_name rec = map_option gr_name (group_of s r)"
    "rc_experiment_name rec = map_option ex_name (Option.bind (group_of s r) (experiment_of s))"
    using rec [symmetric] by (simp_all add: capture_record_from_row_def cols(1,2) Let_def split: option.split)
  ultimately show thesis using that [OF cols(1-3) ev rec] by blast
qed

lemma filter_unique:
  "distinct xs \<Longrightarrow> r \<in> set xs \<Longrightarrow> P r \<Longrightarrow> (\<And>x. x \<in> set xs \<Longrightarrow> P x \<Longrightarrow> x = r) \<Longrightarrow> filter P xs = [r]"
proof (induction xs)
  case (Cons x xs)
  show ?case
  proof (cases "x = r")
    case True
    then have "\<not> P y" if "y \<in> set xs" for y using Cons.prems(1,4) that by fastforce
    then have "filter P xs = []" by (simp add: filter_empty_conv)
    then show ?thesis using True Cons.prems(3) by simp
  next
    case False
    then have x: "\<not> P x" "r \<in> set xs" using Cons.prems(2) Cons.prems(4) [of x] by auto
    have "filter P xs = [r]"
      by (rule Cons.IH [OF _ x(2) Cons.prems(3)]) (use Cons.prems(1) in simp, rule Cons.prems(4), simp_all)
    then show ?thesis using x(1) by simp
  qed
qed simp

lemma same_capture_id:
  assumes "store_inv s" "r \<in> set (db_captures s)"
    and "\<And>r'. r' \<in> set (db_captures s) \<Longrightarrow> ar_capture_id r' = ar_capture_id r \<Longrightarrow> r' = r"
  shows "filter (\<lambda>x. ar_capture_id x = ar_capture_id r) (db_captures s) = [r]"
    and "filter (\<lambda>e. \<exists>x \<in> set (db_captures s). ar_row_id x = se_capture_row_id e \<and> ar_capture_id x = ar_capture_id r)
      (db_events s) = filter (\<lambda>e. se_capture_row_id e = ar_row_id r) (db_events s)"
proof -
  have "distinct (db_captures s)"
    using assms(1) by (simp add: store_inv_def captures_inv_def strict_sorted_iff distinct_map)
  then show "filter (\<lambda>x. ar_capture_id x = ar_capture_id r) (db_captures s) = [r]"
    using assms(2,3) by (auto intro: filter_unique)
  show "filter (\<lambda>e. \<exists>x \<in> set (db_captures s). ar_row_id x = se_capture_row_id e \<and> ar_capture_id x = ar_capture_id r)
      (db_events s) = filter (\<lambda>e. se_capture_row_id e = ar_row_id r) (db_events s)"
    using assms(2,3) by (intro filter_cong refl) metis
qed

lemma capture_reads_back:
  assumes "store_inv s" and "r \<in> set (db_captures s)"
    and "\<And>r'. r' \<in> set (db_captures s) \<Longrightarrow> ar_capture_id r' = ar_capture_id r \<Longrightarrow> r' = r"
  shows "\<exists>rc f c. get_capture (ar_capture_id r) s = (Inr rc, s) \<and>
    decode_frame (ar_wire_frame r) = Inr f \<and> decode_capture_data (payload f) = Inr c \<and>
    record_of_capture (ar_wire_frame r) c rc \<and>
    get_capture_events (ar_capture_id r) s = (Inr (numbered_events (cd_events c)), s)"
proof -
  obtain f c rc where f: "decode_frame (ar_wire_frame r) = Inr f" "decode_capture_data (payload f) = Inr c"
    and ev: "capture_events_for_row s (ar_row_id r) = numbered_events (cd_events c)"
    and got: "capture_record_from_row s r (capture_events_for_row s (ar_row_id r)) = Inr rc"
      "record_of_capture (ar_wire_frame r) c rc"
    using row_reads_back [OF assms(1,2)] by metis
  note one = same_capture_id [OF assms]
  have "get_capture (ar_capture_id r) s = (Inr rc, s)" by (simp add: get_capture_def one(1) got(1))
  moreover have "get_capture_events (ar_capture_id r) s = (Inr (numbered_events (cd_events c)), s)"
    using ev by (simp add: get_capture_events_def capture_events_for_row_def one(2))
  ultimately show ?thesis using f got(2) by blast
qed

text \<open>C18 (roundtrip). An archived capture reads back as it was received. In every consistent store, looking up a capture
  by an identifier that names one row returns the frame byte for byte, with its CRC; every measured,
  timing and identity field of the record is the one that frame decodes to; the sample blob is the little-endian
  16-bit image of the frame's samples; and the events are the frame's events, numbered from 0.\<close>

theorem archived_capture_reads_back:
  assumes "store_inv s" and "r \<in> set (db_captures s)"
    and "\<And>r'. r' \<in> set (db_captures s) \<Longrightarrow> ar_capture_id r' = ar_capture_id r \<Longrightarrow> r' = r"
  shows "\<exists>rc f c. get_capture (ar_capture_id r) s = (Inr rc, s) \<and>
    decode_frame (ar_wire_frame r) = Inr f \<and> decode_capture_data (payload f) = Inr c \<and>
    record_of_capture (ar_wire_frame r) c rc \<and>
    get_capture_events (ar_capture_id r) s = (Inr (numbered_events (cd_events c)), s)"
  using capture_reads_back [OF assms] .

lemma tiny_archive:
  obtains s row where "store_inv s" "db_captures s = [row]" "ar_capture_id row = cd_capture_id tiny_capture"
    "ar_wire_frame row = bd_inner_frame tiny_delivery"
proof -
  obtain r s where c: "commit_delivery tiny_delivery ''SAVE_ALL'' None None new_store = (Inr r, s)"
    and n: "ccr_inserted r" "ccr_resolution r = RAW_ARCHIVED" "length (db_captures s) = 1"
    using tiny_commit by blast
  obtain row where row: "db_captures s = [row]" using n(3) by (auto simp: length_Suc_conv)
  obtain p u where "commit_in_connection tiny_delivery p u None tiny_frame tiny_capture new_store = (Inr r, s)"
    using commit_delivery_run [OF c] tiny_delivery_opens by (metis Pair_inject sum.inject(2))
  note e = commit_in_connection_effect(1,5) [OF new_store_inv tiny_delivery_opens this]
  show thesis using that [OF e(1) row] e(2) [OF n(1,2)] row by (simp add: ar_key_def cd_key_def)
qed

theorem archived_capture_reads_back_witness:
  "\<exists>s rc. get_capture (cd_capture_id tiny_capture) s = (Inr rc, s) \<and> rc_wire_frame rc = bd_inner_frame tiny_delivery"
proof -
  obtain s row where s: "store_inv s" "db_captures s = [row]" "ar_capture_id row = cd_capture_id tiny_capture"
    "ar_wire_frame row = bd_inner_frame tiny_delivery" by (rule tiny_archive)
  from archived_capture_reads_back [OF s(1), of row] s(2-) show ?thesis by (auto simp: record_of_capture_def)
qed

lemma find_keyed:
  assumes "distinct (map key xs)" "x \<in> set xs"
  shows "find (\<lambda>y. key y = key x) xs = Some x"
  using assms by (induction xs) auto

lemma capture_records_run:
  assumes "store_inv s" "set rows \<subseteq> set (db_captures s)"
  shows "\<exists>records. capture_records s rows = Inr records \<and>
    list_all2 (\<lambda>r rc. capture_record_from_row s r (capture_events_for_row s (ar_row_id r)) = Inr rc) rows records"
  using assms(2)
proof (induction rows)
  case (Cons r rows)
  then have "r \<in> set (db_captures s)" by simp
  then obtain rc where "capture_record_from_row s r (capture_events_for_row s (ar_row_id r)) = Inr rc"
    using row_reads_back [OF assms(1)] by metis
  with Cons show ?case by auto
qed simp

lemma group_members_in_order:
  "store_inv s \<Longrightarrow> sort_key ar_row_id (filter P (db_captures s)) = filter P (db_captures s)"
  by (rule sort_key_id_if_sorted) (auto simp: store_inv_def captures_inv_def strict_sorted_iff intro: sorted_filter)

text \<open>The record of an archived row in the export of its group: the capture its frame decodes to, with the names of the
  group and its experiment.\<close>

definition exported :: "GroupRow \<Rightarrow> ExperimentRow \<Rightarrow> ArchivedCapture \<Rightarrow> CaptureRecord \<Rightarrow> bool" where
  "exported g x r rc \<longleftrightarrow> (\<exists>f c. decode_frame (ar_wire_frame r) = Inr f \<and> decode_capture_data (payload f) = Inr c \<and>
     record_of_capture (ar_wire_frame r) c rc \<and> rc_capture_id rc = ar_capture_id r \<and> rc_group_id rc = Some (gr_group_id g) \<and>
     rc_group_name rc = Some (gr_name g) \<and> rc_experiment_id rc = Some (ex_experiment_id x) \<and>
     rc_experiment_name rc = Some (ex_name x))"

text \<open>Exporting a group of a consistent store never fails on its internal assertion and leaves nothing
  out: it returns the group with the number of its captures, the experiment it belongs to, and one record for
  every capture archived under the group, in archive order.\<close>

lemma group_export_run:
  assumes "store_inv s" and "grouping_inv s" and "g \<in> set (db_groups s)"
    and "validate_entity_id (gr_group_id g) = Inr (gr_group_id g)"
  obtains x records where "group_export_snapshot (gr_group_id g) s = (Inr (group_object s g, x, records), s)"
    "x \<in> set (db_experiments s)" "ex_experiment_id x = gr_experiment_id g"
    "list_all2 (exported g x) (filter (\<lambda>r. ar_group_id r = Some (gr_group_id g)) (db_captures s)) records"
proof -
  let ?rows = "filter (\<lambda>r. ar_group_id r = Some (gr_group_id g)) (db_captures s)"
  have inv: "distinct (map gr_group_id (db_groups s))" "distinct (map ex_experiment_id (db_experiments s))"
    "gr_experiment_id g \<in> ex_experiment_id ` set (db_experiments s)"
    using assms(2,3) by (auto simp: grouping_inv_def grouping_ok_def)
  have g: "find (\<lambda>h. gr_group_id h = gr_group_id g) (db_groups s) = Some g"
    by (rule find_keyed [OF inv(1) assms(3)])
  obtain x where x: "x \<in> set (db_experiments s)" "ex_experiment_id x = gr_experiment_id g" using inv(3) by auto
  have e: "experiment_of s g = Some x" unfolding experiment_of_def using find_keyed [OF inv(2) x(1)] x(2) by simp
  have sub: "set ?rows \<subseteq> set (db_captures s)" by auto
  obtain records where r: "capture_records s ?rows = Inr records"
    "list_all2 (\<lambda>r rc. capture_record_from_row s r (capture_events_for_row s (ar_row_id r)) = Inr rc) ?rows records"
    using capture_records_run [OF assms(1) sub] by blast
  have "group_export_snapshot (gr_group_id g) s = (Inr (group_object s g, x, records), s)"
    by (simp add: group_export_snapshot_def assms(4) g e group_members_in_order [OF assms(1)] r(1))
  moreover have "list_all2 (exported g x) ?rows records"
    using r(2)
  proof (rule list.rel_mono_strong)
    fix r rc assume in_rows: "r \<in> set ?rows" and rc: "capture_record_from_row s r (capture_events_for_row s (ar_row_id r)) = Inr rc"
    then have gr: "group_of s r = Some g" "ar_group_id r = Some (gr_group_id g)" by (simp_all add: group_of_def g)
    have "r \<in> set (db_captures s)" using in_rows by simp
    from row_reads_back [OF assms(1) this] obtain f c rec where
      "decode_frame (ar_wire_frame r) = Inr f" "decode_capture_data (payload f) = Inr c" "ar_key r = cd_key c"
      "capture_record_from_row s r (capture_events_for_row s (ar_row_id r)) = Inr rec"
      "record_of_capture (ar_wire_frame r) c rec" "rc_group_id rec = ar_group_id r"
      "rc_experiment_id rec = map_option gr_experiment_id (group_of s r)"
      "rc_group_name rec = map_option gr_name (group_of s r)"
      "rc_experiment_name rec = map_option ex_name (Option.bind (group_of s r) (experiment_of s))"
      by metis
    then show "exported g x r rc"
      using rc gr e x(2) by (auto simp: exported_def ar_key_def cd_key_def record_of_capture_def)
  qed
  ultimately show thesis using that x by blast
qed

definition demo_experiment :: ExperimentRow where
  "demo_experiment = \<lparr>ex_experiment_id = replicate 32 (CHR ''e''), ex_name = ''steel'', ex_notes = [],
     ex_created_utc_ns = 1, ex_updated_utc_ns = 1\<rparr>"

definition demo_group :: GroupRow where
  "demo_group = \<lparr>gr_group_id = replicate 32 (CHR ''a''), gr_experiment_id = replicate 32 (CHR ''e''), gr_name = ''A1'',
     gr_cell_id = [], gr_notes = [], gr_created_utc_ns = 2, gr_updated_utc_ns = 2\<rparr>"

end
