(* ===== verification/Meth_Logic.thy ===== *)
theory Meth_Logic
  imports Usac_Prelude
begin

text \<open>
  Weakest preconditions for methods that mutate an object and may raise: \<open>wp m Q E s\<close> says that a run of
  \<open>m\<close> from \<open>s\<close> ends in \<open>Q\<close> when it returns and in \<open>E\<close> when it raises. The rules for the combinators
  are equations, so the simplifier walks through a method and leaves the calls whose effect is known
  only through a contract; \<open>wp_call\<close> and \<open>wp_mono\<close> close those.
\<close>

definition wp :: "('s, 'a) meth \<Rightarrow> ('a \<Rightarrow> 's \<Rightarrow> bool) \<Rightarrow> (exn \<Rightarrow> 's \<Rightarrow> bool) \<Rightarrow> 's \<Rightarrow> bool" where
  "wp m Q E s \<longleftrightarrow> (case m s of (Inr x, s') \<Rightarrow> Q x s' | (Inl e, s') \<Rightarrow> E e s')"

named_theorems wp_simps \<open>weakest preconditions of the method combinators\<close>

lemma wp_mret [wp_simps]: "wp (mret x) Q E s \<longleftrightarrow> Q x s"
  by (simp add: wp_def)

lemma wp_mraise [wp_simps]: "wp (mraise e) Q E s \<longleftrightarrow> E e s"
  by (simp add: wp_def)

lemma wp_mlift [wp_simps]: "wp (mlift r) Q E s \<longleftrightarrow> (case r of Inl e \<Rightarrow> E e s | Inr x \<Rightarrow> Q x s)"
  by (simp add: wp_def split: sum.splits)

lemma wp_mget [wp_simps]: "wp mget Q E s \<longleftrightarrow> Q s s"
  by (simp add: wp_def)

lemma wp_mupd [wp_simps]: "wp (mupd g) Q E s \<longleftrightarrow> Q () (g s)"
  by (simp add: wp_def)

lemma wp_mguard [wp_simps]: "wp (mguard b e) Q E s \<longleftrightarrow> (if b then Q () s else E e s)"
  by (simp add: wp_def mguard_run)

lemma wp_Pair [wp_simps]: "wp (Pair r) Q E s \<longleftrightarrow> (case r of Inl e \<Rightarrow> E e s | Inr x \<Rightarrow> Q x s)"
  by (simp add: wp_def split: sum.splits)

lemma wp_mbind [wp_simps]: "wp (mbind m f) Q E s \<longleftrightarrow> wp m (\<lambda>x. wp (f x) Q E) E s"
  by (simp add: wp_def mbind_run split: prod.splits sum.splits)

lemma wp_mcatch [wp_simps]: "wp (mcatch m h) Q E s \<longleftrightarrow> wp m Q (\<lambda>e. wp (h e) Q E) s"
  by (simp add: wp_def mcatch_run split: prod.splits sum.splits)

lemma wp_mfinally [wp_simps]:
  "wp (mfinally m c) Q E s \<longleftrightarrow> wp m (\<lambda>x. wp c (\<lambda>_. Q x) E) (\<lambda>e. wp c (\<lambda>_. E e) E) s"
  by (simp add: wp_def mfinally_run split: prod.splits sum.splits)

lemma wp_mzoom [wp_simps]:
  "wp (mzoom part put m) Q E s \<longleftrightarrow> wp m (\<lambda>x p. Q x (put p s)) (\<lambda>e p. E e (put p s)) (part s)"
  by (simp add: wp_def mzoom_def split: prod.splits sum.splits)

lemma wp_if [wp_simps]: "wp (if b then m else m') Q E s \<longleftrightarrow> (if b then wp m Q E s else wp m' Q E s)"
  by simp

lemma wp_option [wp_simps]:
  "wp (case v of None \<Rightarrow> m | Some x \<Rightarrow> f x) Q E s \<longleftrightarrow> (case v of None \<Rightarrow> wp m Q E s | Some x \<Rightarrow> wp (f x) Q E s)"
  by (simp split: option.split)

lemma wp_mono:
  assumes "wp m Q E s" "\<And>x s'. Q x s' \<Longrightarrow> Q' x s'" "\<And>e s'. E e s' \<Longrightarrow> E' e s'"
  shows "wp m Q' E' s"
  using assms by (auto simp: wp_def split: prod.splits sum.splits)

lemma wp_bindI:
  assumes "wp m R E s" "\<And>x s'. R x s' \<Longrightarrow> wp (f x) Q E s'"
  shows "wp (mbind m f) Q E s"
  unfolding wp_mbind by (rule wp_mono [OF assms(1)]) (auto intro: assms(2))

lemma wp_True [wp_simps]: "wp m (\<lambda>_ _. True) (\<lambda>_ _. True) = (\<lambda>_. True)"
  by (rule ext) (simp add: wp_def split: prod.split sum.split)

lemma wp_conj: "wp m Q E s \<Longrightarrow> wp m Q' E' s \<Longrightarrow> wp m (\<lambda>x s. Q x s \<and> Q' x s) (\<lambda>e s. E e s \<and> E' e s) s"
  by (auto simp: wp_def split: prod.splits sum.splits)

lemma wp_outcome:
  "wp m Q E s \<longleftrightarrow> (\<forall>x s'. m s = (Inr x, s') \<longrightarrow> Q x s') \<and> (\<forall>e s'. m s = (Inl e, s') \<longrightarrow> E e s')"
  by (auto simp: wp_def split: prod.splits sum.splits)

lemma wp_returnsD: "wp m Q E s \<Longrightarrow> m s = (Inr x, s') \<Longrightarrow> Q x s'"
  by (simp add: wp_def)

lemma wp_raisesD: "wp m Q E s \<Longrightarrow> m s = (Inl e, s') \<Longrightarrow> E e s'"
  by (simp add: wp_def)

text \<open>A call that is only known to keep an invariant.\<close>

lemma keeps_iff_wp: "keeps I m \<longleftrightarrow> (\<forall>s. I s \<longrightarrow> wp m (\<lambda>_. I) (\<lambda>_. I) s)"
proof -
  have "I (snd (m s)) \<longleftrightarrow> wp m (\<lambda>_. I) (\<lambda>_. I) s" for s
    by (cases "m s"; cases "fst (m s)") (auto simp: wp_def)
  then show ?thesis by (simp add: keeps_def)
qed

lemma keepsI_wp: "(\<And>s. I s \<Longrightarrow> wp m (\<lambda>_. I) (\<lambda>_. I) s) \<Longrightarrow> keeps I m"
  by (simp add: keeps_iff_wp)

lemma wp_call:
  assumes "keeps I m" "I s" "\<And>x s'. I s' \<Longrightarrow> Q x s'" "\<And>e s'. I s' \<Longrightarrow> E e s'"
  shows "wp m Q E s"
  using assms(1,2) unfolding keeps_iff_wp by (blast intro: wp_mono assms(3,4))

text \<open>A loop keeps what its body keeps.\<close>

lemma wp_mfor:
  assumes "\<And>x s. x \<in> set xs \<Longrightarrow> I s \<Longrightarrow> wp (f x) (\<lambda>_. I) E s" "I s"
  shows "wp (mfor f xs) (\<lambda>_. I) E s"
  using assms
proof (induction xs arbitrary: s)
  case (Cons x xs)
  then show ?case by (auto simp: wp_simps intro!: wp_mono [OF Cons.prems(1)])
next
  case Nil
  then show ?case by (simp add: wp_simps)
qed

end
