(* ===== verification/Device_Executor.thy ===== *)
theory Device_Executor
  imports Run_Plan Simulated_Client Bridge_Messages Meth_Logic
begin

text \<open>
  The per-device command executor (\<open>device_executor.py\<close>). A device client is a record of operations
  over a client state; the executor owns that state, the published configuration snapshot and the
  last confirmed configuration. Every public operation holds one lock from its first to its last
  step, so an operation is one function on the executor state. A callback that runs under the lock
  (\<open>on_capture\<close>, \<open>sleep\<close>, \<open>cancelled\<close>) is a method on the client state, because the callbacks of the
  application reach the device, the store and the stop request of another thread. Clock readings are arguments.
\<close>

section \<open>The device boundary\<close>

record 'c DeviceClient =
  dc_published_session :: "'c \<Rightarrow> PublishedDeviceSession"
  dc_apply_config :: "AcquisitionConfigV2 \<Rightarrow> ('c, DeviceReadback) meth"
  dc_capture_once :: "AcquisitionConfigV2 \<Rightarrow> string \<Rightarrow> int \<Rightarrow> ('c, CaptureData) meth"
  dc_capabilities :: "('c, CapabilitiesResponse) meth"
  dc_status :: "('c, StatusResponse) meth"
  dc_start_periodic :: "HostPeriodicSchedule \<Rightarrow> ('c, unit) meth"
  dc_renew_periodic :: "LeaseRenewal \<Rightarrow> ('c, LeaseRenewal) meth"
  dc_stop_periodic :: "bytes \<Rightarrow> ('c, unit) meth"
  dc_poll_captures :: "('c, CaptureData list) meth"
  dc_capture_delivery :: "bytes \<Rightarrow> ('c, BridgeCaptureDelivery option) meth"
  dc_capture_wire_frame :: "bytes \<Rightarrow> ('c, bytes) meth"
  dc_confirm_capture :: "CaptureCommittedRequest \<Rightarrow> ('c, unit) meth"
  dc_release_capture :: "bytes \<Rightarrow> ('c, unit) meth"

record ExecutedCapture =
  xp_capture :: CaptureData
  xp_sweep_index :: "int option"
  xp_loop_index :: int
  xp_snapshot :: ConfigurationSnapshot

record DeviceViewSnapshot =
  dv_session :: PublishedDeviceSession
  dv_status :: "StatusResponse option"
  dv_capabilities :: "CapabilitiesResponse option"
  dv_diagnostics_observed_utc_ns :: "int option"

text \<open>A view of a session nothing is known about yet.\<close>

definition bare_view :: "PublishedDeviceSession \<Rightarrow> DeviceViewSnapshot" where
  "bare_view published = \<lparr>dv_session = published, dv_status = None, dv_capabilities = None,
     dv_diagnostics_observed_utc_ns = None\<rparr>"

record 'c SingleDeviceExecutor =
  xc_client :: 'c
  xc_snapshot :: ConfigurationSnapshot
  xc_applied_config :: "AcquisitionConfigV2 option"
  xc_session_generation :: int
  xc_device_view :: DeviceViewSnapshot

type_synonym ('c, 'a) xc = "('c SingleDeviceExecutor, 'a) meth"

text \<open>A call on \<open>self._client\<close>, or a callback.\<close>

definition on_xc_client :: "('c, 'a) meth \<Rightarrow> ('c, 'a) xc" where
  "on_xc_client = mzoom xc_client (\<lambda>c s. s\<lparr>xc_client := c\<rparr>)"

text \<open>
  The clients of this package publish a session object, so \<open>_published_session\<close> is that attribute;
  the attribute-by-attribute fallback for older test doubles is not modelled.
\<close>

definition published_session :: "'c DeviceClient \<Rightarrow> 'c SingleDeviceExecutor \<Rightarrow> PublishedDeviceSession" where
  "published_session cl s = dc_published_session cl (xc_client s)"

definition new_executor :: "ParameterService \<Rightarrow> 'c DeviceClient \<Rightarrow> 'c \<Rightarrow> 'c SingleDeviceExecutor res" where
  "new_executor svc cl c =
     rbind (new_draft svc) (\<lambda>snapshot.
     Inr \<lparr>xc_client = c, xc_snapshot = snapshot, xc_applied_config = None,
          xc_session_generation = pub_session_generation (dc_published_session cl c),
          xc_device_view = bare_view (dc_published_session cl c)\<rparr>)"

definition merge_published_session :: "DeviceViewSnapshot \<Rightarrow> PublishedDeviceSession \<Rightarrow> DeviceViewSnapshot" where
  "merge_published_session current published =
     (if dv_session current = published then current else bare_view published)"

definition refresh_session :: "ParameterService \<Rightarrow> 'c DeviceClient \<Rightarrow> ('c, unit) xc" where
  "refresh_session svc cl =
     mbind mget (\<lambda>s.
     let generation = pub_session_generation (published_session cl s) in
     if generation = xc_session_generation s then mret ()
     else
       mbind (mlift (update_draft svc (xc_snapshot s) [])) (\<lambda>draft.
       mupd (\<lambda>s. s\<lparr>xc_snapshot := draft, xc_applied_config := None, xc_session_generation := generation\<rparr>)))"

section \<open>Configuration\<close>

definition executor_snapshot :: "ParameterService \<Rightarrow> 'c DeviceClient \<Rightarrow> ('c, ConfigurationSnapshot) xc" where
  "executor_snapshot svc cl =
     mbind (refresh_session svc cl) (\<lambda>_. mbind mget (\<lambda>s. mret (xc_snapshot s)))"

definition executor_update_draft ::
  "ParameterService \<Rightarrow> 'c DeviceClient \<Rightarrow> pyobj dict \<Rightarrow> ('c, ConfigurationSnapshot) xc" where
  "executor_update_draft svc cl changes =
     mbind (refresh_session svc cl) (\<lambda>_.
     mbind mget (\<lambda>s.
     mbind (mlift (update_draft svc (xc_snapshot s) changes)) (\<lambda>draft.
     mbind (mupd (\<lambda>s. s\<lparr>xc_snapshot := draft\<rparr>)) (\<lambda>_.
     mret draft))))"

definition preview_changes ::
  "ParameterService \<Rightarrow> 'c DeviceClient \<Rightarrow> pyobj dict \<Rightarrow> ('c, ValidationResult) xc" where
  "preview_changes svc cl changes =
     mbind (refresh_session svc cl) (\<lambda>_.
     mbind mget (\<lambda>s.
     mbind (mlift (update_draft svc (xc_snapshot s) changes)) (\<lambda>target.
     mlift (validate_snapshot svc target))))"

definition etag_of :: "AcquisitionConfigV2 option \<Rightarrow> string" where
  "etag_of applied =
     CHR 0x22 # (case applied of Some c \<Rightarrow> py_hex (profile_sha256 c) | None \<Rightarrow> replicate 64 (CHR ''0'')) @ [CHR 0x22]"

definition applied_etag :: "ParameterService \<Rightarrow> 'c DeviceClient \<Rightarrow> ('c, string) xc" where
  "applied_etag svc cl =
     mbind (refresh_session svc cl) (\<lambda>_. mbind mget (\<lambda>s. mret (etag_of (xc_applied_config s))))"

definition apply_validated ::
  "ParameterService \<Rightarrow> 'c DeviceClient \<Rightarrow> ConfigurationSnapshot \<Rightarrow> AcquisitionConfigV2
     \<Rightarrow> ('c, ConfigurationSnapshot) xc" where
  "apply_validated svc cl snapshot config =
     mbind (on_xc_client (dc_apply_config cl config)) (\<lambda>readback.
     mbind (mlift (mark_applied svc snapshot (rb_config readback))) (\<lambda>applied.
     mbind (mupd (\<lambda>s. s\<lparr>xc_applied_config := Some config,
       xc_session_generation := pub_session_generation (published_session cl s),
       xc_snapshot := applied\<rparr>)) (\<lambda>_.
     mret applied)))"

text \<open>\<open>if result.errors or result.compiled is None: raise ConfigValidationError(...)\<close>\<close>

definition require_compiled :: "ValidationResult \<Rightarrow> AcquisitionConfigV2 res" where
  "require_compiled result =
     (case vr_compiled result of
        None \<Rightarrow> Inl ConfigValidationError
      | Some compiled \<Rightarrow> if vr_errors result \<noteq> [] then Inl ConfigValidationError else Inr compiled)"

definition apply_changes ::
  "ParameterService \<Rightarrow> 'c DeviceClient \<Rightarrow> pyobj dict \<Rightarrow> ('c, ConfigurationSnapshot) xc" where
  "apply_changes svc cl changes =
     mbind (refresh_session svc cl) (\<lambda>_.
     mbind mget (\<lambda>s.
     mbind (mlift (update_draft svc (xc_snapshot s) changes)) (\<lambda>target.
     mbind (mlift (validate_snapshot svc target)) (\<lambda>result.
     mbind (mlift (require_compiled result)) (\<lambda>compiled.
     apply_validated svc cl (vr_snapshot result) compiled)))))"

definition executor_validated_target :: "ParameterService \<Rightarrow> 'c DeviceClient \<Rightarrow> ('c, AcquisitionConfigV2) xc" where
  "executor_validated_target svc cl =
     mbind (refresh_session svc cl) (\<lambda>_.
     mbind mget (\<lambda>s.
     mbind (mlift (validate_snapshot svc (xc_snapshot s))) (\<lambda>result.
     mlift (require_compiled result))))"

definition apply_draft :: "ParameterService \<Rightarrow> 'c DeviceClient \<Rightarrow> ('c, ConfigurationSnapshot) xc" where
  "apply_draft svc cl =
     mbind (refresh_session svc cl) (\<lambda>_.
     mbind mget (\<lambda>s.
     mbind (mlift (validate_snapshot svc (xc_snapshot s))) (\<lambda>result.
     mbind (mlift (require_compiled result)) (\<lambda>compiled.
     apply_validated svc cl (vr_snapshot result) compiled))))"

section \<open>Captures\<close>

definition validate_trigger :: "string \<Rightarrow> int \<Rightarrow> unit res" where
  "validate_trigger trigger_source sync_timeout_ms =
     (if trigger_source \<notin> {''SOFTWARE'', ''EXTERNAL_SYNC_SLAVE'', ''EXTERNAL_SYNC_MASTER''} then Inl ValueError
      else if trigger_source = ''EXTERNAL_SYNC_SLAVE'' then
        (if \<not> (1 \<le> sync_timeout_ms \<and> sync_timeout_ms \<le> 60000) then Inl ValueError else Inr ())
      else if sync_timeout_ms \<noteq> 0 then Inl ValueError
      else Inr ())"

text \<open>The check returns the configuration it found, which the callers use next.\<close>

definition require_applied_identity_unlocked :: "string \<Rightarrow> int \<Rightarrow> ('c, AcquisitionConfigV2) xc" where
  "require_applied_identity_unlocked profile crc =
     mbind mget (\<lambda>s.
     if cs_state (xc_snapshot s) \<noteq> APPLIED then mraise ConfigConflictError
     else case xc_applied_config s of
       None \<Rightarrow> mraise ConfigConflictError
     | Some config \<Rightarrow>
         if py_hex (profile_sha256 config) \<noteq> profile then mraise ConfigConflictError
         else if device_config_crc32 config \<noteq> crc then mraise ConfigConflictError
         else mret config)"

definition require_applied_identity ::
  "ParameterService \<Rightarrow> 'c DeviceClient \<Rightarrow> string \<Rightarrow> int \<Rightarrow> ('c, unit) xc" where
  "require_applied_identity svc cl profile crc =
     mbind (refresh_session svc cl) (\<lambda>_.
     mbind (require_applied_identity_unlocked profile crc) (\<lambda>_. mret ()))"

text \<open>\<open>_deep_snapshot\<close> copies the mutable values of the snapshot; values of the model are never shared.\<close>

definition deep_snapshot :: "ConfigurationSnapshot \<Rightarrow> ConfigurationSnapshot" where
  "deep_snapshot snapshot = \<lparr>cs_state = cs_state snapshot, cs_requested = cs_requested snapshot,
     cs_actual = cs_actual snapshot, cs_readback = cs_readback snapshot\<rparr>"

definition executor_capture_once ::
  "ParameterService \<Rightarrow> 'c DeviceClient \<Rightarrow> string \<Rightarrow> int \<Rightarrow> string \<Rightarrow> int
     \<Rightarrow> (ExecutedCapture \<Rightarrow> ('c, 'a) meth) \<Rightarrow> ('c, 'a) xc" where
  "executor_capture_once svc cl profile crc trigger_source sync_timeout_ms on_capture =
     mbind (refresh_session svc cl) (\<lambda>_.
     mbind (require_applied_identity_unlocked profile crc) (\<lambda>config.
     mbind (mlift (validate_trigger trigger_source sync_timeout_ms)) (\<lambda>_.
     mbind (on_xc_client (dc_capture_once cl config trigger_source sync_timeout_ms)) (\<lambda>capture.
     mbind mget (\<lambda>s.
     on_xc_client (on_capture \<lparr>xp_capture = capture, xp_sweep_index = None, xp_loop_index = 0,
       xp_snapshot = deep_snapshot (xc_snapshot s)\<rparr>))))))"

section \<open>Diagnostics\<close>

definition executor_capabilities :: "ParameterService \<Rightarrow> 'c DeviceClient \<Rightarrow> ('c, CapabilitiesResponse) xc" where
  "executor_capabilities svc cl =
     mbind (refresh_session svc cl) (\<lambda>_.
     mbind (on_xc_client (dc_capabilities cl)) (\<lambda>capabilities.
     mbind (mupd (\<lambda>s. s\<lparr>xc_device_view := \<lparr>dv_session = published_session cl s,
       dv_status = dv_status (xc_device_view s), dv_capabilities = Some capabilities,
       dv_diagnostics_observed_utc_ns = dv_diagnostics_observed_utc_ns (xc_device_view s)\<rparr>\<rparr>)) (\<lambda>_.
     mret capabilities)))"

definition executor_status :: "ParameterService \<Rightarrow> 'c DeviceClient \<Rightarrow> int \<Rightarrow> ('c, StatusResponse) xc" where
  "executor_status svc cl now_ns =
     mbind (refresh_session svc cl) (\<lambda>_.
     mbind (on_xc_client (dc_status cl)) (\<lambda>status.
     mbind (mupd (\<lambda>s. s\<lparr>xc_device_view := \<lparr>dv_session = published_session cl s, dv_status = Some status,
       dv_capabilities = dv_capabilities (xc_device_view s),
       dv_diagnostics_observed_utc_ns = Some now_ns\<rparr>\<rparr>)) (\<lambda>_.
     mret status)))"

definition set_view :: "DeviceViewSnapshot \<Rightarrow> ('c, DeviceViewSnapshot) xc" where
  "set_view view = mbind (mupd (\<lambda>s. s\<lparr>xc_device_view := view\<rparr>)) (\<lambda>_. mret view)"

definition merge_view :: "'c DeviceClient \<Rightarrow> ('c, DeviceViewSnapshot) xc" where
  "merge_view cl = mbind mget (\<lambda>s.
     set_view (merge_published_session (xc_device_view s) (published_session cl s)))"

text \<open>The part of \<open>try_device_view\<close> that runs when the lock could be taken at once.\<close>

definition refresh_view :: "ParameterService \<Rightarrow> 'c DeviceClient \<Rightarrow> int \<Rightarrow> ('c, DeviceViewSnapshot) xc" where
  "refresh_view svc cl now_ns =
     mbind (refresh_session svc cl) (\<lambda>_.
     mbind (merge_view cl) (\<lambda>view.
     mbind mget (\<lambda>s.
     let published = published_session cl s in
     if \<not> pub_connected published then mret view
     else
       mbind (on_xc_client (dc_status cl)) (\<lambda>status.
       mbind (on_xc_client (dc_capabilities cl)) (\<lambda>capabilities.
       set_view \<lparr>dv_session = published, dv_status = Some status, dv_capabilities = Some capabilities,
         dv_diagnostics_observed_utc_ns = Some now_ns\<rparr>)))))"

definition try_device_view ::
  "ParameterService \<Rightarrow> 'c DeviceClient \<Rightarrow> bool \<Rightarrow> bool \<Rightarrow> int \<Rightarrow> ('c, DeviceViewSnapshot) xc" where
  "try_device_view svc cl refresh lock_free now_ns =
     mbind (merge_view cl) (\<lambda>view.
     if \<not> refresh \<or> \<not> lock_free then mret view
     else mcatch (refresh_view svc cl now_ns) (\<lambda>e.
       if e = DeviceUnavailable then mbind mget (\<lambda>s. set_view (bare_view (published_session cl s)))
       else mraise e))"

section \<open>Periodic schedules\<close>

definition executor_start_periodic ::
  "ParameterService \<Rightarrow> 'c DeviceClient \<Rightarrow> HostPeriodicSchedule \<Rightarrow> ('c, unit) xc" where
  "executor_start_periodic svc cl schedule =
     mbind (refresh_session svc cl) (\<lambda>_.
     mbind (require_applied_identity_unlocked (py_hex (sch_profile_sha256 schedule))
              (sch_device_config_crc32 schedule)) (\<lambda>_.
     on_xc_client (dc_start_periodic cl schedule)))"

definition executor_renew_periodic ::
  "ParameterService \<Rightarrow> 'c DeviceClient \<Rightarrow> LeaseRenewal \<Rightarrow> ('c, LeaseRenewal) xc" where
  "executor_renew_periodic svc cl renewal =
     mbind (refresh_session svc cl) (\<lambda>_. on_xc_client (dc_renew_periodic cl renewal))"

definition executor_stop_periodic :: "ParameterService \<Rightarrow> 'c DeviceClient \<Rightarrow> bytes \<Rightarrow> ('c, unit) xc" where
  "executor_stop_periodic svc cl schedule_id =
     mbind (refresh_session svc cl) (\<lambda>_. on_xc_client (dc_stop_periodic cl schedule_id))"

definition executor_poll_captures ::
  "ParameterService \<Rightarrow> 'c DeviceClient \<Rightarrow> (CaptureData \<Rightarrow> ('c, unit) meth) option \<Rightarrow> ('c, CaptureData list) xc" where
  "executor_poll_captures svc cl on_capture =
     mbind (refresh_session svc cl) (\<lambda>_.
     mbind (on_xc_client (dc_poll_captures cl)) (\<lambda>captures.
     mbind (case on_capture of
              None \<Rightarrow> mret ()
            | Some f \<Rightarrow> mfor (\<lambda>capture. on_xc_client (f capture)) captures) (\<lambda>_.
     mret captures)))"

section \<open>Run plans\<close>

text \<open>What the caller passes to \<open>execute_run_plan\<close>; \<open>pe_sleep\<close> gets milliseconds.\<close>

record 'c PlanEnvironment =
  pe_sleep :: "int \<Rightarrow> ('c, unit) meth"
  pe_cancelled :: "('c, bool) meth"
  pe_on_capture :: "(ExecutedCapture \<Rightarrow> ('c, unit) meth) option"

text \<open>\<open>compile_run_steps\<close> has checked that the delays and the loop count of the plan are integers.\<close>

definition plan_int :: "pyobj \<Rightarrow> int" where
  "plan_int v = (case v of OInt i \<Rightarrow> i | _ \<Rightarrow> 0)"

definition plan_step ::
  "ParameterService \<Rightarrow> 'c DeviceClient \<Rightarrow> 'c PlanEnvironment \<Rightarrow> RunPlanV1 \<Rightarrow> RunStep \<Rightarrow> ('c, ExecutedCapture) xc" where
  "plan_step svc cl env plan step =
     mbind (on_xc_client (pe_cancelled env)) (\<lambda>stopped.
     mbind (mguard (\<not> stopped) RuntimeError) (\<lambda>_.
     mbind mget (\<lambda>s.
     mbind (if xc_applied_config s \<noteq> Some (st_compiled step)
            then apply_validated svc cl (st_snapshot step) (st_compiled step)
            else mret (xc_snapshot s)) (\<lambda>capture_snapshot.
     mbind (on_xc_client (dc_capture_once cl (st_compiled step) (rp_trigger_source plan)
              (rp_sync_timeout_ms plan))) (\<lambda>capture.
     let result = \<lparr>xp_capture = capture, xp_sweep_index = st_sweep_index step,
           xp_loop_index = st_loop_index step, xp_snapshot = capture_snapshot\<rparr> in
     mbind (case pe_on_capture env of None \<Rightarrow> mret () | Some f \<Rightarrow> on_xc_client (f result)) (\<lambda>_.
     mbind (if plan_int (rp_loop_delay_ms plan) \<noteq> 0 \<and> st_loop_index step + 1 < plan_int (rp_loops plan)
            then on_xc_client (pe_sleep env (plan_int (rp_loop_delay_ms plan))) else mret ()) (\<lambda>_.
     mret result)))))))"

fun plan_steps ::
  "ParameterService \<Rightarrow> 'c DeviceClient \<Rightarrow> 'c PlanEnvironment \<Rightarrow> RunPlanV1 \<Rightarrow> RunStep list
     \<Rightarrow> ('c, ExecutedCapture list) xc" where
  "plan_steps svc cl env plan [] = mret []"
| "plan_steps svc cl env plan (step # steps) =
     mbind (plan_step svc cl env plan step) (\<lambda>result.
     mbind (plan_steps svc cl env plan steps) (\<lambda>rest. mret (result # rest)))"

definition restore_baseline ::
  "ParameterService \<Rightarrow> 'c DeviceClient \<Rightarrow> ConfigurationSnapshot \<Rightarrow> AcquisitionConfigV2 \<Rightarrow> ('c, unit) xc" where
  "restore_baseline svc cl baseline_snapshot baseline_config =
     mbind mget (\<lambda>s.
     if xc_applied_config s = Some baseline_config then mret ()
     else
       mbind (mlift (validate_snapshot svc baseline_snapshot)) (\<lambda>baseline.
       mbind (mlift (require_compiled baseline)) (\<lambda>compiled.
       mbind (apply_validated svc cl (vr_snapshot baseline) compiled) (\<lambda>_. mret ()))))"

definition execute_run_plan ::
  "ParameterService \<Rightarrow> 'c DeviceClient \<Rightarrow> 'c PlanEnvironment \<Rightarrow> RunPlanV1 \<Rightarrow> ('c, ExecutedCapture list) xc" where
  "execute_run_plan svc cl env plan =
     mbind (refresh_session svc cl) (\<lambda>_.
     mbind mget (\<lambda>s.
     if cs_state (xc_snapshot s) \<noteq> APPLIED then mraise ConfigConflictError
     else case xc_applied_config s of
       None \<Rightarrow> mraise ConfigConflictError
     | Some baseline_config \<Rightarrow>
         mbind (mlift (compile_run_steps svc (xc_snapshot s) plan)) (\<lambda>steps.
         mbind (if plan_int (rp_start_delay_ms plan) \<noteq> 0
                then on_xc_client (pe_sleep env (plan_int (rp_start_delay_ms plan))) else mret ()) (\<lambda>_.
         mbind (mfinally (plan_steps svc cl env plan (steps_iter steps))
                  (restore_baseline svc cl (xc_snapshot s) baseline_config)) (\<lambda>results.
         mret (case pe_on_capture env of None \<Rightarrow> results | Some _ \<Rightarrow> []))))))"

section \<open>The simulated device as a client\<close>

text \<open>
  Successive calls read the clock at successive instants: call number \<open>n\<close> sees \<open>clock n\<close>. The session of a
  client that has not finished its constructor is the one the executor's fallback reads off its attributes.
\<close>

definition clocked ::
  "(nat \<Rightarrow> int) \<Rightarrow> (int \<Rightarrow> 'a scl) \<Rightarrow> (SimulatedDeviceClient \<times> nat, 'a) meth" where
  "clocked clock m = (\<lambda>(c, n). case m (clock n) c of (r, c') \<Rightarrow> (r, (c', Suc n)))"

definition sim_published_session :: "SimulatedDeviceClient \<Rightarrow> PublishedDeviceSession" where
  "sim_published_session c =
     (case scl_published_session c of
        Some p \<Rightarrow> p
      | None \<Rightarrow> \<lparr>pub_connected = True, pub_backend = ''SIMULATOR'', pub_session_generation = 0,
          pub_hello = scl_hello c, pub_device_id = scl_device_id c, pub_boot_id = scl_boot_id c\<rparr>)"

definition client_capture_delivery :: "bytes \<Rightarrow> BridgeCaptureDelivery option scl" where
  "client_capture_delivery capture_id =
     mbind mget (\<lambda>c. mbind (mguard (scl_capture_wire_frames c capture_id \<noteq> None) KeyError) (\<lambda>_. mret None))"

definition client_confirm_capture :: "CaptureCommittedRequest \<Rightarrow> unit scl" where
  "client_confirm_capture receipt = mret ()"

definition sim_device_client :: "(nat \<Rightarrow> int) \<Rightarrow> (SimulatedDeviceClient \<times> nat) DeviceClient" where
  "sim_device_client clock = \<lparr>dc_published_session = (\<lambda>(c, _). sim_published_session c),
     dc_apply_config = (\<lambda>config. clocked clock (\<lambda>t. client_apply_config t config)),
     dc_capture_once = (\<lambda>config src ms. clocked clock (\<lambda>t. client_capture_once t config src ms)),
     dc_capabilities = clocked clock client_capabilities,
     dc_status = clocked clock client_status,
     dc_start_periodic = (\<lambda>sch. clocked clock (\<lambda>t. client_start_periodic t sch)),
     dc_renew_periodic = (\<lambda>r. clocked clock (\<lambda>t. client_renew_periodic t r)),
     dc_stop_periodic = (\<lambda>i. clocked clock (\<lambda>t. client_stop_periodic t i)),
     dc_poll_captures = clocked clock client_poll_captures,
     dc_capture_delivery = (\<lambda>i. clocked clock (\<lambda>_. client_capture_delivery i)),
     dc_capture_wire_frame = (\<lambda>i. clocked clock (\<lambda>_. client_capture_wire_frame i)),
     dc_confirm_capture = (\<lambda>r. clocked clock (\<lambda>_. client_confirm_capture r)),
     dc_release_capture = (\<lambda>i. clocked clock (\<lambda>_. client_release_capture i))\<rparr>"

section \<open>Sequences of operations\<close>

text \<open>Any interface calls these operations in any order; what an operation returns does not matter here.\<close>

datatype 'c executor_op =
    OpSnapshot
  | OpUpdateDraft "pyobj dict"
  | OpPreviewChanges "pyobj dict"
  | OpAppliedEtag
  | OpApplyChanges "pyobj dict"
  | OpValidatedTarget
  | OpApplyDraft
  | OpCaptureOnce string int string int "ExecutedCapture \<Rightarrow> ('c, unit) meth"
  | OpCapabilities
  | OpStatus int
  | OpDeviceView bool bool int
  | OpStartPeriodic HostPeriodicSchedule
  | OpRenewPeriodic LeaseRenewal
  | OpStopPeriodic bytes
  | OpPollCaptures "(CaptureData \<Rightarrow> ('c, unit) meth) option"
  | OpRequireIdentity string int
  | OpRunPlan "'c PlanEnvironment" RunPlanV1

fun run_op :: "ParameterService \<Rightarrow> 'c DeviceClient \<Rightarrow> 'c executor_op \<Rightarrow> 'c SingleDeviceExecutor \<Rightarrow> 'c SingleDeviceExecutor" where
  "run_op svc cl OpSnapshot s = snd (executor_snapshot svc cl s)"
| "run_op svc cl (OpUpdateDraft changes) s = snd (executor_update_draft svc cl changes s)"
| "run_op svc cl (OpPreviewChanges changes) s = snd (preview_changes svc cl changes s)"
| "run_op svc cl OpAppliedEtag s = snd (applied_etag svc cl s)"
| "run_op svc cl (OpApplyChanges changes) s = snd (apply_changes svc cl changes s)"
| "run_op svc cl OpValidatedTarget s = snd (executor_validated_target svc cl s)"
| "run_op svc cl OpApplyDraft s = snd (apply_draft svc cl s)"
| "run_op svc cl (OpCaptureOnce p c src t f) s = snd (executor_capture_once svc cl p c src t f s)"
| "run_op svc cl OpCapabilities s = snd (executor_capabilities svc cl s)"
| "run_op svc cl (OpStatus now) s = snd (executor_status svc cl now s)"
| "run_op svc cl (OpDeviceView refresh lock_free now) s = snd (try_device_view svc cl refresh lock_free now s)"
| "run_op svc cl (OpStartPeriodic sch) s = snd (executor_start_periodic svc cl sch s)"
| "run_op svc cl (OpRenewPeriodic r) s = snd (executor_renew_periodic svc cl r s)"
| "run_op svc cl (OpStopPeriodic i) s = snd (executor_stop_periodic svc cl i s)"
| "run_op svc cl (OpPollCaptures f) s = snd (executor_poll_captures svc cl f s)"
| "run_op svc cl (OpRequireIdentity p c) s = snd (require_applied_identity svc cl p c s)"
| "run_op svc cl (OpRunPlan env plan) s = snd (execute_run_plan svc cl env plan s)"

definition run_ops ::
  "ParameterService \<Rightarrow> 'c DeviceClient \<Rightarrow> 'c executor_op list \<Rightarrow> 'c SingleDeviceExecutor \<Rightarrow> 'c SingleDeviceExecutor" where
  "run_ops svc cl ops s = fold (run_op svc cl) ops s"

section \<open>What the executor guarantees of its state\<close>

definition approved :: "AcquisitionConfigV2 \<Rightarrow> bool" where
  "approved c \<longleftrightarrow> config_ok c \<and> boostxl_safe c"

text \<open>The requested values pass the safety review and compile to this configuration.\<close>

definition validates :: "ParameterService \<Rightarrow> pyobj dict \<Rightarrow> AcquisitionConfigV2 \<Rightarrow> bool" where
  "validates svc requested c \<longleftrightarrow> safety_errors requested = Inr [] \<and> compile_config svc requested = Inr c \<and>
     approved c \<and> is_ok (actual_values svc requested)"

text \<open>
  A confirmed configuration passed the hardware policy; a published APPLIED snapshot validates to
  exactly the confirmed configuration.
\<close>

definition xc_inv :: "ParameterService \<Rightarrow> 'c SingleDeviceExecutor \<Rightarrow> bool" where
  "xc_inv svc s \<longleftrightarrow> pred_option approved (xc_applied_config s) \<and>
     (cs_state (xc_snapshot s) = APPLIED \<longrightarrow>
        (\<exists>c. xc_applied_config s = Some c \<and> validates svc (cs_requested (xc_snapshot s)) c))"

definition validated_pair :: "ParameterService \<Rightarrow> ConfigurationSnapshot \<Rightarrow> AcquisitionConfigV2 \<Rightarrow> bool" where
  "validated_pair svc snapshot c \<longleftrightarrow> cs_state snapshot = VALIDATED \<and> validates svc (cs_requested snapshot) c"

lemma validate_snapshot_validates:
  assumes "validate_snapshot svc snap = Inr r" "vr_compiled r = Some c"
  shows "validates svc (cs_requested snap) c"
  using validate_snapshot_compiled [OF assms] compile_config_sound(3) assms(1)
  by (auto simp: validates_def approved_def validate_snapshot_def)

lemma validates_snapshot:
  "validates svc (cs_requested snap) c \<Longrightarrow> \<exists>r. validate_snapshot svc snap = Inr r \<and> vr_compiled r = Some c"
  by (auto simp: validates_def approved_def validate_snapshot_def validate_boostxl_eq is_ok_def)

lemma update_draft_state: "update_draft svc snap changes = Inr d \<Longrightarrow> cs_state d = DRAFT"
  by (auto simp: update_draft_def draft_snapshot_def Let_def split: if_splits)

lemma new_draft_state: "new_draft svc = Inr d \<Longrightarrow> cs_state d = DRAFT"
  by (auto simp: new_draft_def draft_snapshot_def Let_def split: if_splits)

lemma mark_applied_result:
  assumes "mark_applied svc snap rb = Inr a"
  shows "cs_state a = APPLIED" "cs_requested a = cs_requested snap" "compile_config svc (cs_requested snap) = Inr rb"
  using assms by (auto simp: mark_applied_def Let_def split: if_splits)

lemma require_compiled_pair:
  assumes "validate_snapshot svc snap = Inr r" "require_compiled r = Inr c"
  shows "validated_pair svc (vr_snapshot r) c" "cs_requested (vr_snapshot r) = cs_requested snap"
proof -
  have c: "vr_compiled r = Some c" using assms(2) by (auto simp: require_compiled_def split: option.splits if_splits)
  note v = validate_snapshot_compiled [OF assms(1) c]
  show "cs_requested (vr_snapshot r) = cs_requested snap" by (rule v(3))
  show "validated_pair svc (vr_snapshot r) c"
    using v validate_snapshot_validates [OF assms(1) c] by (simp add: validated_pair_def)
qed

lemma new_executor_inv: "new_executor svc cl c = Inr s \<Longrightarrow> xc_inv svc s"
  by (auto simp: new_executor_def xc_inv_def dest: new_draft_state)

lemma xc_inv_simps [simp]:
  "xc_inv svc (s\<lparr>xc_client := c\<rparr>) = xc_inv svc s" "xc_inv svc (s\<lparr>xc_device_view := v\<rparr>) = xc_inv svc s"
  "xc_inv svc (s\<lparr>xc_session_generation := g\<rparr>) = xc_inv svc s"
  by (simp_all add: xc_inv_def)

lemma validated_target_pair:
  assumes "Run_Plan.validated_target svc snap = Inr (snap', c)"
  shows "validated_pair svc snap' c"
proof -
  obtain r where r: "validate_snapshot svc snap = Inr r" "vr_compiled r = Some c" "vr_snapshot r = snap'"
    using assms by (auto simp: validated_target_def split: option.splits)
  then show ?thesis
    using validate_snapshot_compiled [OF r(1,2)] validate_snapshot_validates [OF r(1,2)]
    by (simp add: validated_pair_def)
qed

lemma sweep_target_pairs:
  "sweep_targets svc base f k vs = Inr ts \<Longrightarrow> t \<in> set ts \<Longrightarrow> validated_pair svc (tg_snapshot t) (tg_compiled t)"
proof (induction svc base f k vs arbitrary: ts rule: sweep_targets.induct)
  case (2 svc base f k v vs)
  then obtain d snap c rest where s: "update_draft svc base [(f, v)] = Inr d"
    "Run_Plan.validated_target svc d = Inr (snap, c)" "sweep_targets svc base f (k + 1) vs = Inr rest"
    "ts = \<lparr>tg_sweep_index = Some k, tg_snapshot = snap, tg_compiled = c\<rparr> # rest"
    by (auto split: prod.splits)
  show ?case using "2.IH" [OF _ s(2) refl s(3)] "2.prems"(2) s validated_target_pair [OF s(2)] by auto
qed simp

lemma compiled_step_pair:
  assumes "compile_run_steps svc base plan = Inr steps" "step \<in> set (steps_iter steps)"
  shows "validated_pair svc (st_snapshot step) (st_compiled step)"
proof -
  have "validated_pair svc (tg_snapshot t) (tg_compiled t)" if "t \<in> set (crs_targets steps)" for t
    using assms(1) that sweep_target_pairs validated_target_pair
    by (auto simp: compile_run_steps_def split: option.splits if_splits prod.splits)
  then show ?thesis using assms(2) by (auto simp: steps_iter_def run_step_def)
qed

lemma compiled_plan_trigger:
  assumes "compile_run_steps svc base plan = Inr steps"
  shows "validate_trigger (rp_trigger_source plan) (rp_sync_timeout_ms plan) = Inr ()"
proof -
  obtain l where "validate_plan plan = Inr l" using assms by (auto simp: compile_run_steps_def)
  then show ?thesis by (auto simp: validate_plan_def validate_trigger_def trigger_sources_def split: if_splits)
qed

section \<open>Every command the executor sends is approved\<close>

text \<open>
  The contract between the executor and a property \<open>Q\<close> of the device side: \<open>Q\<close> survives the
  configurations the hardware policy approves, captures with an approved configuration and a valid
  trigger, schedules for an approved configuration, and the operations that carry no configuration.
\<close>

locale guarded_client =
  fixes cl :: "'c DeviceClient" and Q :: "'c \<Rightarrow> bool"
  assumes apply_keeps: "approved config \<Longrightarrow> keeps Q (dc_apply_config cl config)"
    and capture_keeps: "approved config \<Longrightarrow> validate_trigger src t = Inr () \<Longrightarrow> keeps Q (dc_capture_once cl config src t)"
    and start_keeps: "approved config \<Longrightarrow> profile_sha256 config = sch_profile_sha256 sch \<Longrightarrow>
      device_config_crc32 config = sch_device_config_crc32 sch \<Longrightarrow> keeps Q (dc_start_periodic cl sch)"
    and other_keeps: "keeps Q (dc_capabilities cl)" "keeps Q (dc_status cl)" "keeps Q (dc_renew_periodic cl renewal)"
      "keeps Q (dc_stop_periodic cl i)" "keeps Q (dc_poll_captures cl)"
begin

definition good :: "ParameterService \<Rightarrow> 'c SingleDeviceExecutor \<Rightarrow> bool" where
  "good svc s \<longleftrightarrow> Q (xc_client s) \<and> xc_inv svc s"

lemma good_simps [simp]:
  "good svc (s\<lparr>xc_client := c\<rparr>) \<longleftrightarrow> Q c \<and> xc_inv svc s"
  "good svc (s\<lparr>xc_device_view := v\<rparr>) \<longleftrightarrow> good svc s"
  by (simp_all add: good_def)

lemma goodD: "good svc s \<Longrightarrow> Q (xc_client s)" "good svc s \<Longrightarrow> xc_inv svc s"
  by (simp_all add: good_def)

lemma on_client_keeps: "keeps Q m \<Longrightarrow> keeps (good svc) (on_xc_client m)"
  unfolding on_xc_client_def by (rule keeps_mzoom [where J = Q]) (auto simp: good_def)

lemma refresh_keeps: "keeps (good svc) (refresh_session svc cl)"
  by (rule keepsI_wp)
    (auto simp: refresh_session_def wp_simps Let_def good_def xc_inv_def split: sum.split dest: update_draft_state)

lemma apply_validated_wp:
  assumes "validated_pair svc snap config" "good svc s"
  shows "wp (apply_validated svc cl snap config) (\<lambda>a s. good svc s \<and> xc_applied_config s = Some config \<and>
      cs_state a = APPLIED \<and> xc_snapshot s = a \<and> cs_requested a = cs_requested snap) (\<lambda>_. good svc) s"
proof -
  have ap: "approved config" "validates svc (cs_requested snap) config"
    using assms(1) by (simp_all add: validated_pair_def validates_def)
  have "\<lbrakk>good svc s'; mark_applied svc snap rb = Inr a\<rbrakk> \<Longrightarrow> good svc (s'\<lparr>xc_applied_config := Some config,
      xc_session_generation := g, xc_snapshot := a\<rparr>)" for s' rb a g
    using ap by (auto simp: good_def xc_inv_def dest: mark_applied_result)
  then show ?thesis
    using assms(2)
    by (auto simp: apply_validated_def wp_simps intro!: wp_call [OF on_client_keeps [OF apply_keeps [OF ap(1)]]]
        split: sum.split dest: mark_applied_result)
qed

lemma apply_validated_keeps: "validated_pair svc snap config \<Longrightarrow> keeps (good svc) (apply_validated svc cl snap config)"
  by (rule keepsI_wp) (auto intro: wp_mono [OF apply_validated_wp])

lemma keeps_after_refresh:
  assumes "\<And>s. good svc s \<Longrightarrow> wp m (\<lambda>_. good svc) (\<lambda>_. good svc) s"
  shows "keeps (good svc) (mbind (refresh_session svc cl) (\<lambda>_. m))"
  by (rule keeps_bind [OF refresh_keeps keepsI_wp [OF assms]])

lemma identity_wp:
  assumes "xc_inv svc s" "\<And>config. xc_applied_config s = Some config \<Longrightarrow> approved config \<Longrightarrow>
      profile = py_hex (profile_sha256 config) \<Longrightarrow> crc = device_config_crc32 config \<Longrightarrow> R config s" "E ConfigConflictError s"
  shows "wp (require_applied_identity_unlocked profile crc) R E s"
  using assms
  by (auto simp: require_applied_identity_unlocked_def wp_simps xc_inv_def split: option.split)

lemma reads_keep:
  "keeps (good svc) (executor_snapshot svc cl)" "keeps (good svc) (executor_update_draft svc cl changes)"
  "keeps (good svc) (preview_changes svc cl changes)" "keeps (good svc) (applied_etag svc cl)"
  "keeps (good svc) (executor_validated_target svc cl)" "keeps (good svc) (require_applied_identity svc cl p crc)"
proof -
  have draft: "good svc (s\<lparr>xc_snapshot := d\<rparr>)" if "update_draft svc x y = Inr d" "good svc s" for s d x y
    using that by (auto simp: good_def xc_inv_def dest: update_draft_state)
  show "keeps (good svc) (executor_snapshot svc cl)" "keeps (good svc) (executor_update_draft svc cl changes)"
    "keeps (good svc) (preview_changes svc cl changes)" "keeps (good svc) (applied_etag svc cl)"
    "keeps (good svc) (executor_validated_target svc cl)" "keeps (good svc) (require_applied_identity svc cl p crc)"
    unfolding executor_snapshot_def executor_update_draft_def preview_changes_def applied_etag_def
      executor_validated_target_def require_applied_identity_def
    by (rule keeps_after_refresh; auto simp: wp_simps intro!: identity_wp [of svc] intro: draft dest: goodD
        split: sum.split)+
qed

lemma apply_keeps_good:
  "keeps (good svc) (apply_changes svc cl changes)" "keeps (good svc) (apply_draft svc cl)"
  unfolding apply_changes_def apply_draft_def
  by (rule keeps_after_refresh;
      auto simp: wp_simps split: sum.split intro!: wp_call [OF apply_validated_keeps] dest: require_compiled_pair)+

lemma capture_once_keeps:
  assumes "\<And>r. keeps Q (on_capture r)"
  shows "keeps (good svc) (executor_capture_once svc cl profile crc src t on_capture)"
  unfolding executor_capture_once_def
  by (rule keeps_after_refresh, simp only: wp_mbind, rule identity_wp)
    (auto simp: wp_simps dest: goodD split: sum.split
      intro!: wp_call [OF on_client_keeps [OF capture_keeps]] wp_call [OF on_client_keeps [OF assms]])

lemma diagnostics_keep:
  "keeps (good svc) (executor_capabilities svc cl)" "keeps (good svc) (executor_status svc cl now)"
  "keeps (good svc) (try_device_view svc cl refresh lock_free now)"
proof -
  show "keeps (good svc) (executor_capabilities svc cl)" "keeps (good svc) (executor_status svc cl now)"
    unfolding executor_capabilities_def executor_status_def
    by (rule keeps_after_refresh; auto simp: wp_simps intro!: wp_call [OF on_client_keeps] other_keeps)+
  have "keeps (good svc) (refresh_view svc cl now)"
    unfolding refresh_view_def
    by (rule keeps_after_refresh)
      (auto simp: wp_simps merge_view_def set_view_def Let_def intro!: wp_call [OF on_client_keeps] other_keeps)
  then show "keeps (good svc) (try_device_view svc cl refresh lock_free now)"
    unfolding try_device_view_def merge_view_def
    by (intro keepsI_wp) (auto simp: wp_simps set_view_def intro!: wp_call [of "good svc" "refresh_view svc cl now"])
qed

lemma periodic_keeps:
  assumes "\<And>f c. cb = Some f \<Longrightarrow> keeps Q (f c)"
  shows "keeps (good svc) (executor_start_periodic svc cl sch)" "keeps (good svc) (executor_renew_periodic svc cl r)"
    "keeps (good svc) (executor_stop_periodic svc cl i)" "keeps (good svc) (executor_poll_captures svc cl cb)"
proof -
  show "keeps (good svc) (executor_start_periodic svc cl sch)"
    unfolding executor_start_periodic_def
    by (rule keeps_after_refresh)
      (auto simp: wp_simps dest: goodD intro!: identity_wp wp_call [OF on_client_keeps [OF start_keeps]])
  show "keeps (good svc) (executor_renew_periodic svc cl r)" "keeps (good svc) (executor_stop_periodic svc cl i)"
    unfolding executor_renew_periodic_def executor_stop_periodic_def
    by (rule keeps_after_refresh, auto intro!: wp_call [OF on_client_keeps] other_keeps)+
  have "keeps (good svc) (mfor (\<lambda>c. on_xc_client (f c)) cs)" if "cb = Some f" for f cs
    by (rule keeps_mfor, rule on_client_keeps, rule assms [OF that])
  then show "keeps (good svc) (executor_poll_captures svc cl cb)"
    unfolding executor_poll_captures_def
    by (cases cb; intro keeps_bind refresh_keeps on_client_keeps other_keeps) auto
qed

text \<open>The callbacks of a plan.\<close>

definition env_keeps :: "'c PlanEnvironment \<Rightarrow> bool" where
  "env_keeps env \<longleftrightarrow> (\<forall>ms. keeps Q (pe_sleep env ms)) \<and> keeps Q (pe_cancelled env) \<and>
     (\<forall>f r. pe_on_capture env = Some f \<longrightarrow> keeps Q (f r))"

lemma plan_step_keeps:
  assumes "env_keeps env" "validated_pair svc (st_snapshot step) (st_compiled step)"
    "validate_trigger (rp_trigger_source plan) (rp_sync_timeout_ms plan) = Inr ()"
  shows "keeps (good svc) (plan_step svc cl env plan step)"
proof -
  have ap: "approved (st_compiled step)" using assms(2) by (simp add: validated_pair_def validates_def)
  note calls = on_client_keeps [OF capture_keeps [OF ap assms(3)]] apply_validated_keeps [OF assms(2)]
  show ?thesis
    using assms(1) unfolding plan_step_def Let_def env_keeps_def
    by (cases "pe_on_capture env") (auto intro!: keeps_bind keeps_if calls on_client_keeps)
qed

lemma plan_steps_keep:
  assumes "env_keeps env" "\<And>step. step \<in> set steps \<Longrightarrow> validated_pair svc (st_snapshot step) (st_compiled step)"
    "validate_trigger (rp_trigger_source plan) (rp_sync_timeout_ms plan) = Inr ()"
  shows "keeps (good svc) (plan_steps svc cl env plan steps)"
  using assms by (induction steps) (auto intro!: keeps_bind plan_step_keeps)

lemma restore_keeps: "keeps (good svc) (restore_baseline svc cl snap b)"
  unfolding restore_baseline_def
  by (rule keepsI_wp)
    (auto simp: wp_simps split: sum.split intro!: wp_call [OF apply_validated_keeps] dest: require_compiled_pair)

lemma run_plan_keeps:
  assumes "env_keeps env"
  shows "keeps (good svc) (execute_run_plan svc cl env plan)"
proof -
  have sleep: "keeps (good svc) (on_xc_client (pe_sleep env ms))" for ms
    using assms by (simp add: env_keeps_def on_client_keeps)
  have run: "keeps (good svc) (plan_steps svc cl env plan (steps_iter steps))"
    if "compile_run_steps svc base plan = Inr steps" for steps base
    by (rule plan_steps_keep [OF assms compiled_step_pair [OF that] compiled_plan_trigger [OF that]])
  show ?thesis
    unfolding execute_run_plan_def
    by (rule keeps_after_refresh)
      (auto simp: wp_simps split: sum.split option.split
        intro!: wp_call [OF sleep] wp_call [OF run] wp_call [OF restore_keeps])
qed

fun callbacks_keep :: "'c executor_op \<Rightarrow> bool" where
  "callbacks_keep (OpCaptureOnce _ _ _ _ f) \<longleftrightarrow> (\<forall>r. keeps Q (f r))"
| "callbacks_keep (OpPollCaptures (Some f)) \<longleftrightarrow> (\<forall>c. keeps Q (f c))"
| "callbacks_keep (OpRunPlan env _) \<longleftrightarrow> env_keeps env"
| "callbacks_keep _ \<longleftrightarrow> True"

lemma run_op_good: "good svc s \<Longrightarrow> callbacks_keep op \<Longrightarrow> good svc (run_op svc cl op s)"
  by (cases op)
    (auto intro!: keepsD [of "good svc"] reads_keep apply_keeps_good capture_once_keeps diagnostics_keep
      periodic_keeps run_plan_keeps)

lemma run_ops_good: "good svc s \<Longrightarrow> list_all callbacks_keep ops \<Longrightarrow> good svc (run_ops svc cl ops s)"
  unfolding run_ops_def by (induction ops arbitrary: s) (auto intro: run_op_good)

end

section \<open>Auditing the commands\<close>

text \<open>A device client that writes down the commands it is given before it passes them on.\<close>

datatype device_call =
    ApplyCall AcquisitionConfigV2
  | CaptureCall AcquisitionConfigV2 string int
  | StartCall HostPeriodicSchedule
  | OtherCall

definition logging :: "device_call \<Rightarrow> ('c, 'a) meth \<Rightarrow> ('c \<times> device_call list, 'a) meth" where
  "logging call m = mbind (mupd (\<lambda>(c, log). (c, log @ [call]))) (\<lambda>_. mzoom fst (\<lambda>c s. (c, snd s)) m)"

definition logged :: "'c DeviceClient \<Rightarrow> ('c \<times> device_call list) DeviceClient" where
  "logged cl = \<lparr>dc_published_session = (\<lambda>(c, _). dc_published_session cl c),
     dc_apply_config = (\<lambda>config. logging (ApplyCall config) (dc_apply_config cl config)),
     dc_capture_once = (\<lambda>config src t. logging (CaptureCall config src t) (dc_capture_once cl config src t)),
     dc_capabilities = logging OtherCall (dc_capabilities cl),
     dc_status = logging OtherCall (dc_status cl),
     dc_start_periodic = (\<lambda>sch. logging (StartCall sch) (dc_start_periodic cl sch)),
     dc_renew_periodic = (\<lambda>r. logging OtherCall (dc_renew_periodic cl r)),
     dc_stop_periodic = (\<lambda>i. logging OtherCall (dc_stop_periodic cl i)),
     dc_poll_captures = logging OtherCall (dc_poll_captures cl),
     dc_capture_delivery = (\<lambda>i. logging OtherCall (dc_capture_delivery cl i)),
     dc_capture_wire_frame = (\<lambda>i. logging OtherCall (dc_capture_wire_frame cl i)),
     dc_confirm_capture = (\<lambda>r. logging OtherCall (dc_confirm_capture cl r)),
     dc_release_capture = (\<lambda>i. logging OtherCall (dc_release_capture cl i))\<rparr>"

fun call_approved :: "device_call \<Rightarrow> bool" where
  "call_approved (ApplyCall config) \<longleftrightarrow> approved config"
| "call_approved (CaptureCall config src t) \<longleftrightarrow> approved config \<and> validate_trigger src t = Inr ()"
| "call_approved (StartCall sch) \<longleftrightarrow> (\<exists>config. approved config \<and>
     profile_sha256 config = sch_profile_sha256 sch \<and> device_config_crc32 config = sch_device_config_crc32 sch)"
| "call_approved OtherCall \<longleftrightarrow> True"

definition audit_ok :: "'c \<times> device_call list \<Rightarrow> bool" where
  "audit_ok s \<longleftrightarrow> list_all call_approved (snd s)"

lemma logging_keeps: "call_approved call \<Longrightarrow> keeps audit_ok (logging call m)"
  by (rule keepsI_wp) (auto simp: logging_def wp_simps audit_ok_def split: prod.splits)

interpretation audit: guarded_client "logged cl" audit_ok for cl
  by unfold_locales (auto simp: logged_def intro!: logging_keeps)

text \<open>Callbacks of the application confirm and release captures; they give the device no commands of their own.\<close>

definition silent :: "('c \<times> device_call list, 'a) meth \<Rightarrow> bool" where
  "silent m \<longleftrightarrow> (\<forall>log. keeps (\<lambda>s. snd s = log) m)"

lemma silent_keeps: "silent m \<Longrightarrow> keeps audit_ok m"
  unfolding silent_def audit_ok_def keeps_def by simp

fun silent_callbacks :: "('c \<times> device_call list) executor_op \<Rightarrow> bool" where
  "silent_callbacks (OpCaptureOnce _ _ _ _ f) \<longleftrightarrow> (\<forall>r. silent (f r))"
| "silent_callbacks (OpPollCaptures (Some f)) \<longleftrightarrow> (\<forall>c. silent (f c))"
| "silent_callbacks (OpRunPlan env _) \<longleftrightarrow> (\<forall>ms. silent (pe_sleep env ms)) \<and> silent (pe_cancelled env) \<and>
     (\<forall>f r. pe_on_capture env = Some f \<longrightarrow> silent (f r))"
| "silent_callbacks _ \<longleftrightarrow> True"

lemma silent_callbacks_keep: "silent_callbacks op \<Longrightarrow> audit.callbacks_keep op"
  by (cases op rule: silent_callbacks.cases) (auto simp: silent_keeps audit.env_keeps_def)

text \<open>C10 (safety). Whatever client is attached and whatever sequence of executor operations the interfaces issue,
  with whatever arguments and outcomes, every SET_CONFIG the device receives carries a configuration
  that encodes and passes the hardware safety policy, every single capture is requested with such a
  configuration and a valid trigger, and every periodic schedule is bound to the digest and CRC of such a configuration;
  and the values of a snapshot published as APPLIED always pass the safety review and compile to exactly the
  configuration the device confirmed.\<close>

theorem executor_sends_only_approved_commands:
  assumes "new_executor svc (logged cl) (c, []) = Inr s" and "list_all silent_callbacks ops"
    and "s' = run_ops svc (logged cl) ops s"
  shows "list_all call_approved (snd (xc_client s')) \<and> pred_option approved (xc_applied_config s') \<and>
    (cs_state (xc_snapshot s') = APPLIED \<longrightarrow>
       (\<exists>config. xc_applied_config s' = Some config \<and> validates svc (cs_requested (xc_snapshot s')) config))"
proof -
  have "xc_client s = (c, [])" using assms(1) by (auto simp: new_executor_def)
  then have "audit.good svc s" using new_executor_inv [OF assms(1)] by (simp add: audit.good_def audit_ok_def)
  moreover have "list_all audit.callbacks_keep ops"
    using assms(2) by (rule list.pred_mono_strong) (rule silent_callbacks_keep)
  ultimately have "audit.good svc s'" unfolding assms(3) by (rule audit.run_ops_good)
  then show ?thesis by (simp add: audit.good_def audit_ok_def xc_inv_def)
qed

lemma require_compiled_some: "vr_compiled r = Some c \<Longrightarrow> vr_errors r = [] \<Longrightarrow> require_compiled r = Inr c"
  by (simp add: require_compiled_def)

theorem executor_sends_only_approved_commands_witness:
  "\<exists>s config. new_executor demo_service (logged (sim_device_client (\<lambda>_. 0))) ((demo_client, 0), []) = Inr s \<and>
     snd (xc_client (run_ops demo_service (logged (sim_device_client (\<lambda>_. 0))) [OpApplyDraft] s)) = [ApplyCall config] \<and>
     list_all call_approved [ApplyCall config]"
proof -
  let ?cl = "logged (sim_device_client (\<lambda>_. 0))"
  obtain d r config where d: "new_draft demo_service = Inr d" "validate_snapshot demo_service d = Inr r"
    "vr_compiled r = Some config"
    using default_draft_validates by blast
  note rc = require_compiled_some [OF d(3) validate_snapshot_compiled(1) [OF d(2,3)]]
  obtain s where s: "new_executor demo_service ?cl ((demo_client, 0), []) = Inr s"
    "xc_snapshot s = d" "xc_client s = ((demo_client, 0), [])"
    "xc_session_generation s = pub_session_generation (published_session ?cl s)"
    using d(1) by (simp add: new_executor_def published_session_def)
  have "wp (apply_draft demo_service ?cl) (\<lambda>_ s. snd (xc_client s) = [ApplyCall config])
      (\<lambda>_ s. snd (xc_client s) = [ApplyCall config]) s"
    using d s rc
    by (simp add: apply_draft_def refresh_session_def wp_simps Let_def apply_validated_def on_xc_client_def
        logged_def logging_def) (simp add: wp_def split: prod.split sum.split)
  then have "snd (xc_client (run_ops demo_service ?cl [OpApplyDraft] s)) = [ApplyCall config]"
    by (simp add: run_ops_def wp_def split: prod.splits sum.splits)
  moreover have "list_all silent_callbacks [OpApplyDraft]" by simp
  ultimately show ?thesis using executor_sends_only_approved_commands [OF s(1) _ refl, of "[OpApplyDraft]"] s(1) by auto
qed

end
