(* ===== verification/Executor_Plans.thy ===== *)
theory Executor_Plans
  imports Device_Executor
begin

text \<open>
  What a run plan delivers (\<open>SingleDeviceExecutor.execute_run_plan\<close>): every capture is bound to the step it
  was taken for, and the baseline configuration is back on the device at the end. The proof rests on a
  contract between the executor and a device that holds one configuration; the simulated device fulfils it.
\<close>

section \<open>What a plan should deliver\<close>

text \<open>The capture of a step is taken with the step's own configuration and carries its identity.\<close>

definition step_capture :: "ParameterService \<Rightarrow> RunStep \<Rightarrow> ExecutedCapture \<Rightarrow> bool" where
  "step_capture svc step r \<longleftrightarrow> xp_sweep_index r = st_sweep_index step \<and> xp_loop_index r = st_loop_index step \<and>
     cs_state (xp_snapshot r) = APPLIED \<and>
     validates svc (cs_requested (xp_snapshot r)) (st_compiled step) \<and>
     cd_profile_sha256 (xp_capture r) = profile_sha256 (st_compiled step) \<and>
     cd_device_config_crc32 (xp_capture r) = device_config_crc32 (st_compiled step)"

text \<open>A parameter schema whose every field the service can compile and read back.\<close>

definition service_ok :: "ParameterService \<Rightarrow> bool" where
  "service_ok svc \<longleftrightarrow> schema_ok (svc_schema svc) \<and> 0 < svc_smclk_hz svc \<and>
     fst ` set (ps_register_fields (svc_schema svc)) \<inter> timing_names = {}"

section \<open>A device that holds one configuration\<close>

locale configurable_client =
  fixes cl :: "'c DeviceClient" and configured :: "'c \<Rightarrow> AcquisitionConfigV2 option" and wf :: "'c \<Rightarrow> bool"
  assumes apply_configures: "wf c \<Longrightarrow>
      wp (dc_apply_config cl config) (\<lambda>rb c'. wf c' \<and> configured c' = Some (rb_config rb)) (\<lambda>_. wf) c"
    and capture_bound: "wf c \<Longrightarrow>
      wp (dc_capture_once cl config src t) (\<lambda>cap c'. wf c' \<and> configured c' = configured c \<and>
          cd_profile_sha256 cap = profile_sha256 config \<and>
          cd_device_config_crc32 cap = device_config_crc32 config) (\<lambda>_. wf) c"
begin

definition in_step :: "ParameterService \<Rightarrow> 'c SingleDeviceExecutor \<Rightarrow> bool" where
  "in_step svc s \<longleftrightarrow> xc_inv svc s \<and> wf (xc_client s) \<and> configured (xc_client s) = xc_applied_config s \<and>
     cs_state (xc_snapshot s) = APPLIED"

text \<open>Callbacks that leave the configuration of the device alone.\<close>

definition harmless :: "('c, 'a) meth \<Rightarrow> bool" where
  "harmless m \<longleftrightarrow> (\<forall>x. keeps (\<lambda>c. wf c \<and> configured c = x) m)"

definition harmless_env :: "'c PlanEnvironment \<Rightarrow> bool" where
  "harmless_env env \<longleftrightarrow> (\<forall>ms. harmless (pe_sleep env ms)) \<and> harmless (pe_cancelled env) \<and>
     (\<forall>f r. pe_on_capture env = Some f \<longrightarrow> harmless (f r))"

lemma in_step_client:
  "in_step svc (s\<lparr>xc_client := c\<rparr>) \<longleftrightarrow> xc_inv svc s \<and> wf c \<and> configured c = xc_applied_config s \<and>
     cs_state (xc_snapshot s) = APPLIED"
  by (simp add: in_step_def)

lemma harmless_rule:
  assumes "harmless m" "in_step svc s" "\<And>x s'. in_step svc s' \<Longrightarrow> Q x s'"
  shows "wp (on_xc_client m) Q (\<lambda>_ _. True) s"
proof -
  have k: "keeps (\<lambda>c. wf c \<and> configured c = xc_applied_config s) m" using assms(1) by (simp add: harmless_def)
  show ?thesis
    unfolding on_xc_client_def wp_mzoom
    by (rule wp_call [OF k]) (use assms(2,3) in \<open>auto simp: in_step_client in_step_def\<close>)
qed

lemma apply_rule:
  assumes "validated_pair svc snap config" "wf (xc_client s)" "xc_inv svc s"
    "\<And>a s'. in_step svc s' \<Longrightarrow> xc_applied_config s' = Some config \<Longrightarrow> xc_snapshot s' = a \<Longrightarrow> Q a s'"
  shows "wp (apply_validated svc cl snap config) Q (\<lambda>_ _. True) s"
proof -
  have "in_step svc (s\<lparr>xc_client := c, xc_applied_config := Some config, xc_session_generation := g, xc_snapshot := a\<rparr>)"
    if "wf c" "configured c = Some rb" "mark_applied svc snap rb = Inr a" for c rb a g
    using mark_applied_result [OF that(3)] that(1,2) assms(1)
    by (simp add: in_step_def xc_inv_def validated_pair_def validates_def)
  then show ?thesis
    by (auto simp: apply_validated_def wp_simps on_xc_client_def intro!: wp_mono [OF apply_configures [OF assms(2)]]
        split: sum.split dest: mark_applied_result intro: assms(4))
qed

lemma capture_rule:
  assumes "in_step svc s" "xc_applied_config s = Some config"
    "\<And>cap s'. in_step svc s' \<Longrightarrow> cd_profile_sha256 cap = profile_sha256 config \<Longrightarrow>
      cd_device_config_crc32 cap = device_config_crc32 config \<Longrightarrow> Q cap s'"
  shows "wp (on_xc_client (dc_capture_once cl config src t)) Q (\<lambda>_ _. True) s"
  using assms unfolding on_xc_client_def wp_mzoom
  by (intro wp_mono [OF capture_bound]) (auto simp: in_step_def)

lemma in_stepD:
  assumes "in_step svc s" "xc_applied_config s = Some config"
  shows "xc_inv svc s" "wf (xc_client s)" "cs_state (xc_snapshot s) = APPLIED"
    "validates svc (cs_requested (xc_snapshot s)) config"
  using assms by (auto simp: in_step_def xc_inv_def)

lemma plan_step_in_step:
  assumes "in_step svc s" "harmless_env env" "validated_pair svc (st_snapshot step) (st_compiled step)"
  shows "wp (plan_step svc cl env plan step) (\<lambda>r s'. in_step svc s' \<and> step_capture svc step r) (\<lambda>_ _. True) s"
proof -
  have e: "harmless (pe_cancelled env)" "harmless (pe_sleep env ms)" "pe_on_capture env = Some f \<Longrightarrow> harmless (f r)" for ms f r
    using assms(2) by (simp_all add: harmless_env_def)
  have w: "wf (xc_client s1)" "xc_inv svc s1" "cs_state (xc_snapshot s1) = APPLIED" if "in_step svc s1" for s1
    using that by (simp_all add: in_step_def)
  have c: "validates svc (cs_requested (xc_snapshot s1)) config"
    if "in_step svc s1" "xc_applied_config s1 = Some config" for s1 config
    using that by (rule in_stepD)
  show ?thesis
    unfolding plan_step_def Let_def
    by (cases "pe_on_capture env")
      (auto simp: wp_simps step_capture_def w c intro!: harmless_rule [OF e(1) assms(1)] harmless_rule [OF e(2)]
        harmless_rule [OF e(3)] capture_rule apply_rule [OF assms(3)] )
qed

lemma plan_steps_in_step:
  assumes "in_step svc s" "harmless_env env"
    "\<And>step. step \<in> set steps \<Longrightarrow> validated_pair svc (st_snapshot step) (st_compiled step)"
  shows "wp (plan_steps svc cl env plan steps)
     (\<lambda>rs s'. in_step svc s' \<and> list_all2 (step_capture svc) steps rs) (\<lambda>_ _. True) s"
  using assms(1,3)
proof (induction steps arbitrary: s)
  case (Cons step steps)
  show ?case
    using Cons.prems Cons.IH
    by (auto simp: wp_simps intro!: wp_mono [OF plan_step_in_step [OF _ assms(2)]] wp_mono [OF Cons.IH])
qed (simp add: wp_simps)

lemma restore_in_step:
  assumes "in_step svc s" "validates svc (cs_requested base) config"
  shows "wp (restore_baseline svc cl base config) (\<lambda>_ s'. in_step svc s' \<and> xc_applied_config s' = Some config) (\<lambda>_ _. True) s"
proof -
  have w: "wf (xc_client s)" "xc_inv svc s" using assms(1) by (simp_all add: in_step_def)
  have "validated_pair svc (vr_snapshot r) c \<and> c = config"
    if "validate_snapshot svc base = Inr r" "require_compiled r = Inr c" for r c
    using require_compiled_pair [OF that] assms(2) by (simp add: validated_pair_def validates_def)
  then show ?thesis
    using assms(1) w by (auto simp: restore_baseline_def wp_simps split: sum.split intro!: apply_rule)
qed

lemma run_plan_bound:
  assumes "in_step svc s" "harmless_env env"
  shows "wp (execute_run_plan svc cl env plan) (\<lambda>rs s'. in_step svc s' \<and> xc_applied_config s' = xc_applied_config s \<and>
      (\<exists>steps. compile_run_steps svc (xc_snapshot s) plan = Inr steps \<and>
         (pe_on_capture env = None \<longrightarrow> list_all2 (step_capture svc) (steps_iter steps) rs))) (\<lambda>_ _. True) s"
proof (cases "pub_session_generation (published_session cl s) = xc_session_generation s")
  case False
  then show ?thesis
    using update_draft_state
    by (auto simp: execute_run_plan_def refresh_session_def wp_simps Let_def split: sum.split)
next
  case True
  obtain config where c: "xc_applied_config s = Some config" "validates svc (cs_requested (xc_snapshot s)) config"
    using assms(1) by (auto simp: in_step_def xc_inv_def)
  have e: "harmless (pe_sleep env ms)" for ms using assms(2) by (simp add: harmless_env_def)
  have run: "wp (plan_steps svc cl env plan (steps_iter steps)) Q (\<lambda>_ _. True) s1"
    if "compile_run_steps svc (xc_snapshot s) plan = Inr steps" "in_step svc s1"
      "\<And>rs s'. in_step svc s' \<Longrightarrow> list_all2 (step_capture svc) (steps_iter steps) rs \<Longrightarrow> Q rs s'" for steps s1 Q
    using plan_steps_in_step [OF that(2) assms(2) compiled_step_pair [OF that(1)]]
    by (rule wp_mono) (auto intro: that(3))
  show ?thesis
    using True c assms(1)
    by (auto simp: execute_run_plan_def refresh_session_def wp_simps Let_def split: sum.split option.split
        intro!: harmless_rule [OF e] run wp_mono [OF restore_in_step [OF _ c(2)]])
qed

end

section \<open>A device that does what it is asked\<close>

text \<open>
  On top of the contract above: an approved configuration and a capture of the held configuration are
  carried out, as long as the client has room for the calls (its counters are 32-bit).
\<close>

locale reliable_client = configurable_client +
  fixes room :: "nat \<Rightarrow> 'a \<Rightarrow> bool"
  assumes apply_total: "wf c \<Longrightarrow> room (Suc k) c \<Longrightarrow> approved config \<Longrightarrow>
      wp (dc_apply_config cl config) (\<lambda>rb c'. rb_config rb = config \<and> room k c') (\<lambda>_ _. False) c"
    and capture_total: "wf c \<Longrightarrow> room (Suc k) c \<Longrightarrow> configured c = Some config \<Longrightarrow> approved config \<Longrightarrow>
      validate_trigger src t = Inr () \<Longrightarrow> wp (dc_capture_once cl config src t) (\<lambda>_. room k) (\<lambda>_ _. False) c"
    and room_less: "room (Suc k) c \<Longrightarrow> room k c"
begin

definition ready :: "ParameterService \<Rightarrow> nat \<Rightarrow> 'a SingleDeviceExecutor \<Rightarrow> bool" where
  "ready svc k s \<longleftrightarrow> in_step svc s \<and> room k (xc_client s)"

text \<open>Callbacks that return, and a plan that nobody cancels.\<close>

definition smooth :: "('a, 'b) meth \<Rightarrow> bool" where
  "smooth m \<longleftrightarrow> (\<forall>c. wf c \<longrightarrow> wp m (\<lambda>_ c'. wf c' \<and> configured c' = configured c \<and> (\<forall>k. room k c \<longrightarrow> room k c'))
     (\<lambda>_ _. False) c)"

definition smooth_env :: "'a PlanEnvironment \<Rightarrow> bool" where
  "smooth_env env \<longleftrightarrow> (\<forall>ms. smooth (pe_sleep env ms)) \<and> pe_cancelled env = mret False \<and>
     (\<forall>f r. pe_on_capture env = Some f \<longrightarrow> smooth (f r))"

lemma smooth_rule:
  assumes "smooth m" "ready svc k s" "\<And>x s'. ready svc k s' \<Longrightarrow> Q x s'"
  shows "wp (on_xc_client m) Q (\<lambda>_ _. False) s"
proof -
  let ?c = "xc_client s"
  have r: "wf ?c" "room k ?c" "xc_inv svc s" "configured ?c = xc_applied_config s" "cs_state (xc_snapshot s) = APPLIED"
    using assms(2) by (simp_all add: ready_def in_step_def)
  have "wp m (\<lambda>_ c'. wf c' \<and> configured c' = configured ?c \<and> (\<forall>k. room k ?c \<longrightarrow> room k c')) (\<lambda>_ _. False) ?c"
    using assms(1) r(1) by (simp add: smooth_def)
  then show ?thesis
    unfolding on_xc_client_def wp_mzoom
    by (rule wp_mono) (auto simp: ready_def in_step_client r intro: assms(3))
qed

lemma apply_total_rule:
  assumes "service_ok svc" "validated_pair svc snap config" "ready svc (Suc k) s"
    "\<And>a s'. ready svc k s' \<Longrightarrow> xc_applied_config s' = Some config \<Longrightarrow> xc_snapshot s' = a \<Longrightarrow> Q a s'"
  shows "wp (apply_validated svc cl snap config) Q (\<lambda>_ _. False) s"
proof -
  let ?c = "xc_client s"
  have r: "wf ?c" "room (Suc k) ?c" "xc_inv svc s" using assms(3) by (simp_all add: ready_def in_step_def)
  have v: "cs_state snap = VALIDATED" "compile_config svc (cs_requested snap) = Inr config" "approved config"
    "validates svc (cs_requested snap) config"
    using assms(2) by (simp_all add: validated_pair_def validates_def)
  obtain a where a: "mark_applied svc snap config = Inr a"
    using mark_applied_ok [OF _ _ _ v(1,2)] assms(1) unfolding service_ok_def by blast
  have ready: "ready svc k (s\<lparr>xc_client := c, xc_applied_config := Some config, xc_session_generation := g, xc_snapshot := a\<rparr>)"
    if "wf c" "configured c = Some config" "room k c" for c g
    using mark_applied_result [OF a] that v(3,4) by (simp add: ready_def in_step_def xc_inv_def)
  have "wp (dc_apply_config cl config) (\<lambda>rb c'. (wf c' \<and> configured c' = Some (rb_config rb)) \<and>
      rb_config rb = config \<and> room k c') (\<lambda>_ _. False) ?c"
    using wp_conj [OF apply_configures [OF r(1)] apply_total [OF r(1,2) v(3)]] by (rule wp_mono) auto
  then show ?thesis
    unfolding apply_validated_def on_xc_client_def wp_mbind wp_mzoom
    by (rule wp_mono) (use ready a in \<open>auto simp: wp_simps intro!: assms(4)\<close>)
qed

lemma capture_total_rule:
  assumes "ready svc (Suc k) s" "xc_applied_config s = Some config" "validate_trigger src t = Inr ()"
    "\<And>cap s'. ready svc k s' \<Longrightarrow> cd_profile_sha256 cap = profile_sha256 config \<Longrightarrow>
      cd_device_config_crc32 cap = device_config_crc32 config \<Longrightarrow> Q cap s'"
  shows "wp (on_xc_client (dc_capture_once cl config src t)) Q (\<lambda>_ _. False) s"
proof -
  let ?c = "xc_client s"
  have r: "wf ?c" "room (Suc k) ?c" "configured ?c = Some config" "in_step svc s" "approved config"
    using assms(1,2) by (auto simp: ready_def in_step_def xc_inv_def)
  have "wp (dc_capture_once cl config src t) (\<lambda>cap c'. (wf c' \<and> configured c' = configured ?c \<and>
          cd_profile_sha256 cap = profile_sha256 config \<and>
          cd_device_config_crc32 cap = device_config_crc32 config) \<and> room k c') (\<lambda>_ _. False) ?c"
    using wp_conj [OF capture_bound [OF r(1)] capture_total [OF r(1-3,5) assms(3)]] by (rule wp_mono) auto
  then show ?thesis
    unfolding on_xc_client_def wp_mzoom
    by (rule wp_mono) (use r in \<open>auto simp: ready_def in_step_client in_step_def intro!: assms(4)\<close>)
qed

lemma ready_less: "ready svc (Suc k) s \<Longrightarrow> ready svc k s"
  by (simp add: ready_def room_less)

lemma readyD:
  assumes "ready svc k s" "xc_applied_config s = Some config"
  shows "cs_state (xc_snapshot s) = APPLIED" "validates svc (cs_requested (xc_snapshot s)) config"
  using assms by (auto simp: ready_def in_step_def xc_inv_def)

lemma plan_step_total:
  assumes "ready svc (Suc (Suc k)) s" "smooth_env env" "service_ok svc"
    and "validated_pair svc (st_snapshot step) (st_compiled step)"
    and "validate_trigger (rp_trigger_source plan) (rp_sync_timeout_ms plan) = Inr ()"
  shows "wp (plan_step svc cl env plan step) (\<lambda>r s'. ready svc k s' \<and> step_capture svc step r) (\<lambda>_ _. False) s"
proof -
  let ?config = "st_compiled step"
  have e: "pe_cancelled env = mret False" "smooth (pe_sleep env ms)" "pe_on_capture env = Some f \<Longrightarrow> smooth (f r)" for ms f r
    using assms(2) by (simp_all add: smooth_env_def)
  have conf: "wp (if xc_applied_config s \<noteq> Some ?config then apply_validated svc cl (st_snapshot step) ?config
      else mret (xc_snapshot s)) (\<lambda>snap s1. ready svc (Suc k) s1 \<and> xc_applied_config s1 = Some ?config \<and>
        cs_state snap = APPLIED \<and> validates svc (cs_requested snap) ?config) (\<lambda>_ _. False) s"
  proof (cases "xc_applied_config s = Some ?config")
    case True
    then show ?thesis using readyD [OF assms(1) True] ready_less [OF assms(1)] by (simp add: wp_simps)
  next
    case False
    then show ?thesis
      by (simp, intro apply_total_rule [OF assms(3,4,1)]) (auto intro: readyD)
  qed
  have cb: "wp (case pe_on_capture env of None \<Rightarrow> mret () | Some f \<Rightarrow> on_xc_client (f r)) (\<lambda>_. ready svc k) (\<lambda>_ _. False) s1"
    if "ready svc k s1" for s1 r
    using that smooth_rule [OF e(3) that] by (cases "pe_on_capture env") (simp_all add: wp_simps)
  have sl: "wp (if b then on_xc_client (pe_sleep env ms) else mret ()) (\<lambda>_. ready svc k) (\<lambda>_ _. False) s1"
    if "ready svc k s1" for s1 b ms
    using that smooth_rule [OF e(2) that] by (cases b) (simp_all add: wp_simps)
  have cancel: "on_xc_client (pe_cancelled env) s = (Inr False, s)" by (simp add: on_xc_client_def mzoom_def e(1))
  have cap: "wp (on_xc_client (dc_capture_once cl ?config (rp_trigger_source plan) (rp_sync_timeout_ms plan)))
      (\<lambda>cap s2. ready svc k s2 \<and> cd_profile_sha256 cap = profile_sha256 ?config \<and>
         cd_device_config_crc32 cap = device_config_crc32 ?config) (\<lambda>_ _. False) s1"
    if "ready svc (Suc k) s1" "xc_applied_config s1 = Some ?config" for s1
    by (rule capture_total_rule [OF that assms(5)]) simp
  have "wp (mbind (if xc_applied_config s \<noteq> Some ?config then apply_validated svc cl (st_snapshot step) ?config
      else mret (xc_snapshot s)) (\<lambda>capture_snapshot.
     mbind (on_xc_client (dc_capture_once cl ?config (rp_trigger_source plan) (rp_sync_timeout_ms plan))) (\<lambda>capture.
     let result = \<lparr>xp_capture = capture, xp_sweep_index = st_sweep_index step,
           xp_loop_index = st_loop_index step, xp_snapshot = capture_snapshot\<rparr> in
     mbind (case pe_on_capture env of None \<Rightarrow> mret () | Some f \<Rightarrow> on_xc_client (f result)) (\<lambda>_.
     mbind (if b then on_xc_client (pe_sleep env ms) else mret ()) (\<lambda>_.
     mret result)))))
     (\<lambda>r s'. ready svc k s' \<and> step_capture svc step r) (\<lambda>_ _. False) s" for b ms
    unfolding Let_def
    by (rule wp_bindI, rule conf, elim conjE, rule wp_bindI, rule cap, assumption+, elim conjE, rule wp_bindI,
        rule cb, assumption, rule wp_bindI, rule sl, assumption) (simp add: wp_mret step_capture_def)
  then show ?thesis
    unfolding plan_step_def wp_mbind [of "on_xc_client (pe_cancelled env)"] wp_def [of "on_xc_client (pe_cancelled env)"] cancel
    by (simp add: wp_mbind [of mget] wp_mbind [of "mguard b e" for b e] wp_mget wp_mguard)
qed

lemma plan_steps_total:
  assumes "ready svc (2 * length steps + k) s" "smooth_env env" "service_ok svc"
    and "\<And>step. step \<in> set steps \<Longrightarrow> validated_pair svc (st_snapshot step) (st_compiled step)"
    and "validate_trigger (rp_trigger_source plan) (rp_sync_timeout_ms plan) = Inr ()"
  shows "wp (plan_steps svc cl env plan steps)
     (\<lambda>rs s'. ready svc k s' \<and> list_all2 (step_capture svc) steps rs) (\<lambda>_ _. False) s"
  using assms(1,4)
proof (induction steps arbitrary: s)
  case (Cons step steps)
  have "ready svc (Suc (Suc (2 * length steps + k))) s" using Cons.prems(1) by (simp add: add.commute)
  note first = plan_step_total [OF this assms(2,3) Cons.prems(2) assms(5), of step]
  show ?case
    using Cons.prems(2)
    by (auto simp: wp_mret intro!: wp_bindI [OF first] wp_bindI [OF Cons.IH])
qed (simp add: wp_simps)

lemma restore_total:
  assumes "ready svc (Suc k) s" "service_ok svc" "validates svc (cs_requested base) config"
  shows "wp (restore_baseline svc cl base config) (\<lambda>_ s'. ready svc k s' \<and> xc_applied_config s' = Some config) (\<lambda>_ _. False) s"
proof -
  obtain r where r: "validate_snapshot svc base = Inr r" "vr_compiled r = Some config"
    using validates_snapshot [OF assms(3)] by blast
  note c = require_compiled_some [OF r(2) validate_snapshot_compiled(1) [OF r]]
  show ?thesis
    using require_compiled_pair(1) [OF r(1) c] ready_less [OF assms(1)]
    by (auto simp: restore_baseline_def wp_simps r(1) c intro!: apply_total_rule [OF assms(2) _ assms(1)])
qed

text \<open>A plan that compiles runs to its end, and leaves the device as it found it.\<close>

lemma run_plan_total:
  assumes "service_ok svc" "smooth_env env" "compile_run_steps svc (xc_snapshot s) plan = Inr steps"
    and "ready svc (2 * length (steps_iter steps) + Suc k) s"
    and "pub_session_generation (published_session cl s) = xc_session_generation s"
  shows "wp (execute_run_plan svc cl env plan) (\<lambda>rs s'. ready svc k s' \<and> xc_applied_config s' = xc_applied_config s \<and>
      (pe_on_capture env = None \<longrightarrow> list_all2 (step_capture svc) (steps_iter steps) rs)) (\<lambda>_ _. False) s"
proof -
  obtain config where c: "xc_applied_config s = Some config" "validates svc (cs_requested (xc_snapshot s)) config"
    and st: "cs_state (xc_snapshot s) = APPLIED"
    using assms(4) by (auto simp: ready_def in_step_def xc_inv_def)
  have e: "smooth (pe_sleep env ms)" for ms using assms(2) by (simp add: smooth_env_def)
  have delay: "wp (if b then on_xc_client (pe_sleep env ms) else mret ()) (\<lambda>_. ready svc (2 * length (steps_iter steps) + Suc k))
      (\<lambda>_ _. False) s" for b ms
    using assms(4) smooth_rule [OF e assms(4)] by (cases b) (simp_all add: wp_simps)
  note run = plan_steps_total [OF _ assms(2,1) compiled_step_pair [OF assms(3)] compiled_plan_trigger [OF assms(3)]]
  have body: "wp (mfinally (plan_steps svc cl env plan (steps_iter steps)) (restore_baseline svc cl (xc_snapshot s) config))
      (\<lambda>rs s'. (ready svc k s' \<and> xc_applied_config s' = Some config) \<and> list_all2 (step_capture svc) (steps_iter steps) rs)
      (\<lambda>_ _. False) s1" if "ready svc (2 * length (steps_iter steps) + Suc k) s1" for s1
    unfolding wp_mfinally
    by (rule wp_mono [OF run [OF that]]) (auto intro: wp_mono [OF restore_total [OF _ assms(1) c(2)]])
  have "wp (mbind (if b then on_xc_client (pe_sleep env ms) else mret ()) (\<lambda>_.
         mbind (mfinally (plan_steps svc cl env plan (steps_iter steps))
                  (restore_baseline svc cl (xc_snapshot s) config)) (\<lambda>results.
         mret (case pe_on_capture env of None \<Rightarrow> results | Some _ \<Rightarrow> []))))
     (\<lambda>rs s'. ready svc k s' \<and> xc_applied_config s' = Some config \<and>
      (pe_on_capture env = None \<longrightarrow> list_all2 (step_capture svc) (steps_iter steps) rs)) (\<lambda>_ _. False) s" for b ms
    by (rule wp_bindI, rule delay, rule wp_bindI, rule body, assumption) (auto simp: wp_mret split: option.split)
  then show ?thesis
    by (simp add: execute_run_plan_def refresh_session_def wp_mbind [of "mbind x y" for x y] wp_mbind [of mget]
        wp_mbind [of "mlift r" for r] wp_mget wp_mlift wp_mret assms(3,5) st c Let_def)
qed

end

section \<open>The simulated device\<close>

definition sim_configured :: "SimulatedDeviceClient \<times> nat \<Rightarrow> AcquisitionConfigV2 option" where
  "sim_configured s = sd_config (scl_device (fst s))"

definition sim_wf :: "SimulatedDeviceClient \<times> nat \<Rightarrow> bool" where
  "sim_wf s \<longleftrightarrow> fresh (fst s)"

lemma wp_clocked:
  "wp (clocked clock m) Q E (c, n) \<longleftrightarrow> wp (m (clock n)) (\<lambda>x c'. Q x (c', Suc n)) (\<lambda>e c'. E e (c', Suc n)) c"
  by (simp add: wp_def clocked_def split: prod.splits sum.splits)

lemma fresh_irrelevant [simp]:
  "fresh (c\<lparr>scl_identifier_counter := i\<rparr>) = fresh c" "fresh (c\<lparr>scl_last_acked_type := a\<rparr>) = fresh c"
  "fresh (c\<lparr>scl_capture_wire_frames := w\<rparr>) = fresh c"
  by (simp_all add: fresh_def)

lemma helpers_keep_fresh:
  "keeps fresh (new_identifier p)" "keeps fresh (require_count fs n)" "keeps fresh (require_ack f r t)"
  "keeps fresh (keep_wire_frame i f)"
  unfolding new_identifier_def require_count_def require_ack_def keep_wire_frame_def
  by (auto intro!: keeps_bind keeps_mupd)

lemma client_keeps_fresh:
  "keeps fresh (client_apply_config t config)" "keeps fresh (client_capture_once t config src ms)"
  unfolding client_apply_config_def client_capture_once_def Let_def
  by (auto intro!: keeps_bind helpers_keep_fresh exchange_keeps_fresh)

text \<open>The read-back is what the device holds.\<close>

lemma get_config_exchange:
  assumes "fresh c" "exchange t GET_CONFIG (Inr []) c = (Inr rs, c')" "decode_config_v2 (payload (hd rs)) = Inr config"
  shows "sd_config (scl_device c') = Some config"
proof -
  obtain d' where d: "dispatch t (request_frame c GET_CONFIG []) (scl_device c) = (Inr rs, d')"
    "sd_config (scl_device c') = sd_config d'"
    using assms(1,2) exchange_ok_iff [OF assms(1), of t GET_CONFIG "Inr []"] by auto
  have "message_type (request_frame c GET_CONFIG []) = GET_CONFIG" by (simp add: request_frame_def mk_frame_def)
  then obtain held p where "sd_config d' = Some held" "encode_config_v2 held = Inr p"
    "rs = [mk_frame GET_CONFIG (sequence (request_frame c GET_CONFIG [])) p FLAG_RESPONSE]"
    using d(1) by (auto simp: dispatch_def sim_get_config_def mbind_ok_iff sim_helper_defs mguard_run
        split: option.splits if_splits)
  then show ?thesis using assms(3) d(2) config_codec.dec_enc by (auto simp: mk_frame_def)
qed

lemma apply_reads_back:
  assumes "fresh c" "client_apply_config t config c = (Inr rb, c')"
  shows "sd_config (scl_device c') = Some (rb_config rb)"
proof -
  obtain c1 rs where g: "exchange t GET_CONFIG (Inr []) c1 = (Inr rs, c')"
    "decode_config_v2 (payload (hd rs)) = Inr (rb_config rb)" "fresh c1"
  proof -
    obtain rid c2 where i: "new_identifier ''set-config'' c = (Inr rid, c2)"
      using assms(2) by (auto simp: client_apply_config_def mbind_ok_iff)
    then have "fresh c2" using keepsD [OF helpers_keep_fresh(1) assms(1), of "''set-config''"] by simp
    then obtain enc fs c3 where x: "exchange t SET_CONFIG enc c2 = (Inr fs, c3)" "fresh c3"
      and r: "mbind (require_count fs 1) (\<lambda>_. mbind (require_ack (hd fs) rid SET_CONFIG) (\<lambda>_.
        mbind (exchange t GET_CONFIG (Inr [])) (\<lambda>readback_frames. mbind (require_count readback_frames 1) (\<lambda>_.
        mbind (mlift (decode_config_v2 (payload (hd readback_frames)))) (\<lambda>readback.
        mret \<lparr>rb_config = readback\<rparr>))))) c3 = (Inr rb, c')"
      using assms(2) i keepsD [OF exchange_keeps_fresh, of c2 t SET_CONFIG]
      by (auto simp: client_apply_config_def mbind_ok_iff Let_def) (metis snd_conv)
    obtain c4 where a: "require_ack (hd fs) rid SET_CONFIG c3 = (Inr (), c4)"
      and g: "mbind (exchange t GET_CONFIG (Inr [])) (\<lambda>readback_frames. mbind (require_count readback_frames 1) (\<lambda>_.
        mbind (mlift (decode_config_v2 (payload (hd readback_frames)))) (\<lambda>readback.
        mret \<lparr>rb_config = readback\<rparr>))) c4 = (Inr rb, c')"
      using r by (auto simp: mbind_ok_iff require_count_def mguard_run split: if_splits)
    have "fresh c4" using keepsD [OF helpers_keep_fresh(3) x(2), of "hd fs" rid SET_CONFIG] a by simp
    then show thesis using g that by (auto simp: mbind_ok_iff require_count_def mguard_run split: if_splits)
  qed
  show ?thesis by (rule get_config_exchange [OF g(3,1,2)])
qed

text \<open>The device refuses a capture for another configuration than the one it holds.\<close>

lemma capture_dispatch:
  assumes "dispatch t (request_frame c CAPTURE_ONCE p) d = (Inr rs, d')" "encode_capture_once_request req = Inr p"
    "decode_capture_data (payload (rs ! 1)) = Inr cap"
  shows "sd_config d' = sd_config d" "cd_profile_sha256 cap = co_expected_profile_sha256 req"
    "cd_device_config_crc32 cap = co_expected_device_config_crc32 req"
proof -
  have f: "message_type (request_frame c CAPTURE_ONCE p) = CAPTURE_ONCE" "payload (request_frame c CAPTURE_ONCE p) = p"
    by (simp_all add: request_frame_def mk_frame_def)
  have dec: "decode_capture_once_request p = Inr req" by (rule capture_once.dec_enc [OF assms(2)])
  obtain config b q qs data where c: "sd_config d = Some config" "sd_config d' = Some config"
    "co_expected_profile_sha256 req = profile_sha256 config"
    "co_expected_device_config_crc32 req = device_config_crc32 config" "payload (rs ! 1) = data"
    and enc: "encode_capture_data (sim_capture_record config b (co_request_id req) (replicate 16 0) q qs) = Inr data"
    using assms(1) dec
    by (auto simp: dispatch_def f sim_capture_once_def mbind_ok_iff sim_helper_defs mguard_run make_capture_def mk_frame_def
        split: option.splits if_splits)
  have "cap = sim_capture_record config b (co_request_id req) (replicate 16 0) q qs"
    using assms(3) capture_codec.dec_enc [OF enc] c(5) by simp
  then show "sd_config d' = sd_config d" "cd_profile_sha256 cap = co_expected_profile_sha256 req"
    "cd_device_config_crc32 cap = co_expected_device_config_crc32 req"
    using c by (simp_all add: sim_capture_record_def)
qed

lemma capture_reads_config:
  assumes "fresh c" "client_capture_once t config src ms c = (Inr cap, c')"
  shows "sd_config (scl_device c') = sd_config (scl_device c) \<and> cd_profile_sha256 cap = profile_sha256 config \<and>
    cd_device_config_crc32 cap = device_config_crc32 config"
proof -
  obtain rid c1 where i: "new_identifier ''capture-once'' c = (Inr rid, c1)" "scl_device c1 = scl_device c"
    using assms(2) by (auto simp: client_capture_once_def mbind_ok_iff new_identifier_def)
  then have f: "fresh c1" using keepsD [OF helpers_keep_fresh(1) assms(1), of "''capture-once''"] by simp
  let ?enc = "case map_of TRIGGER_CODES src of None \<Rightarrow> Inl KeyError
     | Some code \<Rightarrow> encode_capture_once_request
         \<lparr>co_request_id = rid, co_expected_profile_sha256 = profile_sha256 config,
          co_expected_device_config_crc32 = device_config_crc32 config,
          co_trigger_source = code, co_sync_timeout_ms = ms\<rparr>"
  obtain rs c2 where x: "exchange t CAPTURE_ONCE ?enc c1 = (Inr rs, c2)"
    and rest: "decode_capture_data (payload (rs ! 1)) = Inr cap" "scl_device c' = scl_device c2"
    using assms(2) i
    by (auto simp: client_capture_once_def mbind_ok_iff require_count_def require_ack_def keep_wire_frame_def mguard_run
        split: if_splits)
  obtain p d' where p: "?enc = Inr p" "dispatch t (request_frame c1 CAPTURE_ONCE p) (scl_device c1) = (Inr rs, d')"
    "sd_config (scl_device c2) = sd_config d'"
    using x exchange_ok_iff [OF f] by auto
  obtain code where e: "encode_capture_once_request \<lparr>co_request_id = rid, co_expected_profile_sha256 = profile_sha256 config,
          co_expected_device_config_crc32 = device_config_crc32 config,
          co_trigger_source = code, co_sync_timeout_ms = ms\<rparr> = Inr p"
    using p(1) by (auto split: option.splits)
  show ?thesis using capture_dispatch [OF p(2) e rest(1)] p(3) rest(2) i(2) by simp
qed

interpretation sim_configurable: configurable_client "sim_device_client clock" sim_configured sim_wf for clock
proof unfold_locales
  fix c :: "SimulatedDeviceClient \<times> nat" and config src t
  assume wf: "sim_wf c"
  obtain d n where c: "c = (d, n)" by force
  then have f: "fresh d" using wf by (simp add: sim_wf_def)
  have k: "m d = (r, d') \<Longrightarrow> keeps fresh m \<Longrightarrow> fresh d'" for m r d'
    using f by (auto dest: keepsD)
  show "wp (dc_apply_config (sim_device_client clock) config)
      (\<lambda>rb c'. sim_wf c' \<and> sim_configured c' = Some (rb_config rb)) (\<lambda>_. sim_wf) c"
    using f by (simp add: sim_device_client_def c wp_clocked sim_wf_def sim_configured_def)
      (auto simp: wp_outcome intro: k client_keeps_fresh apply_reads_back)
  show "wp (dc_capture_once (sim_device_client clock) config src t)
      (\<lambda>cap c'. sim_wf c' \<and> sim_configured c' = sim_configured c \<and> cd_profile_sha256 cap = profile_sha256 config \<and>
         cd_device_config_crc32 cap = device_config_crc32 config) (\<lambda>_. sim_wf) c"
    using capture_reads_config [OF f]
    by (simp add: sim_device_client_def c wp_clocked sim_wf_def sim_configured_def)
      (auto simp: wp_outcome intro: k client_keeps_fresh)
qed

text \<open>The simulator carries out what is asked while its 32-bit counters last.\<close>

definition sim_room :: "nat \<Rightarrow> SimulatedDeviceClient \<times> nat \<Rightarrow> bool" where
  "sim_room k s \<longleftrightarrow> (case s of (c, _) \<Rightarrow>
     pred_option approved (sd_config (scl_device c)) \<and>
     (\<exists>b. sd_boot_id (scl_device c) = Some b \<and> length b = 16) \<and>
     0 \<le> scl_identifier_counter c \<and> scl_identifier_counter c + int k < 2 ^ 32 \<and>
     0 \<le> scl_sequence c \<and> scl_sequence c + 2 * int k < 2 ^ 32 \<and>
     0 \<le> sd_capture_sequence (scl_device c) \<and> sd_capture_sequence (scl_device c) + int k < 2 ^ 32)"

lemma new_identifier_run:
  assumes "0 \<le> scl_identifier_counter c" "scl_identifier_counter c + 1 < 2 ^ 32"
  obtains rid where "new_identifier p c = (Inr rid, c\<lparr>scl_identifier_counter := scl_identifier_counter c + 1\<rparr>)"
    "length rid = 16"
  using assms by (simp add: new_identifier_def mbind_run to_bytes_4_little_def)

definition after_exchange :: "SimulatedDeviceClient \<Rightarrow> MessageType \<Rightarrow> bytes \<Rightarrow> Frame list \<Rightarrow> SimulatedDevice \<Rightarrow> SimulatedDeviceClient" where
  "after_exchange c t p rs d = c\<lparr>scl_sequence := scl_sequence c + 1,
     scl_device := d\<lparr>sd_completed := (sd_completed d)(cache_key (request_frame c t p) \<mapsto> rs)\<rparr>\<rparr>"

lemma exchange_run:
  assumes "fresh c" "dispatch clock (request_frame c t p) (scl_device c) = (Inr rs, d)"
  shows "exchange clock t (Inr p) c = (Inr rs, after_exchange c t p rs d)" "fresh (after_exchange c t p rs d)"
proof -
  show e: "exchange clock t (Inr p) c = (Inr rs, after_exchange c t p rs d)"
    using assms by (auto simp: exchange_ok_iff after_exchange_def)
  show "fresh (after_exchange c t p rs d)"
    using keepsD [OF exchange_keeps_fresh assms(1), of clock t "Inr p"] e by simp
qed

lemma after_exchange_simps [simp]:
  "scl_sequence (after_exchange c t p rs d) = scl_sequence c + 1"
  "scl_identifier_counter (after_exchange c t p rs d) = scl_identifier_counter c"
  "sd_config (scl_device (after_exchange c t p rs d)) = sd_config d"
  "sd_boot_id (scl_device (after_exchange c t p rs d)) = sd_boot_id d"
  "sd_capture_sequence (scl_device (after_exchange c t p rs d)) = sd_capture_sequence d"
  by (simp_all add: after_exchange_def)

lemma ack_encodes:
  assumes "length rid = 16" "config_ok config" "t \<in> {SET_CONFIG, CAPTURE_ONCE}"
  shows "\<exists>q. encode_ack \<lparr>ack_request_id = rid, ack_acked_type = type_code t, ack_resulting_state = 2,
      ack_status_code = 0, ack_device_config_crc32 = device_config_crc32 config\<rparr> = Inr q"
  using assms by (auto simp: config_ok_def encode_ack_def ack_tuple_def ack_layout_def codec_simps fits_packs)

lemma require_ack_run:
  assumes "encode_ack \<lparr>ack_request_id = rid, ack_acked_type = type_code t, ack_resulting_state = st,
      ack_status_code = sc, ack_device_config_crc32 = crc\<rparr> = Inr q"
  shows "require_ack (mk_frame ACK sq q FLAG_RESPONSE) rid t c = (Inr (), c\<lparr>scl_last_acked_type := Some t\<rparr>)"
  using assms [THEN ack.dec_iff [THEN iffD2]] by (simp add: require_ack_def mbind_run mguard_run mk_frame_def)

lemma set_config_dispatch:
  assumes "approved config" "sd_boot_id d \<noteq> None" "length rid = 16"
    "e = (case sd_config d of Some old \<Rightarrow> profile_sha256 old | None \<Rightarrow> replicate 32 0)" "length e = 32"
  obtains p q where "encode_set_config_request \<lparr>sc_request_id = rid, sc_expected_profile_sha256 = e, sc_config = config\<rparr> = Inr p"
    "encode_ack \<lparr>ack_request_id = rid, ack_acked_type = type_code SET_CONFIG, ack_resulting_state = 2,
      ack_status_code = 0, ack_device_config_crc32 = device_config_crc32 config\<rparr> = Inr q"
    "dispatch t (request_frame c SET_CONFIG p) d = (Inr [mk_frame ACK (scl_sequence c + 1) q FLAG_RESPONSE], d\<lparr>sd_config := Some config\<rparr>)"
proof -
  let ?m = "\<lparr>sc_request_id = rid, sc_expected_profile_sha256 = e, sc_config = config\<rparr>"
  have c: "config_ok config" "boostxl_safe config" using assms(1) by (simp_all add: approved_def)
  obtain p where p: "encode_set_config_request ?m = Inr p"
    using c assms(3,5) by (simp add: encode_set_config_request_def encode_config_v2_eq fixed_bytes_def)
  obtain q where q: "encode_ack \<lparr>ack_request_id = rid, ack_acked_type = type_code SET_CONFIG, ack_resulting_state = 2,
      ack_status_code = 0, ack_device_config_crc32 = device_config_crc32 config\<rparr> = Inr q"
    using ack_encodes [OF assms(3) c(1)] by blast
  have "decode_set_config_request p = Inr ?m" using p by (simp add: set_config.dec_iff)
  then have "dispatch t (request_frame c SET_CONFIG p) d =
      (Inr [mk_frame ACK (scl_sequence c + 1) q FLAG_RESPONSE], d\<lparr>sd_config := Some config\<rparr>)"
    using assms(2,4) q c(2)
    by (simp add: dispatch_def request_frame_def mk_frame_def sim_set_config_def sim_run_simps validate_boostxl_eq
        split: option.split)
  with p q that show thesis by blast
qed

lemma get_config_dispatch:
  assumes "sd_config d = Some config" "config_ok config"
  shows "dispatch t (request_frame c GET_CONFIG []) d =
    (Inr [mk_frame GET_CONFIG (scl_sequence c + 1) (config_bytes config) FLAG_RESPONSE], d)"
  using assms by (simp add: dispatch_def request_frame_def mk_frame_def sim_get_config_def sim_run_simps encode_config_v2_eq)

lemma client_apply_total:
  assumes "fresh c" "sim_room (Suc k) (c, n)" "approved config"
  shows "\<exists>c'. client_apply_config t config c = (Inr \<lparr>rb_config = config\<rparr>, c') \<and> sim_room k (c', m)"
proof -
  have r: "0 \<le> scl_identifier_counter c" "scl_identifier_counter c + 1 < 2 ^ 32" "sd_boot_id (scl_device c) \<noteq> None"
    using assms(2) by (auto simp: sim_room_def)
  have c: "config_ok config" using assms(3) by (simp add: approved_def)
  obtain rid where i: "new_identifier ''set-config'' c = (Inr rid, c\<lparr>scl_identifier_counter := scl_identifier_counter c + 1\<rparr>)"
    "length rid = 16" using r(1,2) by (rule new_identifier_run)
  define c1 where "c1 = c\<lparr>scl_identifier_counter := scl_identifier_counter c + 1\<rparr>"
  have c1: "fresh c1" "scl_device c1 = scl_device c" using assms(1) by (simp_all add: c1_def)
  let ?e = "case sd_config (scl_device c1) of Some old \<Rightarrow> profile_sha256 old | None \<Rightarrow> replicate 32 0"
  have e: "length ?e = 32" "sd_boot_id (scl_device c1) \<noteq> None"
    using assms(2) by (auto simp: sim_room_def approved_def config_ok_def c1(2) split: option.split)
  obtain p q where p: "encode_set_config_request \<lparr>sc_request_id = rid, sc_expected_profile_sha256 = ?e, sc_config = config\<rparr> = Inr p"
    and q: "encode_ack \<lparr>ack_request_id = rid, ack_acked_type = type_code SET_CONFIG, ack_resulting_state = 2,
      ack_status_code = 0, ack_device_config_crc32 = device_config_crc32 config\<rparr> = Inr q"
    and d: "dispatch t (request_frame c1 SET_CONFIG p) (scl_device c1) =
      (Inr [mk_frame ACK (scl_sequence c1 + 1) q FLAG_RESPONSE], (scl_device c1)\<lparr>sd_config := Some config\<rparr>)"
    using set_config_dispatch [OF assms(3) e(2) i(2) refl e(1)] by blast
  note x1 = exchange_run [OF c1(1) d]
  define c2 where "c2 = (after_exchange c1 SET_CONFIG p [mk_frame ACK (scl_sequence c1 + 1) q FLAG_RESPONSE]
      ((scl_device c1)\<lparr>sd_config := Some config\<rparr>))\<lparr>scl_last_acked_type := Some SET_CONFIG\<rparr>"
  have c2: "fresh c2" "sd_config (scl_device c2) = Some config" using x1(2) by (simp_all add: c2_def)
  note x2 = exchange_run [OF c2(1) get_config_dispatch [OF c2(2) c]]
  let ?c' = "after_exchange c2 GET_CONFIG [] [mk_frame GET_CONFIG (scl_sequence c2 + 1) (config_bytes config) FLAG_RESPONSE] (scl_device c2)"
  have "decode_config_v2 (config_bytes config) = Inr config"
    using c config_codec.dec_enc by (simp add: encode_config_v2_eq)
  then have "client_apply_config t config c = (Inr \<lparr>rb_config = config\<rparr>, ?c')"
    using i(1) p x1(1) x2(1) require_ack_run [OF q]
    by (simp add: client_apply_config_def mbind_run require_count_def mguard_run Let_def c1_def [symmetric] c2_def [symmetric])
  moreover have "sim_room k (?c', m)" using assms(2,3) by (simp add: sim_room_def c1_def c2_def)
  ultimately show ?thesis by blast
qed

lemma capture_once_dispatch:
  assumes "sd_config d = Some config" "approved config" "sd_boot_id d = Some b" "length b = 16" "length rid = 16"
    "0 \<le> sd_capture_sequence d" "sd_capture_sequence d + 1 < 2 ^ 32" "validate_trigger src ms = Inr ()"
  obtains code p q data where "map_of TRIGGER_CODES src = Some code"
    "encode_capture_once_request \<lparr>co_request_id = rid, co_expected_profile_sha256 = profile_sha256 config,
       co_expected_device_config_crc32 = device_config_crc32 config, co_trigger_source = code, co_sync_timeout_ms = ms\<rparr> = Inr p"
    "encode_ack \<lparr>ack_request_id = rid, ack_acked_type = type_code CAPTURE_ONCE, ack_resulting_state = 2,
       ack_status_code = 0, ack_device_config_crc32 = device_config_crc32 config\<rparr> = Inr q"
    "is_ok (decode_capture_data data)" "188 \<le> length data" "length data \<le> 4576"
    "dispatch t (request_frame c CAPTURE_ONCE p) d =
      (Inr [mk_frame ACK (scl_sequence c + 1) q FLAG_RESPONSE, mk_frame CAPTURE_DATA (scl_sequence c + 1) data FLAG_RESPONSE],
       d\<lparr>sd_capture_sequence := sd_capture_sequence d + 1\<rparr>)"
proof -
  have c: "config_ok config" "boostxl_safe config" "length (profile_sha256 config) = 32"
    "0 \<le> device_config_crc32 config" "device_config_crc32 config < 4294967296"
    using assms(2) by (simp_all add: approved_def config_ok_def)
  obtain code where code: "map_of TRIGGER_CODES src = Some code" "code \<in> {0, 1, 2}"
    "code = 1 \<longrightarrow> 1 \<le> ms \<and> ms \<le> 60000" "code \<noteq> 1 \<longrightarrow> ms = 0"
    using assms(8) by (auto simp: validate_trigger_def TRIGGER_CODES_def split: if_splits)
  let ?m = "\<lparr>co_request_id = rid, co_expected_profile_sha256 = profile_sha256 config,
       co_expected_device_config_crc32 = device_config_crc32 config, co_trigger_source = code, co_sync_timeout_ms = ms\<rparr>"
  obtain p where p: "encode_capture_once_request ?m = Inr p"
    using code(2-4) c assms(5)
    by (auto simp: encode_capture_once_request_def capture_once_tuple_def capture_once_layout_def codec_simps fits_packs)
  obtain q where q: "encode_ack \<lparr>ack_request_id = rid, ack_acked_type = type_code CAPTURE_ONCE, ack_resulting_state = 2,
       ack_status_code = 0, ack_device_config_crc32 = device_config_crc32 config\<rparr> = Inr q"
    using ack_encodes [OF assms(5) c(1)] by blast
  let ?n = "sd_capture_sequence d + 1"
  obtain data where data: "encode_capture_data (sim_capture_record config b rid (replicate 16 0) ?n (le_bytes 4 ?n)) = Inr data"
    "length data \<le> 4576" "188 \<le> length data"
    using sim_capture_encodes [OF c(1,2) assms(4,5), of "replicate 16 0" ?n "le_bytes 4 ?n"] assms(6,7) by auto
  have "decode_capture_once_request p = Inr ?m" by (rule capture_once.dec_enc [OF p])
  then have d: "dispatch t (request_frame c CAPTURE_ONCE p) d =
      (Inr [mk_frame ACK (scl_sequence c + 1) q FLAG_RESPONSE, mk_frame CAPTURE_DATA (scl_sequence c + 1) data FLAG_RESPONSE],
       d\<lparr>sd_capture_sequence := sd_capture_sequence d + 1\<rparr>)"
    using assms(1,3,6,7) q data(1)
    by (simp add: dispatch_def request_frame_def mk_frame_def sim_capture_once_def mbind_run mguard_run sim_helper_defs
        make_capture_run)
  have "is_ok (decode_capture_data data)" using capture_codec.dec_enc [OF data(1)] by (simp add: is_ok_def)
  with code(1) p q data(2,3) d that show thesis by blast
qed

lemma client_capture_total:
  assumes "fresh c" "sim_room (Suc k) (c, n)" "sd_config (scl_device c) = Some config" "approved config"
    "validate_trigger src ms = Inr ()"
  shows "\<exists>cap c'. client_capture_once t config src ms c = (Inr cap, c') \<and> sim_room k (c', m)"
proof -
  have r: "0 \<le> scl_identifier_counter c" "scl_identifier_counter c + 1 < 2 ^ 32" using assms(2) by (auto simp: sim_room_def)
  obtain rid where i: "new_identifier ''capture-once'' c = (Inr rid, c\<lparr>scl_identifier_counter := scl_identifier_counter c + 1\<rparr>)"
    "length rid = 16" using r by (rule new_identifier_run)
  define c1 where "c1 = c\<lparr>scl_identifier_counter := scl_identifier_counter c + 1\<rparr>"
  have c1: "fresh c1" "scl_device c1 = scl_device c" "scl_sequence c1 = scl_sequence c" using assms(1) by (simp_all add: c1_def)
  obtain b where b: "sd_boot_id (scl_device c1) = Some b" "length b = 16" "sd_config (scl_device c1) = Some config"
    "0 \<le> sd_capture_sequence (scl_device c1)" "sd_capture_sequence (scl_device c1) + 1 < 2 ^ 32"
    "0 \<le> scl_sequence c1" "scl_sequence c1 + 1 < 4294967296"
    using assms(2,3) by (auto simp: sim_room_def c1)
  obtain code p q data where p: "map_of TRIGGER_CODES src = Some code"
      "encode_capture_once_request \<lparr>co_request_id = rid, co_expected_profile_sha256 = profile_sha256 config,
         co_expected_device_config_crc32 = device_config_crc32 config, co_trigger_source = code, co_sync_timeout_ms = ms\<rparr> = Inr p"
    and q: "encode_ack \<lparr>ack_request_id = rid, ack_acked_type = type_code CAPTURE_ONCE, ack_resulting_state = 2,
         ack_status_code = 0, ack_device_config_crc32 = device_config_crc32 config\<rparr> = Inr q"
    and data: "is_ok (decode_capture_data data)" "188 \<le> length data" "length data \<le> 4576"
    and d: "dispatch t (request_frame c1 CAPTURE_ONCE p) (scl_device c1) =
        (Inr [mk_frame ACK (scl_sequence c1 + 1) q FLAG_RESPONSE, mk_frame CAPTURE_DATA (scl_sequence c1 + 1) data FLAG_RESPONSE],
         (scl_device c1)\<lparr>sd_capture_sequence := sd_capture_sequence (scl_device c1) + 1\<rparr>)"
    by (rule capture_once_dispatch [OF b(3) assms(4) b(1,2) i(2) b(4,5) assms(5)])
  obtain cap where cap: "decode_capture_data data = Inr cap" using data(1) by (auto simp: is_ok_def)
  have "accepted (mk_frame CAPTURE_DATA (scl_sequence c1 + 1) data FLAG_RESPONSE)"
    using data(2,3) b(6,7) by (intro accepted_capture) auto
  then obtain w where w: "encode_frame (mk_frame CAPTURE_DATA (scl_sequence c1 + 1) data FLAG_RESPONSE) = Inr w"
    by (auto simp: accepted_def encode_frame_iff)
  note x = exchange_run [OF c1(1) d]
  show ?thesis
    using i(1) p x(1) require_ack_run [OF q] cap w assms(2)
    by (simp add: client_capture_once_def mbind_run require_count_def mguard_run keep_wire_frame_def c1_def [symmetric])
      (simp add: mk_frame_def sim_room_def after_exchange_def c1_def)
qed

interpretation sim_reliable: reliable_client "sim_device_client clock" sim_configured sim_wf sim_room for clock
proof unfold_locales
  fix c :: "SimulatedDeviceClient \<times> nat" and config src t k
  obtain d n where c: "c = (d, n)" by force
  show "wp (dc_apply_config (sim_device_client clock) config) (\<lambda>rb c'. rb_config rb = config \<and> sim_room k c') (\<lambda>_ _. False) c"
    if "sim_wf c" "sim_room (Suc k) c" "approved config"
    using that client_apply_total [of d k n config "clock n" "Suc n"]
    by (auto simp: sim_device_client_def c clocked_def sim_wf_def wp_def)
  show "wp (dc_capture_once (sim_device_client clock) config src t) (\<lambda>_. sim_room k) (\<lambda>_ _. False) c"
    if "sim_wf c" "sim_room (Suc k) c" "sim_configured c = Some config" "approved config" "validate_trigger src t = Inr ()"
    using that client_capture_total [of d k n config src t "clock n" "Suc n"]
    by (auto simp: sim_device_client_def c clocked_def sim_wf_def wp_def sim_configured_def)
  show "sim_room k c" if "sim_room (Suc k) c" using that by (auto simp: sim_room_def)
qed

section \<open>Properties\<close>

definition plain_env :: "'c PlanEnvironment" where
  "plain_env = \<lparr>pe_sleep = (\<lambda>_. mret ()), pe_cancelled = mret False, pe_on_capture = None\<rparr>"

text \<open>C11 (liveness). A plan that compiles on the simulated device runs to its end: the executor returns exactly
  one capture for every step, in the order of the steps, each taken under an APPLIED snapshot
  whose requested values compile to that step's configuration, and each naming the digest and CRC of that
  configuration and the step's sweep and loop index; and afterwards the device holds the
  configuration it held before the plan, and the executor publishes it as APPLIED again.\<close>

theorem run_plan_completes:
  assumes "service_ok svc" "xc_inv svc s" "cs_state (xc_snapshot s) = APPLIED"
    and "xc_client s = (c, n)" "fresh c" "sd_config (scl_device c) = xc_applied_config s"
    and "xc_session_generation s = pub_session_generation (sim_published_session c)"
    and "compile_run_steps svc (xc_snapshot s) plan = Inr steps"
    and "sim_room (2 * length (steps_iter steps) + 1) (c, n)"
  shows "\<exists>rs s'. execute_run_plan svc (sim_device_client clock) plain_env plan s = (Inr rs, s') \<and>
    list_all2 (step_capture svc) (steps_iter steps) rs \<and>
    xc_applied_config s' = xc_applied_config s \<and>
    sd_config (scl_device (fst (xc_client s'))) = xc_applied_config s \<and>
    cs_state (xc_snapshot s') = APPLIED \<and>
    validates svc (cs_requested (xc_snapshot s')) (the (xc_applied_config s))"
proof -
  have e: "sim_reliable.smooth_env plain_env"
    by (simp add: sim_reliable.smooth_env_def plain_env_def sim_reliable.smooth_def wp_simps)
  have r: "sim_reliable.ready svc (2 * length (steps_iter steps) + Suc 0) s"
    using assms(2-6,9) by (simp add: sim_reliable.ready_def sim_configurable.in_step_def sim_wf_def sim_configured_def)
  have g: "pub_session_generation (published_session (sim_device_client clock) s) = xc_session_generation s"
    using assms(4,7) by (simp add: published_session_def sim_device_client_def)
  from sim_reliable.run_plan_total [OF assms(1) e assms(8) r g]
  obtain rs s' where run: "execute_run_plan svc (sim_device_client clock) plain_env plan s = (Inr rs, s')"
    and s': "sim_reliable.ready svc 0 s'" "xc_applied_config s' = xc_applied_config s"
      "list_all2 (step_capture svc) (steps_iter steps) rs"
    by (auto simp: wp_def plain_env_def split: prod.splits sum.splits)
  have "sim_configured (xc_client s') = xc_applied_config s'" "cs_state (xc_snapshot s') = APPLIED" "xc_inv svc s'"
    using s'(1) by (simp_all add: sim_reliable.ready_def sim_configurable.in_step_def)
  then show ?thesis using run s'(2,3) by (auto simp: sim_configured_def xc_inv_def)
qed

theorem run_plan_completes_witness:
  "\<exists>s steps rs s'. compile_run_steps demo_service (xc_snapshot s) demo_plan = Inr steps \<and>
     execute_run_plan demo_service (sim_device_client (\<lambda>_. 0)) plain_env demo_plan s = (Inr rs, s') \<and>
     length rs = 2 \<and> list_all2 (step_capture demo_service) (steps_iter steps) rs"
proof -
  obtain d r config where d: "new_draft demo_service = Inr d" "validate_snapshot demo_service d = Inr r"
    "vr_compiled r = Some config"
    using default_draft_validates by blast
  have svc: "service_ok demo_service"
    using registry_ok registry_names by (simp add: service_ok_def demo_service_def)
  note pair = require_compiled_pair [OF d(2) require_compiled_some [OF d(3) validate_snapshot_compiled(1) [OF d(2,3)]]]
  have v: "validates demo_service (cs_requested d) config" "cs_state (vr_snapshot r) = VALIDATED"
    using pair by (simp_all add: validated_pair_def)
  then have comp: "compile_config demo_service (cs_requested (vr_snapshot r)) = Inr config" "approved config"
    using pair(2) by (simp_all add: validates_def)
  obtain a where a: "mark_applied demo_service (vr_snapshot r) config = Inr a"
    using mark_applied_ok [OF _ _ _ v(2) comp(1)] svc unfolding service_ok_def by blast
  have va: "validates demo_service (cs_requested a) config" "cs_state a = APPLIED"
    using mark_applied_result [OF a] v(1) pair(2) by simp_all
  obtain ra where ra: "validate_snapshot demo_service a = Inr ra" "vr_compiled ra = Some config"
    using validates_snapshot [OF va(1)] by blast
  obtain steps where steps: "compile_run_steps demo_service a demo_plan = Inr steps" "crs_loops steps = 2"
    using demo_plan_compiles [OF ra] by blast
  have len: "length (steps_iter steps) = 2"
    using compile_run_steps_targets [OF steps(1)] steps(2) length_steps_iter [of steps]
    by (simp add: steps_valid_def steps_len_def demo_plan_def)
  define c where "c = new_client (new_device\<lparr>sd_boot_id := Some (replicate 16 7), sd_config := Some config\<rparr>)"
  define s where "s = \<lparr>xc_client = (c, 0 :: nat), xc_snapshot = a, xc_applied_config = Some config,
     xc_session_generation = 0, xc_device_view = bare_view (sim_published_session c)\<rparr>"
  have s: "xc_inv demo_service s" "cs_state (xc_snapshot s) = APPLIED" "xc_client s = (c, 0)"
    "compile_run_steps demo_service (xc_snapshot s) demo_plan = Inr steps"
    using va comp(2) steps(1) by (simp_all add: s_def xc_inv_def)
  have c: "fresh c" "sd_config (scl_device c) = xc_applied_config s"
    "xc_session_generation s = pub_session_generation (sim_published_session c)"
    "sim_room (2 * length (steps_iter steps) + 1) (c, 0)"
    using comp(2) len by (simp_all add: c_def s_def fresh_def new_client_def new_device_def sim_published_session_def sim_room_def)
  from run_plan_completes [OF svc s(1-3) c(1-3) s(4) c(4), of "\<lambda>_. 0"]
  show ?thesis using s(4) len by (metis list_all2_lengthD)
qed

end
