(* ===== verification/Application.thy ===== *)
theory Application
  imports Store_Groups Executor_Plans
begin

text \<open>
  The acquisition application service (\<open>application.py\<close>), the object that the REST, command line and browser
  interfaces share. Its state is a \<open>World\<close>: the device client, the store, the session table and the
  last transient capture; the executor of \<^theory_text>\<open>Device_Executor\<close> owns it as its client, because the
  executor runs the application's callbacks while it holds its lock. A method that runs under that lock is
  a method on the world; a public method is one on the executor.

  Session objects live in a heap, since worker threads keep using a session the table has already pruned. Clock
  readings and random identifiers are drawn from sequences that belong to the world. An exception
  is kept as its class; the message text that \<open>error\<close> fields carry beside it is not modelled. A worker
  thread takes what the other threads do between its steps as an argument.
\<close>

section \<open>Sessions\<close>

text \<open>\<open>except RuntimeError\<close>: the exception classes of this package that derive from it.\<close>

definition is_RuntimeError :: "exn \<Rightarrow> bool" where
  "is_RuntimeError e \<longleftrightarrow> e \<in> {RuntimeError, ConfigConflictError, DeviceUnavailable, SpoolConflictError,
     StorageConflictError, LeaseConflictError, ConfigurationEtagConflict, CaptureStorageUnavailable, SessionConflict}"

datatype session_kind =
    PeriodicKind HostPeriodicSchedule SavePolicy
  | SweepKind RunPlanV1

record AppSession =
  as_session_id :: bytes
  as_kind :: session_kind
  as_group_id :: "string option"
  as_state :: string
  as_capture_count :: int
  as_saved_count :: int
  as_discarded_by_policy_count :: int
  as_last_saved_capture_id :: "string option"
  as_terminal_reason :: "string option"
  as_capture_ids :: "string list"
  as_error :: "exn option"
  as_started_utc_ns :: int
  as_finished_utc_ns :: "int option"
  as_stop_event :: bool
  as_lease :: "unit PeriodicLeaseController"
  as_snapshot :: "ConfigurationSnapshot option"

definition new_session :: "bytes \<Rightarrow> session_kind \<Rightarrow> string option \<Rightarrow> int \<Rightarrow> ConfigurationSnapshot option \<Rightarrow> AppSession" where
  "new_session session_id kind group_id started snapshot =
     \<lparr>as_session_id = session_id, as_kind = kind, as_group_id = group_id, as_state = ''RUNNING'',
      as_capture_count = 0, as_saved_count = 0, as_discarded_by_policy_count = 0,
      as_last_saved_capture_id = None, as_terminal_reason = None, as_capture_ids = [], as_error = None,
      as_started_utc_ns = started, as_finished_utc_ns = None, as_stop_event = False,
      as_lease = new_controller (), as_snapshot = snapshot\<rparr>"

definition session_policy :: "AppSession \<Rightarrow> SavePolicy" where
  "session_policy session = (case as_kind session of PeriodicKind _ p \<Rightarrow> p | SweepKind plan \<Rightarrow> rp_save_policy plan)"

definition live :: "AppSession \<Rightarrow> bool" where
  "live session \<longleftrightarrow> as_state session \<in> set live_states"

record PersistedCapture =
  pc_capture_id :: string
  pc_payload :: "pyobj dict"
  pc_inserted :: bool
  pc_resolution :: CaptureResolution

record TransientCapture =
  tr_capture_id :: string
  tr_payload :: "pyobj dict"
  tr_group_id :: "string option"
  tr_samples :: bytes
  tr_storage :: string

section \<open>The world behind the executor\<close>

record 'c World =
  wd_device :: 'c
  wd_store :: "CaptureStore option"
  wd_objects :: "bytes \<rightharpoonup> AppSession"
  wd_sessions :: "bytes list"
  wd_summaries :: "bytes \<rightharpoonup> SessionSummary"
  wd_latest_transient :: "TransientCapture option"
  wd_local_spool_record_id :: int
  wd_operation_activity :: "string option"
  wd_async_handler :: "bytes option"
  wd_clock :: "nat \<Rightarrow> int"
  wd_clock_reads :: nat
  wd_uuids :: "nat \<Rightarrow> bytes"
  wd_uuid_draws :: nat

type_synonym ('c, 'a) world = "('c World, 'a) meth"
type_synonym ('c, 'a) app = "('c World, 'a) xc"

text \<open>What \<open>AcquisitionApplication\<close> is constructed with; \<open>ac_async\<close>: the device client accepts a capture handler.\<close>

record AppConfig =
  ac_service :: ParameterService
  ac_history_limit :: int
  ac_async :: bool

definition time_ns :: "('c, int) world" where
  "time_ns = mbind mget (\<lambda>w. mbind (mupd (\<lambda>w. w\<lparr>wd_clock_reads := Suc (wd_clock_reads w)\<rparr>)) (\<lambda>_.
     mret (wd_clock w (wd_clock_reads w))))"

definition uuid4 :: "('c, bytes) world" where
  "uuid4 = mbind mget (\<lambda>w. mbind (mupd (\<lambda>w. w\<lparr>wd_uuid_draws := Suc (wd_uuid_draws w)\<rparr>)) (\<lambda>_.
     mret (wd_uuids w (wd_uuid_draws w))))"

text \<open>\<open>self._require_store()\<close> followed by a call on the store.\<close>

definition on_store :: "'a db \<Rightarrow> ('c, 'a) world" where
  "on_store m = mbind mget (\<lambda>w. case wd_store w of
     None \<Rightarrow> mraise CaptureStorageUnavailable
   | Some db \<Rightarrow> (case m db of (r, db') \<Rightarrow> mbind (mupd (\<lambda>w. w\<lparr>wd_store := Some db'\<rparr>)) (\<lambda>_. mlift r)))"

text \<open>A device client of the package, as the executor sees it through the world.\<close>

definition on_wd_device :: "('c, 'a) meth \<Rightarrow> ('c, 'a) world" where
  "on_wd_device = mzoom wd_device (\<lambda>c w. w\<lparr>wd_device := c\<rparr>)"

definition world_client :: "'c DeviceClient \<Rightarrow> 'c World DeviceClient" where
  "world_client cl = \<lparr>dc_published_session = (\<lambda>w. dc_published_session cl (wd_device w)),
     dc_apply_config = (\<lambda>config. on_wd_device (dc_apply_config cl config)),
     dc_capture_once = (\<lambda>config src t. on_wd_device (dc_capture_once cl config src t)),
     dc_capabilities = on_wd_device (dc_capabilities cl),
     dc_status = on_wd_device (dc_status cl),
     dc_start_periodic = (\<lambda>sch. on_wd_device (dc_start_periodic cl sch)),
     dc_renew_periodic = (\<lambda>r. on_wd_device (dc_renew_periodic cl r)),
     dc_stop_periodic = (\<lambda>i. on_wd_device (dc_stop_periodic cl i)),
     dc_poll_captures = on_wd_device (dc_poll_captures cl),
     dc_capture_delivery = (\<lambda>i. on_wd_device (dc_capture_delivery cl i)),
     dc_capture_wire_frame = (\<lambda>i. on_wd_device (dc_capture_wire_frame cl i)),
     dc_confirm_capture = (\<lambda>r. on_wd_device (dc_confirm_capture cl r)),
     dc_release_capture = (\<lambda>i. on_wd_device (dc_release_capture cl i))\<rparr>"

definition the_session :: "bytes \<Rightarrow> ('c, AppSession) world" where
  "the_session i = mbind mget (\<lambda>w. case wd_objects w i of None \<Rightarrow> mraise KeyError | Some x \<Rightarrow> mret x)"

definition change_session :: "bytes \<Rightarrow> (AppSession \<Rightarrow> AppSession) \<Rightarrow> ('c, unit) world" where
  "change_session i f = mupd (\<lambda>w. w\<lparr>wd_objects := (wd_objects w)(i := map_option f (wd_objects w i))\<rparr>)"

section \<open>Payloads\<close>

definition opt_str :: "string option \<Rightarrow> pyobj" where
  "opt_str v = (case v of None \<Rightarrow> ONone | Some t \<Rightarrow> OStr t)"

definition opt_int :: "int option \<Rightarrow> pyobj" where
  "opt_int v = (case v of None \<Rightarrow> ONone | Some i \<Rightarrow> OInt i)"

definition dict_update :: "pyobj dict \<Rightarrow> pyobj dict \<Rightarrow> pyobj dict" where
  "dict_update old new = fold (\<lambda>(k, v). AList.update k v) new old"

definition grouping_dict :: "GroupingMetadata \<Rightarrow> pyobj" where
  "grouping_dict m = ODict [(''group_id'', opt_str (gm_group_id m)), (''experiment_id'', opt_str (gm_experiment_id m)),
     (''group_name'', opt_str (gm_group_name m)), (''experiment_name'', opt_str (gm_experiment_name m)),
     (''cell_id'', opt_str (gm_cell_id m))]"

definition event_dict :: "CaptureEvent \<Rightarrow> pyobj dict" where
  "event_dict e = [(''channel'', OInt (ev_channel e)), (''edge'', OInt (ev_edge e)),
     (''capture_method'', OInt (ev_capture_method e)), (''level_after'', OInt (ev_level_after e)),
     (''sample_index'', OInt (ev_sample_index e)), (''subsample_tick'', OInt (ev_subsample_tick e)),
     (''uncertainty_ticks'', OInt (ev_uncertainty_ticks e)),
     (''frame_offset_ticks'', OInt (ev_frame_offset_ticks e))]"

definition event_record_dict :: "CaptureEventRecord \<Rightarrow> pyobj dict" where
  "event_record_dict e = [(''ordinal'', OInt (er_ordinal e)), (''channel'', OInt (er_channel e)),
     (''edge'', OInt (er_edge e)), (''capture_method'', OInt (er_capture_method e)),
     (''level_after'', OInt (er_level_after e)), (''sample_index'', OInt (er_sample_index e)),
     (''subsample_tick'', OInt (er_subsample_tick e)), (''uncertainty_ticks'', OInt (er_uncertainty_ticks e)),
     (''frame_offset_ticks'', OInt (er_frame_offset_ticks e))]"

text \<open>\<open>_frame_metadata\<close> of a capture and of a stored record.\<close>

definition frame_metadata :: "CaptureData \<Rightarrow> pyobj dict" where
  "frame_metadata c = [(''adc_bits'', OInt (cd_adc_bits c)), (''sample_encoding'', OInt (cd_sample_encoding c)),
     (''vref_mv'', OInt (cd_vref_mv c)), (''smclk_nominal_hz'', OInt (cd_smclk_nominal_hz c)),
     (''smclk_calibrated_hz'', OInt (cd_smclk_calibrated_hz c)),
     (''frame_start_tick48'', OInt (cd_frame_start_tick48 c)),
     (''t_trigger_offset_ticks'', OInt (cd_t_trigger_offset_ticks c)),
     (''adc0_hold_offset_ticks'', OInt (cd_adc0_hold_offset_ticks c)),
     (''adc_aperture_ns'', OInt (cd_adc_aperture_ns c)),
     (''trigger_to_tx_output_ns'', OInt (cd_trigger_to_tx_output_ns c)),
     (''calibration_version'', OInt (cd_calibration_version c)),
     (''out3_start_level'', OInt (cd_out3_start_level c)), (''out4_start_level'', OInt (cd_out4_start_level c))]"

definition record_metadata :: "CaptureRecord \<Rightarrow> pyobj dict" where
  "record_metadata r = [(''adc_bits'', OInt (rc_adc_bits r)), (''sample_encoding'', OInt (rc_sample_encoding r)),
     (''vref_mv'', OInt (rc_vref_mv r)), (''smclk_nominal_hz'', OInt (rc_smclk_nominal_hz r)),
     (''smclk_calibrated_hz'', OInt (rc_smclk_calibrated_hz r)),
     (''frame_start_tick48'', OInt (rc_frame_start_tick48 r)),
     (''t_trigger_offset_ticks'', OInt (rc_t_trigger_offset_ticks r)),
     (''adc0_hold_offset_ticks'', OInt (rc_adc0_hold_offset_ticks r)),
     (''adc_aperture_ns'', OInt (rc_adc_aperture_ns r)),
     (''trigger_to_tx_output_ns'', OInt (rc_trigger_to_tx_output_ns r)),
     (''calibration_version'', OInt (rc_calibration_version r)),
     (''out3_start_level'', OInt (rc_out3_start_level r)), (''out4_start_level'', OInt (rc_out4_start_level r))]"

definition capture_payload :: "CaptureRecord \<Rightarrow> CaptureEventRecord list \<Rightarrow> pyobj dict" where
  "capture_payload r events =
     [(''capture_id'', OStr (py_hex (rc_capture_id r))), (''device_id'', OStr (py_hex (rc_device_id r))),
      (''boot_id'', OStr (py_hex (rc_boot_id r))), (''request_id'', OStr (py_hex (rc_request_id r))),
      (''profile_sha256'', OStr (py_hex (rc_profile_sha256 r))),
      (''device_config_crc32'', OInt (rc_device_config_crc32 r)),
      (''capture_sequence'', OInt (rc_capture_sequence r)),
      (''sample_interval_ticks'', OInt (rc_sample_interval_ticks r)),
      (''burst_period_ticks'', OInt (rc_burst_period_ticks r)), (''sample_count'', OInt (rc_sample_count r)),
      (''pretrigger_count'', OInt (rc_pretrigger_count r))] @ record_metadata r @
     [(''quality_flags'', OInt (rc_quality_flags r)), (''tuss_dev_stat'', OInt (rc_tuss_dev_stat r)),
      (''transport_crc32'', OInt (rc_transport_crc32 r)), (''requested_config'', ODict (rc_requested_config r)),
      (''encoded_config'', ODict (rc_encoded_config r)), (''readback_config'', ODict (rc_readback_config r)),
      (''actual_config'', ODict (rc_actual_config r)), (''run_plan'', ODict (rc_run_plan r)),
      (''adc_clipping'', OBool (rc_adc_clipping r)), (''interpolated'', OBool False),
      (''events'', OList (map (\<lambda>e. ODict (event_record_dict e)) events))]"

definition encoded_config :: "CaptureData \<Rightarrow> pyobj dict" where
  "encoded_config c = [(''sample_interval_ticks'', OInt (cd_sample_interval_ticks c)),
     (''burst_period_ticks'', OInt (cd_burst_period_ticks c)),
     (''register_pairs'', OList (map (\<lambda>(a, v). OList [OInt a, OInt v]) (cd_register_pairs c)))]"

definition transient_payload ::
  "CaptureData \<Rightarrow> int \<Rightarrow> ConfigurationSnapshot \<Rightarrow> pyobj dict \<Rightarrow> GroupingMetadata \<Rightarrow> pyobj dict" where
  "transient_payload c crc snapshot run_plan grouping =
     [(''capture_id'', OStr (py_hex (cd_capture_id c))), (''device_id'', OStr (py_hex (cd_device_id c))),
      (''boot_id'', OStr (py_hex (cd_boot_id c))), (''request_id'', OStr (py_hex (cd_request_id c))),
      (''profile_sha256'', OStr (py_hex (cd_profile_sha256 c))),
      (''device_config_crc32'', OInt (cd_device_config_crc32 c)),
      (''capture_sequence'', OInt (cd_capture_sequence c)),
      (''sample_interval_ticks'', OInt (cd_sample_interval_ticks c)),
      (''burst_period_ticks'', OInt (cd_burst_period_ticks c)), (''sample_count'', OInt (cd_sample_count c)),
      (''pretrigger_count'', OInt (cd_pretrigger_count c))] @ frame_metadata c @
     [(''quality_flags'', OInt (cd_quality_flags c)), (''tuss_dev_stat'', OInt (cd_tuss_dev_stat c)),
      (''transport_crc32'', OInt crc), (''requested_config'', ODict (cs_requested snapshot)),
      (''encoded_config'', ODict (encoded_config c)), (''readback_config'', ODict (cs_readback snapshot)),
      (''actual_config'', ODict (cs_actual snapshot)), (''run_plan'', ODict run_plan),
      (''grouping_metadata'', grouping_dict grouping),
      (''adc_clipping'', OBool (list_ex (\<lambda>x. x = 0 \<or> x = 2 ^ nat (cd_adc_bits c) - 1) (cd_samples c))),
      (''interpolated'', OBool False), (''events'', OList (map (\<lambda>e. ODict (event_dict e)) (cd_events c)))]"

section \<open>Reading captures\<close>

definition capture_identifier :: "string \<Rightarrow> bytes res" where
  "capture_identifier capture_id =
     rbind (fromhex capture_id) (\<lambda>identifier.
     if length identifier \<noteq> 16 then Inl ValueError else Inr identifier)"

definition py_lower :: "string \<Rightarrow> string" where
  "py_lower t = map (\<lambda>ch. let n = of_char ch :: nat in
     if (65 \<le> n \<and> n \<le> 90) then char_of (n + 32) else ch) t"

definition app_grouping_metadata :: "string option \<Rightarrow> ('c, GroupingMetadata) world" where
  "app_grouping_metadata group_id = on_store (grouping_metadata group_id)"

text \<open>\<open>except KeyError\<close>: the last transient capture, if it is the one asked for.\<close>

definition the_transient :: "string \<Rightarrow> ('c, TransientCapture) world" where
  "the_transient capture_id =
     mbind mget (\<lambda>w. case wd_latest_transient w of
       None \<Rightarrow> mraise KeyError
     | Some t \<Rightarrow> if tr_capture_id t \<noteq> py_lower capture_id then mraise KeyError else mret t)"

definition app_capture :: "string \<Rightarrow> ('c, pyobj dict) world" where
  "app_capture capture_id =
     mbind (on_store (mret ())) (\<lambda>_.
     mbind (mlift (capture_identifier capture_id)) (\<lambda>identifier.
     mbind (mcatch (mbind (on_store (get_capture identifier)) (\<lambda>r. mret (Inr r)))
              (\<lambda>e. if e = KeyError then mbind (the_transient capture_id) (\<lambda>t. mret (Inl t)) else mraise e)) (\<lambda>found.
     case found of
       Inl t \<Rightarrow>
         mbind (app_grouping_metadata (tr_group_id t)) (\<lambda>grouping.
         mret (dict_update (tr_payload t)
           [(''storage'', OStr (tr_storage t)), (''grouping_metadata'', grouping_dict grouping)]))
     | Inr r \<Rightarrow>
         mbind (on_store (get_capture_events identifier)) (\<lambda>events.
         mbind (app_grouping_metadata (rc_group_id r)) (\<lambda>grouping.
         mret (dict_update (capture_payload r events)
           [(''storage'', OStr ''ARCHIVE''), (''grouping_metadata'', grouping_dict grouping)]))))))"

definition app_capture_samples :: "string \<Rightarrow> ('c, bytes \<times> string) world" where
  "app_capture_samples capture_id =
     mbind (on_store (mret ())) (\<lambda>_.
     mbind (mlift (capture_identifier capture_id)) (\<lambda>identifier.
     mcatch (mbind (on_store (get_capture identifier)) (\<lambda>r. mret (rc_sample_blob r, ''ARCHIVE'')))
       (\<lambda>e. if e = KeyError then mbind (the_transient capture_id) (\<lambda>t. mret (tr_samples t, tr_storage t))
            else mraise e)))"

section \<open>Persisting a capture\<close>

definition local_delivery :: "int \<Rightarrow> int \<Rightarrow> bytes \<Rightarrow> BridgeCaptureDelivery" where
  "local_delivery spool_id now wire =
     \<lparr>bd_connection_id = 1, bd_spool_record_id = spool_id, bd_source_connection_id = 1,
      bd_source_first_stream_offset = 0, bd_source_last_stream_offset = int (length wire) - 1,
      bd_stored_utc_ns = now, bd_inner_frame = wire\<rparr>"

text \<open>The delivery of the bridge, or one made up here when the device client has none.\<close>

definition delivery_for :: "'c World DeviceClient \<Rightarrow> CaptureData \<Rightarrow> ('c, BridgeCaptureDelivery) world" where
  "delivery_for dev capture =
     mbind (dc_capture_wire_frame dev (cd_capture_id capture)) (\<lambda>wire_frame.
     mbind (dc_capture_delivery dev (cd_capture_id capture)) (\<lambda>delivery.
     case delivery of
       Some d \<Rightarrow> mret d
     | None \<Rightarrow>
         mbind (mupd (\<lambda>w. w\<lparr>wd_local_spool_record_id := wd_local_spool_record_id w + 1\<rparr>)) (\<lambda>_.
         mbind time_ns (\<lambda>now.
         mbind mget (\<lambda>w. mret (local_delivery (wd_local_spool_record_id w) now wire_frame))))))"

definition keep_transient ::
  "CaptureData \<Rightarrow> CoreCommitResult \<Rightarrow> ConfigurationSnapshot \<Rightarrow> pyobj dict \<Rightarrow> string option \<Rightarrow> ('c, pyobj dict) world" where
  "keep_transient capture result snapshot run_plan group_id =
     mbind (mlift (pack (replicate (nat (cd_sample_count capture)) FH) (map PInt (cd_samples capture)))) (\<lambda>sample_blob.
     mbind (app_grouping_metadata group_id) (\<lambda>grouping.
     let payload = transient_payload capture (cq_inner_frame_crc32 (ccr_receipt result)) snapshot run_plan grouping;
         storage = (if ccr_resolution result = DISCARDED_BY_POLICY then ''TRANSIENT'' else ''ROLLING_LATEST'') in
     mbind (mupd (\<lambda>w. w\<lparr>wd_latest_transient := Some \<lparr>tr_capture_id = py_hex (cd_capture_id capture),
       tr_payload = payload, tr_group_id = gm_group_id grouping, tr_samples = sample_blob, tr_storage = storage\<rparr>\<rparr>)) (\<lambda>_.
     mret payload)))"

definition capture_context :: "CaptureData \<Rightarrow> ConfigurationSnapshot \<Rightarrow> pyobj dict \<Rightarrow> ConfigContext" where
  "capture_context c snapshot run_plan =
     \<lparr>cc_profile_sha256 = cd_profile_sha256 c, cc_device_config_crc32 = cd_device_config_crc32 c,
      cc_request_id = cd_request_id c, cc_requested = cs_requested snapshot, cc_encoded = encoded_config c,
      cc_readback = cs_readback snapshot, cc_actual = cs_actual snapshot, cc_run_plan = run_plan\<rparr>"

definition resolution_value :: "CaptureResolution \<Rightarrow> string" where
  "resolution_value r = (case r of RAW_ARCHIVED \<Rightarrow> ''RAW_ARCHIVED'' | ROLLING_LATEST \<Rightarrow> ''ROLLING_LATEST''
     | DISCARDED_BY_POLICY \<Rightarrow> ''DISCARDED_BY_POLICY'')"

text \<open>
  \<open>persisted.payload\<close> and the payload of the transient capture are one dictionary: a later change of the
  former shows in the latter.
\<close>

definition share_payload :: "string \<Rightarrow> pyobj dict \<Rightarrow> ('c, unit) world" where
  "share_payload capture_id p = mupd (\<lambda>w. w\<lparr>wd_latest_transient := map_option (\<lambda>t.
     if tr_capture_id t = capture_id then t\<lparr>tr_payload := p\<rparr> else t) (wd_latest_transient w)\<rparr>)"

text \<open>The part of \<open>_persist_capture\<close> before the bridge is told that the capture is safe.\<close>

definition resolve_capture ::
  "'c World DeviceClient \<Rightarrow> CaptureData \<Rightarrow> pyobj dict \<Rightarrow> ConfigurationSnapshot \<Rightarrow> SavePolicy \<Rightarrow> string \<Rightarrow> string option
     \<Rightarrow> (PersistedCapture \<Rightarrow> ('c, unit) world) \<Rightarrow> ('c, PersistedCapture \<times> CaptureCommittedRequest) world" where
  "resolve_capture dev capture run_plan snapshot save_policy session_id group_id on_resolved =
     mbind (on_store (save_configuration_context (capture_context capture snapshot run_plan))) (\<lambda>_.
     mbind (delivery_for dev capture) (\<lambda>delivery.
     mbind (on_store (commit_delivery delivery (policy_value save_policy) (Some session_id) group_id)) (\<lambda>result.
     mbind (if ccr_resolution result = RAW_ARCHIVED
            then app_capture (py_hex (cd_capture_id capture))
            else keep_transient capture result snapshot run_plan group_id) (\<lambda>payload.
     let payload' = dict_update payload [(''resolution'', OStr (resolution_value (ccr_resolution result)))];
         persisted = \<lparr>pc_capture_id = py_hex (cd_capture_id capture), pc_payload = payload',
           pc_inserted = ccr_inserted result, pc_resolution = ccr_resolution result\<rparr> in
     mbind (if ccr_resolution result = RAW_ARCHIVED then mret () else share_payload (pc_capture_id persisted) payload') (\<lambda>_.
     mbind (on_resolved persisted) (\<lambda>_.
     mret (persisted, ccr_receipt result)))))))"

definition persist_capture ::
  "'c World DeviceClient \<Rightarrow> CaptureData \<Rightarrow> pyobj dict \<Rightarrow> ConfigurationSnapshot \<Rightarrow> SavePolicy \<Rightarrow> string \<Rightarrow> string option
     \<Rightarrow> (PersistedCapture \<Rightarrow> ('c, unit) world) \<Rightarrow> ('c, PersistedCapture) world" where
  "persist_capture dev capture run_plan snapshot save_policy session_id group_id on_resolved =
     mbind (resolve_capture dev capture run_plan snapshot save_policy session_id group_id on_resolved) (\<lambda>(persisted, receipt).
     mbind (dc_confirm_capture dev receipt) (\<lambda>_.
     mbind (dc_release_capture dev (cd_capture_id capture)) (\<lambda>_.
     mret persisted)))"

section \<open>The session table\<close>

text \<open>\<open>session.state in {"RUNNING", "STOPPING"}\<close>\<close>

definition session_live :: "'c World \<Rightarrow> bytes \<Rightarrow> bool" where
  "session_live w i \<longleftrightarrow> (case wd_objects w i of None \<Rightarrow> False | Some x \<Rightarrow> live x)"

definition require_idle :: "('c, unit) world" where
  "require_idle = mbind mget (\<lambda>w.
     mguard (\<not> list_ex (session_live w) (wd_sessions w)) SessionConflict)"

definition prune_finished_sessions :: "int \<Rightarrow> ('c, unit) world" where
  "prune_finished_sessions limit = mupd (\<lambda>w.
     let finished = filter (\<lambda>i. \<not> session_live w i) (wd_sessions w);
         prune_count = max 0 (int (length finished) - limit + 1)
     in w\<lparr>wd_sessions := filter (\<lambda>i. i \<notin> set (take (nat prune_count) finished)) (wd_sessions w)\<rparr>)"

text \<open>A \<open>deque\<close> of at most 100 recent capture ids.\<close>

definition push_recent :: "string \<Rightarrow> string list \<Rightarrow> string list" where
  "push_recent i ids = drop (length ids + 1 - 100) (ids @ [i])"

definition record_capture :: "PersistedCapture \<Rightarrow> AppSession \<Rightarrow> AppSession" where
  "record_capture p x =
     (let x' = x\<lparr>as_capture_count := as_capture_count x + 1, as_capture_ids := push_recent (pc_capture_id p) (as_capture_ids x)\<rparr> in
      case pc_resolution p of
        RAW_ARCHIVED \<Rightarrow> x'\<lparr>as_saved_count := as_saved_count x' + 1, as_last_saved_capture_id := Some (pc_capture_id p)\<rparr>
      | DISCARDED_BY_POLICY \<Rightarrow> x'\<lparr>as_discarded_by_policy_count := as_discarded_by_policy_count x' + 1\<rparr>
      | ROLLING_LATEST \<Rightarrow> x'\<lparr>as_discarded_by_policy_count := max 0 (as_capture_count x' - 1)\<rparr>)"

text \<open>
  \<open>_periodic_payload\<close> and \<open>_sweep_payload\<close>: the keys the store reads, and the others beside them. The text of an
  error starts with the name of its class, which is all that is kept.
\<close>

definition error_dict :: "(exn \<Rightarrow> string) \<Rightarrow> exn option \<Rightarrow> pyobj" where
  "error_dict name e = (case e of None \<Rightarrow> ONone | Some e \<Rightarrow> OStr (name e))"

definition exn_name :: "exn \<Rightarrow> string" where
  "exn_name e = (case e of
     ValueError \<Rightarrow> ''ValueError'' | ProtocolError \<Rightarrow> ''ProtocolError'' | CrcMismatchError \<Rightarrow> ''CrcMismatchError''
   | StructError \<Rightarrow> ''error'' | AssertionError \<Rightarrow> ''AssertionError'' | IndexError \<Rightarrow> ''IndexError''
   | KeyError \<Rightarrow> ''KeyError'' | TypeError \<Rightarrow> ''TypeError'' | AttributeError \<Rightarrow> ''AttributeError'' | OverflowError \<Rightarrow> ''OverflowError''
   | ZeroDivisionError \<Rightarrow> ''ZeroDivisionError'' | RuntimeError \<Rightarrow> ''RuntimeError'' | UnicodeError \<Rightarrow> ''UnicodeError''
   | IntegrityError \<Rightarrow> ''IntegrityError'' | SpoolConflictError \<Rightarrow> ''SpoolConflictError''
   | StorageConflictError \<Rightarrow> ''StorageConflictError'' | LeaseConflictError \<Rightarrow> ''LeaseConflictError''
   | RunPlanError \<Rightarrow> ''RunPlanError'' | ConfigConflictError \<Rightarrow> ''ConfigConflictError''
   | ConfigValidationError \<Rightarrow> ''ConfigValidationError'' | DeviceUnavailable \<Rightarrow> ''DeviceUnavailable''
   | SessionConflict \<Rightarrow> ''SessionConflict'' | ConfigurationEtagConflict \<Rightarrow> ''ConfigurationEtagConflict''
   | CaptureStorageUnavailable \<Rightarrow> ''CaptureStorageUnavailable'' | ConfigurationError \<Rightarrow> ''ConfigurationError'' | ConnectionError \<Rightarrow> ''ConnectionError''
   | TimeoutError \<Rightarrow> ''TimeoutError'' | OSError \<Rightarrow> ''OSError'')"

definition kind_dict :: "AppSession \<Rightarrow> pyobj dict" where
  "kind_dict x = (case as_kind x of
     PeriodicKind sch _ \<Rightarrow>
       [(''kind'', OStr ''PERIODIC''), (''schedule_id'', OStr (py_hex (sch_schedule_id sch))),
        (''period_us'', OInt (sch_period_us sch)), (''requested_capture_count'', OInt (sch_capture_count sch)),
        (''requested_count'', OInt (sch_capture_count sch)), (''lease_timeout_ms'', OInt (sch_lease_timeout_ms sch))]
   | SweepKind plan \<Rightarrow>
       [(''kind'', OStr ''SWEEP''), (''plan'', ODict (plan_to_dict plan)),
        (''requested_count'', OInt ((case rp_sweep plan of None \<Rightarrow> 0 | Some sw \<Rightarrow> int (length (sw_values sw))) *
           plan_int (rp_loops plan)))])"

definition session_summary :: "AppSession \<Rightarrow> GroupingMetadata \<Rightarrow> SessionSummary" where
  "session_summary x grouping =
     (let recent = as_capture_ids x in
      \<lparr>sm_session_id = py_hex (as_session_id x), sm_state = as_state x,
       sm_save_policy = policy_value (session_policy x), sm_acquired_count = Some (as_capture_count x),
       sm_capture_count = Some (as_capture_count x),
       sm_last_capture_id = (if recent = [] then None else Some (last recent)),
       sm_saved_count = Some (as_saved_count x),
       sm_discarded_by_policy_count = Some (as_discarded_by_policy_count x),
       sm_last_saved_capture_id = as_last_saved_capture_id x, sm_terminal_reason = as_terminal_reason x,
       sm_started_utc_ns = Some (as_started_utc_ns x), sm_finished_utc_ns = as_finished_utc_ns x,
       sm_other = kind_dict x @ [(''recent_capture_ids'', OList (map OStr recent)),
         (''capture_ids'', OList (map OStr recent)), (''error'', error_dict exn_name (as_error x)),
         (''grouping_metadata'', grouping_dict grouping)]\<rparr>)"

definition session_payload :: "bytes \<Rightarrow> ('c, SessionSummary) world" where
  "session_payload i =
     mbind (the_session i) (\<lambda>x.
     mbind (app_grouping_metadata (as_group_id x)) (\<lambda>grouping.
     mret (session_summary x grouping)))"

definition save_session :: "bytes \<Rightarrow> ('c, unit) world" where
  "save_session i = mbind (session_payload i) (\<lambda>payload. on_store (save_session_summary payload))"

text \<open>\<open>int(final["acquired_count"])\<close> and its like; the finalized summary always has the counts.\<close>

definition settle_session :: "SessionSummary \<Rightarrow> AppSession \<Rightarrow> AppSession" where
  "settle_session final x = x\<lparr>as_capture_count := override (sm_acquired_count final) 0,
     as_saved_count := override (sm_saved_count final) 0,
     as_discarded_by_policy_count := override (sm_discarded_by_policy_count final) 0,
     as_last_saved_capture_id := sm_last_saved_capture_id final\<rparr>"

definition finish_session :: "bytes \<Rightarrow> string \<Rightarrow> string \<Rightarrow> exn option \<Rightarrow> ('c, SessionSummary) world" where
  "finish_session i state reason err =
     mbind time_ns (\<lambda>now.
     mbind (change_session i (\<lambda>x. x\<lparr>as_state := state, as_terminal_reason := Some reason, as_error := err,
       as_finished_utc_ns := Some now\<rparr>)) (\<lambda>_.
     mbind (session_payload i) (\<lambda>payload.
     mbind (on_store (finalize_session_summary payload)) (\<lambda>final.
     mbind (change_session i (settle_session final)) (\<lambda>_.
     mret final)))))"

text \<open>\<open>record_resolved\<close> of a periodic session and of a sweep.\<close>

definition record_resolved :: "bytes \<Rightarrow> PersistedCapture \<Rightarrow> ('c, unit) world" where
  "record_resolved i persisted =
     mbind (change_session i (record_capture persisted)) (\<lambda>_. save_session i)"

definition session_identifier :: "string \<Rightarrow> bytes res" where
  "session_identifier session_id =
     rbind (fromhex session_id) (\<lambda>identifier.
     if length identifier \<noteq> 16 then Inl ValueError else Inr identifier)"

definition summary_kind :: "SessionSummary \<Rightarrow> pyobj option" where
  "summary_kind p = map_of (sm_other p) ''kind''"

definition refresh_summary_grouping :: "SessionSummary \<Rightarrow> ('c, SessionSummary) world" where
  "refresh_summary_grouping p =
     (let group_id = (case map_of (sm_other p) ''grouping_metadata'' of
            Some (ODict d) \<Rightarrow> (case map_of d ''group_id'' of Some (OStr g) \<Rightarrow> Some g | _ \<Rightarrow> None)
          | _ \<Rightarrow> None) in
      mbind (app_grouping_metadata group_id) (\<lambda>grouping.
      mret (p\<lparr>sm_other := AList.update ''grouping_metadata'' (grouping_dict grouping) (sm_other p)\<rparr>)))"

definition app_session :: "string \<Rightarrow> ('c, SessionSummary) world" where
  "app_session session_id =
     mbind (mlift (session_identifier session_id)) (\<lambda>identifier.
     mbind mget (\<lambda>w.
     if identifier \<in> set (wd_sessions w) then session_payload identifier
     else mbind (on_store (get_session_summary session_id)) refresh_summary_grouping))"

definition is_sweep :: "AppSession \<Rightarrow> bool" where
  "is_sweep x = (case as_kind x of SweepKind _ \<Rightarrow> True | PeriodicKind _ _ \<Rightarrow> False)"

definition app_sweep :: "string \<Rightarrow> ('c, SessionSummary) world" where
  "app_sweep session_id =
     mbind (mlift (session_identifier session_id)) (\<lambda>identifier.
     mbind mget (\<lambda>w.
     if identifier \<notin> set (wd_sessions w) then
       mbind (on_store (get_session_summary session_id)) (\<lambda>persisted.
       if summary_kind persisted \<noteq> Some (OStr ''SWEEP'') then mraise KeyError
       else refresh_summary_grouping persisted)
     else
       mbind (the_session identifier) (\<lambda>x.
       mbind (mguard (is_sweep x) KeyError) (\<lambda>_.
       session_payload identifier))))"

definition stop_sweep :: "string \<Rightarrow> ('c, SessionSummary) world" where
  "stop_sweep session_id =
     mbind (mlift (session_identifier session_id)) (\<lambda>identifier.
     mbind mget (\<lambda>w.
     mbind (mguard (identifier \<in> set (wd_sessions w)) KeyError) (\<lambda>_.
     mbind (the_session identifier) (\<lambda>x.
     mbind (mguard (is_sweep x) KeyError) (\<lambda>_.
     mbind (if as_state x = ''RUNNING''
            then change_session identifier (\<lambda>x. x\<lparr>as_state := ''STOPPING'', as_stop_event := True\<rparr>) else mret ()) (\<lambda>_.
     session_payload identifier))))))"

section \<open>The application object\<close>

definition on_world :: "('c, 'a) world \<Rightarrow> ('c, 'a) app" where
  "on_world = on_xc_client"

text \<open>A service that starts over a device and a store; no session survives a restart of the process.\<close>

definition new_world :: "'c \<Rightarrow> CaptureStore option \<Rightarrow> (nat \<Rightarrow> int) \<Rightarrow> (nat \<Rightarrow> bytes) \<Rightarrow> 'c World" where
  "new_world device store clock uuids = \<lparr>wd_device = device, wd_store = store, wd_objects = Map.empty,
     wd_sessions = [], wd_summaries = Map.empty, wd_latest_transient = None, wd_local_spool_record_id = 0,
     wd_operation_activity = None, wd_async_handler = None, wd_clock = clock, wd_clock_reads = 0,
     wd_uuids = uuids, wd_uuid_draws = 0\<rparr>"

definition init_application :: "AppConfig \<Rightarrow> ('c, unit) app" where
  "init_application cfg =
     mbind (mguard (1 \<le> ac_history_limit cfg) ValueError) (\<lambda>_.
     mbind mget (\<lambda>s.
     if wd_store (xc_client s) = None then mret ()
     else on_world (mbind (on_store reconcile_interrupted_sessions) (\<lambda>_. mret ()))))"

definition set_activity :: "string option \<Rightarrow> ('c, unit) app" where
  "set_activity a = on_world (mupd (\<lambda>w. w\<lparr>wd_operation_activity := a\<rparr>))"

definition require_device :: "AppConfig \<Rightarrow> 'c World DeviceClient \<Rightarrow> ('c, unit) app" where
  "require_device cfg dev =
     mbind (try_device_view (ac_service cfg) dev False True 0) (\<lambda>view.
     mguard (pub_connected (dv_session view)) DeviceUnavailable)"

definition app_config :: "AppConfig \<Rightarrow> 'c World DeviceClient \<Rightarrow> ('c, ConfigurationSnapshot) app" where
  "app_config cfg dev = executor_snapshot (ac_service cfg) dev"

definition app_etag :: "AppConfig \<Rightarrow> 'c World DeviceClient \<Rightarrow> ('c, string) app" where
  "app_etag cfg dev = applied_etag (ac_service cfg) dev"

definition app_validate_config :: "AppConfig \<Rightarrow> 'c World DeviceClient \<Rightarrow> pyobj dict \<Rightarrow> ('c, ValidationResult) app" where
  "app_validate_config cfg dev changes = preview_changes (ac_service cfg) dev changes"

definition save_draft :: "AppConfig \<Rightarrow> 'c World DeviceClient \<Rightarrow> pyobj dict \<Rightarrow> ('c, ConfigurationSnapshot) app" where
  "save_draft cfg dev changes =
     mbind (on_world require_idle) (\<lambda>_. executor_update_draft (ac_service cfg) dev changes)"

definition app_apply_config ::
  "AppConfig \<Rightarrow> 'c World DeviceClient \<Rightarrow> pyobj dict \<Rightarrow> string \<Rightarrow> ('c, ConfigurationSnapshot) app" where
  "app_apply_config cfg dev changes expected_etag =
     mbind (require_device cfg dev) (\<lambda>_.
     mbind (on_world require_idle) (\<lambda>_.
     mbind (app_etag cfg dev) (\<lambda>etag.
     mbind (mguard (expected_etag = etag) ConfigurationEtagConflict) (\<lambda>_.
     mbind (set_activity (Some ''CONFIGURING'')) (\<lambda>_.
     mfinally (apply_changes (ac_service cfg) dev changes) (set_activity None))))))"

record DeviceStatusView =
  vw_connected :: bool
  vw_health :: string
  vw_activity :: string
  vw_session :: PublishedDeviceSession
  vw_hello :: "HelloResponse option"
  vw_capabilities :: "CapabilitiesResponse option"
  vw_status :: "StatusResponse option"
  vw_diagnostics_observed_utc_ns :: "int option"

definition current_activity :: "'c World \<Rightarrow> string" where
  "current_activity w =
     (case wd_operation_activity w of
        Some a \<Rightarrow> a
      | None \<Rightarrow>
          (case find (session_live w) (wd_sessions w) of
             None \<Rightarrow> ''IDLE''
           | Some i \<Rightarrow> (case wd_objects w i of
                 Some x \<Rightarrow> if is_sweep x then ''SWEEPING'' else ''CAPTURING_PERIODIC''
               | None \<Rightarrow> ''IDLE'')))"

definition device_status_view :: "string \<Rightarrow> DeviceViewSnapshot \<Rightarrow> DeviceStatusView" where
  "device_status_view activity view =
     (let session = dv_session view in
      if \<not> pub_connected session \<or> pub_hello session = None then
        \<lparr>vw_connected = False, vw_health = ''NOT_DETECTED'', vw_activity = activity, vw_session = session,
         vw_hello = None, vw_capabilities = None, vw_status = None, vw_diagnostics_observed_utc_ns = None\<rparr>
      else
        let abnormal = (case dv_status view of None \<Rightarrow> False | Some st \<Rightarrow> ss_last_error st \<noteq> 0) in
        \<lparr>vw_connected = True,
         vw_health = (if abnormal then ''ABNORMAL'' else if dv_status view \<noteq> None then ''NORMAL'' else ''UNKNOWN''),
         vw_activity = (if abnormal then ''FAULT'' else activity), vw_session = session,
         vw_hello = pub_hello session, vw_capabilities = dv_capabilities view, vw_status = dv_status view,
         vw_diagnostics_observed_utc_ns = dv_diagnostics_observed_utc_ns view\<rparr>)"

definition app_device :: "AppConfig \<Rightarrow> 'c World DeviceClient \<Rightarrow> bool \<Rightarrow> int \<Rightarrow> ('c, DeviceStatusView) app" where
  "app_device cfg dev lock_free now =
     mbind mget (\<lambda>s.
     let activity = current_activity (xc_client s) in
     mbind (try_device_view (ac_service cfg) dev (activity = ''IDLE'') lock_free now) (\<lambda>view.
     mret (device_status_view activity view)))"

section \<open>Experiments, groups and listings\<close>

definition app_create_experiment :: "pyobj \<Rightarrow> pyobj \<Rightarrow> ('c, ExperimentRow) world" where
  "app_create_experiment name notes =
     mbind uuid4 (\<lambda>u. mbind time_ns (\<lambda>now. on_store (create_experiment (py_hex u) now name notes)))"

definition app_update_experiment :: "string \<Rightarrow> pyobj dict \<Rightarrow> ('c, ExperimentRow) world" where
  "app_update_experiment experiment_id changes =
     mbind time_ns (\<lambda>now. on_store (update_experiment now experiment_id changes))"

definition app_create_group :: "string \<Rightarrow> pyobj \<Rightarrow> pyobj \<Rightarrow> pyobj \<Rightarrow> ('c, GroupObject) world" where
  "app_create_group experiment_id name cell_id notes =
     mbind uuid4 (\<lambda>u. mbind time_ns (\<lambda>now. on_store (create_group (py_hex u) now experiment_id name cell_id notes)))"

definition app_update_group :: "string \<Rightarrow> pyobj dict \<Rightarrow> ('c, GroupObject) world" where
  "app_update_group group_id changes = mbind time_ns (\<lambda>now. on_store (update_group now group_id changes))"

definition app_list_experiments :: "('c, ExperimentRow list) world" where
  "app_list_experiments = on_store list_experiments"

definition app_list_groups :: "string \<Rightarrow> ('c, GroupObject list) world" where
  "app_list_groups experiment_id = on_store (list_groups experiment_id)"

definition app_assign_capture_group :: "bytes list \<Rightarrow> string option \<Rightarrow> ('c, int) world" where
  "app_assign_capture_group capture_ids group_id = on_store (assign_capture_group capture_ids group_id)"

fun with_grouping :: "CaptureSummary list \<Rightarrow> ('c, (CaptureSummary \<times> GroupingMetadata) list) world" where
  "with_grouping [] = mret []"
| "with_grouping (item # items) =
     mbind (app_grouping_metadata (su_group_id item)) (\<lambda>grouping.
     mbind (with_grouping items) (\<lambda>rest. mret ((item, grouping) # rest)))"

text \<open>The cursor is the number its decimal text denotes.\<close>

definition app_captures ::
  "int \<Rightarrow> int option \<Rightarrow> listing_filter \<Rightarrow> ('c, (CaptureSummary \<times> GroupingMetadata) list \<times> int option) world" where
  "app_captures limit cursor f =
     mbind (on_store (mret ())) (\<lambda>_.
     let after_row_id = (case cursor of None \<Rightarrow> 0 | Some i \<Rightarrow> i) in
     mbind (mguard (0 \<le> after_row_id) ValueError) (\<lambda>_.
     mbind (on_store (list_captures after_row_id limit f)) (\<lambda>(items, next_cursor).
     mbind (with_grouping items) (\<lambda>payload_items.
     mret (payload_items, next_cursor)))))"

section \<open>Single captures\<close>

definition app_register_policy ::
  "AppConfig \<Rightarrow> 'c World DeviceClient \<Rightarrow> bytes \<Rightarrow> SavePolicy \<Rightarrow> string option \<Rightarrow> ('c, bytes \<times> bytes) app" where
  "app_register_policy cfg dev i save_policy group_id =
     mbind (on_world (app_grouping_metadata group_id)) (\<lambda>grouping.
     mbind (require_device cfg dev) (\<lambda>_.
     mbind (try_device_view (ac_service cfg) dev False True 0) (\<lambda>view.
     case (pub_device_id (dv_session view), pub_boot_id (dv_session view)) of
       (Some device_id, Some boot_id) \<Rightarrow>
         mbind (on_world (on_store (register_delivery_policy device_id boot_id (py_hex i)
                  (policy_value save_policy) (gm_group_id grouping)))) (\<lambda>_.
         mret (device_id, boot_id))
     | _ \<Rightarrow> mraise DeviceUnavailable)))"

definition single_plan :: "bytes \<Rightarrow> string \<Rightarrow> int \<Rightarrow> SavePolicy \<Rightarrow> string option \<Rightarrow> pyobj dict" where
  "single_plan i trigger_source sync_timeout_ms save_policy group_id =
     [(''mode'', OStr ''SINGLE''), (''session_id'', OStr (py_hex i)), (''loops'', OInt 1),
      (''start_delay_ms'', OInt 0), (''loop_delay_ms'', OInt 0), (''trigger_source'', OStr trigger_source),
      (''sync_timeout_ms'', OInt sync_timeout_ms), (''save_policy'', OStr (policy_value save_policy)),
      (''group_id'', opt_str group_id), (''sweep'', ONone)]"

definition single_summary :: "bytes \<Rightarrow> SavePolicy \<Rightarrow> GroupingMetadata \<Rightarrow> int \<Rightarrow> SessionSummary" where
  "single_summary i save_policy grouping started =
     \<lparr>sm_session_id = py_hex i, sm_state = ''RUNNING'', sm_save_policy = policy_value save_policy,
      sm_acquired_count = Some 0, sm_capture_count = None, sm_last_capture_id = None, sm_saved_count = Some 0,
      sm_discarded_by_policy_count = Some 0, sm_last_saved_capture_id = None, sm_terminal_reason = None,
      sm_started_utc_ns = Some started, sm_finished_utc_ns = None,
      sm_other = [(''kind'', OStr ''SINGLE''), (''grouping_metadata'', grouping_dict grouping),
        (''requested_count'', OInt 1), (''error'', ONone)]\<rparr>"

definition the_summary :: "bytes \<Rightarrow> ('c, SessionSummary) world" where
  "the_summary i = mbind mget (\<lambda>w. case wd_summaries w i of None \<Rightarrow> mraise KeyError | Some p \<Rightarrow> mret p)"

definition change_summary :: "bytes \<Rightarrow> (SessionSummary \<Rightarrow> SessionSummary) \<Rightarrow> ('c, unit) world" where
  "change_summary i f = mupd (\<lambda>w. w\<lparr>wd_summaries := (wd_summaries w)(i := map_option f (wd_summaries w i))\<rparr>)"

definition resolved_summary :: "PersistedCapture \<Rightarrow> SessionSummary \<Rightarrow> SessionSummary" where
  "resolved_summary p s = s\<lparr>sm_acquired_count := Some 1,
     sm_saved_count := Some (of_bool (pc_resolution p = RAW_ARCHIVED)),
     sm_discarded_by_policy_count := Some (of_bool (pc_resolution p = DISCARDED_BY_POLICY)),
     sm_last_capture_id := Some (pc_capture_id p),
     sm_last_saved_capture_id := (if pc_resolution p = RAW_ARCHIVED then Some (pc_capture_id p) else None)\<rparr>"

definition set_grouping :: "GroupingMetadata \<Rightarrow> SessionSummary \<Rightarrow> SessionSummary" where
  "set_grouping grouping s = s\<lparr>sm_other := AList.update ''grouping_metadata'' (grouping_dict grouping) (sm_other s)\<rparr>"

definition add_other :: "pyobj dict \<Rightarrow> SessionSummary \<Rightarrow> SessionSummary" where
  "add_other d s = s\<lparr>sm_other := dict_update (sm_other s) d\<rparr>"

definition record_single :: "bytes \<Rightarrow> string option \<Rightarrow> PersistedCapture \<Rightarrow> ('c, unit) world" where
  "record_single i group_id p =
     mbind (app_grouping_metadata group_id) (\<lambda>grouping.
     mbind (change_summary i (\<lambda>s. resolved_summary p (set_grouping grouping (add_other (pc_payload p) s)))) (\<lambda>_.
     mbind (the_summary i) (\<lambda>summary.
     on_store (save_session_summary summary))))"

definition fail_single :: "bytes \<Rightarrow> string option \<Rightarrow> exn \<Rightarrow> ('c, 'a) world" where
  "fail_single i group_id e =
     mbind time_ns (\<lambda>now.
     mbind (change_summary i (\<lambda>s. add_other [(''error'', OStr (exn_name e))]
       (s\<lparr>sm_state := ''FAILED'', sm_terminal_reason := Some ''FAILED'', sm_finished_utc_ns := Some now\<rparr>))) (\<lambda>_.
     mbind (app_grouping_metadata group_id) (\<lambda>grouping.
     mbind (change_summary i (set_grouping grouping)) (\<lambda>_.
     mbind (the_summary i) (\<lambda>summary.
     mbind (on_store (finalize_session_summary summary)) (\<lambda>_.
     mraise e))))))"

definition counts_dict :: "SessionSummary \<Rightarrow> pyobj dict" where
  "counts_dict s = [(''acquired_count'', opt_int (sm_acquired_count s)), (''saved_count'', opt_int (sm_saved_count s)),
     (''discarded_by_policy_count'', opt_int (sm_discarded_by_policy_count s)),
     (''last_capture_id'', opt_str (sm_last_capture_id s)),
     (''last_saved_capture_id'', opt_str (sm_last_saved_capture_id s))]"

text \<open>The keys that \<open>payload.update\<close> adds before the summary is closed.\<close>

definition single_result :: "bytes \<Rightarrow> SavePolicy \<Rightarrow> PersistedCapture \<Rightarrow> pyobj dict" where
  "single_result i save_policy p = dict_update (pc_payload p)
     [(''session_id'', OStr (py_hex i)), (''save_policy'', OStr (policy_value save_policy)), (''requested_count'', OInt 1),
      (''acquired_count'', OInt 1), (''saved_count'', OInt (of_bool (pc_resolution p = RAW_ARCHIVED))),
      (''discarded_by_policy_count'', OInt (of_bool (pc_resolution p = DISCARDED_BY_POLICY))),
      (''last_capture_id'', OStr (pc_capture_id p)),
      (''last_saved_capture_id'', if pc_resolution p = RAW_ARCHIVED then OStr (pc_capture_id p) else ONone),
      (''terminal_reason'', OStr ''COMPLETED'')]"

definition share_result :: "PersistedCapture \<Rightarrow> pyobj dict \<Rightarrow> ('c, unit) world" where
  "share_result p d = (if pc_resolution p = RAW_ARCHIVED then mret () else share_payload (pc_capture_id p) d)"

definition complete_single ::
  "bytes \<Rightarrow> SavePolicy \<Rightarrow> string option \<Rightarrow> PersistedCapture \<Rightarrow> ('c, pyobj dict) world" where
  "complete_single i save_policy group_id p =
     (let updated = single_result i save_policy p in
     mbind (share_result p updated) (\<lambda>_.
     mbind (app_grouping_metadata group_id) (\<lambda>grouping.
     mbind time_ns (\<lambda>now.
     mbind (change_summary i (\<lambda>s. (resolved_summary p (set_grouping grouping
       (add_other (dict_update (pc_payload p) [(''requested_count'', OInt 1)]) s)))\<lparr>sm_session_id := py_hex i,
         sm_save_policy := policy_value save_policy, sm_state := ''COMPLETED'',
         sm_terminal_reason := Some ''COMPLETED'', sm_finished_utc_ns := Some now\<rparr>)) (\<lambda>_.
     mbind (the_summary i) (\<lambda>summary.
     mbind (on_store (finalize_session_summary summary)) (\<lambda>final_summary.
     mbind (app_grouping_metadata group_id) (\<lambda>grouping'.
     let result = dict_update updated ((''grouping_metadata'', grouping_dict grouping') # counts_dict final_summary) in
     mbind (share_result p result) (\<lambda>_.
     mret result)))))))))"

definition app_capture_once ::
  "AppConfig \<Rightarrow> 'c World DeviceClient \<Rightarrow> string \<Rightarrow> int \<Rightarrow> string \<Rightarrow> int \<Rightarrow> SavePolicy \<Rightarrow> string option
     \<Rightarrow> ('c, pyobj dict) app" where
  "app_capture_once cfg dev profile crc trigger_source sync_timeout_ms save_policy group_id =
     mbind (on_world (app_grouping_metadata group_id)) (\<lambda>grouping.
     mbind (require_device cfg dev) (\<lambda>_.
     mbind (on_world require_idle) (\<lambda>_.
     mbind (on_world uuid4) (\<lambda>i.
     mbind (on_world time_ns) (\<lambda>started.
     let storage_policy = (if save_policy = SAVE_LAST then SAVE_ALL else save_policy);
         run_plan = single_plan i trigger_source sync_timeout_ms save_policy (gm_group_id grouping);
         summary = single_summary i save_policy grouping started in
     mbind (app_register_policy cfg dev i storage_policy (gm_group_id grouping)) (\<lambda>_.
     mbind (on_world (mupd (\<lambda>w. w\<lparr>wd_summaries := (wd_summaries w)(i \<mapsto> summary)\<rparr>))) (\<lambda>_.
     mbind (on_world (on_store (save_session_summary summary))) (\<lambda>_.
     mbind (set_activity (Some ''CAPTURING_SINGLE'')) (\<lambda>_.
     mbind (mfinally
       (mcatch
         (executor_capture_once (ac_service cfg) dev profile crc trigger_source sync_timeout_ms
           (\<lambda>executed. persist_capture dev (xp_capture executed) run_plan (xp_snapshot executed) storage_policy
              (py_hex i) (gm_group_id grouping) (record_single i (gm_group_id grouping))))
         (\<lambda>e. on_world (fail_single i (gm_group_id grouping) e)))
       (set_activity None)) (\<lambda>persisted.
     on_world (complete_single i save_policy (gm_group_id grouping) persisted)))))))))))"

end
