(* ===== verification/App_Sessions.thy ===== *)
theory App_Sessions
  imports Application
begin

text \<open>
  Run sessions of the application service: starting a periodic schedule or a sweep, the two worker threads, and
  stopping. A lock that a method takes only around a part of its work ends the part; between two parts the argument
  \<open>others\<close> stands for whatever the other threads do.
\<close>

section \<open>Starting\<close>

text \<open>\<open>set_async_capture_handler\<close> and \<open>clear_async_capture_handler\<close>, if the device client has them.\<close>

definition install_handler :: "AppConfig \<Rightarrow> bytes \<Rightarrow> ('c, unit) world" where
  "install_handler cfg i = mupd (\<lambda>w. if ac_async cfg then w\<lparr>wd_async_handler := Some i\<rparr> else w)"

definition clear_handler :: "AppConfig \<Rightarrow> bytes \<Rightarrow> ('c, unit) world" where
  "clear_handler cfg i = mupd (\<lambda>w. if ac_async cfg \<and> wd_async_handler w = Some i then w\<lparr>wd_async_handler := None\<rparr> else w)"

definition periodic_run_plan :: "AppSession \<Rightarrow> HostPeriodicSchedule \<Rightarrow> SavePolicy \<Rightarrow> pyobj dict" where
  "periodic_run_plan x sch policy =
     [(''mode'', OStr ''PERIODIC''), (''session_id'', OStr (py_hex (as_session_id x))),
      (''schedule_id'', OStr (py_hex (sch_schedule_id sch))), (''period_us'', OInt (sch_period_us sch)),
      (''capture_count'', OInt (sch_capture_count sch)), (''lease_timeout_ms'', OInt (sch_lease_timeout_ms sch)),
      (''save_policy'', OStr (policy_value policy)), (''group_id'', opt_str (as_group_id x))]"

text \<open>The callback that commits the frames of a periodic session; false for a frame of another schedule.\<close>

definition persist_interleaved :: "'c World DeviceClient \<Rightarrow> bytes \<Rightarrow> CaptureData \<Rightarrow> ('c, bool) world" where
  "persist_interleaved dev i capture =
     mbind (the_session i) (\<lambda>x.
     case (as_kind x, as_snapshot x) of
       (PeriodicKind sch policy, Some snapshot) \<Rightarrow>
         if cd_schedule_id capture \<noteq> sch_schedule_id sch then mret False
         else
           mbind (persist_capture dev capture (periodic_run_plan x sch policy) snapshot policy
                    (py_hex (as_session_id x)) (as_group_id x) (record_resolved i)) (\<lambda>_.
           mret True)
     | _ \<Rightarrow> mraise AttributeError)"

text \<open>A frame that reaches the device client inside another request goes to the installed handler.\<close>

definition async_capture :: "'c World DeviceClient \<Rightarrow> CaptureData \<Rightarrow> ('c, bool) world" where
  "async_capture dev capture =
     mbind mget (\<lambda>w. case wd_async_handler w of None \<Rightarrow> mret False | Some i \<Rightarrow> persist_interleaved dev i capture)"

text \<open>The executor is the device client of the lease controller; the controller belongs to its session.\<close>

definition lease_ops :: "AppConfig \<Rightarrow> 'c World DeviceClient \<Rightarrow> 'c World SingleDeviceExecutor PeriodicDeviceClient" where
  "lease_ops cfg dev = \<lparr>pdc_start_periodic = executor_start_periodic (ac_service cfg) dev,
     pdc_renew_periodic = executor_renew_periodic (ac_service cfg) dev,
     pdc_stop_periodic = executor_stop_periodic (ac_service cfg) dev\<rparr>"

definition with_client :: "'d \<Rightarrow> 'c PeriodicLeaseController \<Rightarrow> 'd PeriodicLeaseController" where
  "with_client c l = \<lparr>plc_client = c, plc_schedule = plc_schedule l, plc_lease_sequence = plc_lease_sequence l,
     plc_next_renewal_ms = plc_next_renewal_ms l\<rparr>"

definition on_lease ::
  "bytes \<Rightarrow> ('c World SingleDeviceExecutor PeriodicLeaseController, 'a) meth \<Rightarrow> ('c, 'a) app" where
  "on_lease i m s =
     (case wd_objects (xc_client s) i of
        None \<Rightarrow> (Inl KeyError, s)
      | Some x \<Rightarrow>
          (case m (with_client s (as_lease x)) of (r, l) \<Rightarrow>
             (r, snd (on_world (change_session i (\<lambda>x. x\<lparr>as_lease := with_client () l\<rparr>)) (plc_client l)))))"

definition add_session :: "AppSession \<Rightarrow> ('c, unit) world" where
  "add_session x = mupd (\<lambda>w. w\<lparr>wd_objects := (wd_objects w)(as_session_id x \<mapsto> x)\<rparr>)"

definition enlist_session :: "bytes \<Rightarrow> ('c, unit) world" where
  "enlist_session i = mupd (\<lambda>w. w\<lparr>wd_sessions :=
     (if i \<in> set (wd_sessions w) then wd_sessions w else wd_sessions w @ [i])\<rparr>)"

definition start_periodic ::
  "AppConfig \<Rightarrow> 'c World DeviceClient \<Rightarrow> int \<Rightarrow> string \<Rightarrow> int \<Rightarrow> int \<Rightarrow> int \<Rightarrow> int \<Rightarrow> SavePolicy \<Rightarrow> string option
     \<Rightarrow> ('c, SessionSummary) app" where
  "start_periodic cfg dev now_ms profile crc period_us requested_count lease_timeout_ms save_policy group_id =
     mbind (on_world (app_grouping_metadata group_id)) (\<lambda>grouping.
     mbind (require_device cfg dev) (\<lambda>_.
     mbind (mlift (fromhex profile)) (\<lambda>profile_sha256.
     mbind (on_world require_idle) (\<lambda>_.
     mbind (on_world (prune_finished_sessions (ac_history_limit cfg))) (\<lambda>_.
     mbind mget (\<lambda>s.
     case pub_boot_id (published_session dev s) of
       None \<Rightarrow> mraise RuntimeError
     | Some boot_id \<Rightarrow>
         mbind (on_world uuid4) (\<lambda>schedule_id.
         let schedule = \<lparr>sch_boot_id = boot_id, sch_schedule_id = schedule_id, sch_profile_sha256 = profile_sha256,
               sch_device_config_crc32 = crc, sch_period_us = period_us, sch_capture_count = requested_count,
               sch_lease_timeout_ms = lease_timeout_ms\<rparr> in
         mbind (mlift (validate_schedule schedule)) (\<lambda>_.
         mbind (on_world uuid4) (\<lambda>i.
         mbind (on_world time_ns) (\<lambda>started.
         mbind (executor_snapshot (ac_service cfg) dev) (\<lambda>snapshot.
         mbind (on_world (add_session (new_session i (PeriodicKind schedule save_policy) (gm_group_id grouping)
                  started (Some snapshot)))) (\<lambda>_.
         mbind (app_register_policy cfg dev i save_policy (gm_group_id grouping)) (\<lambda>(device_id, policy_boot_id).
         mbind (mcatch
           (mbind (on_world (install_handler cfg i)) (\<lambda>_.
            on_lease i (lease_start (lease_ops cfg dev) schedule now_ms)))
           (\<lambda>e. mbind (on_world (clear_handler cfg i)) (\<lambda>_.
              mbind (on_world (on_store (unregister_delivery_policy device_id policy_boot_id (py_hex i)))) (\<lambda>_.
              mraise e)))) (\<lambda>_.
         mbind (on_world (enlist_session i)) (\<lambda>_.
         mbind (on_world (save_session i)) (\<lambda>_.
         on_world (session_payload i)))))))))))))))))"

text \<open>The session object of a sweep is unknown to other threads until it is in the table.\<close>

definition start_sweep ::
  "AppConfig \<Rightarrow> 'c World DeviceClient \<Rightarrow> string \<Rightarrow> int \<Rightarrow> string \<Rightarrow> pyobj list \<Rightarrow> int \<Rightarrow> int \<Rightarrow> int \<Rightarrow> string \<Rightarrow> int
     \<Rightarrow> SavePolicy \<Rightarrow> string option \<Rightarrow> ('c, SessionSummary) app" where
  "start_sweep cfg dev profile crc field_name vals loops start_delay_ms loop_delay_ms trigger_source sync_timeout_ms
       save_policy group_id =
     mbind (on_world (app_grouping_metadata group_id)) (\<lambda>grouping.
     mbind (require_device cfg dev) (\<lambda>_.
     mbind (require_applied_identity (ac_service cfg) dev profile crc) (\<lambda>_.
     let plan = \<lparr>rp_loops = OInt loops, rp_start_delay_ms = OInt start_delay_ms, rp_loop_delay_ms = OInt loop_delay_ms,
           rp_sweep = Some \<lparr>sw_field = field_name, sw_values = vals\<rparr>, rp_trigger_source = trigger_source,
           rp_sync_timeout_ms = sync_timeout_ms, rp_save_policy = save_policy\<rparr> in
     mbind (executor_snapshot (ac_service cfg) dev) (\<lambda>baseline.
     mbind (mlift (compile_run_steps (ac_service cfg) baseline plan)) (\<lambda>_.
     mbind (on_world uuid4) (\<lambda>i.
     mbind (on_world time_ns) (\<lambda>started.
     mbind (on_world require_idle) (\<lambda>_.
     mbind (on_world (prune_finished_sessions (ac_history_limit cfg))) (\<lambda>_.
     mbind (app_register_policy cfg dev i (rp_save_policy plan) (gm_group_id grouping)) (\<lambda>_.
     mbind (on_world (add_session (new_session i (SweepKind plan) (gm_group_id grouping) started None))) (\<lambda>_.
     mbind (on_world (enlist_session i)) (\<lambda>_.
     mbind (on_world (save_session i)) (\<lambda>_.
     on_world (session_payload i))))))))))))))"

section \<open>The sweep worker\<close>

definition stop_requested :: "bytes \<Rightarrow> ('c, bool) world" where
  "stop_requested i = mbind (the_session i) (\<lambda>x. mret (as_stop_event x))"

definition sweep_run_plan :: "AppSession \<Rightarrow> RunPlanV1 \<Rightarrow> ExecutedCapture \<Rightarrow> pyobj dict" where
  "sweep_run_plan x plan r = dict_update (plan_to_dict plan)
     [(''session_id'', OStr (py_hex (as_session_id x))), (''sweep_index'', opt_int (xp_sweep_index r)),
      (''loop_index'', OInt (xp_loop_index r)), (''group_id'', opt_str (as_group_id x))]"

definition persist_sweep :: "'c World DeviceClient \<Rightarrow> bytes \<Rightarrow> RunPlanV1 \<Rightarrow> ExecutedCapture \<Rightarrow> ('c, unit) world" where
  "persist_sweep dev i plan r =
     mbind (the_session i) (\<lambda>x.
     mbind (persist_capture dev (xp_capture r) (sweep_run_plan x plan r) (xp_snapshot r) (rp_save_policy plan)
              (py_hex (as_session_id x)) (as_group_id x) (record_resolved i)) (\<lambda>_.
     mret ()))"

definition sweep_env ::
  "'c World DeviceClient \<Rightarrow> ('c, unit) world \<Rightarrow> bytes \<Rightarrow> RunPlanV1 \<Rightarrow> 'c World PlanEnvironment" where
  "sweep_env dev others i plan = \<lparr>pe_sleep = (\<lambda>_. others), pe_cancelled = mbind others (\<lambda>_. stop_requested i),
     pe_on_capture = Some (persist_sweep dev i plan)\<rparr>"

definition sweep_worker ::
  "AppConfig \<Rightarrow> 'c World DeviceClient \<Rightarrow> ('c, unit) world \<Rightarrow> bytes \<Rightarrow> RunPlanV1 \<Rightarrow> ('c, SessionSummary) app" where
  "sweep_worker cfg dev others i plan =
     mbind (mcatch
       (mbind (execute_run_plan (ac_service cfg) dev (sweep_env dev others i plan) plan) (\<lambda>_. mret None))
       (\<lambda>e. mret (Some e))) (\<lambda>outcome.
     case outcome of
       None \<Rightarrow> on_world (finish_session i ''COMPLETED'' ''COMPLETED'' None)
     | Some e \<Rightarrow>
         if is_RuntimeError e then
           mbind (on_world (stop_requested i)) (\<lambda>stopped.
           if stopped then on_world (finish_session i ''STOPPED'' ''STOPPED_BY_USER'' None)
           else on_world (finish_session i ''FAILED'' ''FAILED'' (Some e)))
         else on_world (finish_session i ''FAILED'' ''FAILED'' (Some e)))"

section \<open>The periodic worker\<close>

text \<open>\<open>schedule.capture_count and session.capture_count >= schedule.capture_count\<close>\<close>

definition count_reached :: "AppSession \<Rightarrow> bool" where
  "count_reached x = (case as_kind x of
     PeriodicKind sch _ \<Rightarrow> sch_capture_count sch \<noteq> 0 \<and> sch_capture_count sch \<le> as_capture_count x
   | SweepKind _ \<Rightarrow> False)"

definition complete_periodic :: "bytes \<Rightarrow> ('c, bool) app" where
  "complete_periodic i =
     mbind (on_lease i lease_finish) (\<lambda>_.
     mbind (on_world (finish_session i ''COMPLETED'' ''COMPLETED'' None)) (\<lambda>_.
     mret True))"

text \<open>One turn of the loop; true when the worker returns.\<close>

definition periodic_turn ::
  "AppConfig \<Rightarrow> 'c World DeviceClient \<Rightarrow> ('c, unit) app \<Rightarrow> bytes \<Rightarrow> int \<Rightarrow> ('c, bool) app" where
  "periodic_turn cfg dev others i now_ms =
     mbind others (\<lambda>_.
     mbind (on_world (stop_requested i)) (\<lambda>stopped.
     if stopped then mret True
     else
     mbind others (\<lambda>_.
     mbind (on_world (the_session i)) (\<lambda>x.
     if as_state x \<noteq> ''RUNNING'' then mret True
     else if count_reached x then complete_periodic i
     else
       mbind others (\<lambda>_.
       mbind (on_lease i (renew_if_due (lease_ops cfg dev) now_ms)) (\<lambda>_.
       mbind others (\<lambda>_.
       mbind (on_world (stop_requested i)) (\<lambda>stopped.
       if stopped then mret True
       else
         mbind (executor_poll_captures (ac_service cfg) dev
                  (Some (\<lambda>c. mbind (persist_interleaved dev i c) (\<lambda>_. mret ())))) (\<lambda>_.
         mbind (on_world (the_session i)) (\<lambda>x.
         if count_reached x then mbind others (\<lambda>_. complete_periodic i) else mret False))))))))))"

text \<open>Turns at the given instants; false while the worker is still running.\<close>

fun periodic_loop ::
  "AppConfig \<Rightarrow> 'c World DeviceClient \<Rightarrow> ('c, unit) app \<Rightarrow> bytes \<Rightarrow> int list \<Rightarrow> ('c, bool) app" where
  "periodic_loop cfg dev others i [] = mret False"
| "periodic_loop cfg dev others i (t # ts) =
     mbind (periodic_turn cfg dev others i t) (\<lambda>ended. if ended then mret True else periodic_loop cfg dev others i ts)"

definition periodic_failed ::
  "AppConfig \<Rightarrow> 'c World DeviceClient \<Rightarrow> ('c, unit) app \<Rightarrow> bytes \<Rightarrow> exn \<Rightarrow> ('c, bool) app" where
  "periodic_failed cfg dev others i e =
     mbind (on_world (the_session i)) (\<lambda>x.
     let stopped = as_stop_event x in
     if \<not> stopped \<and> count_reached x then complete_periodic i
     else
       mbind (if stopped then mret ()
              else mcatch (on_lease i (lease_stop (lease_ops cfg dev))) (\<lambda>_. mret ())) (\<lambda>_.
       mbind others (\<lambda>_.
       mbind (on_world (finish_session i (if stopped then ''STOPPED'' else ''FAILED'')
                (if stopped then ''STOPPED_BY_USER'' else ''FAILED'') (if stopped then None else Some e))) (\<lambda>_.
       mret True))))"

definition release_handler :: "AppConfig \<Rightarrow> bytes \<Rightarrow> ('c, unit) world" where
  "release_handler cfg i =
     mbind (the_session i) (\<lambda>x. if as_state x = ''STOPPING'' then mret () else clear_handler cfg i)"

text \<open>\<open>finally\<close>, once the worker has ended.\<close>

definition ending :: "('s, bool) meth \<Rightarrow> ('s, unit) meth \<Rightarrow> ('s, bool) meth" where
  "ending m cleanup s =
     (case m s of
        (Inr False, s') \<Rightarrow> (Inr False, s')
      | (r, s') \<Rightarrow> (case cleanup s' of (Inl e, s'') \<Rightarrow> (Inl e, s'') | (Inr _, s'') \<Rightarrow> (r, s'')))"

definition periodic_worker ::
  "AppConfig \<Rightarrow> 'c World DeviceClient \<Rightarrow> ('c, unit) app \<Rightarrow> bytes \<Rightarrow> int list \<Rightarrow> ('c, bool) app" where
  "periodic_worker cfg dev others i ts =
     ending (mcatch (periodic_loop cfg dev others i ts) (periodic_failed cfg dev others i))
       (on_world (release_handler cfg i))"

section \<open>Stopping a periodic session\<close>

definition begin_stop :: "string \<Rightarrow> string \<Rightarrow> ('c, bytes \<times> bytes \<times> bool) world" where
  "begin_stop session_id schedule_id =
     mbind (mlift (session_identifier session_id)) (\<lambda>identifier.
     mbind mget (\<lambda>w.
     mbind (mguard (identifier \<in> set (wd_sessions w)) KeyError) (\<lambda>_.
     mbind (the_session identifier) (\<lambda>x.
     case as_kind x of
       SweepKind _ \<Rightarrow> mraise AttributeError
     | PeriodicKind sch _ \<Rightarrow>
         mbind (mguard (py_hex (sch_schedule_id sch) = schedule_id) SessionConflict) (\<lambda>_.
         let should_stop = (as_state x = ''RUNNING'') in
         mbind (if should_stop
                then change_session identifier (\<lambda>x. x\<lparr>as_stop_event := True, as_state := ''STOPPING''\<rparr>) else mret ()) (\<lambda>_.
         mret (identifier, sch_schedule_id sch, should_stop)))))))"

definition finish_stop ::
  "AppConfig \<Rightarrow> 'c World DeviceClient \<Rightarrow> ('c, unit) app \<Rightarrow> bytes \<Rightarrow> bytes \<Rightarrow> ('c, unit) app" where
  "finish_stop cfg dev others i schedule_id =
     mfinally
       (mbind (mcatch (executor_stop_periodic (ac_service cfg) dev schedule_id)
          (\<lambda>e. mbind others (\<lambda>_.
             mbind (on_world (finish_session i ''FAILED'' ''FAILED'' (Some e))) (\<lambda>_. mraise e)))) (\<lambda>_.
        mbind others (\<lambda>_.
        mbind (on_world (finish_session i ''STOPPED'' ''STOPPED_BY_USER'' None)) (\<lambda>_. mret ()))))
       (on_world (clear_handler cfg i))"

definition stop_periodic ::
  "AppConfig \<Rightarrow> 'c World DeviceClient \<Rightarrow> ('c, unit) app \<Rightarrow> string \<Rightarrow> string \<Rightarrow> ('c, SessionSummary) app" where
  "stop_periodic cfg dev others session_id schedule_id =
     mbind (on_world (begin_stop session_id schedule_id)) (\<lambda>(i, schedule, should_stop).
     mbind (if should_stop then mbind others (\<lambda>_. finish_stop cfg dev others i schedule) else mret ()) (\<lambda>_.
     on_world (session_payload i)))"

end
