(* ===== verification/App_Host.thy ===== *)
theory App_Host
  imports App_Sessions
begin

text \<open>
  The host side of the application service, away from the device: which steps keep the store consistent and its
  tombstones, revive no session and leave the device and the session table alone, and how a session gets into the
  table.
\<close>

section \<open>Receipts\<close>

text \<open>The store holds the tombstone of the frame this receipt names.\<close>

definition tomb :: "CaptureCommittedRequest \<Rightarrow> CaptureStore \<Rightarrow> bool" where
  "tomb r db \<longleftrightarrow> (\<exists>t \<in> set (db_resolutions db).
     rs_key t = (cq_device_id r, cq_boot_id r, cq_capture_id r) \<and> rs_inner_frame_crc32 t = cq_inner_frame_crc32 r)"

definition durable :: "CaptureCommittedRequest \<Rightarrow> 'c World \<Rightarrow> bool" where
  "durable r w \<longleftrightarrow> (\<exists>db. wd_store w = Some db \<and> tomb r db)"

text \<open>Store operations that keep the store consistent and every tombstone; all but a commit, which prunes old ones.\<close>

definition safe_store :: "'a db \<Rightarrow> bool" where
  "safe_store m \<longleftrightarrow> keeps store_inv m \<and> (\<forall>r. keeps (tomb r) m)"

lemma tomb_archive: "ok_keeps (tomb r) (archive_delivery d f c crc sess g)"
  unfolding ok_keeps_def
proof (intro allI impI)
  fix s x s'
  assume s: "tomb r s" and run: "archive_delivery d f c crc sess g s = (Inr x, s')"
  from run show "tomb r s'" by (cases rule: archive_delivery_ok) (use s in \<open>auto simp: tomb_def\<close>)
qed

lemma tomb_pieces:
  "ok_keeps (tomb r) (delete_context k)" "ok_keeps (tomb r) (update_resolutions P x)"
  "ok_keeps (tomb r) (upsert_session_summary p)"
proof -
  show "ok_keeps (tomb r) (delete_context k)" "ok_keeps (tomb r) (upsert_session_summary p)"
    unfolding delete_context_def upsert_session_summary_def
    by (intro ok_keeps_rules ok_keeps_mupd; simp add: tomb_def drop_context_def)+
  show "ok_keeps (tomb r) (update_resolutions P x)"
    unfolding update_resolutions_def
  proof (rule ok_keeps_mupd)
    fix db assume "tomb r db"
    then obtain t where t: "t \<in> set (db_resolutions db)" "rs_key t = (cq_device_id r, cq_boot_id r, cq_capture_id r)"
      "rs_inner_frame_crc32 t = cq_inner_frame_crc32 r" unfolding tomb_def by blast
    show "tomb r (db\<lparr>db_resolutions := map (\<lambda>t. if P t then t\<lparr>rs_resolution := x\<rparr> else t) (db_resolutions db)\<rparr>)"
      unfolding tomb_def
      by (rule bexI [of _ "if P t then t\<lparr>rs_resolution := x\<rparr> else t"]) (use t in \<open>auto simp: rs_key_def simp del: if_image_distrib\<close>)
  qed
qed

lemma tomb_finalize: "ok_keeps (tomb r) (finalize_summary_in_connection p pol)"
proof -
  have "ok_keeps (tomb r) (finalize_latest_in_connection u)" for u
    unfolding finalize_latest_in_connection_def Let_def
    by (intro ok_keeps_rules ok_keeps_option tomb_archive tomb_pieces ok_keeps_mupd) (simp add: tomb_def)
  then show ?thesis
    unfolding finalize_summary_in_connection_def Let_def by (intro ok_keeps_rules tomb_pieces)
qed

lemma store_reads_keep:
  "keeps I (grouping_metadata g)" "keeps I (get_capture c)" "keeps I (get_capture_events c)"
  "keeps I (get_session_summary u)" "keeps I (list_captures a l f)" "keeps I list_experiments" "keeps I (list_groups x)"
  unfolding list_experiments_def list_groups_def grouping_metadata_def get_capture_def get_capture_events_def get_session_summary_def list_captures_def
    check_filter_def bind_ints_def Let_def
  by (auto intro!: keeps_bind split: option.split list.split)

lemma safe_reads [intro!]:
  "safe_store (mret x)" "safe_store (grouping_metadata g)" "safe_store (get_capture c)" "safe_store (get_capture_events c)"
  "safe_store (get_session_summary u)" "safe_store (list_captures a l f)" "safe_store list_experiments" "safe_store (list_groups y)"
  unfolding safe_store_def by (intro conjI allI store_reads_keep keeps_basic)+

lemma safe_writes [intro!]:
  "safe_store (save_configuration_context ctx)" "safe_store (save_session_summary p)" "safe_store (finalize_session_summary p)"
  "safe_store (register_delivery_policy dv bt u pol g)" "safe_store (unregister_delivery_policy dv bt u)"
proof -
  have s: "keeps store_inv (save_session_summary p)"
    unfolding save_session_summary_def by (intro keeps_bind keeps_basic keeps_transaction upsert_session_summary_keeps)
  have t: "keeps (tomb r) (save_configuration_context ctx)" "keeps (tomb r) (save_session_summary p)"
    "keeps (tomb r) (finalize_session_summary p)" "keeps (tomb r) (register_delivery_policy dv bt u pol g)"
    "keeps (tomb r) (unregister_delivery_policy dv bt u)" for r
    unfolding save_configuration_context_def save_session_summary_def finalize_session_summary_def
      register_delivery_policy_def unregister_delivery_policy_def Let_def
    by (intro keeps_bind keeps_basic keeps_transaction ok_keeps_rules ok_keeps_mupd tomb_finalize tomb_pieces;
        (simp add: tomb_def)?)+
  show "safe_store (save_configuration_context ctx)" "safe_store (save_session_summary p)" "safe_store (finalize_session_summary p)"
    "safe_store (register_delivery_policy dv bt u pol g)" "safe_store (unregister_delivery_policy dv bt u)"
    unfolding safe_store_def
    by (intro conjI allI t s save_context_keeps finalize_session_keeps register_keeps unregister_keeps)+
qed

lemma safe_entities [intro!]:
  "safe_store (create_experiment i now name notes)" "safe_store (update_experiment now j changes)"
  "safe_store (create_group i now x name cell notes)" "safe_store (update_group now j changes)"
  "safe_store (assign_capture_group ids g)"
proof -
  have t: "keeps (tomb r) (create_experiment i now name notes)" "keeps (tomb r) (update_experiment now j changes)"
    "keeps (tomb r) (create_group i now x name cell notes)" "keeps (tomb r) (update_group now j changes)"
    "keeps (tomb r) (assign_capture_group ids g)" for r
    unfolding create_experiment_def update_experiment_def create_group_def update_group_def assign_capture_group_def
    by (intro keeps_bind keeps_basic keeps_if keeps_transaction ok_keeps_rules ok_keeps_mupd reads_change_nothing;
        (simp add: tomb_def)?)+
  have a: "keeps store_inv (assign_capture_group ids g)"
    unfolding assign_capture_group_def
    by (intro keeps_bind keeps_basic keeps_transaction ok_keeps_bind ok_keeps_group ok_keeps_basic ok_keeps_mupd
        assign_group_inv)
  show "safe_store (create_experiment i now name notes)" "safe_store (update_experiment now j changes)"
    "safe_store (create_group i now x name cell notes)" "safe_store (update_group now j changes)"
    "safe_store (assign_capture_group ids g)"
    unfolding safe_store_def by (intro conjI allI t a entities_keep_store)+
qed

lemma safe_reconcile [intro!]: "safe_store reconcile_interrupted_sessions"
proof -
  have "keeps (tomb r) (close_sessions rows)" for r rows
  proof (induction rows)
    case (Cons row rows)
    show ?case
      unfolding close_sessions.simps using safe_writes(3) by (intro keeps_bind Cons.IH) (simp add: safe_store_def)
  qed (simp only: close_sessions.simps keeps_basic)
  then show ?thesis
    unfolding safe_store_def reconcile_interrupted_sessions_def Let_def
    by (intro conjI allI keeps_bind keeps_basic close_sessions_keeps)
qed

section \<open>Changes on the host side\<close>

definition stored :: "'c World \<Rightarrow> bool" where
  "stored w \<longleftrightarrow> pred_option store_inv (wd_store w)"

text \<open>A change that leaves the device and the session table alone, keeps the store consistent and revives no session.\<close>

definition quieter :: "'c World \<Rightarrow> 'c World \<Rightarrow> bool" where
  "quieter w w' \<longleftrightarrow> wd_device w' = wd_device w \<and> wd_sessions w' = wd_sessions w \<and>
     (\<forall>i. session_live w' i \<longrightarrow> session_live w i) \<and> dom (wd_objects w) \<subseteq> dom (wd_objects w') \<and>
     (stored w \<longrightarrow> stored w') \<and> (\<forall>r. durable r w \<longrightarrow> durable r w')"

definition host :: "('c, 'a) world \<Rightarrow> bool" where
  "host m \<longleftrightarrow> (\<forall>w. quieter w (snd (m w)))"

lemma quieter_refl [simp]: "quieter w w"
  by (simp add: quieter_def)

lemma quieter_trans: "quieter w w' \<Longrightarrow> quieter w' w'' \<Longrightarrow> quieter w w''"
  unfolding quieter_def by (metis subset_trans)

lemma host_basic [intro!]:
  "host (mret x)" "host (mraise e)" "host (mlift r)" "host mget" "host (mguard b e)"
  by (simp_all add: host_def mguard_run)

lemma host_mupd: "(\<And>w. quieter w (g w)) \<Longrightarrow> host (mupd g)"
  by (simp add: host_def)

lemma host_bind [intro!]:
  assumes "host m" "\<And>x. host (f x)"
  shows "host (mbind m f)"
  unfolding host_def
proof
  fix w
  obtain r w' where m: "m w = (r, w')" by force
  then have "quieter w w'" using assms(1) unfolding host_def by (metis snd_conv)
  then show "quieter w (snd (mbind m f w))"
    using m assms(2) by (auto simp: mbind_run host_def intro: quieter_trans split: sum.split)
qed

lemma host_catch [intro!]:
  assumes "host m" "\<And>e. host (h e)"
  shows "host (mcatch m h)"
  unfolding host_def
proof
  fix w
  obtain r w' where m: "m w = (r, w')" by force
  then have "quieter w w'" using assms(1) unfolding host_def by (metis snd_conv)
  then show "quieter w (snd (mcatch m h w))"
    using m assms(2) by (auto simp: mcatch_run host_def intro: quieter_trans split: sum.split)
qed

lemma host_if [intro!]: "host m \<Longrightarrow> host m' \<Longrightarrow> host (if b then m else m')"
  by simp

lemma host_option [intro!]: "host m \<Longrightarrow> (\<And>x. host (f x)) \<Longrightarrow> host (case v of None \<Rightarrow> m | Some x \<Rightarrow> f x)"
  by (simp split: option.split)

lemma host_sum [intro!]: "(\<And>x. host (f x)) \<Longrightarrow> (\<And>x. host (g x)) \<Longrightarrow> host (case v of Inl x \<Rightarrow> f x | Inr x \<Rightarrow> g x)"
  by (simp split: sum.split)

lemma host_prod [intro!]: "(\<And>x y. host (f x y)) \<Longrightarrow> host (case p of (x, y) \<Rightarrow> f x y)"
  by (simp split: prod.split)

lemma host_time [intro!]: "host time_ns" "host uuid4"
  unfolding time_ns_def uuid4_def
  by (intro host_bind host_basic host_mupd; simp add: quieter_def session_live_def stored_def durable_def)+

lemma host_store [intro!]:
  assumes "safe_store m"
  shows "host (on_store m)"
proof -
  have "store_inv db \<Longrightarrow> m db = (x, db') \<Longrightarrow> store_inv db'" "tomb r db \<Longrightarrow> m db = (x, db') \<Longrightarrow> tomb r db'" for x db db' r
    using assms keepsD unfolding safe_store_def by (metis snd_conv)+
  then show ?thesis
    unfolding host_def on_store_def
    by (auto simp: mbind_run quieter_def session_live_def stored_def durable_def split: option.split prod.split)
qed

lemma host_change:
  assumes "\<And>x. live (f x) \<Longrightarrow> live x"
  shows "host (change_session i f)"
  unfolding change_session_def
  by (rule host_mupd) (auto simp: quieter_def session_live_def stored_def durable_def assms split: option.splits)

lemma live_sel [simp]:
  "live (x\<lparr>as_capture_count := n\<rparr>) = live x" "live (x\<lparr>as_saved_count := n\<rparr>) = live x"
  "live (x\<lparr>as_discarded_by_policy_count := n\<rparr>) = live x" "live (x\<lparr>as_last_saved_capture_id := u\<rparr>) = live x"
  "live (x\<lparr>as_capture_ids := us\<rparr>) = live x" "live (x\<lparr>as_lease := l\<rparr>) = live x"
  by (simp_all add: live_def)

lemma live_record [simp]: "live (record_capture p x) = live x" "live (settle_session s x) = live x"
  by (simp_all add: record_capture_def settle_session_def Let_def split: CaptureResolution.split)

lemma host_reads [intro!]:
  "host (app_grouping_metadata g)" "host (the_session i)" "host (session_payload i)" "host (the_transient c)"
  "host (app_capture c)" "host (the_summary i)" "host (stop_requested i)"
  unfolding session_payload_def the_transient_def app_capture_def the_summary_def stop_requested_def
    app_grouping_metadata_def the_session_def
  by (intro host_bind host_basic host_option host_if host_catch host_sum host_store safe_reads)+

lemma host_writes [intro!]:
  "host (save_session i)" "host (record_resolved i p)" "host (share_payload c d)" "host (change_summary i h)"
  "host (record_single i g p)" "host (keep_transient cap r snap plan g)"
  unfolding save_session_def record_resolved_def share_payload_def change_summary_def record_single_def keep_transient_def Let_def
  by (intro host_bind host_basic host_reads host_store safe_writes host_change host_mupd;
      simp add: quieter_def session_live_def stored_def durable_def)+

lemma host_single: "host (fail_single i g e)" "host (complete_single i pol g p)"
  unfolding fail_single_def complete_single_def share_result_def Let_def
  by (intro host_bind host_basic host_if host_reads host_writes host_time host_store safe_writes)+

lemma host_finish:
  assumes "state \<notin> set live_states"
  shows "host (finish_session i state reason err)"
proof -
  have "live (x\<lparr>as_state := state, as_terminal_reason := Some reason, as_error := err, as_finished_utc_ns := Some n\<rparr>) \<Longrightarrow> live x" for x n
    using assms by (simp add: live_def)
  then show ?thesis
    unfolding finish_session_def
    by (intro host_bind host_time host_reads host_basic host_store safe_writes host_change) simp_all
qed

text \<open>A stop request turns a running session into a stopping one; both are live.\<close>

lemma host_wp: "host m \<longleftrightarrow> (\<forall>w. wp m (\<lambda>_. quieter w) (\<lambda>_. quieter w) w)"
  unfolding host_def wp_outcome by (metis old.sum.exhaust prod.collapse snd_conv)

lemma stopping_quieter:
  assumes "wd_objects w i = Some x" "live x"
  shows "quieter w (snd (change_session i f w))"
  using assms by (auto simp: quieter_def change_session_def session_live_def stored_def durable_def)

lemma wp_stopping:
  assumes "wd_objects w i = Some x" "as_state x = ''RUNNING''" "\<And>w'. quieter w w' \<Longrightarrow> Q () w'"
  shows "wp (change_session i f) Q E w"
  using stopping_quieter [OF assms(1), of f] assms(2,3) by (simp add: wp_def change_session_def live_def live_states_def)

lemma wp_payload_quieter: "quieter w w' \<Longrightarrow> wp (session_payload i) (\<lambda>_. quieter w) (\<lambda>_. quieter w) w'"
  using host_reads(3) [of i] unfolding host_wp by (blast intro: wp_mono quieter_trans)

lemma host_stops [intro!]: "host (stop_sweep u)" "host (begin_stop u v)"
  unfolding host_wp stop_sweep_def begin_stop_def the_session_def Let_def
  by (auto simp: wp_simps intro!: wp_stopping wp_payload_quieter split: option.split sum.split session_kind.split)

lemma on_store_keeps_store:
  assumes "keeps store_inv m"
  shows "wp (on_store m) (\<lambda>_ w'. \<exists>db. w' = w\<lparr>wd_store := db\<rparr> \<and> (stored w \<longrightarrow> stored w'))
    (\<lambda>_ w'. \<exists>db. w' = w\<lparr>wd_store := db\<rparr> \<and> (stored w \<longrightarrow> stored w')) w"
proof (cases "wd_store w")
  case None
  then show ?thesis by (auto simp: on_store_def wp_simps intro!: exI [of _ None])
next
  case (Some db)
  obtain r db' where m: "m db = (r, db')" by force
  then have "store_inv db \<Longrightarrow> store_inv db'" using keepsD [OF assms] by (metis snd_conv)
  then show ?thesis
    using Some m by (auto simp: on_store_def wp_simps stored_def split: sum.split)
qed

section \<open>The session table\<close>

text \<open>No identifier twice, no more sessions than the history limit, and at most one live session.\<close>

definition table_ok :: "int \<Rightarrow> 'c World \<Rightarrow> bool" where
  "table_ok limit w \<longleftrightarrow> 1 \<le> limit \<and> distinct (wd_sessions w) \<and> set (wd_sessions w) \<subseteq> dom (wd_objects w) \<and>
     int (length (wd_sessions w)) \<le> limit \<and>
     (\<forall>i \<in> set (wd_sessions w). \<forall>j \<in> set (wd_sessions w). session_live w i \<longrightarrow> session_live w j \<longrightarrow> i = j)"

text \<open>The table has room for this session, and no other session is live; the flag: the session object exists.\<close>

definition room :: "int \<Rightarrow> bool \<Rightarrow> bytes \<Rightarrow> 'c World \<Rightarrow> bool" where
  "room limit b i w \<longleftrightarrow> (b \<longrightarrow> i \<in> dom (wd_objects w)) \<and> (\<forall>j \<in> set (wd_sessions w). session_live w j \<longrightarrow> j = i) \<and>
     (i \<in> set (wd_sessions w) \<or> int (length (wd_sessions w)) < limit)"

lemma quieter_table: "quieter w w' \<Longrightarrow> table_ok limit w \<Longrightarrow> table_ok limit w'"
  unfolding quieter_def table_ok_def by (metis subset_trans)

lemma quieter_room: "quieter w w' \<Longrightarrow> room limit b i w \<Longrightarrow> room limit b i w'"
  unfolding quieter_def room_def by (elim conjE, simp only:) blast

lemma device_irrelevant [simp]:
  "session_live (w\<lparr>wd_device := d\<rparr>) = session_live w" "stored (w\<lparr>wd_device := d\<rparr>) = stored w"
  "table_ok limit (w\<lparr>wd_device := d\<rparr>) = table_ok limit w" "room limit b i (w\<lparr>wd_device := d\<rparr>) = room limit b i w"
  by (simp_all add: fun_eq_iff session_live_def stored_def table_ok_def room_def)

lemma store_irrelevant [simp]:
  "session_live (w\<lparr>wd_store := d\<rparr>) = session_live w"
  "table_ok limit (w\<lparr>wd_store := d\<rparr>) = table_ok limit w" "room limit b i (w\<lparr>wd_store := d\<rparr>) = room limit b i w"
  by (simp_all add: fun_eq_iff session_live_def table_ok_def room_def)

lemma filter_not_in_take:
  assumes "distinct xs" "n \<le> length xs"
  shows "filter (\<lambda>x. x \<notin> set (take n xs)) xs = drop n xs"
proof -
  have d: "distinct (take n xs @ drop n xs)" using assms(1) by simp
  have "filter (\<lambda>x. x \<notin> set (take n xs)) (take n xs @ drop n xs) = drop n xs"
    using d by (simp only: filter_append distinct_append) (auto simp: filter_empty_conv filter_id_conv)
  then show ?thesis by simp
qed

lemma prune_sessions:
  assumes "table_ok limit w" "\<forall>i \<in> set (wd_sessions w). \<not> session_live w i"
    "prune_finished_sessions limit w = (r, w')"
  shows "table_ok limit w'" "room limit False i w'" "wd_device w' = wd_device w" "stored w' = stored w"
proof -
  have limit: "1 \<le> limit" using assms(1) by (simp add: table_ok_def)
  let ?n = "nat (max 0 (int (length (wd_sessions w)) - limit + 1))"
  have all: "filter (\<lambda>i. \<not> session_live w i) (wd_sessions w) = wd_sessions w"
    using assms(2) by (simp add: filter_id_conv)
  have d: "distinct (wd_sessions w)" "?n \<le> length (wd_sessions w)" using assms(1) by (auto simp: table_ok_def)
  have w': "w' = w\<lparr>wd_sessions := drop ?n (wd_sessions w)\<rparr>"
    using assms(3) by (simp add: prune_finished_sessions_def Let_def all filter_not_in_take [OF d])
  have sub: "set (drop ?n (wd_sessions w)) \<subseteq> set (wd_sessions w)" by (rule set_drop_subset)
  have live: "session_live w' = session_live w" by (simp add: w' fun_eq_iff session_live_def)
  have "distinct (wd_sessions w')" "set (wd_sessions w') \<subseteq> dom (wd_objects w')" "int (length (wd_sessions w')) \<le> limit"
    using assms(1) sub by (auto simp: w' table_ok_def)
  moreover have "\<not> session_live w' j" if "j \<in> set (wd_sessions w')" for j
    using assms(2) sub that unfolding live by (auto simp: w')
  ultimately show "table_ok limit w'" unfolding table_ok_def using limit by blast
  show "room limit False i w'"
    using assms(2) limit sub unfolding room_def live by (auto simp: w')
  show "wd_device w' = wd_device w" "stored w' = stored w" by (simp_all add: w' stored_def)
qed

lemma add_session_room:
  assumes "table_ok limit w" "room limit b i w" "as_session_id x = i" "add_session x w = (r, w')"
  shows "table_ok limit w'" "room limit True i w'" "wd_device w' = wd_device w" "stored w' = stored w"
proof -
  have w': "w' = w\<lparr>wd_objects := (wd_objects w)(i \<mapsto> x)\<rparr>" using assms(3,4) by (simp add: add_session_def)
  have live: "session_live w' j \<Longrightarrow> j \<noteq> i \<Longrightarrow> session_live w j" for j by (simp add: w' session_live_def)
  have only: "j = i" if "j \<in> set (wd_sessions w')" "session_live w' j" for j
  proof (rule ccontr)
    assume "j \<noteq> i"
    then have "session_live w j" using live that(2) by blast
    moreover have "j \<in> set (wd_sessions w)" using that(1) by (simp add: w')
    ultimately show False using assms(2) \<open>j \<noteq> i\<close> unfolding room_def by blast
  qed
  have "i \<in> set (wd_sessions w') \<or> int (length (wd_sessions w')) < limit" using assms(2) by (simp add: room_def w')
  moreover have "i \<in> dom (wd_objects w')" by (simp add: w')
  ultimately show "room limit True i w'" unfolding room_def using only by blast
  have "1 \<le> limit" "distinct (wd_sessions w')" "set (wd_sessions w') \<subseteq> dom (wd_objects w')" "int (length (wd_sessions w')) \<le> limit"
    using assms(1) by (auto simp: w' table_ok_def)
  with only show "table_ok limit w'" unfolding table_ok_def by blast
  show "wd_device w' = wd_device w" "stored w' = stored w" by (simp_all add: w' stored_def)
qed

lemma enlist_table:
  assumes "table_ok limit w" "room limit True i w" "enlist_session i w = (r, w')"
  shows "table_ok limit w'" "wd_device w' = wd_device w" "stored w' = stored w"
proof -
  have live: "session_live w' = session_live w" using assms(3) by (auto simp: enlist_session_def fun_eq_iff session_live_def)
  have w: "distinct (wd_sessions w)" "set (wd_sessions w) \<subseteq> dom (wd_objects w)" "int (length (wd_sessions w)) \<le> limit"
    "i \<in> set (wd_sessions w) \<or> int (length (wd_sessions w)) < limit" "session_live w j \<Longrightarrow> j \<in> set (wd_sessions w) \<Longrightarrow> j = i" for j
    using assms(1,2) by (auto simp: table_ok_def room_def)
  have dom: "i \<in> dom (wd_objects w)" using assms(2) by (simp add: room_def)
  have w': "wd_objects w' = wd_objects w"
    "wd_sessions w' = (if i \<in> set (wd_sessions w) then wd_sessions w else wd_sessions w @ [i])"
    using assms(3) by (auto simp: enlist_session_def)
  have "distinct (wd_sessions w')" "set (wd_sessions w') \<subseteq> dom (wd_objects w')" "int (length (wd_sessions w')) \<le> limit"
    using w(1-4) dom by (auto simp: w')
  moreover have "1 \<le> limit" using assms(1) by (simp add: table_ok_def)
  moreover have "j = i" if "j \<in> set (wd_sessions w')" "session_live w' j" for j
    using that w(5) unfolding live w' by (auto split: if_splits)
  ultimately show "table_ok limit w'" unfolding table_ok_def by blast
  show "wd_device w' = wd_device w" "stored w' = stored w" using assms(3) by (auto simp: enlist_session_def stored_def)
qed

lemma durable_irrelevant [simp]: "durable r (w\<lparr>wd_device := d\<rparr>) = durable r w"
  by (simp add: durable_def)

lemma commit_makes_durable:
  assumes "stored w" "on_store (commit_delivery d pol sess g) w = (Inr result, w')"
  shows "durable (ccr_receipt result) w'"
proof -
  obtain db db' where db: "wd_store w = Some db" "commit_delivery d pol sess g db = (Inr result, db')"
    "wd_store w' = Some db'"
    using assms(2) by (auto simp: on_store_def mbind_run split: option.splits prod.splits)
  have inv: "store_inv db" using assms(1) db(1) by (simp add: stored_def)
  from db(2) obtain p u f c where c: "open_delivery d = Inr (f, c)" "commit_in_connection d p u g f c db = (Inr result, db')"
    by (rule commit_delivery_run)
  from commit_in_connection_effect(2,3) [OF inv c] show ?thesis
    by (auto simp: durable_def tomb_def db(3) store_receipt_def tombstone_for_def cd_key_def)
qed

section \<open>Lease controllers\<close>

text \<open>A lease controller changes the client only through the client's own operations.\<close>

lemma lease_keeps:
  assumes "\<And>sch. keeps J (pdc_start_periodic c sch)" "\<And>r. keeps J (pdc_renew_periodic c r)" "\<And>i. keeps J (pdc_stop_periodic c i)"
  shows "keeps (\<lambda>l. J (plc_client l)) (lease_start c sch now)" "keeps (\<lambda>l. J (plc_client l)) (renew_if_due c now)"
    "keeps (\<lambda>l. J (plc_client l)) (lease_stop c)" "keeps (\<lambda>l. J (plc_client l)) lease_finish"
proof -
  have on: "keeps J m \<Longrightarrow> keeps (\<lambda>l. J (plc_client l)) (on_client m)" for m :: "('a, 'z) meth"
    unfolding keeps_def on_client_def by (auto split: prod.split dest: spec [of _ "plc_client _"])
  show "keeps (\<lambda>l. J (plc_client l)) (lease_start c sch now)" "keeps (\<lambda>l. J (plc_client l)) (renew_if_due c now)"
    "keeps (\<lambda>l. J (plc_client l)) (lease_stop c)" "keeps (\<lambda>l. J (plc_client l)) lease_finish"
    unfolding lease_start_def renew_if_due_def lease_stop_def lease_finish_def Let_def
    by (intro keeps_rules on assms; simp)+
qed

lemma on_lease_keeps:
  assumes "keeps (\<lambda>l. J (plc_client l)) m" "\<And>l. keeps J (on_world (change_session i (\<lambda>x. x\<lparr>as_lease := l\<rparr>)))"
  shows "keeps J (on_lease i m)"
  unfolding keeps_def
proof (intro allI impI)
  fix s assume J: "J s"
  show "J (snd (on_lease i m s))"
  proof (cases "wd_objects (xc_client s) i")
    case (Some x)
    obtain r l where m: "m (with_client s (as_lease x)) = (r, l)" by force
    have "J (plc_client l)" using keepsD [OF assms(1), of "with_client s (as_lease x)"] J m by (simp add: with_client_def)
    then show ?thesis using keepsD [OF assms(2)] Some m by (simp add: on_lease_def)
  qed (simp add: on_lease_def J)
qed

lemma keeps_all: "(\<And>i. keeps (I i) m) \<Longrightarrow> keeps (\<lambda>s. \<forall>i. I i s) m"
  unfolding keeps_def by blast

end
