(* ===== verification/App_Steps.thy ===== *)
theory App_Steps
  imports App_Host
begin

text \<open>
  Everything that can happen to a running application service, as a step relation: calls of the interfaces, frames
  that arrive by themselves, and the worker threads with the steps of other threads between theirs.
\<close>

section \<open>What can happen\<close>

text \<open>
  Steps of the interfaces that need neither the executor nor the device, and so can happen while a run plan holds the
  executor. A step is the state change of a call, whatever it returns or raises.
\<close>

inductive world_step :: "'c World \<Rightarrow> 'c World \<Rightarrow> bool" where
  stop_sweep: "world_step w (snd (stop_sweep u w))"
| begin_stop: "world_step w (snd (begin_stop u v w))"
| create_experiment: "world_step w (snd (app_create_experiment name notes w))"
| update_experiment: "world_step w (snd (app_update_experiment x changes w))"
| create_group: "world_step w (snd (app_create_group x name cell notes w))"
| update_group: "world_step w (snd (app_update_group g changes w))"
| assign_group: "world_step w (snd (app_assign_capture_group ids g' w))"
| read_session: "world_step w (snd (app_session u w))"
| read_sweep: "world_step w (snd (app_sweep u w))"
| read_capture: "world_step w (snd (app_capture u w))"
| read_samples: "world_step w (snd (app_capture_samples u w))"
| list_captures: "world_step w (snd (app_captures n cursor f w))"
| list_experiments: "world_step w (snd (app_list_experiments w))"
| list_groups: "world_step w (snd (app_list_groups x w))"

text \<open>
  Every call on the application, every frame that arrives inside another request, and every run of a worker
  thread. A worker gives way to other threads at the points \<open>others\<close> marks; there, anything reachable can happen.
\<close>

inductive app_step :: "AppConfig \<Rightarrow> 'c World DeviceClient \<Rightarrow> 'c World SingleDeviceExecutor \<Rightarrow> 'c World SingleDeviceExecutor \<Rightarrow> bool"
  for cfg dev where
  world: "world_step (xc_client s) w \<Longrightarrow> app_step cfg dev s (s\<lparr>xc_client := w\<rparr>)"
| view: "app_step cfg dev s (snd (app_device cfg dev lock_free now s))"
| config: "app_step cfg dev s (snd (app_config cfg dev s))"
| etag: "app_step cfg dev s (snd (app_etag cfg dev s))"
| validate: "app_step cfg dev s (snd (app_validate_config cfg dev changes s))"
| draft: "app_step cfg dev s (snd (save_draft cfg dev changes s))"
| apply_config: "app_step cfg dev s (snd (app_apply_config cfg dev changes tag s))"
| single: "app_step cfg dev s (snd (app_capture_once cfg dev p crc src t pol g s))"
| start_periodic: "app_step cfg dev s (snd (start_periodic cfg dev now p crc period n lease pol g s))"
| start_sweep: "app_step cfg dev s (snd (start_sweep cfg dev p crc fld vals loops delay gap src t pol g s))"
| frame: "app_step cfg dev s (snd (on_world (async_capture dev c) s))"
| sweep: "(\<And>w. world_step\<^sup>*\<^sup>* w (snd (quiet w))) \<Longrightarrow> app_step cfg dev s (snd (sweep_worker cfg dev quiet i plan s))"
| periodic: "(\<And>s. (app_step cfg dev)\<^sup>*\<^sup>* s (snd (others s))) \<Longrightarrow> app_step cfg dev s (snd (periodic_worker cfg dev others i ts s))"
| stop: "(\<And>s. (app_step cfg dev)\<^sup>*\<^sup>* s (snd (others s))) \<Longrightarrow> app_step cfg dev s (snd (stop_periodic cfg dev others u v s))"

text \<open>A service that has been constructed over an open store, and has then run for a while.\<close>

definition app_run ::
  "AppConfig \<Rightarrow> 'c World DeviceClient \<Rightarrow> 'c \<Rightarrow> CaptureStore option \<Rightarrow> 'c World SingleDeviceExecutor \<Rightarrow> bool" where
  "app_run cfg dev c db s \<longleftrightarrow> pred_option store_inv db \<and>
     (\<exists>clock uuids s0 s1. new_executor (ac_service cfg) dev (new_world c db clock uuids) = Inr s0 \<and>
        init_application cfg s0 = (Inr (), s1) \<and> (app_step cfg dev)\<^sup>*\<^sup>* s1 s)"

lemma app_run_start:
  assumes "pred_option store_inv db" "new_executor (ac_service cfg) dev (new_world c db clock uuids) = Inr s"
    "init_application cfg s = (Inr (), s')"
  shows "app_run cfg dev c db s'"
  using assms unfolding app_run_def by blast

lemma app_run_step: "app_run cfg dev c db s \<Longrightarrow> app_step cfg dev s s' \<Longrightarrow> app_run cfg dev c db s'"
  unfolding app_run_def by (meson rtranclp.rtrancl_into_rtrancl)

section \<open>Steps without the device\<close>

lemma host_calls [intro!]:
  "host (app_create_experiment name notes)" "host (app_update_experiment x changes)" "host (app_create_group x name cell notes)"
  "host (app_update_group g changes)" "host (app_assign_capture_group ids g')" "host (app_session u)" "host (app_sweep u)"
  "host (app_capture_samples u)" "host (app_captures n cursor f)" "host app_list_experiments" "host (app_list_groups x)"
proof -
  have g: "host (with_grouping items)" for items by (induction items) (simp_all only: with_grouping.simps host_bind host_basic host_reads)
  have r: "host (refresh_summary_grouping p)" for p
    unfolding refresh_summary_grouping_def Let_def by (intro host_bind host_reads host_basic)
  show "host (app_create_experiment name notes)" "host (app_update_experiment x changes)" "host (app_create_group x name cell notes)"
    "host (app_update_group g changes)" "host (app_assign_capture_group ids g')" "host (app_session u)" "host (app_sweep u)"
    "host (app_capture_samples u)" "host (app_captures n cursor f)" "host app_list_experiments" "host (app_list_groups x)"
    unfolding app_list_experiments_def app_list_groups_def app_create_experiment_def app_update_experiment_def app_create_group_def app_update_group_def
      app_assign_capture_group_def app_session_def app_sweep_def app_capture_samples_def app_captures_def Let_def
    by (intro host_bind host_basic host_if host_catch host_prod host_time host_reads host_store safe_reads safe_entities g r)+
qed

lemma world_step_quieter: "world_step w w' \<Longrightarrow> quieter w w'"
  by (induction rule: world_step.induct; rule host_calls [unfolded host_def, THEN spec] host_stops [unfolded host_def, THEN spec]
      host_reads [unfolded host_def, THEN spec])

lemma world_steps_quieter: "world_step\<^sup>*\<^sup>* w w' \<Longrightarrow> quieter w w'"
  by (induction rule: rtranclp_induct) (auto intro: quieter_trans world_step_quieter)

lemma steps_keep:
  assumes "\<And>s. (\<lambda>s s'. R s s' \<and> (I s \<longrightarrow> I s'))\<^sup>*\<^sup>* s (snd (others s))"
  shows "keeps I others"
proof -
  have "(\<lambda>s s'. R s s' \<and> (I s \<longrightarrow> I s'))\<^sup>*\<^sup>* s s' \<Longrightarrow> I s \<Longrightarrow> I s'" for s s'
    by (induction rule: rtranclp_induct) auto
  then show ?thesis using assms unfolding keeps_def by blast
qed

end
