(* ===== verification/App_Safety.thy ===== *)
theory App_Safety
  imports App_Steps
begin

text \<open>
  What the application service promises whatever its interfaces, its workers and the device do: one contract between the
  application and the device it drives, whose laws the operations are proved to respect once, and its
  instances: the session table, the commands that reach the hardware, and the receipts that
  release a capture from the bridge.
\<close>

section \<open>The contract with the device\<close>

definition only_device :: "('c, 'a) world \<Rightarrow> bool" where
  "only_device m \<longleftrightarrow> (\<forall>w. \<exists>d. snd (m w) = w\<lparr>wd_device := d\<rparr>)"

definition device_local :: "'c World DeviceClient \<Rightarrow> bool" where
  "device_local dev \<longleftrightarrow>
     (\<forall>config. only_device (dc_apply_config dev config)) \<and>
     (\<forall>config src t. only_device (dc_capture_once dev config src t)) \<and>
     only_device (dc_capabilities dev) \<and> only_device (dc_status dev) \<and>
     (\<forall>sch. only_device (dc_start_periodic dev sch)) \<and> (\<forall>r. only_device (dc_renew_periodic dev r)) \<and>
     (\<forall>i. only_device (dc_stop_periodic dev i)) \<and> only_device (dc_poll_captures dev) \<and>
     (\<forall>i. only_device (dc_capture_delivery dev i)) \<and> (\<forall>i. only_device (dc_capture_wire_frame dev i)) \<and>
     (\<forall>r. only_device (dc_confirm_capture dev r)) \<and> (\<forall>i. only_device (dc_release_capture dev i))"

lemma only_device_keeps:
  assumes "only_device m" "keeps (\<lambda>w. P (wd_device w)) m" "\<And>w d. R (w\<lparr>wd_device := d\<rparr>) = R w"
  shows "keeps (\<lambda>w. P (wd_device w) \<and> R w) m"
  using assms unfolding keeps_def only_device_def by metis

text \<open>
  What the application relies on: device operations change nothing but the device, and a property \<open>P\<close> of the
  device side survives the commands the hardware policy approves (\<^theory_text>\<open>guarded_client\<close>), reads, releases, and the
  receipt of a capture whose resolution is in the store.
\<close>

locale application_device =
  fixes cfg :: AppConfig and dev :: "'c World DeviceClient" and P :: "'c \<Rightarrow> bool"
  assumes local: "device_local dev"
    and guarded: "guarded_client dev (\<lambda>w. P (wd_device w))"
    and transfer_keeps: "keeps (\<lambda>w. P (wd_device w)) (dc_capture_wire_frame dev i)"
      "keeps (\<lambda>w. P (wd_device w)) (dc_capture_delivery dev i)" "keeps (\<lambda>w. P (wd_device w)) (dc_release_capture dev i)"
    and confirm_keeps: "P (wd_device w) \<Longrightarrow> stored w \<Longrightarrow> durable r w \<Longrightarrow> P (wd_device (snd (dc_confirm_capture dev r w)))"
begin

abbreviation base :: "'c World \<Rightarrow> bool" where
  "base w \<equiv> table_ok (ac_history_limit cfg) w \<and> stored w"

abbreviation sound :: "'c World \<Rightarrow> bool" where
  "sound w \<equiv> P (wd_device w) \<and> base w"

abbreviation starting :: "bool \<Rightarrow> bytes \<Rightarrow> 'c World \<Rightarrow> bool" where
  "starting b i w \<equiv> P (wd_device w) \<and> base w \<and> room (ac_history_limit cfg) b i w"

lemma guarded_also:
  assumes "\<And>w d. R (w\<lparr>wd_device := d\<rparr>) = R w"
  shows "guarded_client dev (\<lambda>w. P (wd_device w) \<and> R w)"
proof -
  note g = guarded [unfolded guarded_client_def]
  show ?thesis
    unfolding guarded_client_def
    by (intro conjI allI impI; rule only_device_keeps [OF _ _ assms]; (use local in \<open>simp add: device_local_def\<close>)?;
        (use g in \<open>simp; fail\<close>)?)
qed

sublocale app: guarded_client dev sound
  by (rule guarded_also) simp

sublocale start: guarded_client dev "starting b i" for b i
  by (rule guarded_also) simp

text \<open>Steps of the host keep everything.\<close>

lemma host_sound: "host m \<Longrightarrow> keeps sound m"
  unfolding keeps_def host_def by (metis quieter_def quieter_table)

lemma host_starting: "host m \<Longrightarrow> keeps (starting b i) m"
  unfolding keeps_def host_def by (metis quieter_def quieter_table quieter_room)

lemma host_durable: "host m \<Longrightarrow> keeps (\<lambda>w. sound w \<and> durable r w) m"
  unfolding keeps_def host_def by (metis quieter_def quieter_table)

lemma transfer_sound:
  "keeps sound (dc_capture_wire_frame dev i)" "keeps sound (dc_capture_delivery dev i)" "keeps sound (dc_release_capture dev i)"
  using local by (intro only_device_keeps transfer_keeps; simp add: device_local_def)+

lemma delivery_sound: "keeps sound (delivery_for dev capture)"
  unfolding delivery_for_def
  by (intro keeps_bind transfer_sound keeps_option keeps_basic host_sound [OF host_time(1)] keeps_mupd)
    (simp add: table_ok_def stored_def session_live_def)

lemma commit_sound:
  assumes "sound w"
  shows "wp (on_store (commit_delivery d pol sess g)) (\<lambda>r w. sound w \<and> durable (ccr_receipt r) w) (\<lambda>_. sound) w"
  using on_store_keeps_store [OF commit_delivery_keeps, of d pol sess g w] assms
    commit_makes_durable [of w d pol sess g]
  unfolding wp_outcome by fastforce

text \<open>A capture is confirmed to the bridge after its resolution is in the store.\<close>

lemma resolve_sound:
  assumes "\<And>p. host (on_resolved p)" "sound w"
  shows "wp (resolve_capture dev capture plan snap pol u g on_resolved)
    (\<lambda>(p, receipt) w. sound w \<and> durable receipt w) (\<lambda>_. sound) w"
proof -
  have kept: "wp m Q (\<lambda>_. sound) w'"
    if "host m" "sound w'" "durable r w'" "\<And>x w'. sound w' \<Longrightarrow> durable r w' \<Longrightarrow> Q x w'" for m :: "('c, 'z) world" and w' r Q
    using that by (intro wp_call [OF host_durable [OF that(1)]]) auto
  show ?thesis
    unfolding resolve_capture_def Let_def
    by (auto simp: wp_simps assms simp del: not_None_eq
        intro!: wp_call [OF host_sound [OF host_store [OF safe_writes(1)]]] wp_call [OF delivery_sound]
          wp_mono [OF commit_sound] kept [OF host_reads(5)] kept [OF host_writes(6)] kept [OF host_writes(3)]
          kept [OF assms(1)])
qed

lemma persist_sound:
  assumes "\<And>p. host (on_resolved p)"
  shows "keeps sound (persist_capture dev capture plan snap pol u g on_resolved)"
proof (rule keepsI_wp)
  fix w assume w: "sound w"
  have confirm: "wp (dc_confirm_capture dev r) Q E w'" if "sound w'" "durable r w'" "\<And>x w. sound w \<Longrightarrow> Q x w"
    "\<And>x w. sound w \<Longrightarrow> E x w" for r w' Q E
  proof -
    obtain x w'' where run: "dc_confirm_capture dev r w' = (x, w'')" by force
    obtain d where d: "w'' = w'\<lparr>wd_device := d\<rparr>"
      using local run unfolding device_local_def only_device_def by (metis snd_conv)
    have "sound w''" using confirm_keeps [of w' r] that(1,2) run d by simp
    then show ?thesis using run that(3,4) by (auto simp: wp_outcome)
  qed
  show "wp (persist_capture dev capture plan snap pol u g on_resolved) (\<lambda>_. sound) (\<lambda>_. sound) w"
    unfolding persist_capture_def
    by (rule wp_bindI [OF resolve_sound [OF assms w]])
      (auto simp: wp_simps intro!: confirm wp_call [OF transfer_sound(3)])
qed

abbreviation ready :: "'c World SingleDeviceExecutor \<Rightarrow> bool" where
  "ready \<equiv> app.good (ac_service cfg)"

abbreviation about :: "bool \<Rightarrow> bytes \<Rightarrow> 'c World SingleDeviceExecutor \<Rightarrow> bool" where
  "about b i \<equiv> start.good b i (ac_service cfg)"

lemma on_world_ready: "keeps sound m \<Longrightarrow> keeps ready (on_world m)"
  unfolding on_world_def by (rule app.on_client_keeps)

lemma on_world_about: "keeps (starting b i) m \<Longrightarrow> keeps (about b i) (on_world m)"
  unfolding on_world_def by (rule start.on_client_keeps)

lemmas host_ready = on_world_ready [OF host_sound]
lemmas host_about = on_world_about [OF host_starting]

lemma about_def: "about b i s \<longleftrightarrow> starting b i (xc_client s) \<and> xc_inv (ac_service cfg) s"
  by (rule start.good_def)

lemma about_ready: "about b i s \<Longrightarrow> ready s"
  unfolding about_def app.good_def by blast

section \<open>Configuration and single captures\<close>

lemma reads_ready:
  "keeps ready (require_device cfg dev)" "keeps ready (app_config cfg dev)" "keeps ready (app_etag cfg dev)"
  "keeps ready (app_validate_config cfg dev changes)" "keeps ready (app_device cfg dev free now)"
  "keeps ready (on_world require_idle)" "keeps ready (set_activity a)"
proof -
  show "keeps ready (on_world require_idle)"
    unfolding require_idle_def by (intro host_ready host_bind host_basic)
  show "keeps ready (set_activity a)"
    unfolding set_activity_def by (intro host_ready host_mupd) (simp add: quieter_def session_live_def stored_def durable_def)
  show "keeps ready (require_device cfg dev)" "keeps ready (app_config cfg dev)" "keeps ready (app_etag cfg dev)"
    "keeps ready (app_validate_config cfg dev changes)" "keeps ready (app_device cfg dev free now)"
    unfolding require_device_def app_config_def app_etag_def app_validate_config_def app_device_def Let_def
    by (intro keeps_rules app.reads_keep app.diagnostics_keep)+
qed

lemma configuration_ready:
  "keeps ready (save_draft cfg dev changes)" "keeps ready (app_apply_config cfg dev changes etag)"
  unfolding save_draft_def app_apply_config_def
  by (intro keeps_rules keeps_mfinally reads_ready app.reads_keep app.apply_keeps_good)+

lemma policy_registration_keeps:
  "keeps ready (app_register_policy cfg dev i pol g)" "keeps (about b j) (app_register_policy cfg dev i pol g)"
  unfolding app_register_policy_def require_device_def prod.case
  by (intro keeps_rules host_ready host_about host_reads host_store safe_writes app.diagnostics_keep start.diagnostics_keep)+

lemma capture_once_ready: "keeps ready (app_capture_once cfg dev p crc src t pol g)"
proof -
  have upd: "host (mupd (\<lambda>w. w\<lparr>wd_summaries := f w\<rparr>))" for f :: "'c World \<Rightarrow> _"
    by (rule host_mupd) (simp add: quieter_def session_live_def stored_def durable_def)
  show ?thesis
    unfolding app_capture_once_def Let_def
    by (intro keeps_rules keeps_mfinally keeps_mcatch reads_ready host_ready host_reads host_time host_store safe_writes upd host_single
        policy_registration_keeps app.capture_once_keeps persist_sound host_writes)
qed

section \<open>Starting a session\<close>

lemma wp_ready: "keeps ready m \<Longrightarrow> ready s \<Longrightarrow> (\<And>x s'. ready s' \<Longrightarrow> Q x s') \<Longrightarrow> wp m Q (\<lambda>_. ready) s"
  by (rule wp_call [where I = ready]) blast+

lemma wp_about: "keeps (about b i) m \<Longrightarrow> about b i s \<Longrightarrow> (\<And>x s'. about b i s' \<Longrightarrow> Q x s') \<Longrightarrow> wp m Q (\<lambda>_. ready) s"
  by (rule wp_call [where I = "about b i"]) (assumption | erule about_ready | blast)+

text \<open>An idle table is pruned until there is room for any session.\<close>

lemma wp_idle_prune:
  assumes "ready s" "\<And>s'. (\<And>i. about False i s') \<Longrightarrow> wp m Q (\<lambda>_. ready) s'"
  shows "wp (mbind (on_world require_idle) (\<lambda>_. mbind (on_world (prune_finished_sessions (ac_history_limit cfg))) (\<lambda>_. m)))
    Q (\<lambda>_. ready) s"
proof -
  let ?w = "xc_client s" and ?l = "ac_history_limit cfg"
  have s: "sound ?w" "xc_inv (ac_service cfg) s" using assms(1) unfolding app.good_def by blast+
  obtain w' where p: "prune_finished_sessions ?l ?w = (Inr (), w')" by (simp add: prune_finished_sessions_def)
  have "about False i (s\<lparr>xc_client := w'\<rparr>)" if "\<forall>i \<in> set (wd_sessions ?w). \<not> session_live ?w i" for i
    using prune_sessions [OF _ that p] s unfolding about_def by simp
  then have "wp m Q (\<lambda>_. ready) (s\<lparr>xc_client := w'\<rparr>)" if "\<forall>i \<in> set (wd_sessions ?w). \<not> session_live ?w i"
    using assms(2) that by blast
  then show ?thesis
    using p assms(1) s
    by (auto simp: wp_mbind on_world_def on_xc_client_def wp_mzoom require_idle_def wp_mget wp_mguard list_ex_iff)
      (simp_all add: wp_def)
qed

lemma wp_add_session:
  assumes "about False i s" "as_session_id x = i" "\<And>s'. about True i s' \<Longrightarrow> wp m Q (\<lambda>_. ready) s'"
  shows "wp (mbind (on_world (add_session x)) (\<lambda>_. m)) Q (\<lambda>_. ready) s"
proof -
  obtain w' where a: "add_session x (xc_client s) = (Inr (), w')" by (simp add: add_session_def)
  have s: "starting False i (xc_client s)" "xc_inv (ac_service cfg) s" using assms(1) unfolding about_def by blast+
  then have "table_ok (ac_history_limit cfg) (xc_client s)" "room (ac_history_limit cfg) False i (xc_client s)" by blast+
  from add_session_room [OF this assms(2) a] have "about True i (s\<lparr>xc_client := w'\<rparr>)" using s unfolding about_def by simp
  then show ?thesis using assms(3) a by (simp add: wp_mbind on_world_def on_xc_client_def wp_mzoom) (simp add: wp_def)
qed

lemma wp_enlist:
  assumes "about True i s" "\<And>s'. ready s' \<Longrightarrow> wp m Q (\<lambda>_. ready) s'"
  shows "wp (mbind (on_world (enlist_session i)) (\<lambda>_. m)) Q (\<lambda>_. ready) s"
proof -
  obtain w' where a: "enlist_session i (xc_client s) = (Inr (), w')" by (simp add: enlist_session_def)
  have s: "starting True i (xc_client s)" "xc_inv (ac_service cfg) s" using assms(1) unfolding about_def by blast+
  then have "table_ok (ac_history_limit cfg) (xc_client s)" "room (ac_history_limit cfg) True i (xc_client s)" by blast+
  from enlist_table [OF this a] have "ready (s\<lparr>xc_client := w'\<rparr>)" using s unfolding app.good_def by simp
  then show ?thesis using assms(2) a by (simp add: wp_mbind on_world_def on_xc_client_def wp_mzoom) (simp add: wp_def)
qed

text \<open>The lease controller of a session.\<close>

lemma lease_ready:
  "keeps ready (on_lease i (renew_if_due (lease_ops cfg dev) now))" "keeps ready (on_lease i (lease_stop (lease_ops cfg dev)))"
  "keeps ready (on_lease i lease_finish)" "keeps (about b j) (on_lease i (lease_start (lease_ops cfg dev) sch now))"
proof -
  have l: "host (change_session i (\<lambda>x. x\<lparr>as_lease := l\<rparr>))" for l by (rule host_change) simp
  have r: "keeps ready (pdc_start_periodic (lease_ops cfg dev) sch)" "keeps ready (pdc_renew_periodic (lease_ops cfg dev) r)"
    "keeps ready (pdc_stop_periodic (lease_ops cfg dev) u)" for sch r u
    unfolding lease_ops_def PeriodicDeviceClient.simps by (rule app.periodic_keeps [where cb = None]; simp)+
  have a: "keeps (about b j) (pdc_start_periodic (lease_ops cfg dev) sch)"
    "keeps (about b j) (pdc_renew_periodic (lease_ops cfg dev) r)" "keeps (about b j) (pdc_stop_periodic (lease_ops cfg dev) u)" for sch r u
    unfolding lease_ops_def PeriodicDeviceClient.simps by (rule start.periodic_keeps [where cb = None]; simp)+
  show "keeps ready (on_lease i (renew_if_due (lease_ops cfg dev) now))" "keeps ready (on_lease i (lease_stop (lease_ops cfg dev)))"
    by (rule on_lease_keeps; rule lease_keeps [OF r] host_ready [OF l])+
  show "keeps ready (on_lease i lease_finish)" by (rule on_lease_keeps; rule lease_keeps(4) [OF r] host_ready [OF l])
  show "keeps (about b j) (on_lease i (lease_start (lease_ops cfg dev) sch now))"
    by (rule on_lease_keeps; rule lease_keeps [OF a] host_about [OF l])
qed

lemma bind_ready:
  assumes "ready s" "keeps ready m" "\<And>x s'. ready s' \<Longrightarrow> wp (f x) Q (\<lambda>_. ready) s'"
  shows "wp (mbind m f) Q (\<lambda>_. ready) s"
  using assms unfolding wp_mbind by (blast intro: wp_ready)

lemma bind_about:
  assumes "about b i s" "keeps (about b i) m" "\<And>x s'. about b i s' \<Longrightarrow> wp (f x) Q (\<lambda>_. ready) s'"
  shows "wp (mbind m f) Q (\<lambda>_. ready) s"
  unfolding wp_mbind by (rule wp_about [OF assms(2,1)]) (rule assms(3))

lemma bind_any:
  assumes "\<And>i. about b i s" "\<And>i. keeps (about b i) m" "\<And>x s'. (\<And>i. about b i s') \<Longrightarrow> wp (f x) Q (\<lambda>_. ready) s'"
  shows "wp (mbind m f) Q (\<lambda>_. ready) s"
proof -
  have m: "keeps (\<lambda>s. \<forall>i. about b i s) m" by (rule keeps_all, rule assms(2))
  show ?thesis
    unfolding wp_mbind
    by (rule wp_call [OF m]; (rule allI, rule assms(1) | rule assms(3), erule spec | rule about_ready, erule spec))
qed

lemma save_payload_ready: "ready s \<Longrightarrow>
    wp (mbind (on_world (save_session i)) (\<lambda>_. on_world (session_payload i))) (\<lambda>_. ready) (\<lambda>_. ready) s"
  by (intro bind_ready wp_ready host_ready host_writes host_reads)

lemma start_periodic_ready: "keeps ready (start_periodic cfg dev now p crc period n lease pol g)"
proof (rule keepsI_wp)
  fix s assume s: "ready s"
  have catch: "keeps (about True i) (mcatch
      (mbind (on_world (install_handler cfg i)) (\<lambda>_. on_lease i (lease_start (lease_ops cfg dev) sch now)))
      (\<lambda>e. mbind (on_world (clear_handler cfg i)) (\<lambda>_. mbind (on_world (on_store (unregister_delivery_policy d bt u))) (\<lambda>_. mraise e))))"
    for i sch d bt u
    unfolding install_handler_def clear_handler_def
    by (intro keeps_rules keeps_mcatch lease_ready host_about host_store safe_writes host_mupd)
      (simp_all add: quieter_def session_live_def stored_def durable_def)
  have tail: "wp (mbind (on_world (add_session (new_session i k gid t sn))) (\<lambda>_.
      mbind (app_register_policy cfg dev i pol gid) (\<lambda>(device_id, policy_boot_id).
      mbind (mcatch
           (mbind (on_world (install_handler cfg i)) (\<lambda>_. on_lease i (lease_start (lease_ops cfg dev) sch now)))
           (\<lambda>e. mbind (on_world (clear_handler cfg i)) (\<lambda>_.
              mbind (on_world (on_store (unregister_delivery_policy device_id policy_boot_id (py_hex i)))) (\<lambda>_.
              mraise e)))) (\<lambda>_.
         mbind (on_world (enlist_session i)) (\<lambda>_.
         mbind (on_world (save_session i)) (\<lambda>_.
         on_world (session_payload i))))))) (\<lambda>_. ready) (\<lambda>_. ready) s'"
    if "about False i s'" for i k gid t sn sch s'
    by (rule wp_add_session [OF that], simp add: new_session_def, rule bind_about, assumption, rule policy_registration_keeps,
        simp only: split_def, rule bind_about, assumption, rule catch, rule wp_enlist, assumption, rule save_payload_ready)
  show "wp (start_periodic cfg dev now p crc period n lease pol g) (\<lambda>_. ready) (\<lambda>_. ready) s"
    unfolding start_periodic_def
    by (rule bind_ready [OF s host_ready [OF host_reads(1)]], rule bind_ready, assumption, rule reads_ready,
        rule bind_ready, assumption, rule keeps_basic, rule wp_idle_prune, assumption,
        rule bind_any, assumption, rule keeps_basic, simp only: wp_option Let_def, split option.split,
        intro conjI allI impI, simp only: wp_mraise, rule about_ready, assumption,
        rule bind_any, assumption, rule host_about [OF host_time(2)], rule bind_any, assumption, rule keeps_basic,
        rule bind_any, assumption, rule host_about [OF host_time(2)], rule bind_about, assumption,
        rule host_about [OF host_time(1)], rule bind_about, assumption, rule start.reads_keep, rule tail)
qed

lemma start_sweep_ready: "keeps ready (start_sweep cfg dev p crc fld vals loops delay gap src t pol g)"
proof (rule keepsI_wp)
  fix s assume s: "ready s"
  have tail: "wp (mbind (app_register_policy cfg dev i pol gid) (\<lambda>_.
     mbind (on_world (add_session (new_session i k gid st None))) (\<lambda>_.
     mbind (on_world (enlist_session i)) (\<lambda>_.
     mbind (on_world (save_session i)) (\<lambda>_.
     on_world (session_payload i)))))) (\<lambda>_. ready) (\<lambda>_. ready) s'"
    if "\<And>i. about False i s'" for i k gid st s'
    by (rule bind_about, rule that, rule policy_registration_keeps, rule wp_add_session, assumption, simp add: new_session_def,
        rule wp_enlist, assumption, rule save_payload_ready)
  show "wp (start_sweep cfg dev p crc fld vals loops delay gap src t pol g) (\<lambda>_. ready) (\<lambda>_. ready) s"
    unfolding start_sweep_def Let_def RunPlanV1.simps
    by (rule bind_ready [OF s host_ready [OF host_reads(1)]], rule bind_ready, assumption, rule reads_ready,
        rule bind_ready, assumption, rule app.reads_keep, rule bind_ready, assumption, rule app.reads_keep,
        rule bind_ready, assumption, rule keeps_basic, rule bind_ready, assumption, rule host_ready [OF host_time(2)],
        rule bind_ready, assumption, rule host_ready [OF host_time(1)], rule wp_idle_prune, assumption, rule tail)
qed

section \<open>Workers\<close>

lemma finish_ready:
  "keeps ready (on_world (finish_session i ''COMPLETED'' a e))" "keeps ready (on_world (finish_session i ''STOPPED'' a e))"
  "keeps ready (on_world (finish_session i ''FAILED'' a e))"
  by (intro host_ready host_finish; simp add: live_states_def)+

lemma handler_ready: "keeps ready (on_world (clear_handler cfg i))" "keeps ready (on_world (release_handler cfg i))"
proof -
  have c: "host (clear_handler cfg i)"
    unfolding clear_handler_def by (rule host_mupd) (simp add: quieter_def session_live_def stored_def durable_def)
  show "keeps ready (on_world (clear_handler cfg i))" "keeps ready (on_world (release_handler cfg i))"
    unfolding release_handler_def by (intro host_ready c host_bind host_reads host_if host_basic)+
qed

lemma persist_sessions:
  "keeps sound (persist_sweep dev i plan r)" "keeps sound (persist_interleaved dev i c)" "keeps sound (async_capture dev c)"
proof -
  show "keeps sound (persist_sweep dev i plan r)"
    unfolding persist_sweep_def by (intro keeps_rules host_sound [OF host_reads(2)] persist_sound host_writes)
  show p: "keeps sound (persist_interleaved dev i c)" for i
    unfolding persist_interleaved_def
    by (rule keeps_bind [OF host_sound [OF host_reads(2)]])
      (auto split: session_kind.split option.split intro!: keeps_rules persist_sound)
  show "keeps sound (async_capture dev c)"
    unfolding async_capture_def by (intro keeps_rules p)
qed

lemma sweep_worker_ready:
  assumes "keeps sound others"
  shows "keeps ready (sweep_worker cfg dev others i plan)"
proof -
  have env: "app.env_keeps (sweep_env dev others i plan)"
    using assms host_sound [OF host_reads(7)] persist_sessions(1)
    by (auto simp: app.env_keeps_def sweep_env_def intro!: keeps_bind)
  show ?thesis
    unfolding sweep_worker_def
    by (intro keeps_rules keeps_mcatch finish_ready app.run_plan_keeps [OF env] host_ready [OF host_reads(7)])
qed

lemma complete_ready: "keeps ready (complete_periodic i)"
  unfolding complete_periodic_def by (intro keeps_rules lease_ready finish_ready)

lemma periodic_turn_ready:
  assumes "keeps ready others"
  shows "keeps ready (periodic_turn cfg dev others i now)"
proof -
  have "keeps sound (mbind (persist_interleaved dev i c) (\<lambda>_. mret ()))" for c
    by (intro keeps_rules persist_sessions)
  then have "keeps ready (executor_poll_captures (ac_service cfg) dev
      (Some (\<lambda>c. mbind (persist_interleaved dev i c) (\<lambda>_. mret ()))))"
    by (intro app.periodic_keeps) auto
  then show ?thesis
    unfolding periodic_turn_def
    by (intro keeps_rules assms lease_ready complete_ready host_ready [OF host_reads(7)] host_ready [OF host_reads(2)])
qed

lemma keeps_ending:
  assumes "keeps I m" "keeps I c"
  shows "keeps I (ending m c)"
  unfolding keeps_def
proof (intro allI impI)
  fix s assume "I s"
  obtain r s' where m: "m s = (r, s')" by force
  have "I s'" using keepsD [OF assms(1) \<open>I s\<close>] m by simp
  moreover obtain r' s'' where c: "c s' = (r', s'')" by force
  ultimately have "I s''" using keepsD [OF assms(2)] by (metis snd_conv)
  then show "I (snd (ending m c s))"
    using m c \<open>I s'\<close> by (auto simp: ending_def split: sum.split bool.split)
qed

lemma periodic_worker_ready:
  assumes "keeps ready others"
  shows "keeps ready (periodic_worker cfg dev others i ts)"
proof -
  have loop: "keeps ready (periodic_loop cfg dev others i ts)"
    by (induction ts) (simp_all only: periodic_loop.simps keeps_basic keeps_bind keeps_if periodic_turn_ready [OF assms])
  have failed: "keeps ready (periodic_failed cfg dev others i e)" for e
    unfolding periodic_failed_def Let_def
    by (intro keeps_rules keeps_mcatch lease_ready assms complete_ready host_ready [OF host_reads(2)])
      (simp add: finish_ready)
  show ?thesis
    unfolding periodic_worker_def by (intro keeps_ending keeps_mcatch loop failed handler_ready)
qed

lemma stop_periodic_ready:
  assumes "keeps ready others"
  shows "keeps ready (stop_periodic cfg dev others u v)"
proof -
  have "keeps ready (finish_stop cfg dev others i v)" for i v
    unfolding finish_stop_def
    by (intro keeps_rules keeps_mfinally keeps_mcatch assms finish_ready handler_ready app.periodic_keeps [where cb = None]) simp
  then show ?thesis
    unfolding stop_periodic_def split_def
    by (intro keeps_rules assms host_ready host_stops host_reads)
qed

section \<open>Runs\<close>

lemma step_ready:
  assumes "app_step cfg dev s s'" "ready s"
  shows "ready s'"
  using assms
proof (induction rule: app_step.induct)
  case (world s w)
  then have q: "quieter (xc_client s) w" and s: "sound (xc_client s)" "xc_inv (ac_service cfg) s"
    using world_step_quieter unfolding app.good_def by blast+
  then have "sound w" using quieter_table [OF q] unfolding quieter_def by auto
  then show ?case using s(2) unfolding app.good_def by simp
next
  case (sweep quiet s i plan)
  have "keeps sound quiet"
    unfolding keeps_def using world_steps_quieter [OF sweep.hyps] quieter_table unfolding quieter_def by metis
  then show ?case using sweep.prems by (intro keepsD [OF sweep_worker_ready])
next
  case (periodic others s i ts)
  then show ?case by (intro keepsD [OF periodic_worker_ready] steps_keep)
next
  case (stop others s u v)
  then show ?case by (intro keepsD [OF stop_periodic_ready] steps_keep)
qed (blast intro: keepsD reads_ready configuration_ready capture_once_ready start_periodic_ready start_sweep_ready
      on_world_ready persist_sessions)+

lemma run_ready:
  assumes "app_run cfg dev c db s" "P c"
  shows "sound (xc_client s) \<and> xc_inv (ac_service cfg) s"
proof -
  obtain clock uuids s0 s1 where r: "pred_option store_inv db"
    "new_executor (ac_service cfg) dev (new_world c db clock uuids) = Inr s0"
    "init_application cfg s0 = (Inr (), s1)" "(app_step cfg dev)\<^sup>*\<^sup>* s1 s"
    using assms(1) unfolding app_run_def by blast
  have limit: "1 \<le> ac_history_limit cfg" using r(3) by (auto simp: init_application_def mbind_run mguard_run split: if_splits)
  have "xc_client s0 = new_world c db clock uuids" using r(2) by (auto simp: new_executor_def)
  then have "ready s0"
    using new_executor_inv [OF r(2)] assms(2) r(1) limit unfolding app.good_def by (simp add: table_ok_def new_world_def stored_def)
  moreover have "keeps ready (init_application cfg)"
    unfolding init_application_def by (intro keeps_rules host_ready host_bind host_basic host_store safe_reconcile)
  ultimately have "ready s1" using keepsD r(3) by (metis snd_conv)
  from r(4) this have "ready s" by (induction rule: rtranclp_induct) (auto intro: step_ready)
  then show ?thesis unfolding app.good_def by blast
qed

end

section \<open>The session table, the commands and the receipts\<close>

lemma device_call_keeps: "keeps P m \<Longrightarrow> keeps (\<lambda>w. P (wd_device w)) (on_wd_device m)"
  unfolding on_wd_device_def by (rule keeps_mzoom) auto

lemma device_call_only: "only_device (on_wd_device m)"
  unfolding only_device_def on_wd_device_def mzoom_def by (auto split: prod.split)

lemma only_device_upd:
  assumes "only_device m"
  shows "only_device (mbind (mupd (\<lambda>w. w\<lparr>wd_device := f w\<rparr>)) (\<lambda>_. m))"
  unfolding only_device_def
proof
  fix w
  obtain d where "snd (m (w\<lparr>wd_device := f w\<rparr>)) = w\<lparr>wd_device := f w\<rparr>\<lparr>wd_device := d\<rparr>"
    using assms unfolding only_device_def by metis
  then show "\<exists>d. snd (mbind (mupd (\<lambda>w. w\<lparr>wd_device := f w\<rparr>)) (\<lambda>_. m) w) = w\<lparr>wd_device := d\<rparr>"
    by (auto simp: mbind_run)
qed

lemma world_client_local: "device_local (world_client cl)"
  unfolding device_local_def world_client_def by (simp add: device_call_only)

lemma world_client_guarded:
  assumes "guarded_client cl P"
  shows "guarded_client (world_client cl) (\<lambda>w. P (wd_device w))"
  using assms unfolding guarded_client_def world_client_def by (simp add: device_call_keeps)

text \<open>Nothing is asked of the device for the session table; the command log of \<^theory_text>\<open>Device_Executor\<close> for the commands.\<close>

lemma anything_guarded: "guarded_client cl (\<lambda>_. True)"
  by unfold_locales (simp_all add: keeps_def)

lemma application_on:
  assumes "guarded_client cl P" "\<And>i. keeps P (dc_capture_wire_frame cl i)"
    "\<And>i. keeps P (dc_capture_delivery cl i)" "\<And>i. keeps P (dc_release_capture cl i)" "\<And>r. keeps P (dc_confirm_capture cl r)"
  shows "application_device (world_client cl) P"
  unfolding application_device_def
  using world_client_local [of cl] world_client_guarded [OF assms(1)] assms(2-)
    device_call_keeps [THEN keepsD, OF assms(5)]
  by (simp add: device_call_keeps) (simp add: world_client_def device_call_keeps)

interpretation table: application_device cfg "world_client cl" "\<lambda>_. True" for cfg cl
  by (rule application_on [OF anything_guarded]) (simp_all add: keeps_def)

interpretation commands: application_device cfg "world_client (logged cl)" audit_ok for cfg cl
  by (rule application_on [OF audit.guarded_client_axioms]) (simp_all add: logged_def logging_keeps)

text \<open>A device client whose state carries something beside it, and one that notes the store at every receipt.\<close>

definition on_fst :: "('c, 'a) meth \<Rightarrow> ('c \<times> 'l, 'a) meth" where
  "on_fst = mzoom fst (\<lambda>c s. (c, snd s))"

definition inner_client :: "'c DeviceClient \<Rightarrow> ('c \<times> 'l) DeviceClient" where
  "inner_client cl = \<lparr>dc_published_session = (\<lambda>s. dc_published_session cl (fst s)),
     dc_apply_config = (\<lambda>config. on_fst (dc_apply_config cl config)),
     dc_capture_once = (\<lambda>config src t. on_fst (dc_capture_once cl config src t)),
     dc_capabilities = on_fst (dc_capabilities cl), dc_status = on_fst (dc_status cl),
     dc_start_periodic = (\<lambda>sch. on_fst (dc_start_periodic cl sch)),
     dc_renew_periodic = (\<lambda>r. on_fst (dc_renew_periodic cl r)),
     dc_stop_periodic = (\<lambda>i. on_fst (dc_stop_periodic cl i)), dc_poll_captures = on_fst (dc_poll_captures cl),
     dc_capture_delivery = (\<lambda>i. on_fst (dc_capture_delivery cl i)),
     dc_capture_wire_frame = (\<lambda>i. on_fst (dc_capture_wire_frame cl i)),
     dc_confirm_capture = (\<lambda>r. on_fst (dc_confirm_capture cl r)),
     dc_release_capture = (\<lambda>i. on_fst (dc_release_capture cl i))\<rparr>"

type_synonym receipt_log = "(CaptureCommittedRequest \<times> CaptureStore option) list"

definition receipts_logged :: "'c DeviceClient \<Rightarrow> ('c \<times> receipt_log) World DeviceClient" where
  "receipts_logged cl = (world_client (inner_client cl))\<lparr>dc_confirm_capture := (\<lambda>r.
     mbind (mupd (\<lambda>w. w\<lparr>wd_device := (fst (wd_device w), snd (wd_device w) @ [(r, wd_store w)])\<rparr>)) (\<lambda>_.
     on_wd_device (on_fst (dc_confirm_capture cl r))))\<rparr>"

definition receipts_ok :: "'c \<times> receipt_log \<Rightarrow> bool" where
  "receipts_ok s \<longleftrightarrow> list_all (\<lambda>(r, store). \<exists>db. store = Some db \<and> store_inv db \<and> tomb r db) (snd s)"

lemma on_fst_keeps: "keeps receipts_ok (on_fst m)"
  unfolding on_fst_def keeps_def mzoom_def receipts_ok_def by (auto split: prod.split)

lemma inner_guarded: "guarded_client (inner_client cl) receipts_ok"
  unfolding guarded_client_def inner_client_def by (simp add: on_fst_keeps)

interpretation receipts: application_device cfg "receipts_logged cl" receipts_ok for cfg cl
proof -
  let ?dev = "receipts_logged cl"
  have l: "device_local ?dev"
    unfolding device_local_def receipts_logged_def world_client_def by (simp add: device_call_only only_device_upd)
  have g: "guarded_client ?dev (\<lambda>w. receipts_ok (wd_device w))"
    using world_client_guarded [OF inner_guarded] unfolding guarded_client_def receipts_logged_def by simp
  have t: "keeps (\<lambda>w. receipts_ok (wd_device w)) (dc_capture_wire_frame ?dev i)"
    "keeps (\<lambda>w. receipts_ok (wd_device w)) (dc_capture_delivery ?dev i)"
    "keeps (\<lambda>w. receipts_ok (wd_device w)) (dc_release_capture ?dev i)" for i
    unfolding receipts_logged_def world_client_def inner_client_def by (simp_all add: device_call_keeps on_fst_keeps)
  have c: "receipts_ok (wd_device (snd (dc_confirm_capture ?dev r w)))"
    if "receipts_ok (wd_device w)" "stored w" "durable r w" for r w
    using keepsD [OF device_call_keeps [OF on_fst_keeps], of _ "dc_confirm_capture cl r"] that
    unfolding receipts_logged_def by (auto simp: mbind_run receipts_ok_def stored_def durable_def)
  show "application_device ?dev receipts_ok"
    unfolding application_device_def using l g t c by blast
qed

end
