(* ===== verification/App_Properties.thy ===== *)
theory App_Properties
  imports App_Safety
begin

text \<open>
  The promises of the application service over every run, from the three instances of the contract of
  \<^theory_text>\<open>App_Safety\<close>, and a run on the simulated device that shows the hypotheses can be met.
\<close>

section \<open>A run on the simulated device\<close>

definition demo_app :: AppConfig where
  "demo_app = \<lparr>ac_service = demo_service, ac_history_limit = 100, ac_async = False\<rparr>"

definition demo_hardware :: "(SimulatedDeviceClient \<times> nat) \<times> device_call list" where
  "demo_hardware = (((new_client (new_device\<lparr>sd_boot_id := Some (replicate 16 7)\<rparr>))\<lparr>scl_device_id := Some (replicate 16 9), scl_boot_id := Some (replicate 16 7)\<rparr>, 0), [])"

abbreviation demo_ops :: "((SimulatedDeviceClient \<times> nat) \<times> device_call list) World DeviceClient" where
  "demo_ops \<equiv> world_client (logged (sim_device_client (\<lambda>_. 0)))"

abbreviation demo_world :: "((SimulatedDeviceClient \<times> nat) \<times> device_call list) World" where
  "demo_world \<equiv> new_world demo_hardware (Some new_store) (\<lambda>_. 0) (\<lambda>_. replicate 16 5)"

lemma update_draft_same:
  assumes "draft_snapshot svc (cs_requested d) = Inr d"
  shows "update_draft svc d [] = Inr d"
  using assms by (simp add: update_draft_def quantise_sampling_def quantise_burst_def)

lemma new_draft_same: "new_draft svc = Inr d \<Longrightarrow> draft_snapshot svc (cs_requested d) = Inr d"
  by (auto simp: new_draft_def draft_snapshot_def)

text \<open>What the constructor leaves, and what the first configuration leaves.\<close>

lemma demo_start:
  assumes "new_draft demo_service = Inr d"
  obtains s where "new_executor demo_service demo_ops demo_world = Inr s" "init_application demo_app s = (Inr (), s)"
    "xc_client s = demo_world" "xc_snapshot s = d" "xc_applied_config s = None" "xc_session_generation s = 0"
proof -
  obtain s where s: "new_executor demo_service demo_ops demo_world = Inr s" "xc_client s = demo_world" "xc_snapshot s = d"
    "xc_applied_config s = None" "xc_session_generation s = 0"
    using assms by (simp add: new_executor_def world_client_def logged_def sim_device_client_def demo_hardware_def
        sim_published_session_def new_client_def new_world_def)
  have "init_application demo_app s = (Inr (), s)"
    using s(2) by (simp add: init_application_def mbind_run mguard_run demo_app_def on_world_def on_xc_client_def
        mzoom_def on_store_def new_world_def reconcile_interrupted_sessions_def new_store_def)
  then show thesis using that s by blast
qed

lemma session_irrelevant [simp]:
  "sim_published_session (c\<lparr>scl_device := d\<rparr>) = sim_published_session c"
  "sim_published_session (c\<lparr>scl_sequence := n\<rparr>) = sim_published_session c"
  "sim_published_session (c\<lparr>scl_identifier_counter := n\<rparr>) = sim_published_session c"
  "sim_published_session (c\<lparr>scl_last_acked_type := m\<rparr>) = sim_published_session c"
  by (simp_all add: sim_published_session_def cong: option.case_cong)

lemma session_kept: "keeps (\<lambda>c. sim_published_session c = p) (client_apply_config t config)"
proof -
  have x: "keeps (\<lambda>c. sim_published_session c = p) (exchange t m e)" for t m e
    unfolding exchange_def next_sequence_def
    by (intro keeps_rules) (simp_all add: on_device_def keeps_def split: prod.split)
  show ?thesis
    unfolding client_apply_config_def new_identifier_def require_ack_def require_count_def Let_def
    by (intro keeps_rules x) simp_all
qed

lemma demo_applies:
  assumes "approved config"
  obtains c n where "dc_apply_config (logged (sim_device_client (\<lambda>_. 0))) config demo_hardware =
      (Inr \<lparr>rb_config = config\<rparr>, ((c, n), [ApplyCall config]))"
    "sim_published_session c = sim_published_session (fst (fst demo_hardware))"
proof -
  obtain c where c: "demo_hardware = ((c, 0), [])" by (simp add: demo_hardware_def)
  have r: "fresh c" "sim_room (Suc 0) (c, 0)"
    using c by (auto simp: demo_hardware_def fresh_def new_client_def new_device_def sim_room_def)
  obtain c' where c': "client_apply_config 0 config c = (Inr \<lparr>rb_config = config\<rparr>, c')"
    using client_apply_total [OF r assms] by blast
  have "sim_published_session c' = sim_published_session c"
    using keepsD [OF session_kept [of "sim_published_session c" 0 config] refl] c' by simp
  then show thesis
    using that [of c' 1] c' by (simp add: c logged_def logging_def mbind_run mzoom_def sim_device_client_def clocked_def)
qed

lemma demo_session: "published_session demo_ops s = sim_published_session (fst (fst (wd_device (xc_client s))))"
  by (simp add: published_session_def world_client_def logged_def sim_device_client_def split_def)

lemma merged_session [simp]: "dv_session (merge_published_session v p) = p"
  by (simp add: merge_published_session_def bare_view_def)

lemma new_world_sel [simp]:
  "wd_device (new_world c db clk u) = c" "wd_sessions (new_world c db clk u) = []" "wd_store (new_world c db clk u) = db"
  "wd_clock (new_world c db clk u) = clk" "wd_uuids (new_world c db clk u) = u" "wd_objects (new_world c db clk u) = Map.empty"
  by (simp_all add: new_world_def)

lemma demo_hardware_session:
  "pub_connected (sim_published_session (fst (fst demo_hardware)))"
  "pub_session_generation (sim_published_session (fst (fst demo_hardware))) = 0"
  "pub_device_id (sim_published_session (fst (fst demo_hardware))) = Some (replicate 16 9)"
  "pub_boot_id (sim_published_session (fst (fst demo_hardware))) = Some (replicate 16 7)"
  by (simp_all add: demo_hardware_def sim_published_session_def new_client_def)

definition demo_configured :: "AcquisitionConfigV2 \<Rightarrow> ((SimulatedDeviceClient \<times> nat) \<times> device_call list) World SingleDeviceExecutor \<Rightarrow> bool" where
  "demo_configured config s \<longleftrightarrow> (\<exists>c n. xc_client s = new_world ((c, n), [ApplyCall config]) (Some new_store) (\<lambda>_. 0) (\<lambda>_. replicate 16 5) \<and>
     sim_published_session c = sim_published_session (fst (fst demo_hardware))) \<and> xc_session_generation s = 0 \<and>
     xc_applied_config s = Some config \<and> cs_state (xc_snapshot s) = APPLIED \<and> validates demo_service (cs_requested (xc_snapshot s)) config"

text \<open>The default draft, what it compiles to, and what the first configuration of an idle service leaves.\<close>

lemma demo_parts:
  obtains d r config a where "new_draft demo_service = Inr d" "validate_snapshot demo_service d = Inr r"
    "require_compiled r = Inr config" "mark_applied demo_service (vr_snapshot r) config = Inr a"
    "cs_state a = APPLIED" "validates demo_service (cs_requested a) config" "approved config"
proof -
  obtain d r config where d: "new_draft demo_service = Inr d" "validate_snapshot demo_service d = Inr r"
    "vr_compiled r = Some config"
    using default_draft_validates by blast
  note rc = require_compiled_some [OF d(3) validate_snapshot_compiled(1) [OF d(2,3)]]
  have v: "validates demo_service (cs_requested (vr_snapshot r)) config" "cs_state (vr_snapshot r) = VALIDATED" "approved config"
    using require_compiled_pair [OF d(2) rc] by (simp_all add: validated_pair_def validates_def)
  obtain a where a: "mark_applied demo_service (vr_snapshot r) config = Inr a"
    using mark_applied_ok [OF _ _ _ v(2), of demo_service config] v(1) registry_ok registry_names
    by (auto simp: validates_def demo_service_def)
  show thesis using that [OF d(1,2) rc a] mark_applied_result [OF a] v by simp
qed

lemma applies_once:
  assumes "new_draft demo_service = Inr d" "validate_snapshot demo_service d = Inr r" "require_compiled r = Inr config"
    "mark_applied demo_service (vr_snapshot r) config = Inr a"
    and "xc_client s = w" "wd_sessions w = []" "xc_snapshot s = d" "xc_applied_config s = None" "xc_session_generation s = 0"
    and "dc_published_session dev w = p" "\<And>x. dc_published_session dev (w\<lparr>wd_operation_activity := x\<rparr>) = p"
      "\<And>x. dc_published_session dev (w'\<lparr>wd_operation_activity := x\<rparr>) = p" "pub_connected p" "pub_session_generation p = 0"
    and "\<And>x. dc_apply_config dev config (w\<lparr>wd_operation_activity := x\<rparr>) =
        (Inr \<lparr>rb_config = config\<rparr>, w'\<lparr>wd_operation_activity := x\<rparr>)"
  shows "wp (app_apply_config demo_app dev [] (etag_of None)) (\<lambda>_ s'. xc_client s' = w'\<lparr>wd_operation_activity := None\<rparr> \<and>
    xc_session_generation s' = 0 \<and> xc_applied_config s' = Some config \<and> xc_snapshot s' = a) (\<lambda>_ _. False) s"
  using assms(1-14)
  by (simp add: app_apply_config_def require_device_def try_device_view_def merge_view_def set_view_def wp_simps demo_app_def
      app_etag_def applied_etag_def refresh_session_def Let_def on_world_def on_xc_client_def require_idle_def set_activity_def
      apply_changes_def update_draft_same [OF new_draft_same] apply_validated_def published_session_def)
    (simp add: wp_def assms(15) mbind_run mzoom_def)

lemma app_run_call:
  assumes "app_run cfg dev c db s" "\<And>s. app_step cfg dev s (snd (m s))" "wp m (\<lambda>_. R) (\<lambda>_. R) s"
  obtains s' where "app_run cfg dev c db s'" "R s'"
proof -
  have "R (snd (m s))" using assms(3) by (simp add: wp_def split: prod.splits sum.splits)
  then show thesis using that app_run_step [OF assms(1,2)] by blast
qed

lemma demo_configures:
  obtains config s where "app_run demo_app demo_ops demo_hardware (Some new_store) s" "demo_configured config s"
proof -
  obtain d r config a where p: "new_draft demo_service = Inr d" "validate_snapshot demo_service d = Inr r"
    "require_compiled r = Inr config" "mark_applied demo_service (vr_snapshot r) config = Inr a"
    "cs_state a = APPLIED" "validates demo_service (cs_requested a) config" "approved config"
    by (rule demo_parts)
  obtain s where s: "new_executor demo_service demo_ops demo_world = Inr s" "init_application demo_app s = (Inr (), s)"
    "xc_client s = demo_world" "xc_snapshot s = d" "xc_applied_config s = None" "xc_session_generation s = 0"
    using demo_start [OF p(1)] .
  obtain c n where c: "dc_apply_config (logged (sim_device_client (\<lambda>_. 0))) config demo_hardware =
      (Inr \<lparr>rb_config = config\<rparr>, ((c, n), [ApplyCall config]))"
    "sim_published_session c = sim_published_session (fst (fst demo_hardware))"
    using demo_applies [OF p(7)] .
  let ?w = "demo_world\<lparr>wd_device := ((c, n), [ApplyCall config])\<rparr>"
  have pub: "dc_published_session demo_ops w = sim_published_session (fst (fst (wd_device w)))" for w
    by (simp add: world_client_def logged_def sim_device_client_def split_def)
  have ap: "dc_apply_config demo_ops config (demo_world\<lparr>wd_operation_activity := x\<rparr>) =
      (Inr \<lparr>rb_config = config\<rparr>, ?w\<lparr>wd_operation_activity := x\<rparr>)" for x
    using c(1) by (simp add: world_client_def on_wd_device_def mzoom_def)
  have done': "demo_configured config s'" if "xc_client s' = ?w\<lparr>wd_operation_activity := None\<rparr>"
    "xc_session_generation s' = 0" "xc_applied_config s' = Some config" "xc_snapshot s' = a" for s'
    unfolding demo_configured_def using that p(5,6) c(2) by (simp add: new_world_def)
  have step: "wp (app_apply_config demo_app demo_ops [] (etag_of None)) (\<lambda>_. demo_configured config) (\<lambda>_. demo_configured config) s"
    by (rule wp_mono [OF applies_once [OF p(1-4) s(3) _ s(4-6) _ _ _ demo_hardware_session(1,2) ap]])
      (simp_all add: pub c(2) done')
  have "app_run demo_app demo_ops demo_hardware (Some new_store) s"
    using s(1,2) new_store_inv by (intro app_run_start) (auto simp: demo_app_def)
  from app_run_call [OF this app_step.apply_config step] show thesis using that by blast
qed

lemma wp_no_group: "wd_store w = Some db \<Longrightarrow> wp (app_grouping_metadata None) Q E w \<longleftrightarrow>
    Q \<lparr>gm_group_id = None, gm_experiment_id = None, gm_group_name = None, gm_experiment_name = None, gm_cell_id = None\<rparr>
      (w\<lparr>wd_store := Some db\<rparr>)"
  by (simp add: app_grouping_metadata_def on_store_def grouping_metadata_def wp_simps)

lemma wp_register_demo:
  assumes "length i = 16" "length dv = 16" "length bt = 16" "wd_store w = Some db"
    "\<And>ps. Q () (w\<lparr>wd_store := Some (db\<lparr>db_policies := ps\<rparr>)\<rparr>)"
  shows "wp (on_store (register_delivery_policy dv bt (py_hex i) (policy_value pol) None)) Q E w"
  using assms
  by (cases pol)
    (simp_all add: on_store_def wp_simps register_delivery_policy_def mbind_run mguard_run normalize_session_id_def
      transaction_def validate_group_target_def policy_of_def Let_def)

lemma wp_any_store:
  assumes "wd_store w = Some db" "\<And>x db. Q x (w\<lparr>wd_store := Some db\<rparr>)" "\<And>e db. E e (w\<lparr>wd_store := Some db\<rparr>)"
  shows "wp (on_store m) Q E w"
  using assms by (auto simp: on_store_def wp_simps split: prod.split sum.split)

lemma wp_save_session:
  assumes "wd_objects w i = Some x" "as_group_id x = None" "wd_store w = Some db" "\<And>db. R (w\<lparr>wd_store := db\<rparr>)"
  shows "wp (save_session i) (\<lambda>_. wp (session_payload i) (\<lambda>_. R) (\<lambda>_. R)) (\<lambda>_. R) w"
proof -
  have p: "wp (session_payload i) (\<lambda>_. R) (\<lambda>_. R) (w\<lparr>wd_store := Some db\<rparr>)" for db
    using assms by (simp add: session_payload_def wp_simps the_session_def wp_no_group)
  show ?thesis
    unfolding save_session_def
    using assms(1,2) by (subst session_payload_def) (auto simp: wp_simps the_session_def wp_no_group [OF assms(3)]
      intro!: wp_any_store assms(4) p)
qed

section \<open>A run that confirms a capture\<close>

text \<open>A device client that accepts every configuration and has one small frame to deliver.\<close>

definition echo_session :: PublishedDeviceSession where
  "echo_session = \<lparr>pub_connected = True, pub_backend = ''BRIDGE'', pub_session_generation = 0, pub_hello = None,
     pub_device_id = Some (replicate 16 4), pub_boot_id = Some (replicate 16 3)\<rparr>"

definition echo_client :: "unit DeviceClient" where
  "echo_client = \<lparr>dc_published_session = (\<lambda>_. echo_session), dc_apply_config = (\<lambda>config. mret \<lparr>rb_config = config\<rparr>),
     dc_capture_once = (\<lambda>config src t. mret tiny_capture), dc_capabilities = mraise DeviceUnavailable,
     dc_status = mraise DeviceUnavailable, dc_start_periodic = (\<lambda>sch. mret ()), dc_renew_periodic = (\<lambda>r. mret r),
     dc_stop_periodic = (\<lambda>i. mret ()), dc_poll_captures = mret [], dc_capture_delivery = (\<lambda>i. mret (Some tiny_delivery)),
     dc_capture_wire_frame = (\<lambda>i. mret (bd_inner_frame tiny_delivery)), dc_confirm_capture = (\<lambda>r. mret ()),
     dc_release_capture = (\<lambda>i. mret ())\<rparr>"

abbreviation echo_ops :: "(unit \<times> receipt_log) World DeviceClient" where
  "echo_ops \<equiv> receipts_logged echo_client"

abbreviation echo_world :: "(unit \<times> receipt_log) World" where
  "echo_world \<equiv> new_world ((), []) (Some new_store) (\<lambda>_. 0) (\<lambda>_. replicate 16 5)"

lemma same_device [simp]: "w\<lparr>wd_device := ((), snd (wd_device w))\<rparr> = w"
  by (cases w) (simp add: prod_eq_iff)

lemma echo_simps [simp]:
  "dc_published_session echo_ops w = echo_session" "dc_apply_config echo_ops config w = (Inr \<lparr>rb_config = config\<rparr>, w)"
  "dc_capture_once echo_ops config src t w = (Inr tiny_capture, w)"
  "dc_capture_delivery echo_ops i w = (Inr (Some tiny_delivery), w)"
  "dc_capture_wire_frame echo_ops i w = (Inr (bd_inner_frame tiny_delivery), w)"
  "dc_confirm_capture echo_ops rc w = (Inr (), w\<lparr>wd_device := ((), snd (wd_device w) @ [(rc, wd_store w)])\<rparr>)"
  "dc_release_capture echo_ops i w = (Inr (), w)"
  by (simp_all add: receipts_logged_def world_client_def inner_client_def echo_client_def on_wd_device_def on_fst_def
      mzoom_def mbind_run)

lemma steady_configures:
  assumes "\<And>w. dc_published_session dev w = echo_session" "\<And>config w. dc_apply_config dev config w = (Inr \<lparr>rb_config = config\<rparr>, w)"
  obtains config s where "app_run demo_app dev c (Some new_store) s" "approved config"
    "xc_client s = new_world c (Some new_store) (\<lambda>_. 0) (\<lambda>_. replicate 16 5)" "xc_session_generation s = 0"
    "xc_applied_config s = Some config" "cs_state (xc_snapshot s) = APPLIED"
proof -
  obtain d r config a where p: "new_draft demo_service = Inr d" "validate_snapshot demo_service d = Inr r"
    "require_compiled r = Inr config" "mark_applied demo_service (vr_snapshot r) config = Inr a"
    "cs_state a = APPLIED" "validates demo_service (cs_requested a) config" "approved config"
    by (rule demo_parts)
  let ?w = "new_world c (Some new_store) (\<lambda>_. 0) (\<lambda>_. replicate 16 5)"
  obtain s where s: "new_executor demo_service dev ?w = Inr s"
    "xc_client s = ?w" "xc_snapshot s = d" "xc_applied_config s = None" "xc_session_generation s = 0"
    using p(1) by (simp add: new_executor_def assms(1) echo_session_def)
  have "init_application demo_app s = (Inr (), s)"
    using s(2) by (simp add: init_application_def mbind_run mguard_run demo_app_def on_world_def on_xc_client_def
        mzoom_def on_store_def new_world_def reconcile_interrupted_sessions_def new_store_def)
  then have run: "app_run demo_app dev c (Some new_store) s"
    using s(1) new_store_inv by (intro app_run_start) (auto simp: demo_app_def)
  let ?R = "\<lambda>s. xc_client s = ?w \<and> xc_session_generation s = 0 \<and> xc_applied_config s = Some config \<and> cs_state (xc_snapshot s) = APPLIED"
  have step: "wp (app_apply_config demo_app dev [] (etag_of None)) (\<lambda>_. ?R) (\<lambda>_. ?R) s"
    by (rule wp_mono [OF applies_once [OF p(1-4) s(2) _ s(3-5), where w' = ?w and p = echo_session]])
      (simp_all add: assms p(5) echo_session_def new_world_def)
  from app_run_call [OF run app_step.apply_config step] show thesis using that p(7) by blast
qed

section \<open>A run with a live session\<close>

lemma wp_on_lease:
  "wp (on_lease i m) Q E s \<longleftrightarrow> (case wd_objects (xc_client s) i of
     None \<Rightarrow> E KeyError s
   | Some x \<Rightarrow> wp m (\<lambda>r l. Q r (snd (on_world (change_session i (\<lambda>x. x\<lparr>as_lease := with_client () l\<rparr>)) (plc_client l))))
       (\<lambda>e l. E e (snd (on_world (change_session i (\<lambda>x. x\<lparr>as_lease := with_client () l\<rparr>)) (plc_client l)))) (with_client s (as_lease x)))"
  by (simp add: wp_def on_lease_def split: option.split prod.split sum.split)

lemma unit_device: "w\<lparr>wd_device := ()\<rparr> = w"
  by (cases w) simp

lemma wp_on_client: "wp (on_client m) Q E l \<longleftrightarrow>
    wp m (\<lambda>r c. Q r (l\<lparr>plc_client := c\<rparr>)) (\<lambda>e c. E e (l\<lparr>plc_client := c\<rparr>)) (plc_client l)"
  by (simp add: wp_def on_client_def split: prod.split sum.split)

definition demo_running :: "'c World SingleDeviceExecutor \<Rightarrow> bool" where
  "demo_running s \<longleftrightarrow> wd_sessions (xc_client s) = [replicate 16 5] \<and> session_live (xc_client s) (replicate 16 5)"

lemma echo_starts:
  assumes "xc_client s = new_world () (Some new_store) (\<lambda>_. 0) (\<lambda>_. replicate 16 5)" "xc_session_generation s = 0"
    "xc_applied_config s = Some config" "cs_state (xc_snapshot s) = APPLIED" "approved config"
  shows "wp (start_periodic demo_app (world_client echo_client) 0 (py_hex (profile_sha256 config)) (device_config_crc32 config)
      100000 0 3000 SAVE_NONE None) (\<lambda>_. demo_running) (\<lambda>_. demo_running) s"
proof -
  have len: "length (profile_sha256 config) = 32" "0 \<le> device_config_crc32 config" "device_config_crc32 config < 2 ^ 32"
    using assms(5) by (simp_all add: approved_def config_ok_def)
  have echo: "dc_published_session (world_client echo_client) w = echo_session"
    "wp (dc_start_periodic (world_client echo_client) sch) Q E w \<longleftrightarrow> Q () w" for w sch Q E
    by (simp_all add: wp_def world_client_def echo_client_def on_wd_device_def mzoom_def unit_device)
  have valid: "validate_schedule \<lparr>sch_boot_id = replicate 16 3, sch_schedule_id = replicate 16 5, sch_profile_sha256 = profile_sha256 config,
      sch_device_config_crc32 = device_config_crc32 config, sch_period_us = 100000, sch_capture_count = 0,
      sch_lease_timeout_ms = 3000\<rparr> = Inr ()"
    using len by (simp add: validate_schedule_def)
  show ?thesis
    using assms len
    apply (simp add: start_periodic_def wp_simps demo_app_def on_world_def on_xc_client_def require_device_def try_device_view_def
        merge_view_def set_view_def published_session_def Let_def uuid4_def time_ns_def require_idle_def prune_finished_sessions_def
        app_register_policy_def wp_no_group echo echo_session_def executor_snapshot_def refresh_session_def add_session_def valid)
    apply (rule wp_register_demo [where pol = SAVE_NONE, unfolded policy_value.simps], simp, simp, simp, simp)
    apply (simp add: install_handler_def wp_simps on_world_def on_xc_client_def wp_on_lease lease_start_def lease_ops_def valid
        new_session_def new_controller_def with_client_def wp_on_client executor_start_periodic_def refresh_session_def
        merge_view_def set_view_def published_session_def echo echo_session_def require_applied_identity_unlocked_def
        change_session_def enlist_session_def)
    apply (simp add: mzoom_def)
    apply (rule wp_save_session, simp, simp, simp)
    apply (simp add: demo_running_def session_live_def live_def live_states_def)
    done
qed

section \<open>A run that confirms a capture\<close>

lemma tiny_discard:
  assumes "db_resolutions db = []" "length i = 16"
  shows "\<exists>r db'. commit_delivery tiny_delivery ''SAVE_NONE'' (Some (py_hex i)) None db = (Inr r, db') \<and> ccr_resolution r = DISCARDED_BY_POLICY"
  using assms
  by (simp add: commit_delivery_def commit_arguments_def policy_of_def normalize_session_id_def tiny_delivery_opens
      commit_in_connection_def transaction_def mbind_run Let_def validate_group_target_def
      resolve_new_def bind_ints_def mguard_run insert_resolution_def count_delivery_def
      prune_resolutions_def delete_context_def)
    (auto simp: tiny_delivery_def sqlite_int_def)

lemma echo_persists:
  assumes "wd_store w = Some db" "db_resolutions db = []" "length i = 16"
    "\<And>p w' db. wd_store w' = Some db \<Longrightarrow> wd_summaries w' = wd_summaries w \<Longrightarrow> wp (on_resolved p) (\<lambda>_ _. True) (\<lambda>_ _. False) w'"
  shows "wp (persist_capture echo_ops tiny_capture plan snap SAVE_NONE (py_hex i) None on_resolved)
    (\<lambda>_ w. snd (wd_device w) \<noteq> []) (\<lambda>_ _. False) w"
proof -
  have ctx: "on_store (save_configuration_context (capture_context tiny_capture snap plan)) w =
      (Inr (), w\<lparr>wd_store := Some (db\<lparr>db_contexts := upsert context_key (capture_context tiny_capture snap plan) (db_contexts db)\<rparr>)\<rparr>)"
    using assms(1)
    by (simp add: on_store_def save_configuration_context_def mbind_run mguard_run transaction_def bind_ints_def capture_context_def
        tiny_capture_def sqlite_int_def)
  obtain r db' where c: "commit_delivery tiny_delivery ''SAVE_NONE'' (Some (py_hex i)) None
      (db\<lparr>db_contexts := upsert context_key (capture_context tiny_capture snap plan) (db_contexts db)\<rparr>) = (Inr r, db')"
    "ccr_resolution r = DISCARDED_BY_POLICY"
    using tiny_discard [of "db\<lparr>db_contexts := upsert context_key (capture_context tiny_capture snap plan) (db_contexts db)\<rparr>" i]
      assms(2,3) by auto
  obtain blob where blob: "pack (replicate (nat (cd_sample_count tiny_capture)) FH) (map PInt (cd_samples tiny_capture)) = Inr blob"
    using fits_packs [of "[FH, FH]" "[PInt 100, PInt 4095]"] by (auto simp: tiny_capture_def numeral_2_eq_2 frange_def)
  let ?w1 = "w\<lparr>wd_store := Some (db\<lparr>db_contexts := upsert context_key (capture_context tiny_capture snap plan) (db_contexts db)\<rparr>)\<rparr>"
  have runs: "delivery_for echo_ops tiny_capture w' = (Inr tiny_delivery, w')"
    "on_store (commit_delivery tiny_delivery ''SAVE_NONE'' (Some (py_hex i)) None) ?w1 = (Inr r, w\<lparr>wd_store := Some db'\<rparr>)" for w'
    using c(1) by (simp_all add: delivery_for_def mbind_run on_store_def)
  have wps: "wp (on_store (save_configuration_context (capture_context tiny_capture snap plan))) Q E w \<longleftrightarrow> Q () ?w1"
    "wp (delivery_for echo_ops tiny_capture) Q2 E w' \<longleftrightarrow> Q2 tiny_delivery w'"
    "wp (on_store (commit_delivery tiny_delivery ''SAVE_NONE'' (Some (py_hex i)) None)) Q3 E ?w1 \<longleftrightarrow> Q3 r (w\<lparr>wd_store := Some db'\<rparr>)"
    "wp (dc_confirm_capture echo_ops rc) Q E w' \<longleftrightarrow> Q () (snd (dc_confirm_capture echo_ops rc w'))"
    "wp (dc_release_capture echo_ops j) Q E w' \<longleftrightarrow> Q () w'" for Q Q2 Q3 E w' rc j
    by (simp_all add: wp_def ctx runs del: not_None_eq)
  show ?thesis
    using c(2)
    by (simp add: persist_capture_def resolve_capture_def keep_transient_def share_payload_def wp_simps Let_def blob wps wp_no_group
        del: echo_simps)
      (rule wp_mono [OF assms(4) [of _ db']], simp_all add: wp_simps wps)
qed

lemma wp_save_summary:
  assumes "wd_store w = Some db" "sm_session_id p = py_hex i" "length i = 16" "sm_save_policy p = policy_value pol" "sm_state p \<noteq> []"
    "sm_started_utc_ns p = Some 0" "sm_finished_utc_ns p = None" "\<And>ss. Q () (w\<lparr>wd_store := Some (db\<lparr>db_sessions := ss\<rparr>)\<rparr>)"
  shows "wp (on_store (save_session_summary p)) Q E w"
  using assms
  by (simp add: on_store_def wp_simps save_session_summary_def mbind_run mguard_run normalize_session_id_def
      transaction_def upsert_session_summary_def bind_ints_def summary_time_def sqlite_int_def)

lemma record_single_returns:
  assumes "wd_store w = Some db" "wd_summaries w i = Some p" "sm_session_id p = py_hex i" "length i = 16"
    "sm_save_policy p = policy_value pol" "sm_state p \<noteq> []" "sm_started_utc_ns p = Some 0" "sm_finished_utc_ns p = None"
  shows "wp (record_single i None q) (\<lambda>_ _. True) (\<lambda>_ _. False) w"
  using assms
  by (simp add: record_single_def wp_simps wp_no_group change_summary_def the_summary_def)
    (rule wp_save_summary, simp_all add: resolved_summary_def set_grouping_def add_other_def)

lemma echo_wps:
  "wp (dc_capture_once echo_ops config src t) Q E w \<longleftrightarrow> Q tiny_capture w"
  by (simp add: wp_def)

lemma echo_captures:
  assumes "xc_client s = echo_world" "xc_session_generation s = 0" "xc_applied_config s = Some config" "cs_state (xc_snapshot s) = APPLIED"
  shows "wp (app_capture_once demo_app echo_ops (py_hex (profile_sha256 config)) (device_config_crc32 config) ''SOFTWARE'' 0 SAVE_NONE None)
    (\<lambda>_ s. snd (wd_device (xc_client s)) \<noteq> []) (\<lambda>_ s. snd (wd_device (xc_client s)) \<noteq> []) s"
proof -
  have finish: "wp (complete_single i pol g p) (\<lambda>_ w. snd (wd_device w) \<noteq> []) (\<lambda>_ w. snd (wd_device w) \<noteq> []) w"
    if "snd (wd_device w) \<noteq> []" for i pol g p and w :: "(unit \<times> receipt_log) World"
    using host_single(2) [of i pol g p] that unfolding host_wp by (auto elim!: allE [of _ w] simp: quieter_def intro: wp_mono)
  show ?thesis
    using assms
    by (simp add: app_capture_once_def wp_simps demo_app_def on_world_def on_xc_client_def require_device_def try_device_view_def
        merge_view_def set_view_def published_session_def Let_def uuid4_def time_ns_def require_idle_def
        app_register_policy_def wp_no_group echo_session_def)
      (rule wp_register_demo [where pol = SAVE_NONE, unfolded policy_value.simps], simp_all,
       rule wp_save_summary [where pol = SAVE_NONE and i = "replicate 16 5"], simp_all add: single_summary_def,
       simp add: set_activity_def wp_simps on_world_def on_xc_client_def executor_capture_once_def refresh_session_def
         published_session_def Let_def require_applied_identity_unlocked_def validate_trigger_def echo_session_def echo_wps,
       rule wp_mono [OF echo_persists],
       auto simp: new_store_def intro!: finish record_single_returns [where pol = SAVE_NONE])
qed

section \<open>Properties\<close>

text \<open>C3 (invariant). Whatever the interfaces ask, whatever the device answers and however the worker threads and the
  callers interleave, a service that was constructed over a consistent store keeps its session table in order:
  no identifier twice, never more sessions than the history limit, and at most one of them running or stopping;
  and the store stays consistent.\<close>

theorem at_most_one_live_session:
  assumes "app_run cfg (world_client cl) c db s" and "w = xc_client s"
  shows "distinct (wd_sessions w) \<and> int (length (wd_sessions w)) \<le> ac_history_limit cfg \<and>
    (\<forall>i \<in> set (wd_sessions w). \<forall>j \<in> set (wd_sessions w). session_live w i \<longrightarrow> session_live w j \<longrightarrow> i = j) \<and>
    pred_option store_inv (wd_store w)"
  using table.run_ready [OF assms(1)] assms(2) by (simp add: table_ok_def stored_def)

theorem at_most_one_live_session_witness:
  "\<exists>s. app_run demo_app (world_client echo_client) () (Some new_store) s \<and> wd_sessions (xc_client s) = [replicate 16 5] \<and>
     session_live (xc_client s) (replicate 16 5) \<and> pred_option store_inv (wd_store (xc_client s))"
proof -
  obtain config s where s: "app_run demo_app (world_client echo_client) () (Some new_store) s" "approved config"
    "xc_client s = new_world () (Some new_store) (\<lambda>_. 0) (\<lambda>_. replicate 16 5)" "xc_session_generation s = 0"
    "xc_applied_config s = Some config" "cs_state (xc_snapshot s) = APPLIED"
    by (rule steady_configures [of "world_client echo_client" "()"])
      (simp_all add: world_client_def echo_client_def on_wd_device_def mzoom_def)
  obtain s' where "app_run demo_app (world_client echo_client) () (Some new_store) s'" "demo_running s'"
    by (rule app_run_call [OF s(1) app_step.start_periodic echo_starts [OF s(3-6,2)]])
  then show ?thesis
    using at_most_one_live_session [of demo_app echo_client "()" "Some new_store" s'] by (auto simp: demo_running_def)
qed

text \<open>C4 (safety). Over every run of the service, with every worker and every interleaving, the only configurations, captures
  and schedules the device is given are ones the hardware safety policy approves, with a valid trigger.\<close>

theorem application_sends_only_approved_commands:
  assumes "app_run cfg (world_client (logged cl)) (c, []) db s"
  shows "list_all call_approved (snd (wd_device (xc_client s)))"
  using commands.run_ready [OF assms] by (simp add: audit_ok_def)

theorem application_sends_only_approved_commands_witness:
  "\<exists>s config. app_run demo_app demo_ops demo_hardware (Some new_store) s \<and>
     snd (wd_device (xc_client s)) = [ApplyCall config] \<and> approved config"
proof -
  obtain config s where s: "app_run demo_app demo_ops demo_hardware (Some new_store) s" "demo_configured config s"
    by (rule demo_configures)
  obtain c where "demo_hardware = (c, [])" by (simp add: demo_hardware_def)
  with application_sends_only_approved_commands [of demo_app _ c "Some new_store" s] s show ?thesis
    by (auto simp: demo_configured_def)
qed

text \<open>C2 (safety). A capture is confirmed to the bridge, which then deletes its copy, only when the store already holds the
  resolution of exactly that frame: at every receipt the service sends, over every run, the store is
  consistent and has a tombstone with the device, boot and capture identifiers and the checksum the receipt names.\<close>

theorem receipts_follow_storage:
  assumes "app_run cfg (receipts_logged cl) (c, []) db s" and "(receipt, store) \<in> set (snd (wd_device (xc_client s)))"
  shows "\<exists>db. store = Some db \<and> store_inv db \<and> (\<exists>t \<in> set (db_resolutions db).
      rs_key t = (cq_device_id receipt, cq_boot_id receipt, cq_capture_id receipt) \<and>
      rs_inner_frame_crc32 t = cq_inner_frame_crc32 receipt)"
  using receipts.run_ready [OF assms(1)] assms(2) by (auto simp: receipts_ok_def list_all_iff tomb_def)

theorem receipts_follow_storage_witness:
  "\<exists>s receipt db. app_run demo_app echo_ops ((), []) (Some new_store) s \<and>
     (receipt, Some db) \<in> set (snd (wd_device (xc_client s))) \<and> store_inv db \<and>
     (\<exists>t \<in> set (db_resolutions db). rs_inner_frame_crc32 t = cq_inner_frame_crc32 receipt)"
proof -
  obtain config s where s: "app_run demo_app echo_ops ((), []) (Some new_store) s" "approved config"
    "xc_client s = echo_world" "xc_session_generation s = 0" "xc_applied_config s = Some config" "cs_state (xc_snapshot s) = APPLIED"
    by (rule steady_configures [OF echo_simps(1,2)])
  obtain s' where s': "app_run demo_app echo_ops ((), []) (Some new_store) s'" "snd (wd_device (xc_client s')) \<noteq> []"
    by (rule app_run_call [OF s(1) app_step.single echo_captures [OF s(3-6)]])
  then obtain receipt store where m: "(receipt, store) \<in> set (snd (wd_device (xc_client s')))"
    by (metis list.set_sel(1) prod.exhaust)
  from receipts_follow_storage [OF s'(1) m] s'(1) m show ?thesis by blast
qed

end
