(* ===== verification/Runtime_Config.thy ===== *)
theory Runtime_Config
  imports Store_Groups
begin

text \<open>
  \<open>config.py\<close>: the runtime configuration of a process, from a TOML document and the \<open>USAC_*\<close> environment
  variables. The parsed document is a \<^typ>\<open>pyobj dict\<close> and the environment an association list. What the
  host's \<open>pathlib.Path\<close> does to a path is not code of the repository: its operations are the fields of a record
  that every definition takes.
\<close>

record 'p PathOps =
  pt_path :: "string \<Rightarrow> 'p"
  pt_expanduser :: "'p \<Rightarrow> 'p"
  pt_is_absolute :: "'p \<Rightarrow> bool"
  pt_join :: "'p \<Rightarrow> 'p \<Rightarrow> 'p"
  pt_resolve :: "'p \<Rightarrow> 'p"
  pt_parent :: "'p \<Rightarrow> 'p"

record SerialConfig =
  sc_port :: string
  sc_baudrate :: int
  sc_timeout_ms :: int

record 'p StorageConfig =
  st_data_dir :: 'p
  st_spool_dir :: 'p
  st_sqlite_path :: 'p

record 'p RuntimeConfig =
  rtc_serial :: SerialConfig
  rtc_storage :: "'p StorageConfig"

definition required_table :: "pyobj dict \<Rightarrow> string \<Rightarrow> pyobj dict res" where
  "required_table document name =
     (case map_of document name of Some (ODict table) \<Rightarrow> Inr table | _ \<Rightarrow> Inl ConfigurationError)"

definition required_text :: "pyobj dict \<Rightarrow> string \<Rightarrow> string res" where
  "required_text table name =
     (case map_of table name of
        Some (OStr text) \<Rightarrow> if py_strip text = [] then Inl ConfigurationError else Inr (py_strip text)
      | _ \<Rightarrow> Inl ConfigurationError)"

definition positive_integer :: "pyobj dict \<Rightarrow> string \<Rightarrow> int res" where
  "positive_integer table name =
     (case map_of table name of
        Some (OInt i) \<Rightarrow> if i \<le> 0 then Inl ConfigurationError else Inr i
      | _ \<Rightarrow> Inl ConfigurationError)"

definition resolved_path :: "'p PathOps \<Rightarrow> string \<Rightarrow> 'p \<Rightarrow> 'p" where
  "resolved_path ops raw_value base_directory =
     (let candidate = pt_expanduser ops (pt_path ops raw_value) in
      pt_resolve ops (if pt_is_absolute ops candidate then candidate else pt_join ops base_directory candidate))"

text \<open>\<open>environment.get(name, fallback)\<close>; the fallback is evaluated first.\<close>

definition environment_get :: "(string \<times> string) list \<Rightarrow> string \<Rightarrow> string \<Rightarrow> string" where
  "environment_get environment name fallback = (case map_of environment name of None \<Rightarrow> fallback | Some v \<Rightarrow> v)"

definition storage_path ::
  "'p PathOps \<Rightarrow> pyobj dict \<Rightarrow> (string \<times> string) list \<Rightarrow> 'p \<Rightarrow> string \<Rightarrow> string \<Rightarrow> 'p res" where
  "storage_path ops storage_table environment base_directory name environment_name =
     rbind (required_text storage_table name) (\<lambda>text.
     let raw_value = environment_get environment environment_name text in
     if py_strip raw_value = [] then Inl ConfigurationError
     else Inr (resolved_path ops (py_strip raw_value) base_directory))"

text \<open>\<open>isinstance(configured_port, str)\<close> and not blank; then the environment may replace it.\<close>

definition serial_port :: "pyobj dict \<Rightarrow> (string \<times> string) list \<Rightarrow> string res" where
  "serial_port serial_table environment =
     (case map_of serial_table ''port'' of
        Some (OStr configured_port) \<Rightarrow>
          if py_strip configured_port = [] then Inl ConfigurationError
          else let port = py_strip (environment_get environment ''USAC_SERIAL_PORT'' configured_port) in
            if port = [] then Inl ConfigurationError else Inr port
      | _ \<Rightarrow> Inl ConfigurationError)"

definition load_runtime_config ::
  "'p PathOps \<Rightarrow> 'p \<Rightarrow> pyobj dict \<Rightarrow> (string \<times> string) list \<Rightarrow> 'p RuntimeConfig res" where
  "load_runtime_config ops path document environment =
     (let config_path = pt_resolve ops path in
     rbind (required_table document ''serial'') (\<lambda>serial_table.
     rbind (required_table document ''storage'') (\<lambda>storage_table.
     rbind (serial_port serial_table environment) (\<lambda>port.
     let base_directory = pt_parent ops config_path;
         storage = storage_path ops storage_table environment base_directory in
     rbind (positive_integer serial_table ''baudrate'') (\<lambda>baudrate.
     rbind (positive_integer serial_table ''timeout_ms'') (\<lambda>timeout_ms.
     rbind (storage ''data_dir'' ''USAC_DATA_DIR'') (\<lambda>data_dir.
     rbind (storage ''spool_dir'' ''USAC_SPOOL_DIR'') (\<lambda>spool_dir.
     rbind (storage ''sqlite_path'' ''USAC_SQLITE_PATH'') (\<lambda>sqlite_path.
     Inr \<lparr>rtc_serial = \<lparr>sc_port = port, sc_baudrate = baudrate, sc_timeout_ms = timeout_ms\<rparr>,
          rtc_storage = \<lparr>st_data_dir = data_dir, st_spool_dir = spool_dir, st_sqlite_path = sqlite_path\<rparr>\<rparr>)))))))))"

section \<open>Stripped text\<close>

lemma strip_fixed: "t \<noteq> [] \<Longrightarrow> \<not> py_space (hd t) \<Longrightarrow> \<not> py_space (last t) \<Longrightarrow> py_strip t = t"
  using dropWhile_eq_self_iff [of py_space t] dropWhile_eq_self_iff [of py_space "rev t"] by (simp add: py_strip_def hd_rev)

lemma strip_ends:
  assumes "py_strip t \<noteq> []"
  shows "\<not> py_space (hd (py_strip t))" "\<not> py_space (last (py_strip t))"
proof -
  let ?u = "dropWhile py_space t"
  have "last (py_strip t) = hd (dropWhile py_space (rev ?u))"
    using assms by (simp add: py_strip_def last_rev)
  then show "\<not> py_space (last (py_strip t))" using assms hd_dropWhile [of py_space "rev ?u"] by (simp add: py_strip_def)
  obtain v w where u: "?u = v @ w" "v = py_strip t"
    by (metis append_Nil2 py_strip_def rev_append rev_rev_ident takeWhile_dropWhile_id)
  then show "\<not> py_space (hd (py_strip t))" using assms hd_dropWhile [of py_space t] by (metis Nil_is_append_conv hd_append2)
qed

lemma strip_strip [simp]: "py_strip (py_strip t) = py_strip t"
proof (cases "py_strip t = []")
  case True
  show ?thesis unfolding True by (simp add: py_strip_def)
next
  case False
  then show ?thesis using strip_fixed strip_ends by blast
qed

section \<open>What a loaded configuration promises\<close>

text \<open>A text that code may pass on: not blank, no blanks around it.\<close>

definition clean_text :: "string \<Rightarrow> bool" where
  "clean_text t \<longleftrightarrow> t \<noteq> [] \<and> py_strip t = t"

lemma required_text_clean: "required_text table name = Inr t \<Longrightarrow> clean_text t"
  by (auto simp: required_text_def clean_text_def split: option.splits pyobj.splits if_splits)

lemma serial_port_iff:
  "serial_port table env = Inr port \<longleftrightarrow> (\<exists>text. map_of table ''port'' = Some (OStr text) \<and> py_strip text \<noteq> [] \<and>
     port = py_strip (environment_get env ''USAC_SERIAL_PORT'' text) \<and> port \<noteq> [])"
  by (auto simp: serial_port_def Let_def split: option.splits pyobj.splits)

lemma storage_path_iff:
  "storage_path ops table env base name var = Inr p \<longleftrightarrow> (\<exists>text. required_text table name = Inr text \<and>
     py_strip (environment_get env var text) \<noteq> [] \<and> p = resolved_path ops (py_strip (environment_get env var text)) base)"
  by (auto simp: storage_path_def Let_def)

lemma positive_integer_iff: "positive_integer table name = Inr i \<longleftrightarrow> map_of table name = Some (OInt i) \<and> 0 < i"
  by (auto simp: positive_integer_def split: option.splits pyobj.splits if_splits)

lemma required_table_Inr: "required_table doc name = Inr table \<Longrightarrow> map_of doc name = Some (ODict table)"
  by (auto simp: required_table_def split: option.splits pyobj.splits)

lemma part_errors:
  "required_table doc name = Inl e \<Longrightarrow> e = ConfigurationError"
  "required_text doc name = Inl e \<Longrightarrow> e = ConfigurationError"
  "positive_integer doc name = Inl e \<Longrightarrow> e = ConfigurationError"
  "serial_port doc env = Inl e \<Longrightarrow> e = ConfigurationError"
  by (auto simp: required_table_def required_text_def positive_integer_def serial_port_def Let_def
      split: option.splits pyobj.splits if_splits)

lemma storage_path_error: "storage_path ops table env base name var = Inl e \<Longrightarrow> e = ConfigurationError"
  by (auto simp: storage_path_def Let_def rbind_Inl_iff dest: part_errors split: if_splits)

text \<open>The environment value of a name, stripped, if it is set, and else the text of the file.\<close>

definition chosen :: "(string \<times> string) list \<Rightarrow> string \<Rightarrow> string \<Rightarrow> string" where
  "chosen env name text = py_strip (case map_of env name of None \<Rightarrow> text | Some v \<Rightarrow> v)"


text \<open>Plain POSIX paths without symbolic links or home directories, for the example.\<close>

definition posix_paths :: "string PathOps" where
  "posix_paths = \<lparr>pt_path = id, pt_expanduser = id, pt_is_absolute = (\<lambda>p. take 1 p = ''/''),
     pt_join = (\<lambda>a b. a @ ''/'' @ b), pt_resolve = (\<lambda>p. if take 1 p = ''/'' then p else ''/'' @ p),
     pt_parent = (\<lambda>p. rev (drop 1 (dropWhile (\<lambda>ch. ch \<noteq> CHR ''/'') (rev p))))\<rparr>"

definition demo_document :: "pyobj dict" where
  "demo_document = [(''serial'', ODict [(''port'', OStr ''COM3''), (''baudrate'', OInt 115200), (''timeout_ms'', OInt 2000)]),
     (''storage'', ODict [(''data_dir'', OStr ''data''), (''spool_dir'', OStr '' spool ''), (''sqlite_path'', OStr ''/db'')])]"


end
