(* ===== verification/Core_Server.thy ===== *)
theory Core_Server
  imports Bridge_Client Application Handoff
begin

text \<open>
  The acceptor thread of \<open>core_server.py\<close>, which publishes a fresh bridge session behind the stable device object
  whenever a bridge connects. What the listening socket will return is a list: a connection, or the exception that
  \<open>accept\<close> raises; with the list used up the thread waits in \<open>accept\<close>. The client factory is an argument, as in the
  code; it runs on the state that it shares with the rest of the process, which for the bridge is the capture store.
\<close>

section \<open>The acceptor\<close>

record ('k, 's, 'c) Acceptor =
  acc_shared :: 's
  acc_device :: "'c ReconnectableClient"
  acc_closed :: "'k list"
  acc_warnings :: "exn list"

definition accept_replacement_bridge ::
  "('c \<Rightarrow> HelloResponse option) \<Rightarrow> ('k \<Rightarrow> ('s, 'c) meth) \<Rightarrow> 'k res \<Rightarrow> (('k, 's, 'c) Acceptor, unit) meth" where
  "accept_replacement_bridge hello client_factory incoming =
     mbind (mlift incoming) (\<lambda>connection.
     mbind (mcatch (mzoom acc_shared (\<lambda>s a. a\<lparr>acc_shared := s\<rparr>) (client_factory connection))
       (\<lambda>e. mbind (mupd (\<lambda>a. a\<lparr>acc_closed := acc_closed a @ [connection]\<rparr>)) (\<lambda>_. mraise e))) (\<lambda>replacement.
     mupd (\<lambda>a. a\<lparr>acc_device := rc_replace hello replacement (acc_device a)\<rparr>)))"

text \<open>How far the thread has come: waiting for the next bridge, returned, or ended by an exception it does not catch.\<close>

datatype acceptor_end = Waiting | Returned | Raised exn

text \<open>The order of the two \<open>except\<close> clauses is the order of the code.\<close>

fun accept_replacement_bridges ::
  "('c \<Rightarrow> HelloResponse option) \<Rightarrow> ('k \<Rightarrow> ('s, 'c) meth) \<Rightarrow> 'k res list \<Rightarrow> ('k, 's, 'c) Acceptor
     \<Rightarrow> acceptor_end \<times> ('k, 's, 'c) Acceptor" where
  "accept_replacement_bridges hello client_factory [] a = (Waiting, a)"
| "accept_replacement_bridges hello client_factory (incoming # listener) a =
     (case accept_replacement_bridge hello client_factory incoming a of
        (Inr _, a') \<Rightarrow> accept_replacement_bridges hello client_factory listener a'
      | (Inl e, a') \<Rightarrow>
          if is_OSError e then (Returned, a')
          else if e \<in> {ConnectionError, TimeoutError} \<or> is_ValueError e \<or> is_RuntimeError e
          then accept_replacement_bridges hello client_factory listener (a'\<lparr>acc_warnings := acc_warnings a' @ [e]\<rparr>)
          else (Raised e, a'))"

section \<open>The bridge client factory\<close>

text \<open>An accepted connection: the bytes it will return, and the random nonce of its HELLO.\<close>

record BridgeConnection =
  cn_chunks :: "bytes list"
  cn_nonce :: bytes

definition bridge_client_factory :: "BridgeConnection \<Rightarrow> (CaptureStore, BridgeDeviceClient) meth" where
  "bridge_client_factory connection store =
     (case bc_init (cn_nonce connection) (new_bridge_client (cn_chunks connection) (Some store)) of
        (r, client) \<Rightarrow> (rbind r (\<lambda>_. Inr client), case bc_replay_store client of None \<Rightarrow> store | Some s \<Rightarrow> s))"

text \<open>\<open>create_bridge_api(connection=None)\<close> leaves a device without a session.\<close>

definition bridge_acceptor :: "CaptureStore \<Rightarrow> (BridgeConnection, CaptureStore, BridgeDeviceClient) Acceptor" where
  "bridge_acceptor store = \<lparr>acc_shared = store, acc_device = rc_new bc_hello None, acc_closed = [], acc_warnings = []\<rparr>"

abbreviation bridge_loop ::
  "BridgeConnection res list \<Rightarrow> (BridgeConnection, CaptureStore, BridgeDeviceClient) Acceptor
     \<Rightarrow> acceptor_end \<times> (BridgeConnection, CaptureStore, BridgeDeviceClient) Acceptor" where
  "bridge_loop \<equiv> accept_replacement_bridges bc_hello bridge_client_factory"

section \<open>What is published\<close>

text \<open>
  The contract between the acceptor and a client factory: what the factory returns satisfies \<open>P\<close>. Then everything that was
  ever published does, and the published session always describes the current client.
\<close>

locale client_factory =
  fixes hello :: "'c \<Rightarrow> HelloResponse option" and factory :: "'k \<Rightarrow> ('s, 'c) meth" and P :: "'c \<Rightarrow> bool"
  assumes made: "factory k s = (Inr c, s') \<Longrightarrow> P c"
begin

definition published :: "('k, 's, 'c) Acceptor \<Rightarrow> bool" where
  "published a \<longleftrightarrow> (let d = acc_device a in pred_option P (rc_client d) \<and> list_all P (rc_retired d) \<and>
     rc_published_session d = session_view hello (rc_client d) (rc_session_generation d) \<and>
     rc_session_generation d = int (length (rc_retired d)) + (if rc_client d = None then 0 else 1))"

lemma published_warnings: "published (a\<lparr>acc_warnings := ws\<rparr>) = published a"
  by (simp add: published_def)

lemma accept_publishes:
  assumes "published a"
  shows "published (snd (accept_replacement_bridge hello factory incoming a))"
proof (cases incoming)
  case (Inl e)
  then show ?thesis using assms by (simp add: accept_replacement_bridge_def mbind_run)
next
  case (Inr k)
  show ?thesis
  proof (cases "factory k (acc_shared a)")
    case (Pair r s)
    have same: "published (a\<lparr>acc_shared := s, acc_closed := cs\<rparr>)" for cs using assms by (simp add: published_def)
    show ?thesis
    proof (cases r)
      case (Inl e)
      then show ?thesis using Inr Pair same [of "acc_closed a @ [k]"]
        by (simp add: accept_replacement_bridge_def mbind_run mcatch_run mzoom_def)
    next
      case r: (Inr c)
      have "P c" using made [of k "acc_shared a" c s] Pair r by simp
      then show ?thesis
        using assms Inr Pair r
        by (auto simp: accept_replacement_bridge_def mbind_run mcatch_run mzoom_def published_def Let_def rc_replace_def
            retire_def split: option.splits)
    qed
  qed
qed

lemma loop_publishes: "published a \<Longrightarrow> published (snd (accept_replacement_bridges hello factory listener a))"
proof (induction listener arbitrary: a)
  case (Cons incoming listener)
  have "published (snd (accept_replacement_bridge hello factory incoming a))" by (rule accept_publishes [OF Cons.prems])
  then show ?case
    using Cons.IH by (cases "accept_replacement_bridge hello factory incoming a")
      (simp add: published_warnings split: sum.split)
qed simp

end

text \<open>
  What the handshake of a fresh session leaves alone: a property of the client that does not speak of the connection and
  that a replayed delivery keeps.
\<close>

lemma exchange_keeps:
  fixes Q :: "BridgeDeviceClient \<Rightarrow> bool"
  assumes free: "\<And>c x. Q (c\<lparr>bc_chunks := x\<rparr>) = Q c" "\<And>c y. Q (c\<lparr>bc_sent := y\<rparr>) = Q c"
    "\<And>c n. Q (c\<lparr>bc_sequence := n\<rparr>) = Q c" "\<And>c p. Q (c\<lparr>bc_pending := p\<rparr>) = Q c"
    and replay: "\<And>d. keeps Q (commit_replayed d)"
  shows "keeps Q (bc_request t encoded)" "keeps Q (bc_response None seq t)"
proof -
  have read: "keeps Q (bc_read_exact n)" for n
    by (simp add: keeps_def bc_read_exact_def free split: sum.split prod.split)
  have receive: "keeps Q bc_receive" unfolding bc_receive_def by (intro keeps_rules read)
  have sendall: "keeps Q (bc_sendall f)" for f unfolding bc_sendall_def by (intro keeps_rules) (simp add: free)
  have error: "keeps Q (raise_device_error f)" for f unfolding raise_device_error_def by (intro keeps_rules)
  have accept: "keeps Q (accept_delivery f)" for f
    unfolding accept_delivery_def by (intro keeps_rules error) (simp add: free)
  have confirm: "keeps Q (confirm_delivery sq d r)" for sq d r
    unfolding confirm_delivery_def by (intro keeps_rules sendall keeps_prod receive)
  have capture: "keeps Q (confirm_capture r)" "keeps Q (capture_delivery i)" "keeps Q (release_capture i)" for r i
    unfolding confirm_capture_def capture_delivery_def release_capture_def
    by (intro keeps_rules keeps_prod confirm; simp add: free)+
  have absorb: "keeps Q (absorb_delivery None f)" for f
    unfolding absorb_delivery_def by (simp, intro keeps_rules accept replay capture)
  have loop: "keeps Q (response_loop n None sq u)" for n sq u
  proof (induction n)
    case (Suc n)
    then show ?case unfolding response_loop.simps by (intro keeps_rules keeps_prod receive absorb error)
  qed (simp add: keeps_def)
  show "keeps Q (bc_response None seq t)" unfolding bc_response_def by (intro keeps_rules loop)
  show "keeps Q (bc_request t encoded)"
    unfolding bc_request_def bc_next_sequence_def bc_send_def by (intro keeps_rules sendall) (simp_all add: free)
qed

text \<open>A session that has exchanged HELLO and GET\_CAPABILITIES.\<close>

definition initialised :: "BridgeDeviceClient \<Rightarrow> bool" where
  "initialised c \<longleftrightarrow> bc_hello c \<noteq> None \<and> bc_capabilities c \<noteq> None"

lemma replay_keeps_hello: "keeps (\<lambda>c. bc_hello c = Some h) (commit_replayed d)"
  by (simp add: keeps_def commit_replayed_def split: option.split prod.split)

lemma init_initialises:
  assumes "bc_init nonce c = (Inr (), c')"
  shows "initialised c'"
proof -
  obtain h caps c1 c2 where q: "bc_query_capabilities (c1\<lparr>bc_hello := Some h\<rparr>) = (Inr caps, c2)"
    and c': "bc_hello c' = bc_hello c2" "bc_capabilities c' = Some caps"
    using assms by (auto simp: bc_init_def mbind_ok_iff)
  have "keeps (\<lambda>c. bc_hello c = Some h) bc_query_capabilities"
    unfolding bc_query_capabilities_def by (intro keeps_rules exchange_keeps replay_keeps_hello) simp_all
  from keepsD [OF this, of "c1\<lparr>bc_hello := Some h\<rparr>"] q c' show ?thesis by (simp add: initialised_def)
qed

interpretation bridge: client_factory bc_hello bridge_client_factory initialised
  by unfold_locales (auto simp: bridge_client_factory_def init_initialises split: prod.splits)


text \<open>C21 (safety). A bridge becomes the device only when it is fully initialised: after any sequence of connections, accepted or
  failing, the client behind the device object and every client that was ever behind it has completed HELLO and
  GET\_CAPABILITIES; the published session is exactly that client's HELLO, or disconnected when there is none; and the session
  generation counts the sessions published so far.\<close>

theorem acceptor_publishes_initialised_sessions:
  assumes "bridge_loop listener (bridge_acceptor store) = (r, a)" and "d = acc_device a"
  shows "pred_option initialised (rc_client d) \<and> list_all initialised (rc_retired d) \<and>
    rc_published_session d = session_view bc_hello (rc_client d) (rc_session_generation d) \<and>
    rc_session_generation d = int (length (rc_retired d)) + (if rc_client d = None then 0 else 1)"
proof -
  have "bridge.published (bridge_acceptor store)"
    by (simp add: bridge.published_def bridge_acceptor_def rc_new_def)
  from bridge.loop_publishes [OF this, of listener] assms show ?thesis
    by (simp add: bridge.published_def Let_def)
qed

section \<open>A handshake that fails\<close>

lemma read_exact_error: "read_exact n chunks out = Inl e \<Longrightarrow> e = ConnectionError"
proof (induction n chunks out rule: read_exact.induct)
  case (1 n chunks out)
  obtain chunk rest where r: "recv (n - length out) chunks = (chunk, rest)" by force
  show ?case
    using "1.prems" "1.IH" [OF _ r [symmetric]] r by (auto simp: read_exact.simps [of n chunks] split: if_splits)
qed

lemma receive_short:
  assumes "length (concat (bc_chunks c)) < HEADER_SIZE"
  shows "bc_receive c = (Inl ConnectionError, c\<lparr>bc_chunks := []\<rparr>)"
proof -
  obtain e where e: "read_exact HEADER_SIZE (bc_chunks c) [] = Inl e"
    using assms by (cases "read_exact HEADER_SIZE (bc_chunks c) []") (auto dest: read_exact_consumes)
  then show ?thesis using read_exact_error [OF e] by (simp add: bc_receive_def mbind_run bc_read_exact_def)
qed

lemma hello_encodes:
  assumes "length nonce = 16"
  obtains body where "encode_hello_request \<lparr>hq_host_nonce = nonce, hq_min_version = 1, hq_max_version = 1\<rparr> = Inr body"
    "length body = 20"
proof -
  obtain body where b: "pack hello_request_layout [PBytes nonce, PInt 1, PInt 1, PInt 0] = Inr body"
    using assms fits_packs [of hello_request_layout "[PBytes nonce, PInt 1, PInt 1, PInt 0]"]
    by (auto simp: hello_request_layout_def frange_def)
  moreover have "length body = 20" using pack_length [OF b] by (simp add: hello_request_layout_def)
  ultimately show thesis using that assms by (simp add: encode_hello_request_def)
qed

text \<open>A bridge whose first answer cannot be received.\<close>

lemma broken_handshake:
  assumes "length (cn_nonce k) = 16"
    and "\<And>c. bc_chunks c = cn_chunks k \<Longrightarrow> \<exists>rest. bc_receive c = (Inl e, c\<lparr>bc_chunks := rest\<rparr>)"
  shows "bridge_client_factory k store = (Inl e, store)"
proof -
  obtain body where body: "encode_hello_request \<lparr>hq_host_nonce = cn_nonce k, hq_min_version = 1, hq_max_version = 1\<rparr> = Inr body"
    "length body = 20"
    using hello_encodes [OF assms(1)] .
  have sent: "encode_frame (mk_frame HELLO 1 body FLAG_NONE) = Inr (frame_bytes (mk_frame HELLO 1 body FLAG_NONE))"
    using body(2) by (simp add: encode_frame_iff frame_ok_def PROTOCOL_VERSION_def FLAG_NONE_def)
  let ?c = "(new_bridge_client (cn_chunks k) (Some store))\<lparr>bc_sequence := 1,
    bc_sent := [frame_bytes (mk_frame HELLO 1 body FLAG_NONE)]\<rparr>"
  obtain rest where "bc_receive ?c = (Inl e, ?c\<lparr>bc_chunks := rest\<rparr>)"
    using assms(2) [of ?c] by (auto simp: new_bridge_client_def)
  then show ?thesis
    using body(1) sent
    by (simp add: bridge_client_factory_def bc_init_def bc_hello_exchange_def bc_request_def bc_next_sequence_def bc_send_def
        bc_sendall_def bc_response_def mbind_run mguard_run new_bridge_client_def)
qed

lemma lost_handshake:
  assumes "length (cn_nonce k) = 16" "length (concat (cn_chunks k)) < HEADER_SIZE"
  shows "bridge_client_factory k store = (Inl ConnectionError, store)"
  using assms receive_short by (intro broken_handshake) auto

text \<open>C23 (error). A bridge that disconnects before its first complete frame header ends the acceptor: the constructor raises
  \<open>ConnectionError\<close>, which is an \<open>OSError\<close>, so the first \<open>except\<close> clause returns instead of logging the rejected session. The
  connection is closed, the device keeps the session it had, and no later bridge is ever accepted, although the listening
  socket is still open; the second clause, which names \<open>ConnectionError\<close>, is never reached for it. An invalid frame from the
  bridge, in contrast, is only logged and the next bridge is accepted.\<close>

theorem acceptor_ends_at_lost_handshake:
  assumes "length (cn_nonce k) = 16" and "length (concat (cn_chunks k)) < HEADER_SIZE"
    and "bridge_client_factory bad (acc_shared a) = (Inl ProtocolError, s)"
  shows "bridge_loop (Inr k # later) a = (Returned, a\<lparr>acc_closed := acc_closed a @ [k]\<rparr>) \<and>
    bridge_loop (Inr bad # later) a = bridge_loop later (a\<lparr>acc_shared := s, acc_closed := acc_closed a @ [bad],
      acc_warnings := acc_warnings a @ [ProtocolError]\<rparr>)"
  using lost_handshake [OF assms(1,2), of "acc_shared a"] assms(3)
  by (simp add: accept_replacement_bridge_def mbind_run mcatch_run mzoom_def is_OSError_def is_ValueError_def is_ProtocolError_def)

definition silent_bridge :: BridgeConnection where
  "silent_bridge = \<lparr>cn_chunks = [], cn_nonce = replicate 16 1\<rparr>"

definition noisy_bridge :: BridgeConnection where
  "noisy_bridge = \<lparr>cn_chunks = [replicate 20 0], cn_nonce = replicate 16 1\<rparr>"

lemma noisy_receive: "bc_chunks c = [replicate 20 0] \<Longrightarrow> bc_receive c = (Inl ProtocolError, c\<lparr>bc_chunks := []\<rparr>)"
proof -
  have "read_exact HEADER_SIZE [replicate 20 0] [] = Inr (replicate 16 0, [replicate 4 0])"
    "read_exact (0 + CRC_SIZE) [replicate 4 0] [] = Inr (replicate 4 0, [])"
    "payload_length_field (replicate 16 0) = Inr 0" "decode_frame (replicate 16 0 @ replicate 4 0) = Inl ProtocolError"
    by code_simp+
  then show "bc_chunks c = [replicate 20 0] \<Longrightarrow> ?thesis"
    by (simp add: bc_receive_def mbind_run bc_read_exact_def mguard_run HOST_MAX_PAYLOAD_LENGTH_def)
qed

lemma noisy_handshake: "bridge_client_factory noisy_bridge store = (Inl ProtocolError, store)"
  using noisy_receive by (intro broken_handshake) (auto simp: noisy_bridge_def)

theorem acceptor_ends_at_lost_handshake_witness:
  "bridge_loop [Inr silent_bridge, Inr noisy_bridge] (bridge_acceptor new_store) =
     (Returned, (bridge_acceptor new_store)\<lparr>acc_closed := [silent_bridge]\<rparr>) \<and>
   fst (bridge_loop [Inr noisy_bridge] (bridge_acceptor new_store)) = Waiting"
  using acceptor_ends_at_lost_handshake [of silent_bridge noisy_bridge "bridge_acceptor new_store" _ "[Inr noisy_bridge]", OF _ _ noisy_handshake]
    acceptor_ends_at_lost_handshake [of silent_bridge noisy_bridge "bridge_acceptor new_store" _ "[]", OF _ _ noisy_handshake]
  by (simp add: silent_bridge_def bridge_acceptor_def HEADER_SIZE_def)

text \<open>A bridge whose device answers both requests, with the identifiers 2 and 3.\<close>

lemma receive_first:
  assumes "frame_ok f" "bc_chunks c = frame_bytes f # later"
  shows "bc_receive c = (Inr (f, frame_bytes f), c\<lparr>bc_chunks := later\<rparr>)"
proof -
  have "read_exact 16 (frame_bytes f # later) [] = Inr (header_of f, (payload f @ crc_of f) # later)"
    by (simp add: read_exact.simps frame_bytes_def flip: length_greater_0_conv)
  moreover have "read_exact (length (payload f) + 4) ((payload f @ crc_of f) # later) [] = Inr (payload f @ crc_of f, later)"
    by (simp add: read_exact.simps flip: length_greater_0_conv)
  ultimately show ?thesis
    using assms decode_frame_iff [of "frame_bytes f" f] frame_ok_def [of f]
    by (simp add: bc_receive_def bc_read_exact_def mbind_run mguard_run frame_consts payload_length_header frame_bytes_def)
qed

definition good_hello :: HelloResponse where
  "good_hello = \<lparr>hr_host_nonce = replicate 16 1, hr_boot_id = replicate 16 2,
     hr_device_id = replicate 16 3, hr_negotiated_version = 1, hr_reset_reason = 0, hr_fw_major = 0, hr_fw_minor = 1,
     hr_fw_patch = 0, hr_fw_build = 1, hr_device_state = 0\<rparr>"

definition good_capabilities :: CapabilitiesResponse where
  "good_capabilities = \<lparr>cap_capability_flags = 0x7F, cap_mcu_max_command_payload = 192,
     cap_max_samples = 2048, cap_min_sample_interval_ticks = 120, cap_max_sample_interval_ticks = 960,
     cap_min_burst_period_ticks = 24, cap_max_burst_period_ticks = 800, cap_max_register_pairs = 10,
     cap_max_out3_events = 8, cap_max_out4_events = 8, cap_adc_bits = 12, cap_supported_io_modes = 0x0F\<rparr>"

lemma good_encodes:
  obtains p q where "encode_hello_response good_hello = Inr p" "decode_hello_response p = Inr good_hello"
    "encode_capabilities_response good_capabilities = Inr q" "decode_capabilities_response q = Inr good_capabilities"
    "length p \<le> 8192" "length q \<le> 8192"
proof -
  have "fits hello_response_layout (hello_response_tuple good_hello)" "fits capabilities_layout (capabilities_tuple good_capabilities)"
    by (simp_all add: hello_response_layout_def hello_response_tuple_def good_hello_def capabilities_layout_def
        capabilities_tuple_def good_capabilities_def frange_def)
  then obtain p q where e: "encode_hello_response good_hello = Inr p" "encode_capabilities_response good_capabilities = Inr q"
    using fits_packs [of hello_response_layout "hello_response_tuple good_hello"]
      fits_packs [of capabilities_layout "capabilities_tuple good_capabilities"]
    by (auto simp: encode_hello_response_def encode_capabilities_response_def good_hello_def good_capabilities_def)
  then show thesis
    using that hello_response.dec_enc_message hello_response.enc_outcome_length [OF e(1)] capabilities.dec_enc_message
      capabilities.enc_outcome_length [OF e(2)] by (simp add: hello_response_layout_def capabilities_layout_def)
qed

lemma good_handshake:
  obtains k c where "bridge_client_factory k new_store = (Inr c, new_store)" "bc_hello c = Some good_hello"
proof -
  obtain p q where p: "encode_hello_response good_hello = Inr p" "decode_hello_response p = Inr good_hello"
    "encode_capabilities_response good_capabilities = Inr q" "decode_capabilities_response q = Inr good_capabilities"
    "length p \<le> 8192" "length q \<le> 8192"
    by (rule good_encodes)
  obtain body where body: "encode_hello_request \<lparr>hq_host_nonce = replicate 16 1, hq_min_version = 1, hq_max_version = 1\<rparr> = Inr body"
    "length body = 20"
    using hello_encodes [of "replicate 16 1"] by auto
  let ?f = "mk_frame HELLO 1 p FLAG_RESPONSE" and ?g = "mk_frame GET_CAPABILITIES 2 q FLAG_RESPONSE"
  let ?k = "\<lparr>cn_chunks = [frame_bytes ?f, frame_bytes ?g], cn_nonce = replicate 16 1\<rparr>"
  have ok: "frame_ok (mk_frame t i b fl)" if "length b \<le> 8192" "fl \<in> {FLAG_NONE, FLAG_RESPONSE}" "i \<in> {1, 2}" for t i b fl
    using that by (auto simp: frame_ok_def PROTOCOL_VERSION_def FLAG_NONE_def FLAG_RESPONSE_def)
  have sent: "encode_frame (mk_frame t i b FLAG_NONE) = Inr (frame_bytes (mk_frame t i b FLAG_NONE))"
    if "length b \<le> 8192" "i \<in> {1, 2}" for t i b
    using ok that by (simp add: encode_frame_iff)
  have got: "bc_chunks c = [frame_bytes ?f, frame_bytes ?g] \<Longrightarrow> bc_receive c = (Inr (?f, frame_bytes ?f), c\<lparr>bc_chunks := [frame_bytes ?g]\<rparr>)"
    "bc_chunks c = [frame_bytes ?g] \<Longrightarrow> bc_receive c = (Inr (?g, frame_bytes ?g), c\<lparr>bc_chunks := []\<rparr>)" for c
    using receive_first ok p(5,6) by simp_all
  have flag: "FLAG_RESPONSE AND FLAG_RESPONSE \<noteq> 0" "hr_host_nonce good_hello = replicate 16 1"
    by (simp_all add: FLAG_RESPONSE_def good_hello_def)
  have "\<exists>c. bridge_client_factory ?k new_store = (Inr c, new_store) \<and> bc_hello c = Some good_hello"
    using p(1-4) body(1) flag sent [of body 1] sent [of "[]" 2] body(2)
    by (simp add: got bridge_client_factory_def bc_init_def bc_hello_exchange_def bc_query_capabilities_def bc_request_def
        bc_next_sequence_def bc_send_def bc_sendall_def bc_response_def mbind_run mguard_run new_bridge_client_def
        raise_device_error_def del: and.idem)
  then show thesis using that by blast
qed

theorem acceptor_publishes_initialised_sessions_witness:
  "\<exists>listener a. bridge_loop listener (bridge_acceptor new_store) = (Waiting, a) \<and>
     map_option initialised (rc_client (acc_device a)) = Some True \<and> rc_session_generation (acc_device a) = 1 \<and>
     pub_device_id (rc_published_session (acc_device a)) = Some (replicate 16 3)"
proof -
  obtain k c where k: "bridge_client_factory k new_store = (Inr c, new_store)" "bc_hello c = Some good_hello"
    by (rule good_handshake)
  let ?a = "(bridge_acceptor new_store)\<lparr>acc_device := rc_replace bc_hello c (rc_new bc_hello None)\<rparr>"
  have run: "bridge_loop [Inr k] (bridge_acceptor new_store) = (Waiting, ?a)"
    using k(1) by (simp add: accept_replacement_bridge_def mbind_run mcatch_run mzoom_def bridge_acceptor_def)
  have d: "rc_client (acc_device ?a) = Some c" "rc_retired (acc_device ?a) = []"
    by (simp_all add: rc_replace_def rc_new_def retire_def)
  from acceptor_publishes_initialised_sessions [OF run refl] d k(2)
  have "map_option initialised (rc_client (acc_device ?a)) = Some True \<and> rc_session_generation (acc_device ?a) = 1 \<and>
     pub_device_id (rc_published_session (acc_device ?a)) = Some (replicate 16 3)"
    by (simp add: session_view_def good_hello_def)
  with run show ?thesis by blast
qed

end
