(* ===== verification/Bridge_Service.thy ===== *)
theory Bridge_Service
  imports Reconnect Meth_Logic
begin

text \<open>
  The bridge service of \<open>bridge_cli.py\<close>: one session opens the serial port and the connection to the core, runs the proxy of
  \<open>bridge_session.py\<close> and closes both; the supervisor of \<open>reconnect.py\<close> repeats it. The serial port, the sockets and the proxy are
  operations on a state of the host, which every definition takes as a record. DTR is the line that lets the board drive its
  transmitter.
\<close>

section \<open>One session\<close>

record ('h, 'k) BridgePorts =
  bp_new_serial :: "('h, unit) meth"
  bp_open :: "('h, unit) meth"
  bp_is_open :: "'h \<Rightarrow> bool"
  bp_set_dtr :: "bool \<Rightarrow> ('h, unit) meth"
  bp_reset_input_buffer :: "('h, unit) meth"
  bp_reset_output_buffer :: "('h, unit) meth"
  bp_close :: "('h, unit) meth"
  bp_create_connection :: "('h, 'k) meth"
  bp_close_connection :: "'k \<Rightarrow> ('h, unit) meth"
  bp_proxy_session :: "'k \<Rightarrow> ('h, unit) meth"
  bp_sleep :: "rat \<Rightarrow> ('h, unit) meth"

record BridgeArgs =
  ba_timeout_s :: rat
  ba_reconnect_attempts :: int
  ba_reconnect_delay_s :: rat
  ba_confirm_external_vpwr_7v :: bool

text \<open>The local variable \<open>core_connection\<close> beside the state of the host.\<close>

record ('h, 'k) SessionVars =
  sv_host :: 'h
  sv_core :: "'k option"

definition on_host :: "('h, 'a) meth \<Rightarrow> (('h, 'k) SessionVars, 'a) meth" where
  "on_host = mzoom sv_host (\<lambda>h s. s\<lparr>sv_host := h\<rparr>)"

definition session_body :: "('h, 'k) BridgePorts \<Rightarrow> BridgeArgs \<Rightarrow> (('h, 'k) SessionVars, unit) meth" where
  "session_body ops args =
     mbind (on_host (retry_connection (bp_open ops) (bp_sleep ops) (ba_reconnect_attempts args) (ba_reconnect_delay_s args))) (\<lambda>_.
     mbind (on_host (bp_set_dtr ops False)) (\<lambda>_.
     mbind (on_host (bp_sleep ops (3 / 20))) (\<lambda>_.
     mbind (on_host (bp_reset_input_buffer ops)) (\<lambda>_.
     mbind (on_host (bp_reset_output_buffer ops)) (\<lambda>_.
     mbind (on_host (bp_set_dtr ops True)) (\<lambda>_.
     mbind (on_host (retry_connection (bp_create_connection ops) (bp_sleep ops) (ba_reconnect_attempts args) (ba_reconnect_delay_s args))) (\<lambda>k.
     mbind (mupd (\<lambda>s. s\<lparr>sv_core := Some k\<rparr>)) (\<lambda>_.
     on_host (bp_proxy_session ops k)))))))))"

definition session_cleanup :: "('h, 'k) BridgePorts \<Rightarrow> (('h, 'k) SessionVars, unit) meth" where
  "session_cleanup ops =
     mbind mget (\<lambda>s.
     mbind (if bp_is_open ops (sv_host s)
            then mbind (on_host (bp_set_dtr ops False)) (\<lambda>_.
                 mbind (on_host (bp_sleep ops (1 / 10))) (\<lambda>_.
                 on_host (bp_close ops)))
            else mret ()) (\<lambda>_.
     case sv_core s of
       None \<Rightarrow> mret ()
     | Some k \<Rightarrow> mcatch (on_host (bp_close_connection ops k)) (\<lambda>e. if is_OSError e then mret () else mraise e)))"

definition run_one_session :: "('h, 'k) BridgePorts \<Rightarrow> BridgeArgs \<Rightarrow> ('h, unit) meth" where
  "run_one_session ops args h =
     (case mbind (on_host (bp_new_serial ops)) (\<lambda>_. mfinally (session_body ops args) (session_cleanup ops))
             \<lparr>sv_host = h, sv_core = None\<rparr> of
        (r, s) \<Rightarrow> (r, sv_host s))"

text \<open>\<open>SystemExit\<close> before the service starts, or the end of the supervisor.\<close>

datatype service_end = Refused | Ended "unit res"

definition serve ::
  "('h, 'k) BridgePorts \<Rightarrow> (rat \<Rightarrow> 'h \<Rightarrow> 'h) \<Rightarrow> BridgeArgs \<Rightarrow> 'h \<Rightarrow> (service_end \<times> 'h) option" where
  "serve ops pause args h =
     (if \<not> ba_confirm_external_vpwr_7v args then Some (Refused, h)
      else map_option (map_prod Ended id)
        (supervise_sessions (run_one_session ops args) (ba_reconnect_delay_s args) (\<lambda>h. (False, h)) pause h))"

definition bridge_main ::
  "('h, 'k) BridgePorts \<Rightarrow> (rat \<Rightarrow> 'h \<Rightarrow> 'h) \<Rightarrow> BridgeArgs \<Rightarrow> 'h \<Rightarrow> (service_end \<times> 'h) option" where
  "bridge_main ops pause args h =
     (if ba_timeout_s args \<le> 0 then Some (Refused, h)
      else if ba_reconnect_attempts args < 1 \<or> ba_reconnect_delay_s args < 0 then Some (Refused, h)
      else serve ops pause args h)"

section \<open>What the session relies on\<close>

text \<open>
  \<open>dtr\<close> tells whether the line is asserted. A new port object is closed with the line released; no operation leaves a closed port with the
  line asserted; releasing the line of an open port and closing it work; sleeping changes neither.
\<close>

definition dtr_safe :: "('h, 'k) BridgePorts \<Rightarrow> ('h \<Rightarrow> bool) \<Rightarrow> 'h \<Rightarrow> bool" where
  "dtr_safe ops dtr h \<longleftrightarrow> (bp_is_open ops h \<or> \<not> dtr h)"

definition port_off :: "('h, 'k) BridgePorts \<Rightarrow> ('h \<Rightarrow> bool) \<Rightarrow> 'h \<Rightarrow> bool" where
  "port_off ops dtr h \<longleftrightarrow> \<not> bp_is_open ops h \<and> \<not> dtr h"

definition ports_contract :: "('h, 'k) BridgePorts \<Rightarrow> ('h \<Rightarrow> bool) \<Rightarrow> bool" where
  "ports_contract ops dtr \<longleftrightarrow>
     (\<forall>h. port_off ops dtr h \<longrightarrow> port_off ops dtr (snd (bp_new_serial ops h))) \<and>
     keeps (dtr_safe ops dtr) (bp_open ops) \<and> (\<forall>b. keeps (dtr_safe ops dtr) (bp_set_dtr ops b)) \<and>
     keeps (dtr_safe ops dtr) (bp_reset_input_buffer ops) \<and> keeps (dtr_safe ops dtr) (bp_reset_output_buffer ops) \<and>
     keeps (dtr_safe ops dtr) (bp_create_connection ops) \<and> (\<forall>k. keeps (dtr_safe ops dtr) (bp_proxy_session ops k)) \<and>
     (\<forall>k. keeps (port_off ops dtr) (bp_close_connection ops k)) \<and> (\<forall>t. keeps (dtr_safe ops dtr) (bp_sleep ops t)) \<and>
     (\<forall>h. bp_is_open ops h \<longrightarrow> (\<exists>h'. bp_set_dtr ops False h = (Inr (), h') \<and> bp_is_open ops h' \<and> \<not> dtr h')) \<and>
     (\<forall>h t. bp_is_open ops h \<and> \<not> dtr h \<longrightarrow> (\<exists>h'. bp_sleep ops t h = (Inr (), h') \<and> bp_is_open ops h' \<and> \<not> dtr h')) \<and>
     (\<forall>h. bp_is_open ops h \<and> \<not> dtr h \<longrightarrow> (\<exists>h'. bp_close ops h = (Inr (), h') \<and> port_off ops dtr h'))"

lemma retry_keeps:
  assumes "keeps I operation" "\<And>t. keeps I (sleep t)"
  shows "keeps I (retry_connection operation sleep attempts delay)"
proof -
  have "I s \<Longrightarrow> I (snd (retry_loop operation sleep n d s))" for n d s
  proof (induction n arbitrary: d s)
    case (Suc n)
    obtain r s1 where o: "operation s = (r, s1)" by force
    have s1: "I s1" using keepsD [OF assms(1) Suc.prems] o by simp
    obtain r2 s2 where sl: "sleep d s1 = (r2, s2)" by force
    have "I s2" using keepsD [OF assms(2) s1] sl by (metis snd_conv)
    then show ?case using Suc.IH o s1 sl by (auto split: sum.split)
  qed simp
  then show ?thesis by (simp add: keeps_def retry_connection_def)
qed

lemma on_host_keeps: "keeps I m \<Longrightarrow> keeps (\<lambda>s. I (sv_host s)) (on_host m)"
  by (simp add: keeps_def on_host_def mzoom_def split_def)

lemma body_safe:
  assumes "ports_contract ops dtr"
  shows "keeps (\<lambda>s. dtr_safe ops dtr (sv_host s)) (session_body ops args)"
  using assms unfolding session_body_def ports_contract_def
  by (intro keeps_bind keeps_basic on_host_keeps retry_keeps keeps_mupd) simp_all

lemma cleanup_off:
  assumes "ports_contract ops dtr" "dtr_safe ops dtr (sv_host s)"
  shows "port_off ops dtr (sv_host (snd (session_cleanup ops s)))"
proof -
  have core: "keeps (\<lambda>s. port_off ops dtr (sv_host s))
      (case c of None \<Rightarrow> mret () | Some k \<Rightarrow> mcatch (on_host (bp_close_connection ops k)) (\<lambda>e. if is_OSError e then mret () else mraise e))" for c
    using assms(1) unfolding ports_contract_def by (intro keeps_option keeps_mcatch keeps_if keeps_basic on_host_keeps) simp_all
  show ?thesis
  proof (cases "bp_is_open ops (sv_host s)")
    case False
    then show ?thesis
      using keepsD [OF core, of s "sv_core s"] assms(2) by (simp add: session_cleanup_def mbind_run port_off_def dtr_safe_def)
  next
    case True
    obtain h1 where h1: "bp_set_dtr ops False (sv_host s) = (Inr (), h1)" "bp_is_open ops h1" "\<not> dtr h1"
      using assms(1) True unfolding ports_contract_def by metis
    obtain h2 where h2: "bp_sleep ops (1 / 10) h1 = (Inr (), h2)" "bp_is_open ops h2" "\<not> dtr h2"
      using assms(1) h1(2,3) unfolding ports_contract_def by metis
    obtain h3 where h3: "bp_close ops h2 = (Inr (), h3)" "port_off ops dtr h3"
      using assms(1) h2(2,3) unfolding ports_contract_def by metis
    have "session_cleanup ops s = (case sv_core s of None \<Rightarrow> mret () | Some k \<Rightarrow> mcatch (on_host (bp_close_connection ops k))
        (\<lambda>e. if is_OSError e then mret () else mraise e)) (s\<lparr>sv_host := h3\<rparr>)"
      using True h1(1) h2(1) h3(1) by (simp add: session_cleanup_def mbind_run on_host_def mzoom_def)
    then show ?thesis using keepsD [OF core, of "s\<lparr>sv_host := h3\<rparr>" "sv_core s"] h3(2) by simp
  qed
qed

text \<open>A port that fails while its line is released keeps its file open, and the core's connection with it: nothing after the failing
  assignment of the \<open>finally\<close> block runs.\<close>

lemma cleanup_stops_at_dtr:
  assumes "bp_is_open ops (sv_host s)" "bp_set_dtr ops False (sv_host s) = (Inl e, h)"
  shows "session_cleanup ops s = (Inl e, s\<lparr>sv_host := h\<rparr>)"
  using assms by (simp add: session_cleanup_def mbind_run on_host_def mzoom_def)

lemma session_off:
  assumes "ports_contract ops dtr" "port_off ops dtr h"
  shows "port_off ops dtr (snd (run_one_session ops args h))"
proof -
  obtain r h1 where n: "bp_new_serial ops h = (r, h1)" by force
  have h1: "port_off ops dtr h1"
    using assms n unfolding ports_contract_def by (metis snd_conv)
  obtain r2 s2 where b: "session_body ops args \<lparr>sv_host = h1, sv_core = None\<rparr> = (r2, s2)" by force
  have "dtr_safe ops dtr (sv_host s2)"
    using keepsD [OF body_safe [OF assms(1)], of "\<lparr>sv_host = h1, sv_core = None\<rparr>" args] h1 b
    by (simp add: dtr_safe_def port_off_def)
  from cleanup_off [OF assms(1) this] show ?thesis
    using n h1 b by (cases "session_cleanup ops s2")
      (auto simp: run_one_session_def mbind_run on_host_def mzoom_def mfinally_run split: sum.split)
qed

text \<open>What a returning supervisor of this session shows.\<close>

definition ends_off ::
  "('h, 'k) BridgePorts \<Rightarrow> ('h \<Rightarrow> bool) \<Rightarrow> BridgeArgs \<Rightarrow> (rat \<Rightarrow> 'h \<Rightarrow> 'h) \<Rightarrow>
     ('h, unit) meth \<Rightarrow> rat \<Rightarrow> ('h \<Rightarrow> bool \<times> 'h) \<Rightarrow> (rat \<Rightarrow> 'h \<Rightarrow> 'h) \<Rightarrow> 'h \<Rightarrow> unit res \<times> 'h \<Rightarrow> bool" where
  "ends_off ops dtr args pause run delay stop sleep g y \<longleftrightarrow>
     (run = run_one_session ops args \<longrightarrow> stop = (\<lambda>h. (False, h)) \<longrightarrow> sleep = pause \<longrightarrow> port_off ops dtr g \<longrightarrow>
      port_off ops dtr (snd y) \<and> (\<exists>e. fst y = Inl e \<and> \<not> is_OSError e))"

lemma supervise_off:
  assumes c: "ports_contract ops dtr" and p: "\<And>t h. port_off ops dtr h \<Longrightarrow> port_off ops dtr (pause t h)"
  shows "supervise_loop run delay stop sleep g = Some y \<Longrightarrow> ends_off ops dtr args pause run delay stop sleep g y"
proof (erule supervise_loop.raw_induct [rotated, where P = "ends_off ops dtr args pause"])
  fix f run delay stop sleep g y
  assume IH: "\<And>run delay stop sleep g y. f run delay stop sleep g = Some y \<Longrightarrow> ends_off ops dtr args pause run delay stop sleep g y"
    and eq: "(let (st, s1) = stop g in if st then Some (Inr (), s1) else let (r, s2) = run s1 in
      if case r of Inl e \<Rightarrow> \<not> is_OSError e | Inr _ \<Rightarrow> False then Some (r, s2)
      else let (st', s3) = stop s2 in f run delay stop sleep (if st' then s3 else sleep delay s3)) = Some y"
  show "ends_off ops dtr args pause run delay stop sleep g y"
    unfolding ends_off_def
  proof (intro impI)
    assume run: "run = run_one_session ops args" "stop = (\<lambda>h. (False, h))" "sleep = pause" and g: "port_off ops dtr g"
    obtain r s2 where one: "run_one_session ops args g = (r, s2)" by force
    have off: "port_off ops dtr s2" using session_off [OF c g, of args] one by simp
    show "port_off ops dtr (snd y) \<and> (\<exists>e. fst y = Inl e \<and> \<not> is_OSError e)"
    proof (cases "case r of Inl e \<Rightarrow> \<not> is_OSError e | Inr _ \<Rightarrow> False")
      case True
      then show ?thesis using eq run one off by (auto split: sum.splits)
    next
      case False
      then have "f run delay stop sleep (pause delay s2) = Some y" using eq run one by simp
      from IH [OF this] show ?thesis using run p [OF off] by (simp add: ends_off_def)
    qed
  qed
qed


section \<open>A port that obeys\<close>

text \<open>The port and the line as two flags; the proxy loses the device.\<close>

definition plain_ports :: "(bool \<times> bool, unit) BridgePorts" where
  "plain_ports = \<lparr>bp_new_serial = mupd (\<lambda>_. (False, False)), bp_open = mupd (\<lambda>(_, d). (True, d)), bp_is_open = fst,
     bp_set_dtr = (\<lambda>b. mupd (\<lambda>(o', d). (o', o' \<and> b))), bp_reset_input_buffer = mret (), bp_reset_output_buffer = mret (),
     bp_close = mupd (\<lambda>(_, d). (False, d)), bp_create_connection = mret (), bp_close_connection = (\<lambda>_. mret ()),
     bp_proxy_session = (\<lambda>_. mraise ConnectionError), bp_sleep = (\<lambda>_. mret ())\<rparr>"

definition plain_args :: BridgeArgs where
  "plain_args = \<lparr>ba_timeout_s = 3, ba_reconnect_attempts = 3, ba_reconnect_delay_s = 1 / 10, ba_confirm_external_vpwr_7v = True\<rparr>"


end
