(* ===== verification/Group_Export.thy ===== *)
theory Group_Export
  imports Application
begin

text \<open>
  \<open>group_export.py\<close>: the archive of one group. A ZIP file is the list of its members in the order they were written; the
  text that \<open>json.dumps\<close> gives is represented by the value it serialises. A member of a capture is written as
  soon as its row has been read, so a failing row leaves a truncated file behind, which the callers delete: only the
  archive of a complete export is modelled.
\<close>

datatype member = RawMember bytes | JsonMember "pyobj dict"

type_synonym archive = "(string \<times> member) list"

definition experiment_dict :: "ExperimentRow \<Rightarrow> pyobj dict" where
  "experiment_dict x = [(''experiment_id'', OStr (ex_experiment_id x)), (''name'', OStr (ex_name x)), (''notes'', OStr (ex_notes x)),
     (''created_utc_ns'', OInt (ex_created_utc_ns x)), (''updated_utc_ns'', OInt (ex_updated_utc_ns x))]"

definition group_dict :: "GroupObject \<Rightarrow> pyobj dict" where
  "group_dict o' = (let g = go_group o' in
     [(''group_id'', OStr (gr_group_id g)), (''experiment_id'', OStr (gr_experiment_id g)), (''name'', OStr (gr_name g)),
      (''cell_id'', OStr (gr_cell_id g)), (''notes'', OStr (gr_notes g)), (''created_utc_ns'', OInt (gr_created_utc_ns g)),
      (''updated_utc_ns'', OInt (gr_updated_utc_ns g)), (''archived_count'', OInt (go_archived_count o'))])"

definition record_grouping :: "CaptureRecord \<Rightarrow> pyobj dict" where
  "record_grouping r = [(''group_id'', opt_str (rc_group_id r)), (''experiment_id'', opt_str (rc_experiment_id r)),
     (''group_name'', opt_str (rc_group_name r)), (''experiment_name'', opt_str (rc_experiment_name r)),
     (''cell_id'', opt_str (rc_cell_id r))]"

definition capture_metadata :: "pyobj dict \<Rightarrow> pyobj dict \<Rightarrow> CaptureRecord \<Rightarrow> pyobj dict" where
  "capture_metadata group_doc experiment r =
     [(''capture_id'', OStr (py_hex (rc_capture_id r))), (''device_id'', OStr (py_hex (rc_device_id r))),
      (''boot_id'', OStr (py_hex (rc_boot_id r))), (''request_id'', OStr (py_hex (rc_request_id r))),
      (''profile_sha256'', OStr (py_hex (rc_profile_sha256 r))),
      (''device_config_crc32'', OInt (rc_device_config_crc32 r)),
      (''capture_sequence'', OInt (rc_capture_sequence r)),
      (''sample_interval_ticks'', OInt (rc_sample_interval_ticks r)),
      (''burst_period_ticks'', OInt (rc_burst_period_ticks r)), (''sample_count'', OInt (rc_sample_count r)),
      (''pretrigger_count'', OInt (rc_pretrigger_count r)), (''adc_bits'', OInt (rc_adc_bits r)),
      (''sample_encoding'', OInt (rc_sample_encoding r)), (''vref_mv'', OInt (rc_vref_mv r)),
      (''smclk_nominal_hz'', OInt (rc_smclk_nominal_hz r)), (''smclk_calibrated_hz'', OInt (rc_smclk_calibrated_hz r)),
      (''frame_start_tick48'', OInt (rc_frame_start_tick48 r)),
      (''t_trigger_offset_ticks'', OInt (rc_t_trigger_offset_ticks r)),
      (''adc0_hold_offset_ticks'', OInt (rc_adc0_hold_offset_ticks r)),
      (''adc_aperture_ns'', OInt (rc_adc_aperture_ns r)),
      (''trigger_to_tx_output_ns'', OInt (rc_trigger_to_tx_output_ns r)),
      (''calibration_version'', OInt (rc_calibration_version r)), (''quality_flags'', OInt (rc_quality_flags r)),
      (''tuss_dev_stat'', OInt (rc_tuss_dev_stat r)), (''out3_start_level'', OInt (rc_out3_start_level r)),
      (''out4_start_level'', OInt (rc_out4_start_level r)), (''transport_crc32'', OInt (rc_transport_crc32 r)),
      (''requested_config'', ODict (rc_requested_config r)), (''encoded_config'', ODict (rc_encoded_config r)),
      (''readback_config'', ODict (rc_readback_config r)), (''actual_config'', ODict (rc_actual_config r)),
      (''run_plan'', ODict (rc_run_plan r)), (''adc_clipping'', OBool (rc_adc_clipping r)),
      (''interpolated'', OBool (rc_interpolated r)),
      (''events'', OList (map (\<lambda>e. ODict (event_record_dict e)) (rc_events r))),
      (''grouping_metadata'', ODict (record_grouping r)), (''group'', ODict group_doc), (''experiment'', ODict experiment)]"

text \<open>The three members of a capture.\<close>

definition capture_members :: "pyobj dict \<Rightarrow> pyobj dict \<Rightarrow> CaptureRecord \<Rightarrow> archive" where
  "capture_members group_doc experiment r =
     (let capture_id = py_hex (rc_capture_id r) in
      [(capture_id @ ''.usac'', RawMember (rc_wire_frame r)), (capture_id @ ''.u16le'', RawMember (rc_sample_blob r)),
       (capture_id @ ''.json'', JsonMember (capture_metadata group_doc experiment r))])"

definition write_group_export :: "string \<Rightarrow> (pyobj dict \<times> archive) db" where
  "write_group_export group_id =
     mbind (group_export_snapshot group_id) (\<lambda>(group_row, experiment_row, records).
     let group_doc = group_dict group_row; experiment = experiment_dict experiment_row;
         capture_ids = map (\<lambda>r. py_hex (rc_capture_id r)) records;
         manifest = [(''experiment'', ODict experiment), (''group'', ODict group_doc),
           (''capture_ids'', OList (map OStr capture_ids)), (''capture_count'', OInt (int (length capture_ids)))] in
     mret (manifest, concat (map (capture_members group_doc experiment) records) @ [(''manifest.json'', JsonMember manifest)]))"

definition app_write_group_export :: "string \<Rightarrow> ('c, pyobj dict \<times> archive) world" where
  "app_write_group_export group_id = on_store (write_group_export group_id)"

section \<open>Member names\<close>

definition member_names :: "bytes \<Rightarrow> string list" where
  "member_names i = [py_hex i @ ''.usac'', py_hex i @ ''.u16le'', py_hex i @ ''.json'']"

lemma capture_member_names: "map fst (capture_members g x r) = member_names (rc_capture_id r)"
  by (simp add: capture_members_def member_names_def Let_def)

lemma hex_digit_no_dot: "n < 16 \<Longrightarrow> hex_digit n \<noteq> CHR ''.''"
  using hex_digit_props [of n] by (auto simp: hex_val_def)

lemma hex_no_dot: "CHR ''.'' \<notin> set (py_hex i)"
proof (induction i)
  case (Cons b i)
  have "unat b < 256" using unsigned_less [of b] by simp
  then have "unat b div 16 < 16" by simp
  then show ?case using Cons hex_digit_no_dot [of "unat b div 16"] hex_digit_no_dot [of "unat b mod 16"] by (auto simp: py_hex_Cons)
qed simp

definition stem :: "string \<Rightarrow> string" where
  "stem = takeWhile (\<lambda>ch. ch \<noteq> CHR ''.'')"

lemma stem_of_member: "n \<in> set (member_names i) \<Longrightarrow> stem n = py_hex i"
proof -
  have "stem (py_hex i @ CHR ''.'' # t) = py_hex i" for t
  proof -
    have "\<forall>ch \<in> set (py_hex i). ch \<noteq> CHR ''.''" using hex_no_dot [of i] by auto
    then show ?thesis by (simp add: stem_def takeWhile_append2)
  qed
  then show "n \<in> set (member_names i) \<Longrightarrow> stem n = py_hex i" by (auto simp: member_names_def)
qed

lemma manifest_apart: "''manifest.json'' \<notin> set (member_names i)"
proof
  assume "''manifest.json'' \<in> set (member_names i)"
  then have "fromhex ''manifest'' = Inr i" using stem_of_member [of "''manifest.json''" i] fromhex_hex [of i] by (simp add: stem_def)
  moreover have "fromhex ''manifest'' = Inl ValueError" by code_simp
  ultimately show False by simp
qed

lemma distinct_names: "distinct is \<Longrightarrow> distinct (concat (map member_names is) @ [''manifest.json''])"
proof (induction "is")
  case (Cons i js)
  have "set (member_names i) \<inter> set (member_names j) = {}" if "j \<in> set js" for j
    using that Cons.prems stem_of_member [of _ i] stem_of_member [of _ j] by (metis disjoint_iff distinct.simps(2) py_hex_inject)
  then show ?case using Cons manifest_apart [of i] by (auto simp: member_names_def)
qed simp

section \<open>What an export contains\<close>

text \<open>The three members of an archived row and what their contents are.\<close>

definition row_exported :: "archive \<Rightarrow> ArchivedCapture \<Rightarrow> bool" where
  "row_exported a r \<longleftrightarrow> (\<exists>f c d. decode_frame (ar_wire_frame r) = Inr f \<and> decode_capture_data (payload f) = Inr c \<and>
     (py_hex (ar_capture_id r) @ ''.usac'', RawMember (ar_wire_frame r)) \<in> set a \<and>
     (py_hex (ar_capture_id r) @ ''.u16le'', RawMember (sample_bytes (cd_samples c))) \<in> set a \<and>
     (py_hex (ar_capture_id r) @ ''.json'', JsonMember d) \<in> set a \<and>
     map_of d ''sample_count'' = Some (OInt (int (length (cd_samples c)))) \<and>
     map_of d ''transport_crc32'' = Some (OInt (crc32_iso_hdlc (ar_wire_frame r))) \<and>
     map_of d ''device_id'' = Some (OStr (py_hex (cd_device_id c))))"

lemma exported_ids:
  "list_all2 (exported g x) rows records \<Longrightarrow> map rc_capture_id records = map ar_capture_id rows"
  by (induction rule: list_all2_induct) (auto simp: exported_def)

lemma exported_row:
  assumes "exported g x r rc" "set (capture_members gd xd rc) \<subseteq> set a"
  shows "row_exported a r"
proof -
  obtain f c where fc: "decode_frame (ar_wire_frame r) = Inr f" "decode_capture_data (payload f) = Inr c"
    "record_of_capture (ar_wire_frame r) c rc" "rc_capture_id rc = ar_capture_id r"
    using assms(1) by (auto simp: exported_def)
  have "int (length (cd_samples c)) = cd_sample_count c"
    using encode_decoded_capture [OF fc(2)] by (simp add: encode_capture_data_iff capture_ok_def)
  then show ?thesis
    unfolding row_exported_def
    by (intro exI [of _ f] exI [of _ c] exI [of _ "capture_metadata gd xd rc"])
      (use fc assms(2) in \<open>auto simp: capture_members_def capture_metadata_def record_of_capture_def Let_def\<close>)
qed

lemma exported_rows:
  assumes "list_all2 (exported g x) rows records" "set (concat (map (capture_members gd xd) records)) \<subseteq> set a"
  shows "list_all (row_exported a) rows"
  using assms by (induction rule: list_all2_induct) (auto intro: exported_row)

lemma write_export_run:
  assumes "store_inv s" and "grouping_inv s" and "g \<in> set (db_groups s)"
    and "validate_entity_id (gr_group_id g) = Inr (gr_group_id g)"
    and "rows = filter (\<lambda>r. ar_group_id r = Some (gr_group_id g)) (db_captures s)"
  shows "\<exists>manifest archive. write_group_export (gr_group_id g) s = (Inr (manifest, archive), s) \<and>
    map fst archive = concat (map (member_names \<circ> ar_capture_id) rows) @ [''manifest.json''] \<and>
    (''manifest.json'', JsonMember manifest) \<in> set archive \<and> list_all (row_exported archive) rows \<and>
    map_of manifest ''capture_ids'' = Some (OList (map (OStr \<circ> py_hex \<circ> ar_capture_id) rows)) \<and>
    map_of manifest ''capture_count'' = Some (OInt (int (length rows))) \<and>
    (distinct (map ar_capture_id rows) \<longrightarrow> distinct (map fst archive))"
proof -
  obtain x records where snap: "group_export_snapshot (gr_group_id g) s = (Inr (group_object s g, x, records), s)"
    and all: "list_all2 (exported g x) rows records"
    using group_export_run [OF assms(1-4)] assms(5) by metis
  note ids = exported_ids [OF all]
  let ?m = "[(''experiment'', ODict (experiment_dict x)), (''group'', ODict (group_dict (group_object s g))),
    (''capture_ids'', OList (map OStr (map (\<lambda>r. py_hex (rc_capture_id r)) records))), (''capture_count'', OInt (int (length records)))]"
  let ?a = "concat (map (capture_members (group_dict (group_object s g)) (experiment_dict x)) records) @ [(''manifest.json'', JsonMember ?m)]"
  have run: "write_group_export (gr_group_id g) s = (Inr (?m, ?a), s)"
    by (simp add: write_group_export_def mbind_run snap Let_def)
  have names: "map fst ?a = concat (map (member_names \<circ> ar_capture_id) rows) @ [''manifest.json'']"
    using ids by (simp add: map_concat comp_def capture_member_names) (metis (no_types, lifting) list.map_comp comp_apply map_eq_conv)
  have "distinct (map ar_capture_id rows) \<Longrightarrow> distinct (map fst ?a)"
    unfolding names using distinct_names [of "map ar_capture_id rows"] by (simp only: map_map)
  moreover have "list_all (row_exported ?a) rows"
    by (rule exported_rows [OF all, of "group_dict (group_object s g)" "experiment_dict x"]) auto
  moreover have "map_of ?m ''capture_ids'' = Some (OList (map (OStr \<circ> py_hex \<circ> ar_capture_id) rows))"
    using arg_cong [OF ids, of "map (OStr \<circ> py_hex)"] by (simp add: comp_def)
  moreover have "map_of ?m ''capture_count'' = Some (OInt (int (length rows)))" using list_all2_lengthD [OF all] by simp
  moreover have "(''manifest.json'', JsonMember ?m) \<in> set ?a" by simp
  ultimately show ?thesis using run names by blast
qed



end
