(* ===== verification/Export_Cli.thy ===== *)
theory Export_Cli
  imports Group_Export
begin

text \<open>
  \<open>export_cli.py\<close>: offline access to committed captures. A command is a read of the store that returns what it prints and the files it
  writes; the parsing of the command line, the output directory and the check that a group export does not overwrite the
  database file are left to the caller.
\<close>

text \<open>The argument types; \<open>ArgumentTypeError\<close> is \<^const>\<open>None\<close>.\<close>

definition cli_capture_id :: "string \<Rightarrow> bytes option" where
  "cli_capture_id value = (case fromhex value of Inl _ \<Rightarrow> None | Inr decoded \<Rightarrow> if length decoded \<noteq> 16 then None else Some decoded)"

definition cli_group_id :: "string \<Rightarrow> string option" where
  "cli_group_id value =
     (if length value \<noteq> 32 \<or> list_ex (\<lambda>ch. ch \<notin> set ''0123456789abcdef'') value then None else Some value)"

definition cli_metadata :: "CaptureRecord \<Rightarrow> pyobj dict" where
  "cli_metadata r =
     [(''capture_id'', OStr (py_hex (rc_capture_id r))), (''device_id'', OStr (py_hex (rc_device_id r))),
      (''boot_id'', OStr (py_hex (rc_boot_id r))), (''request_id'', OStr (py_hex (rc_request_id r))),
      (''profile_sha256'', OStr (py_hex (rc_profile_sha256 r))),
      (''device_config_crc32'', OInt (rc_device_config_crc32 r)),
      (''capture_sequence'', OInt (rc_capture_sequence r)),
      (''sample_interval_ticks'', OInt (rc_sample_interval_ticks r)),
      (''burst_period_ticks'', OInt (rc_burst_period_ticks r)), (''sample_count'', OInt (rc_sample_count r)),
      (''pretrigger_count'', OInt (rc_pretrigger_count r)), (''quality_flags'', OInt (rc_quality_flags r)),
      (''interpolated'', OBool False)]"

definition cli_record :: "bytes \<Rightarrow> (CaptureRecord \<times> pyobj dict) db" where
  "cli_record capture_id =
     mbind (get_capture capture_id) (\<lambda>r.
     mbind (grouping_metadata (rc_group_id r)) (\<lambda>grouping.
     mret (r, AList.update ''grouping_metadata'' (grouping_dict grouping) (cli_metadata r))))"

definition cli_show :: "bytes \<Rightarrow> pyobj dict db" where
  "cli_show capture_id = mbind (cli_record capture_id) (\<lambda>(r, metadata). mret metadata)"

definition cli_download :: "bytes \<Rightarrow> (pyobj dict \<times> archive) db" where
  "cli_download capture_id =
     mbind (cli_record capture_id) (\<lambda>(r, metadata).
     let stem = py_hex (rc_capture_id r) in
     mret (dict_update metadata [(''raw_frame'', OStr (stem @ ''.usac'')), (''samples'', OStr (stem @ ''.u16le'')),
             (''metadata'', OStr (stem @ ''.json''))],
       [(stem @ ''.usac'', RawMember (rc_wire_frame r)), (stem @ ''.u16le'', RawMember (rc_sample_blob r)),
        (stem @ ''.json'', JsonMember metadata)]))"

definition cli_group :: "string \<Rightarrow> (pyobj dict \<times> archive) db" where
  "cli_group group_id = mbind (get_group group_id) (\<lambda>_. write_group_export group_id)"

section \<open>Agreement with the store and with the group export\<close>

text \<open>The command line accepts exactly the group identifiers the store accepts.\<close>

lemma cli_group_id_iff: "cli_group_id v = Some w \<longleftrightarrow> validate_entity_id v = Inr w"
proof -
  have "list_ex (\<lambda>ch. ch \<notin> A) v \<longleftrightarrow> \<not> set v \<subseteq> A" for A by (auto simp: list_ex_iff)
  then show ?thesis by (simp only: cli_group_id_def validate_entity_id_def split: if_split) simp
qed

lemma cli_capture_id_hex: "length i = 16 \<Longrightarrow> cli_capture_id (py_hex i) = Some i"
  by (simp add: cli_capture_id_def)

text \<open>A capture downloaded alone has the bytes of its members in the export of its group.\<close>

lemma download_matches_export:
  assumes inv: "store_inv s" "grouping_inv s" and g: "g \<in> set (db_groups s)"
    "validate_entity_id (gr_group_id g) = Inr (gr_group_id g)"
    and r: "r \<in> set (db_captures s)" "ar_group_id r = Some (gr_group_id g)"
    "\<And>r'. r' \<in> set (db_captures s) \<Longrightarrow> ar_capture_id r' = ar_capture_id r \<Longrightarrow> r' = r"
    and e: "write_group_export (gr_group_id g) s = (Inr (manifest, archive), s)"
    and d: "cli_download (ar_capture_id r) s = (Inr (printed, files), s')"
    and i: "i = py_hex (ar_capture_id r)"
  obtains samples where "s' = s" "(i @ ''.usac'', RawMember (ar_wire_frame r)) \<in> set files \<inter> set archive"
    "(i @ ''.u16le'', RawMember samples) \<in> set files \<inter> set archive"
proof -
  obtain rc f c where got: "get_capture (ar_capture_id r) s = (Inr rc, s)" "decode_frame (ar_wire_frame r) = Inr f"
    "decode_capture_data (payload f) = Inr c" "record_of_capture (ar_wire_frame r) c rc"
    using capture_reads_back [OF inv(1) r(1,3)] by metis
  have id: "rc_capture_id rc = ar_capture_id r"
  proof -
    obtain f' c' where "decode_frame (ar_wire_frame r) = Inr f'" "decode_capture_data (payload f') = Inr c'" "ar_key r = cd_key c'"
      using row_reads_back [OF inv(1) r(1)] by metis
    then show ?thesis using got(2-4) by (simp add: ar_key_def cd_key_def record_of_capture_def)
  qed
  have "r \<in> set (filter (\<lambda>r. ar_group_id r = Some (gr_group_id g)) (db_captures s))" using r(1,2) by simp
  then have "row_exported archive r"
    using write_export_run [OF inv g refl] e by (auto simp: list_all_iff)
  then have a: "(i @ ''.usac'', RawMember (ar_wire_frame r)) \<in> set archive"
    "(i @ ''.u16le'', RawMember (sample_bytes (cd_samples c))) \<in> set archive"
    using got(2,3) i by (auto simp: row_exported_def)
  have b: "rc_wire_frame rc = ar_wire_frame r" "rc_sample_blob rc = sample_bytes (cd_samples c)"
    using got(4) by (simp_all add: record_of_capture_def)
  show thesis
    by (rule that [of "sample_bytes (cd_samples c)"])
      (use d got(1) a b id i in \<open>auto simp: cli_download_def cli_record_def mbind_run Let_def grouping_metadata_def split: prod.splits sum.splits option.splits\<close>)
qed

end
