(* ===== verification/Api.thy ===== *)
theory Api
  imports App_Properties Group_Export
begin

text \<open>
  The routes of \<open>api.py\<close>. A handler runs one operation of the application service and turns its exceptions into status
  codes with its own \<open>except\<close> clauses, in their order; an exception that no clause names becomes the framework's 500. The
  request bodies have been parsed by the framework, so a handler takes their values. Not modelled: the static
  pages, \<open>health\<close>, \<open>storage\<close> and \<open>schema\<close>, the JSON text of the responses, and the detail texts of the errors.
\<close>

section \<open>Responses\<close>

datatype 'a http = Reply int 'a | HttpError int | ServerError exn

type_synonym ('c, 'a) handler = "'c World SingleDeviceExecutor \<Rightarrow> 'a http \<times> 'c World SingleDeviceExecutor"
type_synonym clauses = "((exn \<Rightarrow> bool) \<times> int) list"

definition http_error :: "clauses \<Rightarrow> exn \<Rightarrow> 'a http" where
  "http_error clauses e = (case find (\<lambda>(matches, _). matches e) clauses of
     None \<Rightarrow> ServerError e | Some (_, code) \<Rightarrow> HttpError code)"

definition respond :: "int \<Rightarrow> clauses \<Rightarrow> ('c, 'a) app \<Rightarrow> ('c, 'a) handler" where
  "respond status clauses m s = (case m s of (Inr v, s') \<Rightarrow> (Reply status v, s') | (Inl e, s') \<Rightarrow> (http_error clauses e, s'))"

abbreviation exactly :: "exn \<Rightarrow> exn \<Rightarrow> bool" where
  "exactly e \<equiv> (\<lambda>e'. e' = e)"

text \<open>The clauses that most routes of the store share.\<close>

definition store_clauses :: clauses where
  "store_clauses = [(exactly CaptureStorageUnavailable, 503), (exactly KeyError, 404), (is_ValueError, 422)]"

definition lookup_clauses :: clauses where
  "lookup_clauses = [(exactly KeyError, 404), (is_ValueError, 422)]"

section \<open>Experiments and groups\<close>

definition api_experiments :: "('c, ExperimentRow list) handler" where
  "api_experiments = respond 200 [(exactly CaptureStorageUnavailable, 503)] (on_world app_list_experiments)"

definition api_create_experiment :: "string \<Rightarrow> string \<Rightarrow> ('c, ExperimentRow) handler" where
  "api_create_experiment name notes = respond 201 [(exactly CaptureStorageUnavailable, 503), (is_ValueError, 422)]
     (on_world (app_create_experiment (OStr name) (OStr notes)))"

definition api_update_experiment :: "string \<Rightarrow> pyobj dict \<Rightarrow> ('c, ExperimentRow) handler" where
  "api_update_experiment experiment_id body = respond 200 store_clauses (on_world (app_update_experiment experiment_id body))"

definition api_groups :: "string \<Rightarrow> ('c, GroupObject list) handler" where
  "api_groups experiment_id = respond 200 store_clauses (on_world (app_list_groups experiment_id))"

definition api_create_group :: "string \<Rightarrow> string \<Rightarrow> string \<Rightarrow> string \<Rightarrow> ('c, GroupObject) handler" where
  "api_create_group experiment_id name cell_id notes = respond 201 store_clauses
     (on_world (app_create_group experiment_id (OStr name) (OStr cell_id) (OStr notes)))"

definition api_update_group :: "string \<Rightarrow> pyobj dict \<Rightarrow> ('c, GroupObject) handler" where
  "api_update_group group_id body = respond 200 store_clauses (on_world (app_update_group group_id body))"

definition hex_char :: "char \<Rightarrow> bool" where
  "hex_char ch \<longleftrightarrow> ch \<in> set ''0123456789abcdefABCDEF''"

text \<open>\<open>tuple(dict.fromkeys(identifiers))\<close> keeps the first of equal identifiers.\<close>

fun hex_ids :: "string list \<Rightarrow> bytes list res" where
  "hex_ids [] = Inr []"
| "hex_ids (value # rest) =
     (if length value \<noteq> 32 \<or> list_ex (\<lambda>ch. \<not> hex_char ch) value then Inl ValueError
      else rbind (fromhex value) (\<lambda>i. rbind (hex_ids rest) (\<lambda>is. Inr (i # is))))"

definition capture_ids :: "string list \<Rightarrow> bytes list res" where
  "capture_ids values' =
     rbind (hex_ids values') (\<lambda>identifiers.
     let distinct_ids = rev (remdups (rev identifiers)) in
     if \<not> (1 \<le> length distinct_ids \<and> length distinct_ids \<le> 500) then Inl ValueError else Inr distinct_ids)"

definition api_assign_capture_group :: "string list \<Rightarrow> string option \<Rightarrow> ('c, int) handler" where
  "api_assign_capture_group ids group_id = respond 200 store_clauses
     (mbind (mlift (capture_ids ids)) (\<lambda>is. on_world (app_assign_capture_group is group_id)))"

definition api_export_group :: "string \<Rightarrow> ('c, pyobj dict \<times> archive) handler" where
  "api_export_group group_id s =
     (case respond 200 store_clauses (on_world (app_grouping_metadata (Some group_id))) s of
        (Reply _ _, s') \<Rightarrow>
          respond 200 [(exactly KeyError, 404), (is_ValueError, 422), (exactly CaptureStorageUnavailable, 503)]
            (on_world (app_write_group_export group_id)) s'
      | (HttpError code, s') \<Rightarrow> (HttpError code, s')
      | (ServerError e, s') \<Rightarrow> (ServerError e, s'))"

section \<open>Configuration\<close>

definition api_device :: "AppConfig \<Rightarrow> 'c World DeviceClient \<Rightarrow> bool \<Rightarrow> int \<Rightarrow> ('c, DeviceStatusView) handler" where
  "api_device cfg dev lock_free now = respond 200 [] (app_device cfg dev lock_free now)"

definition api_config :: "AppConfig \<Rightarrow> 'c World DeviceClient \<Rightarrow> ('c, ConfigurationSnapshot \<times> string) handler" where
  "api_config cfg dev = respond 200 [] (mbind (app_config cfg dev) (\<lambda>snapshot. mbind (app_etag cfg dev) (\<lambda>etag. mret (snapshot, etag))))"

definition api_validate_config :: "AppConfig \<Rightarrow> 'c World DeviceClient \<Rightarrow> pyobj dict \<Rightarrow> ('c, ValidationResult) handler" where
  "api_validate_config cfg dev changes = respond 200 [(is_ValueError, 422)] (app_validate_config cfg dev changes)"

definition api_save_draft :: "AppConfig \<Rightarrow> 'c World DeviceClient \<Rightarrow> pyobj dict \<Rightarrow> ('c, ConfigurationSnapshot) handler" where
  "api_save_draft cfg dev changes = respond 200 [(exactly SessionConflict, 409), (is_ValueError, 422)] (save_draft cfg dev changes)"

text \<open>The \<open>ETag\<close> of the response is read outside the \<open>try\<close>.\<close>

definition api_apply_config ::
  "AppConfig \<Rightarrow> 'c World DeviceClient \<Rightarrow> pyobj dict \<Rightarrow> string option \<Rightarrow> ('c, ConfigurationSnapshot \<times> string) handler" where
  "api_apply_config cfg dev changes if_match s =
     (case if_match of
        None \<Rightarrow> (HttpError 428, s)
      | Some expected_etag \<Rightarrow>
          (case respond 200 [(exactly ConfigurationEtagConflict, 409), (exactly SessionConflict, 409), (exactly DeviceUnavailable, 503),
                  (exactly ConfigValidationError, 422), (is_ValueError, 422)] (app_apply_config cfg dev changes expected_etag) s of
             (Reply _ snapshot, s') \<Rightarrow> respond 200 [] (mbind (app_etag cfg dev) (\<lambda>etag. mret (snapshot, etag))) s'
           | (HttpError code, s') \<Rightarrow> (HttpError code, s')
           | (ServerError e, s') \<Rightarrow> (ServerError e, s')))"

section \<open>Captures\<close>

definition api_capture_once ::
  "AppConfig \<Rightarrow> 'c World DeviceClient \<Rightarrow> string \<Rightarrow> int \<Rightarrow> string \<Rightarrow> int \<Rightarrow> SavePolicy \<Rightarrow> string option \<Rightarrow> ('c, pyobj dict) handler" where
  "api_capture_once cfg dev profile crc trigger_source sync_timeout_ms save_policy group_id =
     respond 201 [(exactly ConfigConflictError, 409), (exactly DeviceUnavailable, 503), (exactly SessionConflict, 409),
       (exactly CaptureStorageUnavailable, 503), (exactly KeyError, 404), (\<lambda>e. is_ValueError e \<or> is_RuntimeError e, 422)]
       (app_capture_once cfg dev profile crc trigger_source sync_timeout_ms save_policy group_id)"

definition api_captures ::
  "int \<Rightarrow> int option \<Rightarrow> listing_filter \<Rightarrow> ('c, (CaptureSummary \<times> GroupingMetadata) list \<times> int option) handler" where
  "api_captures limit cursor f = respond 200 store_clauses (on_world (app_captures limit cursor f))"

definition api_capture :: "string \<Rightarrow> ('c, pyobj dict) handler" where
  "api_capture capture_id = respond 200 lookup_clauses (on_world (app_capture capture_id))"

definition api_capture_samples :: "string \<Rightarrow> ('c, bytes \<times> string) handler" where
  "api_capture_samples capture_id = respond 200 lookup_clauses (on_world (app_capture_samples capture_id))"

section \<open>Sessions\<close>

definition api_start_periodic ::
  "AppConfig \<Rightarrow> 'c World DeviceClient \<Rightarrow> int \<Rightarrow> string \<Rightarrow> int \<Rightarrow> int \<Rightarrow> int \<Rightarrow> int \<Rightarrow> SavePolicy \<Rightarrow> string option
     \<Rightarrow> ('c, SessionSummary) handler" where
  "api_start_periodic cfg dev now_ms profile crc period_us requested_count lease_timeout_ms save_policy group_id =
     respond 202 [(\<lambda>e. e = ConfigConflictError \<or> e = SessionConflict, 409), (exactly CaptureStorageUnavailable, 503),
       (exactly DeviceUnavailable, 503), (exactly KeyError, 404), (\<lambda>e. is_ValueError e \<or> is_RuntimeError e, 422)]
       (start_periodic cfg dev now_ms profile crc period_us requested_count lease_timeout_ms save_policy group_id)"

definition api_stop_periodic ::
  "AppConfig \<Rightarrow> 'c World DeviceClient \<Rightarrow> ('c, unit) app \<Rightarrow> string \<Rightarrow> string \<Rightarrow> ('c, SessionSummary) handler" where
  "api_stop_periodic cfg dev others session_id schedule_id =
     respond 200 [(exactly SessionConflict, 409), (exactly KeyError, 404), (exactly DeviceUnavailable, 503), (is_ValueError, 422)]
       (stop_periodic cfg dev others session_id schedule_id)"

definition api_session :: "string \<Rightarrow> ('c, SessionSummary) handler" where
  "api_session session_id = respond 200 lookup_clauses (on_world (app_session session_id))"

definition api_start_sweep ::
  "AppConfig \<Rightarrow> 'c World DeviceClient \<Rightarrow> string \<Rightarrow> int \<Rightarrow> string \<Rightarrow> pyobj list \<Rightarrow> int \<Rightarrow> int \<Rightarrow> int \<Rightarrow> string \<Rightarrow> int \<Rightarrow> SavePolicy
     \<Rightarrow> string option \<Rightarrow> ('c, SessionSummary) handler" where
  "api_start_sweep cfg dev profile crc field_name vals loops start_delay_ms loop_delay_ms trigger_source sync_timeout_ms save_policy group_id =
     respond 202 [(\<lambda>e. e = ConfigConflictError \<or> e = SessionConflict, 409), (exactly CaptureStorageUnavailable, 503),
       (exactly DeviceUnavailable, 503), (exactly KeyError, 404), (is_ValueError, 422)]
       (start_sweep cfg dev profile crc field_name vals loops start_delay_ms loop_delay_ms trigger_source sync_timeout_ms save_policy group_id)"

definition api_sweep :: "string \<Rightarrow> ('c, SessionSummary) handler" where
  "api_sweep sweep_id = respond 200 lookup_clauses (on_world (app_sweep sweep_id))"

definition api_stop_sweep :: "string \<Rightarrow> ('c, SessionSummary) handler" where
  "api_stop_sweep sweep_id = respond 200 lookup_clauses (on_world (stop_sweep sweep_id))"

section \<open>Requests without a clause\<close>

text \<open>Stopping a sweep through the route of periodic sessions reads an attribute a sweep does not have; the route of sweeps answers the
  converse mistake with 404.\<close>

lemma stop_periodic_of_sweep:
  assumes "session_identifier session_id = Inr i" "i \<in> set (wd_sessions (xc_client s))"
    and "wd_objects (xc_client s) i = Some x" "as_kind x = SweepKind plan"
  shows "fst (api_stop_periodic cfg dev others session_id schedule_id s) = ServerError AttributeError"
  using assms by (simp add: api_stop_periodic_def respond_def http_error_def stop_periodic_def begin_stop_def mbind_run mguard_run
      on_world_def on_xc_client_def mzoom_def the_session_def is_ValueError_def is_ProtocolError_def)

text \<open>Without a store the listing answers 503, but reading one capture is a server error.\<close>

lemma reads_without_store:
  assumes "wd_store (xc_client s) = None"
  shows "fst (api_captures limit cursor f s) = HttpError 503"
    "fst (api_capture capture_id s) = ServerError CaptureStorageUnavailable"
    "fst (api_capture_samples capture_id s) = ServerError CaptureStorageUnavailable"
  using assms by (simp_all add: api_captures_def api_capture_def api_capture_samples_def app_captures_def app_capture_def
      app_capture_samples_def respond_def http_error_def store_clauses_def lookup_clauses_def mbind_run on_world_def
      on_xc_client_def mzoom_def on_store_def is_ValueError_def is_ProtocolError_def)

section \<open>The identifiers of an assignment\<close>

lemma hex_chars: "hex_char ch \<Longrightarrow> hex_val ch \<noteq> None \<and> \<not> is_space ch"
proof -
  have "\<forall>ch \<in> set ''0123456789abcdefABCDEF''. hex_val ch \<noteq> None \<and> \<not> is_space ch" by code_simp
  then show "hex_char ch \<Longrightarrow> hex_val ch \<noteq> None \<and> \<not> is_space ch" unfolding hex_char_def by blast
qed

lemma fromhex_chars:
  "list_all hex_char t \<Longrightarrow> even (length t) \<Longrightarrow>
     \<exists>i. fromhex t = Inr i \<and> 2 * length i = length t"
proof (induction t rule: fromhex.induct)
  case (3 c d cs)
  then have h: "hex_val c \<noteq> None" "hex_val d \<noteq> None" "\<not> is_space c" using hex_chars [of c] hex_chars [of d] by simp_all
  have "\<exists>i. fromhex cs = Inr i \<and> 2 * length i = length cs" using 3 h by (auto; blast)
  then show ?case using h by auto
qed auto

text \<open>A well-formed identifier and the bytes it names.\<close>

definition names_capture :: "string \<Rightarrow> bytes \<Rightarrow> bool" where
  "names_capture t i \<longleftrightarrow> length t = 32 \<and> list_all hex_char t \<and> fromhex t = Inr i"

lemma names_capture_iff:
  "names_capture t i \<longleftrightarrow> length t = 32 \<and> \<not> list_ex (\<lambda>ch. \<not> hex_char ch) t \<and> fromhex t = Inr i"
  by (simp add: names_capture_def list_all_iff list_ex_iff)

lemma names_capture_length: "names_capture t i \<Longrightarrow> length i = 16"
  using fromhex_chars [of t] by (auto simp: names_capture_def)

lemma hex_ids_iff: "hex_ids ts = Inr is \<longleftrightarrow> list_all2 names_capture ts is"
proof (induction ts arbitrary: "is")
  case (Cons t ts)
  show ?case by (cases "is") (auto simp: Cons.IH names_capture_iff)
qed auto

lemma hex_ids_error: "hex_ids ts = Inl e \<Longrightarrow> e = ValueError"
  by (induction ts) (auto simp: rbind_Inl_iff dest: fromhex_errors split: if_splits)

text \<open>C25 (bounds). What an assignment request may name: \<open>_capture_ids\<close> succeeds exactly when every text is 32 hexadecimal digits and they name
  between 1 and 500 different captures; it then returns those captures, each once and each of 16 bytes, in the
  order of their first mention, and otherwise raises \<open>ValueError\<close>, so the request is answered with 422.\<close>

theorem capture_ids_bounded:
  "(case capture_ids ts of
      Inr is \<Rightarrow> distinct is \<and> 1 \<le> length is \<and> length is \<le> 500 \<and> list_all (\<lambda>i. length i = 16) is \<and>
        (\<exists>all. list_all2 names_capture ts all \<and> set is = set all \<and> is = rev (remdups (rev all)))
    | Inl e \<Rightarrow> e = ValueError \<and>
        \<not> (\<exists>all. list_all2 names_capture ts all \<and> 1 \<le> card (set all) \<and> card (set all) \<le> 500))"
proof (cases "hex_ids ts")
  case (Inl e)
  then have "\<not> list_all2 names_capture ts all" for all using hex_ids_iff [of ts all] by simp
  then show ?thesis using Inl hex_ids_error [OF Inl] by (simp add: capture_ids_def)
next
  case (Inr all)
  then have names: "list_all2 names_capture ts all" by (simp add: hex_ids_iff)
  have only: "all' = all" if "list_all2 names_capture ts all'" for all' using that Inr hex_ids_iff [of ts all'] by simp
  have len: "length (remdups (rev all)) = card (set all)" by (metis length_remdups_card_conv set_rev)
  have "list_all (\<lambda>i. length i = 16) all"
    using names by (induction rule: list_all2_induct) (auto dest: names_capture_length)
  then have "list_all (\<lambda>i. length i = 16) (rev (remdups (rev all)))" by (simp add: list_all_iff)
  note sixteen = this
  have eq: "capture_ids ts =
      (if 1 \<le> card (set all) \<and> card (set all) \<le> 500 then Inr (rev (remdups (rev all))) else Inl ValueError)"
    using Inr len by (simp add: capture_ids_def Let_def)
  show ?thesis
  proof (cases "1 \<le> card (set all) \<and> card (set all) \<le> 500")
    case True
    then have "capture_ids ts = Inr (rev (remdups (rev all)))" unfolding eq by (rule if_P)
    then show ?thesis using True names len sixteen by auto
  next
    case False
    then have "capture_ids ts = Inl ValueError" unfolding eq by (rule if_not_P)
    moreover have "\<not> (\<exists>all'. list_all2 names_capture ts all' \<and> 1 \<le> card (set all') \<and> card (set all') \<le> 500)"
      using False only by blast
    ultimately show ?thesis by (simp only: sum.case simp_thms)
  qed
qed

section \<open>Writing a configuration\<close>

lemma require_device_only_reads:
  "require_device cfg dev s = (r, s') \<Longrightarrow> \<exists>v. s' = s\<lparr>xc_device_view := v\<rparr> \<and> (r = Inr () \<or> r = Inl DeviceUnavailable)"
  by (auto simp: require_device_def try_device_view_def merge_view_def set_view_def mbind_run mguard_run Let_def split: if_splits)

text \<open>The current tag does not depend on the view, and reading it touches nothing behind the executor.\<close>

lemma etag_any_view:
  "app_etag cfg dev (s\<lparr>xc_device_view := v\<rparr>) =
     (case app_etag cfg dev s of (r, s') \<Rightarrow> (r, s'\<lparr>xc_device_view := v\<rparr>))"
  by (simp add: app_etag_def applied_etag_def refresh_session_def mbind_run Let_def published_session_def mlift_def
      split: sum.split)

lemma etag_keeps:
  "app_etag cfg dev s = (r, s') \<Longrightarrow> xc_client s' = xc_client s \<and> xc_applied_config s' \<in> {xc_applied_config s, None}"
  by (auto simp: app_etag_def applied_etag_def refresh_session_def mbind_run Let_def mlift_def split: sum.splits if_splits)

lemma same_client [simp]: "s\<lparr>xc_client := xc_client s\<rparr> = s"
  by (cases s) simp

lemma idle_only_reads: "on_world require_idle s = (r, s') \<Longrightarrow> s' = s \<and> (r = Inr () \<or> r = Inl SessionConflict)"
  by (auto simp: on_world_def on_xc_client_def mzoom_def require_idle_def mbind_run mguard_run split: if_splits)

text \<open>What a tag that is not the current one leads to.\<close>

lemma stale_etag:
  assumes "app_etag cfg dev s = (Inr etag, s0)" "expected \<noteq> etag"
  obtains e v where "app_apply_config cfg dev changes expected s = (Inl e, v)"
    "e \<in> {DeviceUnavailable, SessionConflict, ConfigurationEtagConflict}" "xc_client v = xc_client s"
    "xc_applied_config v \<in> {xc_applied_config s, None}"
proof -
  obtain r1 s1 where dev: "require_device cfg dev s = (r1, s1)" by force
  obtain vw where s1: "s1 = s\<lparr>xc_device_view := vw\<rparr>" and r1: "r1 = Inr () \<or> r1 = Inl DeviceUnavailable"
    using require_device_only_reads [OF dev] by blast
  obtain r2 s2 where idle: "on_world require_idle s1 = (r2, s2)" by force
  have s2: "s2 = s1" and r2: "r2 = Inr () \<or> r2 = Inl SessionConflict" using idle_only_reads [OF idle] by simp_all
  have tag: "app_etag cfg dev s1 = (Inr etag, s0\<lparr>xc_device_view := vw\<rparr>)" by (simp add: s1 etag_any_view assms(1))
  note keeps = etag_keeps [OF assms(1)]
  consider "r1 = Inl DeviceUnavailable" | "r1 = Inr ()" "r2 = Inl SessionConflict" | "r1 = Inr ()" "r2 = Inr ()" using r1 r2 by blast
  then show thesis
  proof cases
    case 1
    then show thesis using that [of DeviceUnavailable s1] dev s1 by (simp add: app_apply_config_def mbind_run)
  next
    case 2
    then show thesis using that [of SessionConflict s1] dev idle s1 s2 by (simp add: app_apply_config_def mbind_run)
  next
    case 3
    then show thesis using that [of ConfigurationEtagConflict "s0\<lparr>xc_device_view := vw\<rparr>"] dev idle s2 tag keeps assms(2)
      by (simp add: app_apply_config_def mbind_run mguard_run)
  qed
qed



end
