(* ===== verification/Spec2Isabelle.thy ===== *)
theory Spec2Isabelle
  imports Stream Spool Simulator Safety Bridge_Messages Reconnect Run_Plan Simulated_Client Store_Sessions Handoff
    App_Properties Runtime_Config Core_Server Bridge_Service Export_Cli Api
begin

text \<open>
  A verification of the host side of the TUSS4470 ultrasonic acquisition system: the packages
  \<^verbatim>\<open>usac_protocol\<close> (the wire protocol and a device simulator) and \<^verbatim>\<open>usac_runtime\<close> (bridge, capture store, command executor,
  application service and its HTTP interface), all Python under \<^verbatim>\<open>src/packages\<close>.

  \<^bold>\<open>The system.\<close> A microcontroller drives the TUSS4470 front end and speaks framed messages over a serial line. A bridge process
  forwards commands and spools every capture on disk until the core has confirmed it. The core process holds the capture
  store, compiles the operator's semantic parameters to registers, sends them only when they pass the hardware safety
  policy, runs single captures, periodic sessions and sweeps, and serves them over HTTP. What must not go wrong: a capture must
  not be lost or confirmed before it is stored, a corrupted frame must not be accepted, and no configuration outside the
  safety policy may reach the transducer.

  \<^bold>\<open>Conventions.\<close> A Python function that can raise returns \<^typ>\<open>'a res\<close>, with the exception on the left; a method that changes
  state is a \<^typ>\<open>('s, 'a) meth\<close>, a function from the state to the outcome and the new state, also when it raises. Every raise,
  early return and \<open>except\<close> clause of the code is a branch. Unbounded Python integers are \<^typ>\<open>int\<close>, bytes are words of
  8 bits, the CRC and SHA-256 work on words of 32 bits, dictionaries are association lists or maps, finite doubles are rationals rounded after
  each operation. Clocks, random identifiers, sockets, serial ports and the TOML and JSON parsers are arguments.

  \<^bold>\<open>Foundations.\<close> \<^theory_text>\<open>Usac_Prelude\<close> (exceptions, result and state monads, preservation of invariants), \<^theory_text>\<open>Meth_Logic\<close> (weakest
  preconditions of methods), \<^theory_text>\<open>Struct_Codec\<close> (\<open>struct.pack\<close> and \<open>unpack\<close>), \<^theory_text>\<open>Digest\<close> (CRC-32 and SHA-256), \<^theory_text>\<open>Utf8\<close>,
  \<^theory_text>\<open>Hex\<close>, \<^theory_text>\<open>Py_Values\<close> (Python objects and doubles).

  \<^bold>\<open>The protocol\<close> (\<^verbatim>\<open>usac_protocol\<close>).
  \<^item> \<^theory_text>\<open>Frame\<close> (\<^verbatim>\<open>frame.py\<close>), \<^theory_text>\<open>Message_Lengths\<close> (\<^verbatim>\<open>message_lengths.py\<close>) and \<^theory_text>\<open>Stream\<close> (\<^verbatim>\<open>stream.py\<close>): the frame codec and the incremental
    parser. The wire image of a frame is unique, a corruption of one byte is detected, and the parser returns the
    same frames however the bytes are cut into chunks, accounts for every byte and resynchronises after garbage.
  \<^item> \<^theory_text>\<open>Message_Codec\<close>, \<^theory_text>\<open>Messages\<close> (\<^verbatim>\<open>messages.py\<close>), \<^theory_text>\<open>Config_V2\<close> (\<^verbatim>\<open>config_v2.py\<close>), \<^theory_text>\<open>Capture_Data\<close> (\<^verbatim>\<open>capture_data.py\<close>) and
    \<^theory_text>\<open>Bridge_Messages\<close> (\<^verbatim>\<open>bridge_messages.py\<close>): the payloads. The locales of \<^theory_text>\<open>Message_Codec\<close> state what a fixed-layout
    codec is; every payload is an interpretation, from which its round trip follows.
  \<^item> \<^theory_text>\<open>Safety\<close> (\<^verbatim>\<open>safety.py\<close>, \<^verbatim>\<open>tuss4470_spi.py\<close>): exactly which register values the safety policy admits, and the parity of the
    SPI words.
  \<^item> \<^theory_text>\<open>Parameters\<close> (\<^verbatim>\<open>parameters.py\<close>): the register fields; \<^theory_text>\<open>Simulator\<close> (\<^verbatim>\<open>simulator.py\<close>): the simulated device with its
    invariant and its periodic schedule.

  \<^bold>\<open>The bridge\<close> (\<^verbatim>\<open>usac_runtime\<close>).
  \<^item> \<^theory_text>\<open>Spool\<close> (\<^verbatim>\<open>spool.py\<close>): a stored capture stays pending until a matching receipt.
  \<^item> \<^theory_text>\<open>Bridge_Session\<close> (\<^verbatim>\<open>bridge_session.py\<close>): the two threads of the proxy as a step relation; every interleaving keeps every
    capture pending or confirmed and keeps the order of commands.
  \<^item> \<^theory_text>\<open>Reconnect\<close> (\<^verbatim>\<open>reconnect.py\<close>): bounded retries and supervision; \<^theory_text>\<open>Bridge_Service\<close> (\<^verbatim>\<open>bridge_cli.py\<close>): every session leaves the
    port closed with DTR released. What it relies on of the serial port is the predicate \<^const>\<open>ports_contract\<close>.

  \<^bold>\<open>The core\<close> (\<^verbatim>\<open>usac_runtime\<close>).
  \<^item> \<^theory_text>\<open>Save_Policy\<close>, \<^theory_text>\<open>Core_Store\<close>, \<^theory_text>\<open>Store_Sessions\<close>, \<^theory_text>\<open>Store_Groups\<close> (\<^verbatim>\<open>core_store.py\<close>): the SQLite tables as lists of rows, one operation
    per transaction. The invariant of the store and of its groupings is kept by every operation; a commit is durable, a conflict
    changes nothing, archived captures read back, the paged listing is complete.
  \<^item> \<^theory_text>\<open>Bridge_Client\<close> (\<^verbatim>\<open>bridge_device_client.py\<close>) and \<^theory_text>\<open>Core_Server\<close> (the acceptor of \<^verbatim>\<open>core_server.py\<close>): the core's end of the
    connection. \<^theory_text>\<open>Handoff\<close> composes spool, session, client and store: a receipt moves the capture from one to the other.
  \<^item> \<^theory_text>\<open>Parameter_Service\<close> (\<^verbatim>\<open>parameter_service.py\<close>), \<^theory_text>\<open>Run_Plan\<close> (\<^verbatim>\<open>run_plan.py\<close>), \<^theory_text>\<open>Periodic_Lease\<close> (\<^verbatim>\<open>periodic_lease.py\<close>),
    \<^theory_text>\<open>Simulated_Client\<close> (\<^verbatim>\<open>simulated_device_client.py\<close>): drafts, validation and compilation, sweeps, lease renewal.
  \<^item> \<^theory_text>\<open>Device_Session\<close>, \<^theory_text>\<open>Device_Executor\<close>, \<^theory_text>\<open>Executor_Plans\<close> (\<^verbatim>\<open>device_executor.py\<close>): a device client is a record of operations; the
    locale \<^theory_text>\<open>guarded_client\<close> is the contract that the executor keeps towards it, interpreted on a log of the
    commands; run plans complete on the simulated device and restore the baseline.
  \<^item> \<^theory_text>\<open>Application\<close>, \<^theory_text>\<open>App_Sessions\<close> (\<^verbatim>\<open>application.py\<close>): the application service. Its world (device, store, session table,
    clock) is the client state of the executor, because the executor runs the service's callbacks under its lock. \<^theory_text>\<open>App_Steps\<close> gives
    the calls of the interfaces, the workers and the arriving frames as one step relation; \<^theory_text>\<open>App_Host\<close> and \<^theory_text>\<open>App_Safety\<close> prove once,
    in the locale \<^theory_text>\<open>application_device\<close>, what every step keeps; \<^theory_text>\<open>App_Properties\<close> draws the three
    conclusions over every run: one live session, only approved commands, receipts only after storage.
  \<^item> \<^theory_text>\<open>Group_Export\<close> (\<^verbatim>\<open>group_export.py\<close>), \<^theory_text>\<open>Export_Cli\<close> (\<^verbatim>\<open>export_cli.py\<close>), \<^theory_text>\<open>Runtime_Config\<close> (\<^verbatim>\<open>config.py\<close>) and \<^theory_text>\<open>Api\<close> (\<^verbatim>\<open>api.py\<close>): the archive of a group, the
    configuration file, and the routes with their status codes.

  \<^bold>\<open>Loops and bounds.\<close> Loops are structural or have a measure (the parser: the buffer; \<open>read_exact\<close>: the missing bytes). The
  response loop of the bridge client has fuel, one more than the bytes the socket will deliver, which suffices because
  every turn reads a frame of at least 20 bytes. The retry and supervision loops return an option, and their termination is
  a theorem. The worker of a periodic session and the acceptor run over the list of the times they wake and of the
  connections they accept; an execution without end is covered by its finite prefixes.

  \<^bold>\<open>Interleaving.\<close> Operations under one lock are atomic. Where a method releases a lock, the steps of other threads enter as an
  argument (\<open>others\<close>) that the step relation instantiates with every finite sequence of steps; bridge sessions are explicit
  interleavings of the steps of their two threads, which includes all the runs the locks of the code admit.

  \<^bold>\<open>Not modelled.\<close> The firmware (C) and the browser interface (JavaScript), whose languages are not covered; the HTTP command line client and
  the hardware test script, which parse arguments and print; process start-up, sockets and thread creation; creation and migration of the
  SQLite schema, PRAGMAs and the file system; the text of JSON documents, of ZIP files and of error messages; \<open>health\<close>,
  \<open>storage\<close> and \<open>schema\<close> of the service. The core's two views of one store, in the bridge client's replays and in the application,
  are verified separately and not as one run.
\<close>

end
